(* ===== verification/Prelude.thy ===== *)
theory Prelude
  imports Complex_Main "HOL-Library.Multiset" "HOL-Library.AList" "HOL-Library.List_Lexorder" "HOL-Library.Char_ord"
begin

text \<open>
  Shared vocabulary of the development.

  An ECMAScript \<^verbatim>\<open>Map\<close> iterates its keys in insertion order, and \<^verbatim>\<open>set\<close> on a key that
  is present keeps the key's position. Both are what \<^const>\<open>AList.update\<close> does on an
  association list, so a \<^verbatim>\<open>Map\<close> is modelled as an association list with distinct keys and
  read with \<^const>\<open>map_of\<close>. A \<^verbatim>\<open>Set\<close> is a list without duplicates when its order is
  observed and a HOL set otherwise.

  The theory holds the two interfaces several components share: a keyed store
  (\<open>keyed_store\<close>, interpreted on the association lists) and a step relation that keeps an
  invariant (\<open>kept_invariant\<close>, interpreted by each component with a step relation), and
  the list lemmas used by more than one component.
\<close>

named_theorems store_simps \<open>lookup laws of the keyed stores\<close>
named_theorems guard_defs \<open>definitions of the guards a handler runs before its effect\<close>

type_synonym ('k, 'v) jsmap = "('k \<times> 'v) list"

abbreviation m_get :: "('k, 'v) jsmap \<Rightarrow> 'k \<Rightarrow> 'v option" where
  "m_get \<equiv> map_of"

abbreviation m_set :: "'k \<Rightarrow> 'v \<Rightarrow> ('k, 'v) jsmap \<Rightarrow> ('k, 'v) jsmap" where
  "m_set \<equiv> AList.update"

abbreviation m_delete :: "'k \<Rightarrow> ('k, 'v) jsmap \<Rightarrow> ('k, 'v) jsmap" where
  "m_delete \<equiv> AList.delete"

abbreviation m_keys :: "('k, 'v) jsmap \<Rightarrow> 'k list" where
  "m_keys m \<equiv> map fst m"

abbreviation m_values :: "('k, 'v) jsmap \<Rightarrow> 'v list" where
  "m_values m \<equiv> map snd m"

definition m_has :: "('k, 'v) jsmap \<Rightarrow> 'k \<Rightarrow> bool" where
  "m_has m k \<longleftrightarrow> m_get m k \<noteq> None"

definition m_wf :: "('k, 'v) jsmap \<Rightarrow> bool" where
  "m_wf m \<longleftrightarrow> distinct (m_keys m)"

section \<open>Errors and optional values\<close>

text \<open>
  A method that throws returns a sum, \<^term>\<open>Inl\<close> the error. \<open>and_then\<close> runs the second
  statement only when the first did not throw.
\<close>

definition and_then :: "'e + 'a \<Rightarrow> ('a \<Rightarrow> 'e + 'b) \<Rightarrow> 'e + 'b" where
  "and_then m f = (case m of Inl e \<Rightarrow> Inl e | Inr x \<Rightarrow> f x)"

lemma and_then_simps [simp]: "and_then (Inl e) f = Inl e" "and_then (Inr x) f = f x"
  by (simp_all add: and_then_def)

lemma and_then_Inr: "and_then m f = Inr y \<longleftrightarrow> (\<exists>x. m = Inr x \<and> f x = Inr y)"
  by (cases m) simp_all

lemma and_then_Inl: "and_then m f = Inl e \<longleftrightarrow> m = Inl e \<or> (\<exists>x. m = Inr x \<and> f x = Inl e)"
  by (cases m) auto

text \<open>
  An optional string is falsy when it is undefined or empty; \<open>js_or\<close> is \<^verbatim>\<open>a || b\<close>.
\<close>

definition falsy :: "string option \<Rightarrow> bool" where
  "falsy s \<longleftrightarrow> s = None \<or> s = Some []"

definition js_or :: "string option \<Rightarrow> string option \<Rightarrow> string option" where
  "js_or a b = (if falsy a then b else a)"

lemma falsy_simps [simp]: "falsy None" "falsy (Some s) \<longleftrightarrow> s = []"
  by (simp_all add: falsy_def)

lemma js_or_simps [simp]: "js_or None b = b" "s \<noteq> [] \<Longrightarrow> js_or (Some s) b = Some s"
  by (simp_all add: js_or_def)

section \<open>The keyed store interface\<close>

locale keyed_store =
  fixes lookup :: "'s \<Rightarrow> 'k \<Rightarrow> 'v option"
    and put :: "'k \<Rightarrow> 'v \<Rightarrow> 's \<Rightarrow> 's"
    and remove :: "'k \<Rightarrow> 's \<Rightarrow> 's"
    and well_formed :: "'s \<Rightarrow> bool"
  assumes lookup_put: "lookup (put k v s) = (lookup s)(k \<mapsto> v)"
    and lookup_remove: "lookup (remove k s) = (lookup s)(k := None)"
    and put_well_formed: "well_formed s \<Longrightarrow> well_formed (put k v s)"
    and remove_well_formed: "well_formed s \<Longrightarrow> well_formed (remove k s)"
begin

lemma lookup_put_same: "lookup (put k v s) k = Some v"
  by (simp add: lookup_put)

lemma lookup_put_other: "k' \<noteq> k \<Longrightarrow> lookup (put k v s) k' = lookup s k'"
  by (simp add: lookup_put)

lemma lookup_remove_same: "lookup (remove k s) k = None"
  by (simp add: lookup_remove)

lemma lookup_remove_other: "k' \<noteq> k \<Longrightarrow> lookup (remove k s) k' = lookup s k'"
  by (simp add: lookup_remove)

lemma lookup_fold_remove:
  "lookup (fold remove ks s) k = (if k \<in> set ks then None else lookup s k)"
  by (induction ks arbitrary: s) (auto simp: lookup_remove)

lemma fold_remove_well_formed: "well_formed s \<Longrightarrow> well_formed (fold remove ks s)"
  by (induction ks arbitrary: s) (auto intro: remove_well_formed)

lemma values_put:
  "ran (lookup (put k v s)) \<subseteq> insert v (ran (lookup s))"
  by (auto simp: lookup_put ran_def)

lemma all_put:
  assumes "\<And>k v. lookup s k = Some v \<Longrightarrow> P k v" and "P k v"
  shows "lookup (put k v s) k' = Some v' \<Longrightarrow> P k' v'"
  using assms by (auto simp: lookup_put split: if_splits)

lemma all_remove:
  assumes "\<And>k v. lookup s k = Some v \<Longrightarrow> P k v"
  shows "lookup (remove k s) k' = Some v' \<Longrightarrow> P k' v'"
  using assms by (auto simp: lookup_remove split: if_splits)

end

lemma m_wf_update: "m_wf m \<Longrightarrow> m_wf (m_set k v m)"
  by (simp add: m_wf_def distinct_update)

lemma m_wf_delete: "m_wf m \<Longrightarrow> m_wf (m_delete k m)"
  by (simp add: m_wf_def distinct_delete)

interpretation js: keyed_store map_of AList.update AList.delete m_wf
  by unfold_locales (simp_all add: update_conv' delete_conv' m_wf_update m_wf_delete)

lemmas js_lookup [store_simps] =
  js.lookup_put js.lookup_remove js.lookup_fold_remove

lemma m_has_iff: "m_has m k \<longleftrightarrow> k \<in> set (m_keys m)"
  by (simp add: m_has_def map_of_eq_None_iff)

lemma m_get_in: "m_get m k = Some v \<Longrightarrow> (k, v) \<in> set m"
  by (rule map_of_SomeD)

lemma m_get_iff: "m_wf m \<Longrightarrow> m_get m k = Some v \<longleftrightarrow> (k, v) \<in> set m"
  by (simp add: m_wf_def)

section \<open>Step relations that keep an invariant\<close>

locale kept_invariant =
  fixes step :: "'s \<Rightarrow> 's \<Rightarrow> bool"
    and inv :: "'s \<Rightarrow> bool"
  assumes step_inv: "step s t \<Longrightarrow> inv s \<Longrightarrow> inv t"
begin

lemma run_inv: "step\<^sup>*\<^sup>* s t \<Longrightarrow> inv s \<Longrightarrow> inv t"
  by (induction rule: rtranclp_induct) (auto intro: step_inv)

end

section \<open>Lists\<close>

lemma filter_keeps_distinct_keys:
  "distinct (map fst xs) \<Longrightarrow> distinct (map fst (filter P xs))"
  by (induction xs) auto

lemma length_filter_remove:
  "x \<in> set xs \<Longrightarrow> P x \<Longrightarrow> length (filter (\<lambda>y. \<not> P y) xs) < length xs"
  by (induction xs) (auto simp: le_imp_less_Suc)

lemma find_Some_in: "find P xs = Some x \<Longrightarrow> x \<in> set xs \<and> P x"
  by (induction xs) (auto split: if_splits)

lemma find_None_all: "find P xs = None \<longleftrightarrow> (\<forall>x \<in> set xs. \<not> P x)"
  by (induction xs) auto

lemma find_append:
  "find P (xs @ ys) = (case find P xs of None \<Rightarrow> find P ys | Some x \<Rightarrow> Some x)"
  by (induction xs) auto

end
