(* ===== verification/Canonical_Json.thy ===== *)
theory Canonical_Json
  imports Prelude
begin

text \<open>
  The canonical serialisation that \<^verbatim>\<open>src/src/domain/governance/epochEngine.ts\<close> hashes:
  \<^verbatim>\<open>canonicalize\<close> sorts the keys of every object and drops the fields that are
  \<^verbatim>\<open>undefined\<close>, \<^verbatim>\<open>canonicalJson\<close> prints the result with \<^verbatim>\<open>JSON.stringify\<close> and
  \<^verbatim>\<open>digest\<close> hashes the text.

  JSON values are a datatype; an object is the list of its fields in order, with distinct
  keys that are not array indices (an ECMAScript object moves those to the front) and not
  \<^verbatim>\<open>__proto__\<close> (an assignment under it adds no field).
  Characters are code units below 256. The text of a number and SHA-256 are fields of the
  record \<open>runtime\<close>, since both are the runtime's. The theorems: the order of an object's
  fields does not change the text, and two values without \<^verbatim>\<open>undefined\<close> that print
  alike are equal, so that equal digests of different values are a collision of SHA-256
  itself.
\<close>

section \<open>The runtime's library functions\<close>

record runtime =
  sha256 :: "string \<Rightarrow> string"      \<comment> \<open>createHash("sha256").update(t).digest("hex")\<close>
  number_text :: "rat \<Rightarrow> string"    \<comment> \<open>Number.prototype.toString\<close>
  get_time :: "string \<Rightarrow> int"       \<comment> \<open>new Date(iso).getTime()\<close>

section \<open>Values and their canonical form\<close>

datatype json =
    JUndef
  | JNull
  | JBool bool
  | JNum rat
  | JStr string
  | JArr "json list"
  | JObj "(string \<times> json) list"

fun canonicalize :: "json \<Rightarrow> json"
  and canonicalize_items :: "json list \<Rightarrow> json list"
  and canonicalize_fields :: "(string \<times> json) list \<Rightarrow> (string \<times> json) list" where
  "canonicalize (JArr xs) = JArr (canonicalize_items xs)"
| "canonicalize (JObj kvs) = JObj (sort_key fst (canonicalize_fields kvs))"
| "canonicalize v = v"
| "canonicalize_items [] = []"
| "canonicalize_items (x # xs) = canonicalize x # canonicalize_items xs"
| "canonicalize_fields [] = []"
| "canonicalize_fields ((k, v) # kvs) =
     (if v = JUndef then canonicalize_fields kvs
      else (k, canonicalize v) # canonicalize_fields kvs)"

section \<open>JSON.stringify\<close>

definition hex_digit :: "nat \<Rightarrow> char" where
  "hex_digit n = ''0123456789abcdef'' ! n"

definition escape_char :: "char \<Rightarrow> string" where
  "escape_char c =
     (if c = CHR 0x22 then [CHR 0x5C, CHR 0x22]
      else if c = CHR 0x5C then [CHR 0x5C, CHR 0x5C]
      else if c = CHR 0x08 then [CHR 0x5C, CHR ''b'']
      else if c = CHR 0x0C then [CHR 0x5C, CHR ''f'']
      else if c = CHR 0x0A then [CHR 0x5C, CHR ''n'']
      else if c = CHR 0x0D then [CHR 0x5C, CHR ''r'']
      else if c = CHR 0x09 then [CHR 0x5C, CHR ''t'']
      else if (of_char c :: nat) < 32
        then [CHR 0x5C, CHR ''u'', CHR ''0'', CHR ''0'',
              hex_digit (of_char c div 16), hex_digit (of_char c mod 16)]
      else [c])"

definition quote :: "string \<Rightarrow> string" where
  "quote s = CHR 0x22 # concat (map escape_char s) @ [CHR 0x22]"

fun stringify :: "(rat \<Rightarrow> string) \<Rightarrow> json \<Rightarrow> string"
  and stringify_items :: "(rat \<Rightarrow> string) \<Rightarrow> json list \<Rightarrow> string"
  and stringify_fields :: "(rat \<Rightarrow> string) \<Rightarrow> (string \<times> json) list \<Rightarrow> string" where
  "stringify num JUndef = ''null''"
| "stringify num JNull = ''null''"
| "stringify num (JBool b) = (if b then ''true'' else ''false'')"
| "stringify num (JNum q) = num q"
| "stringify num (JStr s) = quote s"
| "stringify num (JArr xs) = ''['' @ stringify_items num xs @ '']''"
| "stringify num (JObj kvs) = ''{'' @ stringify_fields num kvs @ ''}''"
| "stringify_items num [] = ''''"
| "stringify_items num [x] = stringify num x"
| "stringify_items num (x # y # xs) = stringify num x @ '','' @ stringify_items num (y # xs)"
| "stringify_fields num [] = ''''"
| "stringify_fields num [(k, v)] = quote k @ '':'' @ stringify num v"
| "stringify_fields num ((k, v) # kv # kvs) =
     quote k @ '':'' @ stringify num v @ '','' @ stringify_fields num (kv # kvs)"

definition canonicalJson :: "runtime \<Rightarrow> json \<Rightarrow> string" where
  "canonicalJson rt v = stringify (number_text rt) (canonicalize v)"

definition digest :: "runtime \<Rightarrow> json \<Rightarrow> string" where
  "digest rt v = sha256 rt (canonicalJson rt v)"

section \<open>Canonical form\<close>

lemma canonicalize_fields_conv:
  "canonicalize_fields kvs
    = map (\<lambda>(k, v). (k, canonicalize v)) (filter (\<lambda>(k, v). v \<noteq> JUndef) kvs)"
  by (induction kvs) auto

lemma keys_canonicalize_fields:
  "map fst (canonicalize_fields kvs) = map fst (filter (\<lambda>(k, v). v \<noteq> JUndef) kvs)"
  by (induction kvs) auto

lemma distinct_canonicalize_fields:
  "distinct (map fst kvs) \<Longrightarrow> distinct (map fst (canonicalize_fields kvs))"
  by (simp add: keys_canonicalize_fields filter_keeps_distinct_keys)

lemma sort_key_mset_distinct:
  assumes "mset xs = mset ys" and "distinct (map f xs)"
  shows "sort_key f xs = sort_key f ys"
proof (rule map_sorted_distinct_set_unique)
  have set: "set xs = set ys" using assms(1) by (rule mset_eq_setD)
  have "distinct (map f ys)" using assms
    by (metis mset_eq_imp_distinct_iff mset_map)
  with assms(2) show "distinct (map f (sort_key f xs))" "distinct (map f (sort_key f ys))"
    by (simp_all add: distinct_map)
  show "inj_on f (set (sort_key f xs) \<union> set (sort_key f ys))"
    using assms(2) set by (simp add: distinct_map)
  show "set (sort_key f xs) = set (sort_key f ys)" using set by simp
qed simp_all

lemma canonicalize_object_order:
  assumes "mset kvs = mset kvs'" and "distinct (map fst kvs)"
  shows "canonicalize (JObj kvs) = canonicalize (JObj kvs')"
proof -
  have "mset (canonicalize_fields kvs) = mset (canonicalize_fields kvs')"
    using assms(1) by (simp add: canonicalize_fields_conv)
  with distinct_canonicalize_fields [OF assms(2)] show ?thesis
    by (simp add: sort_key_mset_distinct)
qed

text \<open>What remains after canonicalising an object has no undefined field.\<close>

fun defined :: "json \<Rightarrow> bool"
  and defined_items :: "json list \<Rightarrow> bool"
  and defined_fields :: "(string \<times> json) list \<Rightarrow> bool" where
  "defined JUndef \<longleftrightarrow> False"
| "defined (JArr xs) \<longleftrightarrow> defined_items xs"
| "defined (JObj kvs) \<longleftrightarrow> defined_fields kvs"
| "defined v \<longleftrightarrow> True"
| "defined_items [] \<longleftrightarrow> True"
| "defined_items (x # xs) \<longleftrightarrow> defined x \<and> defined_items xs"
| "defined_fields [] \<longleftrightarrow> True"
| "defined_fields ((k, v) # kvs) \<longleftrightarrow> defined v \<and> defined_fields kvs"

section \<open>Printing is injective\<close>

definition number_chars :: "char set" where
  "number_chars = set ''0123456789+-.e''"

definition prints_numbers :: "(rat \<Rightarrow> string) \<Rightarrow> bool" where
  "prints_numbers num \<longleftrightarrow> inj num \<and> (\<forall>q. num q \<noteq> [] \<and> set (num q) \<subseteq> number_chars)"

definition ends_number :: "string \<Rightarrow> bool" where
  "ends_number x \<longleftrightarrow> x = [] \<or> hd x \<notin> number_chars"

lemma ends_number_simps [simp]:
  "ends_number []" "ends_number (CHR '','' # x)" "ends_number (CHR '']'' # x)"
  "ends_number (CHR ''}'' # x)"
  by (simp_all add: ends_number_def number_chars_def)

lemma hex_digit_inject: "m < 16 \<Longrightarrow> n < 16 \<Longrightarrow> hex_digit m = hex_digit n \<longleftrightarrow> m = n"
  by (simp add: hex_digit_def nth_eq_iff_index_eq)

lemma escape_char_cont:
  assumes "escape_char c @ x = escape_char d @ y"
  shows "c = d \<and> x = y"
proof -
  have hex: "c = d" if "hex_digit (of_char c div 16) = hex_digit (of_char d div 16)"
    and "hex_digit (of_char c mod 16) = hex_digit (of_char d mod 16)"
    and "(of_char c :: nat) < 32" and "(of_char d :: nat) < 32"
  proof -
    have "(of_char c :: nat) div 16 = of_char d div 16" using that by (subst (asm) hex_digit_inject) auto
    moreover have "(of_char c :: nat) mod 16 = of_char d mod 16" using that by (subst (asm) (2) hex_digit_inject) auto
    ultimately have "(of_char c :: nat) = of_char d" by (metis div_mult_mod_eq)
    then show ?thesis by simp
  qed
  show ?thesis
    using assms hex by (auto simp: escape_char_def split: if_splits)
qed

lemma escape_char_no_quote: "escape_char c @ x \<noteq> CHR 0x22 # y"
  by (auto simp: escape_char_def)

lemma quote_cont: "quote s @ x = quote t @ y \<longleftrightarrow> s = t \<and> x = y"
proof
  assume "quote s @ x = quote t @ y"
  then show "s = t \<and> x = y" unfolding quote_def
  proof (induction s arbitrary: t)
    case Nil
    then show ?case using escape_char_no_quote [symmetric] by (cases t) auto
  next
    case (Cons c s)
    then show ?case using escape_char_no_quote
      by (cases t) (auto dest: escape_char_cont)
  qed
qed simp

lemma number_cont:
  assumes num: "prints_numbers num" and "ends_number x" and "ends_number y"
    and eq: "num p @ x = num q @ y"
  shows "p = q \<and> x = y"
proof -
  have take: "takeWhile (\<lambda>c. c \<in> number_chars) (num r @ z) = num r" if "ends_number z" for r z
  proof -
    have "set (num r) \<subseteq> number_chars" using num by (simp add: prints_numbers_def)
    then have "takeWhile (\<lambda>c. c \<in> number_chars) (num r @ z)
        = num r @ takeWhile (\<lambda>c. c \<in> number_chars) z"
      by (intro takeWhile_append2) auto
    also have "takeWhile (\<lambda>c. c \<in> number_chars) z = []"
      using that by (cases z) (auto simp: ends_number_def)
    finally show ?thesis by simp
  qed
  have "num p = num q" using take [OF assms(2), of p] take [OF assms(3), of q] eq by simp
  with num eq show ?thesis by (simp add: prints_numbers_def inj_eq)
qed

text \<open>The first character of a value's text tells which constructor the value has.\<close>

fun kind :: "json \<Rightarrow> nat" where
  "kind JUndef = 0"
| "kind JNull = 1"
| "kind (JBool b) = (if b then 2 else 3)"
| "kind (JNum q) = 4"
| "kind (JStr s) = 5"
| "kind (JArr xs) = 6"
| "kind (JObj kvs) = 7"

definition head_kind :: "char \<Rightarrow> nat" where
  "head_kind c =
     (if c = CHR ''n'' then 1 else if c = CHR ''t'' then 2 else if c = CHR ''f'' then 3
      else if c \<in> number_chars then 4 else if c = CHR 0x22 then 5
      else if c = CHR ''['' then 6 else if c = CHR ''{'' then 7 else 0)"

lemma number_chars_no_letters:
  "c \<in> number_chars \<Longrightarrow> c \<notin> {CHR ''n'', CHR ''t'', CHR ''f''}"
  by (auto simp: number_chars_def)

lemma number_head:
  assumes "prints_numbers num"
  shows "num q \<noteq> [] \<and> hd (num q) \<in> number_chars"
proof -
  from assms have "num q \<noteq> []" "set (num q) \<subseteq> number_chars"
    by (simp_all add: prints_numbers_def)
  then show ?thesis by (cases "num q") auto
qed

lemma stringify_head:
  assumes "prints_numbers num" and "defined v"
  shows "stringify num v \<noteq> [] \<and> head_kind (hd (stringify num v)) = kind v"
proof (cases v)
  case (JNum q)
  have "num q \<noteq> []" and n: "hd (num q) \<in> number_chars"
    using number_head [OF assms(1)] by auto
  moreover have "head_kind (hd (num q)) = 4"
    using number_chars_no_letters [OF n] n by (simp add: head_kind_def)
  ultimately show ?thesis using JNum by simp
qed (use assms(2) in \<open>auto simp: quote_def head_kind_def number_chars_def\<close>)

lemma stringify_same_kind:
  assumes "prints_numbers num" and "defined v" and "defined w"
    and "stringify num v @ x = stringify num w @ y"
  shows "kind v = kind w"
  using stringify_head [OF assms(1,2)] stringify_head [OF assms(1,3)] assms(4)
  by (metis hd_append2)

lemma stringify_not_delimiter:
  assumes "prints_numbers num" and "defined v" and "c \<in> {CHR '','', CHR '']'', CHR ''}''}"
  shows "stringify num v @ x \<noteq> c # y"
proof
  assume "stringify num v @ x = c # y"
  with stringify_head [OF assms(1,2)] have "head_kind c = kind v"
    by (metis hd_append2 list.sel(1))
  with assms(2,3) show False by (cases v) (auto simp: head_kind_def number_chars_def split: if_splits)
qed

text \<open>
  One step of the two list printers: if the first values agree on every continuation, equal
  texts have equal first values and equal rests.
\<close>

lemma items_step:
  assumes "\<And>p q. ends_number p \<Longrightarrow> ends_number q
      \<Longrightarrow> stringify num v @ p = stringify num a @ q \<Longrightarrow> v = a \<and> p = q"
    and "stringify_items num (v # vs) @ CHR '']'' # x = stringify_items num (a # as) @ CHR '']'' # y"
  shows "v = a \<and> stringify_items num vs @ CHR '']'' # x = stringify_items num as @ CHR '']'' # y"
proof -
  have shape: "stringify_items num (u # us) @ CHR '']'' # z = stringify num u
      @ (if us = [] then CHR '']'' # z else CHR '','' # stringify_items num us @ CHR '']'' # z)"
    for u us z by (cases us) simp_all
  have "v = a \<and> (if vs = [] then CHR '']'' # x else CHR '','' # stringify_items num vs @ CHR '']'' # x)
      = (if as = [] then CHR '']'' # y else CHR '','' # stringify_items num as @ CHR '']'' # y)"
    by (rule assms(1)) (use assms(2) in \<open>simp_all add: shape\<close>)
  then show ?thesis by (auto split: if_splits)
qed

lemma fields_step:
  assumes "\<And>p q. ends_number p \<Longrightarrow> ends_number q
      \<Longrightarrow> stringify num v @ p = stringify num a @ q \<Longrightarrow> v = a \<and> p = q"
    and "stringify_fields num ((k, v) # kvs) @ CHR ''}'' # x
        = stringify_fields num ((l, a) # lws) @ CHR ''}'' # y"
  shows "k = l \<and> v = a
      \<and> stringify_fields num kvs @ CHR ''}'' # x = stringify_fields num lws @ CHR ''}'' # y"
proof -
  have shape: "stringify_fields num ((m, u) # us) @ CHR ''}'' # z = quote m @ CHR '':'' # stringify num u
      @ (if us = [] then CHR ''}'' # z else CHR '','' # stringify_fields num us @ CHR ''}'' # z)"
    for m u us z by (cases us) simp_all
  from assms(2) have kl: "k = l" and eq: "stringify num v
      @ (if kvs = [] then CHR ''}'' # x else CHR '','' # stringify_fields num kvs @ CHR ''}'' # x)
      = stringify num a
      @ (if lws = [] then CHR ''}'' # y else CHR '','' # stringify_fields num lws @ CHR ''}'' # y)"
    by (simp_all add: shape quote_cont)
  have "v = a \<and> (if kvs = [] then CHR ''}'' # x else CHR '','' # stringify_fields num kvs @ CHR ''}'' # x)
      = (if lws = [] then CHR ''}'' # y else CHR '','' # stringify_fields num lws @ CHR ''}'' # y)"
    by (rule assms(1)) (use eq in simp_all)
  with kl show ?thesis by (auto split: if_splits)
qed

lemma leaf_cont:
  assumes num: "prints_numbers num" and "defined v" and "defined w"
    and "ends_number x" and "ends_number y" and eq: "stringify num v @ x = stringify num w @ y"
    and leaf: "kind v < 6"
  shows "v = w \<and> x = y"
proof -
  have "kind w = kind v" using stringify_same_kind [OF num assms(2,3) eq] by simp
  with leaf eq num assms(2-5) show ?thesis
    by (cases v; cases w) (auto simp: quote_cont dest: number_cont split: if_splits)
qed

lemma stringify_cont:
  assumes num: "prints_numbers num"
  shows "defined v \<Longrightarrow> defined w \<Longrightarrow> ends_number x \<Longrightarrow> ends_number y
      \<Longrightarrow> stringify num v @ x = stringify num w @ y \<Longrightarrow> v = w \<and> x = y"
    and "defined_items vs \<Longrightarrow> defined_items ws
      \<Longrightarrow> stringify_items num vs @ CHR '']'' # x = stringify_items num ws @ CHR '']'' # y
      \<Longrightarrow> vs = ws \<and> x = y"
    and "defined_fields kvs \<Longrightarrow> defined_fields lws
      \<Longrightarrow> stringify_fields num kvs @ CHR ''}'' # x = stringify_fields num lws @ CHR ''}'' # y
      \<Longrightarrow> kvs = lws \<and> x = y"
proof (induction v and vs and kvs arbitrary: w x y and ws x y and lws x y
    rule: defined_defined_items_defined_fields.induct)
  case 1
  then show ?case by simp
next
  case (2 xs)
  have "kind w = kind (JArr xs)" using stringify_same_kind [OF num 2(2,3,6)] by simp
  then obtain ys where w: "w = JArr ys" by (cases w) (simp_all split: if_splits)
  from 2(2,3,6) w have "xs = ys \<and> x = y"
    by (intro 2(1)) simp_all
  with w show ?case by simp
next
  case (3 kvs)
  have "kind w = kind (JObj kvs)" using stringify_same_kind [OF num 3(2,3,6)] by simp
  then obtain lws where w: "w = JObj lws" by (cases w) (simp_all split: if_splits)
  from 3(2,3,6) w have "kvs = lws \<and> x = y"
    by (intro 3(1)) simp_all
  with w show ?case by simp
next
  case 5
  then show ?case
  proof (cases ws)
    case (Cons a as)
    have "defined a" using 5 Cons by simp
    then have "stringify num a @ z \<noteq> CHR '']'' # x" for z
      using stringify_not_delimiter [OF num] by blast
    then show ?thesis using 5 Cons by (cases as) (auto dest: sym)
  qed simp
next
  case (6 v vs)
  show ?case
  proof (cases ws)
    case Nil
    have "stringify num v @ z \<noteq> CHR '']'' # y" for z
      using stringify_not_delimiter [OF num] 6(3) by auto
    then show ?thesis using 6(5) Nil by (cases vs) auto
  next
    case (Cons a as)
    have "v = a \<and> stringify_items num vs @ CHR '']'' # x = stringify_items num as @ CHR '']'' # y"
      by (rule items_step) (use 6(1) [of a] 6(3,4,5) Cons in simp_all)
    moreover from this have "vs = as \<and> x = y"
      by (intro 6(2)) (use 6(3,4) Cons in simp_all)
    ultimately show ?thesis using Cons by simp
  qed
next
  case 7
  then show ?case
  proof (cases lws)
    case (Cons a as)
    obtain k u where "a = (k, u)" by (cases a)
    then show ?thesis using 7 Cons by (cases as) (auto simp: quote_def)
  qed simp
next
  case (8 k v kvs)
  show ?case
  proof (cases lws)
    case Nil
    then show ?thesis using 8(5) by (cases kvs) (auto simp: quote_def)
  next
    case (Cons lw as)
    obtain l a where lw: "lw = (l, a)" by (cases lw)
    have "k = l \<and> v = a
        \<and> stringify_fields num kvs @ CHR ''}'' # x = stringify_fields num as @ CHR ''}'' # y"
      by (rule fields_step) (use 8(1) [of a] 8(3,4,5) Cons lw in simp_all)
    moreover from this have "kvs = as \<and> x = y"
      by (intro 8(2)) (use 8(3,4) Cons lw in simp_all)
    ultimately show ?thesis using Cons lw by simp
  qed
qed (rule leaf_cont [OF num]; simp)+

theorem stringify_injective:
  assumes "prints_numbers num" and "defined v" and "defined w"
    and "stringify num v = stringify num w"
  shows "v = w"
  using stringify_cont(1) [OF assms(1,2,3), of "[]" "[]"] assms(4) by simp

text \<open>What a canonical object holds under a key.\<close>

lemma map_of_sort_key: "distinct (map fst kvs) \<Longrightarrow> map_of (sort_key fst kvs) k = map_of kvs k"
proof -
  assume d: "distinct (map fst kvs)"
  then have "distinct (map fst (sort_key fst kvs))" by (simp add: distinct_map)
  then show ?thesis using d by (intro map_of_inject_set [THEN iffD2, THEN fun_cong]) simp_all
qed

lemma map_of_canonicalize_fields:
  "distinct (map fst kvs) \<Longrightarrow> map_of (canonicalize_fields kvs) k
    = (case map_of kvs k of None \<Rightarrow> None | Some v \<Rightarrow> if v = JUndef then None else Some (canonicalize v))"
proof (induction kvs)
  case (Cons kv kvs)
  obtain l v where kv: "kv = (l, v)" by (cases kv)
  have "map_of kvs l = None" using Cons.prems kv by (simp add: map_of_eq_None_iff)
  with Cons kv show ?case by auto
qed simp

lemma canonical_lookup:
  assumes "canonicalize (JObj kvs) = canonicalize (JObj kvs')"
    and "distinct (map fst kvs)" and "distinct (map fst kvs')"
    and "map_of kvs k = Some v" and "map_of kvs' k = Some v'" and "v \<noteq> JUndef \<or> v' \<noteq> JUndef"
  shows "canonicalize v = canonicalize v' \<and> v \<noteq> JUndef \<and> v' \<noteq> JUndef"
proof -
  have "sort_key fst (canonicalize_fields kvs) = sort_key fst (canonicalize_fields kvs')"
    using assms(1) by simp
  then have "map_of (canonicalize_fields kvs) k = map_of (canonicalize_fields kvs') k"
    by (metis map_of_sort_key distinct_canonicalize_fields assms(2,3))
  then show ?thesis using assms by (auto simp: map_of_canonicalize_fields split: if_splits)
qed

section \<open>Properties\<close>

text \<open>
  The hash of an object does not depend on the order in which its fields were added: any
  permutation of the fields has the same digest.
\<close>

theorem digest_field_order:
  assumes "mset kvs = mset kvs'" and "distinct (map fst kvs)"
  shows "digest rt (JObj kvs) = digest rt (JObj kvs')"
  by (simp only: digest_def canonicalJson_def canonicalize_object_order [OF assms])

text \<open>
  A number printer that meets \<^const>\<open>prints_numbers\<close>, for the witnesses: the numerator and the
  denominator in unary.
\<close>

definition unary_text :: "rat \<Rightarrow> string" where
  "unary_text r = (if fst (quotient_of r) < 0 then ''-'' else '''')
     @ replicate (nat \<bar>fst (quotient_of r)\<bar>) (CHR ''0'') @ CHR ''.'' #
       replicate (nat (snd (quotient_of r))) (CHR ''0'')"

definition plain_runtime :: runtime where
  "plain_runtime = \<lparr>sha256 = (\<lambda>t. t), number_text = unary_text, get_time = (\<lambda>t. 0)\<rparr>"

lemma unary_parts:
  "replicate a (CHR ''0'') @ CHR ''.'' # replicate b (CHR ''0'')
     = replicate c (CHR ''0'') @ CHR ''.'' # replicate d (CHR ''0'') \<longleftrightarrow> a = c \<and> b = d"
proof (induction a arbitrary: c)
  case 0
  then show ?case by (cases c) (auto dest: arg_cong [of _ _ length])
next
  case (Suc a)
  then show ?case by (cases c) auto
qed

lemma prints_unary: "prints_numbers unary_text"
proof -
  have "q = r" if eq: "unary_text q = unary_text r" for q r
  proof -
    have no_minus: "replicate a (CHR ''0'') @ CHR ''.'' # x \<noteq> CHR ''-'' # y" for a x y
      by (cases a) simp_all
    have pos: "snd (quotient_of q) > 0" "snd (quotient_of r) > 0" by (simp_all add: quotient_of_denom_pos')
    from eq have "fst (quotient_of q) = fst (quotient_of r) \<and> snd (quotient_of q) = snd (quotient_of r)"
      using pos no_minus no_minus [symmetric]
      by (auto simp: unary_text_def unary_parts split: if_splits)
    then have "quotient_of q = quotient_of r" by (simp add: prod_eq_iff)
    then show ?thesis by (rule quotient_of_inject)
  qed
  then have "inj unary_text" by (rule injI)
  moreover have "unary_text q \<noteq> [] \<and> set (unary_text q) \<subseteq> number_chars" for q
    by (auto simp: unary_text_def number_chars_def)
  ultimately show ?thesis by (simp add: prints_numbers_def)
qed

theorem digest_field_order_witness:
  "digest plain_runtime (JObj [(''b'', JNull), (''a'', JBool True)])
    = digest plain_runtime (JObj [(''a'', JBool True), (''b'', JNull)])"
  by (rule digest_field_order) simp_all

section \<open>Values that are hashed alike\<close>

text \<open>What an object holds under a key; a field that is undefined is no field.\<close>

definition field_held :: "(string \<times> json) list \<Rightarrow> string \<Rightarrow> json option" where
  "field_held kvs k = (case map_of kvs k of None \<Rightarrow> None | Some v \<Rightarrow> if v = JUndef then None else Some v)"

text \<open>The same value: the same leaf, arrays that agree item by item, objects that hold the same under every key.\<close>

inductive same_value :: "json \<Rightarrow> json \<Rightarrow> bool" where
  leaf: "v \<in> {JUndef, JNull} \<union> range JBool \<union> range JNum \<union> range JStr \<Longrightarrow> same_value v v"
| arrays: "list_all2 same_value xs ys \<Longrightarrow> same_value (JArr xs) (JArr ys)"
| objects: "(\<And>k. field_held kvs k = None \<longleftrightarrow> field_held kvs' k = None) \<Longrightarrow>
    (\<And>k v w. field_held kvs k = Some v \<Longrightarrow> field_held kvs' k = Some w \<Longrightarrow> same_value v w) \<Longrightarrow>
    same_value (JObj kvs) (JObj kvs')"

inductive_simps same_value_simps [simp]:
  "same_value (JArr xs) w" "same_value (JObj kvs) w" "same_value JUndef w" "same_value JNull w"
  "same_value (JBool b) w" "same_value (JNum q) w" "same_value (JStr t) w"

text \<open>No object has a key twice, or a field \<^verbatim>\<open>__proto__\<close>, which the code loses when it copies the fields.\<close>

fun keys_once :: "json \<Rightarrow> bool" where
  "keys_once (JArr xs) \<longleftrightarrow> (\<forall>x \<in> set xs. keys_once x)"
| "keys_once (JObj kvs) \<longleftrightarrow> distinct (map fst kvs) \<and> (\<forall>kv \<in> set kvs. fst kv \<noteq> ''__proto__'' \<and> keys_once (snd kv))"
| "keys_once v \<longleftrightarrow> True"

lemma items_conv: "canonicalize_items xs = map canonicalize xs"
  by (induction xs) simp_all

lemma canonical_fields_of:
  "distinct (map fst kvs) \<Longrightarrow> map_of (canonicalize_fields kvs) k = map_option canonicalize (field_held kvs k)"
  by (simp add: map_of_canonicalize_fields field_held_def split: option.split)

lemma canonical_objects:
  assumes "distinct (map fst kvs)" "distinct (map fst kvs')"
  shows "canonicalize (JObj kvs) = canonicalize (JObj kvs') \<longleftrightarrow>
    (\<forall>k. map_option canonicalize (field_held kvs k) = map_option canonicalize (field_held kvs' k))"
proof
  assume "canonicalize (JObj kvs) = canonicalize (JObj kvs')"
  then have "sort_key fst (canonicalize_fields kvs) = sort_key fst (canonicalize_fields kvs')" by simp
  then have "map_of (canonicalize_fields kvs) k = map_of (canonicalize_fields kvs') k" for k
    by (metis map_of_sort_key distinct_canonicalize_fields assms)
  then show "\<forall>k. map_option canonicalize (field_held kvs k) = map_option canonicalize (field_held kvs' k)"
    by (simp add: canonical_fields_of assms)
next
  let ?a = "canonicalize_fields kvs" and ?b = "canonicalize_fields kvs'"
  assume "\<forall>k. map_option canonicalize (field_held kvs k) = map_option canonicalize (field_held kvs' k)"
  then have maps: "map_of ?a = map_of ?b" by (simp add: fun_eq_iff canonical_fields_of assms)
  have dist: "distinct (map fst ?a)" "distinct (map fst ?b)" by (rule distinct_canonicalize_fields, rule assms)+
  have "set ?a = set ?b" using maps map_of_inject_set [OF dist] by blast
  then have "mset ?a = mset ?b" using dist by (simp add: set_eq_iff_mset_eq_distinct [symmetric] distinct_map)
  then show "canonicalize (JObj kvs) = canonicalize (JObj kvs')" using sort_key_mset_distinct [OF _ dist(1)] by simp
qed

lemma field_held_in: "field_held kvs k = Some v \<Longrightarrow> (k, v) \<in> set kvs"
  by (auto simp: field_held_def dest: map_of_SomeD split: option.splits if_splits)

lemma once_field: "keys_once (JObj kvs) \<Longrightarrow> field_held kvs k = Some v \<Longrightarrow> keys_once v"
  using field_held_in [of kvs k v] by (metis keys_once.simps(2) snd_conv)

lemma same_canonical: "same_value v w \<Longrightarrow> keys_once v \<Longrightarrow> keys_once w \<Longrightarrow> canonicalize v = canonicalize w"
proof (induction rule: same_value.induct)
  case (arrays xs ys)
  have "map canonicalize xs = map canonicalize ys"
    using arrays by (auto simp: list_all2_conv_all_nth intro!: nth_equalityI)
  then show ?case by (simp add: items_conv)
next
  case (objects kvs kvs')
  have "map_option canonicalize (field_held kvs k) = map_option canonicalize (field_held kvs' k)" for k
  proof (cases "field_held kvs k")
    case None
    then show ?thesis using objects(1) [of k] by simp
  next
    case (Some v)
    then obtain w where w: "field_held kvs' k = Some w" using objects(1) [of k] by (cases "field_held kvs' k") simp_all
    have "keys_once v" "keys_once w" using once_field [OF _ Some] once_field [OF _ w] objects.prems by simp_all
    then show ?thesis using objects(3) [OF Some w] Some w by simp
  qed
  then show ?case using canonical_objects [of kvs kvs'] objects.prems by simp
qed auto

lemma canonical_same: "canonicalize v = canonicalize w \<Longrightarrow> keys_once v \<Longrightarrow> keys_once w \<Longrightarrow> same_value v w"
proof (induction v arbitrary: w)
  case (JArr xs)
  from JArr.prems(1) obtain ys where w: "w = JArr ys" by (cases w) simp_all
  then have "map canonicalize xs = map canonicalize ys" using JArr.prems(1) by (simp add: items_conv)
  then have n: "length xs = length ys" and eq: "\<And>i. i < length xs \<Longrightarrow> canonicalize (xs ! i) = canonicalize (ys ! i)"
    by (auto simp: list_eq_iff_nth_eq)
  have "same_value (xs ! i) (ys ! i)" if "i < length xs" for i
    using JArr.prems(2,3) that n w by (intro JArr.IH eq) simp_all
  then show ?case using n unfolding w by (intro same_value.arrays) (simp add: list_all2_conv_all_nth)
next
  case (JObj kvs)
  from JObj.prems(1) obtain kvs' where w: "w = JObj kvs'" by (cases w) simp_all
  have "\<forall>k. map_option canonicalize (field_held kvs k) = map_option canonicalize (field_held kvs' k)"
    using JObj.prems canonical_objects [of kvs kvs'] unfolding w by simp
  then have same: "map_option canonicalize (field_held kvs k) = map_option canonicalize (field_held kvs' k)" for k ..
  show ?case unfolding w
  proof (rule same_value.objects)
    show "field_held kvs k = None \<longleftrightarrow> field_held kvs' k = None" for k
      using same [of k] by (cases "field_held kvs k"; cases "field_held kvs' k") simp_all
    fix k v w'
    assume k: "field_held kvs k = Some v" "field_held kvs' k = Some w'"
    have "keys_once v" "keys_once w'" using once_field [OF _ k(1)] once_field [OF _ k(2)] JObj.prems(2,3) w by simp_all
    moreover have "canonicalize v = canonicalize w'" using same [of k] k by simp
    moreover have "v \<in> Basic_BNFs.snds (k, v)" by (simp add: prod_set_simps)
    ultimately show "same_value v w'" by (intro JObj.IH [OF field_held_in [OF k(1)]])
  qed
qed (rename_tac w, case_tac w; simp)+

lemma canonical_iff: "keys_once v \<Longrightarrow> keys_once w \<Longrightarrow> canonicalize v = canonicalize w \<longleftrightarrow> same_value v w"
  using same_canonical canonical_same by blast

text \<open>
  C40. A digest names a JSON value (with finite numbers, whose texts differ): when no value is \<^verbatim>\<open>undefined\<close> at its top or inside an array and no object has a key twice
  or the key \<^verbatim>\<open>__proto__\<close>,
  two values have the same digest exactly when they are the same value --- the same leaf, arrays that agree item by item,
  objects that hold the same values under the same keys, in whatever order and with whatever undefined fields ---, unless SHA-256
  collides on their two canonical texts. So neither the order of fields nor an undefined one is seen, and nothing else is overlooked.
\<close>

theorem digest_names_value:
  assumes "prints_numbers (number_text rt)" and "keys_once v" and "keys_once w"
    and "defined (canonicalize v)" and "defined (canonicalize w)"
    and "inj_on (sha256 rt) {canonicalJson rt v, canonicalJson rt w}"
  shows "digest rt v = digest rt w \<longleftrightarrow> same_value v w"
proof -
  have "digest rt v = digest rt w \<longleftrightarrow> canonicalJson rt v = canonicalJson rt w"
    unfolding digest_def by (rule inj_on_eq_iff [OF assms(6)]) simp_all
  also have "\<dots> \<longleftrightarrow> canonicalize v = canonicalize w"
    unfolding canonicalJson_def by (rule iffI, erule stringify_injective [OF assms(1,4,5)], erule arg_cong)
  finally show ?thesis using canonical_iff [OF assms(2,3)] by blast
qed

theorem digest_names_value_witness:
  "digest plain_runtime (JObj [(''b'', JArr [JNum 1]), (''a'', JUndef), (''c'', JNull)]) =
     digest plain_runtime (JObj [(''c'', JNull), (''b'', JArr [JNum 1])]) \<and>
   digest plain_runtime (JObj [(''b'', JNum 1)]) \<noteq> digest plain_runtime (JObj [(''b'', JStr ''1'')])"
proof (rule conjI)
  have same: "same_value (JObj [(''b'', JArr [JNum 1]), (''a'', JUndef), (''c'', JNull)]) (JObj [(''c'', JNull), (''b'', JArr [JNum 1])])"
    by (auto simp: field_held_def split: if_splits)
  show "digest plain_runtime (JObj [(''b'', JArr [JNum 1]), (''a'', JUndef), (''c'', JNull)]) =
     digest plain_runtime (JObj [(''c'', JNull), (''b'', JArr [JNum 1])])"
    by (rule digest_names_value [THEN iffD2, OF _ _ _ _ _ _ same]) (simp_all add: plain_runtime_def prints_unary)
  have other: "\<not> same_value (JObj [(''b'', JNum 1)]) (JObj [(''b'', JStr ''1'')])" by (auto simp: field_held_def)
  show "digest plain_runtime (JObj [(''b'', JNum 1)]) \<noteq> digest plain_runtime (JObj [(''b'', JStr ''1'')])"
    using digest_names_value [of plain_runtime "JObj [(''b'', JNum 1)]" "JObj [(''b'', JStr ''1'')]"] other
    by (simp add: plain_runtime_def prints_unary)
qed

end
