(* ===== verification/Hash_Chain.thy ===== *)
theory Hash_Chain
  imports Prelude
begin

text \<open>
  Append-only logs in which every entry carries the hash of the entry before it. The locale
  \<open>hash_chain\<close> is the interface the log's owner provides: the back link, the stored hash,
  the content that is hashed, and the law that the content fixes the back link. From it
  follows the tamper evidence of the log: two valid logs with the same last hash hold the same
  contents, unless two of their contents collide.
\<close>

fun chained :: "('e \<Rightarrow> 'h) \<Rightarrow> ('e \<Rightarrow> 'h) \<Rightarrow> ('e \<Rightarrow> 'h) \<Rightarrow> 'h \<Rightarrow> 'e list \<Rightarrow> bool" where
  "chained prev stored recompute h [] \<longleftrightarrow> True"
| "chained prev stored recompute h (e # es) \<longleftrightarrow>
     prev e = h \<and> stored e = recompute e \<and> chained prev stored recompute (stored e) es"

definition last_hash :: "('e \<Rightarrow> 'h) \<Rightarrow> 'h \<Rightarrow> 'e list \<Rightarrow> 'h" where
  "last_hash stored h es = (if es = [] then h else stored (last es))"

lemma last_hash_simps [simp]:
  "last_hash stored h [] = h"
  "last_hash stored h (es @ [e]) = stored e"
  by (simp_all add: last_hash_def)

lemma last_hash_Cons: "last_hash stored h (e # es) = last_hash stored (stored e) es"
  by (simp add: last_hash_def)

lemma chained_append:
  "chained prev stored recompute h (es @ fs) \<longleftrightarrow>
    chained prev stored recompute h es
    \<and> chained prev stored recompute (last_hash stored h es) fs"
  by (induction es arbitrary: h) (auto simp: last_hash_Cons)

lemma chained_stored:
  "chained prev stored recompute h es \<Longrightarrow> e \<in> set es \<Longrightarrow> stored e = recompute e"
  by (induction es arbitrary: h) auto

locale hash_chain =
  fixes prev :: "'e \<Rightarrow> 'h"
    and stored :: "'e \<Rightarrow> 'h"
    and content :: "'e \<Rightarrow> 'c"
    and seal :: "'c \<Rightarrow> 'h"
  assumes content_fixes_prev: "content a = content b \<Longrightarrow> prev a = prev b"
begin

lemma chained_snoc:
  "chained prev stored (\<lambda>e. seal (content e)) h (es @ [e]) \<longleftrightarrow>
    chained prev stored (\<lambda>e. seal (content e)) h es
    \<and> prev e = last_hash stored h es \<and> stored e = seal (content e)"
  by (simp add: chained_append)

lemma same_last_same_contents:
  assumes "chained prev stored (\<lambda>e. seal (content e)) h es"
    and "chained prev stored (\<lambda>e. seal (content e)) h fs"
    and "last_hash stored h es = last_hash stored h fs"
    and "\<And>a b. a \<in> set es \<Longrightarrow> b \<in> set fs \<Longrightarrow>
          seal (content a) = seal (content b) \<Longrightarrow> content a = content b"
    and "\<And>a. a \<in> set es \<union> set fs \<Longrightarrow> stored a \<noteq> h"
  shows "map content es = map content fs"
  using assms
proof (induction es arbitrary: fs rule: rev_induct)
  case Nil
  then show ?case by (cases fs rule: rev_cases) auto
next
  case (snoc e es)
  show ?case
  proof (cases fs rule: rev_cases)
    case Nil
    with snoc.prems(3,5) show ?thesis by simp
  next
    case (snoc fs' f)
    have e: "chained prev stored (\<lambda>e. seal (content e)) h es" "prev e = last_hash stored h es"
      "stored e = seal (content e)"
      using snoc.prems(1) by (simp_all add: chained_snoc)
    have f: "chained prev stored (\<lambda>e. seal (content e)) h fs'" "prev f = last_hash stored h fs'"
      "stored f = seal (content f)"
      using snoc.prems(2) snoc by (simp_all add: chained_snoc)
    have "content e = content f"
      using snoc.prems(3,4) snoc e(3) f(3) by simp
    moreover from this have "last_hash stored h es = last_hash stored h fs'"
      using content_fixes_prev e(2) f(2) by metis
    moreover have "map content es = map content fs'"
      by (rule snoc.IH) (use snoc.prems(4,5) snoc e(1) f(1) calculation in auto)
    ultimately show ?thesis using snoc by simp
  qed
qed

end

end
