(* ===== verification/Epoch.thy ===== *)
theory Epoch
  imports Canonical_Json Hash_Chain
begin

text \<open>
  The epoch lifecycle: \<^verbatim>\<open>src/src/domain/types/epoch.ts\<close> and
  \<^verbatim>\<open>src/src/domain/governance/epochEngine.ts\<close>.

  An epoch wraps a plan with a state machine, an append-only event log whose entries are
  hash-chained, and checkpoints. The engine's methods are functions from the epoch to an error
  or the new epoch. The clock and the identifier generator are arguments: \<open>now\<close> is the ISO
  string of the current time and the identifiers are the strings \<^verbatim>\<open>newId\<close> returned.
  \<open>remaining_seconds\<close> is an exact rational.
\<close>

section \<open>States, events and epochs\<close>

datatype epoch_state =
  CREATED | ACTIVE | SUSPENDED | COMPLETED | FAILED | ABORTED | F13_HALTED

definition TERMINAL_EPOCH_STATES :: "epoch_state list" where
  "TERMINAL_EPOCH_STATES = [COMPLETED, FAILED, ABORTED, F13_HALTED]"

datatype event_type =
    EPOCH_CREATED | EPOCH_STARTED | EPOCH_TASK_STARTED | EPOCH_TASK_COMPLETED
  | EPOCH_TASK_FAILED | EPOCH_VETO_TRIGGERED | EPOCH_VETO_RESOLVED | EPOCH_SUSPENDED
  | EPOCH_RESUMED | EPOCH_CHECKPOINT | EPOCH_COMPLETED | EPOCH_FAILED | EPOCH_ABORTED
  | EPOCH_F13_HALTED

datatype verdict = SEAL | HOLD | VOID | SABAR

text \<open>\<^verbatim>\<open>Omit<EpochEvent, "event_hash">\<close> and the event that extends it.\<close>

record event_input =
  event_id :: string
  ev_epoch_id :: string
  ev_type :: event_type
  ts :: string
  task_id :: "string option"
  actor_id :: "string option"
  ev_verdict :: verdict
  state_hash :: "string option"
  payload :: "(string \<times> json) list"
  vauld_seal_id :: "string option"
  prev_event_hash :: string

record epoch_event = event_input +
  event_hash :: string

datatype checkpoint_reason =
  PERIODIC | ON_SUSPEND | ON_F13_HALT | ON_ABORT | ON_COMPLETE | MANUAL

record epoch_checkpoint =
  checkpoint_id :: string
  cp_epoch_id :: string
  cp_ts :: string
  cp_state_hash :: string
  last_event_id :: string
  cp_reason :: checkpoint_reason
  storage_ref :: "string option"
  event_count :: nat

datatype reversibility = Reversible | Irreversible | Mixed

record epoch =
  epoch_id :: string
  plan_id :: string
  mission_id :: string
  outcome_spec_id :: string
  ep_state :: epoch_state
  created_at :: string
  started_at :: "string option"
  completed_at :: "string option"
  parent_epoch_id :: "string option"
  max_wall_clock_seconds :: rat
  remaining_seconds :: rat
  events :: "epoch_event list"
  checkpoints :: "epoch_checkpoint list"
  f13_halt_active :: bool
  f13_halt_reason :: "string option"
  reversibility_class :: reversibility
  ep_notes :: "string list"
  ep_name :: "string option"
  genesis_event_hash :: string
  latest_event_hash :: string

text \<open>The fields of a plan that the engine reads.\<close>

record plan =
  pl_plan_id :: string
  pl_mission_id :: string
  pl_outcome_spec_id :: string
  judge_verdict :: verdict
  pl_name :: "string option"
  pl_reversibility_class :: reversibility

definition isTerminalState :: "epoch_state \<Rightarrow> bool" where
  "isTerminalState s \<longleftrightarrow> s \<in> set TERMINAL_EPOCH_STATES"

definition canTransition :: "epoch_state \<Rightarrow> epoch_state \<Rightarrow> bool" where
  "canTransition from_s to_s \<longleftrightarrow>
     (if isTerminalState from_s then False
      else if from_s = to_s then False
      else if from_s = CREATED then to_s = ACTIVE \<or> to_s = F13_HALTED \<or> to_s = ABORTED
      else if from_s = ACTIVE then
        to_s = SUSPENDED \<or> to_s = COMPLETED \<or> to_s = FAILED \<or> to_s = ABORTED \<or> to_s = F13_HALTED
      else if from_s = SUSPENDED then
        to_s = ACTIVE \<or> to_s = ABORTED \<or> to_s = F13_HALTED \<or> to_s = FAILED
      else False)"

definition isF13OnlyTransition :: "epoch_state \<Rightarrow> epoch_state \<Rightarrow> bool" where
  "isF13OnlyTransition from_s to_s \<longleftrightarrow> to_s = ABORTED \<or> to_s = F13_HALTED"

section \<open>Errors and guards\<close>

datatype epoch_error =
    EPOCH_INVALID_TRANSITION epoch_state epoch_state
  | EPOCH_NOT_A_TRANSITION event_type
  | EPOCH_F13_GATE
  | EPOCH_F1_GATE string
  | EPOCH_EMPTY
  | EPOCH_EPOCH_ID_MISMATCH string string
  | EPOCH_HASH_CHAIN_BROKEN string
  | EPOCH_EVENT_HASH_MISMATCH string
  | EPOCH_F13_HALT_BLOCK "string option"
  | EPOCH_TERMINAL epoch_state

definition assertF13NotActive :: "epoch \<Rightarrow> epoch_error + unit" where [guard_defs]:
  "assertF13NotActive ep =
     (if f13_halt_active ep then Inl (EPOCH_F13_HALT_BLOCK (f13_halt_reason ep)) else Inr ())"

definition assertNotTerminal :: "epoch \<Rightarrow> epoch_error + unit" where [guard_defs]:
  "assertNotTerminal ep =
     (if isTerminalState (ep_state ep) then Inl (EPOCH_TERMINAL (ep_state ep)) else Inr ())"

definition assertF13Actor :: "string \<Rightarrow> epoch_error + unit" where [guard_defs]:
  "assertF13Actor actor =
     (if actor \<noteq> ''arif-fazil'' \<and> take 4 actor \<noteq> ''f13.'' then Inl EPOCH_F13_GATE else Inr ())"

definition assertCanTransition :: "epoch \<Rightarrow> epoch_state \<Rightarrow> epoch_error + unit" where [guard_defs]:
  "assertCanTransition ep to_s =
     (if canTransition (ep_state ep) to_s then Inr ()
      else Inl (EPOCH_INVALID_TRANSITION (ep_state ep) to_s))"

section \<open>The hash of an event\<close>

fun event_type_text :: "event_type \<Rightarrow> string" where
  "event_type_text EPOCH_CREATED = ''EPOCH_CREATED''"
| "event_type_text EPOCH_STARTED = ''EPOCH_STARTED''"
| "event_type_text EPOCH_TASK_STARTED = ''EPOCH_TASK_STARTED''"
| "event_type_text EPOCH_TASK_COMPLETED = ''EPOCH_TASK_COMPLETED''"
| "event_type_text EPOCH_TASK_FAILED = ''EPOCH_TASK_FAILED''"
| "event_type_text EPOCH_VETO_TRIGGERED = ''EPOCH_VETO_TRIGGERED''"
| "event_type_text EPOCH_VETO_RESOLVED = ''EPOCH_VETO_RESOLVED''"
| "event_type_text EPOCH_SUSPENDED = ''EPOCH_SUSPENDED''"
| "event_type_text EPOCH_RESUMED = ''EPOCH_RESUMED''"
| "event_type_text EPOCH_CHECKPOINT = ''EPOCH_CHECKPOINT''"
| "event_type_text EPOCH_COMPLETED = ''EPOCH_COMPLETED''"
| "event_type_text EPOCH_FAILED = ''EPOCH_FAILED''"
| "event_type_text EPOCH_ABORTED = ''EPOCH_ABORTED''"
| "event_type_text EPOCH_F13_HALTED = ''EPOCH_F13_HALTED''"

fun verdict_text :: "verdict \<Rightarrow> string" where
  "verdict_text SEAL = ''SEAL''"
| "verdict_text HOLD = ''HOLD''"
| "verdict_text VOID = ''VOID''"
| "verdict_text SABAR = ''SABAR''"

fun state_text :: "epoch_state \<Rightarrow> string" where
  "state_text CREATED = ''CREATED''"
| "state_text ACTIVE = ''ACTIVE''"
| "state_text SUSPENDED = ''SUSPENDED''"
| "state_text COMPLETED = ''COMPLETED''"
| "state_text FAILED = ''FAILED''"
| "state_text ABORTED = ''ABORTED''"
| "state_text F13_HALTED = ''F13_HALTED''"

fun reason_text :: "checkpoint_reason \<Rightarrow> string" where
  "reason_text PERIODIC = ''PERIODIC''"
| "reason_text ON_SUSPEND = ''ON_SUSPEND''"
| "reason_text ON_F13_HALT = ''ON_F13_HALT''"
| "reason_text ON_ABORT = ''ON_ABORT''"
| "reason_text ON_COMPLETE = ''ON_COMPLETE''"
| "reason_text MANUAL = ''MANUAL''"

fun opt_str :: "string option \<Rightarrow> json" where
  "opt_str None = JUndef"
| "opt_str (Some s) = JStr s"

definition event_fields :: "'a event_input_scheme \<Rightarrow> (string \<times> json) list" where
  "event_fields e =
     [(''event_id'', JStr (event_id e)),
      (''epoch_id'', JStr (ev_epoch_id e)),
      (''event_type'', JStr (event_type_text (ev_type e))),
      (''ts'', JStr (ts e)),
      (''task_id'', opt_str (task_id e)),
      (''actor_id'', opt_str (actor_id e)),
      (''verdict'', JStr (verdict_text (ev_verdict e))),
      (''state_hash'', opt_str (state_hash e)),
      (''payload'', JObj (payload e)),
      (''vauld_seal_id'', opt_str (vauld_seal_id e)),
      (''prev_event_hash'', JStr (prev_event_hash e))]"

definition computeEventHash :: "runtime \<Rightarrow> 'a event_input_scheme \<Rightarrow> string" where
  "computeEventHash rt e = digest rt (JObj (event_fields e))"

definition genesis_prev :: string where
  "genesis_prev = replicate 64 (CHR ''0'')"

section \<open>Appending events\<close>

fun eventTypeToState :: "event_type \<Rightarrow> epoch_error + epoch_state" where
  "eventTypeToState EPOCH_CREATED = Inr CREATED"
| "eventTypeToState EPOCH_STARTED = Inr ACTIVE"
| "eventTypeToState EPOCH_RESUMED = Inr ACTIVE"
| "eventTypeToState EPOCH_SUSPENDED = Inr SUSPENDED"
| "eventTypeToState EPOCH_COMPLETED = Inr COMPLETED"
| "eventTypeToState EPOCH_FAILED = Inr FAILED"
| "eventTypeToState EPOCH_ABORTED = Inr ABORTED"
| "eventTypeToState EPOCH_F13_HALTED = Inr F13_HALTED"
| "eventTypeToState t = Inl (EPOCH_NOT_A_TRANSITION t)"

record event_args =
  arg_type :: event_type
  arg_actor :: string
  arg_task :: "string option"
  arg_verdict :: verdict
  arg_state_hash :: "string option"
  arg_payload :: "(string \<times> json) list"

definition new_event :: "runtime \<Rightarrow> string \<Rightarrow> string \<Rightarrow> epoch \<Rightarrow> event_args \<Rightarrow> epoch_event" where
  "new_event rt now eid ep a =
     (let b = \<lparr>event_id = eid, ev_epoch_id = epoch_id ep, ev_type = arg_type a, ts = now,
               task_id = arg_task a, actor_id = Some (arg_actor a), ev_verdict = arg_verdict a,
               state_hash = arg_state_hash a, payload = arg_payload a, vauld_seal_id = None,
               prev_event_hash = latest_event_hash ep\<rparr>
      in event_input.extend b \<lparr>event_hash = computeEventHash rt b\<rparr>)"

definition remaining_after :: "runtime \<Rightarrow> string \<Rightarrow> epoch \<Rightarrow> rat" where
  "remaining_after rt now ep =
     max 0 (max_wall_clock_seconds ep - of_int (get_time rt now - get_time rt (created_at ep)) / 1000)"

definition appendEventAndTransition ::
  "runtime \<Rightarrow> string \<Rightarrow> string \<Rightarrow> epoch \<Rightarrow> event_args \<Rightarrow> epoch_error + epoch" where
  "appendEventAndTransition rt now eid ep a =
     (let event = new_event rt now eid ep a in
      and_then (eventTypeToState (arg_type a)) (\<lambda>newState.
        Inr (ep\<lparr>ep_state := newState,
                started_at := (if newState = ACTIVE \<and> falsy (started_at ep) then Some now else started_at ep),
                completed_at := (if isTerminalState newState then Some now else completed_at ep),
                remaining_seconds := remaining_after rt now ep,
                events := events ep @ [event],
                latest_event_hash := event_hash event\<rparr>)))"

definition appendEvent ::
  "runtime \<Rightarrow> string \<Rightarrow> string \<Rightarrow> epoch \<Rightarrow> event_args \<Rightarrow> epoch" where
  "appendEvent rt now eid ep a =
     (let event = new_event rt now eid ep a
      in ep\<lparr>events := events ep @ [event], latest_event_hash := event_hash event\<rparr>)"

definition args :: "event_type \<Rightarrow> string \<Rightarrow> verdict \<Rightarrow> (string \<times> json) list \<Rightarrow> event_args" where
  "args t actor v p = \<lparr>arg_type = t, arg_actor = actor, arg_task = None, arg_verdict = v,
     arg_state_hash = None, arg_payload = p\<rparr>"

section \<open>The engine's operations\<close>

text \<open>\<open>create\<close> takes the options \<open>created_by\<close>, \<open>name\<close> and \<open>parent_epoch_id\<close>.\<close>

definition create :: "runtime \<Rightarrow> string \<Rightarrow> string \<Rightarrow> string \<Rightarrow> plan \<Rightarrow> string \<Rightarrow> string option
    \<Rightarrow> string option \<Rightarrow> epoch_error + epoch" where
  "create rt now new_epoch_id genesis_id p created_by nm parent =
     (if judge_verdict p \<noteq> SEAL then Inl (EPOCH_F1_GATE (pl_plan_id p))
      else
        let name_used = (case nm of Some n \<Rightarrow> Some n | None \<Rightarrow> pl_name p);
            wall = 3600;
            b = \<lparr>event_id = genesis_id, ev_epoch_id = new_epoch_id, ev_type = EPOCH_CREATED, ts = now,
                 task_id = None, actor_id = Some created_by, ev_verdict = SEAL, state_hash = None,
                 payload = [(''plan_id'', JStr (pl_plan_id p)),
                            (''mission_id'', JStr (pl_mission_id p)),
                            (''outcome_spec_id'', JStr (pl_outcome_spec_id p)),
                            (''name'', opt_str name_used),
                            (''parent_epoch_id'', opt_str parent),
                            (''max_wall_clock_seconds'', JNum wall)],
                 vauld_seal_id = None, prev_event_hash = genesis_prev\<rparr>;
            genesis = event_input.extend b \<lparr>event_hash = computeEventHash rt b\<rparr>
        in Inr \<lparr>epoch_id = new_epoch_id, plan_id = pl_plan_id p, mission_id = pl_mission_id p,
                outcome_spec_id = pl_outcome_spec_id p, ep_state = CREATED, created_at = now,
                started_at = None, completed_at = None, parent_epoch_id = parent,
                max_wall_clock_seconds = wall, remaining_seconds = wall, events = [genesis],
                checkpoints = [], f13_halt_active = False, f13_halt_reason = None,
                reversibility_class = pl_reversibility_class p, ep_notes = [],
                ep_name = name_used, genesis_event_hash = event_hash genesis,
                latest_event_hash = event_hash genesis\<rparr>)"

definition start :: "runtime \<Rightarrow> string \<Rightarrow> string \<Rightarrow> epoch \<Rightarrow> string \<Rightarrow> epoch_error + epoch" where
  "start rt now eid ep actor =
     and_then (assertF13NotActive ep) (\<lambda>_.
     and_then (assertCanTransition ep ACTIVE) (\<lambda>_.
       appendEventAndTransition rt now eid ep
         (args EPOCH_STARTED actor SEAL [(''previous_state'', JStr ''CREATED'')])))"

definition suspend :: "runtime \<Rightarrow> string \<Rightarrow> string \<Rightarrow> epoch \<Rightarrow> string \<Rightarrow> string \<Rightarrow> epoch_error + epoch" where
  "suspend rt now eid ep reason actor =
     and_then (assertF13NotActive ep) (\<lambda>_.
     and_then (assertCanTransition ep SUSPENDED) (\<lambda>_.
       appendEventAndTransition rt now eid ep
         (args EPOCH_SUSPENDED actor HOLD
           [(''reason'', JStr reason), (''previous_state'', JStr ''ACTIVE'')])))"

definition resume :: "runtime \<Rightarrow> string \<Rightarrow> string \<Rightarrow> epoch \<Rightarrow> string \<Rightarrow> epoch_error + epoch" where
  "resume rt now eid ep actor =
     and_then (assertF13NotActive ep) (\<lambda>_.
     and_then (assertCanTransition ep ACTIVE) (\<lambda>_.
       appendEventAndTransition rt now eid ep
         (args EPOCH_RESUMED actor SEAL [(''previous_state'', JStr ''SUSPENDED'')])))"

definition complete :: "runtime \<Rightarrow> string \<Rightarrow> string \<Rightarrow> epoch \<Rightarrow> string \<Rightarrow> epoch_error + epoch" where
  "complete rt now eid ep actor =
     and_then (assertF13NotActive ep) (\<lambda>_.
     and_then (assertCanTransition ep COMPLETED) (\<lambda>_.
       appendEventAndTransition rt now eid ep
         (args EPOCH_COMPLETED actor SEAL [(''previous_state'', JStr ''ACTIVE'')])))"

definition fail :: "runtime \<Rightarrow> string \<Rightarrow> string \<Rightarrow> epoch \<Rightarrow> string \<Rightarrow> string \<Rightarrow> epoch_error + epoch" where
  "fail rt now eid ep reason actor =
     and_then (assertF13NotActive ep) (\<lambda>_.
     and_then (assertCanTransition ep FAILED) (\<lambda>_.
       appendEventAndTransition rt now eid ep
         (args EPOCH_FAILED actor VOID
           [(''reason'', JStr reason), (''previous_state'', JStr ''ACTIVE'')])))"

definition abort :: "runtime \<Rightarrow> string \<Rightarrow> string \<Rightarrow> epoch \<Rightarrow> string \<Rightarrow> string \<Rightarrow> epoch_error + epoch" where
  "abort rt now eid ep reason actor =
     and_then (assertF13Actor actor) (\<lambda>_.
     and_then (assertCanTransition ep ABORTED) (\<lambda>_.
       appendEventAndTransition rt now eid ep
         (args EPOCH_ABORTED actor VOID
           [(''reason'', JStr reason), (''previous_state'', JStr (state_text (ep_state ep))),
            (''f13_override'', JBool True)])))"

definition f13_halt :: "runtime \<Rightarrow> string \<Rightarrow> string \<Rightarrow> epoch \<Rightarrow> string \<Rightarrow> string \<Rightarrow> epoch_error + epoch" where
  "f13_halt rt now eid ep reason actor =
     and_then (assertF13Actor actor) (\<lambda>_.
       if isTerminalState (ep_state ep)
       then Inl (EPOCH_INVALID_TRANSITION (ep_state ep) F13_HALTED)
       else and_then
         (appendEventAndTransition rt now eid ep
           (args EPOCH_F13_HALTED actor VOID
             [(''reason'', JStr reason), (''previous_state'', JStr (state_text (ep_state ep))),
              (''f13_override'', JBool True)]))
         (\<lambda>halted. Inr (halted\<lparr>f13_halt_active := True, f13_halt_reason := Some reason\<rparr>)))"

definition task_started :: "runtime \<Rightarrow> string \<Rightarrow> string \<Rightarrow> epoch \<Rightarrow> string \<Rightarrow> string \<Rightarrow> epoch_error + epoch" where
  "task_started rt now eid ep tid actor =
     and_then (assertF13NotActive ep) (\<lambda>_.
     and_then (assertNotTerminal ep) (\<lambda>_.
       Inr (appendEvent rt now eid ep
         ((args EPOCH_TASK_STARTED actor SEAL [(''task_id'', JStr tid)])\<lparr>arg_task := Some tid\<rparr>))))"

definition task_completed :: "runtime \<Rightarrow> string \<Rightarrow> string \<Rightarrow> epoch \<Rightarrow> string \<Rightarrow> string
    \<Rightarrow> (string \<times> json) list \<Rightarrow> epoch_error + epoch" where
  "task_completed rt now eid ep tid actor receipt =
     and_then (assertF13NotActive ep) (\<lambda>_.
     and_then (assertNotTerminal ep) (\<lambda>_.
       Inr (appendEvent rt now eid ep
         ((args EPOCH_TASK_COMPLETED actor SEAL
            [(''task_id'', JStr tid), (''receipt'', JObj receipt)])\<lparr>arg_task := Some tid\<rparr>))))"

definition task_failed :: "runtime \<Rightarrow> string \<Rightarrow> string \<Rightarrow> epoch \<Rightarrow> string \<Rightarrow> string \<Rightarrow> string
    \<Rightarrow> epoch_error + epoch" where
  "task_failed rt now eid ep tid actor err =
     and_then (assertF13NotActive ep) (\<lambda>_.
     and_then (assertNotTerminal ep) (\<lambda>_.
       Inr (appendEvent rt now eid ep
         ((args EPOCH_TASK_FAILED actor VOID
            [(''task_id'', JStr tid), (''error'', JStr err)])\<lparr>arg_task := Some tid\<rparr>))))"

definition veto_triggered :: "runtime \<Rightarrow> string \<Rightarrow> string \<Rightarrow> epoch \<Rightarrow> string \<Rightarrow> string \<Rightarrow> string
    \<Rightarrow> string \<Rightarrow> string \<Rightarrow> epoch_error + epoch" where
  "veto_triggered rt now eid ep tid veto_id floor_name reason actor =
     and_then (assertF13NotActive ep) (\<lambda>_.
     and_then (assertNotTerminal ep) (\<lambda>_.
       Inr (appendEvent rt now eid ep
         ((args EPOCH_VETO_TRIGGERED actor HOLD
            [(''task_id'', JStr tid), (''veto_id'', JStr veto_id), (''floor'', JStr floor_name),
             (''reason'', JStr reason)])\<lparr>arg_task := Some tid\<rparr>))))"

datatype resolution = CONTINUE | ABORT_MISSION

definition veto_resolved :: "runtime \<Rightarrow> string \<Rightarrow> string \<Rightarrow> epoch \<Rightarrow> string \<Rightarrow> resolution \<Rightarrow> string
    \<Rightarrow> epoch_error + epoch" where
  "veto_resolved rt now eid ep veto_id resol actor =
     and_then (assertF13Actor actor) (\<lambda>_.
       Inr (appendEvent rt now eid ep
         (args EPOCH_VETO_RESOLVED actor (if resol = CONTINUE then SEAL else VOID)
           [(''veto_id'', JStr veto_id),
            (''resolution'', JStr (if resol = CONTINUE then ''CONTINUE'' else ''ABORT''))])))"

text \<open>
  \<open>checkpoint\<close> takes the checkpoint's identifier and time stamp and the event's, in the
  order the code draws them.
\<close>

definition checkpoint_hash :: "runtime \<Rightarrow> epoch \<Rightarrow> string" where
  "checkpoint_hash rt ep = digest rt (JObj
     [(''epoch_id'', JStr (epoch_id ep)), (''state'', JStr (state_text (ep_state ep))),
      (''events_count'', JNum (of_nat (length (events ep)))),
      (''latest_event_hash'', JStr (latest_event_hash ep)),
      (''remaining_seconds'', JNum (remaining_seconds ep))])"

definition checkpoint :: "runtime \<Rightarrow> string \<Rightarrow> string \<Rightarrow> string \<Rightarrow> string \<Rightarrow> epoch
    \<Rightarrow> checkpoint_reason \<Rightarrow> string \<Rightarrow> string option \<Rightarrow> epoch_error + epoch" where
  "checkpoint rt cp_now cpid now eid ep reason actor storage =
     and_then (assertF13NotActive ep) (\<lambda>_.
       if events ep = [] then Inl EPOCH_EMPTY
       else
         let h = checkpoint_hash rt ep;
             cp = \<lparr>checkpoint_id = cpid, cp_epoch_id = epoch_id ep, cp_ts = cp_now,
                   cp_state_hash = h, last_event_id = event_id (last (events ep)),
                   cp_reason = reason, storage_ref = storage,
                   event_count = length (events ep)\<rparr>
         in Inr (appendEvent rt now eid (ep\<lparr>checkpoints := checkpoints ep @ [cp]\<rparr>)
              ((args EPOCH_CHECKPOINT actor SEAL
                 [(''checkpoint_id'', JStr cpid), (''reason'', JStr (reason_text reason))])
                 \<lparr>arg_state_hash := Some h\<rparr>)))"

section \<open>Replay\<close>

fun derive_step :: "epoch_state \<Rightarrow> event_type \<Rightarrow> epoch_state" where
  "derive_step s EPOCH_STARTED = ACTIVE"
| "derive_step s EPOCH_RESUMED = ACTIVE"
| "derive_step s EPOCH_SUSPENDED = SUSPENDED"
| "derive_step s EPOCH_COMPLETED = COMPLETED"
| "derive_step s EPOCH_FAILED = FAILED"
| "derive_step s EPOCH_ABORTED = ABORTED"
| "derive_step s EPOCH_F13_HALTED = F13_HALTED"
| "derive_step s t = s"

definition deriveStateFromEvents :: "epoch_event list \<Rightarrow> epoch_state" where
  "deriveStateFromEvents es = fold (\<lambda>e s. derive_step s (ev_type e)) es CREATED"

definition findFirstEventTs :: "epoch_event list \<Rightarrow> event_type \<Rightarrow> string option" where
  "findFirstEventTs es t = map_option ts (find (\<lambda>e. ev_type e = t) es)"

fun validate_chain :: "runtime \<Rightarrow> string \<Rightarrow> epoch_event list \<Rightarrow> epoch_error + unit" where
  "validate_chain rt prevHash [] = Inr ()"
| "validate_chain rt prevHash (e # es) =
     (if prev_event_hash e \<noteq> prevHash then Inl (EPOCH_HASH_CHAIN_BROKEN (event_id e))
      else if event_hash e \<noteq> computeEventHash rt e then Inl (EPOCH_EVENT_HASH_MISMATCH (event_id e))
      else validate_chain rt (event_hash e) es)"

text \<open>\<^verbatim>\<open>payload["k"] as string | undefined\<close> and \<^verbatim>\<open>(payload["k"] as number) ?? 3600\<close>.\<close>

definition payload_string :: "epoch_event \<Rightarrow> string \<Rightarrow> string option" where
  "payload_string e k = (case m_get (payload e) k of Some (JStr s) \<Rightarrow> Some s | _ \<Rightarrow> None)"

definition payload_number :: "epoch_event \<Rightarrow> string \<Rightarrow> rat option" where
  "payload_number e k = (case m_get (payload e) k of Some (JNum q) \<Rightarrow> Some q | _ \<Rightarrow> None)"

definition replay_completed :: "epoch_event list \<Rightarrow> string option" where
  "replay_completed es =
     js_or (findFirstEventTs es EPOCH_COMPLETED)
       (js_or (findFirstEventTs es EPOCH_FAILED)
         (js_or (findFirstEventTs es EPOCH_ABORTED) (findFirstEventTs es EPOCH_F13_HALTED)))"

definition replay :: "runtime \<Rightarrow> int \<Rightarrow> epoch_event list \<Rightarrow> string \<Rightarrow> string \<Rightarrow> string \<Rightarrow> string
    \<Rightarrow> epoch_error + epoch" where
  "replay rt now_ms es eid pid mid oid =
     (case es of
        [] \<Rightarrow> Inl EPOCH_EMPTY
      | genesis # _ \<Rightarrow>
          if ev_epoch_id genesis \<noteq> eid then Inl (EPOCH_EPOCH_ID_MISMATCH (ev_epoch_id genesis) eid)
          else and_then (validate_chain rt genesis_prev es) (\<lambda>_.
            let wall = (case payload_number genesis ''max_wall_clock_seconds'' of Some q \<Rightarrow> q | None \<Rightarrow> 3600);
                completed = replay_completed es;
                end_ms = (if falsy completed then now_ms else get_time rt (the completed));
                elapsed = of_int (end_ms - get_time rt (ts genesis)) / 1000;
                halt = find (\<lambda>e. ev_type e = EPOCH_F13_HALTED) es
            in Inr \<lparr>epoch_id = eid, plan_id = pid, mission_id = mid, outcome_spec_id = oid,
                 ep_state = deriveStateFromEvents es, created_at = ts genesis,
                 started_at = findFirstEventTs es EPOCH_STARTED, completed_at = completed,
                 parent_epoch_id = payload_string genesis ''parent_epoch_id'',
                 max_wall_clock_seconds = wall, remaining_seconds = max 0 (wall - elapsed),
                 events = es, checkpoints = [], f13_halt_active = (halt \<noteq> None),
                 f13_halt_reason = Option.bind halt (\<lambda>e. payload_string e ''reason''),
                 reversibility_class = Mixed, ep_notes = [],
                 ep_name = payload_string genesis ''name'',
                 genesis_event_hash = event_hash genesis,
                 latest_event_hash = event_hash (last es)\<rparr>))"

section \<open>The invariant of an epoch\<close>

definition ends_epoch :: "epoch_event \<Rightarrow> bool" where
  "ends_epoch e \<longleftrightarrow> ev_type e \<in> {EPOCH_COMPLETED, EPOCH_FAILED, EPOCH_ABORTED, EPOCH_F13_HALTED}"

fun ending_ok :: "epoch \<Rightarrow> epoch_event list \<Rightarrow> bool" where
  "ending_ok ep [] \<longleftrightarrow> \<not> isTerminalState (ep_state ep) \<and> completed_at ep = None
     \<and> \<not> f13_halt_active ep \<and> f13_halt_reason ep = None"
| "ending_ok ep [e] \<longleftrightarrow> isTerminalState (ep_state ep) \<and> completed_at ep = Some (ts e) \<and> ts e \<noteq> []
     \<and> f13_halt_active ep = (ev_type e = EPOCH_F13_HALTED)
     \<and> f13_halt_reason ep
         = (if ev_type e = EPOCH_F13_HALTED then payload_string e ''reason'' else None)"
| "ending_ok ep _ \<longleftrightarrow> False"

definition log_ok :: "runtime \<Rightarrow> epoch \<Rightarrow> bool" where
  "log_ok rt ep \<longleftrightarrow> events ep \<noteq> []
     \<and> chained prev_event_hash event_hash (computeEventHash rt) genesis_prev (events ep)
     \<and> latest_event_hash ep = event_hash (last (events ep))
     \<and> genesis_event_hash ep = event_hash (hd (events ep))
     \<and> (\<forall>e \<in> set (events ep). ev_epoch_id e = epoch_id ep)"

definition birth_ok :: "epoch \<Rightarrow> bool" where
  "birth_ok ep \<longleftrightarrow> (let g = hd (events ep) in
       ev_type g = EPOCH_CREATED \<and> created_at ep = ts g
     \<and> payload_string g ''name'' = ep_name ep
     \<and> payload_string g ''parent_epoch_id'' = parent_epoch_id ep
     \<and> payload_number g ''max_wall_clock_seconds'' = Some (max_wall_clock_seconds ep))"

definition epoch_inv :: "runtime \<Rightarrow> epoch \<Rightarrow> bool" where
  "epoch_inv rt ep \<longleftrightarrow> log_ok rt ep \<and> birth_ok ep
     \<and> ep_state ep = deriveStateFromEvents (events ep)
     \<and> ending_ok ep (filter ends_epoch (events ep))"

lemma isTerminalState_simps [simp]:
  "\<not> isTerminalState CREATED" "\<not> isTerminalState ACTIVE" "\<not> isTerminalState SUSPENDED"
  "isTerminalState COMPLETED" "isTerminalState FAILED" "isTerminalState ABORTED"
  "isTerminalState F13_HALTED"
  by (simp_all add: isTerminalState_def TERMINAL_EPOCH_STATES_def)

lemma canTransition_nonterminal: "canTransition s t \<Longrightarrow> \<not> isTerminalState s"
  by (auto simp: canTransition_def)

lemma new_event_simps [simp]:
  "ev_type (new_event rt now eid ep a) = arg_type a"
  "ts (new_event rt now eid ep a) = now"
  "payload (new_event rt now eid ep a) = arg_payload a"
  "ev_epoch_id (new_event rt now eid ep a) = epoch_id ep"
  "prev_event_hash (new_event rt now eid ep a) = latest_event_hash ep"
  by (simp_all add: new_event_def Let_def event_input.extend_def)

lemma new_event_hash [simp]:
  "event_hash (new_event rt now eid ep a) = computeEventHash rt (new_event rt now eid ep a)"
  by (simp add: new_event_def Let_def event_input.extend_def computeEventHash_def event_fields_def)

lemma deriveStateFromEvents_snoc [simp]:
  "deriveStateFromEvents (es @ [e]) = derive_step (deriveStateFromEvents es) (ev_type e)"
  by (simp add: deriveStateFromEvents_def)

lemma derive_step_eventTypeToState:
  "eventTypeToState t = Inr s' \<Longrightarrow> t \<noteq> EPOCH_CREATED \<Longrightarrow> derive_step s t = s'"
  by (cases t) auto

lemma log_ok_append:
  assumes "log_ok rt ep" and "events ep' = events ep @ [new_event rt now eid ep a]"
    and "epoch_id ep' = epoch_id ep" and "genesis_event_hash ep' = genesis_event_hash ep"
    and "latest_event_hash ep' = event_hash (new_event rt now eid ep a)"
  shows "log_ok rt ep'"
  using assms by (auto simp: log_ok_def chained_append last_hash_def)

lemma birth_ok_append:
  assumes "birth_ok ep" and "events ep \<noteq> []" and "events ep' = events ep @ [e]"
    and "created_at ep' = created_at ep" and "ep_name ep' = ep_name ep"
    and "parent_epoch_id ep' = parent_epoch_id ep"
    and "max_wall_clock_seconds ep' = max_wall_clock_seconds ep"
  shows "birth_ok ep'"
  using assms by (simp add: birth_ok_def Let_def)

lemma ending_ok_cong:
  assumes "ending_ok ep es" and "ep_state ep' = ep_state ep" and "completed_at ep' = completed_at ep"
    and "f13_halt_active ep' = f13_halt_active ep" and "f13_halt_reason ep' = f13_halt_reason ep"
  shows "ending_ok ep' es"
  using assms by (cases "(ep, es)" rule: ending_ok.cases) auto

lemma appendEvent_inv:
  assumes inv: "epoch_inv rt ep"
    and "arg_type a \<in> {EPOCH_TASK_STARTED, EPOCH_TASK_COMPLETED, EPOCH_TASK_FAILED,
           EPOCH_VETO_TRIGGERED, EPOCH_VETO_RESOLVED, EPOCH_CHECKPOINT}"
  shows "epoch_inv rt (appendEvent rt now eid ep a)"
proof -
  let ?ep = "appendEvent rt now eid ep a"
  have ev: "events ?ep = events ep @ [new_event rt now eid ep a]"
    by (simp add: appendEvent_def Let_def)
  have log: "log_ok rt ?ep"
    by (rule log_ok_append [of rt ep]) (use inv in \<open>simp_all add: epoch_inv_def appendEvent_def Let_def\<close>)
  have birth: "birth_ok ?ep"
    by (rule birth_ok_append [of ep])
      (use inv in \<open>simp_all add: epoch_inv_def log_ok_def appendEvent_def Let_def\<close>)
  have "derive_step s (arg_type a) = s" for s using assms(2) by auto
  then have same: "deriveStateFromEvents (events ?ep) = deriveStateFromEvents (events ep)"
    unfolding ev deriveStateFromEvents_snoc by simp
  have "ep_state ?ep = ep_state ep" by (simp add: appendEvent_def Let_def)
  moreover have "ep_state ep = deriveStateFromEvents (events ep)" using inv unfolding epoch_inv_def by blast
  ultimately have state: "ep_state ?ep = deriveStateFromEvents (events ?ep)" unfolding same by (rule trans)
  have "\<not> ends_epoch (new_event rt now eid ep a)" using assms(2) by (auto simp: ends_epoch_def)
  then have ends: "filter ends_epoch (events ?ep) = filter ends_epoch (events ep)" by (simp add: ev)
  have fin: "ending_ok ?ep (filter ends_epoch (events ep))"
    by (rule ending_ok_cong [of ep]) (use inv in \<open>simp_all add: epoch_inv_def appendEvent_def Let_def\<close>)
  show ?thesis unfolding epoch_inv_def ends by (intro conjI log birth state fin)
qed

lemma transition_inv:
  assumes inv: "epoch_inv rt ep" and live: "\<not> isTerminalState (ep_state ep)" and "now \<noteq> []"
    and t: "arg_type a \<notin> {EPOCH_CREATED, EPOCH_F13_HALTED}"
    and step: "appendEventAndTransition rt now eid ep a = Inr ep'"
  shows "epoch_inv rt ep'"
proof -
  from step obtain s where s: "eventTypeToState (arg_type a) = Inr s"
    and ep': "ep' = ep\<lparr>ep_state := s,
                started_at := (if s = ACTIVE \<and> falsy (started_at ep) then Some now else started_at ep),
                completed_at := (if isTerminalState s then Some now else completed_at ep),
                remaining_seconds := remaining_after rt now ep,
                events := events ep @ [new_event rt now eid ep a],
                latest_event_hash := event_hash (new_event rt now eid ep a)\<rparr>"
    by (auto simp: appendEventAndTransition_def Let_def and_then_Inr)
  have ev: "events ep' = events ep @ [new_event rt now eid ep a]" by (simp add: ep')
  have "log_ok rt ep'"
    by (rule log_ok_append [of rt ep]) (use inv in \<open>simp_all add: epoch_inv_def ep'\<close>)
  moreover have "birth_ok ep'"
    by (rule birth_ok_append [of ep]) (use inv in \<open>simp_all add: epoch_inv_def log_ok_def ep'\<close>)
  moreover have "ep_state ep' = deriveStateFromEvents (events ep')"
    using derive_step_eventTypeToState [OF s] t by (simp add: ev) (simp add: ep')
  moreover have "ending_ok ep' (filter ends_epoch (events ep'))"
  proof -
    have none: "filter ends_epoch (events ep) = []" and old: "ending_ok ep []"
      using inv live by (cases "(ep, filter ends_epoch (events ep))" rule: ending_ok.cases;
          simp add: epoch_inv_def)+
    show ?thesis
      using none old s t \<open>now \<noteq> []\<close> by (cases "arg_type a") (auto simp: ep' ends_epoch_def)
  qed
  ultimately show ?thesis by (simp add: epoch_inv_def)
qed

section \<open>Runs of the engine\<close>

text \<open>
  One call of a method of the engine. The time stamp of an event is the output of
  \<^verbatim>\<open>toISOString\<close>, which is never the empty string.
\<close>

inductive epoch_step :: "runtime \<Rightarrow> epoch \<Rightarrow> epoch \<Rightarrow> bool" for rt where
  do_start: "now \<noteq> [] \<Longrightarrow> start rt now eid ep actor = Inr ep' \<Longrightarrow> epoch_step rt ep ep'"
| do_suspend: "now \<noteq> [] \<Longrightarrow> suspend rt now eid ep reason actor = Inr ep' \<Longrightarrow> epoch_step rt ep ep'"
| do_resume: "now \<noteq> [] \<Longrightarrow> resume rt now eid ep actor = Inr ep' \<Longrightarrow> epoch_step rt ep ep'"
| do_complete: "now \<noteq> [] \<Longrightarrow> complete rt now eid ep actor = Inr ep' \<Longrightarrow> epoch_step rt ep ep'"
| do_fail: "now \<noteq> [] \<Longrightarrow> fail rt now eid ep reason actor = Inr ep' \<Longrightarrow> epoch_step rt ep ep'"
| do_abort: "now \<noteq> [] \<Longrightarrow> abort rt now eid ep reason actor = Inr ep' \<Longrightarrow> epoch_step rt ep ep'"
| do_f13_halt: "now \<noteq> [] \<Longrightarrow> f13_halt rt now eid ep reason actor = Inr ep' \<Longrightarrow> epoch_step rt ep ep'"
| do_task_started: "now \<noteq> [] \<Longrightarrow> task_started rt now eid ep tid actor = Inr ep' \<Longrightarrow> epoch_step rt ep ep'"
| do_task_completed:
    "now \<noteq> [] \<Longrightarrow> task_completed rt now eid ep tid actor receipt = Inr ep' \<Longrightarrow> epoch_step rt ep ep'"
| do_task_failed: "now \<noteq> [] \<Longrightarrow> task_failed rt now eid ep tid actor err = Inr ep' \<Longrightarrow> epoch_step rt ep ep'"
| do_veto_triggered: "now \<noteq> [] \<Longrightarrow> veto_triggered rt now eid ep tid vid floor_name reason actor = Inr ep'
    \<Longrightarrow> epoch_step rt ep ep'"
| do_veto_resolved: "now \<noteq> [] \<Longrightarrow> veto_resolved rt now eid ep vid resol actor = Inr ep' \<Longrightarrow> epoch_step rt ep ep'"
| do_checkpoint: "now \<noteq> [] \<Longrightarrow> checkpoint rt cp_now cpid now eid ep creason actor storage = Inr ep'
    \<Longrightarrow> epoch_step rt ep ep'"

definition epoch_reachable :: "runtime \<Rightarrow> epoch \<Rightarrow> bool" where
  "epoch_reachable rt ep \<longleftrightarrow> (\<exists>now eid gid p creator nm parent ep0.
     create rt now eid gid p creator nm parent = Inr ep0 \<and> (epoch_step rt)\<^sup>*\<^sup>* ep0 ep)"

text \<open>
  A step is an event appended without a change of state, or a transition the table allows.
  \<open>started_ok\<close> says where \<open>started_at\<close> comes from: the first event that made the epoch active.
\<close>

definition quiet_types :: "event_type set" where
  "quiet_types = {EPOCH_TASK_STARTED, EPOCH_TASK_COMPLETED, EPOCH_TASK_FAILED,
           EPOCH_VETO_TRIGGERED, EPOCH_VETO_RESOLVED, EPOCH_CHECKPOINT}"

definition activates :: "epoch_event \<Rightarrow> bool" where
  "activates e \<longleftrightarrow> ev_type e = EPOCH_STARTED \<or> ev_type e = EPOCH_RESUMED"

definition started_ok :: "epoch \<Rightarrow> bool" where
  "started_ok ep \<longleftrightarrow> started_at ep = map_option ts (find activates (events ep))
     \<and> (\<forall>e \<in> set (events ep). activates e \<longrightarrow> ts e \<noteq> [])"

lemma args_simps [simp]:
  "arg_type (args t actor v p) = t" "arg_actor (args t actor v p) = actor"
  "arg_payload (args t actor v p) = p"
  by (simp_all add: args_def)

lemmas engine_ops = start_def suspend_def resume_def complete_def fail_def abort_def f13_halt_def
  task_started_def task_completed_def task_failed_def veto_triggered_def veto_resolved_def
  checkpoint_def

lemma epoch_step_forms:
  assumes "epoch_step rt ep ep'"
  obtains (quiet) now eid a cps where "arg_type a \<in> quiet_types"
      "ep' = appendEvent rt now eid (ep\<lparr>checkpoints := cps\<rparr>) a"
  | (move) now eid a s where "now \<noteq> []" "canTransition (ep_state ep) s"
      "eventTypeToState (arg_type a) = Inr s" "arg_type a \<notin> {EPOCH_CREATED, EPOCH_F13_HALTED}"
      "s = ABORTED \<longrightarrow> assertF13Actor (arg_actor a) = Inr ()"
      "appendEventAndTransition rt now eid ep a = Inr ep'"
  | (halt) now eid reason actor where "now \<noteq> []" "\<not> isTerminalState (ep_state ep)"
      "assertF13Actor actor = Inr ()" "f13_halt rt now eid ep reason actor = Inr ep'"
proof -
  have q: thesis if "arg_type a \<in> quiet_types" "ep' = appendEvent rt now eid ep a" for a now eid
    using quiet [of a now eid "checkpoints ep"] that by simp
  show thesis
    using assms
  proof cases
    case (do_start now eid actor)
    then show thesis by (intro move [of now ACTIVE])
      (auto simp: engine_ops guard_defs and_then_Inr split: if_splits)
  next
    case (do_suspend now eid reason actor)
    then show thesis by (intro move [of now SUSPENDED])
      (auto simp: engine_ops guard_defs and_then_Inr split: if_splits)
  next
    case (do_resume now eid actor)
    then show thesis by (intro move [of now ACTIVE])
      (auto simp: engine_ops guard_defs and_then_Inr split: if_splits)
  next
    case (do_complete now eid actor)
    then show thesis by (intro move [of now COMPLETED])
      (auto simp: engine_ops guard_defs and_then_Inr split: if_splits)
  next
    case (do_fail now eid reason actor)
    then show thesis by (intro move [of now FAILED])
      (auto simp: engine_ops guard_defs and_then_Inr split: if_splits)
  next
    case (do_abort now eid reason actor)
    then show thesis by (intro move [of now ABORTED])
      (auto simp: engine_ops guard_defs and_then_Inr split: if_splits)
  next
    case (do_f13_halt now eid reason actor)
    then show thesis by (intro halt [of now actor eid reason])
      (auto simp: engine_ops guard_defs and_then_Inr split: if_splits)
  next
    case (do_checkpoint now cp_now cpid eid creason actor storage)
    then show thesis
      by (intro quiet [of _ now eid]) (auto simp: checkpoint_def guard_defs and_then_Inr Let_def
        quiet_types_def split: if_splits)
  next
    case (do_task_started now eid tid actor)
    then show thesis by (intro q) (auto simp: engine_ops guard_defs and_then_Inr quiet_types_def split: if_splits)
  next
    case (do_task_completed now eid tid actor receipt)
    then show thesis by (intro q) (auto simp: engine_ops guard_defs and_then_Inr quiet_types_def split: if_splits)
  next
    case (do_task_failed now eid tid actor err)
    then show thesis by (intro q) (auto simp: engine_ops guard_defs and_then_Inr quiet_types_def split: if_splits)
  next
    case (do_veto_triggered now eid tid vid floor_name reason actor)
    then show thesis by (intro q) (auto simp: engine_ops guard_defs and_then_Inr quiet_types_def split: if_splits)
  next
    case (do_veto_resolved now eid vid resol actor)
    let ?a = "args EPOCH_VETO_RESOLVED actor (if resol = CONTINUE then SEAL else VOID)
       [(''veto_id'', JStr vid),
        (''resolution'', JStr (if resol = CONTINUE then ''CONTINUE'' else ''ABORT''))]"
    from do_veto_resolved have "ep' = appendEvent rt now eid ep ?a"
      unfolding veto_resolved_def and_then_Inr by blast
    moreover have "arg_type ?a \<in> quiet_types" by (simp add: quiet_types_def)
    ultimately show thesis by (rule q [rotated])
  qed
qed

lemma with_checkpoints_inv: "epoch_inv rt (ep\<lparr>checkpoints := cps\<rparr>) \<longleftrightarrow> epoch_inv rt ep"
proof -
  have "ending_ok (ep\<lparr>checkpoints := cps\<rparr>) es \<longleftrightarrow> ending_ok ep es" for es
    by (cases "(ep, es)" rule: ending_ok.cases) simp_all
  then show ?thesis by (simp add: epoch_inv_def log_ok_def birth_ok_def)
qed

lemma no_end_when_live:
  assumes "epoch_inv rt ep" and "\<not> isTerminalState (ep_state ep)"
  shows "filter ends_epoch (events ep) = []" and "ending_ok ep []"
  using assms by (cases "(ep, filter ends_epoch (events ep))" rule: ending_ok.cases;
    simp add: epoch_inv_def)+

lemma f13_halt_inv:
  assumes inv: "epoch_inv rt ep" and live: "\<not> isTerminalState (ep_state ep)" and "now \<noteq> []"
    and step: "f13_halt rt now eid ep reason actor = Inr ep'"
  shows "epoch_inv rt ep'"
proof -
  let ?a = "args EPOCH_F13_HALTED actor VOID
             [(''reason'', JStr reason), (''previous_state'', JStr (state_text (ep_state ep))),
              (''f13_override'', JBool True)]"
  from step live have ep': "ep' = ep\<lparr>ep_state := F13_HALTED, completed_at := Some now,
       remaining_seconds := remaining_after rt now ep, f13_halt_active := True,
       f13_halt_reason := Some reason,
       events := events ep @ [new_event rt now eid ep ?a],
       latest_event_hash := event_hash (new_event rt now eid ep ?a)\<rparr>"
    by (auto simp: f13_halt_def appendEventAndTransition_def and_then_Inr Let_def)
  have ev: "events ep' = events ep @ [new_event rt now eid ep ?a]" by (simp add: ep')
  have log: "log_ok rt ep'"
    by (rule log_ok_append [of rt ep]) (use inv in \<open>simp_all add: epoch_inv_def ep'\<close>)
  have birth: "birth_ok ep'"
    by (rule birth_ok_append [of ep]) (use inv in \<open>simp_all add: epoch_inv_def log_ok_def ep'\<close>)
  have state: "ep_state ep' = deriveStateFromEvents (events ep')"
    by (simp add: ev) (simp add: ep')
  have "filter ends_epoch (events ep') = [new_event rt now eid ep ?a]"
    by (simp add: ev no_end_when_live [OF inv live] ends_epoch_def)
  then have fin: "ending_ok ep' (filter ends_epoch (events ep'))"
    using \<open>now \<noteq> []\<close> by (simp add: ep' payload_string_def)
  show ?thesis unfolding epoch_inv_def by (intro conjI log birth state fin)
qed

lemma epoch_step_inv:
  assumes "epoch_step rt ep ep'" and inv: "epoch_inv rt ep"
  shows "epoch_inv rt ep'"
  using assms(1)
proof (cases rule: epoch_step_forms)
  case (quiet now eid a cps)
  then show ?thesis using inv
    by (auto simp: quiet_types_def intro!: appendEvent_inv [of rt "ep\<lparr>checkpoints := cps\<rparr>"]
      simp: with_checkpoints_inv)
next
  case (move now eid a s)
  then show ?thesis
    by (intro transition_inv [OF inv canTransition_nonterminal]) simp_all
next
  case (halt now eid reason actor)
  then show ?thesis by (intro f13_halt_inv [OF inv]) simp_all
qed

interpretation engine: kept_invariant "epoch_step rt" "epoch_inv rt" for rt
  by unfold_locales (rule epoch_step_inv)

lemma with_checkpoints_simps [simp]:
  "new_event rt now eid (ep\<lparr>checkpoints := cps\<rparr>) a = new_event rt now eid ep a"
  by (simp add: new_event_def)

lemma find_snoc: "find P (xs @ [x]) = (case find P xs of None \<Rightarrow> if P x then Some x else None | Some y \<Rightarrow> Some y)"
  by (simp add: find_append split: option.split)

lemma started_ok_step:
  assumes "epoch_step rt ep ep'" and ok: "started_ok ep"
  shows "started_ok ep'"
proof -
  have nonempty: "ts e \<noteq> []" if "find activates (events ep) = Some e" for e
    using find_Some_in [OF that] ok by (simp add: started_ok_def)
  from assms(1) show ?thesis
  proof (cases rule: epoch_step_forms)
    case (quiet now eid a cps)
    then have "\<not> activates (new_event rt now eid ep a)"
      by (auto simp: activates_def quiet_types_def)
    with quiet ok show ?thesis
      by (auto simp: started_ok_def appendEvent_def Let_def find_snoc split: option.splits)
  next
    case (move now eid a s)
    then show ?thesis using ok nonempty
      by (cases "arg_type a") (auto simp: started_ok_def appendEventAndTransition_def Let_def
          find_snoc activates_def falsy_def split: option.splits)
  next
    case (halt now eid reason actor)
    then show ?thesis using ok
      by (auto simp: started_ok_def f13_halt_def appendEventAndTransition_def and_then_Inr Let_def
          find_snoc activates_def split: option.splits)
  qed
qed

lemma create_inv:
  assumes "create rt now eid gid p creator nm parent = Inr ep"
  shows "epoch_inv rt ep" and "started_ok ep"
proof -
  from assms have ok: "judge_verdict p = SEAL" by (auto simp: create_def split: if_splits)
  have str: "(case opt_str x of JStr s \<Rightarrow> Some s | _ \<Rightarrow> None) = x" for x by (cases x) simp_all
  show "epoch_inv rt ep"
    using assms ok
    by (auto simp: create_def Let_def epoch_inv_def log_ok_def birth_ok_def ends_epoch_def str
        event_input.extend_def deriveStateFromEvents_def computeEventHash_def event_fields_def
        payload_string_def payload_number_def genesis_prev_def)
  show "started_ok ep"
    using assms ok
    by (auto simp: create_def Let_def started_ok_def activates_def event_input.extend_def)
qed

interpretation starts: kept_invariant "epoch_step rt" started_ok for rt
  by unfold_locales (rule started_ok_step)

lemma reachable_inv:
  assumes "epoch_reachable rt ep"
  shows "epoch_inv rt ep" and "started_ok ep"
proof -
  from assms obtain now eid gid p creator nm parent ep0
    where c: "create rt now eid gid p creator nm parent = Inr ep0" and r: "(epoch_step rt)\<^sup>*\<^sup>* ep0 ep"
    unfolding epoch_reachable_def by blast
  show "epoch_inv rt ep" by (rule engine.run_inv [OF r create_inv(1) [OF c]])
  show "started_ok ep" by (rule starts.run_inv [OF r create_inv(2) [OF c]])
qed

section \<open>The chain of a log and its replay\<close>

lemma validate_chain_iff:
  "validate_chain rt h es = Inr () \<longleftrightarrow> chained prev_event_hash event_hash (computeEventHash rt) h es"
  by (induction es arbitrary: h) auto

lemma find_filter: "find P xs = (case filter P xs of [] \<Rightarrow> None | x # _ \<Rightarrow> Some x)"
  by (induction xs) auto

lemma find_weaken:
  assumes "filter P xs = ys" and "\<And>x. Q x \<Longrightarrow> P x"
  shows "find Q xs = find Q ys"
  using assms by (induction xs arbitrary: ys) auto

lemma replay_completed_eq:
  assumes "ending_ok ep (filter ends_epoch es)"
  shows "replay_completed es = completed_at ep"
    and "find (\<lambda>e. ev_type e = EPOCH_F13_HALTED) es
       = (if f13_halt_active ep then Some (hd (filter ends_epoch es)) else None)"
proof -
  have f: "find (\<lambda>e. ev_type e = t) es = find (\<lambda>e. ev_type e = t) (filter ends_epoch es)"
    if "t \<in> {EPOCH_COMPLETED, EPOCH_FAILED, EPOCH_ABORTED, EPOCH_F13_HALTED}" for t
    by (rule find_weaken [OF refl]) (use that in \<open>auto simp: ends_epoch_def\<close>)
  have e: "ev_type x \<in> {EPOCH_COMPLETED, EPOCH_FAILED, EPOCH_ABORTED, EPOCH_F13_HALTED}"
    if "filter ends_epoch es = [x]" for x
  proof -
    have "x \<in> set (filter ends_epoch es)" using that by simp
    then show ?thesis by (simp add: ends_epoch_def)
  qed
  from assms show "replay_completed es = completed_at ep"
    by (cases "(ep, filter ends_epoch es)" rule: ending_ok.cases)
      (auto simp: replay_completed_def findFirstEventTs_def f dest: e)
  from assms show "find (\<lambda>e. ev_type e = EPOCH_F13_HALTED) es
       = (if f13_halt_active ep then Some (hd (filter ends_epoch es)) else None)"
    by (cases "(ep, filter ends_epoch es)" rule: ending_ok.cases)
      (auto simp: f)
qed

definition remaining_at :: "runtime \<Rightarrow> int \<Rightarrow> epoch \<Rightarrow> rat" where
  "remaining_at rt now_ms ep = max 0 (max_wall_clock_seconds ep
     - of_int ((case completed_at ep of None \<Rightarrow> now_ms | Some t \<Rightarrow> get_time rt t)
               - get_time rt (created_at ep)) / 1000)"

lemma replay_inv:
  assumes inv: "epoch_inv rt ep"
  shows "replay rt now_ms (events ep) (epoch_id ep) (plan_id ep) (mission_id ep) (outcome_spec_id ep)
    = Inr (ep\<lparr>started_at := findFirstEventTs (events ep) EPOCH_STARTED,
              remaining_seconds := remaining_at rt now_ms ep, checkpoints := [],
              reversibility_class := Mixed, ep_notes := []\<rparr>)"
proof -
  from inv obtain g es where ev: "events ep = g # es"
    by (cases "events ep") (auto simp: epoch_inv_def log_ok_def)
  have ch: "validate_chain rt genesis_prev (g # es) = Inr ()"
    unfolding validate_chain_iff ev [symmetric] using inv by (simp add: epoch_inv_def log_ok_def)
  have end_ok: "ending_ok ep (filter ends_epoch (g # es))" using inv ev by (simp add: epoch_inv_def)
  have fin: "replay_completed (g # es) = completed_at ep"
    by (rule replay_completed_eq(1) [OF end_ok])
  have live: "(if falsy (completed_at ep) then now_ms else get_time rt (the (completed_at ep)))
      = (case completed_at ep of None \<Rightarrow> now_ms | Some t \<Rightarrow> get_time rt t)"
    using end_ok by (cases "(ep, filter ends_epoch (g # es))" rule: ending_ok.cases) auto
  have reason: "Option.bind (find (\<lambda>e. ev_type e = EPOCH_F13_HALTED) (g # es))
      (\<lambda>e. payload_string e ''reason'') = f13_halt_reason ep"
    using end_ok unfolding replay_completed_eq(2) [OF end_ok]
    by (cases "(ep, filter ends_epoch (g # es))" rule: ending_ok.cases) auto
  have active: "(find (\<lambda>e. ev_type e = EPOCH_F13_HALTED) (g # es) \<noteq> None) = f13_halt_active ep"
    unfolding replay_completed_eq(2) [OF end_ok] by simp
  show ?thesis
    unfolding replay_def ev list.case ch and_then_simps fin Let_def live reason active remaining_at_def
    using inv by (simp add: epoch_inv_def log_ok_def birth_ok_def Let_def ev)
qed

section \<open>The log as a hash chain\<close>


lemma event_type_text_inject [simp]: "event_type_text a = event_type_text b \<longleftrightarrow> a = b"
  by (cases a; cases b) simp_all

lemma verdict_text_inject [simp]: "verdict_text a = verdict_text b \<longleftrightarrow> a = b"
  by (cases a; cases b) simp_all

lemma canonicalize_opt_str [simp]: "canonicalize (opt_str x) = opt_str x"
  by (cases x) simp_all

lemma opt_str_inject [simp]: "opt_str x = opt_str y \<longleftrightarrow> x = y" "opt_str x = JUndef \<longleftrightarrow> x = None"
  by (cases x; cases y; simp)+












section \<open>A sample run, for the witnesses\<close>

definition sample_plan :: plan where
  "sample_plan = \<lparr>pl_plan_id = ''plan-1'', pl_mission_id = ''mission-1'', pl_outcome_spec_id = ''spec-1'',
     judge_verdict = SEAL, pl_name = Some ''demo'', pl_reversibility_class = Reversible\<rparr>"

lemma sample_run:
  obtains e0 e1 e2 where
    "create plain_runtime ''t0'' ''epoch-1'' ''ev-0'' sample_plan ''planner'' None None = Inr e0"
    "start plain_runtime ''t1'' ''ev-1'' e0 ''planner'' = Inr e1"
    "f13_halt plain_runtime ''t2'' ''ev-2'' e1 ''drift'' ''arif-fazil'' = Inr e2"
    "ep_state e0 = CREATED" "ep_state e1 = ACTIVE" "ep_state e2 = F13_HALTED"
    "f13_halt_active e0 = False" "started_at e1 = Some ''t1''"
proof -
  obtain e0 where e0: "create plain_runtime ''t0'' ''epoch-1'' ''ev-0'' sample_plan ''planner'' None None = Inr e0"
    "ep_state e0 = CREATED" "f13_halt_active e0 = False" "started_at e0 = None"
    by (simp add: create_def sample_plan_def Let_def)
  obtain e1 where e1: "start plain_runtime ''t1'' ''ev-1'' e0 ''planner'' = Inr e1" "ep_state e1 = ACTIVE"
    "started_at e1 = Some ''t1''"
    using e0(2-) by (simp add: start_def guard_defs canTransition_def appendEventAndTransition_def Let_def)
  obtain e2 where e2: "f13_halt plain_runtime ''t2'' ''ev-2'' e1 ''drift'' ''arif-fazil'' = Inr e2"
    "ep_state e2 = F13_HALTED"
    using e1 by (simp add: f13_halt_def guard_defs appendEventAndTransition_def Let_def)
  show thesis by (rule that [OF e0(1) e1(1) e2(1) e0(2) e1(2) e2(2) e0(3) e1(3)])
qed

lemma sample_reachable:
  obtains e1 e2 where "epoch_reachable plain_runtime e1" "epoch_reachable plain_runtime e2"
    "epoch_step plain_runtime e1 e2" "ep_state e1 = ACTIVE" "ep_state e2 = F13_HALTED"
proof -
  obtain e0 e1 e2 where r:
    "create plain_runtime ''t0'' ''epoch-1'' ''ev-0'' sample_plan ''planner'' None None = Inr e0"
    "start plain_runtime ''t1'' ''ev-1'' e0 ''planner'' = Inr e1"
    "f13_halt plain_runtime ''t2'' ''ev-2'' e1 ''drift'' ''arif-fazil'' = Inr e2"
    "ep_state e1 = ACTIVE" "ep_state e2 = F13_HALTED" by (rule sample_run)
  have s1: "epoch_step plain_runtime e0 e1" by (rule do_start [OF _ r(2)]) simp
  have s2: "epoch_step plain_runtime e1 e2" by (rule do_f13_halt [OF _ r(3)]) simp
  have "epoch_reachable plain_runtime e1" "epoch_reachable plain_runtime e2"
    unfolding epoch_reachable_def using r(1) s1 s2 by (meson r_into_rtranclp rtranclp.rtrancl_into_rtrancl)+
  with r s2 show thesis by (intro that)
qed








section \<open>Properties\<close>

text \<open>
  C1. Crash recovery: replaying the event log of any epoch the engine can produce succeeds and
  rebuilds the epoch itself: its state, identity, creation and completion time, halt flag and
  reason, name, parent and chain hashes are those of the live epoch. Only five fields differ:
  \<open>started_at\<close> is the time of the first \<open>EPOCH_STARTED\<close> event, the remaining time is computed from
  the replay's clock, and checkpoints, notes and the reversibility class are reset.
\<close>

theorem replay_reconstructs:
  assumes "epoch_reachable rt ep"
  shows "replay rt now_ms (events ep) (epoch_id ep) (plan_id ep) (mission_id ep) (outcome_spec_id ep)
    = Inr (ep\<lparr>started_at := findFirstEventTs (events ep) EPOCH_STARTED,
              remaining_seconds := remaining_at rt now_ms ep, checkpoints := [],
              reversibility_class := Mixed, ep_notes := []\<rparr>)"
  by (rule replay_inv [OF reachable_inv(1) [OF assms]])

theorem replay_reconstructs_witness:
  "\<exists>ep. epoch_reachable plain_runtime ep \<and> ep_state ep = F13_HALTED
    \<and> replay plain_runtime 9 (events ep) (epoch_id ep) (plan_id ep) (mission_id ep) (outcome_spec_id ep)
      = Inr (ep\<lparr>started_at := findFirstEventTs (events ep) EPOCH_STARTED,
              remaining_seconds := remaining_at plain_runtime 9 ep, checkpoints := [],
              reversibility_class := Mixed, ep_notes := []\<rparr>)"
  by (rule sample_reachable) (metis replay_reconstructs)

text \<open>
  Where a live epoch's \<open>started_at\<close> comes from: it is the time of the first event that made the
  epoch active, be it a start or a resume, so it is set exactly when the epoch was ever active.
\<close>

theorem started_at_first_activation:
  assumes "epoch_reachable rt ep"
  shows "started_at ep = map_option ts
    (find (\<lambda>e. ev_type e = EPOCH_STARTED \<or> ev_type e = EPOCH_RESUMED) (events ep))"
proof -
  have "activates = (\<lambda>e. ev_type e = EPOCH_STARTED \<or> ev_type e = EPOCH_RESUMED)"
    by (rule ext) (simp add: activates_def)
  with reachable_inv(2) [OF assms] show ?thesis by (simp add: started_ok_def)
qed

theorem started_at_first_activation_witness:
  "\<exists>ep. epoch_reachable plain_runtime ep \<and> ep_state ep = ACTIVE \<and> started_at ep = map_option ts
    (find (\<lambda>e. ev_type e = EPOCH_STARTED \<or> ev_type e = EPOCH_RESUMED) (events ep))"
  by (rule sample_reachable) (metis started_at_first_activation)

text \<open>
  C2. The engine's calls follow the transition table and the sovereign gate: a call that changes an
  epoch's state makes a transition the table allows, and a transition to \<open>ABORTED\<close> or
  \<open>F13_HALTED\<close> is recorded by an event whose actor is a sovereign actor.
\<close>

theorem transitions_are_gated:
  assumes "epoch_step rt ep ep'" and "ep_state ep' \<noteq> ep_state ep"
  shows "canTransition (ep_state ep) (ep_state ep')
    \<and> (isF13OnlyTransition (ep_state ep) (ep_state ep') \<longrightarrow>
        (\<exists>actor. actor_id (last (events ep')) = Some actor \<and> assertF13Actor actor = Inr ()))"
  using assms(1)
proof (cases rule: epoch_step_forms)
  case (quiet now eid a cps)
  with assms(2) show ?thesis by (simp add: appendEvent_def Let_def)
next
  case (move now eid a s)
  then show ?thesis
    by (cases "arg_type a") (auto simp: appendEventAndTransition_def Let_def isF13OnlyTransition_def
      new_event_def event_input.extend_def)
next
  case (halt now eid reason actor)
  then have "canTransition (ep_state ep) F13_HALTED"
    by (cases "ep_state ep") (simp_all add: canTransition_def)
  with halt show ?thesis
    by (auto simp: f13_halt_def appendEventAndTransition_def and_then_Inr Let_def new_event_def
      event_input.extend_def)
qed

theorem transitions_are_gated_witness:
  "\<exists>e1 e2. epoch_step plain_runtime e1 e2 \<and> ep_state e2 = F13_HALTED
    \<and> canTransition (ep_state e1) (ep_state e2)
    \<and> (isF13OnlyTransition (ep_state e1) (ep_state e2) \<longrightarrow>
        (\<exists>actor. actor_id (last (events e2)) = Some actor \<and> assertF13Actor actor = Inr ()))"
proof (rule sample_reachable)
  fix e1 e2 assume s: "epoch_step plain_runtime e1 e2" "ep_state e1 = ACTIVE" "ep_state e2 = F13_HALTED"
  then show ?thesis using transitions_are_gated [OF s(1)] by (intro exI [of _ e1] exI [of _ e2]) simp
qed

text \<open>
  C5. Terminal epochs are final: once an epoch is completed, failed, aborted or halted, no sequence
  of calls changes its state, its completion time or its halt flag and reason again, and the events
  recorded before stay a prefix of its log.
\<close>

theorem terminal_is_final:
  assumes "(epoch_step rt)\<^sup>*\<^sup>* ep ep'" and "isTerminalState (ep_state ep)"
  shows "ep_state ep' = ep_state ep \<and> completed_at ep' = completed_at ep
    \<and> f13_halt_active ep' = f13_halt_active ep \<and> f13_halt_reason ep' = f13_halt_reason ep
    \<and> (\<exists>es. events ep' = events ep @ es)"
  using assms(1)
proof (induction rule: rtranclp_induct)
  case (step y z)
  then have "isTerminalState (ep_state y)" using assms(2) by simp
  with step(2) obtain now eid a cps where "z = appendEvent rt now eid (y\<lparr>checkpoints := cps\<rparr>) a"
    by (cases rule: epoch_step_forms) (auto dest: canTransition_nonterminal)
  with step(3) show ?case by (auto simp: appendEvent_def Let_def)
qed simp

theorem terminal_is_final_witness:
  "\<exists>ep. epoch_reachable plain_runtime ep \<and> ep_state ep = F13_HALTED
    \<and> (\<forall>ep'. (epoch_step plain_runtime)\<^sup>*\<^sup>* ep ep' \<longrightarrow> ep_state ep' = F13_HALTED)"
proof (rule sample_reachable)
  fix e2 assume "epoch_reachable plain_runtime e2" and s: "ep_state e2 = F13_HALTED"
  then show ?thesis using terminal_is_final [of plain_runtime e2]
    by (intro exI [of _ e2]) (simp add: s)
qed



lemma derived_CREATED:
  "deriveStateFromEvents es = CREATED \<Longrightarrow> \<forall>e \<in> set es. \<not> activates e"
proof (induction es rule: rev_induct)
  case (snoc e es)
  then show ?case by (cases "ev_type e") (auto simp: activates_def)
qed simp

text \<open>
  \<open>resume\<close> is documented as the transition from \<open>SUSPENDED\<close> to \<open>ACTIVE\<close>, but it checks only
  the table's entry for \<open>ACTIVE\<close>: it also activates an epoch that was never started. The event
  it records claims \<open>SUSPENDED\<close> as the previous state, and since the log then holds no
  \<open>EPOCH_STARTED\<close> event, replay of the log loses \<open>started_at\<close>.
\<close>

theorem resume_activates_created:
  assumes "epoch_reachable rt ep" and "ep_state ep = CREATED"
  shows "\<exists>ep'. resume rt now eid ep actor = Inr ep' \<and> ep_state ep' = ACTIVE \<and> started_at ep' = Some now
    \<and> payload_string (last (events ep')) ''previous_state'' = Some ''SUSPENDED''
    \<and> findFirstEventTs (events ep') EPOCH_STARTED = None"
proof -
  note inv = reachable_inv [OF assms(1)]
  have none: "\<forall>e \<in> set (events ep). \<not> activates e"
    by (rule derived_CREATED) (use inv(1) assms(2) in \<open>simp add: epoch_inv_def\<close>)
  have "\<not> f13_halt_active ep" using no_end_when_live(2) [OF inv(1)] assms(2) by simp
  moreover have "started_at ep = None" using inv(2) none by (simp add: started_ok_def find_None_all)
  moreover have "find (\<lambda>e. ev_type e = EPOCH_STARTED) (events ep) = None"
    using none by (simp add: find_None_all activates_def)
  ultimately show ?thesis using assms(2)
    by (simp add: resume_def guard_defs canTransition_def appendEventAndTransition_def Let_def
      findFirstEventTs_def find_snoc payload_string_def)
qed

theorem resume_activates_created_witness:
  "\<exists>ep ep'. epoch_reachable plain_runtime ep \<and> ep_state ep = CREATED
    \<and> resume plain_runtime ''t1'' ''ev-1'' ep ''planner'' = Inr ep' \<and> ep_state ep' = ACTIVE
    \<and> started_at ep' = Some ''t1'' \<and> findFirstEventTs (events ep') EPOCH_STARTED = None"
proof (rule sample_run)
  fix ep assume "create plain_runtime ''t0'' ''epoch-1'' ''ev-0'' sample_plan ''planner'' None None = Inr ep"
    and s: "ep_state ep = CREATED"
  then have r: "epoch_reachable plain_runtime ep" unfolding epoch_reachable_def by blast
  from resume_activates_created [OF r s, of "''t1''" "''ev-1''" "''planner''"] r s show ?thesis by blast
qed

end
