(* ===== verification/Dag.thy ===== *)
theory Dag
  imports Prelude
begin

text \<open>
  The dependency graph of a composition: \<^verbatim>\<open>src/src/domain/composition/DagResolver.ts\<close> with the
  step type of \<^verbatim>\<open>src/src/domain/composition/CompositionTypes.ts\<close>.

  \<open>resolveDag\<close> builds the node map, looks for a cycle with a coloured depth-first search, sorts
  with Kahn's algorithm and layers the order into groups that may run in parallel. A reference
  to a missing node (\<^verbatim>\<open>nodes.get(id)!\<close> on an unknown key) throws a \<^verbatim>\<open>TypeError\<close>,
  here the value \<open>TypeError\<close> of the sum; the lemmas show it is unreachable.
\<close>

section \<open>Steps and nodes\<close>

record composition_step =
  step_id :: string
  tool :: string
  depends_on :: "string list option"
  when_cond :: "string option"
  max_retries :: "int option"
  on_fail :: "string option"
  timeout_ms :: "int option"
  organ :: "string option"

record dag_node =
  node_id :: string
  node_step :: composition_step
  dependencies :: "string list"
  dependents :: "string list"

type_synonym dag_nodes = "(string, dag_node) jsmap"

datatype dag_error = TypeError

record dag_analysis =
  nodes :: dag_nodes
  executionOrder :: "string list"
  parallelGroups :: "string list list"
  hasCycles :: bool
  cyclePath :: "string list option"

text \<open>The node map, before and after the reverse edges are added.\<close>

definition make_node :: "composition_step \<Rightarrow> dag_node" where
  "make_node s = \<lparr>node_id = step_id s, node_step = s,
     dependencies = (case depends_on s of None \<Rightarrow> [] | Some ds \<Rightarrow> ds), dependents = []\<rparr>"

definition build_nodes :: "composition_step list \<Rightarrow> dag_nodes" where
  "build_nodes steps = fold (\<lambda>s m. m_set (step_id s) (make_node s) m) steps []"

definition add_dependent :: "string \<Rightarrow> string \<Rightarrow> dag_nodes \<Rightarrow> dag_nodes" where
  "add_dependent nid dep ns = (case m_get ns dep of
     None \<Rightarrow> ns
   | Some depNode \<Rightarrow> m_set dep (depNode\<lparr>dependents := dependents depNode @ [nid]\<rparr>) ns)"

definition link_nodes :: "dag_nodes \<Rightarrow> dag_nodes" where
  "link_nodes ns = fold (\<lambda>(nid, node) m. fold (add_dependent nid) (dependencies node) m) ns ns"

section \<open>Cycle detection\<close>

datatype color = WHITE | GRAY | BLACK

definition color_of :: "(string, color) jsmap \<Rightarrow> string \<Rightarrow> color" where
  "color_of c nid = (case m_get c nid of None \<Rightarrow> WHITE | Some x \<Rightarrow> x)"

text \<open>
  The scan of a node's dependencies: it stops at the first internal one that is unvisited or
  on the current path.
\<close>

datatype scan = Clear | Unvisited string | BackEdge string

fun scan_deps :: "dag_nodes \<Rightarrow> (string, color) jsmap \<Rightarrow> string list \<Rightarrow> scan" where
  "scan_deps ns c [] = Clear"
| "scan_deps ns c (dep # deps) =
     (if \<not> m_has ns dep then scan_deps ns c deps
      else case color_of c dep of
        WHITE \<Rightarrow> Unvisited dep
      | GRAY \<Rightarrow> BackEdge dep
      | BLACK \<Rightarrow> scan_deps ns c deps)"

text \<open>
  The path that is reported. \<open>fuel\<close> bounds the walk along the parents; \<open>None\<close> is a walk that
  does not end.
\<close>

fun cycle_path :: "nat \<Rightarrow> (string, string) jsmap \<Rightarrow> string \<Rightarrow> string \<Rightarrow> string list \<Rightarrow> string list option" where
  "cycle_path fuel parent dep current path =
     (if current = dep then Some path
      else case fuel of
        0 \<Rightarrow> None
      | Suc n \<Rightarrow>
          let next_up = (case m_get parent current of None \<Rightarrow> dep | Some p \<Rightarrow> p)
          in cycle_path n parent dep next_up (next_up # path))"

declare cycle_path.simps [simp del]

text \<open>The stack has its top at the head.\<close>

record dfs =
  colors :: "(string, color) jsmap"
  parent :: "(string, string) jsmap"
  stack :: "string list"

datatype dfs_result = Finished dfs | CycleFound "string list option" | DfsTypeError

fun color_weight :: "color \<Rightarrow> nat" where
  "color_weight WHITE = 3"
| "color_weight GRAY = 1"
| "color_weight BLACK = 0"

definition dfs_measure :: "dag_nodes \<Rightarrow> dfs \<Rightarrow> nat" where
  "dfs_measure ns s = (\<Sum>nid \<in> set (m_keys ns). color_weight (color_of (colors s) nid))
     + length (stack s)"

function dfs_loop :: "dag_nodes \<Rightarrow> dfs \<Rightarrow> dfs_result" where
  "dfs_loop ns s = (case stack s of
     [] \<Rightarrow> Finished s
   | nid # rest \<Rightarrow>
      (case color_of (colors s) nid of
        WHITE \<Rightarrow>
          (case m_get ns nid of
            None \<Rightarrow> DfsTypeError
          | Some node \<Rightarrow>
              let c = m_set nid GRAY (colors s) in
              (case scan_deps ns c (dependencies node) of
                Unvisited dep \<Rightarrow> dfs_loop ns (s\<lparr>colors := c, parent := m_set dep nid (parent s), stack := dep # nid # rest\<rparr>)
              | BackEdge dep \<Rightarrow> CycleFound (cycle_path (length ns) (parent s) dep nid [dep, nid])
              | Clear \<Rightarrow> dfs_loop ns (s\<lparr>colors := m_set nid BLACK c, stack := rest\<rparr>)))
      | GRAY \<Rightarrow> dfs_loop ns (s\<lparr>colors := m_set nid BLACK (colors s), stack := rest\<rparr>)
      | BLACK \<Rightarrow> dfs_loop ns (s\<lparr>stack := rest\<rparr>)))"
  by pat_completeness auto

lemma color_of_update [simp]:
  "color_of (m_set k x c) nid = (if nid = k then x else color_of c nid)"
  by (simp add: color_of_def update_conv')

lemma weight_update:
  assumes "k \<in> set (m_keys ns)"
  shows "(\<Sum>nid \<in> set (m_keys ns). color_weight (color_of (m_set k x c) nid)) + color_weight (color_of c k)
       = (\<Sum>nid \<in> set (m_keys ns). color_weight (color_of c nid)) + color_weight x"
proof -
  let ?A = "set (m_keys ns)"
  have "(\<Sum>nid \<in> ?A - {k}. color_weight (color_of (m_set k x c) nid))
      = (\<Sum>nid \<in> ?A - {k}. color_weight (color_of c nid))"
    by (rule sum.cong) auto
  then show ?thesis
    using sum.remove [of ?A k "\<lambda>nid. color_weight (color_of c nid)"]
      sum.remove [of ?A k "\<lambda>nid. color_weight (color_of (m_set k x c) nid)"] assms by simp
qed

lemma weight_blacken:
  "(\<Sum>nid \<in> A. color_weight (color_of (m_set k BLACK c) nid)) \<le> (\<Sum>nid \<in> A. color_weight (color_of c nid))"
  by (rule sum_mono) simp

lemma has_key: "m_get ns nid = Some node \<Longrightarrow> nid \<in> set (m_keys ns)"
  by (metis m_has_def m_has_iff option.distinct(1))

termination dfs_loop
proof (relation "measure (\<lambda>(ns, s). dfs_measure ns s)", goal_cases)
  case (2 ns s nid rest node c)
  show ?case
    using 2 weight_update [OF has_key [OF 2(3)], of GRAY "colors s"]
      weight_update [OF has_key [OF 2(3)], of BLACK c]
    by (simp add: dfs_measure_def)
next
  case (3 ns s nid rest node c dep)
  then show ?case
    using weight_update [OF has_key [OF 3(3)], of GRAY "colors s"] by (simp add: dfs_measure_def)
next
  case (4 ns s nid rest)
  then show ?case
    using weight_blacken [of nid "colors s" "set (m_keys ns)"] by (simp add: dfs_measure_def)
qed (simp_all add: dfs_measure_def)

declare dfs_loop.simps [simp del]

fun detect_from :: "dag_nodes \<Rightarrow> string list \<Rightarrow> dfs \<Rightarrow> dfs_result" where
  "detect_from ns [] s = Finished s"
| "detect_from ns (startId # ids) s =
     (if color_of (colors s) startId \<noteq> WHITE then detect_from ns ids s
      else case dfs_loop ns (s\<lparr>stack := [startId]\<rparr>) of
        Finished s' \<Rightarrow> detect_from ns ids s'
      | r \<Rightarrow> r)"

definition detectCycles :: "dag_nodes \<Rightarrow> dfs_result" where
  "detectCycles ns = detect_from ns (m_keys ns)
     \<lparr>colors = fold (\<lambda>nid c. m_set nid WHITE c) (m_keys ns) [], parent = [], stack = []\<rparr>"

section \<open>Kahn's topological sort\<close>

definition internal_deps :: "dag_nodes \<Rightarrow> dag_node \<Rightarrow> string list" where
  "internal_deps ns node = filter (m_has ns) (dependencies node)"

definition relax :: "string \<Rightarrow> (string, int) jsmap \<times> string list \<Rightarrow> (string, int) jsmap \<times> string list" where
  "relax child dq = (case dq of (inDegree, queue) \<Rightarrow>
     let deg = (case m_get inDegree child of None \<Rightarrow> 1 | Some d \<Rightarrow> d) - 1
     in (m_set child deg inDegree, if deg = 0 then queue @ [child] else queue))"

text \<open>
  Every node enters the queue at most once, so \<open>length ns\<close> rounds empty it; \<open>None\<close> is a queue
  that is not empty after \<open>fuel\<close> rounds.
\<close>

fun kahn_loop :: "nat \<Rightarrow> dag_nodes \<Rightarrow> (string, int) jsmap \<times> string list \<Rightarrow> string list
    \<Rightarrow> (dag_error + string list) option" where
  "kahn_loop fuel ns dq result = (case snd dq of
     [] \<Rightarrow> Some (Inr result)
   | nid # queue \<Rightarrow>
      (case fuel of
        0 \<Rightarrow> None
      | Suc n \<Rightarrow>
         (case m_get ns nid of
           None \<Rightarrow> Some (Inl TypeError)
         | Some node \<Rightarrow> kahn_loop n ns (fold relax (dependents node) (fst dq, queue)) (result @ [nid]))))"

declare kahn_loop.simps [simp del]

definition initial_degrees :: "dag_nodes \<Rightarrow> (string, int) jsmap \<times> string list" where
  "initial_degrees ns = fold (\<lambda>(nid, node) (d, q).
     let n = length (internal_deps ns node)
     in (m_set nid (int n) d, if n = 0 then q @ [nid] else q)) ns ([], [])"

definition topologicalSort :: "dag_nodes \<Rightarrow> (dag_error + string list) option" where
  "topologicalSort ns = kahn_loop (length ns) ns (initial_degrees ns) []"

section \<open>Parallel groups\<close>

definition deps_satisfied :: "dag_nodes \<Rightarrow> string list \<Rightarrow> dag_node \<Rightarrow> bool" where
  "deps_satisfied ns completed node \<longleftrightarrow>
     list_all (\<lambda>dep. dep \<in> set completed \<or> \<not> m_has ns dep) (dependencies node)"

definition ready :: "dag_nodes \<Rightarrow> string list \<Rightarrow> string \<Rightarrow> bool" where
  "ready ns completed nid = (case m_get ns nid of None \<Rightarrow> False | Some node \<Rightarrow> deps_satisfied ns completed node)"

function group_loop :: "dag_nodes \<Rightarrow> string list \<Rightarrow> string list \<Rightarrow> dag_error + string list list" where
  "group_loop ns completed remaining =
     (if remaining = [] then Inr []
      else if list_ex (\<lambda>nid. \<not> m_has ns nid) remaining then Inl TypeError
      else let batch = filter (ready ns completed) remaining in
        if batch = [] then Inr []
        else case group_loop ns (completed @ batch) (filter (\<lambda>nid. nid \<notin> set (completed @ batch)) remaining) of
               Inl e \<Rightarrow> Inl e
             | Inr groups \<Rightarrow> Inr (batch # groups))"
  by pat_completeness auto

termination group_loop
proof (relation "measure (\<lambda>(ns, completed, remaining). length remaining)", goal_cases)
  case (2 ns completed remaining batch)
  then obtain x where "x \<in> set remaining" "ready ns completed x"
    by (metis filter_empty_conv)
  with 2(3) have "length (filter (\<lambda>i. i \<notin> set (completed @ batch)) remaining) < length remaining"
    by (intro length_filter_less) auto
  then show ?case by simp
qed simp

declare group_loop.simps [simp del]

definition computeParallelGroups :: "dag_nodes \<Rightarrow> string list \<Rightarrow> dag_error + string list list" where
  "computeParallelGroups ns order = group_loop ns [] order"

section \<open>The resolver\<close>

text \<open>\<open>None\<close> is a call that does not return.\<close>

definition resolveDag :: "composition_step list \<Rightarrow> (dag_error + dag_analysis) option" where
  "resolveDag steps =
     (let ns = link_nodes (build_nodes steps) in
      case detectCycles ns of
        DfsTypeError \<Rightarrow> Some (Inl TypeError)
      | CycleFound path \<Rightarrow>
          (case path of None \<Rightarrow> None
           | Some p \<Rightarrow> Some (Inr \<lparr>nodes = ns, executionOrder = [], parallelGroups = [],
                                   hasCycles = True, cyclePath = Some p\<rparr>))
      | Finished s \<Rightarrow>
          (case topologicalSort ns of
            None \<Rightarrow> None
          | Some (Inl e) \<Rightarrow> Some (Inl e)
          | Some (Inr order) \<Rightarrow>
              Some (and_then (computeParallelGroups ns order) (\<lambda>groups.
                Inr \<lparr>nodes = ns, executionOrder = order, parallelGroups = groups,
                      hasCycles = False, cyclePath = None\<rparr>))))"

definition getNextBatch :: "dag_nodes \<Rightarrow> string list \<Rightarrow> string list \<Rightarrow> string list" where
  "getNextBatch ns completed running =
     map fst (filter (\<lambda>(nid, node). nid \<notin> set completed \<and> nid \<notin> set running
        \<and> deps_satisfied ns completed node) ns)"

section \<open>The dependency relation\<close>

definition dep_edge :: "dag_nodes \<Rightarrow> string \<Rightarrow> string \<Rightarrow> bool" where
  "dep_edge ns a b \<longleftrightarrow> (\<exists>node. m_get ns a = Some node \<and> b \<in> set (dependencies node)) \<and> m_has ns b"

text \<open>A closed walk along the dependencies, as the list of its nodes, first and last equal.\<close>

definition closed_walk :: "dag_nodes \<Rightarrow> string list \<Rightarrow> bool" where
  "closed_walk ns xs \<longleftrightarrow> successively (dep_edge ns) xs \<and> length xs \<ge> 2 \<and> hd xs = last xs"

lemma walk_reaches:
  assumes "successively R xs" and "xs \<noteq> []"
  shows "R\<^sup>*\<^sup>* (hd xs) (last xs)"
  using assms
proof (induction xs rule: induct_list012)
  case (3 x y zs)
  then show ?case by (auto intro: converse_rtranclp_into_rtranclp)
qed simp_all

lemma closed_walk_cycle:
  assumes "closed_walk ns xs"
  shows "(dep_edge ns)\<^sup>+\<^sup>+ (hd xs) (hd xs)"
proof -
  from assms obtain x y zs where xs: "xs = x # y # zs"
    by (cases xs rule: list.exhaust [case_product list.exhaust]) (auto simp: closed_walk_def Suc_le_length_iff numeral_2_eq_2)
  then have "dep_edge ns x y" "(dep_edge ns)\<^sup>*\<^sup>* y x"
    using assms walk_reaches [of "dep_edge ns" "y # zs"] by (auto simp: closed_walk_def)
  then show ?thesis by (simp add: xs rtranclp_into_tranclp2)
qed

section \<open>Cycle detection is sound\<close>

definition path_chain :: "dag_nodes \<Rightarrow> (string, string) jsmap \<Rightarrow> string list \<Rightarrow> bool" where
  "path_chain ns par = successively (\<lambda>x y. dep_edge ns y x \<and> m_get par x = Some y)"

definition dfs_ok :: "dag_nodes \<Rightarrow> dfs \<Rightarrow> bool" where
  "dfs_ok ns s \<longleftrightarrow> distinct (stack s) \<and> set (stack s) \<subseteq> set (m_keys ns)
     \<and> path_chain ns (parent s) (stack s)
     \<and> (\<forall>x. color_of (colors s) x = GRAY \<longrightarrow> x \<in> set (stack s))
     \<and> (\<forall>x \<in> set (tl (stack s)). color_of (colors s) x = GRAY)"

lemma path_chain_simps [simp]:
  "path_chain ns par []" "path_chain ns par [x]"
  "path_chain ns par (x # y # zs) \<longleftrightarrow> dep_edge ns y x \<and> m_get par x = Some y \<and> path_chain ns par (y # zs)"
  by (simp_all add: path_chain_def)

lemma path_chain_tl: "path_chain ns par (x # xs) \<Longrightarrow> path_chain ns par xs"
  by (cases xs) simp_all

lemma path_chain_update:
  "path_chain ns par xs \<Longrightarrow> k \<notin> set xs \<Longrightarrow> path_chain ns (m_set k v par) xs"
  by (induction xs rule: induct_list012) (auto simp: store_simps)

lemma scan_deps_result:
  "scan_deps ns c deps = Unvisited d \<Longrightarrow> d \<in> set deps \<and> m_has ns d \<and> color_of c d = WHITE"
  "scan_deps ns c deps = BackEdge d \<Longrightarrow> d \<in> set deps \<and> m_has ns d \<and> color_of c d = GRAY"
  by (induction deps) (auto split: if_splits color.splits)

lemma cycle_path_walk:
  assumes "path_chain ns par (pre @ dep # post)" and "distinct (pre @ dep # post)"
    and "length pre \<le> fuel"
  shows "cycle_path fuel par dep (hd (pre @ [dep])) path = Some (rev (tl (pre @ [dep])) @ path)"
  using assms
proof (induction pre arbitrary: fuel path)
  case Nil
  then show ?case by (simp add: cycle_path.simps)
next
  case (Cons x pre)
  then obtain n where n: "fuel = Suc n" by (cases fuel) simp_all
  have next_up: "m_get par x = Some (hd (pre @ [dep]))"
    using Cons.prems(1) by (cases pre) simp_all
  have "x \<noteq> dep" using Cons.prems(2) by simp
  then have "cycle_path fuel par dep x path
      = cycle_path n par dep (hd (pre @ [dep])) (hd (pre @ [dep]) # path)"
    by (subst cycle_path.simps) (simp add: n next_up Let_def)
  also have "\<dots> = Some (rev (tl (pre @ [dep])) @ hd (pre @ [dep]) # path)"
    using Cons.prems n path_chain_tl by (intro Cons.IH) fastforce+
  finally show ?case by (cases pre) simp_all
qed

lemma path_chain_rev: "path_chain ns par xs \<Longrightarrow> successively (dep_edge ns) (rev xs)"
  unfolding path_chain_def successively_rev by (induction xs rule: induct_list012) simp_all

text \<open>What the search has to deliver for a result: a finished search leaves nothing grey.\<close>

fun dfs_post :: "dag_nodes \<Rightarrow> dfs_result \<Rightarrow> bool" where
  "dfs_post ns (Finished s) \<longleftrightarrow> (\<forall>x. color_of (colors s) x \<noteq> GRAY)"
| "dfs_post ns (CycleFound p) \<longleftrightarrow>
     (\<exists>xs a b. p = Some (xs @ [a, b]) \<and> closed_walk ns (xs @ [b, a]))"
| "dfs_post ns DfsTypeError \<longleftrightarrow> False"

lemma back_edge_cycle:
  assumes ok: "dfs_ok ns s" and st: "stack s = nid # rest" and node: "m_get ns nid = Some node"
    and grey: "scan_deps ns (m_set nid GRAY (colors s)) (dependencies node) = BackEdge dep"
  shows "dfs_post ns (CycleFound (cycle_path (length ns) (parent s) dep nid [dep, nid]))"
proof -
  have d: "dep \<in> set (dependencies node)" "m_has ns dep" "color_of (m_set nid GRAY (colors s)) dep = GRAY"
    using scan_deps_result(2) [OF grey] by auto
  then have "dep \<in> set (stack s)"
    using ok by (auto simp: dfs_ok_def st split: if_splits)
  then obtain pre post where split: "stack s = pre @ dep # post" by (meson split_list)
  then have hd: "nid = hd (pre @ [dep])" using st by (cases pre) simp_all
  have "card (set (stack s)) \<le> length ns"
    using card_mono [of "set (m_keys ns)" "set (stack s)"] ok card_length [of "m_keys ns"]
    by (simp add: dfs_ok_def)
  then have "length (stack s) \<le> length ns" using ok by (simp add: dfs_ok_def distinct_card)
  then have path: "cycle_path (length ns) (parent s) dep nid [dep, nid]
      = Some (rev (tl (pre @ [dep])) @ [dep, nid])"
    unfolding hd using ok by (intro cycle_path_walk) (auto simp: dfs_ok_def split)
  have "path_chain ns (parent s) (pre @ [dep])"
    using ok by (simp add: dfs_ok_def split path_chain_def successively_append_iff)
  then have "successively (dep_edge ns) (rev (pre @ [dep]))" by (rule path_chain_rev)
  moreover have rev: "rev (pre @ [dep]) = rev (tl (pre @ [dep])) @ [nid]"
    unfolding hd by (cases pre) simp_all
  moreover have "dep_edge ns nid dep" using d node by (auto simp: dep_edge_def)
  ultimately have "successively (dep_edge ns) (rev (tl (pre @ [dep])) @ [nid, dep])"
    by (auto simp: successively_append_iff)
  moreover have "hd (rev (tl (pre @ [dep])) @ [nid, dep]) = dep"
    unfolding hd by (cases pre) simp_all
  ultimately have "closed_walk ns (rev (tl (pre @ [dep])) @ [nid, dep])"
    by (simp add: closed_walk_def)
  then show ?thesis unfolding path by auto
qed

lemma dfs_loop_post: "dfs_ok ns s \<Longrightarrow> dfs_post ns (dfs_loop ns s)"
proof (induction ns s rule: dfs_loop.induct)
  case (1 ns s)
  note ok = "1.prems"
  show ?case
  proof (cases "stack s")
    case Nil
    with ok show ?thesis by (simp add: dfs_loop.simps [of ns s] dfs_ok_def)
  next
    case (Cons nid rest)
    note st = Cons
    have "m_has ns nid" using ok Cons unfolding m_has_iff by (simp add: dfs_ok_def)
    then obtain node where node: "m_get ns nid = Some node" by (auto simp: m_has_def)
    note dfs_loop.simps [of ns s, simp]
    have tl_ok: "distinct rest" "nid \<notin> set rest" "set rest \<subseteq> set (m_keys ns)" "path_chain ns (parent s) rest"
      "\<And>x. x \<in> set rest \<Longrightarrow> color_of (colors s) x = GRAY"
      "\<And>x. color_of (colors s) x = GRAY \<Longrightarrow> x = nid \<or> x \<in> set rest"
      using ok st path_chain_tl by (auto simp: dfs_ok_def)
    have pop: "dfs_ok ns (s\<lparr>colors := c, stack := rest\<rparr>)"
      if "\<And>x. x \<noteq> nid \<Longrightarrow> color_of c x = color_of (colors s) x" "color_of c nid \<noteq> GRAY" for c
      using tl_ok that by (auto simp: dfs_ok_def dest: list.set_sel(2) [rotated])
        (metis list.set_sel(2) list.sel(2) tl_Nil)+
    show ?thesis
    proof (cases "color_of (colors s) nid")
      case BLACK
      have "dfs_ok ns (s\<lparr>stack := rest\<rparr>)" using pop [of "colors s"] BLACK by simp
      with 1(4) [OF st BLACK] st BLACK show ?thesis by simp
    next
      case GRAY
      with 1(3) [OF st GRAY] pop st show ?thesis by simp
    next
      case WHITE
      let ?c = "m_set nid GRAY (colors s)"
      show ?thesis
      proof (cases "scan_deps ns ?c (dependencies node)")
        case Clear
        with 1(1) [OF st WHITE node refl Clear] pop st WHITE node show ?thesis by (simp add: Let_def)
      next
        case (BackEdge dep)
        then show ?thesis using back_edge_cycle [OF ok st node BackEdge] st WHITE node
          by (simp add: Let_def)
      next
        case (Unvisited dep)
        have d: "dep \<in> set (dependencies node)" "m_has ns dep" "color_of ?c dep = WHITE"
          using scan_deps_result(1) [OF Unvisited] by auto
        then have new: "dep \<noteq> nid" "dep \<notin> set rest" using tl_ok(5) by (auto split: if_splits)
        have "dfs_ok ns (s\<lparr>colors := ?c, parent := m_set dep nid (parent s), stack := dep # nid # rest\<rparr>)"
          using ok st d node new path_chain_update
          by (auto simp: dfs_ok_def dep_edge_def m_has_iff store_simps)
        with 1(2) [OF st WHITE node refl Unvisited] st WHITE node Unvisited show ?thesis
          by (simp add: Let_def)
      qed
    qed
  qed
qed

lemma detect_from_post:
  assumes "set ids \<subseteq> set (m_keys ns)" and "\<forall>x. color_of (colors s) x \<noteq> GRAY"
  shows "dfs_post ns (detect_from ns ids s)"
  using assms
proof (induction ids arbitrary: s)
  case (Cons i ids)
  show ?case
  proof (cases "color_of (colors s) i = WHITE")
    case True
    have "dfs_ok ns (s\<lparr>stack := [i]\<rparr>)" using Cons.prems by (simp add: dfs_ok_def)
    then have "dfs_post ns (dfs_loop ns (s\<lparr>stack := [i]\<rparr>))" by (rule dfs_loop_post)
    with Cons True show ?thesis by (cases "dfs_loop ns (s\<lparr>stack := [i]\<rparr>)") auto
  next
    case False
    with Cons show ?thesis by simp
  qed
qed simp

lemma color_of_initial: "color_of (fold (\<lambda>i c. m_set i WHITE c) ks c) x = (if x \<in> set ks then WHITE else color_of c x)"
  by (induction ks arbitrary: c) auto

lemma detectCycles_post: "dfs_post ns (detectCycles ns)"
  unfolding detectCycles_def
  by (rule detect_from_post) (simp_all add: color_of_initial, simp add: color_of_def)

section \<open>The node map\<close>

definition deps_of :: "dag_nodes \<Rightarrow> string \<Rightarrow> string list" where
  "deps_of ns i = (case m_get ns i of None \<Rightarrow> [] | Some node \<Rightarrow> filter (m_has ns) (dependencies node))"

definition dependents_of :: "dag_nodes \<Rightarrow> string \<Rightarrow> string list" where
  "dependents_of ns i = (case m_get ns i of None \<Rightarrow> [] | Some node \<Rightarrow> dependents node)"

text \<open>The map is linked: \<open>dependents\<close> is the reverse of the internal dependencies, with multiplicity.\<close>

definition linked :: "dag_nodes \<Rightarrow> bool" where
  "linked ns \<longleftrightarrow> m_wf ns \<and>
     (\<forall>a b. m_has ns b \<longrightarrow> count_list (dependents_of ns b) a = count_list (deps_of ns a) b)"

lemma dep_edge_deps_of: "dep_edge ns a b \<longleftrightarrow> b \<in> set (deps_of ns a)"
  by (cases "m_get ns a") (auto simp: dep_edge_def deps_of_def)

lemma build_nodes_snoc: "build_nodes (steps @ [s]) = m_set (step_id s) (make_node s) (build_nodes steps)"
  by (simp add: build_nodes_def)

lemma build_nodes_facts:
  "m_wf (build_nodes steps)" "set (m_keys (build_nodes steps)) = step_id ` set steps"
  "m_get (build_nodes steps) i = Some node \<Longrightarrow> \<exists>s \<in> set steps. step_id s = i \<and> node = make_node s"
proof (induction steps arbitrary: i node rule: rev_induct)
  case (snoc s steps)
  { case 1 then show ?case using snoc(1) by (simp add: build_nodes_snoc m_wf_update) }
  { case 2 then show ?case using snoc(2) by (auto simp: build_nodes_snoc update_keys) }
  { case 3 then show ?case using snoc(3) by (auto simp: build_nodes_snoc store_simps split: if_splits) }
qed (simp_all add: build_nodes_def m_wf_def)

lemma add_dependent_facts:
  "m_wf ns \<Longrightarrow> m_wf (add_dependent i d ns)"
  "m_keys (add_dependent i d ns) = m_keys ns"
  "m_has (add_dependent i d ns) x = m_has ns x"
  "map_option dependencies (m_get (add_dependent i d ns) x) = map_option dependencies (m_get ns x)"
  "m_has ns d \<Longrightarrow> dependents_of (add_dependent i d ns) b
     = dependents_of ns b @ (if b = d then [i] else [])"
  "\<not> m_has ns d \<Longrightarrow> add_dependent i d ns = ns"
proof -
  show keys: "m_keys (add_dependent i d ns) = m_keys ns"
  proof (cases "m_get ns d")
    case (Some node)
    then have "d \<in> set (m_keys ns)" by (rule has_key)
    with Some show ?thesis by (simp add: add_dependent_def update_keys)
  qed (simp add: add_dependent_def)
  then show "m_wf ns \<Longrightarrow> m_wf (add_dependent i d ns)" by (simp add: m_wf_def)
  show "m_has (add_dependent i d ns) x = m_has ns x" by (simp add: m_has_iff keys)
qed (auto simp: add_dependent_def dependents_of_def m_has_def store_simps split: option.splits)

lemma link_inner_facts:
  assumes "m_wf ns"
  shows "let ns' = fold (add_dependent i) ds ns in m_wf ns' \<and> m_keys ns' = m_keys ns
     \<and> (\<forall>x. map_option dependencies (m_get ns' x) = map_option dependencies (m_get ns x))
     \<and> (\<forall>a b. m_has ns b \<longrightarrow> count_list (dependents_of ns' b) a
          = count_list (dependents_of ns b) a + (if a = i then count_list ds b else 0))"
  using assms
proof (induction ds arbitrary: ns)
  case (Cons d ds)
  note f = add_dependent_facts [where i = i and d = d]
  have "m_has (add_dependent i d ns) b = m_has ns b" for b by (rule f(3))
  with Cons.IH [of "add_dependent i d ns"] Cons.prems f(1,2,4) show ?case
    by (cases "m_has ns d") (auto simp: Let_def f(5,6) count_list_append)
qed simp

lemma link_outer_facts:
  assumes "m_wf ns"
  shows "let ns' = fold (\<lambda>(i, node) m. fold (add_dependent i) (dependencies node) m) es ns
     in m_wf ns' \<and> m_keys ns' = m_keys ns
     \<and> (\<forall>x. map_option dependencies (m_get ns' x) = map_option dependencies (m_get ns x))
     \<and> (\<forall>a b. m_has ns b \<longrightarrow> count_list (dependents_of ns' b) a = count_list (dependents_of ns b) a
          + sum_list (map (\<lambda>(i, node). if a = i then count_list (dependencies node) b else 0) es))"
  using assms
proof (induction es arbitrary: ns)
  case (Cons e es)
  obtain i node where e: "e = (i, node)" by (cases e)
  let ?ns = "fold (add_dependent i) (dependencies node) ns"
  note inner = link_inner_facts [OF Cons.prems, of i "dependencies node", unfolded Let_def]
  have "m_has ?ns b = m_has ns b" for b using inner by (simp add: m_has_iff)
  with Cons.IH [of ?ns] inner show ?case by (auto simp: Let_def e)
qed simp

lemma sum_list_single_key:
  "distinct (map fst es) \<Longrightarrow> sum_list (map (\<lambda>(i, node). if a = i then f node else (0 :: nat)) es)
    = (case map_of es a of None \<Rightarrow> 0 | Some node \<Rightarrow> f node)"
proof (induction es)
  case (Cons e es)
  obtain i node where e: "e = (i, node)" by (cases e)
  have "map_of es i = None" using Cons.prems e by (simp add: map_of_eq_None_iff)
  with Cons e show ?case by (auto split: option.splits)
qed simp

lemma count_list_filter: "P b \<Longrightarrow> count_list (filter P xs) b = count_list xs b"
  by (induction xs) auto

lemma link_nodes_facts:
  assumes "m_wf ns" and "\<And>b node. m_get ns b = Some node \<Longrightarrow> dependents node = []"
  shows "linked (link_nodes ns)" "m_keys (link_nodes ns) = m_keys ns"
    "map_option dependencies (m_get (link_nodes ns) x) = map_option dependencies (m_get ns x)"
proof -
  note f = link_outer_facts [OF assms(1), of ns, folded link_nodes_def, unfolded Let_def]
  show keys: "m_keys (link_nodes ns) = m_keys ns"
    and deps: "map_option dependencies (m_get (link_nodes ns) x) = map_option dependencies (m_get ns x)" for x
    using f by blast+
  have has: "m_has (link_nodes ns) x = m_has ns x" for x by (simp add: m_has_iff keys)
  have none: "dependents_of ns b = []" for b
    using assms(2) by (simp add: dependents_of_def split: option.splits)
  have "count_list (dependents_of (link_nodes ns) b) a = count_list (deps_of (link_nodes ns) a) b"
    if b: "m_has ns b" for a b
  proof -
    have "count_list (dependents_of (link_nodes ns) b) a
        = (case m_get ns a of None \<Rightarrow> 0 | Some node \<Rightarrow> count_list (dependencies node) b)"
      using f b none assms(1) by (simp add: sum_list_single_key m_wf_def)
    also have "\<dots> = count_list (deps_of (link_nodes ns) a) b"
      using deps [of a] b by (cases "m_get ns a"; cases "m_get (link_nodes ns) a")
        (simp_all add: deps_of_def has count_list_filter)
    finally show ?thesis .
  qed
  then show "linked (link_nodes ns)" using f by (simp add: linked_def has)
qed

section \<open>Kahn's algorithm\<close>

definition deg_of :: "(string, int) jsmap \<Rightarrow> string \<Rightarrow> int" where
  "deg_of d a = (case m_get d a of None \<Rightarrow> 1 | Some x \<Rightarrow> x)"

lemma deg_of_update [simp]: "deg_of (m_set k x d) a = (if a = k then x else deg_of d a)"
  by (simp add: deg_of_def store_simps)

lemma fold_relax:
  assumes "\<And>a. a \<in> set ds \<Longrightarrow> int (count_list ds a) \<le> deg_of d a"
  shows "\<exists>new. snd (fold relax ds (d, q)) = q @ new \<and> distinct new
      \<and> set new = {a \<in> set ds. deg_of d a = int (count_list ds a)}
      \<and> (\<forall>a. deg_of (fst (fold relax ds (d, q))) a = deg_of d a - int (count_list ds a))"
  using assms
proof (induction ds arbitrary: d q)
  case (Cons x ds)
  let ?d = "m_set x (deg_of d x - 1) d" and ?q = "if deg_of d x = 1 then q @ [x] else q"
  have step: "relax x (d, q) = (?d, ?q)" by (simp add: relax_def deg_of_def Let_def)
  have "int (count_list ds a) \<le> deg_of ?d a" if "a \<in> set ds" for a
    using Cons.prems [of a] that by auto
  from Cons.IH [OF this, of ?q] obtain new where new: "snd (fold relax ds (?d, ?q)) = ?q @ new"
    "distinct new" "set new = {a \<in> set ds. deg_of ?d a = int (count_list ds a)}"
    "\<And>a. deg_of (fst (fold relax ds (?d, ?q))) a = deg_of ?d a - int (count_list ds a)" by blast
  have one: "x \<notin> set ds" if "deg_of d x = 1"
    using Cons.prems [of x] that by (auto simp: count_list_0_iff)
  define new' where "new' = (if deg_of d x = 1 then x # new else new)"
  have mem: "a \<in> set new \<longleftrightarrow> a \<in> set ds \<and> deg_of ?d a = int (count_list ds a)" for a
    unfolding new(3) by blast
  have "snd (fold relax (x # ds) (d, q)) = q @ new'" using new(1) by (simp add: step new'_def)
  moreover have "distinct new'" using new(2) mem one by (simp add: new'_def)
  moreover have "a \<in> set new' \<longleftrightarrow> a \<in> set (x # ds) \<and> deg_of d a = int (count_list (x # ds) a)" for a
  proof (cases "a = x")
    case True
    show ?thesis
    proof (cases "x \<in> set ds")
      case True
      then have "deg_of d x \<noteq> 1" using one by blast
      then show ?thesis using True \<open>a = x\<close> by (simp add: new'_def mem) arith
    next
      case False
      then show ?thesis using \<open>a = x\<close> by (simp add: new'_def mem count_list_0_iff)
    qed
  next
    case False
    then show ?thesis by (simp add: new'_def mem)
  qed
  then have "set new' = {a \<in> set (x # ds). deg_of d a = int (count_list (x # ds) a)}" by blast
  moreover have "deg_of (fst (fold relax (x # ds) (d, q))) a = deg_of d a - int (count_list (x # ds) a)" for a
    using new(4) by (simp add: step)
  ultimately show ?case by blast
qed (simp add: deg_of_def)

definition ordered :: "dag_nodes \<Rightarrow> string list \<Rightarrow> bool" where
  "ordered ns order \<longleftrightarrow> (\<forall>xs a ys. order = xs @ a # ys \<longrightarrow> set (deps_of ns a) \<subseteq> set xs)"

lemma ordered_snoc: "ordered ns (order @ [a]) \<longleftrightarrow> ordered ns order \<and> set (deps_of ns a) \<subseteq> set order"
proof
  assume l: "ordered ns (order @ [a])"
  have "ordered ns order" unfolding ordered_def
  proof (intro allI impI)
    fix xs b ys assume "order = xs @ b # ys"
    then have "order @ [a] = xs @ b # (ys @ [a])" by simp
    with l show "set (deps_of ns b) \<subseteq> set xs" unfolding ordered_def by blast
  qed
  with l show "ordered ns order \<and> set (deps_of ns a) \<subseteq> set order" by (auto simp: ordered_def)
next
  assume r: "ordered ns order \<and> set (deps_of ns a) \<subseteq> set order"
  show "ordered ns (order @ [a])" unfolding ordered_def
  proof (intro allI impI)
    fix xs b ys assume "order @ [a] = xs @ b # ys"
    with r show "set (deps_of ns b) \<subseteq> set xs"
      by (cases ys rule: rev_cases) (auto simp: ordered_def)
  qed
qed

definition open_deps :: "dag_nodes \<Rightarrow> string list \<Rightarrow> string \<Rightarrow> nat" where
  "open_deps ns result a = length (filter (\<lambda>d. d \<notin> set result) (deps_of ns a))"

definition kahn_inv :: "dag_nodes \<Rightarrow> (string, int) jsmap \<times> string list \<Rightarrow> string list \<Rightarrow> bool" where
  "kahn_inv ns dq result \<longleftrightarrow> distinct (result @ snd dq) \<and> ordered ns result
     \<and> set (result @ snd dq) = {a. m_has ns a \<and> open_deps ns result a = 0}
     \<and> (\<forall>a. m_has ns a \<longrightarrow> deg_of (fst dq) a = int (open_deps ns result a))"

lemma open_deps_snoc:
  assumes "i \<notin> set result"
  shows "open_deps ns result a = open_deps ns (result @ [i]) a + count_list (deps_of ns a) i"
proof -
  have "length (filter (\<lambda>d. d \<notin> R) ds) = length (filter (\<lambda>d. d \<notin> insert i R) ds) + count_list ds i"
    if "i \<notin> R" for R ds
    using that by (induction ds) auto
  with assms show ?thesis by (simp add: open_deps_def)
qed

lemma deps_of_key: "b \<in> set (deps_of ns a) \<Longrightarrow> m_has ns a \<and> m_has ns b"
  by (metis dep_edge_deps_of dep_edge_def has_key m_has_iff)

lemma kahn_step:
  assumes "linked ns" and inv: "kahn_inv ns (d, i # queue) result"
  shows "kahn_inv ns (fold relax (dependents_of ns i) (d, queue)) (result @ [i])"
proof -
  let ?ds = "dependents_of ns i"
  have i: "m_has ns i" "open_deps ns result i = 0" "i \<notin> set result"
    using inv by (auto simp: kahn_inv_def)
  then have cnt: "count_list ?ds a = count_list (deps_of ns a) i" for a
    using assms(1) by (simp add: linked_def)
  note op = open_deps_snoc [OF i(3), of ns]
  have key: "m_has ns a \<and> 0 < count_list ?ds a" if "a \<in> set ?ds" for a
  proof -
    have "0 < count_list ?ds a" using that by (metis count_list_0_iff gr0I)
    then show ?thesis using cnt deps_of_key by (metis count_list_0_iff less_numeral_extra(3))
  qed
  have deg: "m_has ns a \<Longrightarrow> deg_of d a = int (open_deps ns (result @ [i]) a + count_list ?ds a)" for a
  proof -
    assume "m_has ns a"
    then have "deg_of d a = int (open_deps ns result a)" using inv unfolding kahn_inv_def fst_conv by blast
    with op [of a] cnt show ?thesis by simp
  qed
  have pre: "int (count_list ?ds a) \<le> deg_of d a" if "a \<in> set ?ds" for a
    using key [OF that] deg by simp
  obtain new where
    new: "snd (fold relax ?ds (d, queue)) = queue @ new" "distinct new"
      "set new = {a \<in> set ?ds. deg_of d a = int (count_list ?ds a)}"
    and deg': "\<And>a. deg_of (fst (fold relax ?ds (d, queue))) a = deg_of d a - int (count_list ?ds a)"
    using fold_relax [OF pre, of queue] by blast
  have in_new: "a \<in> set new \<longleftrightarrow> m_has ns a \<and> 0 < count_list ?ds a \<and> open_deps ns (result @ [i]) a = 0" for a
  proof
    assume a: "a \<in> set new"
    then have "a \<in> set ?ds" "deg_of d a = int (count_list ?ds a)" unfolding new(3) by simp_all
    with key [of a] deg [of a] show "m_has ns a \<and> 0 < count_list ?ds a \<and> open_deps ns (result @ [i]) a = 0"
      by simp
  next
    assume a: "m_has ns a \<and> 0 < count_list ?ds a \<and> open_deps ns (result @ [i]) a = 0"
    then have "a \<in> set ?ds" by (metis count_list_0_iff less_numeral_extra(3))
    with a deg [of a] show "a \<in> set new" unfolding new(3) by simp
  qed
  have old: "set (result @ i # queue) = {a. m_has ns a \<and> open_deps ns result a = 0}"
    and dist: "distinct (result @ i # queue)" using inv by (simp_all add: kahn_inv_def)
  have old': "a \<in> set (result @ i # queue) \<longleftrightarrow> m_has ns a \<and> count_list ?ds a = 0 \<and> open_deps ns (result @ [i]) a = 0" for a
    using old op [of a] cnt by auto
  have "a \<notin> set new" if "a \<in> set (result @ i # queue)" for a
    using that unfolding in_new [of a] old' [of a] by simp
  then have "set (result @ i # queue) \<inter> set new = {}" by blast
  then have "distinct ((result @ [i]) @ snd (fold relax ?ds (d, queue)))"
    using dist new(1,2) by auto
  moreover have "set ((result @ [i]) @ snd (fold relax ?ds (d, queue)))
      = {a. m_has ns a \<and> open_deps ns (result @ [i]) a = 0}"
  proof -
    have "set ((result @ [i]) @ snd (fold relax ?ds (d, queue))) = set (result @ i # queue) \<union> set new"
      by (auto simp: new(1))
    also have "\<dots> = {a. m_has ns a \<and> open_deps ns (result @ [i]) a = 0}"
      by (rule set_eqI, unfold Un_iff in_new old' mem_Collect_eq) auto
    finally show ?thesis .
  qed
  moreover have "ordered ns (result @ [i])"
    using inv i(2) by (auto simp: kahn_inv_def ordered_snoc open_deps_def filter_empty_conv)
  moreover have "\<forall>a. m_has ns a \<longrightarrow> deg_of (fst (fold relax ?ds (d, queue))) a = int (open_deps ns (result @ [i]) a)"
    using deg deg' by simp
  ultimately show ?thesis by (simp only: kahn_inv_def)
qed

lemma kahn_loop_total:
  assumes "linked ns" and "kahn_inv ns dq result" and "length ns \<le> fuel + length result"
  shows "\<exists>order d. kahn_loop fuel ns dq result = Some (Inr order) \<and> kahn_inv ns (d, []) order"
  using assms(2,3)
proof (induction fuel arbitrary: dq result)
  case 0
  have "length (result @ snd dq) \<le> length ns"
  proof -
    have "length (result @ snd dq) = card (set (result @ snd dq))"
      using 0(1) by (metis distinct_card kahn_inv_def)
    also have "\<dots> \<le> card (set (m_keys ns))"
    proof (rule card_mono)
      have "set (result @ snd dq) = {a. m_has ns a \<and> open_deps ns result a = 0}"
        using 0(1) unfolding kahn_inv_def by blast
      then show "set (result @ snd dq) \<subseteq> set (m_keys ns)" using m_has_iff by fastforce
    qed simp
    also have "\<dots> \<le> length ns" using card_length [of "m_keys ns"] by simp
    finally show ?thesis .
  qed
  with 0(2) have "length (result @ snd dq) \<le> length result" by linarith
  then have "snd dq = []" by simp
  with 0(1) show ?case by (cases dq) (auto simp: kahn_loop.simps)
next
  case (Suc n)
  show ?case
  proof (cases "snd dq")
    case Nil
    with Suc(2) show ?thesis by (cases dq) (auto simp: kahn_loop.simps)
  next
    case (Cons i queue)
    then have dq: "dq = (fst dq, i # queue)" by (cases dq) simp
    then have "m_has ns i" using Suc(2) Cons by (auto simp: kahn_inv_def)
    then obtain node where node: "m_get ns i = Some node" by (auto simp: m_has_def)
    have "kahn_inv ns (fold relax (dependents_of ns i) (fst dq, queue)) (result @ [i])"
      using kahn_step [OF assms(1)] Suc(2) dq by metis
    then have "kahn_inv ns (fold relax (dependents node) (fst dq, queue)) (result @ [i])"
      by (simp add: dependents_of_def node)
    from Suc.IH [OF this] Suc(3) show ?thesis
      by (simp add: kahn_loop.simps [of "Suc n"] Cons node)
  qed
qed

lemma initial_fold:
  assumes "distinct (map fst es)"
  shows "let dq = fold (\<lambda>(i, node) (d, q).
       let n = length (internal_deps ns node)
       in (m_set i (int n) d, if n = 0 then q @ [i] else q)) es (d0, q0)
     in snd dq = q0 @ map fst (filter (\<lambda>(i, node). internal_deps ns node = []) es)
      \<and> (\<forall>a. deg_of (fst dq) a = (case map_of es a of None \<Rightarrow> deg_of d0 a
            | Some node \<Rightarrow> int (length (internal_deps ns node))))"
  using assms
proof (induction es arbitrary: d0 q0)
  case (Cons e es)
  obtain i node where e: "e = (i, node)" by (cases e)
  have "map_of es i = None" using Cons.prems e by (simp add: map_of_eq_None_iff)
  with Cons.IH [of "m_set i (int (length (internal_deps ns node))) d0"
      "if internal_deps ns node = [] then q0 @ [i] else q0"] Cons.prems
  show ?case by (simp add: e Let_def split: option.split)
qed simp

lemma kahn_inv_initial:
  assumes "m_wf ns"
  shows "kahn_inv ns (initial_degrees ns) []"
proof -
  have d: "distinct (map fst ns)" using assms by (simp add: m_wf_def)
  have f1: "snd (initial_degrees ns) = map fst (filter (\<lambda>(i, node). internal_deps ns node = []) ns)"
    using initial_fold [OF d, of ns "[]" "[]"] by (simp only: initial_degrees_def Let_def append_Nil)
  have f2: "deg_of (fst (initial_degrees ns)) a = int (length (internal_deps ns node))"
    if "m_get ns a = Some node" for a node
    using initial_fold [OF d, of ns "[]" "[]"] that
    unfolding initial_degrees_def Let_def by simp
  have int: "m_get ns a = Some node \<Longrightarrow> internal_deps ns node = deps_of ns a" for a node
    by (simp add: internal_deps_def deps_of_def)
  have mem: "(a, node) \<in> set ns \<Longrightarrow> m_get ns a = Some node" for a node
    using m_get_iff [OF assms] by blast
  have "deg_of (fst (initial_degrees ns)) a = int (open_deps ns [] a)" if "m_has ns a" for a
  proof -
    obtain node where node: "m_get ns a = Some node" using \<open>m_has ns a\<close> by (cases "m_get ns a") (auto simp: m_has_def)
    show ?thesis unfolding f2 [OF node] int [OF node] by (simp add: open_deps_def)
  qed
  moreover have "set (snd (initial_degrees ns)) = {a. m_has ns a \<and> open_deps ns [] a = 0}"
  proof -
    have "a \<in> set (snd (initial_degrees ns)) \<longleftrightarrow> m_has ns a \<and> deps_of ns a = []" for a
    proof
      assume "a \<in> set (snd (initial_degrees ns))"
      then obtain node where "(a, node) \<in> set ns" "internal_deps ns node = []" by (auto simp: f1)
      then show "m_has ns a \<and> deps_of ns a = []" using int [OF mem] mem by (simp add: m_has_def)
    next
      assume "m_has ns a \<and> deps_of ns a = []"
      then obtain node where "m_get ns a = Some node" "internal_deps ns node = []"
        using int by (auto simp: m_has_def)
      then show "a \<in> set (snd (initial_degrees ns))"
        unfolding f1 set_map set_filter using m_get_in by force
    qed
    then show ?thesis by (auto simp: open_deps_def)
  qed
  moreover have "distinct (snd (initial_degrees ns))"
    unfolding f1 by (rule filter_keeps_distinct_keys [OF d])
  ultimately show ?thesis by (simp add: kahn_inv_def ordered_def)
qed

lemma topologicalSort_total:
  assumes "linked ns"
  shows "\<exists>order d. topologicalSort ns = Some (Inr order) \<and> kahn_inv ns (d, []) order"
  unfolding topologicalSort_def using assms
  by (intro kahn_loop_total kahn_inv_initial) (simp_all add: linked_def)

section \<open>What the sorted order contains\<close>

definition has_cycle_below :: "('a \<Rightarrow> 'a \<Rightarrow> bool) \<Rightarrow> 'a \<Rightarrow> bool" where
  "has_cycle_below R a \<longleftrightarrow> (\<exists>b. R\<^sup>*\<^sup>* a b \<and> R\<^sup>+\<^sup>+ b b)"

definition position :: "string list \<Rightarrow> string \<Rightarrow> nat" where
  "position order a = length (takeWhile (\<lambda>z. z \<noteq> a) order)"

lemma position_split: "a \<notin> set xs \<Longrightarrow> position (xs @ a # ys) a = length xs"
proof -
  assume "a \<notin> set xs"
  then have "takeWhile (\<lambda>z. z \<noteq> a) (xs @ a # ys) = xs @ takeWhile (\<lambda>z. z \<noteq> a) (a # ys)"
    by (intro takeWhile_append2) auto
  then show ?thesis by (simp add: position_def)
qed

lemma position_less:
  assumes "order = xs @ a # ys" and "a \<notin> set xs" and "b \<in> set xs"
  shows "position order b < position order a"
proof -
  from split_list_first [OF assms(3)] obtain us vs where xs: "xs = us @ b # vs" "b \<notin> set us" by blast
  then have "position order b = length us" using position_split [OF xs(2)] assms(1) by simp
  moreover have "position order a = length xs" using position_split [OF assms(2)] assms(1) by simp
  ultimately show ?thesis using xs(1) by simp
qed

lemma ordered_edge:
  assumes "ordered ns order" and "distinct order" and "a \<in> set order" and "dep_edge ns a b"
  shows "b \<in> set order \<and> position order b < position order a"
proof -
  obtain xs ys where o: "order = xs @ a # ys" using split_list [OF assms(3)] by blast
  with assms have "b \<in> set xs" by (auto simp: ordered_def dep_edge_deps_of)
  with o assms(2) position_less [OF o] show ?thesis by simp
qed

lemma ordered_path:
  assumes "ordered ns order" and "distinct order" and "a \<in> set order"
  shows "(dep_edge ns)\<^sup>*\<^sup>* a b \<Longrightarrow> b \<in> set order"
    and "(dep_edge ns)\<^sup>+\<^sup>+ a b \<Longrightarrow> position order b < position order a \<and> b \<in> set order"
proof -
  show 1: "b \<in> set order" if "(dep_edge ns)\<^sup>*\<^sup>* a b" for b
    using that by (induction rule: rtranclp_induct) (use assms ordered_edge in blast)+
  show "(dep_edge ns)\<^sup>+\<^sup>+ a b \<Longrightarrow> position order b < position order a \<and> b \<in> set order"
    by (induction rule: tranclp_induct) (use assms ordered_edge less_trans in blast)+
qed

lemma finite_dep_edges: "finite {(b, a). dep_edge ns a b}"
proof (rule finite_subset)
  show "{(b, a). dep_edge ns a b} \<subseteq> set (m_keys ns) \<times> set (m_keys ns)"
    using deps_of_key m_has_iff unfolding dep_edge_deps_of by fast
qed simp

lemma order_complete:
  assumes "set order = {a. m_has ns a \<and> open_deps ns order a = 0}"
    and "m_has ns a" and "\<not> has_cycle_below (dep_edge ns) a"
  shows "a \<in> set order"
proof -
  let ?R = "{(y, x). dep_edge ns x y \<and> (dep_edge ns)\<^sup>*\<^sup>* a x}"
  have "finite ?R" by (rule finite_subset [OF _ finite_dep_edges]) auto
  moreover have "acyclic ?R"
  proof (rule acyclicI, rule allI, rule notI)
    fix x assume "(x, x) \<in> ?R\<^sup>+"
    moreover have "(y, x) \<in> ?R\<^sup>+ \<Longrightarrow> (dep_edge ns)\<^sup>+\<^sup>+ x y \<and> (dep_edge ns)\<^sup>*\<^sup>* a x" for x y
    proof (induction rule: trancl_induct)
      case (step z w)
      then have "dep_edge ns w z" "(dep_edge ns)\<^sup>*\<^sup>* a w" by simp_all
      with step.IH show ?case by (meson tranclp_into_tranclp2)
    qed auto
    ultimately show False using assms(3) unfolding has_cycle_below_def by blast
  qed
  ultimately have wf: "wf ?R" by (rule finite_acyclic_wf)
  have "(dep_edge ns)\<^sup>*\<^sup>* a x \<Longrightarrow> m_has ns x \<Longrightarrow> x \<in> set order" for x
  proof (induction x rule: wf_induct_rule [OF wf])
    case (1 x)
    have "y \<in> set order" if "y \<in> set (deps_of ns x)" for y
    proof -
      have e: "dep_edge ns x y" using that by (simp add: dep_edge_deps_of)
      then have "m_has ns y" by (simp add: dep_edge_def)
      moreover have "(dep_edge ns)\<^sup>*\<^sup>* a y" using 1(2) e by (rule rtranclp.rtrancl_into_rtrancl)
      moreover have "(y, x) \<in> ?R" using e 1(2) by simp
      ultimately show ?thesis using 1(1) by blast
    qed
    then have "open_deps ns order x = 0" by (simp add: open_deps_def filter_empty_conv)
    with 1(3) assms(1) show ?case by simp
  qed
  with assms(2) show ?thesis by simp
qed

lemma order_exact:
  assumes "kahn_inv ns (d, []) order"
  shows "set order = {a. m_has ns a \<and> \<not> has_cycle_below (dep_edge ns) a}"
proof -
  have inv: "distinct order" "ordered ns order" "set order = {a. m_has ns a \<and> open_deps ns order a = 0}"
    using assms unfolding kahn_inv_def by simp_all
  have "\<not> has_cycle_below (dep_edge ns) a" if "a \<in> set order" for a
    using ordered_path [OF inv(2,1)] that unfolding has_cycle_below_def by blast
  with inv(3) order_complete [OF inv(3)] show ?thesis by blast
qed

section \<open>The parallel groups\<close>

text \<open>
  Groups that may run one after another, each in parallel: every dependency of a member lies
  in an earlier group (or in the set \<open>done\<close> of nodes already completed).
\<close>

fun layered :: "(string \<Rightarrow> string list) \<Rightarrow> string set \<Rightarrow> string list list \<Rightarrow> bool" where
  "layered deps finished [] \<longleftrightarrow> True"
| "layered deps finished (g # gs) \<longleftrightarrow>
     g \<noteq> [] \<and> (\<forall>a \<in> set g. set (deps a) \<subseteq> finished) \<and> layered deps (finished \<union> set g) gs"

lemma ready_iff: "ready ns C a \<longleftrightarrow> m_has ns a \<and> set (deps_of ns a) \<subseteq> set C"
  by (cases "m_get ns a") (auto simp: ready_def deps_satisfied_def m_has_def deps_of_def list_all_iff)

lemma first_remaining_ready:
  assumes "ordered ns order" and "\<And>a. a \<in> set order \<Longrightarrow> m_has ns a"
    and "filter (\<lambda>i. i \<notin> set C) order = a # rest"
  shows "ready ns C a"
proof -
  from assms(3) obtain xs ys where o: "order = xs @ a # ys" "\<forall>x \<in> set xs. x \<in> set C"
    by (auto simp: filter_eq_Cons_iff)
  then have "set (deps_of ns a) \<subseteq> set xs" using assms(1) by (auto simp: ordered_def)
  with o assms(2) show ?thesis by (auto simp: ready_iff)
qed

lemma group_loop_layers:
  assumes "ordered ns order" and "\<And>a. a \<in> set order \<Longrightarrow> m_has ns a"
    and "remaining = filter (\<lambda>i. i \<notin> set C) order"
  shows "\<exists>gs. group_loop ns C remaining = Inr gs \<and> mset (concat gs) = mset remaining
    \<and> layered (deps_of ns) (set C) gs"
  using assms(3)
proof (induction "length remaining" arbitrary: C remaining rule: less_induct)
  case less
  show ?case
  proof (cases remaining)
    case Nil
    then show ?thesis by (simp add: group_loop.simps)
  next
    case (Cons a rest)
    let ?batch = "filter (ready ns C) remaining"
    let ?rest = "filter (\<lambda>i. i \<notin> set (C @ ?batch)) remaining"
    have has: "m_has ns i" if "i \<in> set remaining" for i using that assms(2) less.prems by simp
    then have no_err: "\<not> list_ex (\<lambda>i. \<not> m_has ns i) remaining" by (simp add: list_ex_iff)
    have "ready ns C a" using first_remaining_ready [OF assms(1,2)] less.prems Cons by metis
    then have batch: "?batch \<noteq> []" by (simp add: Cons)
    have rest: "?rest = filter (\<lambda>i. \<not> ready ns C i) remaining"
      using less.prems by (intro filter_cong) auto
    then have "length ?rest < length remaining"
      using length_filter_remove [of a remaining "ready ns C"] \<open>ready ns C a\<close> Cons by simp
    moreover have "?rest = filter (\<lambda>i. i \<notin> set (C @ ?batch)) order"
      unfolding less.prems by (induction order) auto
    ultimately obtain gs where gs: "group_loop ns (C @ ?batch) ?rest = Inr gs"
      "mset (concat gs) = mset ?rest" "layered (deps_of ns) (set (C @ ?batch)) gs"
      using less.hyps [of ?rest "C @ ?batch"] by blast
    have "group_loop ns C remaining = Inr (?batch # gs)"
      using no_err batch gs(1) by (subst group_loop.simps) (simp add: Cons Let_def)
    moreover have "mset (concat (?batch # gs)) = mset remaining"
      using gs(2) [unfolded rest] by simp
    moreover have "layered (deps_of ns) (set C) (?batch # gs)"
      using batch gs(3) by (simp add: ready_iff)
    ultimately show ?thesis by blast
  qed
qed

section \<open>The resolver as a whole\<close>

definition step_ids :: "composition_step list \<Rightarrow> string list" where
  "step_ids steps = map step_id steps"

text \<open>\<open>step_edge steps a b\<close>: step \<open>a\<close> depends on step \<open>b\<close>, both in the definition.\<close>

definition step_edge :: "composition_step list \<Rightarrow> string \<Rightarrow> string \<Rightarrow> bool" where
  "step_edge steps a b \<longleftrightarrow>
     (\<exists>s \<in> set steps. step_id s = a \<and> b \<in> set (case depends_on s of None \<Rightarrow> [] | Some ds \<Rightarrow> ds))
     \<and> b \<in> set (step_ids steps)"

abbreviation steps_graph :: "composition_step list \<Rightarrow> dag_nodes" where
  "steps_graph steps \<equiv> link_nodes (build_nodes steps)"

lemma make_node_simps [simp]:
  "dependents (make_node s) = []"
  "dependencies (make_node s) = (case depends_on s of None \<Rightarrow> [] | Some ds \<Rightarrow> ds)"
  by (simp_all add: make_node_def)

lemma steps_graph_facts:
  "linked (steps_graph steps)" "m_has (steps_graph steps) i \<longleftrightarrow> i \<in> set (step_ids steps)"
  "map_option dependencies (m_get (steps_graph steps) i) = map_option dependencies (m_get (build_nodes steps) i)"
proof -
  note b = build_nodes_facts [of steps]
  have none: "m_get (build_nodes steps) x = Some node \<Longrightarrow> dependents node = []" for x node
    using b(3) by fastforce
  note f = link_nodes_facts [OF b(1) none]
  show "linked (steps_graph steps)" by (rule f(1))
  show "m_has (steps_graph steps) i \<longleftrightarrow> i \<in> set (step_ids steps)"
  proof -
    have "set (m_keys (steps_graph steps)) = set (m_keys (build_nodes steps))"
      by (rule arg_cong [OF f(2)])
    also have "\<dots> = set (step_ids steps)" unfolding b(2) step_ids_def by (rule set_map [symmetric])
    finally show ?thesis by (simp only: m_has_iff)
  qed
  show "map_option dependencies (m_get (steps_graph steps) i) = map_option dependencies (m_get (build_nodes steps) i)"
    by (rule f(3))
qed

lemma steps_graph_edge:
  assumes "distinct (step_ids steps)"
  shows "dep_edge (steps_graph steps) = step_edge steps"
proof (intro ext)
  fix a b
  have uniq: "s = t" if "s \<in> set steps" "t \<in> set steps" "step_id s = step_id t" for s t
    using assms that by (simp add: step_ids_def distinct_map inj_on_def)
  have node: "m_get (build_nodes steps) (step_id s) = Some (make_node s)" if "s \<in> set steps" for s
  proof -
    have "m_has (build_nodes steps) (step_id s)" using that by (simp add: m_has_iff build_nodes_facts(2) del: set_map)
    then obtain node where n: "m_get (build_nodes steps) (step_id s) = Some node" by (auto simp: m_has_def)
    with build_nodes_facts(3) [OF n] uniq that show ?thesis by metis
  qed
  have "dep_edge (steps_graph steps) a b \<longleftrightarrow>
      (\<exists>ds. map_option dependencies (m_get (steps_graph steps) a) = Some ds \<and> b \<in> set ds)
      \<and> b \<in> set (step_ids steps)"
    unfolding dep_edge_def steps_graph_facts(2) by auto
  also have "\<dots> \<longleftrightarrow> step_edge steps a b"
    unfolding steps_graph_facts(3) step_edge_def using node build_nodes_facts(3) by fastforce
  finally show "dep_edge (steps_graph steps) a b = step_edge steps a b" .
qed

lemma resolveDag_cases:
  obtains (cycle) xs a b where "resolveDag steps = Some (Inr \<lparr>nodes = steps_graph steps,
      executionOrder = [], parallelGroups = [], hasCycles = True, cyclePath = Some (xs @ [a, b])\<rparr>)"
    "closed_walk (steps_graph steps) (xs @ [b, a])"
  | (sorted) order groups d where "resolveDag steps = Some (Inr \<lparr>nodes = steps_graph steps,
      executionOrder = order, parallelGroups = groups, hasCycles = False, cyclePath = None\<rparr>)"
    "kahn_inv (steps_graph steps) (d, []) order" "mset (concat groups) = mset order"
    "layered (deps_of (steps_graph steps)) {} groups"
proof (cases "detectCycles (steps_graph steps)")
  case (Finished s)
  obtain order d where o: "topologicalSort (steps_graph steps) = Some (Inr order)"
    "kahn_inv (steps_graph steps) (d, []) order"
    using topologicalSort_total [OF steps_graph_facts(1)] by blast
  have "ordered (steps_graph steps) order" "set order \<subseteq> {a. m_has (steps_graph steps) a}"
    using o(2) by (auto simp: kahn_inv_def)
  then obtain groups where g: "computeParallelGroups (steps_graph steps) order = Inr groups"
    "mset (concat groups) = mset order" "layered (deps_of (steps_graph steps)) {} groups"
    using group_loop_layers [of "steps_graph steps" order order "[]"] unfolding computeParallelGroups_def by auto
  show thesis by (rule sorted [OF _ o(2) g(2,3)]) (simp add: resolveDag_def Let_def Finished o(1) g(1))
next
  case (CycleFound p)
  with detectCycles_post [of "steps_graph steps"] obtain xs a b where
    p: "p = Some (xs @ [a, b])" "closed_walk (steps_graph steps) (xs @ [b, a])" by auto
  show thesis by (rule cycle [OF _ p(2)]) (simp add: resolveDag_def Let_def CycleFound p(1))
next
  case DfsTypeError
  with detectCycles_post [of "steps_graph steps"] show thesis by simp
qed

section \<open>Properties\<close>

text \<open>
  C12. The resolver is correct on acyclic compositions: if the step identifiers are distinct and no
  step depends on itself through others, \<open>resolveDag\<close> returns, reports no cycle, the execution
  order contains every step exactly once with its dependencies before it, and the parallel groups
  are a partition of the steps in which every dependency of a step lies in an earlier group.
\<close>

theorem resolve_acyclic:
  assumes "distinct (step_ids steps)" and "\<And>a. \<not> (step_edge steps)\<^sup>+\<^sup>+ a a"
  shows "\<exists>an. resolveDag steps = Some (Inr an) \<and> \<not> hasCycles an
    \<and> distinct (executionOrder an) \<and> set (executionOrder an) = set (step_ids steps)
    \<and> (\<forall>xs a ys b. executionOrder an = xs @ a # ys \<and> step_edge steps a b \<longrightarrow> b \<in> set xs)
    \<and> mset (concat (parallelGroups an)) = mset (step_ids steps)
    \<and> layered (\<lambda>a. filter (step_edge steps a) (step_ids steps)) {} (parallelGroups an)"
proof -
  note edge = steps_graph_edge [OF assms(1)]
  show ?thesis
  proof (cases rule: resolveDag_cases [of steps])
    case (cycle xs a b)
    with closed_walk_cycle [OF cycle(2)] assms(2) show ?thesis by (simp add: edge)
  next
    case (sorted order groups d)
    have inv: "distinct order" "ordered (steps_graph steps) order"
      using sorted(2) by (simp_all add: kahn_inv_def)
    have set: "set order = set (step_ids steps)"
      using order_exact [OF sorted(2)] assms(2)
      by (simp add: edge steps_graph_facts(2) has_cycle_below_def)
    have "mset order = mset (step_ids steps)" using inv(1) assms(1) set by (simp add: set_eq_iff_mset_eq_distinct)
    moreover have deps: "set (deps_of (steps_graph steps) a) = set (filter (step_edge steps a) (step_ids steps))" for a
      using dep_edge_deps_of [of "steps_graph steps" a, unfolded edge] by (auto simp: step_edge_def)
    moreover have "layered (\<lambda>a. filter (step_edge steps a) (step_ids steps)) C gs
        = layered (deps_of (steps_graph steps)) C gs" for C gs
      by (induction gs arbitrary: C) (simp_all add: deps del: set_filter)
    moreover have "b \<in> set xs" if "order = xs @ a # ys" "step_edge steps a b" for xs a ys b
      using inv(2) that dep_edge_deps_of [of "steps_graph steps" a b, unfolded edge]
      by (auto simp: ordered_def)
    ultimately show ?thesis using sorted inv(1) set by auto
  qed
qed

text \<open>
  A reported cycle is real: when \<open>resolveDag\<close> reports a cycle, the composition has a dependency
  cycle, and the reported path is that cycle with its last two entries in the wrong order: putting
  them right gives a closed walk along the dependencies.
\<close>

theorem reported_cycle_is_real:
  assumes "distinct (step_ids steps)" and "resolveDag steps = Some (Inr an)" and "hasCycles an"
  shows "\<exists>xs a b. cyclePath an = Some (xs @ [a, b]) \<and> hd (xs @ [b, a]) = a
    \<and> successively (step_edge steps) (xs @ [b, a]) \<and> (step_edge steps)\<^sup>+\<^sup>+ a a"
proof (cases rule: resolveDag_cases [of steps])
  case (cycle xs a b)
  then have "cyclePath an = Some (xs @ [a, b])" using assms(2) by auto
  with closed_walk_cycle [OF cycle(2)] cycle(2) show ?thesis
    unfolding closed_walk_def steps_graph_edge [OF assms(1)]
    by (intro exI [where x = xs] exI [where x = a] exI [where x = b]) simp
next
  case (sorted order groups d)
  with assms show ?thesis by auto
qed

text \<open>
  What runs when no cycle is reported: exactly the steps from which no dependency cycle can be
  reached. The others are in no group and in no execution order, without an error.
\<close>

theorem scheduled_steps:
  assumes "distinct (step_ids steps)" and "resolveDag steps = Some (Inr an)" and "\<not> hasCycles an"
  shows "set (concat (parallelGroups an)) = {a \<in> set (step_ids steps). \<not> has_cycle_below (step_edge steps) a}
    \<and> distinct (concat (parallelGroups an))"
proof (cases rule: resolveDag_cases [of steps])
  case (cycle xs a b)
  with assms show ?thesis by auto
next
  case (sorted order groups d)
  then have "distinct order" by (simp add: kahn_inv_def)
  moreover have "set (concat groups) = set order" using sorted(3) by (rule mset_eq_setD)
  moreover have "distinct (concat groups) = distinct order" using sorted(3) by (rule mset_eq_imp_distinct_iff)
  moreover have "parallelGroups an = groups" using assms(2) sorted(1) by auto
  ultimately show ?thesis using order_exact [OF sorted(2)]
    by (simp only: steps_graph_facts(2) steps_graph_edge [OF assms(1)])
qed

text \<open>Small compositions, for the theorem below and the witnesses.\<close>

definition plain_step :: "string \<Rightarrow> string list \<Rightarrow> composition_step" where
  "plain_step i ds = \<lparr>step_id = i, tool = ''t'', depends_on = Some ds, when_cond = None,
     max_retries = None, on_fail = None, timeout_ms = None, organ = None\<rparr>"

definition missed_steps :: "composition_step list" where
  "missed_steps = [plain_step ''A'' [''B'', ''C''], plain_step ''B'' [], plain_step ''C'' [''A'']]"

lemma plain_step_id [simp]: "step_id (plain_step i ds) = i" "depends_on (plain_step i ds) = Some ds"
  by (simp_all add: plain_step_def)

text \<open>
  The search misses cycles: after it has descended into one dependency of a node it marks the
  node finished without looking at the remaining dependencies. In the three steps of \<open>missed_steps\<close>, \<open>A\<close> and
  \<open>C\<close> depend on each other; \<open>resolveDag\<close> reports no cycle and schedules only \<open>B\<close>.
\<close>

theorem cycle_missed:
  "(step_edge missed_steps)\<^sup>+\<^sup>+ ''A'' ''A''
    \<and> map_option (map_sum (\<lambda>_. ()) (\<lambda>an. (hasCycles an, executionOrder an, parallelGroups an)))
        (resolveDag missed_steps) = Some (Inr (False, [''B''], [[''B'']]))"
proof
  have e: "step_edge missed_steps ''A'' ''C''" "step_edge missed_steps ''C'' ''A''"
    by (simp_all add: step_edge_def missed_steps_def step_ids_def)
  show "(step_edge missed_steps)\<^sup>+\<^sup>+ ''A'' ''A''"
    by (rule tranclp.trancl_into_trancl [OF tranclp.r_into_trancl [of "step_edge missed_steps", OF e(1)] e(2)])
  show "map_option (map_sum (\<lambda>_. ()) (\<lambda>an. (hasCycles an, executionOrder an, parallelGroups an)))
        (resolveDag missed_steps) = Some (Inr (False, [''B''], [[''B'']]))"
    by code_simp
qed

theorem resolve_acyclic_witness:
  "\<exists>an. resolveDag [plain_step ''A'' [''B''], plain_step ''B'' []] = Some (Inr an) \<and> \<not> hasCycles an
    \<and> set (executionOrder an) = {''A'', ''B''}"
proof -
  let ?s = "[plain_step ''A'' [''B''], plain_step ''B'' []]"
  have edge: "step_edge ?s a b \<longleftrightarrow> a = ''A'' \<and> b = ''B''" for a b
    by (auto simp: step_edge_def step_ids_def)
  have "(step_edge ?s)\<^sup>+\<^sup>+ a b \<Longrightarrow> a = ''A'' \<and> b = ''B''" for a b
    by (induction rule: tranclp_induct) (simp_all add: edge)
  then have "\<not> (step_edge ?s)\<^sup>+\<^sup>+ a a" for a by force
  from resolve_acyclic [OF _ this] show ?thesis by (auto simp: step_ids_def)
qed

theorem reported_cycle_is_real_witness:
  "\<exists>an xs a b. resolveDag [plain_step ''A'' [''B''], plain_step ''B'' [''A'']] = Some (Inr an)
    \<and> cyclePath an = Some (xs @ [a, b]) \<and> (step_edge [plain_step ''A'' [''B''], plain_step ''B'' [''A'']])\<^sup>+\<^sup>+ a a"
proof -
  let ?s = "[plain_step ''A'' [''B''], plain_step ''B'' [''A'']]"
  have e: "map_option (map_sum (\<lambda>_. ()) hasCycles) (resolveDag ?s) = Some (Inr True)" by code_simp
  then obtain an where "resolveDag ?s = Some (Inr an)" "hasCycles an"
    by (cases "resolveDag ?s"; cases "the (resolveDag ?s)") auto
  with reported_cycle_is_real [OF _ this] show ?thesis by (auto simp: step_ids_def)
qed

theorem scheduled_steps_witness:
  "\<exists>an. resolveDag missed_steps = Some (Inr an) \<and> set (concat (parallelGroups an))
     = {a \<in> set (step_ids missed_steps). \<not> has_cycle_below (step_edge missed_steps) a}"
proof -
  have "map_option (map_sum (\<lambda>_. ()) hasCycles) (resolveDag missed_steps) = Some (Inr False)" by code_simp
  then obtain an where "resolveDag missed_steps = Some (Inr an)" "\<not> hasCycles an"
    by (cases "resolveDag missed_steps"; cases "the (resolveDag missed_steps)") auto
  with scheduled_steps [OF _ this] show ?thesis by (auto simp: step_ids_def missed_steps_def)
qed

end
