(* ===== verification/Composition.thy ===== *)
theory Composition
  imports Dag Canonical_Json
begin

text \<open>
  The composition engine: \<^verbatim>\<open>src/src/domain/composition/CompositionEngine.ts\<close>.

  \<open>executeStep\<close> is the retry loop of one step; what each attempt does (the executor's promise
  raced against the timeout) is an argument. \<open>comp_step\<close> is the interleaving semantics of
  \<^verbatim>\<open>execute\<close>: between two awaits the engine runs alone, and while it awaits, the running
  steps settle in any order. The locale \<open>layered_schedule\<close> is the contract the engine needs
  from the resolver; it is interpreted on \<^const>\<open>resolveDag\<close>. \<^verbatim>\<open>evaluateCondition\<close> calls
  \<^verbatim>\<open>eval\<close>, so the truth of a condition is an argument.
\<close>

section \<open>One step: the retry loop\<close>

datatype step_status = PASS | FAIL | SKIPPED | TIMEOUT

record engine_config =
  maxConcurrency :: nat
  defaultTimeoutMs :: int
  defaultMaxRetries :: int

record step_result =
  r_step_id :: string
  r_tool :: string
  r_status :: step_status
  r_output :: "json option"
  r_duration_ms :: int
  r_error :: "string option"
  r_retries_used :: "int option"

text \<open>The outcome of an attempt: the race's winner, an output or an error message, and its duration.\<close>

type_synonym attempt_outcome = "(string + json) \<times> int"

definition backoff_ms :: "int \<Rightarrow> int" where
  "backoff_ms attempt = min (1000 * 2 ^ nat attempt) 30000"

text \<open>The result and the delays waited between the attempts.\<close>

function retry_loop :: "composition_step \<Rightarrow> int \<Rightarrow> (int \<Rightarrow> attempt_outcome) \<Rightarrow> int
    \<Rightarrow> string option \<Rightarrow> int \<Rightarrow> int list \<Rightarrow> step_result \<times> int list" where
  "retry_loop step maxRetries run attempt lastError retriesUsed delays =
     (if attempt \<le> maxRetries then
        (case run attempt of
          (Inr out, dur) \<Rightarrow>
            (\<lparr>r_step_id = step_id step, r_tool = tool step, r_status = PASS, r_output = Some out,
              r_duration_ms = dur, r_error = None, r_retries_used = Some retriesUsed\<rparr>, delays)
        | (Inl err, dur) \<Rightarrow>
            if attempt < maxRetries
            then retry_loop step maxRetries run (attempt + 1) (Some err) (attempt + 1)
                   (delays @ [backoff_ms attempt])
            else (\<lparr>r_step_id = step_id step, r_tool = tool step,
                   r_status = (if err = ''TIMEOUT'' then TIMEOUT else FAIL), r_output = None,
                   r_duration_ms = dur, r_error = Some err, r_retries_used = Some (attempt + 1)\<rparr>, delays))
      else (\<lparr>r_step_id = step_id step, r_tool = tool step, r_status = FAIL, r_output = None,
             r_duration_ms = 0,
             r_error = Some (case lastError of None \<Rightarrow> ''Unknown error'' | Some e \<Rightarrow> e),
             r_retries_used = Some retriesUsed\<rparr>, delays))"
  by pat_completeness auto

termination retry_loop
  by (relation "measure (\<lambda>(_, maxRetries, _, attempt, _). nat (maxRetries + 1 - attempt))") auto

declare retry_loop.simps [simp del]

definition effective_retries :: "engine_config \<Rightarrow> composition_step \<Rightarrow> int" where
  "effective_retries cfg step = (case max_retries step of None \<Rightarrow> defaultMaxRetries cfg | Some n \<Rightarrow> n)"

definition executeStep :: "engine_config \<Rightarrow> composition_step \<Rightarrow> (int \<Rightarrow> attempt_outcome) \<Rightarrow> step_result \<times> int list" where
  "executeStep cfg step run = retry_loop step (effective_retries cfg step) run 0 None 0 []"

section \<open>The engine's run\<close>

datatype composition_status = Running | Completed | Failed | Cancelled

text \<open>
  Where \<^verbatim>\<open>execute\<close> is: before the next group, in the loop over a group, at the race, at
  the end of a group, or returned.
\<close>

datatype run_mode = NextGroup | Launching | AwaitRace | AwaitAll | Returned

record run =
  mode :: run_mode
  groups_left :: "string list list"
  pending :: "string list"
  batch :: "string list"
  running :: "string list"
  completed :: "string list"
  step_results :: "(string, step_result) jsmap"
  results :: "step_result list"
  comp_status :: composition_status

definition skip_result :: "composition_step \<Rightarrow> step_result" where
  "skip_result step = \<lparr>r_step_id = step_id step, r_tool = tool step, r_status = SKIPPED,
     r_output = None, r_duration_ms = 0, r_error = None, r_retries_used = None\<rparr>"

definition start_run :: "string list list \<Rightarrow> run" where
  "start_run groups = \<lparr>mode = NextGroup, groups_left = groups, pending = [], batch = [], running = [],
     completed = [], step_results = [], results = [], comp_status = Running\<rparr>"

text \<open>One iteration of the loop over a group.\<close>

definition skipped_by :: "(string \<Rightarrow> (string, step_result) jsmap \<Rightarrow> bool) \<Rightarrow> composition_step \<Rightarrow> run \<Rightarrow> bool" where
  "skipped_by cond step s \<longleftrightarrow> \<not> falsy (when_cond step) \<and> \<not> cond (the (when_cond step)) (step_results s)"

definition launch :: "engine_config \<Rightarrow> composition_step list
    \<Rightarrow> (string \<Rightarrow> (string, step_result) jsmap \<Rightarrow> bool) \<Rightarrow> string \<Rightarrow> run \<Rightarrow> run" where
  "launch cfg steps cond sid s =
     (case find (\<lambda>st. step_id st = sid) steps of
        None \<Rightarrow> s
      | Some step \<Rightarrow>
          if skipped_by cond step s
          then s\<lparr>results := results s @ [skip_result step],
                 step_results := m_set sid (skip_result step) (step_results s),
                 completed := completed s @ [sid]\<rparr>
          else s\<lparr>running := running s @ [sid], batch := batch s @ [sid],
                 mode := (if maxConcurrency cfg \<le> length (batch s @ [sid]) then AwaitRace else mode s)\<rparr>)"

text \<open>The callback of a settled step.\<close>

definition settle :: "string \<Rightarrow> step_result \<Rightarrow> run \<Rightarrow> run" where
  "settle sid r s = s\<lparr>results := results s @ [r], step_results := m_set sid r (step_results s),
     completed := completed s @ [sid], running := remove1 sid (running s)\<rparr>"

definition count_status :: "step_status \<Rightarrow> step_result list \<Rightarrow> nat" where
  "count_status st rs = length (filter (\<lambda>r. r_status r = st) rs)"

definition finish :: "run \<Rightarrow> run" where
  "finish s = s\<lparr>mode := Returned, comp_status := (if 0 < count_status FAIL (results s) then Failed else Completed)\<rparr>"

definition cancel :: "run \<Rightarrow> bool \<times> run" where
  "cancel s = (if comp_status s \<noteq> Running then (False, s) else (True, s\<lparr>comp_status := Cancelled\<rparr>))"

inductive comp_step :: "engine_config \<Rightarrow> composition_step list
    \<Rightarrow> (string \<Rightarrow> (string, step_result) jsmap \<Rightarrow> bool) \<Rightarrow> run \<Rightarrow> run \<Rightarrow> bool"
  for cfg steps cond where
  enter_group: "mode s = NextGroup \<Longrightarrow> groups_left s = g # gs \<Longrightarrow>
     comp_step cfg steps cond s (s\<lparr>mode := Launching, groups_left := gs, pending := g, batch := []\<rparr>)"
| launch_one: "mode s = Launching \<Longrightarrow> pending s = sid # rest \<Longrightarrow>
     comp_step cfg steps cond s (launch cfg steps cond sid (s\<lparr>pending := rest\<rparr>))"
| race_won: "mode s = AwaitRace \<Longrightarrow> \<exists>sid \<in> set (batch s). sid \<notin> set (running s) \<Longrightarrow>
     comp_step cfg steps cond s (s\<lparr>mode := Launching\<rparr>)"
| group_launched: "mode s = Launching \<Longrightarrow> pending s = [] \<Longrightarrow> comp_step cfg steps cond s (s\<lparr>mode := AwaitAll\<rparr>)"
| group_done: "mode s = AwaitAll \<Longrightarrow> running s = [] \<Longrightarrow> comp_step cfg steps cond s (s\<lparr>mode := NextGroup\<rparr>)"
| step_settles: "mode s \<in> {AwaitRace, AwaitAll} \<Longrightarrow> sid \<in> set (running s) \<Longrightarrow>
     find (\<lambda>st. step_id st = sid) steps = Some step \<Longrightarrow> r = fst (executeStep cfg step att) \<Longrightarrow>
     comp_step cfg steps cond s (settle sid r s)"
| return_receipt: "mode s = NextGroup \<Longrightarrow> groups_left s = [] \<Longrightarrow> comp_step cfg steps cond s (finish s)"

text \<open>\<^verbatim>\<open>cancel\<close> may be called by anyone while the engine awaits.\<close>

inductive user_step :: "engine_config \<Rightarrow> composition_step list
    \<Rightarrow> (string \<Rightarrow> (string, step_result) jsmap \<Rightarrow> bool) \<Rightarrow> run \<Rightarrow> run \<Rightarrow> bool"
  for cfg steps cond where
  engine: "comp_step cfg steps cond s t \<Longrightarrow> user_step cfg steps cond s t"
| cancelled: "mode s \<in> {AwaitRace, AwaitAll} \<Longrightarrow> user_step cfg steps cond s (snd (cancel s))"

text \<open>The receipt's aggregate; \<open>w3\<close> and \<open>g\<close> are the same ratio.\<close>

record aggregate =
  total_steps :: nat
  passed :: nat
  failed :: nat
  skipped :: nat
  w3 :: rat

definition receipt_aggregate :: "run \<Rightarrow> aggregate" where
  "receipt_aggregate s = \<lparr>total_steps = length (results s), passed = count_status PASS (results s),
     failed = count_status FAIL (results s), skipped = count_status SKIPPED (results s),
     w3 = of_nat (count_status PASS (results s)) / of_nat (max (length (results s)) 1)\<rparr>"

text \<open>\<^verbatim>\<open>execute\<close> up to its first group: the resolver's answer or an exception.\<close>

definition groups_of :: "composition_step list \<Rightarrow> string list list" where
  "groups_of steps = (case resolveDag steps of Some (Inr an) \<Rightarrow> parallelGroups an | _ \<Rightarrow> [])"

definition begin_execute :: "composition_step list \<Rightarrow> string list option + run" where
  "begin_execute steps = (case resolveDag steps of
     Some (Inr an) \<Rightarrow> if hasCycles an then Inl (cyclePath an) else Inr (start_run (parallelGroups an))
   | _ \<Rightarrow> Inl None)"

section \<open>The retry loop\<close>

lemma retry_loop_success:
  assumes "a \<le> k" and "k \<le> n" and "\<And>j. a \<le> j \<Longrightarrow> j < k \<Longrightarrow> \<exists>e d. run j = (Inl e, d)"
    and "run k = (Inr out, dur)"
  shows "retry_loop step n run a le a ds =
    (\<lparr>r_step_id = step_id step, r_tool = tool step, r_status = PASS, r_output = Some out,
      r_duration_ms = dur, r_error = None, r_retries_used = Some k\<rparr>, ds @ map backoff_ms [a..k - 1])"
  using assms
proof (induction "nat (k - a)" arbitrary: a le ds)
  case 0
  then have "a = k" by simp
  with 0 show ?case by (subst retry_loop.simps) simp
next
  case (Suc m)
  then have lt: "a < k" by simp
  then obtain e d where e: "run a = (Inl e, d)" using Suc.prems(3) [of a] by auto
  have "[a..k - 1] = a # [a + 1..k - 1]" using lt by (intro upto_rec1) simp
  moreover have "retry_loop step n run (a + 1) (Some e) (a + 1) (ds @ [backoff_ms a]) =
    (\<lparr>r_step_id = step_id step, r_tool = tool step, r_status = PASS, r_output = Some out,
      r_duration_ms = dur, r_error = None, r_retries_used = Some k\<rparr>,
     (ds @ [backoff_ms a]) @ map backoff_ms [a + 1..k - 1])"
    using Suc lt by (intro Suc.hyps(1)) auto
  ultimately show ?case using lt Suc.prems(2) e by (subst retry_loop.simps) simp
qed

lemma retry_loop_exhausted:
  assumes "a \<le> n" and "\<And>j. a \<le> j \<Longrightarrow> j \<le> n \<Longrightarrow> \<exists>e d. run j = (Inl e, d)" and "run n = (Inl err, dur)"
  shows "retry_loop step n run a le ru ds =
    (\<lparr>r_step_id = step_id step, r_tool = tool step,
      r_status = (if err = ''TIMEOUT'' then TIMEOUT else FAIL), r_output = None,
      r_duration_ms = dur, r_error = Some err, r_retries_used = Some (n + 1)\<rparr>, ds @ map backoff_ms [a..n - 1])"
  using assms
proof (induction "nat (n - a)" arbitrary: a le ru ds)
  case 0
  then have "a = n" by simp
  with 0 show ?case by (subst retry_loop.simps) simp
next
  case (Suc m)
  then have lt: "a < n" by simp
  then obtain e d where e: "run a = (Inl e, d)" using Suc.prems(2) [of a] by auto
  have "[a..n - 1] = a # [a + 1..n - 1]" using lt by (intro upto_rec1) simp
  moreover have "retry_loop step n run (a + 1) (Some e) (a + 1) (ds @ [backoff_ms a]) =
    (\<lparr>r_step_id = step_id step, r_tool = tool step,
      r_status = (if err = ''TIMEOUT'' then TIMEOUT else FAIL), r_output = None,
      r_duration_ms = dur, r_error = Some err, r_retries_used = Some (n + 1)\<rparr>,
     (ds @ [backoff_ms a]) @ map backoff_ms [a + 1..n - 1])"
    using Suc lt by (intro Suc.hyps(1)) auto
  ultimately show ?case using lt e by (subst retry_loop.simps) simp
qed

lemma executeStep_id: "r_step_id (fst (executeStep cfg step att)) = step_id step"
proof -
  have "r_step_id (fst (retry_loop step n att a le ru ds)) = step_id step" for n a le ru ds
  proof (induction "nat (n + 1 - a)" arbitrary: a le ru ds)
    case 0
    then show ?case by (subst retry_loop.simps) simp
  next
    case (Suc m)
    obtain o' d where r: "att a = (o', d)" by (cases "att a")
    show ?case
    proof (cases o')
      case (Inl e)
      then show ?thesis using Suc.hyps(1) [of "a + 1"] Suc.hyps(2) r by (subst retry_loop.simps) simp
    next
      case (Inr out)
      then show ?thesis using Suc.hyps(2) r by (subst retry_loop.simps) simp
    qed
  qed
  then show ?thesis by (simp add: executeStep_def)
qed

section \<open>The contract between the resolver and the engine\<close>

text \<open>
  What the engine relies on: the groups mention steps of the definition, each at most once, and
  every dependency of a step lies in an earlier group.
\<close>

locale layered_schedule =
  fixes steps :: "composition_step list"
    and groups :: "string list list"
    and deps :: "string \<Rightarrow> string list"
  assumes known: "set (concat groups) \<subseteq> set (step_ids steps)"
    and once: "distinct (concat groups)"
    and layers: "layered deps {} groups"
begin

definition schedule_inv :: "run \<Rightarrow> bool" where
  "schedule_inv s \<longleftrightarrow>
     mset (completed s) + mset (running s) + mset (pending s) + mset (concat (groups_left s)) = mset (concat groups)
     \<and> (\<forall>a \<in> set (running s) \<union> set (pending s). set (deps a) \<subseteq> set (completed s))
     \<and> layered deps (set (completed s) \<union> set (running s) \<union> set (pending s)) (groups_left s)
     \<and> map r_step_id (results s) = completed s
     \<and> (mode s \<in> {NextGroup, Returned} \<longrightarrow> running s = [] \<and> pending s = [])
     \<and> (mode s = AwaitAll \<longrightarrow> pending s = []) \<and> (mode s = AwaitRace \<longrightarrow> batch s \<noteq> [])
     \<and> (mode s = Returned \<longrightarrow> groups_left s = [] \<and> comp_status s \<noteq> Cancelled \<and> comp_status s \<noteq> Running
         \<and> (comp_status s = Failed \<longleftrightarrow> (\<exists>r \<in> set (results s). r_status r = FAIL)))"

lemma start_inv: "schedule_inv (start_run groups)"
  by (simp add: schedule_inv_def start_run_def layers)

lemma known_step:
  assumes "schedule_inv s" and "sid \<in> set (running s) \<union> set (pending s)"
  obtains step where "find (\<lambda>st. step_id st = sid) steps = Some step" "step_id step = sid"
proof -
  from assms have "sid \<in># mset (concat groups)" unfolding schedule_inv_def
    by (metis (no_types, lifting) UnE in_multiset_in_set union_iff)
  then have "sid \<in> set (step_ids steps)" using known by auto
  then have "find (\<lambda>st. step_id st = sid) steps \<noteq> None" by (auto simp: find_None_all step_ids_def)
  then obtain step where "find (\<lambda>st. step_id st = sid) steps = Some step" by blast
  with that find_Some_in [OF this] show thesis by blast
qed

lemma step_keeps:
  assumes "comp_step cfg steps cond s t" and inv: "schedule_inv s"
  shows "schedule_inv t"
  using assms(1)
proof cases
  case (launch_one sid rest)
  obtain step where st: "find (\<lambda>st. step_id st = sid) steps = Some step" "step_id step = sid"
    using known_step [OF inv, of sid] launch_one by auto
  have p: "mset (pending s) = add_mset sid (mset rest)" "set (pending s) = insert sid (set rest)"
    using launch_one by simp_all
  show ?thesis
  proof (cases "skipped_by cond step (s\<lparr>pending := rest\<rparr>)")
    case True
    with launch_one st inv show ?thesis
      unfolding schedule_inv_def by (auto simp: launch_def skip_result_def insert_commute)
  next
    case False
    with launch_one st inv show ?thesis
      unfolding schedule_inv_def by (auto simp: launch_def insert_commute)
  qed
next
  case (step_settles sid step r att)
  have fields: "pending t = pending s" "groups_left t = groups_left s" "mode t = mode s" "batch t = batch s"
    "results t = results s @ [r]" "completed t = completed s @ [sid]" "comp_status t = comp_status s"
    and running: "running t = remove1 sid (running s)"
    using step_settles by (simp_all add: settle_def)
  have m: "mset (completed t) + mset (running t) = mset (completed s) + mset (running s)"
    using \<open>sid \<in> set (running s)\<close> by (simp add: fields running)
  then have same: "set (completed t) \<union> set (running t) = set (completed s) \<union> set (running s)"
    by (metis set_mset_mset set_mset_union)
  have sub: "set (running t) \<subseteq> set (running s)" "set (completed s) \<subseteq> set (completed t)"
    by (auto simp: running fields dest: set_remove1_subset [THEN subsetD])
  have "step_id step = sid" using find_Some_in [OF step_settles(4)] by simp
  then have id: "r_step_id r = sid" using step_settles(5) by (simp only: executeStep_id)
  have await: "mode s = AwaitRace \<or> mode s = AwaitAll" using step_settles by simp
  show ?thesis
    unfolding schedule_inv_def
  proof (intro conjI)
    show "mset (completed t) + mset (running t) + mset (pending t) + mset (concat (groups_left t))
        = mset (concat groups)"
      using inv unfolding m fields(1,2) schedule_inv_def by blast
    show "\<forall>a \<in> set (running t) \<union> set (pending t). set (deps a) \<subseteq> set (completed t)"
      using inv sub unfolding fields(1) schedule_inv_def by blast
    show "layered deps (set (completed t) \<union> set (running t) \<union> set (pending t)) (groups_left t)"
      using inv unfolding same fields(1,2) schedule_inv_def by blast
    show "map r_step_id (results t) = completed t"
      using inv by (simp add: fields id schedule_inv_def)
  qed (use await inv in \<open>auto simp: fields schedule_inv_def\<close>)
next
  case (enter_group g gs)
  have t: "completed t = completed s" "running t = running s" "pending t = g" "groups_left t = gs"
    "results t = results s" "mode t = Launching"
    using enter_group by simp_all
  have s: "running s = []" "pending s = []" using inv enter_group by (simp_all add: schedule_inv_def)
  have l: "layered deps (set (completed s)) (g # gs)" and m: "mset (completed s) + mset (concat (g # gs)) = mset (concat groups)"
    and r: "map r_step_id (results s) = completed s"
    using inv s enter_group(3) by (simp_all add: schedule_inv_def)
  show ?thesis unfolding schedule_inv_def t s using l m r by (simp add: add.assoc)
next
  case return_receipt
  with inv show ?thesis
    unfolding schedule_inv_def
    by (auto simp: finish_def count_status_def filter_empty_conv length_greater_0_conv)
qed (use inv in \<open>auto simp: schedule_inv_def\<close>)

lemma user_step_keeps:
  assumes "user_step cfg steps cond s t" and "schedule_inv s"
  shows "schedule_inv t"
  using assms
proof cases
  case cancelled
  with assms(2) show ?thesis by (auto simp: schedule_inv_def cancel_def)
qed (use assms(2) step_keeps in blast)

end

context layered_schedule
begin

lemma progress:
  assumes "schedule_inv s" and "mode s \<noteq> Returned"
  shows "\<exists>t. comp_step cfg steps cond s t"
proof -
  have settles: "\<exists>t. comp_step cfg steps cond s t"
    if aw: "mode s \<in> {AwaitRace, AwaitAll}" and sid: "sid \<in> set (running s)" for sid
  proof -
    obtain step where "find (\<lambda>st. step_id st = sid) steps = Some step"
      using known_step [OF assms(1), of sid] sid by blast
    from step_settles [OF aw sid this refl] show ?thesis by blast
  qed
  show ?thesis
  proof (cases "mode s")
    case NextGroup
    then show ?thesis by (cases "groups_left s") (blast intro: enter_group return_receipt)+
  next
    case Launching
    then show ?thesis by (cases "pending s") (blast intro: launch_one group_launched)+
  next
    case AwaitRace
    then have "batch s \<noteq> []" using assms(1) by (simp add: schedule_inv_def)
    then obtain sid where sid: "sid \<in> set (batch s)" by (cases "batch s") auto
    show ?thesis
    proof (cases "sid \<in> set (running s)")
      case True
      then show ?thesis using settles AwaitRace by blast
    next
      case False
      then show ?thesis using race_won [OF AwaitRace] sid by blast
    qed
  next
    case AwaitAll
    show ?thesis
    proof (cases "running s")
      case Nil
      show ?thesis using group_done [OF AwaitAll Nil] by blast
    next
      case (Cons sid rest)
      then show ?thesis using settles [of sid] AwaitAll by simp
    qed
  qed (use assms(2) in blast)
qed

end

fun mode_rank :: "run_mode \<Rightarrow> nat" where
  "mode_rank Returned = 0"
| "mode_rank NextGroup = 1"
| "mode_rank AwaitAll = 2"
| "mode_rank Launching = 3"
| "mode_rank AwaitRace = 4"

definition run_measure :: "run \<Rightarrow> nat" where
  "run_measure s = 4 * length (groups_left s) + 5 * length (concat (groups_left s)) + 5 * length (pending s)
     + 2 * length (running s) + mode_rank (mode s)"

lemma comp_step_decreases:
  assumes "comp_step cfg steps cond s t"
  shows "run_measure t < run_measure s"
  using assms
proof cases
  case (launch_one sid rest)
  then show ?thesis
    by (auto simp: run_measure_def launch_def split: option.split)
next
  case (step_settles sid step r att)
  then have "running s \<noteq> []" by auto
  then show ?thesis using step_settles by (simp add: run_measure_def settle_def length_remove1)
qed (auto simp: run_measure_def finish_def)

section \<open>The resolver meets the contract\<close>

interpretation resolved: layered_schedule steps "groups_of steps" "deps_of (steps_graph steps)" for steps
proof unfold_locales
  show "set (concat (groups_of steps)) \<subseteq> set (step_ids steps)"
    "distinct (concat (groups_of steps))" "layered (deps_of (steps_graph steps)) {} (groups_of steps)"
  proof -
    show "set (concat (groups_of steps)) \<subseteq> set (step_ids steps)"
    proof (cases rule: resolveDag_cases [of steps])
      case (sorted order groups d)
      then have "set (concat groups) = set order" by (intro mset_eq_setD) simp
      also have "\<dots> \<subseteq> set (step_ids steps)"
        unfolding order_exact [OF sorted(2)] steps_graph_facts(2) by blast
      finally show ?thesis using sorted(1) by (simp add: groups_of_def)
    qed (simp add: groups_of_def)
    show "distinct (concat (groups_of steps))"
    proof (cases rule: resolveDag_cases [of steps])
      case (sorted order groups d)
      then have "distinct (concat groups) = distinct order" by (intro mset_eq_imp_distinct_iff) simp
      with sorted show ?thesis by (simp add: groups_of_def kahn_inv_def)
    qed (simp add: groups_of_def)
    show "layered (deps_of (steps_graph steps)) {} (groups_of steps)"
      by (cases rule: resolveDag_cases [of steps]) (simp_all add: groups_of_def)
  qed
qed

interpretation runs: kept_invariant "user_step cfg steps cond" "resolved.schedule_inv steps" for cfg steps cond
  by unfold_locales (rule resolved.user_step_keeps)

lemma begin_execute_start:
  assumes "begin_execute steps = Inr s"
  shows "s = start_run (groups_of steps)"
  using assms by (auto simp: begin_execute_def groups_of_def split: option.splits sum.splits if_splits)

lemma begin_execute_inv:
  assumes "begin_execute steps = Inr s0" and "(user_step cfg steps cond)\<^sup>*\<^sup>* s0 s"
  shows "resolved.schedule_inv steps s"
  using runs.run_inv [OF assms(2)] resolved.start_inv begin_execute_start [OF assms(1)] by blast

lemma user_step_measure: "user_step cfg steps cond s t \<Longrightarrow> run_measure t \<le> run_measure s"
  by (cases rule: user_step.cases) (auto simp: cancel_def run_measure_def dest: comp_step_decreases)

lemma can_return:
  "resolved.schedule_inv steps s \<Longrightarrow> \<exists>t. (comp_step cfg steps cond)\<^sup>*\<^sup>* s t \<and> mode t = Returned"
proof (induction "run_measure s" arbitrary: s rule: less_induct)
  case less
  show ?case
  proof (cases "mode s = Returned")
    case False
    from resolved.progress [OF less.prems False] obtain t where t: "comp_step cfg steps cond s t" by blast
    from less.hyps [OF comp_step_decreases [OF t] resolved.step_keeps [OF t less.prems]]
    show ?thesis using t by (meson converse_rtranclp_into_rtranclp)
  qed blast
qed

section \<open>Properties\<close>

text \<open>
  C16. When no two steps of a composition have the same identifier, steps run after their dependencies: in every state an
  execution can reach, however the running
  steps settle and whether or not it was cancelled, every dependency of a running step that the
  composition defines has already completed. The code does not check the identifiers: with a repeated one the graph
  has the last step of that name and the run the first, whose dependencies are then not waited for (lemma
  \<open>repeated_id_forgets_dependency\<close>).
\<close>

theorem running_after_dependencies:
  assumes "distinct (step_ids steps)" and "begin_execute steps = Inr s0"
    and "(user_step cfg steps cond)\<^sup>*\<^sup>* s0 s" and "a \<in> set (running s)" and "step_edge steps a b"
  shows "b \<in> set (completed s)"
proof -
  have "b \<in> set (deps_of (steps_graph steps) a)"
    using assms(5) unfolding dep_edge_deps_of [symmetric] steps_graph_edge [OF assms(1)] .
  with begin_execute_inv [OF assms(2,3)] assms(4) show ?thesis
    by (auto simp: layered_schedule.schedule_inv_def [OF resolved.layered_schedule_axioms])
qed

text \<open>
  The receipt accounts for every scheduled step exactly once: when an execution has returned, the
  step identifiers of its results are a permutation of the scheduled steps, and the passed, failed
  and skipped counts with the timed-out steps add up to the total. Its status is decided by the
  \<open>FAIL\<close> results alone: a timeout does not count as a failure, and a cancellation is lost.
\<close>

theorem receipt_accounts:
  assumes "begin_execute steps = Inr s0" and "(user_step cfg steps cond)\<^sup>*\<^sup>* s0 s" and "mode s = Returned"
  shows "mset (map r_step_id (results s)) = mset (concat (groups_of steps))
    \<and> passed (receipt_aggregate s) + failed (receipt_aggregate s) + skipped (receipt_aggregate s)
        + count_status TIMEOUT (results s) = total_steps (receipt_aggregate s)
    \<and> comp_status s = (if failed (receipt_aggregate s) = 0 then Completed else Failed)"
proof -
  have inv: "resolved.schedule_inv steps s" by (rule begin_execute_inv [OF assms(1,2)])
  note inv = inv [unfolded layered_schedule.schedule_inv_def [OF resolved.layered_schedule_axioms]]
  have "length (filter (\<lambda>r. r_status r = PASS) rs) + length (filter (\<lambda>r. r_status r = FAIL) rs)
      + length (filter (\<lambda>r. r_status r = SKIPPED) rs) + length (filter (\<lambda>r. r_status r = TIMEOUT) rs) = length rs"
    for rs :: "step_result list"
  proof (induction rs)
    case (Cons r rs)
    then show ?case by (cases "r_status r") simp_all
  qed simp
  moreover have "comp_status s = (if count_status FAIL (results s) = 0 then Completed else Failed)"
    using inv assms(3) by (cases "comp_status s") (auto simp: count_status_def filter_empty_conv)
  moreover have "mset (map r_step_id (results s)) = mset (concat (groups_of steps))"
    using inv assms(3) by (auto simp del: map_map)
  ultimately show ?thesis by (simp add: receipt_aggregate_def count_status_def)
qed

text \<open>
  C26. Every execution comes to an end: each step of the engine decreases a measure, so there is no
  infinite execution, and from every state that can be reached the engine can go on until it has
  returned its receipt.
\<close>

theorem execution_returns:
  assumes "begin_execute steps = Inr s0" and "(user_step cfg steps cond)\<^sup>*\<^sup>* s0 s"
  shows "(\<exists>t. (comp_step cfg steps cond)\<^sup>*\<^sup>* s t \<and> mode t = Returned)
    \<and> (\<forall>t. comp_step cfg steps cond s t \<longrightarrow> run_measure t < run_measure s)"
proof -
  show ?thesis using can_return [OF begin_execute_inv [OF assms]] comp_step_decreases by blast
qed

text \<open>
  The retry loop does what its configuration says: the first attempt that succeeds among the
  first \<open>max_retries + 1\<close> gives the result, after as many retries as there were failures, with the
  backoff delays 1 s, 2 s, 4 s, ... (at most 30 s) between them; if all fail, the last error decides
  between \<open>TIMEOUT\<close> and \<open>FAIL\<close>.
\<close>

theorem retry_semantics:
  assumes "0 \<le> effective_retries cfg step"
  shows "(\<forall>k out dur. 0 \<le> k \<and> k \<le> effective_retries cfg step \<and> (\<forall>j. 0 \<le> j \<and> j < k \<longrightarrow> (\<exists>e d. att j = (Inl e, d)))
        \<and> att k = (Inr out, dur) \<longrightarrow>
        executeStep cfg step att = (\<lparr>r_step_id = step_id step, r_tool = tool step, r_status = PASS,
          r_output = Some out, r_duration_ms = dur, r_error = None, r_retries_used = Some k\<rparr>,
          map (\<lambda>i. min (1000 * 2 ^ nat i) 30000) [0..k - 1]))
    \<and> (\<forall>err dur. (\<forall>j. 0 \<le> j \<and> j \<le> effective_retries cfg step \<longrightarrow> (\<exists>e d. att j = (Inl e, d)))
        \<and> att (effective_retries cfg step) = (Inl err, dur) \<longrightarrow>
        executeStep cfg step att = (\<lparr>r_step_id = step_id step, r_tool = tool step,
          r_status = (if err = ''TIMEOUT'' then TIMEOUT else FAIL), r_output = None, r_duration_ms = dur,
          r_error = Some err, r_retries_used = Some (effective_retries cfg step + 1)\<rparr>,
          map (\<lambda>i. min (1000 * 2 ^ nat i) 30000) [0..effective_retries cfg step - 1]))"
proof -
  have b: "(\<lambda>i. min (1000 * 2 ^ nat i) 30000) = backoff_ms" by (rule ext) (simp add: backoff_ms_def)
  show ?thesis unfolding executeStep_def b
  proof (intro conjI allI impI, goal_cases)
    case (1 k out dur)
    then show ?case by (subst retry_loop_success [where k = k]) auto
  next
    case (2 err dur)
    with assms show ?case by (subst retry_loop_exhausted) auto
  qed
qed

section \<open>Sample runs\<close>

definition sample_config :: "nat \<Rightarrow> engine_config" where
  "sample_config n = \<lparr>maxConcurrency = n, defaultTimeoutMs = 300000, defaultMaxRetries = 0\<rparr>"

definition sample_chain :: "composition_step list" where
  "sample_chain = [plain_step ''A'' [''B''], plain_step ''B'' []]"

definition sample_fan :: "composition_step list" where
  "sample_fan = [plain_step ''A'' [], plain_step ''B'' [], plain_step ''C'' []]"

lemma plain_when [simp]: "when_cond (plain_step i ds) = None"
  by (simp add: plain_step_def)

lemma sample_begin:
  "begin_execute sample_chain = Inr (start_run [[''B''], [''A'']])"
  "begin_execute sample_fan = Inr (start_run [[''A'', ''B'', ''C'']])"
proof -
  have g: "map_option (map_sum (\<lambda>_. ()) (\<lambda>an. (hasCycles an, parallelGroups an))) (resolveDag sample_chain)
      = Some (Inr (False, [[''B''], [''A'']]))"
    "map_option (map_sum (\<lambda>_. ()) (\<lambda>an. (hasCycles an, parallelGroups an))) (resolveDag sample_fan)
      = Some (Inr (False, [[''A'', ''B'', ''C'']]))"
    by code_simp+
  have gen: "begin_execute steps = Inr (start_run gs)"
    if "map_option (map_sum (\<lambda>_. ()) (\<lambda>an. (hasCycles an, parallelGroups an))) (resolveDag steps)
      = Some (Inr (False, gs))" for steps gs
    using that unfolding begin_execute_def
    by (cases "resolveDag steps"; cases "the (resolveDag steps)") auto
  from gen [OF g(1)] gen [OF g(2)]
  show "begin_execute sample_chain = Inr (start_run [[''B''], [''A'']])"
    "begin_execute sample_fan = Inr (start_run [[''A'', ''B'', ''C'']])" by simp_all
qed

lemma sample_launch:
  assumes "find (\<lambda>st. step_id st = sid) steps = Some (plain_step i ds)"
  shows "launch cfg steps cond sid s = s\<lparr>running := running s @ [sid], batch := batch s @ [sid],
    mode := (if maxConcurrency cfg \<le> Suc (length (batch s)) then AwaitRace else mode s)\<rparr>"
  using assms by (simp add: launch_def skipped_by_def)

lemma chain_run:
  "\<exists>s. (comp_step (sample_config 8) sample_chain (\<lambda>_ _. True))\<^sup>*\<^sup>* (start_run [[''B''], [''A'']]) s
    \<and> running s = [''A'']"
proof -
  let ?step = "comp_step (sample_config 8) sample_chain (\<lambda>_ _. True)"
  have ids: "find (\<lambda>st. step_id st = ''A'') sample_chain = Some (plain_step ''A'' [''B''])"
    "find (\<lambda>st. step_id st = ''B'') sample_chain = Some (plain_step ''B'' [])"
    by (simp_all add: sample_chain_def)
  note l = sample_launch [OF ids(1)] sample_launch [OF ids(2)]
  define r where "r = fst (executeStep (sample_config 8) (plain_step ''B'' []) (\<lambda>_. (Inr JNull, 1)))"
  define s0 where "s0 = start_run [[''B''], [''A'']]"
  define s1 where "s1 = s0\<lparr>mode := Launching, groups_left := [[''A'']], pending := [''B''], batch := []\<rparr>"
  define s2 where "s2 = launch (sample_config 8) sample_chain (\<lambda>_ _. True) ''B'' (s1\<lparr>pending := []\<rparr>)"
  define s3 where "s3 = s2\<lparr>mode := AwaitAll\<rparr>"
  define s4 where "s4 = settle ''B'' r s3"
  define s5 where "s5 = s4\<lparr>mode := NextGroup\<rparr>"
  define s6 where "s6 = s5\<lparr>mode := Launching, groups_left := [], pending := [''A''], batch := []\<rparr>"
  define s7 where "s7 = launch (sample_config 8) sample_chain (\<lambda>_ _. True) ''A'' (s6\<lparr>pending := []\<rparr>)"
  note defs = s0_def s1_def s2_def s3_def s4_def s5_def s6_def s7_def settle_def l start_run_def sample_config_def
  have "?step s0 s1" unfolding s1_def by (rule enter_group) (simp_all add: defs)
  moreover have "?step s1 s2" unfolding s2_def by (rule launch_one) (simp_all add: s1_def)
  moreover have "?step s2 s3" unfolding s3_def by (rule group_launched) (simp_all add: defs)
  moreover have "?step s3 s4" unfolding s4_def
    by (rule step_settles [OF _ _ ids(2) r_def]) (simp_all add: defs)
  moreover have "?step s4 s5" unfolding s5_def by (rule group_done) (simp_all add: defs)
  moreover have "?step s5 s6" unfolding s6_def by (rule enter_group) (simp_all add: defs)
  moreover have "?step s6 s7" unfolding s7_def by (rule launch_one) (simp_all add: s6_def)
  ultimately have "?step\<^sup>*\<^sup>* s0 s7" by (meson rtranclp.rtrancl_refl rtranclp.rtrancl_into_rtrancl)
  moreover have "running s7 = [''A'']" by (simp add: defs)
  ultimately show ?thesis unfolding s0_def by blast
qed

lemma repeated_id_forgets_dependency:
  "begin_execute (sample_chain @ [plain_step ''A'' []]) = Inr (start_run [[''A'', ''B'']])"
  "step_edge (sample_chain @ [plain_step ''A'' []]) ''A'' ''B''"
proof -
  let ?steps = "sample_chain @ [plain_step ''A'' []]"
  have g: "map_option (map_sum (\<lambda>_. ()) (\<lambda>an. (hasCycles an, parallelGroups an))) (resolveDag ?steps)
      = Some (Inr (False, [[''A'', ''B'']]))"
    by code_simp
  then show "begin_execute ?steps = Inr (start_run [[''A'', ''B'']])"
    by (auto simp: begin_execute_def start_run_def split: option.splits sum.splits)
  show "step_edge ?steps ''A'' ''B''" by (simp add: step_edge_def sample_chain_def plain_step_def step_ids_def)
qed

lemma comp_steps_user: "(comp_step cfg steps cond)\<^sup>*\<^sup>* s t \<Longrightarrow> (user_step cfg steps cond)\<^sup>*\<^sup>* s t"
  by (induction rule: rtranclp_induct) (auto intro: rtranclp.rtrancl_into_rtrancl engine)

theorem running_after_dependencies_witness:
  "\<exists>s. (user_step (sample_config 8) sample_chain (\<lambda>_ _. True))\<^sup>*\<^sup>* (start_run [[''B''], [''A'']]) s
    \<and> running s = [''A''] \<and> ''B'' \<in> set (completed s)"
proof -
  obtain s where s: "(user_step (sample_config 8) sample_chain (\<lambda>_ _. True))\<^sup>*\<^sup>* (start_run [[''B''], [''A'']]) s"
    "running s = [''A'']" using chain_run comp_steps_user by blast
  have "''B'' \<in> set (completed s)"
    by (rule running_after_dependencies [OF _ sample_begin(1) s(1), of "''A''"])
      (simp_all add: s(2) step_ids_def sample_chain_def step_edge_def)
  with s show ?thesis by blast
qed

theorem receipt_accounts_witness:
  "\<exists>s :: run. mode s = Returned \<and> mset (map r_step_id (results s)) = {#''A'', ''B''#}"
proof -
  have g: "groups_of sample_chain = [[''B''], [''A'']]"
    using begin_execute_start [OF sample_begin(1)] by (simp add: start_run_def)
  obtain s where s: "(user_step (sample_config 8) sample_chain (\<lambda>_ _. True))\<^sup>*\<^sup>* (start_run [[''B''], [''A'']]) s"
    "mode s = Returned"
    using can_return [OF begin_execute_inv [OF sample_begin(1) rtranclp.rtrancl_refl]] comp_steps_user by blast
  from receipt_accounts [OF sample_begin(1) s] s(2) show ?thesis
    by (intro exI [of _ s]) (simp add: g add_mset_commute)
qed

theorem execution_returns_witness:
  "\<exists>t. (comp_step (sample_config 8) sample_chain (\<lambda>_ _. True))\<^sup>*\<^sup>* (start_run [[''B''], [''A'']]) t
    \<and> mode t = Returned"
  using execution_returns [OF sample_begin(1) rtranclp.rtrancl_refl] by blast

theorem retry_semantics_witness:
  "executeStep (sample_config 8) ((plain_step ''A'' [])\<lparr>max_retries := Some 2\<rparr>)
      (\<lambda>k. if k < 2 then (Inl ''boom'', 5) else (Inr JNull, 7))
    = (\<lparr>r_step_id = ''A'', r_tool = ''t'', r_status = PASS, r_output = Some JNull, r_duration_ms = 7,
        r_error = None, r_retries_used = Some 2\<rparr>, [1000, 2000])"
proof -
  let ?st = "(plain_step ''A'' [])\<lparr>max_retries := Some 2\<rparr>"
  let ?att = "\<lambda>k :: int. if k < 2 then (Inl ''boom'', 5) else (Inr JNull, 7) :: attempt_outcome"
  have e: "effective_retries (sample_config 8) ?st = 2" by (simp add: effective_retries_def)
  have u: "[0..1] = [0, 1 :: int]" by code_simp
  have p: "0 \<le> effective_retries (sample_config 8) ?st" by (simp add: e)
  have "0 \<le> (2 :: int) \<and> 2 \<le> effective_retries (sample_config 8) ?st
      \<and> (\<forall>j. 0 \<le> j \<and> j < 2 \<longrightarrow> (\<exists>e d. ?att j = (Inl e, d))) \<and> ?att 2 = (Inr JNull, 7)"
    by (simp add: e)
  from retry_semantics [OF p, of ?att, THEN conjunct1, THEN spec, THEN spec, THEN spec, THEN mp, OF this]
  show ?thesis by (simp add: u plain_step_def)
qed

text \<open>
  The concurrency limit is only respected until the first step of a group settles: the engine
  awaits a race over all promises of the group, the settled ones included, so every later race is
  over at once. With a limit of one, the three independent steps of \<open>sample_fan\<close> lead to two steps
  running at the same time.
\<close>

theorem concurrency_limit_exceeded:
  "\<exists>s0 s. begin_execute sample_fan = Inr s0
    \<and> (comp_step (sample_config 1) sample_fan (\<lambda>_ _. True))\<^sup>*\<^sup>* s0 s
    \<and> maxConcurrency (sample_config 1) = 1 \<and> running s = [''B'', ''C'']"
proof -
  let ?step = "comp_step (sample_config 1) sample_fan (\<lambda>_ _. True)"
  have ids: "find (\<lambda>st. step_id st = ''A'') sample_fan = Some (plain_step ''A'' [])"
    "find (\<lambda>st. step_id st = ''B'') sample_fan = Some (plain_step ''B'' [])"
    "find (\<lambda>st. step_id st = ''C'') sample_fan = Some (plain_step ''C'' [])"
    by (simp_all add: sample_fan_def)
  note l = ids [THEN sample_launch]
  define r where "r = fst (executeStep (sample_config 1) (plain_step ''A'' []) (\<lambda>_. (Inr JNull, 1)))"
  define s0 where "s0 = start_run [[''A'', ''B'', ''C'']]"
  define s1 where "s1 = s0\<lparr>mode := Launching, groups_left := [], pending := [''A'', ''B'', ''C''], batch := []\<rparr>"
  define s2 where "s2 = launch (sample_config 1) sample_fan (\<lambda>_ _. True) ''A'' (s1\<lparr>pending := [''B'', ''C'']\<rparr>)"
  define s3 where "s3 = settle ''A'' r s2"
  define s4 where "s4 = s3\<lparr>mode := Launching\<rparr>"
  define s5 where "s5 = launch (sample_config 1) sample_fan (\<lambda>_ _. True) ''B'' (s4\<lparr>pending := [''C'']\<rparr>)"
  define s6 where "s6 = s5\<lparr>mode := Launching\<rparr>"
  define s7 where "s7 = launch (sample_config 1) sample_fan (\<lambda>_ _. True) ''C'' (s6\<lparr>pending := []\<rparr>)"
  note defs = s0_def s1_def s2_def s3_def s4_def s5_def s6_def s7_def settle_def l start_run_def sample_config_def
  have "?step s0 s1" unfolding s1_def by (rule enter_group) (simp_all add: defs)
  moreover have "?step s1 s2" unfolding s2_def by (rule launch_one) (simp_all add: s1_def)
  moreover have "?step s2 s3" unfolding s3_def
    by (rule step_settles [OF _ _ ids(1) r_def]) (simp_all add: defs)
  moreover have "?step s3 s4" unfolding s4_def by (rule race_won) (simp_all add: defs)
  moreover have "?step s4 s5" unfolding s5_def by (rule launch_one) (simp_all add: defs)
  moreover have "?step s5 s6" unfolding s6_def by (rule race_won) (simp_all add: defs)
  moreover have "?step s6 s7" unfolding s7_def by (rule launch_one) (simp_all add: defs)
  ultimately have "?step\<^sup>*\<^sup>* s0 s7" by (meson rtranclp.rtrancl_refl rtranclp.rtrancl_into_rtrancl)
  moreover have "running s7 = [''B'', ''C'']" by (simp add: defs)
  ultimately show ?thesis using sample_begin(2) unfolding s0_def sample_config_def by auto
qed

end
