(* ===== verification/Plan_Validator.thy ===== *)
theory Plan_Validator
  imports Prelude
begin

text \<open>
  The structural validator of plans: the class \<^verbatim>\<open>PlanValidator\<close> of
  \<^verbatim>\<open>src/src/domain/planner/PlanValidator.ts\<close> on the plan type of
  \<^verbatim>\<open>src/src/domain/types/plan.ts\<close>.

  The recursive cycle search is a pair of functions with fuel, the breadth-first search a loop
  with fuel; both bounds are proved sufficient. The theorem \<open>validate_iff\<close> says what a valid
  plan is: an acyclic graph without phantom dependencies in which every node is reached from
  the root, nothing depends on the root, and the three size limits hold. Weights and scores are
  exact rationals.
\<close>

section \<open>Plans\<close>

datatype legacy_risk = safe | guarded | dangerous

record plan_node =
  goal :: string
  dependencies :: "string list"
  risk_tier :: "legacy_risk option"

record plan_dag =
  root_id :: string
  plan_nodes :: "(string, plan_node) jsmap"

record weights =
  w_node :: rat
  w_edge :: rat
  w_depth :: rat
  w_branching :: rat

record validator_config =
  maxDepth :: nat
  maxBranchingFactor :: nat
  maxComplexity :: rat
  cfg_weights :: weights

definition default_config :: validator_config where
  "default_config = \<lparr>maxDepth = 50, maxBranchingFactor = 20, maxComplexity = 1000,
     cfg_weights = \<lparr>w_node = 1, w_edge = 3 / 2, w_depth = 2, w_branching = 5\<rparr>\<rparr>"

datatype plan_error =
    RootIdMissing
  | RootNotFound string
  | DependsOnRoot string
  | PhantomDependency string string
  | CircularDependency
  | StructuralLeak rat
  | MaxDepthExceeded nat nat
  | MaxBranchingExceeded nat nat
  | ComplexityTooHigh rat rat

record validation =
  isValid :: bool
  isAcyclic :: bool
  rootIntegrity :: bool
  dependenciesValid :: bool
  reachability :: rat
  v_maxDepth :: nat
  v_maxBranchingFactor :: nat
  complexityScore :: rat
  errors :: "plan_error list"

section \<open>Root and dependencies\<close>

definition validateRoot :: "plan_dag \<Rightarrow> bool \<times> plan_error list" where
  "validateRoot dag =
     (if root_id dag = [] then (False, [RootIdMissing])
      else if \<not> m_has (plan_nodes dag) (root_id dag) then (False, [RootNotFound (root_id dag)])
      else case find (\<lambda>(i, node). i \<noteq> root_id dag \<and> root_id dag \<in> set (dependencies node)) (plan_nodes dag) of
        None \<Rightarrow> (True, [])
      | Some (i, _) \<Rightarrow> (False, [DependsOnRoot i]))"

definition validateDependenciesExist :: "plan_dag \<Rightarrow> bool \<times> plan_error list" where
  "validateDependenciesExist dag =
     (let es = concat (map (\<lambda>(i, node). map (PhantomDependency i)
                 (filter (\<lambda>d. \<not> m_has (plan_nodes dag) d) (dependencies node))) (plan_nodes dag))
      in (es = [], es))"

section \<open>The cycle search\<close>

text \<open>The state is \<open>visited\<close> and \<open>recStack\<close>.\<close>

fun hasCycle :: "nat \<Rightarrow> (string, plan_node) jsmap \<Rightarrow> string \<Rightarrow> string list \<times> string list
      \<Rightarrow> (bool \<times> string list \<times> string list) option"
  and visit_deps :: "nat \<Rightarrow> (string, plan_node) jsmap \<Rightarrow> string list \<Rightarrow> string list \<times> string list
      \<Rightarrow> (bool \<times> string list \<times> string list) option" where
  "hasCycle 0 ns i st = None"
| "hasCycle (Suc n) ns i (visited, recStack) =
     (let st = (i # visited, i # recStack);
          r = (case m_get ns i of None \<Rightarrow> Some (False, st)
               | Some node \<Rightarrow> visit_deps n ns (dependencies node) st)
      in case r of
        None \<Rightarrow> None
      | Some (True, st') \<Rightarrow> Some (True, st')
      | Some (False, visited', recStack') \<Rightarrow> Some (False, visited', removeAll i recStack'))"
| "visit_deps n ns [] st = Some (False, st)"
| "visit_deps n ns (d # ds) (visited, recStack) =
     (if d \<notin> set visited then
        (case hasCycle n ns d (visited, recStack) of
          None \<Rightarrow> None
        | Some (True, st') \<Rightarrow> Some (True, st')
        | Some (False, st') \<Rightarrow> visit_deps n ns ds st')
      else if d \<in> set recStack then Some (True, visited, recStack)
      else visit_deps n ns ds (visited, recStack))"

fun acyclic_from :: "nat \<Rightarrow> (string, plan_node) jsmap \<Rightarrow> string list \<Rightarrow> string list \<times> string list
      \<Rightarrow> bool option" where
  "acyclic_from n ns [] st = Some True"
| "acyclic_from n ns (i # is) st =
     (if i \<in> set (fst st) then acyclic_from n ns is st
      else case hasCycle n ns i st of
        None \<Rightarrow> None
      | Some (True, _) \<Rightarrow> Some False
      | Some (False, st') \<Rightarrow> acyclic_from n ns is st')"

definition checkAcyclic :: "plan_dag \<Rightarrow> (bool \<times> plan_error list) option" where
  "checkAcyclic dag = (let ns = plan_nodes dag in
     map_option (\<lambda>ok. (ok, if ok then [] else [CircularDependency]))
       (acyclic_from (length ns + 1) ns (m_keys ns) ([], [])))"

section \<open>The structure\<close>

record bfs =
  reachable :: "string list"
  depthMap :: "(string, nat) jsmap"
  queue :: "string list"
  bfs_depth :: nat

definition discover :: "nat \<Rightarrow> string \<Rightarrow> bfs \<Rightarrow> bfs" where
  "discover currentDepth d s =
     (if d \<in> set (reachable s) then s
      else s\<lparr>reachable := reachable s @ [d], depthMap := m_set d (currentDepth + 1) (depthMap s),
             queue := queue s @ [d]\<rparr>)"

definition bfs_visit :: "(string, plan_node) jsmap \<Rightarrow> string \<Rightarrow> bfs \<Rightarrow> bfs" where
  "bfs_visit ns i s =
     (let currentDepth = the (m_get (depthMap s) i);
          s' = s\<lparr>bfs_depth := max (bfs_depth s) currentDepth\<rparr>
      in case m_get ns i of None \<Rightarrow> s' | Some node \<Rightarrow> fold (discover currentDepth) (dependencies node) s')"

fun bfs_loop :: "nat \<Rightarrow> (string, plan_node) jsmap \<Rightarrow> bfs \<Rightarrow> bfs option" where
  "bfs_loop fuel ns s = (case queue s of
     [] \<Rightarrow> Some s
   | i # rest \<Rightarrow> (case fuel of
       0 \<Rightarrow> None
     | Suc n \<Rightarrow> bfs_loop n ns (bfs_visit ns i (s\<lparr>queue := rest\<rparr>))))"

declare bfs_loop.simps [simp del]

definition totalEdges :: "(string, plan_node) jsmap \<Rightarrow> nat" where
  "totalEdges ns = sum_list (map (\<lambda>(_, node). length (dependencies node)) ns)"

definition maxBranching :: "(string, plan_node) jsmap \<Rightarrow> nat" where
  "maxBranching ns = fold (\<lambda>(_, node) m. max m (length (dependencies node))) ns 0"

record stats =
  s_reachability :: rat
  s_maxDepth :: nat
  s_maxBranchingFactor :: nat
  s_complexityScore :: rat

definition analyzeStructure :: "validator_config \<Rightarrow> plan_dag \<Rightarrow> stats option" where
  "analyzeStructure cfg dag =
     (let ns = plan_nodes dag; root = root_id dag; w = cfg_weights cfg in
      map_option (\<lambda>s.
        \<lparr>s_reachability = (if 0 < length ns then of_nat (length (reachable s)) / of_nat (length ns) else 1),
          s_maxDepth = bfs_depth s, s_maxBranchingFactor = maxBranching ns,
          s_complexityScore = w_node w * of_nat (length ns) + w_edge w * of_nat (totalEdges ns)
            + w_depth w * of_nat (bfs_depth s) + w_branching w * of_nat (maxBranching ns)\<rparr>)
        (bfs_loop (totalEdges ns + 1) ns
          \<lparr>reachable = [root], depthMap = [(root, 1)], queue = [root], bfs_depth = 0\<rparr>))"

definition validate :: "validator_config \<Rightarrow> plan_dag \<Rightarrow> validation option" where
  "validate cfg dag =
     (case checkAcyclic dag of None \<Rightarrow> None | Some (acyc, e3) \<Rightarrow>
      case analyzeStructure cfg dag of None \<Rightarrow> None | Some st \<Rightarrow>
        let (rootOk, e1) = validateRoot dag;
            (depsOk, e2) = validateDependenciesExist dag;
            e4 = (if s_reachability st < 1 then [StructuralLeak (s_reachability st)] else [])
               @ (if maxDepth cfg < s_maxDepth st then [MaxDepthExceeded (s_maxDepth st) (maxDepth cfg)] else [])
               @ (if maxBranchingFactor cfg < s_maxBranchingFactor st
                  then [MaxBranchingExceeded (s_maxBranchingFactor st) (maxBranchingFactor cfg)] else [])
               @ (if maxComplexity cfg < s_complexityScore st
                  then [ComplexityTooHigh (s_complexityScore st) (maxComplexity cfg)] else [])
        in Some \<lparr>isValid = (rootOk \<and> depsOk \<and> acyc \<and> s_reachability st = 1
                  \<and> s_maxDepth st \<le> maxDepth cfg \<and> s_maxBranchingFactor st \<le> maxBranchingFactor cfg
                  \<and> s_complexityScore st \<le> maxComplexity cfg),
                isAcyclic = acyc, rootIntegrity = rootOk, dependenciesValid = depsOk,
                reachability = s_reachability st, v_maxDepth = s_maxDepth st,
                v_maxBranchingFactor = s_maxBranchingFactor st,
                complexityScore = s_complexityScore st, errors = e1 @ e2 @ e3 @ e4\<rparr>)"

section \<open>The dependency relation\<close>

definition plan_edge :: "(string, plan_node) jsmap \<Rightarrow> string \<Rightarrow> string \<Rightarrow> bool" where
  "plan_edge ns a b \<longleftrightarrow> (\<exists>node. m_get ns a = Some node \<and> b \<in> set (dependencies node))"

section \<open>The cycle search is exact\<close>

text \<open>
  \<open>finished\<close> nodes are visited and no longer on the stack: they are closed under dependencies
  and lie on no cycle.
\<close>

definition settled :: "(string, plan_node) jsmap \<Rightarrow> string set \<Rightarrow> bool" where
  "settled ns F \<longleftrightarrow> (\<forall>x \<in> F. (\<forall>y. plan_edge ns x y \<longrightarrow> y \<in> F) \<and> \<not> (plan_edge ns)\<^sup>+\<^sup>+ x x)"

definition search_inv :: "(string, plan_node) jsmap \<Rightarrow> string list \<times> string list \<Rightarrow> bool" where
  "search_inv ns st \<longleftrightarrow> set (snd st) \<subseteq> set (fst st)
     \<and> settled ns (set (fst st) - set (snd st))"

definition search_post :: "(string, plan_node) jsmap \<Rightarrow> string list \<times> string list
    \<Rightarrow> string list \<Rightarrow> (bool \<times> string list \<times> string list) option \<Rightarrow> bool" where
  "search_post ns st goals r = (case r of
     None \<Rightarrow> False
   | Some (True, _) \<Rightarrow> \<exists>x. (plan_edge ns)\<^sup>+\<^sup>+ x x
   | Some (False, st') \<Rightarrow> search_inv ns st' \<and> set (fst st) \<subseteq> set (fst st') \<and> set (snd st') = set (snd st)
       \<and> set goals \<subseteq> set (fst st') - set (snd st'))"

definition unvisited :: "(string, plan_node) jsmap \<Rightarrow> string list \<times> string list \<Rightarrow> nat" where
  "unvisited ns st = card (set (m_keys ns) - set (fst st))"

lemma closed_reach:
  assumes "(plan_edge ns)\<^sup>*\<^sup>* x y" and "x \<in> F" and "\<And>u v. u \<in> F \<Longrightarrow> plan_edge ns u v \<Longrightarrow> v \<in> F"
  shows "y \<in> F"
  using assms by (induction rule: rtranclp_induct) auto

lemma unvisited_mono: "set (fst st) \<subseteq> set (fst st') \<Longrightarrow> unvisited ns st' \<le> unvisited ns st"
  unfolding unvisited_def by (intro card_mono) auto

lemma push_inv:
  assumes "search_inv ns (V, S)" and "i \<notin> set V"
  shows "search_inv ns (i # V, i # S)"
proof -
  have "set (i # V) - set (i # S) = set V - set S" using assms by (auto simp: search_inv_def)
  moreover have "set (i # S) \<subseteq> set (i # V)" using assms(1) by (auto simp: search_inv_def)
  ultimately show ?thesis using assms(1) by (simp add: search_inv_def)
qed

lemma pop_inv:
  assumes inv: "search_inv ns (V', S')" and "i \<in> set V'" and "i \<in> set S'"
    and succs: "\<And>y. plan_edge ns i y \<Longrightarrow> y \<in> set V' - set S'"
  shows "search_inv ns (V', removeAll i S')"
proof -
  let ?F = "set V' - set S'"
  have F: "\<And>u v. u \<in> ?F \<Longrightarrow> plan_edge ns u v \<Longrightarrow> v \<in> ?F" "\<And>u. u \<in> ?F \<Longrightarrow> \<not> (plan_edge ns)\<^sup>+\<^sup>+ u u"
    using inv unfolding search_inv_def fst_conv snd_conv settled_def by blast+
  have new: "set V' - set (removeAll i S') = insert i ?F" using assms(2,3) by auto
  have "\<not> (plan_edge ns)\<^sup>+\<^sup>+ i i"
  proof
    assume "(plan_edge ns)\<^sup>+\<^sup>+ i i"
    then obtain y where y: "plan_edge ns i y" "(plan_edge ns)\<^sup>*\<^sup>* y i" by (meson tranclpD)
    have "i \<in> ?F" by (rule closed_reach [OF y(2) succs [OF y(1)]]) (rule F(1))
    with assms(3) show False by blast
  qed
  then have "settled ns (insert i ?F)" using F succs unfolding settled_def by blast
  moreover have "set (removeAll i S') \<subseteq> set V'" using inv by (auto simp: search_inv_def)
  ultimately show ?thesis unfolding search_inv_def fst_conv snd_conv new by simp
qed

lemma search_correct:
  "search_inv ns (V, S) \<Longrightarrow> i \<notin> set V \<Longrightarrow> \<forall>s \<in> set S. (plan_edge ns)\<^sup>+\<^sup>+ s i
    \<Longrightarrow> unvisited ns (V, S) + 1 \<le> n \<Longrightarrow> search_post ns (V, S) [i] (hasCycle n ns i (V, S))"
  "search_inv ns (V, S) \<Longrightarrow> \<forall>s \<in> set S. \<forall>d \<in> set ds. (plan_edge ns)\<^sup>+\<^sup>+ s d
    \<Longrightarrow> unvisited ns (V, S) + 1 \<le> n \<Longrightarrow> search_post ns (V, S) ds (visit_deps n ns ds (V, S))"
proof (induction n ns i "(V, S)" and n ns ds "(V, S)" arbitrary: V S and V S
    rule: hasCycle_visit_deps.induct)
  case (1 ns i)
  then show ?case by simp
next
  case (2 n ns i V S)
  have S: "set S \<subseteq> set V" using 2(2) by (simp add: search_inv_def)
  have inv: "search_inv ns (i # V, i # S)" by (rule push_inv [OF 2(2,3)])
  show ?case
  proof (cases "m_get ns i")
    case None
    then have "\<not> plan_edge ns i y" for y by (simp add: plan_edge_def)
    then have "search_inv ns (i # V, removeAll i (i # S))" by (intro pop_inv [OF inv]) auto
    with None S 2(3) show ?thesis by (auto simp: search_post_def Let_def)
  next
    case (Some node)
    have edge: "plan_edge ns i y \<longleftrightarrow> y \<in> set (dependencies node)" for y
      using Some by (simp add: plan_edge_def)
    have "i \<in> set (m_keys ns)" using Some by (metis m_has_def m_has_iff option.distinct(1))
    then have "set (m_keys ns) - set (i # V) \<subset> set (m_keys ns) - set V" using 2(3) by auto
    then have "unvisited ns (i # V, i # S) < unvisited ns (V, S)"
      unfolding unvisited_def fst_conv by (intro psubset_card_mono) auto
    moreover have "\<forall>s \<in> set (i # S). \<forall>d \<in> set (dependencies node). (plan_edge ns)\<^sup>+\<^sup>+ s d"
      using 2(4) edge by (auto intro: tranclp.trancl_into_trancl)
    ultimately have post: "search_post ns (i # V, i # S) (dependencies node)
        (visit_deps n ns (dependencies node) (i # V, i # S))"
      using 2(1) [OF refl Some inv] 2(5) by simp
    then obtain b V' S' where r: "visit_deps n ns (dependencies node) (i # V, i # S) = Some (b, V', S')"
      by (cases "visit_deps n ns (dependencies node) (i # V, i # S)") (auto simp: search_post_def)
    show ?thesis
    proof (cases b)
      case True
      with post r Some show ?thesis by (simp add: search_post_def Let_def)
    next
      case False
      with post r have f: "search_inv ns (V', S')" "insert i (set V) \<subseteq> set V'" "set S' = insert i (set S)"
        "set (dependencies node) \<subseteq> set V' - set S'" by (auto simp: search_post_def)
      have "search_inv ns (V', removeAll i S')"
        using f edge by (intro pop_inv [OF f(1)]) auto
      with f False r Some S 2(3) show ?thesis by (auto simp: search_post_def Let_def)
    qed
  qed
next
  case (3 n ns V S)
  then show ?case by (simp add: search_post_def)
next
  case (4 n ns d ds V S)
  show ?case
  proof (cases "d \<in> set V")
    case False
    have post: "search_post ns (V, S) [d] (hasCycle n ns d (V, S))"
      using 4(1) [OF False 4(4) False] 4(5,6) by simp
    then obtain b V' S' where r: "hasCycle n ns d (V, S) = Some (b, V', S')"
      by (cases "hasCycle n ns d (V, S)") (auto simp: search_post_def)
    show ?thesis
    proof (cases b)
      case True
      with post r False show ?thesis by (simp add: search_post_def)
    next
      case b: False
      with post r have f: "search_inv ns (V', S')" "set V \<subseteq> set V'" "set S' = set S" "d \<in> set V' - set S'"
        by (auto simp: search_post_def)
      have "unvisited ns (V', S') + 1 \<le> n" using unvisited_mono [of "(V, S)" "(V', S')" ns] f(2) 4(6) by simp
      then have "search_post ns (V', S') ds (visit_deps n ns ds (V', S'))"
        using 4(2) [OF False r _ _ f(1)] b f(3) 4(5) by simp
      with False r b f show ?thesis by (auto simp: search_post_def split: option.splits bool.splits)
    qed
  next
    case True
    show ?thesis
    proof (cases "d \<in> set S")
      case S: True
      with True 4(5) show ?thesis by (auto simp: search_post_def)
    next
      case S: False
      with 4(3) [OF _ S 4(4)] True 4(5,6) have "search_post ns (V, S) ds (visit_deps n ns ds (V, S))" by simp
      with True S show ?thesis by (auto simp: search_post_def split: option.splits bool.splits)
    qed
  qed
qed


lemma acyclic_from_correct:
  assumes "search_inv ns (V, [])" and "unvisited ns (V, []) + 1 \<le> n"
  shows "\<exists>ok. acyclic_from n ns is (V, []) = Some ok
    \<and> (if ok then (\<forall>x \<in> set is \<union> set V. \<not> (plan_edge ns)\<^sup>+\<^sup>+ x x) else (\<exists>x. (plan_edge ns)\<^sup>+\<^sup>+ x x))"
  using assms
proof (induction "is" arbitrary: V)
  case Nil
  then show ?case by (auto simp: search_inv_def settled_def)
next
  case (Cons i ids)
  show ?case
  proof (cases "i \<in> set V")
    case True
    then have same: "set (i # ids) \<union> set V = set ids \<union> set V" by auto
    obtain ok where "acyclic_from n ns ids (V, []) = Some ok"
      "if ok then (\<forall>x \<in> set ids \<union> set V. \<not> (plan_edge ns)\<^sup>+\<^sup>+ x x) else (\<exists>x. (plan_edge ns)\<^sup>+\<^sup>+ x x)"
      using Cons.IH [OF Cons.prems] by blast
    then show ?thesis unfolding same using True by (intro exI [of _ ok] conjI) simp_all
  next
    case False
    have post: "search_post ns (V, []) [i] (hasCycle n ns i (V, []))"
      by (rule search_correct(1) [OF Cons.prems(1) False _ Cons.prems(2)]) simp
    then obtain b V' S' where r: "hasCycle n ns i (V, []) = Some (b, V', S')"
      by (cases "hasCycle n ns i (V, [])") (auto simp: search_post_def)
    show ?thesis
    proof (cases b)
      case True
      with post r False show ?thesis by (intro exI [of _ False]) (simp add: search_post_def)
    next
      case b: False
      with post r have f: "search_inv ns (V', S')" "set V \<subseteq> set V'" "S' = []" "i \<in> set V'"
        by (auto simp: search_post_def)
      have "unvisited ns (V', []) + 1 \<le> n"
        using unvisited_mono [of "(V, [])" "(V', [])" ns] f(2) Cons.prems(2) by simp
      from Cons.IH [OF f(1) [unfolded f(3)] this] obtain ok where ok: "acyclic_from n ns ids (V', []) = Some ok"
        "if ok then (\<forall>x \<in> set ids \<union> set V'. \<not> (plan_edge ns)\<^sup>+\<^sup>+ x x) else (\<exists>x. (plan_edge ns)\<^sup>+\<^sup>+ x x)" by blast
      have "acyclic_from n ns (i # ids) (V, []) = Some ok" using False r b f(3) ok(1) by simp
      moreover have "if ok then (\<forall>x \<in> set (i # ids) \<union> set V. \<not> (plan_edge ns)\<^sup>+\<^sup>+ x x) else (\<exists>x. (plan_edge ns)\<^sup>+\<^sup>+ x x)"
        using ok(2) f(2,4) by (cases ok) (auto simp del: Un_iff)
      ultimately show ?thesis by blast
    qed
  qed
qed

lemma checkAcyclic_correct:
  "\<exists>ok es. checkAcyclic dag = Some (ok, es) \<and> (ok \<longleftrightarrow> (\<forall>x. \<not> (plan_edge (plan_nodes dag))\<^sup>+\<^sup>+ x x))"
proof -
  let ?ns = "plan_nodes dag"
  have "unvisited ?ns ([], []) + 1 \<le> length ?ns + 1"
    using card_length [of "m_keys ?ns"] by (simp add: unvisited_def)
  moreover have "search_inv ?ns ([], [])" by (simp add: search_inv_def settled_def)
  ultimately obtain ok where ok: "acyclic_from (length ?ns + 1) ?ns (m_keys ?ns) ([], []) = Some ok"
    "if ok then (\<forall>x \<in> set (m_keys ?ns). \<not> (plan_edge ?ns)\<^sup>+\<^sup>+ x x) else (\<exists>x. (plan_edge ?ns)\<^sup>+\<^sup>+ x x)"
    using acyclic_from_correct [of ?ns "[]" "length ?ns + 1" "m_keys ?ns"]
    by (simp only: list.set(1) Un_empty_right) blast
  have "x \<in> set (m_keys ?ns)" if "(plan_edge ?ns)\<^sup>+\<^sup>+ x x" for x
    using tranclpD [OF that] by (metis m_has_def m_has_iff option.distinct(1) plan_edge_def)
  then have "ok \<longleftrightarrow> (\<forall>x. \<not> (plan_edge ?ns)\<^sup>+\<^sup>+ x x)" using ok(2) by (cases ok) (simp_all only: if_True if_False, blast+)
  with ok(1) show ?thesis by (simp add: checkAcyclic_def Let_def)
qed

section \<open>The breadth-first search\<close>

definition bfs_universe :: "(string, plan_node) jsmap \<Rightarrow> string \<Rightarrow> string set" where
  "bfs_universe ns start = insert start (\<Union>(_, node) \<in> set ns. set (dependencies node))"

definition bfs_inv :: "(string, plan_node) jsmap \<Rightarrow> string \<Rightarrow> bfs \<Rightarrow> bool" where
  "bfs_inv ns start s \<longleftrightarrow> distinct (reachable s) \<and> start \<in> set (reachable s)
     \<and> set (reachable s) \<subseteq> bfs_universe ns start \<and> (\<forall>x \<in> set (reachable s). (plan_edge ns)\<^sup>*\<^sup>* start x)
     \<and> set (queue s) \<subseteq> set (reachable s)
     \<and> (\<forall>x \<in> set (reachable s) - set (queue s). \<forall>y. plan_edge ns x y \<longrightarrow> y \<in> set (reachable s))"

definition bfs_work :: "(string, plan_node) jsmap \<Rightarrow> string \<Rightarrow> bfs \<Rightarrow> nat" where
  "bfs_work ns start s = card (bfs_universe ns start - set (reachable s)) + length (queue s)"

lemma finite_universe: "finite (bfs_universe ns start)"
  by (auto simp: bfs_universe_def)

lemma discover_fold:
  assumes "distinct (reachable s)" and "set ds \<subseteq> U" and "set (reachable s) \<subseteq> U" and "finite U"
  shows "\<exists>new. reachable (fold (discover k) ds s) = reachable s @ new \<and> queue (fold (discover k) ds s) = queue s @ new
    \<and> distinct (reachable s @ new) \<and> set new \<subseteq> set ds \<and> set ds \<subseteq> set (reachable s @ new)
    \<and> card (U - set (reachable s @ new)) + length new = card (U - set (reachable s))"
  using assms
proof (induction ds arbitrary: s)
  case (Cons d ds)
  show ?case
  proof (cases "d \<in> set (reachable s)")
    case True
    with Cons.IH [of s] Cons.prems show ?thesis by (auto simp: discover_def)
  next
    case False
    let ?s = "discover k d s"
    have s: "reachable ?s = reachable s @ [d]" "queue ?s = queue s @ [d]" using False by (simp_all add: discover_def)
    obtain new where new: "reachable (fold (discover k) ds ?s) = reachable ?s @ new"
      "queue (fold (discover k) ds ?s) = queue ?s @ new" "distinct (reachable ?s @ new)" "set new \<subseteq> set ds"
      "set ds \<subseteq> set (reachable ?s @ new)"
      "card (U - set (reachable ?s @ new)) + length new = card (U - set (reachable ?s))"
    proof -
      have "distinct (reachable ?s)" "set ds \<subseteq> U" "set (reachable ?s) \<subseteq> U"
        using Cons.prems(1-3) False s by simp_all
      from Cons.IH [OF this Cons.prems(4)] that show thesis by blast
    qed
    have eq: "U - set (reachable s) = insert d (U - set (reachable ?s))" using Cons.prems(2) False s by auto
    have "card (U - set (reachable s)) = Suc (card (U - set (reachable ?s)))"
      unfolding eq by (rule card_insert_disjoint) (use Cons.prems(4) s in simp_all)
    moreover have "set (d # new) \<subseteq> set (d # ds)" "set (d # ds) \<subseteq> set (reachable s @ d # new)"
      using new(4,5) s by auto
    moreover have "distinct (reachable s @ d # new)" using new(3) s by simp
    moreover have "card (U - set (reachable s @ d # new)) + length new = card (U - set (reachable ?s))"
      using new(6) by (simp only: s append_assoc append_Cons append_Nil)
    moreover have "reachable (fold (discover k) (d # ds) s) = reachable s @ d # new"
      "queue (fold (discover k) (d # ds) s) = queue s @ d # new"
      using new(1,2) s by simp_all
    moreover have "card (U - set (reachable s @ d # new)) + length (d # new) = card (U - set (reachable s))"
      using calculation(1,5) by simp
    ultimately show ?thesis by blast
  qed
qed simp

lemma bfs_visit_step:
  assumes inv: "bfs_inv ns start s" and q: "queue s = i # rest"
  shows "bfs_inv ns start (bfs_visit ns i (s\<lparr>queue := rest\<rparr>))"
    and "bfs_work ns start (bfs_visit ns i (s\<lparr>queue := rest\<rparr>)) < bfs_work ns start s"
proof -
  let ?s = "s\<lparr>queue := rest, bfs_depth := max (bfs_depth s) (the (m_get (depthMap s) i))\<rparr>"
  let ?ds = "case m_get ns i of None \<Rightarrow> [] | Some node \<Rightarrow> dependencies node"
  have visit: "bfs_visit ns i (s\<lparr>queue := rest\<rparr>) = fold (discover (the (m_get (depthMap s) i))) ?ds ?s"
    by (simp add: bfs_visit_def Let_def split: option.split)
  have edge: "plan_edge ns i y \<longleftrightarrow> y \<in> set ?ds" for y
    by (cases "m_get ns i") (simp_all add: plan_edge_def)
  have sub: "set ?ds \<subseteq> bfs_universe ns start"
  proof (cases "m_get ns i")
    case (Some node)
    then have "(i, node) \<in> set ns" by (rule map_of_SomeD)
    then show ?thesis using Some by (force simp: bfs_universe_def)
  qed simp
  obtain new where new: "reachable (bfs_visit ns i (s\<lparr>queue := rest\<rparr>)) = reachable s @ new"
    "queue (bfs_visit ns i (s\<lparr>queue := rest\<rparr>)) = rest @ new" "distinct (reachable s @ new)" "set new \<subseteq> set ?ds"
    "set ?ds \<subseteq> set (reachable s @ new)"
    "card (bfs_universe ns start - set (reachable s @ new)) + length new = card (bfs_universe ns start - set (reachable s))"
    using discover_fold [of ?s ?ds "bfs_universe ns start" "the (m_get (depthMap s) i)"] inv sub finite_universe
    unfolding visit by (auto simp: bfs_inv_def)
  have i: "(plan_edge ns)\<^sup>*\<^sup>* start i" using inv q by (simp add: bfs_inv_def)
  have "(plan_edge ns)\<^sup>*\<^sup>* start x" if "x \<in> set new" for x
    using i edge new(4) that by (meson rtranclp.rtrancl_into_rtrancl subsetD)
  then have "\<forall>x \<in> set (reachable s @ new). (plan_edge ns)\<^sup>*\<^sup>* start x" using inv by (auto simp: bfs_inv_def)
  moreover have "set (rest @ new) \<subseteq> set (reachable s @ new)" using inv q by (auto simp: bfs_inv_def)
  moreover have "set (reachable s @ new) \<subseteq> bfs_universe ns start" using inv new(4) sub by (auto simp: bfs_inv_def)
  moreover have "y \<in> set (reachable s @ new)"
    if "x \<in> set (reachable s @ new) - set (rest @ new)" "plan_edge ns x y" for x y
  proof (cases "x = i")
    case True
    with that(2) edge new(5) show ?thesis by blast
  next
    case False
    with that(1) q have "x \<in> set (reachable s) - set (queue s)" by auto
    with inv that(2) show ?thesis by (auto simp: bfs_inv_def)
  qed
  moreover have "start \<in> set (reachable s @ new)" using inv by (simp add: bfs_inv_def)
  ultimately show "bfs_inv ns start (bfs_visit ns i (s\<lparr>queue := rest\<rparr>))"
    using new(3) unfolding bfs_inv_def new(1,2) by blast
  show "bfs_work ns start (bfs_visit ns i (s\<lparr>queue := rest\<rparr>)) < bfs_work ns start s"
    using new(6) by (simp add: bfs_work_def new(1,2) q)
qed

lemma bfs_loop_correct:
  assumes "bfs_inv ns start s" and "bfs_work ns start s \<le> fuel"
  shows "\<exists>s'. bfs_loop fuel ns s = Some s' \<and> bfs_inv ns start s' \<and> queue s' = []"
  using assms
proof (induction fuel arbitrary: s)
  case 0
  then have "queue s = []" by (simp add: bfs_work_def)
  with 0 show ?case by (simp add: bfs_loop.simps)
next
  case (Suc n)
  show ?case
  proof (cases "queue s")
    case Nil
    with Suc show ?thesis by (simp add: bfs_loop.simps)
  next
    case (Cons i rest)
    from bfs_visit_step [OF Suc.prems(1) Cons] Suc.IH [of "bfs_visit ns i (s\<lparr>queue := rest\<rparr>)"] Suc.prems(2)
    show ?thesis by (simp add: bfs_loop.simps [of "Suc n"] Cons)
  qed
qed

lemma card_universe: "card (bfs_universe ns start) \<le> totalEdges ns + 1"
proof -
  have "card (\<Union>(_, node) \<in> set ns. set (dependencies node)) \<le> totalEdges ns"
  proof (induction ns)
    case (Cons e ns)
    obtain i node where e: "e = (i, node)" by (cases e)
    have "card (set (dependencies node) \<union> (\<Union>(_, node) \<in> set ns. set (dependencies node)))
        \<le> length (dependencies node) + totalEdges ns"
      using card_Un_le [of "set (dependencies node)" "\<Union>(_, node) \<in> set ns. set (dependencies node)"]
        card_length [of "dependencies node"] Cons by linarith
    then show ?case by (simp add: e totalEdges_def)
  qed (simp add: totalEdges_def)
  then show ?thesis using card_insert_le_m1 [of "totalEdges ns + 1" _ start]
    unfolding bfs_universe_def by simp
qed

definition initial_bfs :: "string \<Rightarrow> bfs" where
  "initial_bfs start = \<lparr>reachable = [start], depthMap = [(start, 1)], queue = [start], bfs_depth = 0\<rparr>"

lemma bfs_correct:
  obtains s where "bfs_loop (totalEdges ns + 1) ns (initial_bfs start) = Some s"
    "distinct (reachable s)" "set (reachable s) = {x. (plan_edge ns)\<^sup>*\<^sup>* start x}"
proof -
  have inv: "bfs_inv ns start (initial_bfs start)"
    by (auto simp: bfs_inv_def initial_bfs_def bfs_universe_def)
  have "card (bfs_universe ns start - {start}) = card (bfs_universe ns start) - 1"
    by (rule card_Diff_singleton) (simp add: bfs_universe_def)
  then have "bfs_work ns start (initial_bfs start) \<le> totalEdges ns + 1"
    using card_universe [of ns start] by (simp add: bfs_work_def initial_bfs_def)
  from bfs_loop_correct [OF inv this] obtain s where s: "bfs_loop (totalEdges ns + 1) ns (initial_bfs start) = Some s"
    "bfs_inv ns start s" "queue s = []" by blast
  have closed: "\<And>u v. u \<in> set (reachable s) \<Longrightarrow> plan_edge ns u v \<Longrightarrow> v \<in> set (reachable s)"
    and start: "start \<in> set (reachable s)" and sound: "\<And>x. x \<in> set (reachable s) \<Longrightarrow> (plan_edge ns)\<^sup>*\<^sup>* start x"
    and dist: "distinct (reachable s)"
    using s(2,3) by (auto simp: bfs_inv_def)
  have "x \<in> set (reachable s)" if "(plan_edge ns)\<^sup>*\<^sup>* start x" for x
    by (rule closed_reach [OF that start closed])
  with sound that [OF s(1) dist] show thesis by blast
qed

lemma analyzeStructure_correct:
  obtains st where "analyzeStructure cfg dag = Some st"
    "s_reachability st = (if plan_nodes dag = [] then 1
       else of_nat (card {x. (plan_edge (plan_nodes dag))\<^sup>*\<^sup>* (root_id dag) x}) / of_nat (length (plan_nodes dag)))"
    "s_maxBranchingFactor st = maxBranching (plan_nodes dag)"
proof (rule bfs_correct [of "plan_nodes dag" "root_id dag"])
  fix s assume s: "bfs_loop (totalEdges (plan_nodes dag) + 1) (plan_nodes dag) (initial_bfs (root_id dag)) = Some s"
    "distinct (reachable s)" "set (reachable s) = {x. (plan_edge (plan_nodes dag))\<^sup>*\<^sup>* (root_id dag) x}"
  have "length (reachable s) = card {x. (plan_edge (plan_nodes dag))\<^sup>*\<^sup>* (root_id dag) x}"
    using s(2,3) distinct_card by metis
  with s(1) show thesis
    by (intro that) (simp add: analyzeStructure_def Let_def initial_bfs_def, simp_all)
qed

lemma maxBranching_le: "maxBranching ns \<le> b \<longleftrightarrow> (\<forall>(i, node) \<in> set ns. length (dependencies node) \<le> b)"
proof -
  have "fold (\<lambda>(_, node) m. max m (length (dependencies node))) ns m \<le> b
      \<longleftrightarrow> m \<le> b \<and> (\<forall>(i, node) \<in> set ns. length (dependencies node) \<le> b)" for m
    by (induction ns arbitrary: m) auto
  then show ?thesis by (simp add: maxBranching_def)
qed

lemma validateDependenciesExist_correct:
  assumes "m_wf (plan_nodes dag)"
  shows "fst (validateDependenciesExist dag) \<longleftrightarrow>
    (\<forall>x y. plan_edge (plan_nodes dag) x y \<longrightarrow> m_has (plan_nodes dag) y)"
    and "fst (validateDependenciesExist dag) \<longleftrightarrow> snd (validateDependenciesExist dag) = []"
proof -
  have "fst (validateDependenciesExist dag) \<longleftrightarrow>
      (\<forall>(i, node) \<in> set (plan_nodes dag). \<forall>d \<in> set (dependencies node). m_has (plan_nodes dag) d)"
    by (auto simp: validateDependenciesExist_def Let_def filter_empty_conv)
  also have "\<dots> \<longleftrightarrow> (\<forall>x y. plan_edge (plan_nodes dag) x y \<longrightarrow> m_has (plan_nodes dag) y)"
    unfolding plan_edge_def m_get_iff [OF assms] by fast
  finally show "fst (validateDependenciesExist dag) \<longleftrightarrow>
    (\<forall>x y. plan_edge (plan_nodes dag) x y \<longrightarrow> m_has (plan_nodes dag) y)" .
  show "fst (validateDependenciesExist dag) \<longleftrightarrow> snd (validateDependenciesExist dag) = []"
    by (simp add: validateDependenciesExist_def Let_def)
qed

lemma validateRoot_correct:
  assumes "m_wf (plan_nodes dag)"
  shows "fst (validateRoot dag) \<longleftrightarrow> root_id dag \<noteq> [] \<and> m_has (plan_nodes dag) (root_id dag)
    \<and> (\<forall>x. plan_edge (plan_nodes dag) x (root_id dag) \<longrightarrow> x = root_id dag)"
    and "fst (validateRoot dag) \<longleftrightarrow> snd (validateRoot dag) = []"
proof -
  let ?f = "find (\<lambda>(i, node). i \<noteq> root_id dag \<and> root_id dag \<in> set (dependencies node)) (plan_nodes dag)"
  have "?f = None \<longleftrightarrow> (\<forall>x. plan_edge (plan_nodes dag) x (root_id dag) \<longrightarrow> x = root_id dag)"
    unfolding find_None_all plan_edge_def using m_get_iff [OF assms] by fastforce
  then show "fst (validateRoot dag) \<longleftrightarrow> root_id dag \<noteq> [] \<and> m_has (plan_nodes dag) (root_id dag)
    \<and> (\<forall>x. plan_edge (plan_nodes dag) x (root_id dag) \<longrightarrow> x = root_id dag)"
    by (cases ?f) (auto simp: validateRoot_def)
  show "fst (validateRoot dag) \<longleftrightarrow> snd (validateRoot dag) = []"
    by (cases ?f) (auto simp: validateRoot_def)
qed

lemma reach_keys:
  assumes "m_wf ns" and "m_has ns start" and "\<And>x y. plan_edge ns x y \<Longrightarrow> m_has ns y"
  shows "card {x. (plan_edge ns)\<^sup>*\<^sup>* start x} \<le> length ns"
    and "card {x. (plan_edge ns)\<^sup>*\<^sup>* start x} = length ns \<longleftrightarrow> (\<forall>x. m_has ns x \<longrightarrow> (plan_edge ns)\<^sup>*\<^sup>* start x)"
proof -
  have "m_has ns x" if "(plan_edge ns)\<^sup>*\<^sup>* start x" for x
    using that assms(2,3) by (induction rule: rtranclp_induct) auto
  then have sub: "{x. (plan_edge ns)\<^sup>*\<^sup>* start x} \<subseteq> set (m_keys ns)" using m_has_iff by fast
  have keys: "card (set (m_keys ns)) = length ns" using assms(1) distinct_card by (fastforce simp: m_wf_def)
  show "card {x. (plan_edge ns)\<^sup>*\<^sup>* start x} \<le> length ns"
    using card_mono [OF _ sub] keys by simp
  show "card {x. (plan_edge ns)\<^sup>*\<^sup>* start x} = length ns \<longleftrightarrow> (\<forall>x. m_has ns x \<longrightarrow> (plan_edge ns)\<^sup>*\<^sup>* start x)"
  proof
    assume "card {x. (plan_edge ns)\<^sup>*\<^sup>* start x} = length ns"
    then have "{x. (plan_edge ns)\<^sup>*\<^sup>* start x} = set (m_keys ns)"
      by (intro card_subset_eq) (use sub keys in simp_all)
    then show "\<forall>x. m_has ns x \<longrightarrow> (plan_edge ns)\<^sup>*\<^sup>* start x" using m_has_iff by fast
  next
    assume "\<forall>x. m_has ns x \<longrightarrow> (plan_edge ns)\<^sup>*\<^sup>* start x"
    then have "{x. (plan_edge ns)\<^sup>*\<^sup>* start x} = set (m_keys ns)" using sub m_has_iff by fast
    then show "card {x. (plan_edge ns)\<^sup>*\<^sup>* start x} = length ns" using keys by simp
  qed
qed

lemma validity_glue:
  assumes "v \<longleftrightarrow> fa \<and> fb \<and> ok \<and> q \<and> m \<and> b \<and> x" and "fa \<longleftrightarrow> R \<and> H \<and> N'" and "fb \<longleftrightarrow> D"
    and "ok \<longleftrightarrow> C" and "H \<Longrightarrow> D \<Longrightarrow> q \<longleftrightarrow> Q" and "C \<Longrightarrow> N' \<longleftrightarrow> N" and "b \<longleftrightarrow> B"
  shows "v \<longleftrightarrow> R \<and> H \<and> N \<and> D \<and> C \<and> Q \<and> m \<and> B \<and> x"
  using assms by blast

lemma errors_glue:
  fixes q :: rat and d d' b b' :: nat and x x' :: rat
  assumes "fa \<Longrightarrow> fb \<Longrightarrow> q \<le> 1" and "v \<longleftrightarrow> fa \<and> fb \<and> ok \<and> q = 1 \<and> d \<le> d' \<and> b \<le> b' \<and> x \<le> x'"
    and "e \<longleftrightarrow> fa \<and> fb \<and> ok \<and> \<not> q < 1 \<and> \<not> d' < d \<and> \<not> b' < b \<and> \<not> x' < x"
  shows "v \<longleftrightarrow> e"
  using assms by auto

section \<open>Properties\<close>

text \<open>
  C34. What a valid plan is: validation always returns, and it accepts a plan exactly when the root
  exists, no node depends on it, every dependency exists, the graph is acyclic, every node is reached
  from the root, and the depth, branching and complexity limits hold.
\<close>

theorem validate_iff:
  assumes "m_wf (plan_nodes dag)"
  shows "\<exists>v. validate cfg dag = Some v \<and> (isValid v \<longleftrightarrow>
      root_id dag \<noteq> [] \<and> m_has (plan_nodes dag) (root_id dag)
    \<and> (\<forall>x. \<not> plan_edge (plan_nodes dag) x (root_id dag))
    \<and> (\<forall>x y. plan_edge (plan_nodes dag) x y \<longrightarrow> m_has (plan_nodes dag) y)
    \<and> (\<forall>x. \<not> (plan_edge (plan_nodes dag))\<^sup>+\<^sup>+ x x)
    \<and> (\<forall>x. m_has (plan_nodes dag) x \<longrightarrow> (plan_edge (plan_nodes dag))\<^sup>*\<^sup>* (root_id dag) x)
    \<and> v_maxDepth v \<le> maxDepth cfg
    \<and> (\<forall>(i, node) \<in> set (plan_nodes dag). length (dependencies node) \<le> maxBranchingFactor cfg)
    \<and> complexityScore v \<le> maxComplexity cfg)"
proof -
  let ?ns = "plan_nodes dag" and ?r = "root_id dag"
  obtain ok es where ac: "checkAcyclic dag = Some (ok, es)" "ok \<longleftrightarrow> (\<forall>x. \<not> (plan_edge ?ns)\<^sup>+\<^sup>+ x x)"
    using checkAcyclic_correct by blast
  obtain st where st: "analyzeStructure cfg dag = Some st"
    "s_reachability st = (if ?ns = [] then 1
       else of_nat (card {x. (plan_edge ?ns)\<^sup>*\<^sup>* ?r x}) / of_nat (length ?ns))"
    "s_maxBranchingFactor st = maxBranching ?ns" by (rule analyzeStructure_correct)
  obtain v where v: "validate cfg dag = Some v"
    "isValid v = (fst (validateRoot dag) \<and> fst (validateDependenciesExist dag) \<and> ok \<and> s_reachability st = 1
      \<and> s_maxDepth st \<le> maxDepth cfg \<and> maxBranching ?ns \<le> maxBranchingFactor cfg
      \<and> s_complexityScore st \<le> maxComplexity cfg)"
    "v_maxDepth v = s_maxDepth st" "complexityScore v = s_complexityScore st"
    by (simp add: validate_def ac(1) st(1,3) Let_def split_beta)
  have reach: "s_reachability st = 1 \<longleftrightarrow> (\<forall>x. m_has ?ns x \<longrightarrow> (plan_edge ?ns)\<^sup>*\<^sup>* ?r x)"
    if "m_has ?ns ?r" "\<forall>x y. plan_edge ?ns x y \<longrightarrow> m_has ?ns y"
  proof -
    have "?ns \<noteq> []" using that(1) by (auto simp: m_has_def)
    then have "s_reachability st = 1 \<longleftrightarrow> card {x. (plan_edge ?ns)\<^sup>*\<^sup>* ?r x} = length ?ns"
      by (auto simp: st(2))
    with reach_keys(2) [OF assms that(1)] that(2) show ?thesis by blast
  qed
  have self: "(\<forall>x. plan_edge ?ns x ?r \<longrightarrow> x = ?r) \<longleftrightarrow> (\<forall>x. \<not> plan_edge ?ns x ?r)"
    if "\<forall>x. \<not> (plan_edge ?ns)\<^sup>+\<^sup>+ x x" using that by blast
  show ?thesis
  proof (intro exI [of _ v] conjI v(1))
    show "isValid v \<longleftrightarrow> ?r \<noteq> [] \<and> m_has ?ns ?r \<and> (\<forall>x. \<not> plan_edge ?ns x ?r)
      \<and> (\<forall>x y. plan_edge ?ns x y \<longrightarrow> m_has ?ns y) \<and> (\<forall>x. \<not> (plan_edge ?ns)\<^sup>+\<^sup>+ x x)
      \<and> (\<forall>x. m_has ?ns x \<longrightarrow> (plan_edge ?ns)\<^sup>*\<^sup>* ?r x) \<and> v_maxDepth v \<le> maxDepth cfg
      \<and> (\<forall>(i, node) \<in> set ?ns. length (dependencies node) \<le> maxBranchingFactor cfg)
      \<and> complexityScore v \<le> maxComplexity cfg"
      unfolding v(3,4)
      by (rule validity_glue [OF v(2) validateRoot_correct(1) [OF assms]
          validateDependenciesExist_correct(1) [OF assms] ac(2) reach self maxBranching_le])
  qed
qed

text \<open>
  The error list is complete: a plan is valid exactly when validation reports no error, so every
  rejected plan comes with a reason.
\<close>

theorem valid_iff_no_errors:
  assumes "m_wf (plan_nodes dag)" and "validate cfg dag = Some v"
  shows "isValid v \<longleftrightarrow> errors v = []"
proof -
  let ?ns = "plan_nodes dag" and ?r = "root_id dag"
  obtain ok es where ac: "checkAcyclic dag = Some (ok, es)" "es = (if ok then [] else [CircularDependency])"
    using checkAcyclic_correct [of dag] by (auto simp: checkAcyclic_def Let_def)
  obtain st where st: "analyzeStructure cfg dag = Some st"
    "s_reachability st = (if ?ns = [] then 1
       else of_nat (card {x. (plan_edge ?ns)\<^sup>*\<^sup>* ?r x}) / of_nat (length ?ns))" by (rule analyzeStructure_correct)
  note root = validateRoot_correct [OF assms(1)] and deps = validateDependenciesExist_correct [OF assms(1)]
  have "s_reachability st \<le> 1" if "fst (validateRoot dag)" "fst (validateDependenciesExist dag)"
  proof -
    have "m_has ?ns ?r" "\<And>x y. plan_edge ?ns x y \<Longrightarrow> m_has ?ns y" using that root(1) deps(1) by blast+
    from reach_keys(1) [OF assms(1) this] show ?thesis
      by (simp add: st(2) divide_le_eq_1)
  qed
  moreover have "isValid v \<longleftrightarrow> fst (validateRoot dag) \<and> fst (validateDependenciesExist dag) \<and> ok
      \<and> s_reachability st = 1 \<and> s_maxDepth st \<le> maxDepth cfg
      \<and> s_maxBranchingFactor st \<le> maxBranchingFactor cfg \<and> s_complexityScore st \<le> maxComplexity cfg"
    and "errors v = [] \<longleftrightarrow> fst (validateRoot dag) \<and> fst (validateDependenciesExist dag) \<and> ok
      \<and> \<not> s_reachability st < 1 \<and> \<not> maxDepth cfg < s_maxDepth st
      \<and> \<not> maxBranchingFactor cfg < s_maxBranchingFactor st \<and> \<not> maxComplexity cfg < s_complexityScore st"
    using assms(2)
    by (auto simp: validate_def ac st(1) Let_def split_beta root(2) [symmetric] deps(2) [symmetric] split: if_splits)
  ultimately show ?thesis by (rule errors_glue)
qed

text \<open>A two-node plan, for the witnesses.\<close>

definition sample_dag :: plan_dag where
  "sample_dag = \<lparr>root_id = ''goal'', plan_nodes =
     [(''goal'', \<lparr>goal = ''ship'', dependencies = [''build''], risk_tier = None\<rparr>),
      (''build'', \<lparr>goal = ''compile'', dependencies = [], risk_tier = Some safe\<rparr>)]\<rparr>"

lemma sample_wf: "m_wf (plan_nodes sample_dag)"
  by (simp add: m_wf_def sample_dag_def)

lemma sample_valid: "map_option (\<lambda>v. (isValid v, v_maxDepth v)) (validate default_config sample_dag) = Some (True, 2)"
  by code_simp

theorem validate_iff_witness:
  "\<forall>x. \<not> (plan_edge (plan_nodes sample_dag))\<^sup>+\<^sup>+ x x"
proof -
  obtain v where v: "validate default_config sample_dag = Some v" "isValid v"
    using sample_valid by auto
  from validate_iff [OF sample_wf, of default_config] v show ?thesis by auto
qed

theorem valid_iff_no_errors_witness:
  "\<exists>v. validate default_config sample_dag = Some v \<and> errors v = []"
proof -
  obtain v where v: "validate default_config sample_dag = Some v" "isValid v"
    using sample_valid by auto
  with valid_iff_no_errors [OF sample_wf v(1)] show ?thesis by blast
qed

end
