(* ===== verification/Text_Match.thy ===== *)
theory Text_Match
  imports Prelude
begin

text \<open>
  The string operations and regular expressions of ECMAScript that the governance code uses,
  on strings of ASCII text (\<^verbatim>\<open>toLowerCase\<close> maps the ASCII letters only).

  \<open>rx\<close> is the syntax of the patterns in the source: characters, classes, sequence,
  alternatives, greedy repetition, the anchors and the word boundary. Only \<^verbatim>\<open>test\<close> is used
  on them, so greediness and captures do not matter and a pattern is decided by the set of
  positions at which a match can end. \<open>ends\<close> computes these positions; \<open>rmatch\<close> is the
  relation it is proved to decide. A pattern with the flag \<^verbatim>\<open>i\<close> is written in lower case
  and tested on the lower-cased text.
\<close>

section \<open>Strings\<close>

definition lower_char :: "char \<Rightarrow> char" where
  "lower_char c = (let n = of_char c :: nat in if 65 \<le> n \<and> n \<le> 90 then char_of (n + 32) else c)"

definition to_lower :: "string \<Rightarrow> string" where
  "to_lower s = map lower_char s"

fun starts_with :: "string \<Rightarrow> string \<Rightarrow> bool" where
  "starts_with s [] \<longleftrightarrow> True"
| "starts_with [] (p # ps) \<longleftrightarrow> False"
| "starts_with (c # cs) (p # ps) \<longleftrightarrow> c = p \<and> starts_with cs ps"

fun str_includes :: "string \<Rightarrow> string \<Rightarrow> bool" where
  "str_includes [] t \<longleftrightarrow> t = []"
| "str_includes (c # cs) t \<longleftrightarrow> starts_with (c # cs) t \<or> str_includes cs t"

definition word_char :: "char \<Rightarrow> bool" where
  "word_char c = (let n = of_char c :: nat in
     (48 \<le> n \<and> n \<le> 57) \<or> (65 \<le> n \<and> n \<le> 90) \<or> (97 \<le> n \<and> n \<le> 122) \<or> n = 95)"

definition space_char :: "char \<Rightarrow> bool" where
  "space_char c = ((of_char c :: nat) \<in> {9, 10, 11, 12, 13, 32, 160})"

fun trim_left :: "string \<Rightarrow> string" where
  "trim_left [] = []"
| "trim_left (c # cs) = (if space_char c then trim_left cs else c # cs)"

definition trim :: "string \<Rightarrow> string" where
  "trim s = rev (trim_left (rev (trim_left s)))"

text \<open>\<^verbatim>\<open>padStart\<close> with a single character.\<close>

definition pad_start :: "nat \<Rightarrow> char \<Rightarrow> string \<Rightarrow> string" where
  "pad_start n c s = replicate (n - length s) c @ s"

fun join_with :: "string \<Rightarrow> string list \<Rightarrow> string" where
  "join_with sep [] = []"
| "join_with sep [x] = x"
| "join_with sep (x # y # ys) = x @ sep @ join_with sep (y # ys)"

fun split_char :: "char \<Rightarrow> string \<Rightarrow> string list" where
  "split_char d [] = [[]]"
| "split_char d (c # s) = (if c = d then [] # split_char d s
     else (case split_char d s of w # ws \<Rightarrow> (c # w) # ws | [] \<Rightarrow> [[c]]))"

text \<open>\<^verbatim>\<open>text.replace(pattern, replacement)\<close> with a text that is not empty replaces its first occurrence.\<close>

fun replace_text :: "string \<Rightarrow> string \<Rightarrow> string \<Rightarrow> string" where
  "replace_text p r [] = []"
| "replace_text p r (c # s) = (if starts_with (c # s) p then r @ drop (length p) (c # s) else c # replace_text p r s)"

section \<open>Regular expressions\<close>

datatype rx =
    RChar char
  | RSet "char list"
  | RNot "char list"
  | RDot
  | REmpty
  | RSeq rx rx
  | RAlt rx rx
  | RStar rx
  | RStart
  | REnd
  | RWordB

text \<open>A position is the character before it and the text after it.\<close>

type_synonym position = "char option \<times> string"

definition line_break :: "char \<Rightarrow> bool" where
  "line_break c = ((of_char c :: nat) \<in> {10, 13})"

definition at_word_boundary :: "position \<Rightarrow> bool" where
  "at_word_boundary st =
     ((case fst st of None \<Rightarrow> False | Some c \<Rightarrow> word_char c) \<noteq>
      (case snd st of [] \<Rightarrow> False | c # cs \<Rightarrow> word_char c))"

definition one_char :: "(char \<Rightarrow> bool) \<Rightarrow> position \<Rightarrow> position list" where
  "one_char P st = (case snd st of [] \<Rightarrow> [] | c # cs \<Rightarrow> if P c then [(Some c, cs)] else [])"

fun star_ends :: "nat \<Rightarrow> (position \<Rightarrow> position list) \<Rightarrow> position \<Rightarrow> position list" where
  "star_ends 0 f st = [st]"
| "star_ends (Suc n) f st =
     st # concat (map (star_ends n f)
       (filter (\<lambda>st'. length (snd st') < length (snd st)) (f st)))"

fun ends :: "rx \<Rightarrow> position \<Rightarrow> position list" where
  "ends (RChar c) st = one_char (\<lambda>d. d = c) st"
| "ends (RSet cs) st = one_char (\<lambda>d. d \<in> set cs) st"
| "ends (RNot cs) st = one_char (\<lambda>d. d \<notin> set cs) st"
| "ends RDot st = one_char (\<lambda>d. \<not> line_break d) st"
| "ends REmpty st = [st]"
| "ends (RSeq r s) st = concat (map (ends s) (ends r st))"
| "ends (RAlt r s) st = ends r st @ ends s st"
| "ends (RStar r) st = star_ends (length (snd st)) (ends r) st"
| "ends RStart st = (if fst st = None then [st] else [])"
| "ends REnd st = (if snd st = [] then [st] else [])"
| "ends RWordB st = (if at_word_boundary st then [st] else [])"

text \<open>\<^verbatim>\<open>pattern.test(text)\<close> tries every starting position.\<close>

fun rx_search :: "rx \<Rightarrow> char option \<Rightarrow> string \<Rightarrow> bool" where
  "rx_search r prev [] \<longleftrightarrow> ends r (prev, []) \<noteq> []"
| "rx_search r prev (c # cs) \<longleftrightarrow> ends r (prev, c # cs) \<noteq> [] \<or> rx_search r (Some c) cs"

definition rx_test :: "rx \<Rightarrow> string \<Rightarrow> bool" where
  "rx_test r s = rx_search r None s"

definition rx_test_i :: "rx \<Rightarrow> string \<Rightarrow> bool" where
  "rx_test_i r s = rx_test r (to_lower s)"

text \<open>
  \<^verbatim>\<open>text.match(pattern)?.[0]\<close> for a pattern whose longest match from a position is the one ECMAScript takes.
\<close>

fun first_match :: "rx \<Rightarrow> char option \<Rightarrow> string \<Rightarrow> string option" where
  "first_match r prev [] = (if ends r (prev, []) = [] then None else Some [])"
| "first_match r prev (c # cs) =
     (if ends r (prev, c # cs) = [] then first_match r (Some c) cs
      else Some (take (length (c # cs) - Min (set (map (\<lambda>st. length (snd st)) (ends r (prev, c # cs))))) (c # cs)))"

text \<open>The derived forms.\<close>

fun rx_text :: "string \<Rightarrow> rx" where
  "rx_text [] = REmpty"
| "rx_text [c] = RChar c"
| "rx_text (c # d # cs) = RSeq (RChar c) (rx_text (d # cs))"

fun rx_seq :: "rx list \<Rightarrow> rx" where
  "rx_seq [] = REmpty"
| "rx_seq [r] = r"
| "rx_seq (r # s # rs) = RSeq r (rx_seq (s # rs))"

fun rx_alt :: "rx list \<Rightarrow> rx" where
  "rx_alt [] = RSet []"
| "rx_alt [r] = r"
| "rx_alt (r # s # rs) = RAlt r (rx_alt (s # rs))"

definition rx_opt :: "rx \<Rightarrow> rx" where
  "rx_opt r = RAlt r REmpty"

definition rx_plus :: "rx \<Rightarrow> rx" where
  "rx_plus r = RSeq r (RStar r)"

definition rx_words :: "string list \<Rightarrow> rx" where
  "rx_words ws = rx_alt (map rx_text ws)"

definition rx_plural :: "string \<Rightarrow> rx" where
  "rx_plural w = RSeq (rx_text w) (rx_opt (RChar CHR ''s''))"

definition word_chars :: "char list" where
  "word_chars = ''ABCDEFGHIJKLMNOPQRSTUVWXYZabcdefghijklmnopqrstuvwxyz0123456789_''"

definition white :: "char list" where
  "white = map char_of [9, 10, 11, 12, 13, 32, 160 :: nat]"

definition RSpaces :: rx where
  "RSpaces = rx_plus (RSet white)"

definition RSpaces0 :: rx where
  "RSpaces0 = RStar (RSet white)"

section \<open>What the matcher decides\<close>

inductive rmatch :: "rx \<Rightarrow> position \<Rightarrow> position \<Rightarrow> bool" where
  char: "rmatch (RChar c) (p, c # cs) (Some c, cs)"
| cset: "c \<in> set cls \<Longrightarrow> rmatch (RSet cls) (p, c # cs) (Some c, cs)"
| cnot: "c \<notin> set cls \<Longrightarrow> rmatch (RNot cls) (p, c # cs) (Some c, cs)"
| dot: "\<not> line_break c \<Longrightarrow> rmatch RDot (p, c # cs) (Some c, cs)"
| empty: "rmatch REmpty st st"
| seq: "rmatch r st st' \<Longrightarrow> rmatch s st' st'' \<Longrightarrow> rmatch (RSeq r s) st st''"
| alt1: "rmatch r st st' \<Longrightarrow> rmatch (RAlt r s) st st'"
| alt2: "rmatch s st st' \<Longrightarrow> rmatch (RAlt r s) st st'"
| star0: "rmatch (RStar r) st st"
| star1: "rmatch r st st' \<Longrightarrow> rmatch (RStar r) st' st'' \<Longrightarrow> rmatch (RStar r) st st''"
| start: "rmatch RStart (None, cs) (None, cs)"
| at_end: "rmatch REnd (p, []) (p, [])"
| wordb: "at_word_boundary st \<Longrightarrow> rmatch RWordB st st"

inductive_cases rmatch_cases [elim!]:
  "rmatch (RChar c) st st'"
  "rmatch (RSet cls) st st'"
  "rmatch (RNot cls) st st'"
  "rmatch RDot st st'"
  "rmatch REmpty st st'"
  "rmatch (RSeq r s) st st'"
  "rmatch (RAlt r s) st st'"
  "rmatch RStart st st'"
  "rmatch REnd st st'"
  "rmatch RWordB st st'"

inductive_cases rmatch_starE: "rmatch (RStar r) st st'"

text \<open>A match moves to the right; one that stays is at the same position.\<close>

lemma rmatch_forward:
  "rmatch r st st' \<Longrightarrow> length (snd st') < length (snd st) \<or> st' = st"
  by (induction rule: rmatch.induct) auto

lemma one_char_iff:
  "st' \<in> set (one_char P st) \<longleftrightarrow> (\<exists>c cs. snd st = c # cs \<and> P c \<and> st' = (Some c, cs))"
  by (auto simp: one_char_def split: list.splits)

lemma star_ends_sound:
  assumes "\<And>st st'. st' \<in> set (f st) \<Longrightarrow> rmatch r st st'"
  shows "st' \<in> set (star_ends n f st) \<Longrightarrow> rmatch (RStar r) st st'"
proof (induction n arbitrary: st)
  case (Suc n)
  show ?case
  proof (cases "st' = st")
    case False
    with Suc.prems obtain mid where "mid \<in> set (f st)" "st' \<in> set (star_ends n f mid)" by auto
    then show ?thesis using Suc.IH assms by (blast intro: rmatch.star1)
  qed (simp add: rmatch.star0)
qed (simp add: rmatch.star0)

lemma star_ends_complete:
  assumes f: "\<And>st st'. rmatch r st st' \<Longrightarrow> st' \<in> set (f st)"
  shows "rmatch s st st' \<Longrightarrow> s = RStar r \<Longrightarrow> length (snd st) \<le> n \<Longrightarrow> st' \<in> set (star_ends n f st)"
proof (induction arbitrary: n rule: rmatch.induct)
  case (star0 r st)
  then show ?case by (cases n) auto
next
  case (star1 r' st mid st')
  have mid: "rmatch r st mid" using star1 by simp
  from rmatch_forward [OF mid] show ?case
  proof
    assume less: "length (snd mid) < length (snd st)"
    then obtain m where n: "n = Suc m" using star1.prems by (cases n) auto
    have "st' \<in> set (star_ends m f mid)" using star1 less n by simp
    moreover have "mid \<in> set (filter (\<lambda>st'. length (snd st') < length (snd st)) (f st))"
      using f [OF mid] less by simp
    ultimately have "st' \<in> set (concat (map (star_ends m f)
        (filter (\<lambda>st'. length (snd st') < length (snd st)) (f st))))"
      unfolding set_concat set_map by blast
    then show ?thesis unfolding n star_ends.simps by simp
  qed (use star1 in simp)
qed auto

lemma ends_iff: "st' \<in> set (ends r st) \<longleftrightarrow> rmatch r st st'"
proof (induction r arbitrary: st st')
  case (RStar r)
  have f: "\<And>st st'. st' \<in> set (ends r st) \<Longrightarrow> rmatch r st st'"
    "\<And>st st'. rmatch r st st' \<Longrightarrow> st' \<in> set (ends r st)" using RStar by blast+
  show ?case unfolding ends.simps
  proof
    assume "st' \<in> set (star_ends (length (snd st)) (ends r) st)"
    then show "rmatch (RStar r) st st'"
      by (rule star_ends_sound [where f = "ends r" and r = r, rotated]) (erule f(1))
  next
    assume "rmatch (RStar r) st st'"
    then show "st' \<in> set (star_ends (length (snd st)) (ends r) st)"
      by (rule star_ends_complete [where f = "ends r" and r = r, rotated]) (simp_all add: f(2))
  qed
qed (cases st; auto simp: one_char_iff intro: rmatch.intros)+

lemma rx_search_iff:
  "rx_search r prev s \<longleftrightarrow>
   (\<exists>u v st. s = u @ v \<and> rmatch r (if u = [] then prev else Some (last u), v) st)"
proof (induction s arbitrary: prev)
  case Nil
  have "ends r (prev, []) \<noteq> [] \<longleftrightarrow> (\<exists>st. st \<in> set (ends r (prev, [])))" by (cases "ends r (prev, [])") auto
  then show ?case by (simp add: ends_iff)
next
  case (Cons c cs)
  have here: "ends r (prev, c # cs) \<noteq> [] \<longleftrightarrow> (\<exists>st. rmatch r (prev, c # cs) st)"
    by (metis ends_iff list.set_intros(1) neq_Nil_conv empty_iff list.set(1))
  have "(\<exists>u v st. c # cs = u @ v \<and> rmatch r (if u = [] then prev else Some (last u), v) st) \<longleftrightarrow>
      (\<exists>st. rmatch r (prev, c # cs) st) \<or>
      (\<exists>u v st. cs = u @ v \<and> rmatch r (if u = [] then Some c else Some (last u), v) st)"
    (is "?L \<longleftrightarrow> ?H \<or> ?T")
  proof
    assume ?L
    then obtain u v st where u: "c # cs = u @ v" "rmatch r (if u = [] then prev else Some (last u), v) st"
      by blast
    show "?H \<or> ?T"
    proof (cases u)
      case (Cons d u')
      then have "cs = u' @ v \<and> rmatch r (if u' = [] then Some c else Some (last u'), v) st"
        using u by (auto split: if_splits)
      then show ?thesis by blast
    next
      case Nil
      then have "rmatch r (prev, c # cs) st" using u by simp
      then show ?thesis by blast
    qed
  next
    assume "?H \<or> ?T"
    then show ?L
    proof
      assume ?T
      then obtain u v st where "cs = u @ v" "rmatch r (if u = [] then Some c else Some (last u), v) st"
        by blast
      then have "c # cs = (c # u) @ v \<and> rmatch r (if c # u = [] then prev else Some (last (c # u)), v) st"
        by (auto split: if_splits)
      then show ?L by blast
    qed (metis append_Nil)
  qed
  then show ?case using Cons here by simp
qed

text \<open>A fixed text matches exactly where it stands.\<close>

lemma rmatch_text:
  "rmatch (rx_text w) st st' \<longleftrightarrow>
   snd st = w @ snd st' \<and> fst st' = (if w = [] then fst st else Some (last w))"
proof (induction w arbitrary: st rule: rx_text.induct)
  case 1
  then show ?case by (cases st; cases st') (auto intro: rmatch.empty)
next
  case (2 c)
  then show ?case by (cases st; cases st') (auto intro: rmatch.char)
next
  case (3 c d cs)
  show ?case
  proof
    assume "rmatch (rx_text (c # d # cs)) st st'"
    then show "snd st = (c # d # cs) @ snd st' \<and> fst st' = (if c # d # cs = [] then fst st else Some (last (c # d # cs)))"
      using 3 by auto
  next
    assume *: "snd st = (c # d # cs) @ snd st' \<and> fst st' = (if c # d # cs = [] then fst st else Some (last (c # d # cs)))"
    then have "rmatch (RChar c) st (Some c, (d # cs) @ snd st')"
      by (cases st) (auto intro: rmatch.char)
    moreover have "rmatch (rx_text (d # cs)) (Some c, (d # cs) @ snd st') st'"
      using * 3 by auto
    ultimately show "rmatch (rx_text (c # d # cs)) st st'"
      unfolding rx_text.simps by (rule rmatch.seq)
  qed
qed

lemma starts_with_iff: "starts_with s p \<longleftrightarrow> (\<exists>v. s = p @ v)"
  by (induction s p rule: starts_with.induct) auto

lemma str_includes_iff: "str_includes s t \<longleftrightarrow> (\<exists>u v. s = u @ t @ v)"
proof (induction s)
  case (Cons c cs)
  have "(\<exists>u v. c # cs = u @ t @ v) \<longleftrightarrow> (\<exists>v. c # cs = t @ v) \<or> (\<exists>u v. cs = u @ t @ v)"
    by (metis (no_types, lifting) append_Cons append_Nil list.inject neq_Nil_conv)
  then show ?case using Cons by (simp add: starts_with_iff)
qed auto

lemma rx_test_text: "rx_test (rx_text w) s \<longleftrightarrow> str_includes s w"
  unfolding rx_test_def rx_search_iff rmatch_text str_includes_iff by fastforce

lemma rmatch_alt: "r \<in> set rs \<Longrightarrow> rmatch r st st' \<Longrightarrow> rmatch (rx_alt rs) st st'"
proof (induction rs rule: rx_alt.induct)
  case (3 r1 r2 rs)
  then show ?case unfolding rx_alt.simps
    by (cases "r = r1") (simp_all add: rmatch.alt1 rmatch.alt2)
qed simp_all

lemma rmatch_words:
  assumes "w \<in> set ws" "w \<noteq> []"
  shows "rmatch (rx_words ws) (p, w @ s) (Some (last w), s)"
  unfolding rx_words_def
proof (rule rmatch_alt)
  show "rx_text w \<in> set (map rx_text ws)" using assms(1) by simp
  show "rmatch (rx_text w) (p, w @ s) (Some (last w), s)" unfolding rmatch_text using assms(2) by simp
qed

text \<open>A class matches somewhere when a character of it occurs; \<^verbatim>\<open>^[...]+$\<close> when there are no others.\<close>

lemma rx_test_iff:
  "rx_test r s \<longleftrightarrow>
   (\<exists>u v st'. s = u @ v \<and> rmatch r (if u = [] then None else Some (last u), v) st')"
  unfolding rx_test_def rx_search_iff by blast

lemma rmatch_set:
  "rmatch (RSet cls) (p, v) st' \<longleftrightarrow> (\<exists>c cs. v = c # cs \<and> c \<in> set cls \<and> st' = (Some c, cs))"
  by (auto intro: rmatch.cset)

lemma rmatch_seq: "rmatch (RSeq r s) st st' \<longleftrightarrow> (\<exists>mid. rmatch r st mid \<and> rmatch s mid st')"
  by (blast intro: rmatch.seq elim: rmatch_cases)

lemma rmatch_start: "rmatch RStart st st' \<longleftrightarrow> st' = st \<and> fst st = None"
  by (cases st) (auto intro: rmatch.start)

lemma rmatch_end: "rmatch REnd st st' \<longleftrightarrow> st' = st \<and> snd st = []"
  by (cases st) (auto intro: rmatch.at_end)

lemma rx_test_words:
  assumes "w \<in> set ws" "str_includes s w"
  shows "rx_test (rx_words ws) s"
proof -
  have "rx_text w \<in> set (map rx_text ws)" using assms(1) by simp
  moreover have "rx_test (rx_text w) s" using assms(2) by (simp add: rx_test_text)
  ultimately show ?thesis unfolding rx_test_iff rx_words_def by (blast intro: rmatch_alt)
qed

lemma rx_test_set: "rx_test (RSet cls) s \<longleftrightarrow> (\<exists>c \<in> set s. c \<in> set cls)"
proof
  assume "rx_test (RSet cls) s"
  then obtain u c cs where "s = u @ c # cs" "c \<in> set cls"
    unfolding rx_test_iff rmatch_set by blast
  then show "\<exists>c \<in> set s. c \<in> set cls" by simp
next
  assume "\<exists>c \<in> set s. c \<in> set cls"
  then obtain c u v where "s = u @ c # v" "c \<in> set cls" by (metis split_list)
  then show "rx_test (RSet cls) s" unfolding rx_test_iff rmatch_set by blast
qed

lemma rmatch_star_set:
  "rmatch r st st' \<Longrightarrow> r = RStar (RSet cls) \<Longrightarrow> \<exists>u. snd st = u @ snd st' \<and> set u \<subseteq> set cls"
proof (induction rule: rmatch.induct)
  case (star1 r st mid st')
  then obtain u where u: "snd mid = u @ snd st'" "set u \<subseteq> set cls" by auto
  from star1 have "rmatch (RSet cls) (fst st, snd st) mid" by simp
  then obtain c where "snd st = c # snd mid" "c \<in> set cls" unfolding rmatch_set by auto
  then show ?case using u by (intro exI [of _ "c # u"]) auto
qed auto

lemma rmatch_star_set_intro:
  "set u \<subseteq> set cls \<Longrightarrow> \<exists>q. rmatch (RStar (RSet cls)) (p, u @ v) (q, v)"
proof (induction u arbitrary: p)
  case Nil
  then show ?case by (intro exI [of _ p]) (simp add: rmatch.star0)
next
  case (Cons c u)
  then obtain q where q: "rmatch (RStar (RSet cls)) (Some c, u @ v) (q, v)" by auto
  have "rmatch (RSet cls) (p, (c # u) @ v) (Some c, u @ v)"
    unfolding rmatch_set using Cons.prems by simp
  from this q have "rmatch (RStar (RSet cls)) (p, (c # u) @ v) (q, v)"
    by (rule rmatch.star1)
  then show ?case by blast
qed

lemma rx_test_only:
  "rx_test (rx_seq [RStart, rx_plus (RSet cls), REnd]) s \<longleftrightarrow> s \<noteq> [] \<and> set s \<subseteq> set cls"
proof
  assume "rx_test (rx_seq [RStart, rx_plus (RSet cls), REnd]) s"
  then obtain u v st where u: "s = u @ v"
    and m: "rmatch (rx_seq [RStart, rx_plus (RSet cls), REnd]) (if u = [] then None else Some (last u), v) st"
    unfolding rx_test_iff by (elim exE conjE)
  obtain s1 s2 where "fst (if u = [] then None else Some (last u), v) = None"
    and s1: "rmatch (RSet cls) (if u = [] then None else Some (last u), v) s1"
    and s2: "rmatch (RStar (RSet cls)) s1 s2" and e: "snd s2 = []"
    using m unfolding rx_seq.simps rx_plus_def rmatch_seq rmatch_start rmatch_end
    by (elim exE conjE) simp
  then have u2: "(if u = [] then None else Some (last u)) = None" by simp
  have "u = []" using u2 by (simp split: if_splits)
  from s1 obtain c where c: "v = c # snd s1" "c \<in> set cls"
    unfolding rmatch_set by auto
  have "set (snd s1) \<subseteq> set cls" using rmatch_star_set [OF s2 refl] e by simp
  then show "s \<noteq> [] \<and> set s \<subseteq> set cls" using c u \<open>u = []\<close> by simp
next
  assume "s \<noteq> [] \<and> set s \<subseteq> set cls"
  then obtain c w where s: "s = c # w" "c \<in> set cls" "set w \<subseteq> set cls" by (cases s) auto
  obtain q where q: "rmatch (RStar (RSet cls)) (Some c, w @ []) (q, [])"
    using rmatch_star_set_intro [OF s(3)] by blast
  have "rmatch (RSet cls) (None, s) (Some c, w @ [])"
    unfolding rmatch_set using s by simp
  from this q have "rmatch (rx_plus (RSet cls)) (None, s) (q, [])"
    unfolding rx_plus_def by (rule rmatch.seq)
  moreover have "rmatch RStart (None, s) (None, s)" "rmatch REnd (q, []) (q, [])"
    unfolding rmatch_start rmatch_end fst_conv snd_conv by (rule conjI, rule refl, rule refl)+
  ultimately have "rmatch (rx_seq [RStart, rx_plus (RSet cls), REnd]) (None, s) (q, [])"
    unfolding rx_seq.simps by (iprover intro: rmatch.seq)
  then show "rx_test (rx_seq [RStart, rx_plus (RSet cls), REnd]) s"
    unfolding rx_test_iff by (intro exI [of _ "[]"] exI [of _ s] exI [of _ "(q, [])"]) simp
qed

end
