(* ===== verification/Governance_Card.thy ===== *)
theory Governance_Card
  imports Plan_Validator Text_Match
begin

text \<open>
  The model governance gate: the card of \<^verbatim>\<open>src/src/domain/governance/ModelCapabilityGate.ts\<close>,
  \<^verbatim>\<open>verifyGovernanceCard\<close> and its checks in \<^verbatim>\<open>src/src/domain/planner/PlanValidator.ts\<close>,
  and the execution ceremonies of \<^verbatim>\<open>src/src/domain/governance/ActPatterns.ts\<close>.

  The registry file's content is an argument (\<open>spine\<close>). The regular expressions of the action
  classes are lists of alternatives, each a list of words separated by white space, matched
  between word boundaries and ignoring case. Reasons are constructors that stand for their
  texts; the prefixes the code tests are cases on them.
\<close>

section \<open>The regular expressions of the action classes\<close>

text \<open>What is left after the words of an alternative; \<open>None\<close> when they do not match here.\<close>

fun match_words :: "string list \<Rightarrow> string \<Rightarrow> string option" where
  "match_words [] s = Some s"
| "match_words [w] s = (if starts_with (to_lower s) w then Some (drop (length w) s) else None)"
| "match_words (w # v # ws) s =
     (if starts_with (to_lower s) w then
        (let r = drop (length w) s in
         if r \<noteq> [] \<and> space_char (hd r) then match_words (v # ws) (dropWhile space_char r) else None)
      else None)"

definition match_here :: "string list list \<Rightarrow> string \<Rightarrow> bool" where
  "match_here alts s = list_ex (\<lambda>ws. case match_words ws s of
     None \<Rightarrow> False | Some r \<Rightarrow> r = [] \<or> \<not> word_char (hd r)) alts"

fun regex_test_from :: "bool \<Rightarrow> string list list \<Rightarrow> string \<Rightarrow> bool" where
  "regex_test_from after_word alts [] = False"
| "regex_test_from after_word alts (c # cs) =
     ((\<not> after_word \<and> match_here alts (c # cs)) \<or> regex_test_from (word_char c) alts cs)"

definition regex_test :: "string list list \<Rightarrow> string \<Rightarrow> bool" where
  "regex_test = regex_test_from False"

section \<open>The action classes and the risk of a plan\<close>

definition ACTION_CLASS_PATTERNS :: "(string list list \<times> string) list" where
  "ACTION_CLASS_PATTERNS =
    [([[''delete''], [''rm'', ''-rf''], [''drop'', ''table''], [''docker'', ''system'', ''prune''], [''destroy'']],
        ''irreversible_delete''),
     ([[''git'', ''push''], [''push'', ''to'', ''remote''], [''deploy'']], ''git_push''),
     ([[''seal''], [''vault_seal''], [''999_seal'']], ''vault_seal''),
     ([[''force'', ''push''], [''git'', ''push'', ''--force''], [''force-deploy'']], ''force_push''),
     ([[''relay''], [''webhook''], [''telegram'', ''send''], [''external'', ''notify''], [''publish'']],
        ''external_relay''),
     ([[''commit''], [''git'', ''commit'']], ''git_commit''),
     ([[''deploy''], [''ship''], [''release'']], ''deploy'')]"

definition extractActionClasses :: "plan_dag \<Rightarrow> string list" where
  "extractActionClasses plan =
     fold (\<lambda>node cs. fold (\<lambda>(alts, c) cs. if regex_test alts (goal node) \<and> c \<notin> set cs then cs @ [c] else cs)
       ACTION_CLASS_PATTERNS cs) (m_values (plan_nodes plan)) []"

fun risk_score :: "legacy_risk \<Rightarrow> nat" where
  "risk_score dangerous = 3"
| "risk_score guarded = 2"
| "risk_score safe = 1"

definition extractOverallRiskTier :: "plan_dag \<Rightarrow> legacy_risk" where
  "extractOverallRiskTier plan = snd (fold (\<lambda>node (maxScore, maxTier).
     let tier = (case risk_tier node of None \<Rightarrow> safe | Some t \<Rightarrow> t)
     in if maxScore < risk_score tier then (risk_score tier, tier) else (maxScore, maxTier))
     (m_values (plan_nodes plan)) (0, safe))"

section \<open>The governance card\<close>

datatype drift = GREEN | YELLOW | RED

record model_anchor =
  provider_key :: "string option"
  family_key :: "string option"
  model_variant :: "string option"
  identity_verified :: bool

record runtime_truth =
  tools :: "string list"
  execution_mode :: "string option"
  side_effects_allowed :: "bool option"

record risk_leash =
  leash_tier :: "string option"
  requires_human_ack_for :: "string list option"

record governance_card =
  anchor :: "model_anchor option"
  truth :: "runtime_truth option"
  leash :: "risk_leash option"
  drift_state :: "drift option"
  supports_tools :: "bool option option" \<comment> \<open>\<^verbatim>\<open>capabilities?.supports_tools\<close>\<close>

text \<open>The fields of the registry file that the card is built from.\<close>

record spine =
  sp_provider_key :: "string option"
  sp_family_key :: "string option"
  sp_model_id :: "string option"
  sp_tools_live :: "string list"
  sp_execution_mode :: "string option"
  sp_side_effects_allowed :: "bool option"
  sp_supports_tools :: "bool option option"

definition card_of_spine :: "spine \<Rightarrow> governance_card" where
  "card_of_spine sp =
     \<lparr>anchor = Some \<lparr>provider_key = sp_provider_key sp, family_key = sp_family_key sp,
        model_variant = sp_model_id sp, identity_verified = True\<rparr>,
      truth = Some \<lparr>tools = sp_tools_live sp, execution_mode = sp_execution_mode sp,
        side_effects_allowed = sp_side_effects_allowed sp\<rparr>,
      leash = Some \<lparr>leash_tier = Some ''bounded'',
        requires_human_ack_for = Some [''irreversible_delete'', ''git_push'', ''external_relay'', ''vault_seal'']\<rparr>,
      drift_state = Some GREEN, supports_tools = sp_supports_tools sp\<rparr>"

definition terminal_card :: governance_card where
  "terminal_card =
     \<lparr>anchor = Some \<lparr>provider_key = Some ''aforge'', family_key = Some ''terminal'',
        model_variant = Some ''operator'', identity_verified = False\<rparr>,
      truth = Some \<lparr>tools = [''read'', ''write'', ''edit'', ''shell'', ''search''],
        execution_mode = Some ''governed'', side_effects_allowed = Some False\<rparr>,
      leash = Some \<lparr>leash_tier = Some ''bounded'',
        requires_human_ack_for = Some [''irreversible_delete'', ''git_push'', ''vault_seal'']\<rparr>,
      drift_state = Some GREEN, supports_tools = Some (Some True)\<rparr>"

text \<open>
  \<open>readGovernanceCard\<close> with its cache: \<open>direct\<close> is the registry file (absent or malformed is
  \<open>None\<close>), \<open>fallback\<close> the output of the Python call, \<open>terminal\<close> the environment variable.
\<close>

definition readGovernanceCard :: "governance_card option \<Rightarrow> spine option \<Rightarrow> spine option \<Rightarrow> bool
    \<Rightarrow> governance_card option \<times> governance_card option" where
  "readGovernanceCard cached direct fallback terminal =
     (let gcard = (case cached of Some c \<Rightarrow> Some c
        | None \<Rightarrow> (case direct of Some sp \<Rightarrow> Some (card_of_spine sp)
        | None \<Rightarrow> (case fallback of Some sp \<Rightarrow> Some (card_of_spine sp)
        | None \<Rightarrow> if terminal then Some terminal_card else None)))
      in (gcard, gcard))"

section \<open>The checks\<close>

datatype reason =
    SpineReadError | ModelNotInRegistry | IdentityGap
  | ShadowRed | ShadowYellow | ShadowUnverified | ShadowKeyMissing
  | LeashAck string string | LeashUnbounded "string list"
  | BoundaryReadonly string | BoundarySideEffects | BoundaryTools
  | CardPass string string legacy_risk

definition anchor_field :: "(model_anchor \<Rightarrow> 'a option) \<Rightarrow> governance_card \<Rightarrow> 'a option" where
  "anchor_field f gcard = Option.bind (anchor gcard) f"

definition checkShadowViolations :: "governance_card \<Rightarrow> reason list" where
  "checkShadowViolations gcard =
     (if drift_state gcard = Some RED then [ShadowRed] else [])
   @ (if drift_state gcard = Some YELLOW then [ShadowYellow] else [])
   @ (case anchor gcard of Some a \<Rightarrow> if identity_verified a then [] else [ShadowUnverified]
      | None \<Rightarrow> [ShadowUnverified])
   @ (if falsy (anchor_field provider_key gcard) \<or> falsy (anchor_field family_key gcard)
      then [ShadowKeyMissing] else [])"

definition risky_classes :: "string list" where
  "risky_classes = [''deploy'', ''git_push'', ''force_push'', ''vault_seal'', ''irreversible_delete'']"

definition checkRiskLeash :: "string list \<Rightarrow> governance_card \<Rightarrow> bool \<Rightarrow> reason list" where
  "checkRiskLeash actionClasses gcard ackIrreversible =
     (case leash gcard of None \<Rightarrow> []
      | Some l \<Rightarrow>
         let requiresAck = (case requires_human_ack_for l of None \<Rightarrow> [] | Some cs \<Rightarrow> cs);
             riskTier = (case leash_tier l of None \<Rightarrow> ''bounded'' | Some t \<Rightarrow> t);
             riskyClasses = filter (\<lambda>a. a \<in> set risky_classes) actionClasses
         in map (\<lambda>c. LeashAck c riskTier)
              (filter (\<lambda>c. c \<in> set requiresAck \<and> \<not> ackIrreversible) actionClasses)
          @ (if riskTier = ''unbounded'' \<and> riskyClasses \<noteq> [] then [LeashUnbounded riskyClasses] else []))"

definition mentions :: "string list \<Rightarrow> plan_dag \<Rightarrow> bool" where
  "mentions ws plan = list_ex (\<lambda>node. list_ex (str_includes (to_lower (goal node))) ws) (m_values (plan_nodes plan))"

definition checkSelfClaimBoundaries :: "plan_dag \<Rightarrow> governance_card \<Rightarrow> reason list" where
  "checkSelfClaimBoundaries plan gcard =
     (if Option.bind (truth gcard) execution_mode = Some ''readonly''
         \<and> mentions [''execute'', ''deploy'', ''write'', ''commit''] plan
      then [BoundaryReadonly (case anchor_field model_variant gcard of None \<Rightarrow> ''unknown'' | Some v \<Rightarrow> v)] else [])
   @ (if Option.bind (truth gcard) side_effects_allowed = Some False
         \<and> mentions [''write'', ''create'', ''modify'', ''delete'', ''deploy''] plan
      then [BoundarySideEffects] else [])
   @ (case supports_tools gcard of None \<Rightarrow> []
      | Some st \<Rightarrow> if mentions [''tool'', ''mcp''] plan \<and> st = Some False then [BoundaryTools] else [])"

datatype card_verdict = ALLOW | HOLD_PLAN | BLOCK

fun is_shadow_violation :: "reason \<Rightarrow> bool" where
  "is_shadow_violation ShadowRed = True"
| "is_shadow_violation ShadowUnverified = True"
| "is_shadow_violation ShadowKeyMissing = True"
| "is_shadow_violation _ = False"

text \<open>A boundary reason whose text contains \<^verbatim>\<open>Proceed with caution\<close> does not block; only the
  model variant can bring these words in.\<close>

fun is_block :: "reason \<Rightarrow> bool" where
  "is_block (BoundaryReadonly v) = (\<not> str_includes v ''Proceed with caution'')"
| "is_block BoundarySideEffects = True"
| "is_block BoundaryTools = True"
| "is_block _ = False"

fun is_hold :: "reason \<Rightarrow> bool" where
  "is_hold (LeashAck _ _) = True"
| "is_hold (LeashUnbounded _) = True"
| "is_hold ShadowYellow = True"
| "is_hold _ = False"

text \<open>The card is what \<^verbatim>\<open>readGovernanceCard\<close> returned; \<open>Inl\<close> is the exception it threw.\<close>

definition verifyGovernanceCard :: "string \<Rightarrow> plan_dag \<Rightarrow> bool \<Rightarrow> unit + governance_card option
    \<Rightarrow> card_verdict \<times> reason list" where
  "verifyGovernanceCard modelId plan ackIrreversible read = (case read of
     Inl _ \<Rightarrow> (BLOCK, [SpineReadError])
   | Inr None \<Rightarrow> (BLOCK, [ModelNotInRegistry])
   | Inr (Some gcard) \<Rightarrow>
       let variant = (case anchor_field model_variant gcard of None \<Rightarrow> '''' | Some v \<Rightarrow> v);
           provider = (case anchor_field provider_key gcard of None \<Rightarrow> '''' | Some v \<Rightarrow> v);
           gap = (if variant = [] \<and> provider = [] then [IdentityGap] else []);
           shadow = checkShadowViolations gcard
       in if list_ex is_shadow_violation shadow then (BLOCK, gap @ shadow)
          else
            let classes = extractActionClasses plan;
                reasons = gap @ shadow @ checkRiskLeash classes gcard ackIrreversible
                            @ checkSelfClaimBoundaries plan gcard
            in if list_ex is_block reasons then (BLOCK, reasons)
               else if list_ex is_hold reasons then (HOLD_PLAN, reasons)
               else (ALLOW, if reasons = []
                     then [CardPass (if variant = [] then modelId else variant)
                             (if provider = [] then ''unknown'' else provider) (extractOverallRiskTier plan)]
                     else reasons))"

section \<open>The capability gate\<close>

datatype capability_verdict = PROCEED | HOLD_ACTION | BLOCK_ACTION

record capability_result =
  allowed :: bool
  cap_verdict :: capability_verdict
  requiresHumanAck :: bool

definition HUMAN_ACK_TRIGGERS :: "string list" where
  "HUMAN_ACK_TRIGGERS = [''irreversible_delete'', ''git_push'', ''external_relay'', ''vault_seal'', ''deploy'', ''force_push'']"

definition checkModelCapability :: "governance_card option \<Rightarrow> string \<Rightarrow> bool \<Rightarrow> capability_result" where
  "checkModelCapability gcard action ackIrreversible = (case gcard of
     None \<Rightarrow> \<lparr>allowed = False, cap_verdict = BLOCK_ACTION, requiresHumanAck = False\<rparr>
   | Some gcard \<Rightarrow>
       if drift_state gcard = Some RED
       then \<lparr>allowed = False, cap_verdict = BLOCK_ACTION, requiresHumanAck = False\<rparr>
       else
         let actionLower = to_lower action;
             modelRequires = (case Option.bind (leash gcard) requires_human_ack_for of None \<Rightarrow> [] | Some ts \<Rightarrow> ts)
         in if list_ex (\<lambda>ackTrigger. str_includes actionLower ackTrigger
                 \<and> list_ex (str_includes actionLower) modelRequires \<and> \<not> ackIrreversible) HUMAN_ACK_TRIGGERS
            then \<lparr>allowed = False, cap_verdict = HOLD_ACTION, requiresHumanAck = True\<rparr>
            else \<lparr>allowed = True, cap_verdict = PROCEED, requiresHumanAck = False\<rparr>)"

definition checkExecutionMode :: "governance_card option \<Rightarrow> governance_card option \<Rightarrow> capability_result" where
  "checkExecutionMode given spine_card = (case (case given of None \<Rightarrow> spine_card | Some c \<Rightarrow> Some c) of
     None \<Rightarrow> \<lparr>allowed = False, cap_verdict = BLOCK_ACTION, requiresHumanAck = False\<rparr>
   | Some gc \<Rightarrow>
       if Option.bind (truth gc) execution_mode = Some ''governed''
          \<and> Option.bind (truth gc) side_effects_allowed = Some False
       then \<lparr>allowed = False, cap_verdict = HOLD_ACTION, requiresHumanAck = True\<rparr>
       else \<lparr>allowed = True, cap_verdict = PROCEED, requiresHumanAck = False\<rparr>)"

section \<open>What the checks establish\<close>

lemma extractActionClasses_iff:
  "c \<in> set (extractActionClasses plan) \<longleftrightarrow>
     (\<exists>node \<in> set (m_values (plan_nodes plan)). \<exists>alts. (alts, c) \<in> set ACTION_CLASS_PATTERNS \<and> regex_test alts (goal node))"
proof -
  have inner: "c \<in> set (fold (\<lambda>(alts, c) cs. if regex_test alts g \<and> c \<notin> set cs then cs @ [c] else cs) ps cs)
      \<longleftrightarrow> c \<in> set cs \<or> (\<exists>alts. (alts, c) \<in> set ps \<and> regex_test alts g)" for g ps cs
    by (induction ps arbitrary: cs) (auto split: if_splits)
  have "c \<in> set (fold (\<lambda>node cs. fold (\<lambda>(alts, c) cs. if regex_test alts (goal node) \<and> c \<notin> set cs then cs @ [c] else cs)
       ACTION_CLASS_PATTERNS cs) ns cs)
      \<longleftrightarrow> c \<in> set cs \<or> (\<exists>node \<in> set ns. \<exists>alts. (alts, c) \<in> set ACTION_CLASS_PATTERNS \<and> regex_test alts (goal node))" for ns cs
    by (induction ns arbitrary: cs) (auto simp: inner)
  from this [of "m_values (plan_nodes plan)" "[]"] show ?thesis by (simp add: extractActionClasses_def)
qed

lemma shadow_iff:
  "\<not> list_ex is_shadow_violation (checkShadowViolations c) \<longleftrightarrow> drift_state c \<noteq> Some RED
     \<and> (\<exists>a. anchor c = Some a \<and> identity_verified a \<and> \<not> falsy (provider_key a) \<and> \<not> falsy (family_key a))"
  by (cases "anchor c") (auto simp: checkShadowViolations_def anchor_field_def)

lemma leash_iff:
  "checkRiskLeash classes c ack = [] \<longleftrightarrow> (\<forall>l. leash c = Some l \<longrightarrow>
     (ack \<or> set classes \<inter> set (case requires_human_ack_for l of None \<Rightarrow> [] | Some cs \<Rightarrow> cs) = {})
     \<and> (leash_tier l = Some ''unbounded'' \<longrightarrow> set classes \<inter> set risky_classes = {}))"
proof (cases "leash c")
  case (Some l)
  have f: "filter (\<lambda>a. a \<in> S) xs = [] \<longleftrightarrow> set xs \<inter> S = {}" for S and xs :: "string list"
    by (auto simp: filter_empty_conv)
  have g: "filter (\<lambda>a. a \<in> S \<and> \<not> ack) xs = [] \<longleftrightarrow> ack \<or> set xs \<inter> S = {}" for S and xs :: "string list"
    by (auto simp: filter_empty_conv)
  have t: "(case leash_tier l of None \<Rightarrow> ''bounded'' | Some t \<Rightarrow> t) = ''unbounded'' \<longleftrightarrow> leash_tier l = Some ''unbounded''"
    by (cases "leash_tier l") auto
  show ?thesis
    unfolding checkRiskLeash_def Some Let_def option.case append_is_Nil_conv map_is_Nil_conv g t
    using f [of "set risky_classes" classes] by auto
qed (simp add: checkRiskLeash_def)

lemma leash_reasons: "r \<in> set (checkRiskLeash classes c ack) \<Longrightarrow> is_hold r \<and> \<not> is_block r"
  by (auto simp: checkRiskLeash_def Let_def split: option.splits if_splits)

lemma shadow_reasons: "r \<in> set (checkShadowViolations c) \<Longrightarrow> \<not> is_block r \<and> (is_hold r \<longleftrightarrow> r = ShadowYellow)"
  by (auto simp: checkShadowViolations_def split: option.splits if_splits)

lemma boundary_reasons:
  assumes "\<not> str_includes (case anchor_field model_variant c of None \<Rightarrow> ''unknown'' | Some v \<Rightarrow> v) ''Proceed with caution''"
    and "r \<in> set (checkSelfClaimBoundaries plan c)"
  shows "is_block r"
  using assms by (auto simp: checkSelfClaimBoundaries_def split: option.splits if_splits)

lemma boundary_not_hold: "r \<in> set (checkSelfClaimBoundaries plan c) \<Longrightarrow> \<not> is_hold r"
  by (auto simp: checkSelfClaimBoundaries_def split: option.splits if_splits)

text \<open>The three conditions of the gate, as predicates on the card.\<close>

definition card_verified :: "governance_card \<Rightarrow> bool" where
  "card_verified c \<longleftrightarrow> drift_state c \<noteq> Some RED \<and> (\<exists>a. anchor c = Some a \<and> identity_verified a
      \<and> \<not> falsy (provider_key a) \<and> \<not> falsy (family_key a))"

definition leash_satisfied :: "governance_card \<Rightarrow> string list \<Rightarrow> bool \<Rightarrow> bool" where
  "leash_satisfied c classes ack \<longleftrightarrow> (\<forall>l. leash c = Some l \<longrightarrow>
     (ack \<or> set classes \<inter> set (case requires_human_ack_for l of None \<Rightarrow> [] | Some cs \<Rightarrow> cs) = {})
     \<and> (leash_tier l = Some ''unbounded'' \<longrightarrow> set classes \<inter> set risky_classes = {}))"

section \<open>Properties\<close>

text \<open>
  What the governance card allows. For a card whose model variant does not contain the words
  \<^verbatim>\<open>Proceed with caution\<close>, a plan is allowed exactly when the drift state is neither red nor
  yellow, the identity is verified and the provider and family keys are present, the risk leash is
  satisfied (every class that needs a human acknowledgment is acknowledged, and an unbounded model
  has no risky class) and no self-claim boundary is crossed; it is held exactly when only the leash
  or a yellow drift objects.
\<close>

theorem card_verdict_iff:
  assumes "\<not> str_includes (case anchor_field model_variant c of None \<Rightarrow> ''unknown'' | Some v \<Rightarrow> v) ''Proceed with caution''"
  shows "fst (verifyGovernanceCard m plan ack (Inr (Some c)))
    = (if \<not> card_verified c \<or> checkSelfClaimBoundaries plan c \<noteq> [] then BLOCK
       else if drift_state c = Some YELLOW \<or> \<not> leash_satisfied c (extractActionClasses plan) ack then HOLD_PLAN
       else ALLOW)"
proof -
  let ?shadow = "checkShadowViolations c" and ?leash = "checkRiskLeash (extractActionClasses plan) c ack"
    and ?bound = "checkSelfClaimBoundaries plan c"
  have v: "card_verified c \<longleftrightarrow> \<not> list_ex is_shadow_violation ?shadow" unfolding card_verified_def shadow_iff ..
  have b: "list_ex is_block (xs @ ?shadow @ ?leash @ ?bound) \<longleftrightarrow> list_ex is_block xs \<or> ?bound \<noteq> []" for xs
  proof -
    have "list_ex is_block ?bound \<longleftrightarrow> ?bound \<noteq> []"
    proof
      assume "?bound \<noteq> []"
      then have "hd ?bound \<in> set ?bound" by simp
      then show "list_ex is_block ?bound" using boundary_reasons [OF assms(1)] unfolding list_ex_iff by blast
    qed auto
    then show ?thesis using shadow_reasons leash_reasons unfolding list_ex_iff by fastforce
  qed
  have y: "ShadowYellow \<in> set ?shadow \<longleftrightarrow> drift_state c = Some YELLOW"
    by (auto simp: checkShadowViolations_def split: option.splits)
  have h: "list_ex is_hold (xs @ ?shadow @ ?leash @ ?bound) \<longleftrightarrow> list_ex is_hold xs \<or> \<not> (drift_state c \<noteq> Some YELLOW \<and> leash_satisfied c (extractActionClasses plan) ack)" for xs
  proof -
    have "list_ex is_hold ?leash \<longleftrightarrow> ?leash \<noteq> []"
    proof
      assume "?leash \<noteq> []"
      then have "hd ?leash \<in> set ?leash" by simp
      then show "list_ex is_hold ?leash" using leash_reasons unfolding list_ex_iff by blast
    qed auto
    moreover have "list_ex is_hold ?shadow \<longleftrightarrow> drift_state c = Some YELLOW"
      using y shadow_reasons unfolding list_ex_iff by blast
    ultimately have "drift_state c \<noteq> Some YELLOW \<and> leash_satisfied c (extractActionClasses plan) ack
        \<longleftrightarrow> \<not> list_ex is_hold ?leash \<and> \<not> list_ex is_hold ?shadow"
      unfolding leash_satisfied_def leash_iff [symmetric] by blast
    moreover have "\<not> list_ex is_hold ?bound" using boundary_not_hold unfolding list_ex_iff by blast
    ultimately show ?thesis unfolding list_ex_append by blast
  qed
  show ?thesis
    unfolding v verifyGovernanceCard_def sum.case option.case Let_def b h
    by (simp del: list_ex_append split: if_split)
qed

text \<open>
  The terminal override cannot pass the gate: the card that \<^verbatim>\<open>readGovernanceCard\<close> builds in
  terminal mode is marked as not identity-verified, so every plan is blocked with it.
\<close>

theorem terminal_card_blocks:
  "readGovernanceCard None None None True = (Some terminal_card, Some terminal_card)
    \<and> fst (verifyGovernanceCard m plan ack (Inr (Some terminal_card))) = BLOCK"
  by (simp add: readGovernanceCard_def terminal_card_def verifyGovernanceCard_def Let_def
      checkShadowViolations_def anchor_field_def)

text \<open>
  The capability gate on a registry card holds an action exactly when it is not acknowledged and
  its text mentions one of the four classes of the card. The triggers \<^verbatim>\<open>deploy\<close> and
  \<^verbatim>\<open>force_push\<close> never hold anything, since the card does not require an acknowledgment for
  them.
\<close>

theorem capability_gate_registry:
  "cap_verdict (checkModelCapability (Some (card_of_spine sp)) action ack)
    = (if \<not> ack \<and> (\<exists>c \<in> {''irreversible_delete'', ''git_push'', ''external_relay'', ''vault_seal''}.
          str_includes (to_lower action) c) then HOLD_ACTION else PROCEED)
    \<and> allowed (checkModelCapability (Some (card_of_spine sp)) ''deploy to production'' False)"
proof
  show "cap_verdict (checkModelCapability (Some (card_of_spine sp)) action ack)
    = (if \<not> ack \<and> (\<exists>c \<in> {''irreversible_delete'', ''git_push'', ''external_relay'', ''vault_seal''}.
          str_includes (to_lower action) c) then HOLD_ACTION else PROCEED)"
    by (auto simp: checkModelCapability_def card_of_spine_def Let_def HUMAN_ACK_TRIGGERS_def)
  have "\<not> list_ex (str_includes (to_lower ''deploy to production''))
      [''irreversible_delete'', ''git_push'', ''external_relay'', ''vault_seal'']" by code_simp
  then show "allowed (checkModelCapability (Some (card_of_spine sp)) ''deploy to production'' False)"
    by (simp add: checkModelCapability_def card_of_spine_def Let_def list_ex_iff)
qed

definition sample_card :: governance_card where
  "sample_card = card_of_spine \<lparr>sp_provider_key = Some ''acme'', sp_family_key = Some ''m'', sp_model_id = Some ''m-3'',
     sp_tools_live = [], sp_execution_mode = Some ''governed'', sp_side_effects_allowed = Some True,
     sp_supports_tools = Some (Some True)\<rparr>"

theorem card_verdict_iff_witness:
  "fst (verifyGovernanceCard ''m-3'' sample_dag False (Inr (Some sample_card))) = ALLOW"
proof -
  have v: "anchor_field model_variant sample_card = Some ''m-3''"
    by (simp add: sample_card_def card_of_spine_def anchor_field_def)
  have n: "\<not> str_includes (case anchor_field model_variant sample_card of None \<Rightarrow> ''unknown'' | Some v \<Rightarrow> v)
      ''Proceed with caution''" unfolding v by simp
  have c: "extractActionClasses sample_dag = [''deploy'']" by code_simp
  have b: "checkSelfClaimBoundaries sample_dag sample_card = []" by code_simp
  show ?thesis
    unfolding card_verdict_iff [OF n] b c
    by (simp add: sample_card_def card_of_spine_def card_verified_def leash_satisfied_def)
qed

end
