(* ===== verification/Act_Patterns.thy ===== *)
theory Act_Patterns
  imports Prelude
begin

text \<open>
  The execution ceremonies: \<^verbatim>\<open>src/src/domain/governance/ActPatterns.ts\<close> and
  \<^verbatim>\<open>selectActPattern\<close> of \<^verbatim>\<open>src/src/domain/planner/PlanValidator.ts\<close>.

  The three registered patterns are given with every field a decision reads: the bounds, the
  flags of the stages, the compensation mode and the coordination flags; prose is left out.
  Confidences are rationals and warnings are constructors.
\<close>

section \<open>Patterns\<close>

datatype blast = Low | Medium | High | Unknown_Blast

record act_stage =
  stage_number :: nat
  stage_name :: string
  verificationRequired :: bool
  humanCheckpoint :: bool
  stage_reversible :: bool

record act_pattern =
  pattern_id :: string
  pattern_name :: string
  maxBlastRadius :: blast
  irreversibleAllowed :: bool
  minStages :: nat
  maxStages :: nat
  stages :: "act_stage list"
  automatic :: bool
  notifyBeforeFirst :: bool
  notifyAfterEach :: bool
  requireAckBeforeIrreversible :: bool

definition stage :: "nat \<Rightarrow> string \<Rightarrow> bool \<Rightarrow> bool \<Rightarrow> bool \<Rightarrow> act_stage" where
  "stage n nm v h r = \<lparr>stage_number = n, stage_name = nm, verificationRequired = v,
     humanCheckpoint = h, stage_reversible = r\<rparr>"

definition DEFAULT_DEPLOY :: act_pattern where
  "DEFAULT_DEPLOY = \<lparr>pattern_id = ''act-pattern-001'', pattern_name = ''Default Deploy'',
     maxBlastRadius = Medium, irreversibleAllowed = False, minStages = 3, maxStages = 3,
     stages = [stage 1 ''DRY_RUN'' True False True, stage 2 ''DEPLOY'' True False True,
               stage 3 ''VERIFY'' False True False],
     automatic = True, notifyBeforeFirst = False, notifyAfterEach = False,
     requireAckBeforeIrreversible = False\<rparr>"

definition DANGEROUS_MIGRATION :: act_pattern where
  "DANGEROUS_MIGRATION = \<lparr>pattern_id = ''act-pattern-002'', pattern_name = ''Dangerous Migration'',
     maxBlastRadius = High, irreversibleAllowed = True, minStages = 5, maxStages = 5,
     stages = [stage 1 ''PREFLIGHT + COMPENSATION APPROVAL'' True True True,
               stage 2 ''CANARY (1%)'' True True True, stage 3 ''EXPAND (25%)'' True True True,
               stage 4 ''FULL ROLLOUT (100%)'' True True False,
               stage 5 ''POST-MIGRATION VERIFICATION'' False True False],
     automatic = False, notifyBeforeFirst = True, notifyAfterEach = True,
     requireAckBeforeIrreversible = True\<rparr>"

definition HUMAN_IN_LOOP_CHANGE :: act_pattern where
  "HUMAN_IN_LOOP_CHANGE = \<lparr>pattern_id = ''act-pattern-003'', pattern_name = ''Human-in-Loop Change'',
     maxBlastRadius = High, irreversibleAllowed = True, minStages = 2, maxStages = 10,
     stages = [stage 1 ''PROPOSE'' True True True, stage 2 ''EXECUTE + VERIFY (LOOP)'' True True True],
     automatic = False, notifyBeforeFirst = True, notifyAfterEach = True,
     requireAckBeforeIrreversible = True\<rparr>"

definition ACT_PATTERNS :: "act_pattern list" where
  "ACT_PATTERNS = [DEFAULT_DEPLOY, DANGEROUS_MIGRATION, HUMAN_IN_LOOP_CHANGE]"

section \<open>Selection\<close>

record selection_criteria =
  blastRadius :: blast
  irreversible :: bool
  stageCount :: int
  hasCompensationPlan :: bool
  humanAvailable :: bool

datatype act_warning =
    NeedsHumanCheckpoints | ConsiderSplitting | CannotProceedWithoutHuman | NeedsHumanForEveryChange
  | MarginalHighBlast | EnsureDryRun
  | TooFewStages nat nat | TooManyStages nat nat | NoSuchStage nat | IrreversibleWithoutHuman nat

record selection_result =
  pattern :: act_pattern
  confidence :: rat
  warnings :: "act_warning list"

definition selectPattern :: "selection_criteria \<Rightarrow> selection_result" where
  "selectPattern c =
     (if blastRadius c = High \<and> irreversible c then
        (if 1 < stageCount c then
           \<lparr>pattern = DANGEROUS_MIGRATION, confidence = 9 / 10,
             warnings = (if humanAvailable c then [] else [NeedsHumanCheckpoints])\<rparr>
         else
           \<lparr>pattern = DANGEROUS_MIGRATION, confidence = 3 / 4,
             warnings = ConsiderSplitting # (if humanAvailable c then [] else [CannotProceedWithoutHuman])\<rparr>)
      else if blastRadius c = High \<and> 3 < stageCount c then
        \<lparr>pattern = HUMAN_IN_LOOP_CHANGE, confidence = 17 / 20,
          warnings = (if \<not> humanAvailable c then [NeedsHumanForEveryChange] else [])\<rparr>
      else if blastRadius c = High \<and> \<not> irreversible c then
        \<lparr>pattern = DEFAULT_DEPLOY, confidence = 3 / 5, warnings = [MarginalHighBlast]\<rparr>
      else if blastRadius c = Medium \<and> irreversible c then
        \<lparr>pattern = DEFAULT_DEPLOY, confidence = 7 / 10, warnings = [EnsureDryRun]\<rparr>
      else \<lparr>pattern = DEFAULT_DEPLOY, confidence = 19 / 20, warnings = []\<rparr>)"

definition validatePlanAgainstPattern :: "act_pattern \<Rightarrow> nat \<Rightarrow> nat \<Rightarrow> act_warning list" where
  "validatePlanAgainstPattern p currentStage totalStages =
     (let st = find (\<lambda>s. stage_number s = currentStage) (stages p) in
       (if totalStages < minStages p then [TooFewStages (minStages p) totalStages] else [])
     @ (if maxStages p < totalStages then [TooManyStages (maxStages p) totalStages] else [])
     @ (case st of
          None \<Rightarrow> [NoSuchStage currentStage]
        | Some s \<Rightarrow> if \<not> stage_reversible s \<and> \<not> humanCheckpoint s
                    then [IrreversibleWithoutHuman currentStage] else []))"

record act_verdict =
  av_pattern :: string
  av_stages :: nat
  av_confidence :: rat
  av_warnings :: "act_warning list"
  av_humanRequired :: bool

definition selectActPattern :: "blast \<Rightarrow> bool \<Rightarrow> int \<Rightarrow> bool \<Rightarrow> bool \<Rightarrow> act_verdict" where
  "selectActPattern blastR irr n hasComp human =
     (let result = selectPattern \<lparr>blastRadius = blastR, irreversible = irr, stageCount = n,
            hasCompensationPlan = hasComp, humanAvailable = human\<rparr>;
          p = pattern result
      in \<lparr>av_pattern = pattern_id p, av_stages = length (stages p), av_confidence = confidence result,
           av_warnings = warnings result @ validatePlanAgainstPattern p 1 (length (stages p)),
           av_humanRequired = list_ex humanCheckpoint (stages p)\<rparr>)"

section \<open>Properties\<close>

lemmas pattern_defs = DEFAULT_DEPLOY_def DANGEROUS_MIGRATION_def HUMAN_IN_LOOP_CHANGE_def stage_def

text \<open>
  Every ceremony keeps the human in the loop: whatever the criteria, the selected pattern has a
  human checkpoint, every irreversible stage of it carries one, it passes its own validation at every
  stage it defines, and an irreversible change with high blast always gets the staged migration.
\<close>

theorem selected_pattern_is_safe:
  "(\<forall>s \<in> set (stages (pattern (selectPattern c))). \<not> stage_reversible s \<longrightarrow> humanCheckpoint s)
    \<and> list_ex humanCheckpoint (stages (pattern (selectPattern c)))
    \<and> (\<forall>s \<in> set (stages (pattern (selectPattern c))).
         validatePlanAgainstPattern (pattern (selectPattern c)) (stage_number s)
           (length (stages (pattern (selectPattern c)))) = [])
    \<and> (blastRadius c = High \<and> irreversible c \<longrightarrow> pattern (selectPattern c) = DANGEROUS_MIGRATION)"
proof -
  have cases: "pattern (selectPattern c) \<in> set ACT_PATTERNS"
    by (simp add: selectPattern_def ACT_PATTERNS_def)
  have ok: "(\<forall>s \<in> set (stages p). \<not> stage_reversible s \<longrightarrow> humanCheckpoint s)
      \<and> list_ex humanCheckpoint (stages p)
      \<and> (\<forall>s \<in> set (stages p). validatePlanAgainstPattern p (stage_number s) (length (stages p)) = [])"
    if "p \<in> set ACT_PATTERNS" for p
    using that by (auto simp: ACT_PATTERNS_def pattern_defs validatePlanAgainstPattern_def)
  have "blastRadius c = High \<and> irreversible c \<longrightarrow> pattern (selectPattern c) = DANGEROUS_MIGRATION"
    by (simp add: selectPattern_def)
  with ok [OF cases] show ?thesis by blast
qed

text \<open>
  An unknown blast radius is treated as a low one: an irreversible change of unknown blast gets
  the default deployment, which does not allow irreversible changes, with the highest confidence and
  without a warning; so does an irreversible change of low blast, for which the documentation
  promises the confidence 0.70.
\<close>

theorem unknown_blast_defaults:
  assumes "b = Unknown_Blast \<or> b = Low"
  shows "selectPattern \<lparr>blastRadius = b, irreversible = True, stageCount = n,
      hasCompensationPlan = cp, humanAvailable = h\<rparr>
    = \<lparr>pattern = DEFAULT_DEPLOY, confidence = 19 / 20, warnings = []\<rparr>
    \<and> \<not> irreversibleAllowed DEFAULT_DEPLOY"
  using assms by (auto simp: selectPattern_def DEFAULT_DEPLOY_def)

theorem unknown_blast_defaults_witness:
  "confidence (selectPattern \<lparr>blastRadius = Unknown_Blast, irreversible = True, stageCount = 4,
      hasCompensationPlan = False, humanAvailable = False\<rparr>) = 19 / 20"
  using unknown_blast_defaults [of Unknown_Blast 4 False False] by simp

theorem selected_pattern_is_safe_witness:
  "pattern (selectPattern \<lparr>blastRadius = High, irreversible = True, stageCount = 5,
      hasCompensationPlan = True, humanAvailable = True\<rparr>) = DANGEROUS_MIGRATION"
  using selected_pattern_is_safe [of "\<lparr>blastRadius = High, irreversible = True, stageCount = 5,
      hasCompensationPlan = True, humanAvailable = True\<rparr>"] by simp

end
