(* ===== verification/Lifecycle.thy ===== *)
theory Lifecycle
  imports Prelude
begin

text \<open>
  The vertical agent's lifecycle (\<^verbatim>\<open>src/src/domain/agents/vertical-agent/state-machine.ts\<close>):
  the ten stages, the forward and correction tables and their merge, the validation of a
  transition and of a whole trace, the budget-gated advance and the reset, together with the
  reasoning budget they consult (\<^verbatim>\<open>checkReasoningBudget\<close> of
  \<^verbatim>\<open>src/src/domain/types/memory-lifecycle.ts\<close>).

  Costs and confidences are reals. The free text \<^verbatim>\<open>reason\<close> of a budget check is left out
  (it only formats the numbers), and the display helpers are kept as they are. The parameter
  \<open>now\<close> is the ISO timestamp of the call. An em dash of a message is written as a hyphen. The branches for a stage outside the union type
  are not reachable for a value of the datatype, but are written out.
\<close>

section \<open>Stages and tables\<close>

datatype lifecycle_stage =
    L000_INIT | L111_OBSERVE | L222_ENCODE | L333_THINK | L444_ROUTE
  | L555_CRITIQUE | L666_HEART | L777_FORGE | L888_JUDGE | L999_SEAL

fun stage_text :: "lifecycle_stage \<Rightarrow> string" where
  "stage_text L000_INIT = ''000_INIT''"
| "stage_text L111_OBSERVE = ''111_OBSERVE''"
| "stage_text L222_ENCODE = ''222_ENCODE''"
| "stage_text L333_THINK = ''333_THINK''"
| "stage_text L444_ROUTE = ''444_ROUTE''"
| "stage_text L555_CRITIQUE = ''555_CRITIQUE''"
| "stage_text L666_HEART = ''666_HEART''"
| "stage_text L777_FORGE = ''777_FORGE''"
| "stage_text L888_JUDGE = ''888_JUDGE''"
| "stage_text L999_SEAL = ''999_SEAL''"

definition FORWARD_ORDER :: "lifecycle_stage list" where
  "FORWARD_ORDER =
     [L000_INIT, L111_OBSERVE, L222_ENCODE, L333_THINK, L444_ROUTE,
      L555_CRITIQUE, L666_HEART, L777_FORGE, L888_JUDGE, L999_SEAL]"

fun FORWARD_TRANSITIONS :: "lifecycle_stage \<Rightarrow> lifecycle_stage list" where
  "FORWARD_TRANSITIONS L000_INIT = [L111_OBSERVE]"
| "FORWARD_TRANSITIONS L111_OBSERVE = [L222_ENCODE, L333_THINK]"
| "FORWARD_TRANSITIONS L222_ENCODE = [L333_THINK]"
| "FORWARD_TRANSITIONS L333_THINK = [L444_ROUTE, L555_CRITIQUE]"
| "FORWARD_TRANSITIONS L444_ROUTE = [L555_CRITIQUE, L666_HEART, L777_FORGE]"
| "FORWARD_TRANSITIONS L555_CRITIQUE = [L666_HEART, L777_FORGE]"
| "FORWARD_TRANSITIONS L666_HEART = [L777_FORGE]"
| "FORWARD_TRANSITIONS L777_FORGE = [L888_JUDGE]"
| "FORWARD_TRANSITIONS L888_JUDGE = [L999_SEAL]"
| "FORWARD_TRANSITIONS L999_SEAL = []"

fun BACKWARD_TRANSITIONS :: "lifecycle_stage \<Rightarrow> lifecycle_stage list" where
  "BACKWARD_TRANSITIONS L000_INIT = []"
| "BACKWARD_TRANSITIONS L111_OBSERVE = []"
| "BACKWARD_TRANSITIONS L222_ENCODE = [L111_OBSERVE]"
| "BACKWARD_TRANSITIONS L333_THINK = [L111_OBSERVE, L222_ENCODE]"
| "BACKWARD_TRANSITIONS L444_ROUTE = [L333_THINK]"
| "BACKWARD_TRANSITIONS L555_CRITIQUE = [L333_THINK, L444_ROUTE]"
| "BACKWARD_TRANSITIONS L666_HEART = [L555_CRITIQUE]"
| "BACKWARD_TRANSITIONS L777_FORGE = [L333_THINK, L444_ROUTE, L555_CRITIQUE]"
| "BACKWARD_TRANSITIONS L888_JUDGE =
     [L111_OBSERVE, L333_THINK, L444_ROUTE, L555_CRITIQUE, L666_HEART, L777_FORGE]"
| "BACKWARD_TRANSITIONS L999_SEAL = [L000_INIT]"

definition merged_transitions :: "lifecycle_stage \<Rightarrow> lifecycle_stage list" where
  "merged_transitions stage =
     (let forward = FORWARD_TRANSITIONS stage; backward = BACKWARD_TRANSITIONS stage in
      forward @ filter (\<lambda>b. b \<notin> set forward) backward)"

definition transition_table :: "(lifecycle_stage, lifecycle_stage list) jsmap" where
  "transition_table = fold (\<lambda>stage. m_set stage (merged_transitions stage)) FORWARD_ORDER []"

definition ALL_TRANSITIONS :: "lifecycle_stage \<Rightarrow> lifecycle_stage list" where
  "ALL_TRANSITIONS stage = (case m_get transition_table stage of Some ts \<Rightarrow> ts | None \<Rightarrow> [])"

text \<open>
  \<^verbatim>\<open>indexOf\<close>, \<^term>\<open>None\<close> for \<^verbatim>\<open>-1\<close>.
\<close>

fun index_of :: "'a list \<Rightarrow> 'a \<Rightarrow> nat option" where
  "index_of [] x = None"
| "index_of (y # ys) x = (if y = x then Some 0 else map_option Suc (index_of ys x))"

definition isForwardTransition :: "lifecycle_stage \<Rightarrow> lifecycle_stage \<Rightarrow> bool" where
  "isForwardTransition cur target =
     (case (index_of FORWARD_ORDER cur, index_of FORWARD_ORDER target) of
        (Some currentIdx, Some targetIdx) \<Rightarrow> targetIdx > currentIdx
      | _ \<Rightarrow> False)"

section \<open>Validation of a transition\<close>

record transition_result =
  tr_allowed :: bool
  tr_from :: lifecycle_stage
  tr_to :: lifecycle_stage
  tr_reason :: string
  tr_attempted_at :: string
  tr_valid_from_here :: "lifecycle_stage list option"
  tr_is_correction :: bool

fun joined :: "string \<Rightarrow> string list \<Rightarrow> string" where
  "joined sep [] = []"
| "joined sep [x] = x"
| "joined sep (x # y # ys) = x @ sep @ joined sep (y # ys)"

definition validateTransition ::
  "string \<Rightarrow> lifecycle_stage \<Rightarrow> lifecycle_stage \<Rightarrow> transition_result" where
  "validateTransition now cur target =
     (let allowedTargets = ALL_TRANSITIONS cur;
          isAllowed = target \<in> set allowedTargets;
          isCorrection = (if isForwardTransition cur target then False
                          else target \<in> set (BACKWARD_TRANSITIONS cur)) in
      if isAllowed then
        (let direction = (if isForwardTransition cur target then ''forward'' else ''correction'') in
         \<lparr> tr_allowed = True, tr_from = cur, tr_to = target,
           tr_reason = ''Valid '' @ direction @ '' transition: '' @ stage_text cur @ '' -> ''
                       @ stage_text target,
           tr_attempted_at = now, tr_valid_from_here = None, tr_is_correction = isCorrection \<rparr>)
      else
        (let allValid = allowedTargets;
             reason = (if allowedTargets = []
                       then ''Terminal stage '' @ stage_text cur @ '' has no outgoing transitions''
                       else ''Invalid transition: '' @ stage_text cur @ '' -> '' @ stage_text target
                            @ ''. Valid targets: ['' @ joined '', '' (map stage_text allValid) @ '']'') in
         \<lparr> tr_allowed = False, tr_from = cur, tr_to = target, tr_reason = reason,
           tr_attempted_at = now, tr_valid_from_here = Some allValid,
           tr_is_correction = False \<rparr>))"

section \<open>The reasoning budget\<close>

record reasoning_budget =
  max_steps :: int
  max_tool_calls :: int
  max_cost_usd :: real
  max_tokens :: int
  escalation_condition :: string
  halt_condition :: string

definition DEFAULT_REASONING_BUDGET :: reasoning_budget where
  "DEFAULT_REASONING_BUDGET =
     \<lparr> max_steps = 12, max_tool_calls = 20, max_cost_usd = 1 / 2, max_tokens = 100000,
       escalation_condition = ''confidence < 0.60 after 3 attempts'',
       halt_condition = ''repeated_failure >= 3 OR contradiction_unresolved'' \<rparr>"

record budget_status =
  steps_taken :: int
  tool_calls_made :: int
  cost_incurred :: real
  tokens_consumed :: int
  repeated_failures :: int
  contradiction_unresolved :: bool
  current_confidence :: real
  current_attempts :: int

datatype budget_dimension = DSteps | DToolCalls | DCost | DTokens | DEscalation | DHaltCondition

record budget_check =
  bc_should_halt :: bool
  bc_should_escalate :: bool
  bc_exceeded :: "budget_dimension option"

definition checkReasoningBudget :: "budget_status \<Rightarrow> reasoning_budget \<Rightarrow> budget_check" where
  "checkReasoningBudget st b =
     (let halt = (\<lambda>d. \<lparr> bc_should_halt = True, bc_should_escalate = False, bc_exceeded = Some d \<rparr>) in
      if steps_taken st \<ge> max_steps b then halt DSteps
      else if tool_calls_made st \<ge> max_tool_calls b then halt DToolCalls
      else if cost_incurred st \<ge> max_cost_usd b then halt DCost
      else if tokens_consumed st \<ge> max_tokens b then halt DTokens
      else if current_attempts st \<ge> 3 \<and> current_confidence st < 60 / 100 then
        \<lparr> bc_should_halt = False, bc_should_escalate = True, bc_exceeded = Some DEscalation \<rparr>
      else if repeated_failures st \<ge> 3 then halt DHaltCondition
      else if contradiction_unresolved st then halt DHaltCondition
      else \<lparr> bc_should_halt = False, bc_should_escalate = False, bc_exceeded = None \<rparr>)"

fun dimension_text :: "budget_dimension \<Rightarrow> string" where
  "dimension_text DSteps = ''steps''"
| "dimension_text DToolCalls = ''tool_calls''"
| "dimension_text DCost = ''cost''"
| "dimension_text DTokens = ''tokens''"
| "dimension_text DEscalation = ''escalation''"
| "dimension_text DHaltCondition = ''halt_condition''"

section \<open>Advance, reset and queries\<close>

record advance_result =
  ar_success :: bool
  ar_transition :: transition_result
  ar_budget_exceeded :: bool
  ar_budget_violations :: "budget_dimension list"
  ar_should_escalate :: bool
  ar_should_halt :: bool
  ar_block_reason :: "string option"

definition refused :: "string \<Rightarrow> lifecycle_stage \<Rightarrow> string \<Rightarrow> transition_result" where
  "refused now cur reason =
     \<lparr> tr_allowed = False, tr_from = cur, tr_to = cur, tr_reason = reason,
       tr_attempted_at = now, tr_valid_from_here = None, tr_is_correction = False \<rparr>"

definition nth_stage :: "nat \<Rightarrow> lifecycle_stage option" where
  "nth_stage i = (if i < length FORWARD_ORDER then Some (FORWARD_ORDER ! i) else None)"

definition advanceStage ::
  "string \<Rightarrow> lifecycle_stage \<Rightarrow> reasoning_budget \<Rightarrow> budget_status \<Rightarrow> advance_result" where
  "advanceStage now cur budget status =
     (case index_of FORWARD_ORDER cur of
        None \<Rightarrow>
          \<lparr> ar_success = False,
            ar_transition = refused now cur (''Unknown stage: '' @ stage_text cur),
            ar_budget_exceeded = False, ar_budget_violations = [], ar_should_escalate = False,
            ar_should_halt = False,
            ar_block_reason = Some (''Unknown lifecycle stage: '' @ stage_text cur) \<rparr>
      | Some currentIdx \<Rightarrow>
        if cur = L999_SEAL then
          \<lparr> ar_success = False,
            ar_transition = refused now cur
              (''Terminal stage 999_SEAL - lifecycle complete, use resetToInit() for new run''),
            ar_budget_exceeded = False, ar_budget_violations = [], ar_should_escalate = False,
            ar_should_halt = False, ar_block_reason = Some ''Lifecycle complete at 999_SEAL'' \<rparr>
        else
          (let budgetCheck = checkReasoningBudget status budget in
           if bc_exceeded budgetCheck \<noteq> None \<or> bc_should_halt budgetCheck then
             (let violations = (case bc_exceeded budgetCheck of Some d \<Rightarrow> [d] | None \<Rightarrow> []);
                  listed = joined '', '' (map dimension_text violations) in
              \<lparr> ar_success = False,
                ar_transition =
                  \<lparr> tr_allowed = False, tr_from = cur,
                    tr_to = (case nth_stage (currentIdx + 1) of Some t \<Rightarrow> t | None \<Rightarrow> cur),
                    tr_reason = ''Budget exceeded in dimensions: ['' @ listed @ '']'',
                    tr_attempted_at = now, tr_valid_from_here = Some (ALL_TRANSITIONS cur),
                    tr_is_correction = False \<rparr>,
                ar_budget_exceeded = True, ar_budget_violations = violations,
                ar_should_escalate = bc_should_escalate budgetCheck,
                ar_should_halt = bc_should_halt budgetCheck,
                ar_block_reason = Some
                  (if bc_should_halt budgetCheck
                   then ''HALT: consecutive failures >= 3 or unresolved contradictions''
                   else ''Budget exceeded in: ['' @ listed @ '']'') \<rparr>)
           else
             (let target = FORWARD_ORDER ! (currentIdx + 1);
                  transition = validateTransition now cur target in
              if \<not> tr_allowed transition then
                \<lparr> ar_success = False, ar_transition = transition, ar_budget_exceeded = False,
                  ar_budget_violations = [], ar_should_escalate = bc_should_escalate budgetCheck,
                  ar_should_halt = bc_should_halt budgetCheck,
                  ar_block_reason = Some (tr_reason transition) \<rparr>
              else
                \<lparr> ar_success = True, ar_transition = transition, ar_budget_exceeded = False,
                  ar_budget_violations = [], ar_should_escalate = bc_should_escalate budgetCheck,
                  ar_should_halt = bc_should_halt budgetCheck, ar_block_reason = None \<rparr>)))"

definition resetToInit :: "string \<Rightarrow> lifecycle_stage \<Rightarrow> transition_result" where
  "resetToInit now cur =
     (if cur \<noteq> L999_SEAL then
        \<lparr> tr_allowed = False, tr_from = cur, tr_to = L000_INIT,
          tr_reason = ''Reset only valid from 999_SEAL terminal stage. Current stage: '' @ stage_text cur,
          tr_attempted_at = now, tr_valid_from_here = None, tr_is_correction = False \<rparr>
      else
        \<lparr> tr_allowed = True, tr_from = cur, tr_to = L000_INIT,
          tr_reason = ''Lifecycle reset: 999_SEAL -> 000_INIT (new governed run)'',
          tr_attempted_at = now, tr_valid_from_here = None, tr_is_correction = False \<rparr>)"

definition validTargets :: "lifecycle_stage \<Rightarrow> lifecycle_stage list" where
  "validTargets cur = ALL_TRANSITIONS cur"

definition forwardTargets :: "lifecycle_stage \<Rightarrow> lifecycle_stage list" where
  "forwardTargets cur = FORWARD_TRANSITIONS cur"

definition correctionTargets :: "lifecycle_stage \<Rightarrow> lifecycle_stage list" where
  "correctionTargets cur = BACKWARD_TRANSITIONS cur"

definition isTerminal :: "lifecycle_stage \<Rightarrow> bool" where
  "isTerminal cur \<longleftrightarrow> cur = L999_SEAL"

definition isAhead :: "lifecycle_stage \<Rightarrow> lifecycle_stage \<Rightarrow> bool" where
  "isAhead cur target = isForwardTransition cur target"

definition stageName :: "lifecycle_stage \<Rightarrow> string" where
  "stageName stage =
     (case stage of
        L000_INIT \<Rightarrow> ''INIT'' | L111_OBSERVE \<Rightarrow> ''OBSERVE'' | L222_ENCODE \<Rightarrow> ''ENCODE''
      | L333_THINK \<Rightarrow> ''THINK'' | L444_ROUTE \<Rightarrow> ''ROUTE'' | L555_CRITIQUE \<Rightarrow> ''CRITIQUE''
      | L666_HEART \<Rightarrow> ''HEART'' | L777_FORGE \<Rightarrow> ''FORGE'' | L888_JUDGE \<Rightarrow> ''JUDGE''
      | L999_SEAL \<Rightarrow> ''SEAL'')"

definition stageOrgan :: "lifecycle_stage \<Rightarrow> string" where
  "stageOrgan stage =
     (case stage of
        L000_INIT \<Rightarrow> ''arifOS'' | L111_OBSERVE \<Rightarrow> ''domain_organ'' | L222_ENCODE \<Rightarrow> ''A-FORGE''
      | L333_THINK \<Rightarrow> ''arifOS'' | L444_ROUTE \<Rightarrow> ''arifOS'' | L555_CRITIQUE \<Rightarrow> ''WELL''
      | L666_HEART \<Rightarrow> ''WELL'' | L777_FORGE \<Rightarrow> ''A-FORGE'' | L888_JUDGE \<Rightarrow> ''arifOS''
      | L999_SEAL \<Rightarrow> ''VAULT999'')"

section \<open>Validation of a trace\<close>

datatype trace_error = EmptyTrace | BadStart lifecycle_stage | BadTransition nat string

fun trace_loop :: "string \<Rightarrow> nat \<Rightarrow> lifecycle_stage \<Rightarrow> lifecycle_stage list \<Rightarrow> trace_error option" where
  "trace_loop now i prev [] = None"
| "trace_loop now i prev (cur # rest) =
     (let result = validateTransition now prev cur in
      if \<not> tr_allowed result then Some (BadTransition i (tr_reason result))
      else trace_loop now (Suc i) cur rest)"

definition validateLifecycleTrace :: "string \<Rightarrow> lifecycle_stage list \<Rightarrow> trace_error option" where
  "validateLifecycleTrace now trace =
     (case trace of
        [] \<Rightarrow> Some EmptyTrace
      | s # rest \<Rightarrow> if s \<noteq> L000_INIT then Some (BadStart s) else trace_loop now 1 s rest)"

section \<open>The order of the stages\<close>

text \<open>
  The stages are ordered as \<open>FORWARD_ORDER\<close> lists them, so that a forward transition is \<open><\<close>.
\<close>

instantiation lifecycle_stage :: linorder
begin

definition less_eq_lifecycle_stage :: "lifecycle_stage \<Rightarrow> lifecycle_stage \<Rightarrow> bool" where
  "less_eq_lifecycle_stage a b \<longleftrightarrow> the (index_of FORWARD_ORDER a) \<le> the (index_of FORWARD_ORDER b)"

definition less_lifecycle_stage :: "lifecycle_stage \<Rightarrow> lifecycle_stage \<Rightarrow> bool" where
  "less_lifecycle_stage a b \<longleftrightarrow> the (index_of FORWARD_ORDER a) < the (index_of FORWARD_ORDER b)"

instance
proof
  fix x y z :: lifecycle_stage
  show "x < y \<longleftrightarrow> x \<le> y \<and> \<not> y \<le> x"
    by (auto simp: less_lifecycle_stage_def less_eq_lifecycle_stage_def)
  show "x \<le> x" "x \<le> y \<or> y \<le> x"
    by (auto simp: less_eq_lifecycle_stage_def)
  show "x \<le> z" if "x \<le> y" "y \<le> z"
    using that by (auto simp: less_eq_lifecycle_stage_def)
  show "x = y" if "x \<le> y" "y \<le> x"
    using that by (cases x; cases y) (simp_all add: less_eq_lifecycle_stage_def FORWARD_ORDER_def)
qed

end

lemma index_of_Some: "index_of FORWARD_ORDER s \<noteq> None"
  by (cases s) (simp_all add: FORWARD_ORDER_def)

lemma isForwardTransition_less: "isForwardTransition a b \<longleftrightarrow> a < b"
  using index_of_Some [of a] index_of_Some [of b]
  by (auto simp: isForwardTransition_def less_lifecycle_stage_def split: option.splits)

lemma all_transitions_simps [simp]:
  "ALL_TRANSITIONS L000_INIT = [L111_OBSERVE]"
  "ALL_TRANSITIONS L111_OBSERVE = [L222_ENCODE, L333_THINK]"
  "ALL_TRANSITIONS L222_ENCODE = [L333_THINK, L111_OBSERVE]"
  "ALL_TRANSITIONS L333_THINK = [L444_ROUTE, L555_CRITIQUE, L111_OBSERVE, L222_ENCODE]"
  "ALL_TRANSITIONS L444_ROUTE = [L555_CRITIQUE, L666_HEART, L777_FORGE, L333_THINK]"
  "ALL_TRANSITIONS L555_CRITIQUE = [L666_HEART, L777_FORGE, L333_THINK, L444_ROUTE]"
  "ALL_TRANSITIONS L666_HEART = [L777_FORGE, L555_CRITIQUE]"
  "ALL_TRANSITIONS L777_FORGE = [L888_JUDGE, L333_THINK, L444_ROUTE, L555_CRITIQUE]"
  "ALL_TRANSITIONS L888_JUDGE = [L999_SEAL, L111_OBSERVE, L333_THINK, L444_ROUTE, L555_CRITIQUE,
     L666_HEART, L777_FORGE]"
  "ALL_TRANSITIONS L999_SEAL = [L000_INIT]"
  by code_simp+

lemma tables_agree_with_order:
  "b \<in> set (FORWARD_TRANSITIONS a) \<Longrightarrow> a < b"
  "b \<in> set (BACKWARD_TRANSITIONS a) \<Longrightarrow> b < a"
  by (cases a; auto simp: less_lifecycle_stage_def FORWARD_ORDER_def)+

lemma all_transitions_iff:
  "b \<in> set (ALL_TRANSITIONS a) \<longleftrightarrow>
   b \<in> set (FORWARD_TRANSITIONS a) \<or> b \<in> set (BACKWARD_TRANSITIONS a)"
  by (cases a) auto

lemma validateTransition_allowed [simp]:
  "tr_allowed (validateTransition now a b) \<longleftrightarrow> b \<in> set (ALL_TRANSITIONS a)"
  by (simp add: validateTransition_def Let_def)

lemma validateTransition_ends [simp]:
  "tr_from (validateTransition now a b) = a" "tr_to (validateTransition now a b) = b"
  by (simp_all add: validateTransition_def Let_def)

section \<open>Valid traces\<close>

lemma trace_loop_None:
  "trace_loop now i s rest = None \<longleftrightarrow>
   successively (\<lambda>a b. b \<in> set (ALL_TRANSITIONS a)) (s # rest)"
  by (induction now i s rest rule: trace_loop.induct) (auto simp: Let_def)

lemma validateLifecycleTrace_None:
  "validateLifecycleTrace now tr = None \<longleftrightarrow>
   tr \<noteq> [] \<and> hd tr = L000_INIT \<and> successively (\<lambda>a b. b \<in> set (ALL_TRANSITIONS a)) tr"
  by (cases tr) (auto simp: validateLifecycleTrace_def trace_loop_None)

text \<open>
  A region that is entered through one stage only: whoever is inside it came through the
  gate and has stayed inside since.
\<close>

lemma entered_through_gate:
  assumes steps: "successively R tr"
    and outside: "hd tr \<notin> A"
    and entry: "\<And>a b. R a b \<Longrightarrow> b \<in> A \<Longrightarrow> a \<in> A \<or> a = g"
  shows "i < length tr \<Longrightarrow> tr ! i \<in> A \<Longrightarrow>
    \<exists>j < i. tr ! j = g \<and> (\<forall>k. j < k \<longrightarrow> k \<le> i \<longrightarrow> tr ! k \<in> A)"
proof (induction i)
  case 0
  then show ?case using outside by (cases tr) auto
next
  case (Suc i)
  have "R (tr ! i) (tr ! Suc i)"
    using steps Suc.prems(1) by (simp add: successively_conv_nth)
  then have cases: "tr ! i \<in> A \<or> tr ! i = g" using entry Suc.prems(2) by blast
  show ?case
  proof (cases "tr ! i = g")
    case True
    then show ?thesis using Suc.prems(2) by (auto intro!: exI [of _ i] simp: less_Suc_eq_le le_Suc_eq)
  next
    case False
    then obtain j where "j < i" "tr ! j = g" "\<forall>k. j < k \<longrightarrow> k \<le> i \<longrightarrow> tr ! k \<in> A"
      using Suc cases by auto
    then show ?thesis using Suc.prems(2) by (auto intro!: exI [of _ j] simp: le_Suc_eq)
  qed
qed

lemma entry_stages:
  assumes "b \<in> set (ALL_TRANSITIONS a)"
  shows "b = L999_SEAL \<Longrightarrow> a = L888_JUDGE"
    and "b = L888_JUDGE \<Longrightarrow> a = L777_FORGE"
    and "b > L333_THINK \<Longrightarrow> a > L333_THINK \<or> a = L333_THINK"
    and "b > L111_OBSERVE \<Longrightarrow> a > L111_OBSERVE \<or> a = L111_OBSERVE"
  using assms by (cases a; auto simp: less_lifecycle_stage_def FORWARD_ORDER_def)+

text \<open>
  C35. In a trace that the validator accepts, every SEAL is directly preceded by a JUDGE and
  that by a FORGE, and within the same run (no INIT in between) by an OBSERVE and then a
  THINK: no agent reaches the seal without observing, thinking, forging and being judged.
\<close>

theorem sealed_after_judgement:
  assumes valid: "validateLifecycleTrace now tr = None"
    and i: "i < length tr" "tr ! i = L999_SEAL"
  shows "i \<ge> 4 \<and> tr ! (i - 1) = L888_JUDGE \<and> tr ! (i - 2) = L777_FORGE \<and>
    (\<exists>ob th. ob < th \<and> th < i - 2 \<and> tr ! ob = L111_OBSERVE \<and> tr ! th = L333_THINK \<and>
       (\<forall>k. ob \<le> k \<longrightarrow> k \<le> i \<longrightarrow> tr ! k \<noteq> L000_INIT))"
proof -
  let ?R = "\<lambda>a b. b \<in> set (ALL_TRANSITIONS a)"
  have steps: "successively ?R tr" and start: "hd tr = L000_INIT"
    using valid by (simp_all add: validateLifecycleTrace_None)
  have step: "?R (tr ! k) (tr ! Suc k)" if "Suc k < length tr" for k
    using steps that by (simp add: successively_conv_nth)
  have out: "hd tr \<notin> {s. s > L333_THINK}" "hd tr \<notin> {s. s > L111_OBSERVE}"
    by (simp_all add: start less_lifecycle_stage_def FORWARD_ORDER_def)
  have late: "L888_JUDGE > L333_THINK" "L777_FORGE > L333_THINK" "L999_SEAL > L333_THINK"
    "L333_THINK > L111_OBSERVE" "\<not> L000_INIT > L333_THINK" "\<not> L000_INIT > L111_OBSERVE"
    by (simp_all add: less_lifecycle_stage_def FORWARD_ORDER_def)
  obtain th where th: "th < i" "tr ! th = L333_THINK"
      "\<forall>k. th < k \<longrightarrow> k \<le> i \<longrightarrow> tr ! k \<in> {s. s > L333_THINK}"
    using entered_through_gate [OF steps out(1), of L333_THINK i] entry_stages(3) i late by auto
  obtain ob where ob: "ob < th" "tr ! ob = L111_OBSERVE"
      "\<forall>k. ob < k \<longrightarrow> k \<le> th \<longrightarrow> tr ! k \<in> {s. s > L111_OBSERVE}"
    using entered_through_gate [OF steps out(2), of L111_OBSERVE th] entry_stages(4) th i late by auto
  have j: "tr ! (i - 1) = L888_JUDGE"
    using step [of "i - 1"] entry_stages(1) i th(1) by simp
  then have "th < i - 1" using th by (cases "th = i - 1") auto
  then have f: "tr ! (i - 2) = L777_FORGE"
    using step [of "i - 2"] entry_stages(2) i j by (simp add: numeral_2_eq_2 Suc_diff_Suc)
  then have "th < i - 2" using th \<open>th < i - 1\<close> by (cases "th = i - 2") auto
  moreover have "tr ! k \<noteq> L000_INIT" if k: "ob \<le> k" "k \<le> i" for k
  proof -
    consider "k = ob" | "ob < k" "k \<le> th" | "th < k" using k by linarith
    then show ?thesis
    proof cases
      case 1
      then show ?thesis using ob(2) by simp
    next
      case 2
      then have "tr ! k > L111_OBSERVE" using ob(3) by simp
      then show ?thesis using late(6) by auto
    next
      case 3
      then have "tr ! k > L333_THINK" using th(3) k by simp
      then show ?thesis using late(5) by auto
    qed
  qed
  ultimately show ?thesis using ob th j f by (intro conjI exI [of _ ob] exI [of _ th]) auto
qed

theorem sealed_after_judgement_witness:
  "let tr = [L000_INIT, L111_OBSERVE, L333_THINK, L444_ROUTE, L777_FORGE, L888_JUDGE, L999_SEAL] in
   tr ! 6 = L999_SEAL \<and> tr ! 5 = L888_JUDGE \<and> tr ! 4 = L777_FORGE"
  using sealed_after_judgement [of "''t''" "[L000_INIT, L111_OBSERVE, L333_THINK, L444_ROUTE,
      L777_FORGE, L888_JUDGE, L999_SEAL]" 6]
  by (simp add: validateLifecycleTrace_None)

section \<open>Advancing\<close>

lemma budget_check_iff:
  "bc_exceeded (checkReasoningBudget st b) = None \<longleftrightarrow>
     steps_taken st < max_steps b \<and> tool_calls_made st < max_tool_calls b \<and>
     cost_incurred st < max_cost_usd b \<and> tokens_consumed st < max_tokens b \<and>
     \<not> (current_attempts st \<ge> 3 \<and> current_confidence st < 60 / 100) \<and>
     repeated_failures st < 3 \<and> \<not> contradiction_unresolved st"
  unfolding checkReasoningBudget_def Let_def
  by (simp add: not_le split del: if_split split: if_splits)

lemma budget_check_flags:
  "bc_should_halt (checkReasoningBudget st b) \<longleftrightarrow>
     bc_exceeded (checkReasoningBudget st b) \<notin> {None, Some DEscalation}"
  "bc_should_escalate (checkReasoningBudget st b) \<longleftrightarrow>
     bc_exceeded (checkReasoningBudget st b) = Some DEscalation"
  by (simp_all add: checkReasoningBudget_def Let_def)

lemma next_stage_allowed:
  assumes "index_of FORWARD_ORDER s = Some i" "s \<noteq> L999_SEAL"
  shows "Suc i < 10" "FORWARD_ORDER ! Suc i \<in> set (ALL_TRANSITIONS s)"
    "s < FORWARD_ORDER ! Suc i"
  using assms
  by (cases s; auto simp: FORWARD_ORDER_def less_lifecycle_stage_def)+

definition next_stage :: "lifecycle_stage \<Rightarrow> lifecycle_stage" where
  "next_stage s = FORWARD_ORDER ! Suc (the (index_of FORWARD_ORDER s))"

lemma advanceStage_success:
  "ar_success (advanceStage now s b st) \<longleftrightarrow>
   s \<noteq> L999_SEAL \<and> bc_exceeded (checkReasoningBudget st b) = None"
  using index_of_Some [of s] next_stage_allowed [of s] budget_check_flags(1) [of st b]
  by (auto simp: advanceStage_def Let_def split: option.splits)

lemma advanceStage_target:
  assumes "ar_success (advanceStage now s b st)"
  shows "ar_transition (advanceStage now s b st) = validateTransition now s (next_stage s)"
    "\<not> ar_should_halt (advanceStage now s b st)" "\<not> ar_should_escalate (advanceStage now s b st)"
  using assms index_of_Some [of s] next_stage_allowed [of s] budget_check_flags [of st b]
  by (auto simp: advanceStage_def advanceStage_success next_stage_def Let_def split: option.splits)

text \<open>
  The budget check lets a status pass exactly when every limit holds, and otherwise it
  asks either to halt or to escalate, never both. Low confidence after three attempts hides
  the halt conditions: it escalates even with three failures or an unresolved contradiction.
\<close>

theorem budget_check_decides:
  "let r = checkReasoningBudget st b;
       in_limits = (steps_taken st < max_steps b \<and> tool_calls_made st < max_tool_calls b \<and>
         cost_incurred st < max_cost_usd b \<and> tokens_consumed st < max_tokens b);
       unsure = (current_attempts st \<ge> 3 \<and> current_confidence st < 60 / 100)
   in (bc_exceeded r = None \<longleftrightarrow>
        in_limits \<and> \<not> unsure \<and> repeated_failures st < 3 \<and> \<not> contradiction_unresolved st) \<and>
      (bc_should_escalate r \<longleftrightarrow> in_limits \<and> unsure) \<and>
      (bc_should_halt r \<longleftrightarrow> bc_exceeded r \<noteq> None \<and> \<not> bc_should_escalate r)"
proof -
  have "bc_should_escalate (checkReasoningBudget st b) \<longleftrightarrow>
      (steps_taken st < max_steps b \<and> tool_calls_made st < max_tool_calls b \<and>
       cost_incurred st < max_cost_usd b \<and> tokens_consumed st < max_tokens b) \<and>
      (current_attempts st \<ge> 3 \<and> current_confidence st < 60 / 100)"
    unfolding checkReasoningBudget_def Let_def by (simp add: not_le)
  moreover have "bc_should_halt (checkReasoningBudget st b) \<longleftrightarrow>
      bc_exceeded (checkReasoningBudget st b) \<noteq> None \<and> \<not> bc_should_escalate (checkReasoningBudget st b)"
    unfolding budget_check_flags by auto
  ultimately show ?thesis unfolding Let_def budget_check_iff by blast
qed

text \<open>
  \<open>advance_run\<close> calls \<^const>\<open>advanceStage\<close> once per status, from the stage the last call
  reached, and stops at the first refusal. It returns the stages visited.
\<close>

fun advance_run ::
  "string \<Rightarrow> reasoning_budget \<Rightarrow> lifecycle_stage \<Rightarrow> budget_status list \<Rightarrow> lifecycle_stage list" where
  "advance_run now b s [] = [s]"
| "advance_run now b s (st # sts) =
     (let r = advanceStage now s b st in
      if ar_success r then s # advance_run now b (tr_to (ar_transition r)) sts else [s])"

lemma next_stage_nth:
  "i < 9 \<Longrightarrow> next_stage (FORWARD_ORDER ! i) = FORWARD_ORDER ! Suc i"
  "i < 9 \<Longrightarrow> FORWARD_ORDER ! i \<noteq> L999_SEAL"
  by (auto simp: next_stage_def FORWARD_ORDER_def less_Suc_eq numeral_eq_Suc)

lemma advance_run_prefix:
  assumes "\<forall>st \<in> set sts. bc_exceeded (checkReasoningBudget st b) = None" "i \<le> 9"
  shows "advance_run now b (FORWARD_ORDER ! i) sts = take (Suc (length sts)) (drop i FORWARD_ORDER)"
  using assms
proof (induction sts arbitrary: i)
  case Nil
  have "i < length FORWARD_ORDER" using Nil by (simp add: FORWARD_ORDER_def)
  then show ?case by (simp add: Cons_nth_drop_Suc [symmetric])
next
  case (Cons st sts)
  have len: "i < length FORWARD_ORDER" using Cons.prems by (simp add: FORWARD_ORDER_def)
  show ?case
  proof (cases "i = 9")
    case True
    then show ?thesis by (simp add: advanceStage_success Let_def FORWARD_ORDER_def)
  next
    case False
    then have "i < 9" using Cons.prems by simp
    note step = next_stage_nth [OF this]
    have ok: "ar_success (advanceStage now (FORWARD_ORDER ! i) b st)"
      using Cons.prems step by (simp add: advanceStage_success)
    have "advance_run now b (FORWARD_ORDER ! i) (st # sts) =
        FORWARD_ORDER ! i # advance_run now b (FORWARD_ORDER ! Suc i) sts"
      using ok step by (simp add: advanceStage_target Let_def)
    also have "\<dots> = FORWARD_ORDER ! i # take (Suc (length sts)) (drop (Suc i) FORWARD_ORDER)"
      using Cons \<open>i < 9\<close> by simp
    finally show ?thesis using len by (simp add: Cons_nth_drop_Suc [symmetric])
  qed
qed

text \<open>
  C36. While the budget holds, an agent that keeps advancing from INIT visits the stages in
  their canonical order, its trace is valid, and after nine advances it is at the seal,
  where advancing is refused until the reset. The step of the code that reports an invalid
  canonical transition is never reached.
\<close>

theorem advancing_reaches_the_seal:
  assumes "\<forall>st \<in> set sts. bc_exceeded (checkReasoningBudget st b) = None"
  shows "advance_run now b L000_INIT sts = take (Suc (length sts)) FORWARD_ORDER \<and>
    validateLifecycleTrace now (advance_run now b L000_INIT sts) = None \<and>
    (length sts \<ge> 9 \<longrightarrow> last (advance_run now b L000_INIT sts) = L999_SEAL) \<and>
    \<not> ar_success (advanceStage now L999_SEAL b st) \<and> tr_allowed (resetToInit now L999_SEAL)"
proof -
  have run: "advance_run now b L000_INIT sts = take (Suc (length sts)) FORWARD_ORDER"
    using advance_run_prefix [OF assms, of 0 now] by (simp add: FORWARD_ORDER_def)
  have "successively (\<lambda>a b. b \<in> set (ALL_TRANSITIONS a)) FORWARD_ORDER"
    by (simp add: FORWARD_ORDER_def)
  then have prefix: "successively (\<lambda>a b. b \<in> set (ALL_TRANSITIONS a)) (take n FORWARD_ORDER)" for n
    by (metis append_take_drop_id successively_append_iff)
  have ends: "take (Suc n) FORWARD_ORDER \<noteq> []" "hd (take (Suc n) FORWARD_ORDER) = L000_INIT" for n
    by (simp_all add: FORWARD_ORDER_def)
  have "validateLifecycleTrace now (advance_run now b L000_INIT sts) = None"
    unfolding run validateLifecycleTrace_None using prefix ends by blast
  moreover have "last (advance_run now b L000_INIT sts) = L999_SEAL" if "length sts \<ge> 9"
    unfolding run using that by (simp add: FORWARD_ORDER_def)
  ultimately show ?thesis using run by (simp add: advanceStage_success resetToInit_def)
qed

theorem advancing_reaches_the_seal_witness:
  "let st = \<lparr> steps_taken = 1, tool_calls_made = 2, cost_incurred = 1 / 10, tokens_consumed = 500,
              repeated_failures = 0, contradiction_unresolved = False, current_confidence = 1 / 2,
              current_attempts = 2 \<rparr>
   in last (advance_run ''t'' DEFAULT_REASONING_BUDGET L000_INIT (replicate 9 st)) = L999_SEAL"
  unfolding Let_def
  by (rule advancing_reaches_the_seal [THEN conjunct2, THEN conjunct2, THEN conjunct1, THEN mp])
     (simp_all add: checkReasoningBudget_def DEFAULT_REASONING_BUDGET_def)

end
