(* ===== verification/Action_Classifier.thy ===== *)
theory Action_Classifier
  imports Prelude
begin

text \<open>
  The action classifier (\<^verbatim>\<open>src/src/domain/governance/actionClassifier.ts\<close>): the eight
  classes with their priority, the tool lists, \<^verbatim>\<open>classifyTool\<close> by name and mode and the
  two gating predicates. The variable \<^verbatim>\<open>unknownBehaviour\<close> is written by its setter and
  read by nothing, so it has no counterpart here.
\<close>

section \<open>Classes\<close>

datatype action_class =
    OBSERVE | SUGGEST | SIMULATE | DRAFT | QUEUE
  | EXECUTE_REVERSIBLE | EXECUTE_HIGH_IMPACT | IRREVERSIBLE

fun CLASS_PRIORITY :: "action_class \<Rightarrow> nat" where
  "CLASS_PRIORITY OBSERVE = 7"
| "CLASS_PRIORITY SUGGEST = 6"
| "CLASS_PRIORITY SIMULATE = 5"
| "CLASS_PRIORITY DRAFT = 4"
| "CLASS_PRIORITY QUEUE = 3"
| "CLASS_PRIORITY EXECUTE_REVERSIBLE = 2"
| "CLASS_PRIORITY EXECUTE_HIGH_IMPACT = 1"
| "CLASS_PRIORITY IRREVERSIBLE = 0"

definition isMoreSevere :: "action_class \<Rightarrow> action_class \<Rightarrow> bool" where
  "isMoreSevere a b \<longleftrightarrow> CLASS_PRIORITY a < CLASS_PRIORITY b"

text \<open>The classes are ordered by severity: \<open>a < b\<close> when \<open>b\<close> is more severe.\<close>

instantiation action_class :: linorder
begin

definition less_eq_action_class :: "action_class \<Rightarrow> action_class \<Rightarrow> bool" where
  "less_eq_action_class a b \<longleftrightarrow> CLASS_PRIORITY b \<le> CLASS_PRIORITY a"

definition less_action_class :: "action_class \<Rightarrow> action_class \<Rightarrow> bool" where
  "less_action_class a b \<longleftrightarrow> CLASS_PRIORITY b < CLASS_PRIORITY a"

instance
proof
  fix x y z :: action_class
  show "x < y \<longleftrightarrow> x \<le> y \<and> \<not> y \<le> x" by (auto simp: less_action_class_def less_eq_action_class_def)
  show "x \<le> x" "x \<le> y \<or> y \<le> x" by (auto simp: less_eq_action_class_def)
  show "x \<le> z" if "x \<le> y" "y \<le> z" using that by (auto simp: less_eq_action_class_def)
  show "x = y" if "x \<le> y" "y \<le> x"
    using that by (cases x; cases y) (simp_all add: less_eq_action_class_def)
qed

end

lemma isMoreSevere_less: "isMoreSevere a b \<longleftrightarrow> b < a"
  by (simp add: isMoreSevere_def less_action_class_def)

section \<open>Tool lists\<close>

definition IRREVERSIBLE_TOOLS :: "string list" where
  "IRREVERSIBLE_TOOLS =
    [''arif_vault_seal'', ''arif_seal'', ''forge_vault_seal'', ''forge_kernel_seal'',
     ''arif_forge_execute'', ''docker_container_remove'', ''docker_volume_remove'',
     ''systemctl_stop'', ''systemctl_restart'', ''git_push_force'', ''git_hard_reset'',
     ''hostinger_vps_restart'', ''hostinger_vps_stop'', ''forge_github_create_or_update_file'',
     ''forge_visual_seal'', ''forge_seal'']"

definition HIGH_IMPACT_TOOLS :: "string list" where
  "HIGH_IMPACT_TOOLS =
    [''arif_judge'', ''arif_forge'', ''forge_kernel_judge'', ''forge_kernel_forge'',
     ''forge_execute'', ''docker_container_start'', ''docker_container_restart'', ''git_push'',
     ''forge_git_commit'', ''forge_postgres_query'', ''forge_github_pr'', ''forge_vault_write'',
     ''forge_github_create_issue'']"

definition REVERSIBLE_EXEC_TOOLS :: "string list" where
  "REVERSIBLE_EXEC_TOOLS =
    [''arif_init'', ''arif_observe'', ''arif_think'', ''arif_route'', ''arif_memory'',
     ''forge_kernel_init'', ''forge_kernel_observe'', ''forge_kernel_think'',
     ''forge_kernel_route'', ''forge_kernel_memory'', ''write'', ''edit'', ''bash'',
     ''arif_systemctl'', ''arif_sudo'', ''arif_run'', ''forge_docker_exec'', ''forge_remember'',
     ''request_amanah_lock'', ''release_amanah_lock'', ''forge_well_anchor'',
     ''forge_agent_register'', ''forge_job_submit'', ''forge_lease_request'',
     ''forge_lease_revoke'', ''forge_shell'', ''forge_canonize'', ''forge_parallel'',
     ''forge_parallel_cancel'', ''forge_kernel'', ''forge_execute_sealed'',
     ''forge_transfer_confirm'', ''forge_send_confirm'', ''forge_github_create_or_update_file'',
     ''forge_github_create_issue'', ''forge_skill'', ''forge_skillstore_write'',
     ''forge_register'', ''forge_reality_loop'', ''forge_sandbox_run'', ''forge_synthesize'',
     ''forge_stage'', ''forge_tier_bind'', ''forge_lock'', ''forge_pipeline_run'', ''forge_abort'',
     ''forge_parallel'', ''forge_parallel_cancel'']"

definition SIMULATE_FIRST_TOOLS :: "string list" where
  "SIMULATE_FIRST_TOOLS =
    [''forge_dry_run'', ''geox_prospect_evaluate'', ''geox_seismic_compute'']"

definition SUGGEST_TOOLS :: "string list" where
  "SUGGEST_TOOLS =
    [''arif_suggest'', ''forge_suggest'', ''wealth_suggest_allocation'', ''geox_suggest_prospect'']"

definition QUEUE_TOOLS :: "string list" where
  "QUEUE_TOOLS =
    [''forge_queue'', ''forge_schedule'', ''jobs_schedule'']"

definition OBSERVE_TOOLS :: "string list" where
  "OBSERVE_TOOLS =
    [''forge_pipeline'', ''forge_check_governance'', ''forge_job_status'', ''forge_job_result'',
     ''forge_log_tail'', ''forge_registry_status'', ''forge_lease_status'', ''forge_agent_list'',
     ''forge_agent_status'', ''forge_health_check'', ''forge_probe'', ''forge_memory_recall'',
     ''forge_filesystem_glob'', ''forge_filesystem_grep'', ''forge_document_ingest'',
     ''forge_security_drift_scan'', ''forge_git_status'', ''forge_git_log'', ''forge_git_diff'',
     ''forge_docker_ps'', ''forge_docker_images'', ''forge_docker_logs'',
     ''forge_postgres_schema'', ''forge_search'', ''forge_research'', ''forge_docs_lookup'',
     ''forge_browser_navigate'', ''forge_browser_click'', ''forge_browser_type'',
     ''forge_browser_screenshot'', ''forge_browser_extract_text'', ''forge_browser_evaluate_js'',
     ''forge_well_state_read'', ''forge_well_readiness_check'', ''forge_well_floor_scan'',
     ''forge_shell_status'', ''forge_shell_dryrun'', ''forge_shell_ledger'',
     ''forge_shell_alert_history'', ''forge_worktree'', ''forge_runtime_verify'',
     ''forge_cool_drift'', ''forge_cool_pattern'', ''forge_parallel_list'',
     ''forge_parallel_status'', ''forge_visual_qa'', ''forge_heart_critique'',
     ''forge_session_init'', ''forge_memory'', ''forge_predict'', ''forge_isomorphism_check'',
     ''forge_fingerprint_check'', ''forge_entropy_sweep'', ''forge_status'',
     ''forge_surface_guard'', ''forge_surface_audit'', ''forge_netdata_alarms'',
     ''forge_netdata_metrics'', ''forge_journalctl'', ''forge_vps_ports'', ''forge_vps_services'',
     ''forge_vps_cron'', ''forge_receipt_draft'', ''forge_docket_prep'', ''forge_verify_timeline'',
     ''forge_verify'', ''forge_scar_scan'', ''forge_skillstore_read'', ''forge_registry'',
     ''forge_policy'', ''forge_job'', ''forge_wealth'', ''forge_well'', ''forge_docsgpt'',
     ''forge_github_get_file'', ''forge_visual_seal'', ''forge_session_init'',
     ''forge_heart_critique'', ''forge_judge_proxy'', ''forge_chart'', ''forge_scan'',
     ''forge_fetch'', ''forge_fingerprint_check'', ''forge_github'', ''forge_github_get_file'',
     ''forge_journalctl'', ''forge_memory'', ''forge_netdata_alarms'', ''forge_netdata_metrics'',
     ''forge_probe_site'', ''forge_web_zen'', ''forge_receipt_draft'', ''forge_registry'',
     ''forge_scar'', ''forge_skillstore_read'', ''forge_status'', ''forge_surface_audit'',
     ''forge_surface_guard'', ''forge_vps_ports'', ''forge_vps_services'', ''forge_vps_cron'',
     ''forge_verify_timeline'', ''forge_isomorphism_check'', ''forge_policy'',
     ''forge_parallel_list'', ''forge_parallel_status'', ''forge_evaluate'', ''forge_witness'',
     ''forge_entropy_sweep'', ''forge_scar_scan'', ''forge_predict'', ''forge_document_ingest'',
     ''forge_gemini'', ''forge_drive'', ''forge_wm_stats'', ''forge_wm_gaps'',
     ''forge_wm_quality'', ''forge_experience_trace'', ''forge_experience_query'',
     ''forge_skill_select_query'']"

section \<open>Classification\<close>

text \<open>
  What the mode says for a mode-aware tool; \<^term>\<open>None\<close> when no override applies and the
  name decides. An absent mode and an empty one are the same to the tests \<^verbatim>\<open>!mode\<close>.
\<close>

definition mode_override :: "string \<Rightarrow> string option \<Rightarrow> action_class option" where
  "mode_override toolName mode =
     (let md = (case mode of None \<Rightarrow> [] | Some m \<Rightarrow> m) in
      if toolName = ''forge_agent'' then
        (if md \<in> {''list'', ''status''} then Some OBSERVE
         else if md = ''register'' then Some EXECUTE_REVERSIBLE
         else if md = ''kill'' then Some IRREVERSIBLE else None)
      else if toolName = ''forge_filesystem'' then
        (if md = [] then Some OBSERVE
         else if md \<in> {''read'', ''tree'', ''search'', ''stat'', ''glob'', ''grep''} then Some OBSERVE
         else if md \<in> {''write'', ''patch'', ''move'', ''restore''} then Some EXECUTE_REVERSIBLE
         else if md = ''delete'' then Some EXECUTE_HIGH_IMPACT else None)
      else if toolName = ''forge_vault'' then
        (if md = [] then Some OBSERVE
         else if md \<in> {''read'', ''list''} then Some OBSERVE
         else if md \<in> {''write'', ''seal''} then Some EXECUTE_REVERSIBLE else None)
      else if toolName = ''forge_git'' then
        (if md \<in> {''status'', ''diff'', ''log''} then Some OBSERVE
         else if md = ''commit'' then Some EXECUTE_REVERSIBLE else None)
      else if toolName = ''forge_docker'' then
        (if md \<in> {''ps'', ''images'', ''logs''} then Some OBSERVE
         else if md = ''exec'' then Some EXECUTE_REVERSIBLE else None)
      else if toolName = ''forge_lease'' then
        (if md \<in> {''status'', ''list''} then Some OBSERVE
         else if md \<in> {''request'', ''revoke''} then Some EXECUTE_REVERSIBLE else None)
      else if toolName = ''forge_postgres'' then
        (if md = ''schema'' then Some OBSERVE
         else if md = ''query'' then Some OBSERVE else None)
      else if toolName = ''forge_ephemeral'' then
        (if md = [] then Some OBSERVE
         else if md \<in> {''inspect_gap'', ''list_templates'', ''list_active''} then Some OBSERVE
         else if md \<in> {''generate'', ''sandbox_test'', ''invoke'', ''verify'', ''retire'', ''propose_promotion''}
           then Some EXECUTE_REVERSIBLE else None)
      else if toolName = ''forge_reality_loop'' then
        (if md = [] then Some OBSERVE
         else if md \<in> {''start'', ''list'', ''report'', ''metrics''} then Some OBSERVE
         else if md \<in> {''advance'', ''record'', ''seal'', ''destroy''} then Some EXECUTE_REVERSIBLE else None)
      else if toolName = ''forge_calendar'' then
        (if md = [] \<or> md = ''list'' then Some OBSERVE
         else if md = ''create'' then Some EXECUTE_REVERSIBLE else None)
      else if toolName = ''forge_sheets'' then
        (if md = [] \<or> md = ''read'' then Some OBSERVE
         else if md = ''append'' then Some EXECUTE_REVERSIBLE else None)
      else if toolName = ''forge_gmail'' then
        (if md = [] \<or> md = ''read-unread'' then Some OBSERVE
         else if md = ''send'' then Some EXECUTE_REVERSIBLE else None)
      else None)"

definition classify_by_name :: "string \<Rightarrow> action_class" where
  "classify_by_name toolName =
     (if toolName \<in> set IRREVERSIBLE_TOOLS then IRREVERSIBLE
      else if toolName \<in> set HIGH_IMPACT_TOOLS then EXECUTE_HIGH_IMPACT
      else if toolName \<in> set SIMULATE_FIRST_TOOLS then SIMULATE
      else if toolName \<in> set REVERSIBLE_EXEC_TOOLS then EXECUTE_REVERSIBLE
      else if toolName \<in> set SUGGEST_TOOLS then SUGGEST
      else if toolName \<in> set QUEUE_TOOLS then QUEUE
      else if toolName \<in> set OBSERVE_TOOLS then OBSERVE
      else IRREVERSIBLE)"

definition classifyTool :: "string \<Rightarrow> string option \<Rightarrow> action_class" where
  "classifyTool toolName mode =
     (case mode_override toolName mode of Some c \<Rightarrow> c | None \<Rightarrow> classify_by_name toolName)"

definition mode_aware :: "string list" where
  "mode_aware =
     [''forge_agent'', ''forge_filesystem'', ''forge_vault'', ''forge_git'', ''forge_docker'',
      ''forge_lease'', ''forge_postgres'', ''forge_ephemeral'', ''forge_reality_loop'',
      ''forge_calendar'', ''forge_sheets'', ''forge_gmail'']"

definition isClassifiedTool :: "string \<Rightarrow> bool" where
  "isClassifiedTool toolName \<longleftrightarrow>
     toolName \<in> set IRREVERSIBLE_TOOLS \<or> toolName \<in> set HIGH_IMPACT_TOOLS \<or>
     toolName \<in> set REVERSIBLE_EXEC_TOOLS \<or> toolName \<in> set OBSERVE_TOOLS \<or>
     toolName \<in> set SIMULATE_FIRST_TOOLS \<or> toolName \<in> set SUGGEST_TOOLS \<or>
     toolName \<in> set QUEUE_TOOLS \<or> toolName \<in> set mode_aware"

definition requiresGovernance :: "action_class \<Rightarrow> bool" where
  "requiresGovernance c \<longleftrightarrow> c \<noteq> OBSERVE \<and> c \<noteq> SUGGEST"

definition requires888Hold :: "action_class \<Rightarrow> bool" where
  "requires888Hold c \<longleftrightarrow> c = IRREVERSIBLE \<or> c = EXECUTE_HIGH_IMPACT"

section \<open>Gating by severity\<close>

lemma requiresGovernance_order: "requiresGovernance c \<longleftrightarrow> SIMULATE \<le> c"
  by (cases c) (simp_all add: requiresGovernance_def less_eq_action_class_def)

lemma requires888Hold_order: "requires888Hold c \<longleftrightarrow> EXECUTE_HIGH_IMPACT \<le> c"
  by (cases c) (simp_all add: requires888Hold_def less_eq_action_class_def)

lemma mode_override_aware: "t \<notin> set mode_aware \<Longrightarrow> mode_override t m = None"
  by (simp add: mode_override_def mode_aware_def)

lemma classify_unlisted:
  assumes "\<not> isClassifiedTool t"
  shows "classifyTool t m = IRREVERSIBLE"
proof -
  have "mode_override t m = None" using assms by (auto simp: isClassifiedTool_def intro: mode_override_aware)
  then show ?thesis using assms by (simp add: classifyTool_def classify_by_name_def isClassifiedTool_def)
qed

text \<open>
  The classifier is fail-closed: a tool that no list and no mode table names is given the
  most severe class, whatever its mode, so it needs a session, a lease and the 888 hold.
  Among the tools that are listed and not mode-aware, the hold is asked for exactly those
  that a list names as irreversible or high-impact: none of them escapes it by being listed
  again as reversible or read-only.
\<close>

theorem classification_fails_closed:
  "(\<not> isClassifiedTool t \<longrightarrow> classifyTool t m = IRREVERSIBLE \<and>
      requiresGovernance (classifyTool t m) \<and> requires888Hold (classifyTool t m)) \<and>
   (t \<notin> set mode_aware \<longrightarrow>
      (t \<in> set IRREVERSIBLE_TOOLS \<longrightarrow> classifyTool t m = IRREVERSIBLE) \<and>
      (t \<in> set IRREVERSIBLE_TOOLS \<union> set HIGH_IMPACT_TOOLS \<longrightarrow> requires888Hold (classifyTool t m)) \<and>
      (requires888Hold (classifyTool t m) \<longrightarrow> isClassifiedTool t \<longrightarrow>
         t \<in> set IRREVERSIBLE_TOOLS \<union> set HIGH_IMPACT_TOOLS))"
proof -
  have none: "mode_override t m = None" if "t \<notin> set mode_aware"
    using that by (rule mode_override_aware)
  show ?thesis
    using classify_unlisted [of t m] none
    by (auto simp: classifyTool_def classify_by_name_def isClassifiedTool_def
        requiresGovernance_def requires888Hold_def split: if_splits)
qed

theorem classification_fails_closed_witness:
  "classifyTool ''forge_brand_new'' None = IRREVERSIBLE \<and> requires888Hold (classifyTool ''git_push'' None)"
proof -
  have "\<not> isClassifiedTool ''forge_brand_new''" "''git_push'' \<notin> set mode_aware"
    "''git_push'' \<in> set HIGH_IMPACT_TOOLS"
    by code_simp+
  then show ?thesis
    using classification_fails_closed [of "''forge_brand_new''" None]
      classification_fails_closed [of "''git_push''" None] by blast
qed

text \<open>
  The three tools whose list entries say EXECUTE_HIGH_IMPACT (sealed execution, transfer
  and send with confirmation) are classified EXECUTE_REVERSIBLE and therefore run without the
  888 hold, and sealing through the vault tool is reversible to the classifier while the seal
  tools themselves are irreversible. A mode-aware tool without its mode is not always the
  read: the git, docker, lease and agent tools are then irreversible.
\<close>

theorem confirmed_execution_needs_no_hold:
  "(\<forall>t \<in> {''forge_execute_sealed'', ''forge_transfer_confirm'', ''forge_send_confirm''}.
      classifyTool t m = EXECUTE_REVERSIBLE \<and> \<not> requires888Hold (classifyTool t m)) \<and>
   classifyTool ''forge_vault'' (Some ''seal'') = EXECUTE_REVERSIBLE \<and>
   classifyTool ''forge_vault_seal'' m = IRREVERSIBLE \<and>
   (\<forall>t \<in> {''forge_git'', ''forge_docker'', ''forge_lease'', ''forge_agent''}.
      isClassifiedTool t \<and> classifyTool t None = IRREVERSIBLE) \<and>
   (\<forall>t \<in> {''forge_filesystem'', ''forge_vault'', ''forge_ephemeral'', ''forge_reality_loop''}.
      classifyTool t None = OBSERVE)"
proof -
  have name: "mode_override t m = None"
    if "t \<in> {''forge_execute_sealed'', ''forge_transfer_confirm'', ''forge_send_confirm'', ''forge_vault_seal''}"
    for t
  proof -
    have "t \<notin> set mode_aware" using that by (auto simp: mode_aware_def)
    then show ?thesis by (rule mode_override_aware)
  qed
  have c: "classify_by_name ''forge_execute_sealed'' = EXECUTE_REVERSIBLE"
    "classify_by_name ''forge_transfer_confirm'' = EXECUTE_REVERSIBLE"
    "classify_by_name ''forge_send_confirm'' = EXECUTE_REVERSIBLE"
    "classify_by_name ''forge_vault_seal'' = IRREVERSIBLE"
    "classifyTool ''forge_vault'' (Some ''seal'') = EXECUTE_REVERSIBLE"
    by code_simp+
  have d: "\<forall>t \<in> {''forge_git'', ''forge_docker'', ''forge_lease'', ''forge_agent''}.
      isClassifiedTool t \<and> classifyTool t None = IRREVERSIBLE"
    "\<forall>t \<in> {''forge_filesystem'', ''forge_vault'', ''forge_ephemeral'', ''forge_reality_loop''}.
      classifyTool t None = OBSERVE"
    by code_simp+
  have e: "\<forall>t \<in> {''forge_execute_sealed'', ''forge_transfer_confirm'', ''forge_send_confirm''}.
      classifyTool t m = EXECUTE_REVERSIBLE \<and> \<not> requires888Hold (classifyTool t m)"
    using name c(1-3) by (simp add: classifyTool_def requires888Hold_def)
  have f: "classifyTool ''forge_vault_seal'' m = IRREVERSIBLE"
    using name c(4) by (simp add: classifyTool_def)
  show ?thesis using c(5) d e f by blast
qed

theorem confirmed_execution_needs_no_hold_witness:
  "classifyTool ''forge_send_confirm'' None = EXECUTE_REVERSIBLE"
  using confirmed_execution_needs_no_hold [of None] by blast

end
