(* ===== verification/Amanah_Envelope.thy ===== *)
theory Amanah_Envelope
  imports Action_Classifier
begin

text \<open>
  The nonce store (\<^verbatim>\<open>src/src/domain/governance/nonceStore.ts\<close>) and the AMANAH
  authorization envelope (\<^verbatim>\<open>src/src/domain/governance/amanahEnvelope.ts\<close>): building,
  verifying and extending a signed envelope, with replay detection.

  Times are milliseconds (\<^typ>\<open>int\<close>), the reversibility is a real. Code outside the
  repository is a parameter: \<open>blake3\<close> is the hash of the intent's JSON text, and
  \<open>mac secret body\<close> the hexadecimal HMAC of the JSON text of the signed fields. Randomly
  generated nonces are arguments. A reason is a constructor that stands for its text.
\<close>

section \<open>The nonce store\<close>

record nonce_store =
  seen :: "(string, int) jsmap"
  ttlMs :: int
  maxEntries :: int

definition new_nonce_store :: "int \<Rightarrow> int \<Rightarrow> nonce_store" where
  "new_nonce_store ttl mx = \<lparr> seen = [], ttlMs = ttl, maxEntries = mx \<rparr>"

datatype nonce_reason = EmptyNonceSkipped | ReplayDetected string int

record nonce_result =
  nr_replay :: bool
  nr_reason :: "nonce_reason option"

definition evict_oldest :: "nonce_store \<Rightarrow> nonce_store" where
  "evict_oldest s =
     (if int (length (seen s)) > maxEntries s then
        (let entries = sort_key snd (seen s);
             toEvict = take (nat (int (length entries) - maxEntries s)) entries in
         s \<lparr> seen := fold m_delete (map fst toEvict) (seen s) \<rparr>)
      else s)"

definition cleanup :: "int \<Rightarrow> nonce_store \<Rightarrow> nonce_store" where
  "cleanup now s =
     (if 2 * int (length (seen s)) < maxEntries s then s
      else evict_oldest (s \<lparr> seen := filter (\<lambda>(n, t). \<not> now - t \<ge> ttlMs s) (seen s) \<rparr>))"

definition checkAndRecord :: "int \<Rightarrow> string \<Rightarrow> nonce_store \<Rightarrow> nonce_result \<times> nonce_store" where
  "checkAndRecord now nonce s =
     (if nonce = [] then (\<lparr> nr_replay = False, nr_reason = Some EmptyNonceSkipped \<rparr>, s)
      else
        (let s1 = cleanup now s;
             fresh = (\<lparr> nr_replay = False, nr_reason = None \<rparr>, s1 \<lparr> seen := m_set nonce now (seen s1) \<rparr>) in
         case m_get (seen s1) nonce of
           None \<Rightarrow> fresh
         | Some t \<Rightarrow>
             if now - t < ttlMs s1
             then (\<lparr> nr_replay = True, nr_reason = Some (ReplayDetected nonce t) \<rparr>, s1)
             else fresh))"

definition isReplay :: "int \<Rightarrow> string \<Rightarrow> nonce_store \<Rightarrow> bool" where
  "isReplay now nonce s =
     (if nonce = [] then False
      else case m_get (seen s) nonce of None \<Rightarrow> False | Some t \<Rightarrow> now - t < ttlMs s)"

definition record_nonce :: "int \<Rightarrow> string \<Rightarrow> nonce_store \<Rightarrow> nonce_store" where
  "record_nonce now nonce s = (if nonce = [] then s else s \<lparr> seen := m_set nonce now (seen s) \<rparr>)"

definition store_size :: "nonce_store \<Rightarrow> nat" where
  "store_size s = length (seen s)"

definition clear_nonces :: "nonce_store \<Rightarrow> nonce_store" where
  "clear_nonces s = s \<lparr> seen := [] \<rparr>"

section \<open>The envelope\<close>

datatype blast_radius = BLocal | BRepo | BService | BVps | BFederation | BExternal

datatype epistemic_label = OBS | DER | INT | SPEC

record aae_body =
  ae_version :: string
  ae_actor_id :: string
  ae_action_class :: action_class
  ae_reversibility :: real
  ae_blast_radius :: blast_radius
  ae_evidence_refs :: "string list"
  ae_expiry :: int
  ae_nonce :: string
  ae_idempotency_key :: string
  ae_issued_at :: int
  ae_issuer :: string
  ae_judgment_reference :: "string option"

record aae_v1 = aae_body +
  ae_intent_hash :: string
  ae_signature :: string

text \<open>The fields \<^verbatim>\<open>computeSignature\<close> picks.\<close>

definition signed_part :: "aae_v1 \<Rightarrow> aae_body" where
  "signed_part e =
     \<lparr> ae_version = ae_version e, ae_actor_id = ae_actor_id e, ae_action_class = ae_action_class e,
       ae_reversibility = ae_reversibility e, ae_blast_radius = ae_blast_radius e,
       ae_evidence_refs = ae_evidence_refs e, ae_expiry = ae_expiry e, ae_nonce = ae_nonce e,
       ae_idempotency_key = ae_idempotency_key e, ae_issued_at = ae_issued_at e,
       ae_issuer = ae_issuer e, ae_judgment_reference = ae_judgment_reference e \<rparr>"

definition computeSignature :: "(string \<Rightarrow> aae_body \<Rightarrow> string) \<Rightarrow> aae_body \<Rightarrow> string \<Rightarrow> string" where
  "computeSignature mac envelope secret = mac secret envelope"

text \<open>\<^verbatim>\<open>Buffer.from(s, "hex")\<close> decodes pairs of digits up to the first pair that is none.\<close>

definition hex_value :: "char \<Rightarrow> nat option" where
  "hex_value c =
     (let n = of_char c :: nat in
      if 48 \<le> n \<and> n \<le> 57 then Some (n - 48)
      else if 97 \<le> n \<and> n \<le> 102 then Some (n - 87)
      else if 65 \<le> n \<and> n \<le> 70 then Some (n - 55)
      else None)"

fun hex_bytes :: "string \<Rightarrow> nat list" where
  "hex_bytes (a # b # rest) =
     (case (hex_value a, hex_value b) of
        (Some x, Some y) \<Rightarrow> (16 * x + y) # hex_bytes rest
      | _ \<Rightarrow> [])"
| "hex_bytes _ = []"

record aae_options =
  ao_actor_id :: "string option"
  ao_intent :: string
  ao_action_class :: action_class
  ao_reversibility :: real
  ao_blast_radius :: blast_radius
  ao_evidence_refs :: "string list option"
  ao_expiry_ms :: "int option"
  ao_nonce :: "string option"
  ao_idempotency_key :: "string option"
  ao_organ_secret :: string
  ao_issuer :: "string option"
  ao_judgment_reference :: "string option"

datatype aae_error = ActorRequired | SecretRequired | ReversibilityRange real | CannotExtendUnsigned

definition or_else :: "'a option \<Rightarrow> 'a \<Rightarrow> 'a" where
  "or_else v d = (case v of Some x \<Rightarrow> x | None \<Rightarrow> d)"

definition buildAAE ::
  "(string \<Rightarrow> string) \<Rightarrow> (string \<Rightarrow> aae_body \<Rightarrow> string) \<Rightarrow> int \<Rightarrow> string \<Rightarrow> string \<Rightarrow> aae_options
   \<Rightarrow> aae_error + aae_v1" where
  "buildAAE blake3 mac now nonce1 nonce2 ops =
     (if falsy (ao_actor_id ops) then Inl ActorRequired
      else if ao_organ_secret ops = [] then Inl SecretRequired
      else if ao_reversibility ops < 0 \<or> ao_reversibility ops > 1
        then Inl (ReversibilityRange (ao_reversibility ops))
      else
        (let intent_hash = blake3 (ao_intent ops);
             expiry = now + or_else (ao_expiry_ms ops) (5 * 60 * 1000);
             envelope =
               \<lparr> ae_version = ''AAE-v1'', ae_actor_id = the (ao_actor_id ops),
                 ae_action_class = ao_action_class ops, ae_reversibility = ao_reversibility ops,
                 ae_blast_radius = ao_blast_radius ops,
                 ae_evidence_refs = or_else (ao_evidence_refs ops) [], ae_expiry = expiry,
                 ae_nonce = or_else (ao_nonce ops) nonce1,
                 ae_idempotency_key = or_else (ao_idempotency_key ops) nonce2, ae_issued_at = now,
                 ae_issuer = or_else (ao_issuer ops) ''a-forge'',
                 ae_judgment_reference = ao_judgment_reference ops \<rparr> in
         Inr (aae_body.extend envelope
           \<lparr> ae_intent_hash = intent_hash,
             ae_signature = computeSignature mac envelope (ao_organ_secret ops) \<rparr>)))"

datatype verify_reason =
    ActorMissing | ExpiryMissing | SignatureMissing | Expired int | SignatureMismatch
  | Replayed "nonce_reason option" | UnknownVersion string | AaeValid

record verify_result =
  vr_valid :: bool
  vr_reason :: verify_reason
  vr_missing_actor_id :: bool
  vr_missing_expiry :: bool
  vr_missing_signature :: bool
  vr_expired :: bool
  vr_replay_detected :: bool
  vr_epistemic :: epistemic_label

definition denied :: "verify_reason \<Rightarrow> epistemic_label \<Rightarrow> verify_result" where
  "denied r l =
     \<lparr> vr_valid = False, vr_reason = r, vr_missing_actor_id = False, vr_missing_expiry = False,
       vr_missing_signature = False, vr_expired = False, vr_replay_detected = False,
       vr_epistemic = l \<rparr>"

definition signature_ok :: "(string \<Rightarrow> aae_body \<Rightarrow> string) \<Rightarrow> string \<Rightarrow> aae_v1 \<Rightarrow> bool" where
  "signature_ok mac secret e =
     (let expected_sig = computeSignature mac (signed_part e) secret;
          a = hex_bytes (ae_signature e);
          b = hex_bytes expected_sig in
      if length a = length b then a = b else False)"

definition verifyAAE ::
  "(string \<Rightarrow> aae_body \<Rightarrow> string) \<Rightarrow> int \<Rightarrow> aae_v1 \<Rightarrow> string \<Rightarrow> nonce_store option
   \<Rightarrow> verify_result \<times> nonce_store option" where
  "verifyAAE mac now e secret store =
     (if ae_actor_id e = [] then ((denied ActorMissing OBS) \<lparr> vr_missing_actor_id := True \<rparr>, store)
      else if ae_expiry e = 0 then ((denied ExpiryMissing OBS) \<lparr> vr_missing_expiry := True \<rparr>, store)
      else if ae_signature e = [] then
        ((denied SignatureMissing OBS) \<lparr> vr_missing_signature := True \<rparr>, store)
      else if ae_expiry e < now then ((denied (Expired (ae_expiry e)) OBS) \<lparr> vr_expired := True \<rparr>, store)
      else if \<not> signature_ok mac secret e then (denied SignatureMismatch DER, store)
      else
        (let (nonceResult, store') =
               (case store of
                  None \<Rightarrow> (None, None)
                | Some s \<Rightarrow>
                    if ae_nonce e \<noteq> [] then
                      (let (r, s') = checkAndRecord now (ae_nonce e) s in (Some r, Some s'))
                    else (None, Some s)) in
         case nonceResult of
           Some r \<Rightarrow>
             if nr_replay r
             then ((denied (Replayed (nr_reason r)) DER) \<lparr> vr_replay_detected := True \<rparr>, store')
             else if ae_version e \<noteq> ''AAE-v1'' then (denied (UnknownVersion (ae_version e)) OBS, store')
             else ((denied AaeValid OBS) \<lparr> vr_valid := True \<rparr>, store')
         | None \<Rightarrow>
             if ae_version e \<noteq> ''AAE-v1'' then (denied (UnknownVersion (ae_version e)) OBS, store')
             else ((denied AaeValid OBS) \<lparr> vr_valid := True \<rparr>, store')))"

definition extendAAE ::
  "(string \<Rightarrow> aae_body \<Rightarrow> string) \<Rightarrow> aae_v1 \<Rightarrow> int \<Rightarrow> string \<Rightarrow> aae_error + aae_v1" where
  "extendAAE mac e additional_ms secret =
     (if ae_signature e = [] then Inl CannotExtendUnsigned
      else
        (let extended = (signed_part e) \<lparr> ae_expiry := ae_expiry e + additional_ms \<rparr> in
         Inr (aae_body.extend extended
           \<lparr> ae_intent_hash = ae_intent_hash e,
             ae_signature = computeSignature mac extended secret \<rparr>)))"

section \<open>The nonce store refines a log of acceptances\<close>

text \<open>
  The abstract store keeps for every nonce the time it was last accepted and forgets nothing;
  a nonce is live while its acceptance is younger than the time to live.
\<close>

definition spec_check ::
  "int \<Rightarrow> int \<Rightarrow> string \<Rightarrow> (string \<rightharpoonup> int) \<Rightarrow> bool \<times> (string \<rightharpoonup> int)" where
  "spec_check ttl now nonce A =
     (if nonce = [] then (False, A)
      else case A nonce of
        Some t \<Rightarrow> if now - t < ttl then (True, A) else (False, A(nonce \<mapsto> now))
      | None \<Rightarrow> (False, A(nonce \<mapsto> now)))"

fun spec_checks :: "int \<Rightarrow> (int \<times> string) list \<Rightarrow> (string \<rightharpoonup> int) \<Rightarrow> bool list" where
  "spec_checks ttl [] A = []"
| "spec_checks ttl ((now, n) # xs) A =
     (case spec_check ttl now n A of (r, A') \<Rightarrow> r # spec_checks ttl xs A')"

fun run_checks :: "(int \<times> string) list \<Rightarrow> nonce_store \<Rightarrow> bool list" where
  "run_checks [] s = []"
| "run_checks ((now, n) # xs) s =
     (case checkAndRecord now n s of (r, s') \<Rightarrow> nr_replay r # run_checks xs s')"

text \<open>What the store knows at a time: the nonces that are live then, with their times.\<close>

definition live :: "int \<Rightarrow> nonce_store \<Rightarrow> string \<Rightarrow> int option" where
  "live now s n = (case m_get (seen s) n of
     Some t \<Rightarrow> if now - t < ttlMs s then Some t else None | None \<Rightarrow> None)"

definition live_log :: "int \<Rightarrow> int \<Rightarrow> (string \<rightharpoonup> int) \<Rightarrow> string \<Rightarrow> int option" where
  "live_log ttl now A n = (case A n of Some t \<Rightarrow> if now - t < ttl then Some t else None | None \<Rightarrow> None)"

definition knows :: "int \<Rightarrow> nonce_store \<Rightarrow> (string \<rightharpoonup> int) \<Rightarrow> bool" where
  "knows now s A \<longleftrightarrow> m_wf (seen s) \<and> live now s = live_log (ttlMs s) now A"

lemma map_of_filter_times:
  "distinct (map fst xs) \<Longrightarrow>
   map_of (filter (\<lambda>(n, t). P t) xs) n = (case map_of xs n of Some t \<Rightarrow> if P t then Some t else None | None \<Rightarrow> None)"
proof (induction xs)
  case (Cons x xs)
  then have "map_of xs (fst x) = None" by (simp add: map_of_eq_None_iff)
  then show ?case using Cons by (cases x) (auto split: option.splits)
qed simp

lemma evict_oldest_room: "int (length (seen s)) \<le> maxEntries s \<Longrightarrow> evict_oldest s = s"
  by (simp add: evict_oldest_def)

lemma cleanup_fields [simp]:
  "ttlMs (cleanup now s) = ttlMs s" "maxEntries (cleanup now s) = maxEntries s"
  by (simp_all add: cleanup_def evict_oldest_def Let_def)

lemma cleanup_room:
  assumes "int (length (seen s)) \<le> maxEntries s" "m_wf (seen s)"
  shows "m_wf (seen (cleanup now s)) \<and> length (seen (cleanup now s)) \<le> length (seen s) \<and>
    live now (cleanup now s) = live now s"
proof -
  let ?kept = "filter (\<lambda>(n, t). \<not> now - t \<ge> ttlMs s) (seen s)"
  have len: "length ?kept \<le> length (seen s)" by simp
  have "evict_oldest (s\<lparr>seen := ?kept\<rparr>) = s\<lparr>seen := ?kept\<rparr>"
    using assms(1) order_trans [OF _ assms(1), OF of_nat_mono [OF len]] by (intro evict_oldest_room) simp
  then have kept: "cleanup now s = s \<or> cleanup now s = s\<lparr>seen := ?kept\<rparr>" by (simp add: cleanup_def)
  have "live now (s\<lparr>seen := ?kept\<rparr>) = live now s"
    using assms(2) map_of_filter_times [of "seen s" "\<lambda>t. \<not> now - t \<ge> ttlMs s"]
    by (auto simp: live_def m_wf_def fun_eq_iff split: option.splits)
  moreover have "m_wf ?kept" using assms(2) by (simp add: m_wf_def filter_keeps_distinct_keys)
  ultimately show ?thesis using kept len assms(2) by auto
qed

lemma live_record:
  "ttlMs s > 0 \<Longrightarrow> live now (s\<lparr>seen := m_set n now (seen s)\<rparr>) = (live now s)(n \<mapsto> now)"
  by (auto simp: live_def fun_eq_iff store_simps split: option.split)

lemma live_log_record:
  "ttl > 0 \<Longrightarrow> live_log ttl now (A(n \<mapsto> now)) = (live_log ttl now A)(n \<mapsto> now)"
  by (auto simp: live_log_def fun_eq_iff)

lemma length_update: "length (AList.update k v m) \<le> Suc (length m)"
  by (induction m) auto

lemma live_Some: "live now s n = Some t \<longleftrightarrow> m_get (seen s) n = Some t \<and> now - t < ttlMs s"
  by (auto simp: live_def split: option.splits if_splits)

lemma checkAndRecord_cases:
  assumes "nonce \<noteq> []"
  shows "checkAndRecord now nonce s =
    (let s1 = cleanup now s in
     case live now s1 nonce of
       Some t \<Rightarrow> (\<lparr> nr_replay = True, nr_reason = Some (ReplayDetected nonce t) \<rparr>, s1)
     | None \<Rightarrow> (\<lparr> nr_replay = False, nr_reason = None \<rparr>, s1\<lparr>seen := m_set nonce now (seen s1)\<rparr>))"
  using assms by (simp add: checkAndRecord_def live_def Let_def split: option.splits)

lemma spec_check_cases:
  assumes "nonce \<noteq> []"
  shows "spec_check ttl now nonce A =
    (case live_log ttl now A nonce of Some t \<Rightarrow> (True, A) | None \<Rightarrow> (False, A(nonce \<mapsto> now)))"
  using assms by (simp add: spec_check_def live_log_def split: option.splits)

lemma check_simulates:
  assumes "knows now s A" "ttlMs s > 0" "int (length (seen s)) \<le> maxEntries s"
    and c: "checkAndRecord now n s = (r, s')" and a: "spec_check (ttlMs s) now n A = (b, A')"
  shows "nr_replay r = b \<and> knows now s' A' \<and> length (seen s') \<le> Suc (length (seen s)) \<and>
    ttlMs s' = ttlMs s \<and> maxEntries s' = maxEntries s"
proof (cases "n = []")
  case True
  then show ?thesis using assms by (auto simp: checkAndRecord_def spec_check_def)
next
  case False
  let ?s1 = "cleanup now s"
  have room: "m_wf (seen ?s1)" "length (seen ?s1) \<le> length (seen s)" "live now ?s1 = live_log (ttlMs s) now A"
    using cleanup_room [OF assms(3), of now] assms(1) by (auto simp: knows_def)
  have grow: "length (m_set n now (seen ?s1)) \<le> Suc (length (seen s))"
    using length_update [of n now "seen ?s1"] room(2) by linarith
  show ?thesis
  proof (cases "live_log (ttlMs s) now A n")
    case None
    then have "r = \<lparr> nr_replay = False, nr_reason = None \<rparr>" "s' = ?s1\<lparr>seen := m_set n now (seen ?s1)\<rparr>"
      "\<not> b" "A' = A(n \<mapsto> now)"
      using c a False room(3) by (auto simp: checkAndRecord_cases spec_check_cases Let_def)
    then show ?thesis
      using room grow assms(2) by (simp add: knows_def m_wf_update live_record live_log_record)
  next
    case (Some t)
    then have "r = \<lparr> nr_replay = True, nr_reason = Some (ReplayDetected n t) \<rparr>" "s' = ?s1" "b" "A' = A"
      using c a False room(3) by (auto simp: checkAndRecord_cases spec_check_cases Let_def)
    then show ?thesis using room by (simp add: knows_def)
  qed
qed

lemma knows_later:
  assumes "knows now s A" "now \<le> later"
  shows "knows later s A"
proof -
  have "live later s n = (case live now s n of Some t \<Rightarrow> if later - t < ttlMs s then Some t else None | None \<Rightarrow> None)" for n
    using assms(2) by (auto simp: live_def split: option.splits)
  moreover have "live_log (ttlMs s) later A n =
      (case live_log (ttlMs s) now A n of Some t \<Rightarrow> if later - t < ttlMs s then Some t else None | None \<Rightarrow> None)" for n
    using assms(2) by (auto simp: live_log_def split: option.splits)
  ultimately show ?thesis using assms(1) by (simp add: knows_def fun_eq_iff)
qed

lemma run_checks_simulates:
  assumes "sorted (map fst xs)" "knows now s A" "\<forall>x \<in> set xs. now \<le> fst x" "ttlMs s > 0"
    "int (length (seen s) + length xs) \<le> maxEntries s"
  shows "run_checks xs s = spec_checks (ttlMs s) xs A"
  using assms
proof (induction xs arbitrary: now s A)
  case (Cons x xs)
  obtain time n where x: "x = (time, n)" by fastforce
  obtain r s' where c: "checkAndRecord time n s = (r, s')" by fastforce
  obtain b A' where a: "spec_check (ttlMs s) time n A = (b, A')" by fastforce
  have "knows time s A" using knows_later Cons.prems(2,3) x by auto
  from check_simulates [OF this Cons.prems(4) _ c a] Cons.prems(5)
  have step: "nr_replay r = b" "knows time s' A'" "length (seen s') \<le> Suc (length (seen s))"
    "ttlMs s' = ttlMs s" "maxEntries s' = maxEntries s" by simp_all
  have "run_checks xs s' = spec_checks (ttlMs s') xs A'"
    using Cons.prems step x by (intro Cons.IH [of time]) auto
  then show ?case using x c a step by simp
qed simp

text \<open>
  C29. Over any sequence of checks at non-decreasing times that is no longer than its
  capacity, the nonce store answers exactly as the log that never forgets: a nonce is called
  a replay precisely when it was accepted less than the time to live before. Cleaning up
  never changes an answer.
\<close>

theorem nonce_store_refines_log:
  assumes "sorted (map fst xs)" "ttl > 0" "int (length xs) \<le> mx"
  shows "run_checks xs (new_nonce_store ttl mx) = spec_checks ttl xs (\<lambda>_. None)"
proof -
  define t0 where "t0 = (case xs of [] \<Rightarrow> 0 | x # _ \<Rightarrow> fst x)"
  have "\<forall>x \<in> set xs. t0 \<le> fst x"
    using assms(1) by (cases xs) (auto simp: t0_def)
  moreover have "knows t0 (new_nonce_store ttl mx) (\<lambda>_. None)"
    by (simp add: knows_def new_nonce_store_def m_wf_def live_def live_log_def fun_eq_iff)
  ultimately show ?thesis
    using run_checks_simulates [OF assms(1), of t0 "new_nonce_store ttl mx" "\<lambda>_. None"] assms
    by (simp add: new_nonce_store_def)
qed

theorem nonce_store_refines_log_witness:
  "run_checks [(0, ''a''), (5, ''b''), (9, ''a''), (10, ''a''), (12, ''a'')] (new_nonce_store 10 5) =
   [False, False, True, False, True]"
  by (subst nonce_store_refines_log) (simp_all add: spec_check_def)

section \<open>What a verified envelope says\<close>

lemma denied_invalid [simp]: "\<not> vr_valid (denied r l)"
  by (simp add: denied_def)

text \<open>The verdict of the envelope itself, without the nonce.\<close>

definition envelope_ok :: "(string \<Rightarrow> aae_body \<Rightarrow> string) \<Rightarrow> int \<Rightarrow> aae_v1 \<Rightarrow> string \<Rightarrow> bool" where
  "envelope_ok mac now e secret \<longleftrightarrow>
     ae_actor_id e \<noteq> [] \<and> ae_expiry e \<noteq> 0 \<and> ae_signature e \<noteq> [] \<and> now \<le> ae_expiry e \<and>
     signature_ok mac secret e"

lemma verifyAAE_without_store:
  "vr_valid (fst (verifyAAE mac now e secret None)) \<longleftrightarrow>
   envelope_ok mac now e secret \<and> ae_version e = ''AAE-v1''"
  by (auto simp: verifyAAE_def envelope_ok_def not_less)

lemma verifyAAE_with_store:
  assumes "ae_nonce e \<noteq> []"
  shows "verifyAAE mac now e secret (Some s) =
    (if \<not> envelope_ok mac now e secret then (fst (verifyAAE mac now e secret None), Some s)
     else case checkAndRecord now (ae_nonce e) s of (r, s') \<Rightarrow>
       (if nr_replay r then (denied (Replayed (nr_reason r)) DER) \<lparr> vr_replay_detected := True \<rparr>
        else if ae_version e \<noteq> ''AAE-v1'' then denied (UnknownVersion (ae_version e)) OBS
        else (denied AaeValid OBS) \<lparr> vr_valid := True \<rparr>, Some s'))"
  using assms by (auto simp: verifyAAE_def envelope_ok_def not_less split: prod.split)

lemma signed_part_extend [simp]:
  "signed_part (aae_body.extend b \<lparr> ae_intent_hash = h, ae_signature = g \<rparr>) = b"
  "ae_signature (aae_body.extend b \<lparr> ae_intent_hash = h, ae_signature = g \<rparr>) = g"
  "ae_intent_hash (aae_body.extend b \<lparr> ae_intent_hash = h, ae_signature = g \<rparr>) = h"
  "ae_actor_id (aae_body.extend b \<lparr> ae_intent_hash = h, ae_signature = g \<rparr>) = ae_actor_id b"
  "ae_expiry (aae_body.extend b \<lparr> ae_intent_hash = h, ae_signature = g \<rparr>) = ae_expiry b"
  "ae_nonce (aae_body.extend b \<lparr> ae_intent_hash = h, ae_signature = g \<rparr>) = ae_nonce b"
  "ae_version (aae_body.extend b \<lparr> ae_intent_hash = h, ae_signature = g \<rparr>) = ae_version b"
  by (simp_all add: signed_part_def aae_body.defs)

lemma signed_part_fields [simp]:
  "ae_actor_id (signed_part e) = ae_actor_id e" "ae_expiry (signed_part e) = ae_expiry e"
  "ae_version (signed_part e) = ae_version e" "ae_nonce (signed_part e) = ae_nonce e"
  by (simp_all add: signed_part_def)

lemma buildAAE_Inr:
  assumes "buildAAE blake3 mac now nonce1 nonce2 ops = Inr e"
  shows "signature_ok mac (ao_organ_secret ops) e" "ae_actor_id e \<noteq> []" "ae_version e = ''AAE-v1''"
    "ae_expiry e = now + or_else (ao_expiry_ms ops) (5 * 60 * 1000)"
    "ae_signature e = mac (ao_organ_secret ops) (signed_part e)"
  using assms
  by (auto simp: buildAAE_def falsy_def Let_def signature_ok_def computeSignature_def split: if_splits)

lemma extendAAE_Inr:
  assumes "ae_signature e \<noteq> []"
  obtains e' where "extendAAE mac e extra secret = Inr e'" "signature_ok mac secret e'"
    "ae_actor_id e' = ae_actor_id e" "ae_version e' = ae_version e" "ae_expiry e' = ae_expiry e + extra"
    "ae_signature e' = mac secret (signed_part e')" "ae_intent_hash e' = ae_intent_hash e"
  using assms by (simp add: extendAAE_def Let_def signature_ok_def computeSignature_def)

text \<open>
  An envelope that was built verifies under its secret exactly until it expires (the
  default is five minutes after it was issued), and extending it moves that moment by the
  extra time and changes nothing else; building fails exactly for a missing actor, a missing
  secret or a reversibility outside [0, 1].
\<close>

theorem built_envelope_verifies:
  assumes digest: "\<forall>secret b. mac secret b \<noteq> []"
    and built: "buildAAE blake3 mac now nonce1 nonce2 ops = Inr e"
    and nonzero: "ae_expiry e \<noteq> 0" "ae_expiry e + extra \<noteq> 0"
  shows "ae_expiry e = now + or_else (ao_expiry_ms ops) (5 * 60 * 1000) \<and>
    (vr_valid (fst (verifyAAE mac later e (ao_organ_secret ops) None)) \<longleftrightarrow> later \<le> ae_expiry e) \<and>
    (\<exists>e'. extendAAE mac e extra (ao_organ_secret ops) = Inr e' \<and> ae_intent_hash e' = ae_intent_hash e \<and>
      (vr_valid (fst (verifyAAE mac later e' (ao_organ_secret ops) None)) \<longleftrightarrow>
        later \<le> ae_expiry e + extra)) \<and>
    (buildAAE blake3 mac now nonce1 nonce2 bad \<in> range Inl \<longleftrightarrow>
      falsy (ao_actor_id bad) \<or> ao_organ_secret bad = [] \<or> ao_reversibility bad \<notin> {0..1})"
proof -
  note e = buildAAE_Inr [OF built]
  have sig: "ae_signature e \<noteq> []" using digest e(5) by simp
  obtain e' where e': "extendAAE mac e extra (ao_organ_secret ops) = Inr e'"
    "signature_ok mac (ao_organ_secret ops) e'" "ae_actor_id e' = ae_actor_id e"
    "ae_version e' = ae_version e" "ae_expiry e' = ae_expiry e + extra"
    "ae_signature e' = mac (ao_organ_secret ops) (signed_part e')" "ae_intent_hash e' = ae_intent_hash e"
    using extendAAE_Inr [OF sig] by metis
  have v: "vr_valid (fst (verifyAAE mac later e (ao_organ_secret ops) None)) \<longleftrightarrow> later \<le> ae_expiry e"
    using e sig nonzero by (simp add: verifyAAE_without_store envelope_ok_def)
  have v': "vr_valid (fst (verifyAAE mac later e' (ao_organ_secret ops) None)) \<longleftrightarrow>
      later \<le> ae_expiry e + extra"
    using e e' digest nonzero by (simp add: verifyAAE_without_store envelope_ok_def)
  have "buildAAE blake3 mac now nonce1 nonce2 bad \<in> range Inl \<longleftrightarrow>
      falsy (ao_actor_id bad) \<or> ao_organ_secret bad = [] \<or> ao_reversibility bad \<notin> {0..1}"
    by (auto simp: buildAAE_def Let_def)
  then show ?thesis using e(4) v v' e'(1,7) by blast
qed

definition sample_options :: aae_options where
  "sample_options =
     \<lparr> ao_actor_id = Some ''arif'', ao_intent = ''deploy webapp'', ao_action_class = EXECUTE_HIGH_IMPACT,
       ao_reversibility = 3 / 10, ao_blast_radius = BService, ao_evidence_refs = None,
       ao_expiry_ms = None, ao_nonce = Some ''n1'', ao_idempotency_key = None,
       ao_organ_secret = ''s3'', ao_issuer = None, ao_judgment_reference = None \<rparr>"

definition sample_mac :: "string \<Rightarrow> aae_body \<Rightarrow> string" where
  "sample_mac secret b = ''6162'' @ (if ae_actor_id b = ''arif'' then ''00'' else ''01'')"

definition sample_envelope :: aae_v1 where
  "sample_envelope =
     (case buildAAE (\<lambda>i. i) sample_mac 1000 ''r1'' ''r2'' sample_options of Inr e \<Rightarrow> e)"

lemma sample_built: "buildAAE (\<lambda>i. i) sample_mac 1000 ''r1'' ''r2'' sample_options = Inr sample_envelope"
  by (simp add: sample_envelope_def buildAAE_def sample_options_def Let_def)

theorem built_envelope_verifies_witness:
  "vr_valid (fst (verifyAAE sample_mac 301000 sample_envelope ''s3'' None)) \<and>
   \<not> vr_valid (fst (verifyAAE sample_mac 301001 sample_envelope ''s3'' None))"
proof -
  have "ae_expiry sample_envelope = 301000"
    using buildAAE_Inr(4) [OF sample_built] by (simp add: or_else_def sample_options_def)
  then show ?thesis
    using built_envelope_verifies [OF _ sample_built, of 1 301000]
      built_envelope_verifies [OF _ sample_built, of 1 301001]
    by (simp add: sample_mac_def sample_options_def)
qed

lemma signed_part_truncate: "signed_part e = aae_body.truncate e"
  by (simp add: signed_part_def aae_body.defs)

lemma intent_hash_unused:
  "ae_actor_id (e\<lparr>ae_intent_hash := h\<rparr>) = ae_actor_id e" "ae_expiry (e\<lparr>ae_intent_hash := h\<rparr>) = ae_expiry e"
  "ae_signature (e\<lparr>ae_intent_hash := h\<rparr>) = ae_signature e" "ae_nonce (e\<lparr>ae_intent_hash := h\<rparr>) = ae_nonce e"
  "ae_version (e\<lparr>ae_intent_hash := h\<rparr>) = ae_version e"
  "signature_ok mac secret (e\<lparr>ae_intent_hash := h\<rparr>) = signature_ok mac secret e"
  by (simp_all add: signature_ok_def signed_part_def)

text \<open>
  The signature binds the fields it covers: two accepted envelopes with the same
  signature agree on every field but the intent hash, unless the digest collides on them. The intent hash
  is not covered: replacing it by any other changes no verdict, so an envelope authorizes an
  action without binding the intent it was issued for.
\<close>

theorem signature_binds_all_but_intent:
  assumes valid: "vr_valid (fst (verifyAAE mac now e secret None))"
    "vr_valid (fst (verifyAAE mac now' e' secret None))"
    and same: "ae_signature e = ae_signature e'"
    and no_collision: "hex_bytes (mac secret (signed_part e)) = hex_bytes (mac secret (signed_part e')) \<longrightarrow>
      signed_part e = signed_part e'"
  shows "aae_body.truncate e = aae_body.truncate e' \<and>
    verifyAAE mac t (e\<lparr>ae_intent_hash := h\<rparr>) secret st = verifyAAE mac t e secret st"
proof
  have "hex_bytes (mac secret (signed_part e)) = hex_bytes (mac secret (signed_part e'))"
    using valid same
    by (simp add: verifyAAE_without_store envelope_ok_def signature_ok_def computeSignature_def Let_def
        split: if_splits)
  then have "signed_part e = signed_part e'" using no_collision by blast
  then show "aae_body.truncate e = aae_body.truncate e'" by (simp add: signed_part_truncate)
  show "verifyAAE mac t (e\<lparr>ae_intent_hash := h\<rparr>) secret st = verifyAAE mac t e secret st"
    by (simp only: verifyAAE_def intent_hash_unused)
qed

theorem signature_binds_all_but_intent_witness:
  "vr_valid (fst (verifyAAE sample_mac 2000 (sample_envelope\<lparr>ae_intent_hash := ''wipe the disk''\<rparr>) ''s3'' None))"
proof -
  have "ae_expiry sample_envelope = 301000"
    using buildAAE_Inr(4) [OF sample_built] by (simp add: or_else_def sample_options_def)
  then have "vr_valid (fst (verifyAAE sample_mac 2000 sample_envelope ''s3'' None))"
    using buildAAE_Inr [OF sample_built]
    by (simp add: verifyAAE_without_store envelope_ok_def sample_options_def sample_mac_def)
  then show ?thesis
    using signature_binds_all_but_intent [of sample_mac 2000 sample_envelope "''s3''" 2000 sample_envelope
        2000 "''wipe the disk''" None] by simp
qed

text \<open>
  With a nonce store that has room, an envelope that was just accepted is refused as a
  replay as long as its nonce lives, but once the time to live has passed the same envelope
  is accepted again if it has not expired: single use is only guaranteed for envelopes whose
  lifetime does not exceed the store's time to live.
\<close>

theorem replay_window:
  assumes first: "verifyAAE mac now e secret (Some s) = (r, Some s')" "vr_valid r"
    and nonce: "ae_nonce e \<noteq> []"
    and room: "m_wf (seen s)" "ttlMs s > 0" "int (length (seen s)) < maxEntries s"
    and time: "now \<le> later" "later \<le> ae_expiry e"
  shows "if later - now < ttlMs s
    then vr_replay_detected (fst (verifyAAE mac later e secret (Some s'))) \<and>
         \<not> vr_valid (fst (verifyAAE mac later e secret (Some s')))
    else vr_valid (fst (verifyAAE mac later e secret (Some s')))"
proof -
  have ok: "envelope_ok mac now e secret" and v: "ae_version e = ''AAE-v1''"
    using first verifyAAE_with_store [OF nonce, of mac now secret s]
    by (auto simp: verifyAAE_without_store split: if_splits prod.splits)
  then have ok': "envelope_ok mac later e secret" using time(2) by (simp add: envelope_ok_def)
  obtain c s1 where c: "checkAndRecord now (ae_nonce e) s = (c, s1)" by fastforce
  then have "\<not> nr_replay c" "s1 = s'"
    using first ok verifyAAE_with_store [OF nonce, of mac now secret s] by (auto split: if_splits)
  then have s': "s' = (cleanup now s)\<lparr>seen := m_set (ae_nonce e) now (seen (cleanup now s))\<rparr>"
    using c checkAndRecord_cases [OF nonce, of now s] by (auto simp: Let_def split: option.splits)
  have wf: "m_wf (seen (cleanup now s))" and len: "length (seen (cleanup now s)) \<le> length (seen s)"
    using cleanup_room [OF less_imp_le [OF room(3)] room(1)] by auto
  have "m_wf (seen s')" "int (length (seen s')) \<le> maxEntries s'" "ttlMs s' = ttlMs s"
    using s' wf len room(3) length_update [of "ae_nonce e" now "seen (cleanup now s)"]
    by (auto simp: m_wf_update)
  then have "live later (cleanup later s') = live later s'" "ttlMs s' = ttlMs s"
    using cleanup_room by blast+
  moreover have "live later s' (ae_nonce e) = (if later - now < ttlMs s then Some now else None)"
    using s' by (simp add: live_def store_simps)
  ultimately show ?thesis
    using ok' v verifyAAE_with_store [OF nonce, of mac later secret s'] checkAndRecord_cases [OF nonce, of later s']
    by (simp add: Let_def)
qed

theorem replay_window_witness:
  "\<exists>s'. verifyAAE sample_mac 2000 sample_envelope ''s3'' (Some (new_nonce_store 60000 10)) =
        ((denied AaeValid OBS)\<lparr>vr_valid := True\<rparr>, Some s') \<and>
      \<not> vr_valid (fst (verifyAAE sample_mac 61999 sample_envelope ''s3'' (Some s'))) \<and>
      vr_valid (fst (verifyAAE sample_mac 62000 sample_envelope ''s3'' (Some s')))"
proof -
  note e = buildAAE_Inr [OF sample_built]
  have exp: "ae_expiry sample_envelope = 301000"
    using e(4) by (simp add: or_else_def sample_options_def)
  have nonce: "ae_nonce sample_envelope = ''n1''"
    by (simp add: sample_envelope_def buildAAE_def sample_options_def or_else_def Let_def aae_body.defs)
  have ok: "envelope_ok sample_mac 2000 sample_envelope ''s3''"
    using e exp by (simp add: envelope_ok_def sample_options_def sample_mac_def)
  obtain s' where first: "verifyAAE sample_mac 2000 sample_envelope ''s3'' (Some (new_nonce_store 60000 10)) =
      ((denied AaeValid OBS)\<lparr>vr_valid := True\<rparr>, Some s')"
    using ok e(3) nonce
    by (simp add: verifyAAE_with_store checkAndRecord_cases new_nonce_store_def cleanup_def live_def Let_def)
  have "\<not> vr_valid (fst (verifyAAE sample_mac 61999 sample_envelope ''s3'' (Some s')))"
    using replay_window [OF first, of 61999] nonce exp by (simp add: new_nonce_store_def m_wf_def)
  moreover have "vr_valid (fst (verifyAAE sample_mac 62000 sample_envelope ''s3'' (Some s')))"
    using replay_window [OF first, of 62000] nonce exp by (simp add: new_nonce_store_def m_wf_def)
  ultimately show ?thesis using first by blast
qed

end
