(* ===== verification/Halt_Channel.thy ===== *)
theory Halt_Channel
  imports Canonical_Json
begin

text \<open>
  The sovereign halt channel (\<^verbatim>\<open>src/src/domain/governance/F13HaltChannel.ts\<close>): the
  validation of a message, the in-process channel, the file-backed channel that shares its
  halts between processes through a file of JSON lines, and the choice between them.

  A line of the file is \<^term>\<open>None\<close> when \<^verbatim>\<open>JSON.parse\<close> rejects it; blank lines are
  dropped. A file that does not exist is \<^term>\<open>None\<close>. Whether the file system accepts a read
  or a write is an argument. Handlers are numbers, \<open>delivered\<close> the calls they received.
  Warnings on the console are left out.
\<close>

section \<open>Messages\<close>

datatype halt_source = Telegram | AaaA2a | LocalSource

datatype halt_scope = ScopeAction | ScopeTool | ScopeOrgan | ScopeFederation

fun source_text :: "halt_source \<Rightarrow> string" where
  "source_text Telegram = ''telegram''"
| "source_text AaaA2a = ''aaa_a2a''"
| "source_text LocalSource = ''local''"

fun scope_text :: "halt_scope \<Rightarrow> string" where
  "scope_text ScopeAction = ''action''"
| "scope_text ScopeTool = ''tool''"
| "scope_text ScopeOrgan = ''organ''"
| "scope_text ScopeFederation = ''federation''"

definition field :: "json \<Rightarrow> string \<Rightarrow> json" where
  "field m k = (case m of JObj kvs \<Rightarrow> (case map_of kvs k of Some v \<Rightarrow> v | None \<Rightarrow> JUndef) | _ \<Rightarrow> JUndef)"

fun nonempty_text :: "json \<Rightarrow> bool" where
  "nonempty_text (JStr s) \<longleftrightarrow> s \<noteq> []"
| "nonempty_text _ \<longleftrightarrow> False"

fun is_text :: "json \<Rightarrow> bool" where
  "is_text (JStr s) \<longleftrightarrow> True"
| "is_text _ \<longleftrightarrow> False"

fun is_object :: "json \<Rightarrow> bool" where
  "is_object (JObj kvs) \<longleftrightarrow> True"
| "is_object (JArr xs) \<longleftrightarrow> True"
| "is_object _ \<longleftrightarrow> False"

definition isValidHaltMessage :: "json \<Rightarrow> bool" where
  "isValidHaltMessage msg \<longleftrightarrow>
     is_object msg \<and>
     field msg ''type'' = JStr ''F13_HALT'' \<and>
     nonempty_text (field msg ''issued_by'') \<and>
     field msg ''source'' \<in> set (map (\<lambda>x. JStr (source_text x)) [Telegram, AaaA2a, LocalSource]) \<and>
     field msg ''scope'' \<in> set (map (\<lambda>x. JStr (scope_text x))
       [ScopeAction, ScopeTool, ScopeOrgan, ScopeFederation]) \<and>
     nonempty_text (field msg ''target'') \<and>
     nonempty_text (field msg ''reason'') \<and>
     is_text (field msg ''issued_at'') \<and>
     nonempty_text (field msg ''nonce'') \<and>
     nonempty_text (field msg ''signature_or_token'')"

fun text_of :: "json \<Rightarrow> string" where
  "text_of (JStr s) = s"
| "text_of _ = []"

definition halt_key :: "string \<Rightarrow> string \<Rightarrow> string" where
  "halt_key scope target = scope @ '':'' @ target"

definition message_key :: "json \<Rightarrow> string" where
  "message_key msg = halt_key (text_of (field msg ''scope'')) (text_of (field msg ''target''))"

section \<open>The channel\<close>

type_synonym halts = "(string, json) jsmap"

record channel =
  activeHalts :: halts
  handlers :: "nat list"
  delivered :: "(nat \<times> json) list"
  watching :: bool

type_synonym halt_file = "json option list option"

definition emit :: "json \<Rightarrow> channel \<Rightarrow> channel" where
  "emit msg c = c\<lparr>delivered := delivered c @ map (\<lambda>h. (h, msg)) (handlers c)\<rparr>"

definition subscribe :: "nat \<Rightarrow> channel \<Rightarrow> channel" where
  "subscribe h c = c\<lparr>handlers := handlers c @ [h]\<rparr>"

definition unsubscribe :: "nat \<Rightarrow> channel \<Rightarrow> channel" where
  "unsubscribe h c = c\<lparr>handlers := rev (remove1 h (rev (handlers c)))\<rparr>"

definition isActive :: "channel \<Rightarrow> halt_scope \<Rightarrow> string \<Rightarrow> bool" where
  "isActive c scope target \<longleftrightarrow>
     (if m_has (activeHalts c) (halt_key ''federation'' ''all'') then True
      else if m_has (activeHalts c) (halt_key (scope_text scope) target) then True
      else if m_has (activeHalts c) (halt_key (scope_text scope) ''all'') then True
      else False)"

definition publish_in_process :: "json \<Rightarrow> channel \<Rightarrow> channel" where
  "publish_in_process msg c =
     (if \<not> isValidHaltMessage msg then c
      else emit msg (c\<lparr>activeHalts := m_set (message_key msg) msg (activeHalts c)\<rparr>))"

definition reset_in_process :: "channel \<Rightarrow> channel" where
  "reset_in_process c = c\<lparr>activeHalts := []\<rparr>"

section \<open>The file-backed channel\<close>

fun read_lines :: "json option list \<Rightarrow> halts \<Rightarrow> halts" where
  "read_lines [] hs = hs"
| "read_lines (None # ls) hs = read_lines ls hs"
| "read_lines (Some msg # ls) hs =
     read_lines ls (if isValidHaltMessage msg then m_set (message_key msg) msg hs else hs)"

definition loadFromFile :: "bool \<Rightarrow> halt_file \<Rightarrow> channel \<Rightarrow> channel" where
  "loadFromFile readable file c =
     (case file of
        None \<Rightarrow> c
      | Some ls \<Rightarrow> if readable then c\<lparr>activeHalts := read_lines ls (activeHalts c)\<rparr> else c)"

definition startWatching :: "bool \<Rightarrow> halt_file \<Rightarrow> channel \<Rightarrow> halt_file \<times> channel" where
  "startWatching writable file c =
     (case file of
        None \<Rightarrow> if writable then (Some [], c\<lparr>watching := True\<rparr>) else (None, c)
      | Some ls \<Rightarrow> (Some ls, c\<lparr>watching := True\<rparr>))"

definition open_channel :: "bool \<Rightarrow> bool \<Rightarrow> halt_file \<Rightarrow> halt_file \<times> channel" where
  "open_channel readable writable file =
     startWatching writable file
       (loadFromFile readable file
         \<lparr>activeHalts = [], handlers = [], delivered = [], watching = False\<rparr>)"

definition fire_new :: "halts \<Rightarrow> channel \<Rightarrow> channel" where
  "fire_new loaded c =
     fold (\<lambda>(key, msg) c. if m_has (activeHalts c) key then c
                          else emit msg (c\<lparr>activeHalts := m_set key msg (activeHalts c)\<rparr>)) loaded c"

definition clear_removed :: "halts \<Rightarrow> channel \<Rightarrow> channel" where
  "clear_removed loaded c =
     c\<lparr>activeHalts := fold (\<lambda>key hs. if m_has loaded key then hs else m_delete key hs)
                        (m_keys (activeHalts c)) (activeHalts c)\<rparr>"

definition reloadFromFile :: "bool \<Rightarrow> halt_file \<Rightarrow> channel \<Rightarrow> channel" where
  "reloadFromFile readable file c =
     (case file of
        None \<Rightarrow> c
      | Some ls \<Rightarrow>
          if readable then (let loaded = read_lines ls [] in clear_removed loaded (fire_new loaded c))
          else c)"

definition publish :: "bool \<Rightarrow> json \<Rightarrow> halt_file \<Rightarrow> channel \<Rightarrow> halt_file \<times> channel" where
  "publish writable msg file c =
     (if \<not> isValidHaltMessage msg then (file, c)
      else
        (let c1 = c\<lparr>activeHalts := m_set (message_key msg) msg (activeHalts c)\<rparr>;
             file' = (if writable then Some ((case file of None \<Rightarrow> [] | Some ls \<Rightarrow> ls) @ [Some msg])
                      else file) in
         (file', emit msg c1)))"

definition reset :: "bool \<Rightarrow> halt_file \<Rightarrow> channel \<Rightarrow> halt_file \<times> channel" where
  "reset writable file c =
     (case file of None \<Rightarrow> None | Some ls \<Rightarrow> Some (if writable then [] else ls),
      c\<lparr>activeHalts := [], watching := False\<rparr>)"

section \<open>Choice of the channel and the publisher helper\<close>

datatype channel_kind = InProcess | FileBacked

definition getF13HaltChannel :: "channel_kind option \<Rightarrow> string option \<Rightarrow> channel_kind" where
  "getF13HaltChannel existing channelType =
     (case existing of
        Some k \<Rightarrow> k
      | None \<Rightarrow>
          (case channelType of
             Some t \<Rightarrow> if t = ''file'' \<or> t = ''redis'' then FileBacked else InProcess
           | None \<Rightarrow> InProcess))"

definition halt_message ::
  "halt_source \<Rightarrow> halt_scope \<Rightarrow> string \<Rightarrow> string \<Rightarrow> string \<Rightarrow> string \<Rightarrow> string \<Rightarrow> json" where
  "halt_message source scope target reason issuedBy now uuid =
     JObj [(''type'', JStr ''F13_HALT''), (''issued_by'', JStr issuedBy),
           (''source'', JStr (source_text source)), (''scope'', JStr (scope_text scope)),
           (''target'', JStr target), (''reason'', JStr reason), (''issued_at'', JStr now),
           (''nonce'', JStr uuid), (''signature_or_token'', JStr ''local-test-token'')]"

definition issueF13Halt ::
  "bool \<Rightarrow> halt_source \<Rightarrow> halt_scope \<Rightarrow> string \<Rightarrow> string \<Rightarrow> string \<Rightarrow> string \<Rightarrow> string \<Rightarrow>
   halt_file \<Rightarrow> channel \<Rightarrow> halt_file \<times> channel" where
  "issueF13Halt writable source scope target reason issuedBy now uuid file c =
     publish writable (halt_message source scope target reason issuedBy now uuid) file c"

section \<open>Which halts are active\<close>

lemma m_has_small [simp]: "\<not> m_has [] k" "m_has [(a, b)] k \<longleftrightarrow> k = a"
  by (auto simp: m_has_def)

lemma scope_key_inject:
  "halt_key (scope_text a) x = halt_key (scope_text b) y \<longleftrightarrow> a = b \<and> x = y"
  by (cases a; cases b) (auto simp: halt_key_def)

lemma valid_scope:
  assumes "isValidHaltMessage msg"
  obtains sc tg where "field msg ''scope'' = JStr (scope_text sc)" "field msg ''target'' = JStr tg"
    "message_key msg = halt_key (scope_text sc) tg" "tg \<noteq> []"
proof -
  have "field msg ''scope'' \<in> set (map (\<lambda>x. JStr (scope_text x))
      [ScopeAction, ScopeTool, ScopeOrgan, ScopeFederation])"
    using assms by (simp only: isValidHaltMessage_def)
  then obtain sc where sc: "field msg ''scope'' = JStr (scope_text sc)" unfolding set_map by blast
  obtain tg where tg: "field msg ''target'' = JStr tg" "tg \<noteq> []"
    using assms by (cases "field msg ''target''") (auto simp: isValidHaltMessage_def)
  show ?thesis using that [OF sc tg(1) _ tg(2)] sc tg(1) by (simp add: message_key_def)
qed

text \<open>\<open>halts msg scope target\<close>: the message stops the target of the scope.\<close>

definition halts :: "json \<Rightarrow> halt_scope \<Rightarrow> string \<Rightarrow> bool" where
  "halts msg scope target \<longleftrightarrow>
     field msg ''scope'' = JStr ''federation'' \<and> field msg ''target'' = JStr ''all'' \<or>
     field msg ''scope'' = JStr (scope_text scope) \<and> field msg ''target'' \<in> {JStr target, JStr ''all''}"

definition halts_wf :: "halts \<Rightarrow> bool" where
  "halts_wf hs \<longleftrightarrow>
     m_wf hs \<and> (\<forall>k m. m_get hs k = Some m \<longrightarrow> isValidHaltMessage m \<and> k = message_key m)"

definition covers :: "halts \<Rightarrow> halt_scope \<Rightarrow> string \<Rightarrow> bool" where
  "covers hs scope target \<longleftrightarrow>
     m_has hs (halt_key ''federation'' ''all'') \<or> m_has hs (halt_key (scope_text scope) target) \<or>
     m_has hs (halt_key (scope_text scope) ''all'')"

lemma isActive_covers: "isActive c scope target \<longleftrightarrow> covers (activeHalts c) scope target"
  by (simp add: isActive_def covers_def)

lemma covers_keys: "m_has hs = m_has hs' \<Longrightarrow> covers hs = covers hs'"
  by (simp add: covers_def fun_eq_iff)

lemma covers_iff:
  assumes "\<And>k. m_has hs k \<longleftrightarrow> (\<exists>m \<in> M. k = message_key m)" "\<And>m. m \<in> M \<Longrightarrow> isValidHaltMessage m"
  shows "covers hs scope target \<longleftrightarrow> (\<exists>m \<in> M. halts m scope target)"
proof -
  have key: "message_key m = halt_key (scope_text sc) tg \<longleftrightarrow>
      field m ''scope'' = JStr (scope_text sc) \<and> field m ''target'' = JStr tg" if m: "m \<in> M" for m sc tg
  proof -
    obtain a x where m: "field m ''scope'' = JStr (scope_text a)" "field m ''target'' = JStr x"
      "message_key m = halt_key (scope_text a) x" using valid_scope [OF assms(2) [OF m]] by blast
    have "scope_text a = scope_text sc \<longleftrightarrow> a = sc" by (cases a; cases sc) simp_all
    then show ?thesis using m by (simp add: scope_key_inject)
  qed
  have all: "m_has hs (halt_key (scope_text sc) tg) \<longleftrightarrow>
      (\<exists>m \<in> M. field m ''scope'' = JStr (scope_text sc) \<and> field m ''target'' = JStr tg)" for sc tg
    unfolding assms(1) using key by metis
  show ?thesis
    unfolding covers_def halts_def using all [of ScopeFederation "''all''"] all by auto
qed

lemma read_lines_keys:
  "m_has (read_lines ls hs) k \<longleftrightarrow>
   m_has hs k \<or> (\<exists>m. Some m \<in> set ls \<and> isValidHaltMessage m \<and> k = message_key m)"
  by (induction ls hs rule: read_lines.induct) (auto simp: m_has_def store_simps)

lemma read_lines_wf: "m_wf hs \<Longrightarrow> m_wf (read_lines ls hs)"
  by (induction ls hs rule: read_lines.induct) (auto simp: m_wf_update)

lemma fire_new_keys:
  "m_has (activeHalts (fire_new loaded c)) k \<longleftrightarrow> m_has (activeHalts c) k \<or> m_has loaded k"
  unfolding fire_new_def
  by (induction loaded arbitrary: c) (auto simp: m_has_def store_simps emit_def split: if_splits)

lemma fold_delete_keys:
  "m_has (fold (\<lambda>key hs. if P key then hs else m_delete key hs) ks hs) k \<longleftrightarrow>
   m_has hs k \<and> (k \<in> set ks \<longrightarrow> P k)"
  by (induction ks arbitrary: hs) (auto simp: m_has_def store_simps)

lemma clear_removed_keys:
  "m_has (activeHalts (clear_removed loaded c)) k \<longleftrightarrow> m_has (activeHalts c) k \<and> m_has loaded k"
  using m_has_iff [of "activeHalts c" k]
  by (auto simp: clear_removed_def fold_delete_keys simp del: set_map)

lemma reload_keys:
  "m_has (activeHalts (reloadFromFile True (Some ls) c)) k \<longleftrightarrow> m_has (read_lines ls []) k"
  by (auto simp: reloadFromFile_def Let_def clear_removed_keys fire_new_keys)

lemma halts_wf_set:
  "halts_wf hs \<Longrightarrow> isValidHaltMessage m \<Longrightarrow> k = message_key m \<Longrightarrow> halts_wf (m_set k m hs)"
  by (auto simp: halts_wf_def m_wf_update store_simps split: if_splits)

lemma halts_wf_publish [simp]:
  "halts_wf hs \<Longrightarrow> isValidHaltMessage m \<Longrightarrow> halts_wf (m_set (message_key m) m hs)"
  by (simp add: halts_wf_set)

lemma halts_wf_delete: "halts_wf hs \<Longrightarrow> halts_wf (m_delete k hs)"
  by (auto simp: halts_wf_def m_wf_delete store_simps split: if_splits)

lemma halts_wf_Nil [simp]: "halts_wf []"
  by (simp add: halts_wf_def m_wf_def)

lemma read_lines_halts_wf: "halts_wf hs \<Longrightarrow> halts_wf (read_lines ls hs)"
  by (induction ls hs rule: read_lines.induct) simp_all

lemma fire_new_wf:
  "halts_wf (activeHalts c) \<Longrightarrow> (\<And>k m. (k, m) \<in> set loaded \<Longrightarrow> isValidHaltMessage m \<and> k = message_key m) \<Longrightarrow>
   halts_wf (activeHalts (fire_new loaded c))"
  unfolding fire_new_def
proof (induction loaded arbitrary: c)
  case (Cons x loaded)
  obtain k m where x: "x = (k, m)" by fastforce
  have "isValidHaltMessage m" "k = message_key m" using Cons.prems(2) x by auto
  then have "halts_wf (activeHalts (emit m (c\<lparr>activeHalts := m_set k m (activeHalts c)\<rparr>)))"
    using Cons.prems(1) by (simp add: emit_def)
  moreover have IH: "halts_wf (activeHalts c') \<Longrightarrow> halts_wf (activeHalts
      (fold (\<lambda>(key, msg) c. if m_has (activeHalts c) key then c
        else emit msg (c\<lparr>activeHalts := m_set key msg (activeHalts c)\<rparr>)) loaded c'))" for c'
    by (rule Cons.IH) (use Cons.prems(2) in auto)
  ultimately show ?case using Cons.prems(1) x by simp
qed simp

lemma fold_delete_wf:
  "halts_wf hs \<Longrightarrow> halts_wf (fold (\<lambda>key hs. if P key then hs else m_delete key hs) ks hs)"
  by (induction ks arbitrary: hs) (auto intro: halts_wf_delete)

lemma reload_wf:
  assumes "halts_wf (activeHalts c)"
  shows "halts_wf (activeHalts (reloadFromFile r file c))"
proof -
  have "halts_wf (read_lines ls [])" for ls by (simp add: read_lines_halts_wf)
  then have "(k, m) \<in> set (read_lines ls []) \<Longrightarrow> isValidHaltMessage m \<and> k = message_key m" for k m ls
    unfolding halts_wf_def using m_get_iff by metis
  then show ?thesis
    using assms fire_new_wf
    by (auto simp: reloadFromFile_def Let_def clear_removed_def fold_delete_wf split: option.splits)
qed

lemma publish_wf:
  "halts_wf (activeHalts c) \<Longrightarrow> halts_wf (activeHalts (snd (publish w msg file c)))"
  by (simp add: publish_def emit_def Let_def halts_wf_set)

section \<open>Runs of the channel\<close>

text \<open>
  A step of one process: it publishes, reloads or changes its subscriptions, or another
  process (or an operator) leaves any other content in the file.
\<close>

inductive channel_step :: "halt_file \<times> channel \<Rightarrow> halt_file \<times> channel \<Rightarrow> bool" where
  publishes: "publish w msg file c = s' \<Longrightarrow> channel_step (file, c) s'"
| reloads: "channel_step (file, c) (file, reloadFromFile r file c)"
| others: "channel_step (file, c) (file', c)"
| subscribes: "channel_step (file, c) (file, subscribe h c)"
| unsubscribes: "channel_step (file, c) (file, unsubscribe h c)"
| resets: "reset w file c = s' \<Longrightarrow> channel_step (file, c) s'"

interpretation halting: kept_invariant channel_step "\<lambda>s. halts_wf (activeHalts (snd s))"
proof
  fix s t
  assume "channel_step s t" "halts_wf (activeHalts (snd s))"
  then show "halts_wf (activeHalts (snd t))"
    by (cases rule: channel_step.cases)
       (use publish_wf in \<open>fastforce simp: reload_wf subscribe_def unsubscribe_def reset_def\<close>)+
qed

lemma open_channel_wf: "halts_wf (activeHalts (snd (open_channel r w file)))"
  by (auto simp: open_channel_def startWatching_def loadFromFile_def read_lines_halts_wf split: option.splits)

lemma isActive_messages:
  assumes "halts_wf (activeHalts c)"
  shows "isActive c scope target \<longleftrightarrow> (\<exists>m \<in> set (m_values (activeHalts c)). halts m scope target)"
  unfolding isActive_covers
proof (rule covers_iff)
  fix k
  have wf: "m_wf (activeHalts c)" using assms by (simp add: halts_wf_def)
  show "m_has (activeHalts c) k \<longleftrightarrow> (\<exists>m \<in> set (m_values (activeHalts c)). k = message_key m)"
  proof
    assume "m_has (activeHalts c) k"
    then obtain m where m: "m_get (activeHalts c) k = Some m" by (auto simp: m_has_def)
    then have "k = message_key m" "m \<in> set (m_values (activeHalts c))"
      using assms m_get_in [OF m] by (force simp: halts_wf_def)+
    then show "\<exists>m \<in> set (m_values (activeHalts c)). k = message_key m" by blast
  next
    assume "\<exists>m \<in> set (m_values (activeHalts c)). k = message_key m"
    then obtain m k' where m: "(k', m) \<in> set (activeHalts c)" "k = message_key m" by auto
    then have g: "m_get (activeHalts c) k' = Some m" using wf m_get_iff by metis
    then have "k' = k" using assms m(2) by (simp add: halts_wf_def)
    then show "m_has (activeHalts c) k" using g by (simp add: m_has_def)
  qed
next
  fix m
  assume "m \<in> set (m_values (activeHalts c))"
  then obtain k where "(k, m) \<in> set (activeHalts c)" by auto
  then have "m_get (activeHalts c) k = Some m" using assms m_get_iff by (metis halts_wf_def)
  then show "isValidHaltMessage m" using assms by (simp add: halts_wf_def)
qed

lemma publish_keys:
  "isValidHaltMessage msg \<Longrightarrow>
   m_has (activeHalts (snd (publish w msg file c))) k \<longleftrightarrow> m_has (activeHalts c) k \<or> k = message_key msg"
  by (auto simp: publish_def emit_def Let_def m_has_def store_simps)

lemma covers_one: "isValidHaltMessage msg \<Longrightarrow> covers [(message_key msg, msg)] scope target \<longleftrightarrow> halts msg scope target"
  by (subst covers_iff [where M = "{msg}"]) (auto simp: m_has_def)

lemma covers_union:
  assumes "\<And>k. m_has hs k \<longleftrightarrow> m_has hs1 k \<or> m_has hs2 k"
  shows "covers hs scope target \<longleftrightarrow> covers hs1 scope target \<or> covers hs2 scope target"
  unfolding covers_def assms by blast

lemma publish_halts:
  assumes "isValidHaltMessage msg" "halts msg scope target"
  shows "isActive (snd (publish w msg file c)) scope target"
  unfolding isActive_covers
  by (subst covers_union [of _ "activeHalts c" "[(message_key msg, msg)]"])
     (simp_all add: publish_keys assms covers_one)

lemma organ_halt_elsewhere:
  assumes "isValidHaltMessage msg" "field msg ''scope'' = JStr ''organ''" "scope \<noteq> ScopeOrgan"
  shows "isActive (snd (publish w msg file c)) scope target = isActive c scope target"
proof -
  have "\<not> halts msg scope target" using assms by (cases scope) (simp_all add: halts_def)
  then show ?thesis
    unfolding isActive_covers
    by (subst covers_union [of _ "activeHalts c" "[(message_key msg, msg)]"])
       (simp_all add: publish_keys assms(1) covers_one)
qed

text \<open>
  C23. In every reachable state of the channel, whatever other processes do to the file, a
  target is halted exactly when one of the stored messages, all of them valid, covers it: by
  its own name, by \<^verbatim>\<open>all\<close> in its scope, or by the federation-wide halt. Publishing a valid
  message halts exactly what it covers in addition, whether or not the file can be written;
  an invalid message changes nothing.
\<close>

theorem halted_iff_covered:
  assumes run: "channel_step\<^sup>*\<^sup>* (open_channel r w file) (file', c)"
  shows "(isActive c scope target \<longleftrightarrow>
      (\<exists>m \<in> set (m_values (activeHalts c)). isValidHaltMessage m \<and> halts m scope target)) \<and>
    (isActive (snd (publish w' msg file' c)) scope target \<longleftrightarrow>
      isActive c scope target \<or> (isValidHaltMessage msg \<and> halts msg scope target))"
proof -
  have wf: "halts_wf (activeHalts c)" using halting.run_inv [OF run] open_channel_wf by simp
  have "isValidHaltMessage m" if m: "m \<in> set (m_values (activeHalts c))" for m
  proof -
    obtain k where "(k, m) \<in> set (activeHalts c)" using m by auto
    then have "m_get (activeHalts c) k = Some m" using wf m_get_iff by (metis halts_wf_def)
    then show ?thesis using wf by (simp add: halts_wf_def)
  qed
  then have one: "isActive c scope target \<longleftrightarrow>
      (\<exists>m \<in> set (m_values (activeHalts c)). isValidHaltMessage m \<and> halts m scope target)"
    unfolding isActive_messages [OF wf] by blast
  have two: "isActive (snd (publish w' msg file' c)) scope target \<longleftrightarrow>
      isActive c scope target \<or> (isValidHaltMessage msg \<and> halts msg scope target)"
  proof (cases "isValidHaltMessage msg")
    case True
    then show ?thesis
      unfolding isActive_covers covers_one [OF True, symmetric]
      by (subst covers_union [of _ "activeHalts c" "[(message_key msg, msg)]"])
         (simp_all add: publish_keys)
  qed (simp add: publish_def)
  show ?thesis using one two by blast
qed

definition stop_all :: json where
  "stop_all = halt_message Telegram ScopeFederation ''all'' ''stop'' ''arif'' ''t'' ''n''"

lemma stop_all_valid: "isValidHaltMessage stop_all" "halts stop_all scope target"
  by (simp_all add: stop_all_def halt_message_def isValidHaltMessage_def halts_def field_def)

theorem halted_iff_covered_witness:
  "isActive (snd (publish False stop_all None (snd (open_channel True True None)))) ScopeTool ''forge_shell''"
  using halted_iff_covered [of True True None "fst (open_channel True True None)"
      "snd (open_channel True True None)" ScopeTool "''forge_shell''" False stop_all] stop_all_valid
  by (simp add: open_channel_def startWatching_def loadFromFile_def publish_def)

text \<open>
  A reload makes the channel mirror the file: exactly the targets covered by a valid line
  are halted, whatever was active before. So a halt published by one process stops every
  other process from its next reload on, provided it was written; a halt whose write failed
  is lifted by the next reload, in the publishing process too.
\<close>

theorem reload_mirrors_file:
  assumes valid: "isValidHaltMessage msg"
    and published: "publish w msg (Some ls) c = (file', c')"
  shows "isActive (reloadFromFile True file' d) scope target \<longleftrightarrow>
      (w \<and> halts msg scope target) \<or>
      (\<exists>m. Some m \<in> set ls \<and> isValidHaltMessage m \<and> halts m scope target)"
proof -
  define ls' where "ls' = (if w then ls @ [Some msg] else ls)"
  have written: "file' = Some ls'" using published valid by (auto simp: publish_def ls'_def Let_def)
  have "covers (read_lines ls' []) scope target \<longleftrightarrow>
      (\<exists>m \<in> {m. Some m \<in> set ls' \<and> isValidHaltMessage m}. halts m scope target)"
    by (rule covers_iff) (auto simp: read_lines_keys)
  moreover have "isActive (reloadFromFile True file' d) scope target \<longleftrightarrow> covers (read_lines ls' []) scope target"
    unfolding isActive_covers written by (subst covers_keys) (auto simp: reload_keys)
  ultimately show ?thesis using valid by (auto simp: ls'_def)
qed

theorem reload_mirrors_file_witness:
  "\<not> isActive (reloadFromFile True (Some [])
      (snd (publish False stop_all (Some []) (snd (open_channel True True None))))) ScopeTool ''forge_shell''"
  using reload_mirrors_file [OF stop_all_valid(1), of False "[]" "snd (open_channel True True None)" "Some []"
      "snd (publish False stop_all (Some []) (snd (open_channel True True None)))"
      "snd (publish False stop_all (Some []) (snd (open_channel True True None)))" ScopeTool "''forge_shell''"]
    stop_all_valid(1)
  by (simp add: publish_def Let_def)

end
