(* ===== verification/Double_Arith.thy ===== *)
theory Double_Arith
  imports Complex_Main
begin

text \<open>
  Binary64 arithmetic, as far as the scores of the governance code need it: a double is the
  rational it denotes, and every operation rounds its exact result to 53 significant bits,
  ties to even. The lemmas say that the result is near the exact one, that rounding is monotone and
  that it leaves a double as it is. Overflow, subnormal numbers, infinities and NaN do not occur in the scores.
\<close>

function ilog2 :: "int \<Rightarrow> int" where
  "ilog2 n = (if n \<le> 1 then 0 else 1 + ilog2 (n div 2))"
  by auto
termination by (relation "measure nat") auto

declare ilog2.simps [simp del]

definition two_pow :: "int \<Rightarrow> rat" where
  "two_pow e = (if e \<ge> 0 then 2 ^ nat e else 1 / 2 ^ nat (- e))"

text \<open>\<open>binary_exponent a\<close> is the \<open>e\<close> with \<open>2 ^ e \<le> a < 2 ^ (e + 1)\<close>.\<close>

definition binary_exponent :: "rat \<Rightarrow> int" where
  "binary_exponent a =
     (let (p, q) = quotient_of a; e = ilog2 p - ilog2 q in if two_pow e \<le> a then e else e - 1)"

definition round_even :: "rat \<Rightarrow> int" where
  "round_even x =
     (let f = \<lfloor>x\<rfloor>; r = x - of_int f in
      if r < 1 / 2 then f else if r > 1 / 2 then f + 1 else if even f then f else f + 1)"

definition dbl :: "rat \<Rightarrow> rat" where
  "dbl x =
     (if x = 0 then 0
      else (let a = \<bar>x\<bar>; ulp = two_pow (binary_exponent a - 52); m = of_int (round_even (a / ulp)) * ulp in
            if x < 0 then - m else m))"

definition dbl_add :: "rat \<Rightarrow> rat \<Rightarrow> rat" where
  "dbl_add x y = dbl (x + y)"

definition dbl_sub :: "rat \<Rightarrow> rat \<Rightarrow> rat" where
  "dbl_sub x y = dbl (x - y)"

definition dbl_mul :: "rat \<Rightarrow> rat \<Rightarrow> rat" where
  "dbl_mul x y = dbl (x * y)"

definition dbl_div :: "rat \<Rightarrow> rat \<Rightarrow> rat" where
  "dbl_div x y = dbl (x / y)"

lemma round_even_near: "\<bar>of_int (round_even x) - x\<bar> \<le> 1 / 2"
proof -
  define r where "r = x - of_int \<lfloor>x\<rfloor>"
  have r: "0 \<le> r" "r < 1" unfolding r_def by linarith+
  have x: "x = of_int \<lfloor>x\<rfloor> + r" by (simp add: r_def)
  have "round_even x = (if r < 1 / 2 then \<lfloor>x\<rfloor> else if r > 1 / 2 then \<lfloor>x\<rfloor> + 1
      else if even \<lfloor>x\<rfloor> then \<lfloor>x\<rfloor> else \<lfloor>x\<rfloor> + 1)"
    by (simp add: round_even_def r_def Let_def)
  then consider "round_even x = \<lfloor>x\<rfloor>" "r \<le> 1 / 2" | "round_even x = \<lfloor>x\<rfloor> + 1" "r \<ge> 1 / 2"
    by (auto split: if_splits)
  then show ?thesis
  proof cases
    case 1
    then have "of_int (round_even x) - x = - r" using x by simp
    then show ?thesis using r 1(2) by simp
  next
    case 2
    then have "of_int (round_even x) - x = 1 - r" using x by simp
    then show ?thesis using r 2(2) by simp
  qed
qed

lemma round_even_int [simp]: "round_even (of_int n) = n"
  by (simp add: round_even_def)

lemma two_pow_pos: "two_pow e > 0"
  by (simp add: two_pow_def)

text \<open>The result of an operation is within half a unit in the last place of the exact one.\<close>

lemma dbl_near:
  assumes "x \<noteq> 0"
  shows "\<bar>dbl x - x\<bar> \<le> two_pow (binary_exponent \<bar>x\<bar> - 52) / 2"
proof -
  define u where "u = two_pow (binary_exponent \<bar>x\<bar> - 52)"
  have u: "u > 0" by (simp add: u_def two_pow_pos)
  have "of_int (round_even (\<bar>x\<bar> / u)) * u - \<bar>x\<bar> = (of_int (round_even (\<bar>x\<bar> / u)) - \<bar>x\<bar> / u) * u"
    using u by (simp add: left_diff_distrib)
  then have "\<bar>of_int (round_even (\<bar>x\<bar> / u)) * u - \<bar>x\<bar>\<bar> = \<bar>of_int (round_even (\<bar>x\<bar> / u)) - \<bar>x\<bar> / u\<bar> * u"
    using u by (simp add: abs_mult)
  also have "\<dots> \<le> 1 / 2 * u"
    using u round_even_near [of "\<bar>x\<bar> / u"] by (intro mult_right_mono) auto
  finally have "\<bar>of_int (round_even (\<bar>x\<bar> / u)) * u - \<bar>x\<bar>\<bar> \<le> u / 2" by simp
  moreover define m where "m = of_int (round_even (\<bar>x\<bar> / u)) * u"
  moreover have "dbl x = (if x < 0 then - m else m)"
    using assms by (simp add: dbl_def u_def m_def Let_def)
  moreover have "(if x < 0 then - m else m) - x = (if x < 0 then - (m - \<bar>x\<bar>) else m - \<bar>x\<bar>)" by simp
  ultimately have "\<bar>dbl x - x\<bar> = \<bar>m - \<bar>x\<bar>\<bar>" "\<bar>m - \<bar>x\<bar>\<bar> \<le> u / 2"
    by (simp_all only: abs_minus_cancel split: if_split) simp_all
  then show ?thesis by (simp only: u_def [symmetric])
qed

lemma dbl_0 [simp]: "dbl 0 = 0"
  by (simp add: dbl_def)

lemma dbl_nonneg: "x \<ge> 0 \<Longrightarrow> dbl x \<ge> 0"
proof -
  have "round_even y \<ge> 0" if "y \<ge> 0" for y using that by (simp add: round_even_def Let_def)
  then show "dbl x \<ge> 0" if "x \<ge> 0"
    using that two_pow_pos [of "binary_exponent \<bar>x\<bar> - 52"]
    by (auto simp: dbl_def Let_def intro!: mult_nonneg_nonneg)
qed

section \<open>Rounding is monotone and idempotent\<close>

lemma two_pow_powi: "two_pow e = 2 powi e"
  by (auto simp: two_pow_def power_int_def inverse_eq_divide power_one_over)

lemma two_pow_add: "two_pow (a + b) = two_pow a * two_pow b"
  by (simp add: two_pow_powi power_int_add)

lemma two_pow_mono: "a \<le> b \<Longrightarrow> two_pow a \<le> two_pow b"
  by (simp add: two_pow_powi power_int_increasing)

lemma two_pow_nat [simp]: "two_pow (int n) = 2 ^ n"
  by (simp add: two_pow_def)

lemma ilog2_bounds: "n \<ge> 1 \<Longrightarrow> ilog2 n \<ge> 0 \<and> two_pow (ilog2 n) \<le> of_int n \<and> of_int n < two_pow (ilog2 n + 1)"
proof (induction n rule: ilog2.induct)
  case (1 n)
  show ?case
  proof (cases "n \<le> 1")
    case True
    then have "n = 1" using 1 by simp
    then show ?thesis by (simp add: ilog2.simps [of 1] two_pow_def)
  next
    case False
    let ?m = "n div 2"
    have m: "ilog2 ?m \<ge> 0 \<and> two_pow (ilog2 ?m) \<le> of_int ?m \<and> of_int ?m < two_pow (ilog2 ?m + 1)"
      using 1 False by simp
    have n: "ilog2 n = 1 + ilog2 ?m" using False by (simp add: ilog2.simps [of n])
    obtain k where k: "ilog2 ?m = int k" using m by (metis nonneg_eq_int)
    have "(2::rat) ^ k \<le> of_int ?m" "of_int ?m < (2::rat) ^ (k + 1)"
      using m by (simp_all add: k two_pow_def nat_add_distrib)
    then have "2 ^ k \<le> ?m" "?m < 2 ^ (k + 1)"
      by (metis of_int_le_iff of_int_numeral of_int_power, metis of_int_less_iff of_int_numeral of_int_power)
    then have "2 * 2 ^ k \<le> n" "n < 2 * 2 ^ (k + 1)" by linarith+
    then have "2 ^ (k + 1) \<le> n" "n < 2 ^ (k + 2)" by simp_all
    then have "(2::rat) ^ (k + 1) \<le> of_int n" "of_int n < (2::rat) ^ (k + 2)"
      by (metis of_int_le_iff of_int_numeral of_int_power, metis of_int_less_iff of_int_numeral of_int_power)
    moreover have "two_pow (ilog2 n) = 2 ^ (k + 1)" "two_pow (ilog2 n + 1) = 2 ^ (k + 2)"
      unfolding n k by (simp_all add: two_pow_def nat_add_distrib)
    ultimately show ?thesis using m n by simp
  qed
qed

lemma binary_exponent_bounds:
  assumes "a > 0"
  shows "two_pow (binary_exponent a) \<le> a \<and> a < two_pow (binary_exponent a + 1)"
proof -
  obtain p q where pq: "quotient_of a = (p, q)" by fastforce
  have q: "q > 0" using quotient_of_denom_pos [OF pq] .
  have a: "a = of_int p / of_int q" using quotient_of_div [OF pq] .
  have p: "p \<ge> 1" using assms q by (simp add: a zero_less_divide_iff)
  define e where "e = ilog2 p - ilog2 q"
  note P = ilog2_bounds [OF p] and Q = ilog2_bounds [of q]
  have Q': "two_pow (ilog2 q) \<le> of_int q" "of_int q < two_pow (ilog2 q + 1)" using Q q by simp_all
  have up: "a < two_pow (e + 1)"
  proof -
    have "of_int p < two_pow (e + 1) * two_pow (ilog2 q)"
      using P by (simp add: two_pow_add [symmetric] e_def)
    also have "\<dots> \<le> two_pow (e + 1) * of_int q" using Q' two_pow_pos [of "e + 1"] by simp
    finally show ?thesis using q by (simp add: a divide_less_eq)
  qed
  have low: "two_pow (e - 1) \<le> a"
  proof -
    have "two_pow (e - 1) * of_int q \<le> two_pow (e - 1) * two_pow (ilog2 q + 1)"
      using Q' two_pow_pos [of "e - 1"] by simp
    also have "\<dots> = two_pow (ilog2 p)" by (simp add: two_pow_add [symmetric] e_def)
    also have "\<dots> \<le> of_int p" using P by simp
    finally show ?thesis using q by (simp add: a le_divide_eq)
  qed
  show ?thesis using up low by (simp add: binary_exponent_def pq e_def [symmetric] Let_def)
qed

lemma binary_exponent_mono:
  assumes "0 < x" "x \<le> y"
  shows "binary_exponent x \<le> binary_exponent y"
proof (rule ccontr)
  assume "\<not> binary_exponent x \<le> binary_exponent y"
  then have "two_pow (binary_exponent y + 1) \<le> two_pow (binary_exponent x)" by (intro two_pow_mono) simp
  then show False using binary_exponent_bounds [of x] binary_exponent_bounds [of y] assms by simp
qed

lemma round_even_mono: "x \<le> y \<Longrightarrow> round_even x \<le> round_even y"
proof -
  assume le: "x \<le> y"
  have f: "\<lfloor>x\<rfloor> \<le> \<lfloor>y\<rfloor>" using le by (rule floor_mono)
  show ?thesis
  proof (cases "\<lfloor>x\<rfloor> = \<lfloor>y\<rfloor>")
    case True
    then show ?thesis using le by (simp add: round_even_def Let_def)
  next
    case False
    then have "\<lfloor>x\<rfloor> + 1 \<le> \<lfloor>y\<rfloor>" using f by simp
    then show ?thesis by (simp add: round_even_def Let_def)
  qed
qed

lemma two_pow_52: "two_pow (e - 52) * 2 ^ 52 = two_pow e"
proof -
  have "two_pow 52 = 2 ^ 52" by (simp add: two_pow_def)
  then show ?thesis using two_pow_add [of "e - 52" 52] by (simp only: diff_add_cancel)
qed

text \<open>The rounded number stays between the powers of two around the number.\<close>

lemma dbl_pos_bounds:
  assumes "0 < x"
  shows "two_pow (binary_exponent x) \<le> dbl x \<and> dbl x \<le> two_pow (binary_exponent x + 1)"
proof -
  define u where "u = two_pow (binary_exponent x - 52)"
  have u: "u > 0" by (simp add: u_def two_pow_pos)
  have d: "dbl x = of_int (round_even (x / u)) * u" using assms by (simp add: dbl_def u_def Let_def)
  have lo: "of_int (2 ^ 52) * u = two_pow (binary_exponent x)"
    by (metis u_def two_pow_52 mult.commute of_int_power of_int_numeral)
  have hi: "of_int (2 ^ 53) * u = two_pow (binary_exponent x + 1)"
    using two_pow_add [of "binary_exponent x" 1] lo by (simp add: two_pow_def)
  have "of_int (2 ^ 52) \<le> x / u" "x / u \<le> of_int (2 ^ 53)"
    using binary_exponent_bounds [OF assms] u lo hi by (simp_all add: le_divide_eq divide_le_eq)
  from this [THEN round_even_mono] have "2 ^ 52 \<le> round_even (x / u)" "round_even (x / u) \<le> 2 ^ 53"
    unfolding round_even_int by simp_all
  then have "(of_int (2 ^ 52) :: rat) \<le> of_int (round_even (x / u))" "(of_int (round_even (x / u)) :: rat) \<le> of_int (2 ^ 53)"
    by (simp_all only: of_int_le_iff)
  then show ?thesis unfolding d lo [symmetric] hi [symmetric] using u by (simp only: mult_right_mono less_imp_le)
qed

lemma dbl_minus: "dbl (- x) = - dbl x"
  by (simp add: dbl_def Let_def)

lemma dbl_mono_pos: "0 < x \<Longrightarrow> x \<le> y \<Longrightarrow> dbl x \<le> dbl y"
proof -
  assume x: "0 < x" and le: "x \<le> y"
  show ?thesis
  proof (cases "binary_exponent x = binary_exponent y")
    case True
    define u where "u = two_pow (binary_exponent y - 52)"
    have u: "u > 0" by (simp add: u_def two_pow_pos)
    have "round_even (x / u) \<le> round_even (y / u)" using le u by (intro round_even_mono) (simp add: divide_right_mono)
    then have "of_int (round_even (x / u)) * u \<le> of_int (round_even (y / u)) * u"
      using u by (intro mult_right_mono) simp_all
    then show ?thesis using x le True by (simp add: dbl_def u_def Let_def)
  next
    case False
    then have "binary_exponent x + 1 \<le> binary_exponent y" using binary_exponent_mono [OF x le] by simp
    then have "two_pow (binary_exponent x + 1) \<le> two_pow (binary_exponent y)" by (rule two_pow_mono)
    then show ?thesis using dbl_pos_bounds [OF x] dbl_pos_bounds [of y] x le by linarith
  qed
qed

lemma dbl_mono: "x \<le> y \<Longrightarrow> dbl x \<le> dbl y"
proof -
  assume le: "x \<le> y"
  consider "0 < x" | "x \<le> 0" "0 \<le> y" | "y < 0" by linarith
  then show ?thesis
  proof cases
    case 1
    then show ?thesis using le by (rule dbl_mono_pos)
  next
    case 2
    then show ?thesis using dbl_nonneg [of y] dbl_nonneg [of "- x"] by (simp add: dbl_minus)
  next
    case 3
    then show ?thesis using dbl_mono_pos [of "- y" "- x"] le by (simp add: dbl_minus)
  qed
qed


lemma binary_exponent_unique:
  assumes "two_pow e \<le> a" "a < two_pow (e + 1)"
  shows "binary_exponent a = e"
proof -
  have a: "a > 0" using assms(1) two_pow_pos [of e] by simp
  note b = binary_exponent_bounds [OF a]
  show ?thesis
  proof (rule ccontr)
    assume "binary_exponent a \<noteq> e"
    then have "binary_exponent a + 1 \<le> e \<or> e + 1 \<le> binary_exponent a" by linarith
    then have "two_pow (binary_exponent a + 1) \<le> two_pow e \<or> two_pow (e + 1) \<le> two_pow (binary_exponent a)"
      by (blast intro: two_pow_mono)
    then show False using b assms by linarith
  qed
qed

lemma dbl_exact:
  assumes "2 ^ 52 \<le> m" "m < 2 ^ 53"
  shows "dbl (of_int m * two_pow k) = of_int m * two_pow k"
proof -
  let ?x = "of_int m * two_pow k"
  have k: "two_pow k > 0" by (rule two_pow_pos)
  have lo: "(2 ^ 52 :: rat) \<le> of_int m" and hi: "of_int m < (2 ^ 53 :: rat)"
    using assms by (metis of_int_le_iff of_int_numeral of_int_power, metis of_int_less_iff of_int_numeral of_int_power)
  have p: "two_pow (k + 52) = 2 ^ 52 * two_pow k" "two_pow (k + 52 + 1) = 2 ^ 53 * two_pow k"
    by (simp_all add: two_pow_add) (simp_all add: two_pow_def)
  have "binary_exponent ?x = k + 52"
    by (rule binary_exponent_unique) (use lo hi k in \<open>simp_all only: p mult_right_mono mult_strict_right_mono less_imp_le\<close>)
  moreover have x: "?x > 0" using assms k by simp
  ultimately show ?thesis using k by (simp add: dbl_def Let_def)
qed

text \<open>A rounded number is a double: rounding it again changes nothing.\<close>

lemma dbl_idem_pos: "0 < x \<Longrightarrow> dbl (dbl x) = dbl x"
proof -
  assume x: "0 < x"
  define u where "u = two_pow (binary_exponent x - 52)"
  define m where "m = round_even (x / u)"
  have u: "u > 0" by (simp add: u_def two_pow_pos)
  have d: "dbl x = of_int m * u" using x by (simp add: dbl_def u_def m_def Let_def)
  have p: "two_pow (binary_exponent x) = 2 ^ 52 * u" "two_pow (binary_exponent x + 1) = 2 ^ 53 * u"
    using two_pow_52 [of "binary_exponent x"] two_pow_52 [of "binary_exponent x + 1"]
      two_pow_add [of "binary_exponent x - 52" 1]
    by (simp_all add: u_def two_pow_def [of 1] algebra_simps)
  have "(2 ^ 52 :: rat) \<le> of_int m" "of_int m \<le> (2 ^ 53 :: rat)"
    using dbl_pos_bounds [OF x] u unfolding d p by simp_all
  then have m: "2 ^ 52 \<le> m" "m \<le> 2 ^ 53"
    by (metis of_int_le_iff of_int_numeral of_int_power)+
  show ?thesis
  proof (cases "m = 2 ^ 53")
    case False
    then show ?thesis using dbl_exact [of m "binary_exponent x - 52"] m unfolding d u_def by simp
  next
    case True
    have "dbl x = of_int (2 ^ 52) * two_pow (binary_exponent x - 51)"
      using two_pow_add [of "binary_exponent x - 52" 1] unfolding d True
      by (simp add: u_def two_pow_def [of 1])
    then show ?thesis using dbl_exact [of "2 ^ 52" "binary_exponent x - 51"] by simp
  qed
qed

lemma dbl_idem [simp]: "dbl (dbl x) = dbl x"
proof -
  consider "0 < x" | "x = 0" | "0 < - x" by linarith
  then show ?thesis
  proof cases
    case 3
    then have "dbl (dbl (- x)) = dbl (- x)" by (rule dbl_idem_pos)
    then show ?thesis by (simp add: dbl_minus)
  qed (simp_all add: dbl_idem_pos)
qed

lemma dbl_add_grows: "dbl c = c \<Longrightarrow> c \<le> x \<Longrightarrow> 0 \<le> d \<Longrightarrow> c \<le> dbl_add x d"
  using dbl_mono [of c "x + d"] by (simp add: dbl_add_def)

end
