(* ===== verification/Floor_Request.thy ===== *)
theory Floor_Request
  imports Text_Match Double_Arith Amanah_Envelope Halt_Channel
begin

text \<open>
  The data the floors read (\<^verbatim>\<open>src/src/domain/types/action-request.ts\<close>,
  \<^verbatim>\<open>src/src/domain/governance/floor-types.ts\<close>) and the floors that look at single
  fields: F1 (\<^verbatim>\<open>f1Amanah.ts\<close>), F2 (\<^verbatim>\<open>f2Truth.ts\<close>), F5 (\<^verbatim>\<open>f5Peace2.ts\<close>),
  F10 (\<^verbatim>\<open>f10Ontology.ts\<close>) and, from \<^verbatim>\<open>FloorEnforcer.ts\<close>, F3, F4, F7, F8, F9, F11
  and F13.

  The floors check at run time what the types promise, so the category is a string and the
  tier, an optional number, \<^term>\<open>None\<close> when it is undefined; a string that is missing is
  empty. Numbers are the rationals that doubles denote, NaN apart. Messages are left out of
  the reasons.
\<close>

section \<open>Requests\<close>

definition ALL_CATEGORIES :: "string list" where
  "ALL_CATEGORIES =
    [''READ'', ''WRITE'', ''DELETE'', ''EXECUTE'', ''NETWORK_OUT'', ''NETWORK_IN'',
       ''FORM_SUBMIT'', ''EMAIL_SEND'', ''DATABASE_WRITE'', ''VAULT_SEAL'', ''VAULT_READ'',
       ''PRODUCTION_DEPLOY'', ''FINANCIAL_TRANSACTION'', ''SECRET_ROTATION'',
       ''CONSTITUTIONAL_FLOOR_CHANGE'', ''AGENT_SPAWN'', ''AGENT_HALT'', ''MEMORY_WRITE'',
       ''MEMORY_READ'', ''INFRASTRUCTURE_RESTART'', ''OTHER'']"

record outcome_spec =
  os_objective :: "string option"
  os_success_criteria :: "string list option"
  os_sensitivity :: "string option"

record mission =
  ms_outcome :: "outcome_spec option"

record action_request =
  action_id :: string
  tool_name :: string
  action_type :: string
  target :: string
  tier :: "rat option"
  actor :: string
  session_id :: string
  intent :: string
  expected_outcome :: string
  args :: "(string \<times> json) list option"
  mission :: "mission option"
  reversibility_score :: "rat option"
  blast_radius :: "blast_radius option"
  rollback_plan :: "string option"
  evidence_count :: "rat option"
  sensitivity :: "string option"
  metadata :: "(string \<times> json) list"

record floor_context =
  fc_action :: action_request
  fc_actor_id :: string
  fc_session_id :: string
  f13_halt_active :: bool
  f13_halt_scope :: "halt_scope option"
  g_score :: "rat option"
  quad_witness :: "rat option"
  fc_aae :: "aae_v1 option"
  fc_organ_secret :: "string option"

section \<open>Reasons\<close>

datatype floor_name = F1 | F2 | F3 | F4 | F5 | F6 | F7 | F8 | F9 | F10 | F11 | F12 | F13

datatype severity = SEAL | SABAR | CAUTION | HOLD | VOID

record floor_reason =
  floor_of :: floor_name
  code_of :: string
  severity_of :: severity

abbreviation reason :: "floor_name \<Rightarrow> string \<Rightarrow> severity \<Rightarrow> floor_reason" where
  "reason f c s \<equiv> \<lparr> floor_of = f, code_of = c, severity_of = s \<rparr>"

definition canonicalSeverity :: "severity \<Rightarrow> severity" where
  "canonicalSeverity s = (if s = CAUTION then SABAR else s)"

datatype verdict_code =
    OK | OK_CONDITIONAL | HOLD_AUTH_REQUIRED | HOLD_WITNESS_INSUFFICIENT | HOLD_MODE3_COLLAPSE
  | HOLD_FLOOR_VIOLATION | HOLD_IDENTITY_UNVERIFIED | HOLD_PARADOX | HOLD_MANUAL_REVIEW
  | SABAR_NEEDS_MORE_EVIDENCE | SABAR_LOW_CONFIDENCE | SABAR_WITNESS_DEGRADED | SABAR_STALE_STATE
  | VOID_FLOOR_VIOLATION | VOID_HANTU | VOID_INJECTION | VOID_IRREVERSIBLE_UNAUTHORIZED

definition toVerdictCode :: "severity \<Rightarrow> string \<Rightarrow> verdict_code" where
  "toVerdictCode sev code =
     (case canonicalSeverity sev of
        SEAL \<Rightarrow> OK
      | SABAR \<Rightarrow>
          if starts_with code ''F2_'' \<or> starts_with code ''F6_''
          then SABAR_NEEDS_MORE_EVIDENCE else SABAR_LOW_CONFIDENCE
      | HOLD \<Rightarrow>
          if starts_with code ''F1_'' then HOLD_AUTH_REQUIRED
          else if starts_with code ''F3_'' then
            (if str_includes code ''MODE3'' then HOLD_MODE3_COLLAPSE else HOLD_WITNESS_INSUFFICIENT)
          else if starts_with code ''F5_'' then HOLD_FLOOR_VIOLATION
          else if starts_with code ''F7_'' then HOLD_MANUAL_REVIEW
          else HOLD_FLOOR_VIOLATION
      | VOID \<Rightarrow>
          if starts_with code ''F9_'' then VOID_HANTU
          else if starts_with code ''F12_'' then VOID_INJECTION
          else if starts_with code ''F1_'' then VOID_IRREVERSIBLE_UNAUTHORIZED
          else VOID_FLOOR_VIOLATION
      | CAUTION \<Rightarrow> OK)"

definition blank :: "string \<Rightarrow> bool" where
  "blank s \<longleftrightarrow> trim s = []"

definition raise_if :: "bool \<Rightarrow> floor_reason \<Rightarrow> floor_reason list" where
  "raise_if b r = (if b then [r] else [])"

section \<open>F1 AMANAH\<close>

fun SEVERITY_FLOOR :: "action_class \<Rightarrow> action_class list" where
  "SEVERITY_FLOOR OBSERVE =
     [OBSERVE, SUGGEST, SIMULATE, DRAFT, QUEUE, EXECUTE_REVERSIBLE, EXECUTE_HIGH_IMPACT, IRREVERSIBLE]"
| "SEVERITY_FLOOR SUGGEST =
     [SUGGEST, SIMULATE, DRAFT, QUEUE, EXECUTE_REVERSIBLE, EXECUTE_HIGH_IMPACT, IRREVERSIBLE]"
| "SEVERITY_FLOOR SIMULATE =
     [SIMULATE, DRAFT, QUEUE, EXECUTE_REVERSIBLE, EXECUTE_HIGH_IMPACT, IRREVERSIBLE]"
| "SEVERITY_FLOOR DRAFT = [DRAFT, QUEUE, EXECUTE_REVERSIBLE, EXECUTE_HIGH_IMPACT, IRREVERSIBLE]"
| "SEVERITY_FLOOR QUEUE = [QUEUE, EXECUTE_REVERSIBLE, EXECUTE_HIGH_IMPACT, IRREVERSIBLE]"
| "SEVERITY_FLOOR EXECUTE_REVERSIBLE = [EXECUTE_REVERSIBLE, EXECUTE_HIGH_IMPACT, IRREVERSIBLE]"
| "SEVERITY_FLOOR EXECUTE_HIGH_IMPACT = [EXECUTE_HIGH_IMPACT, IRREVERSIBLE]"
| "SEVERITY_FLOOR IRREVERSIBLE = [IRREVERSIBLE]"

definition aaeActionClassMatches :: "action_class \<Rightarrow> action_class \<Rightarrow> bool" where
  "aaeActionClassMatches aaeClass toolClass =
     (if aaeClass = toolClass then True
      else if aaeClass = EXECUTE_HIGH_IMPACT \<and> toolClass = IRREVERSIBLE then True
      else if aaeClass = IRREVERSIBLE \<and> toolClass \<noteq> IRREVERSIBLE then False
      else False)"

definition destructive_categories :: "string list" where
  "destructive_categories =
     [''DELETE'', ''VAULT_SEAL'', ''PRODUCTION_DEPLOY'', ''FINANCIAL_TRANSACTION'',
      ''SECRET_ROTATION'', ''CONSTITUTIONAL_FLOOR_CHANGE'', ''INFRASTRUCTURE_RESTART'']"

definition no_rollback :: "action_request \<Rightarrow> bool" where
  "no_rollback a \<longleftrightarrow> (case rollback_plan a of None \<Rightarrow> True | Some p \<Rightarrow> blank p)"

definition checkF1Amanah ::
  "(string \<Rightarrow> aae_body \<Rightarrow> string) \<Rightarrow> int \<Rightarrow> floor_context \<Rightarrow> floor_reason list" where
  "checkF1Amanah mac now ctx =
     (let a = fc_action ctx in
      raise_if (blank (actor a)) (reason F1 ''ACTOR_MISSING'' VOID) @
      raise_if (blank (session_id a)) (reason F1 ''SESSION_MISSING'' VOID) @
      raise_if (case reversibility_score a of None \<Rightarrow> False | Some r \<Rightarrow> r < 0 \<or> r > 1)
        (reason F1 ''REVERSIBILITY_OUT_OF_RANGE'' VOID) @
      raise_if (case (blast_radius a, reversibility_score a) of
              (Some b, Some r) \<Rightarrow> r < dbl (3 / 10) \<and> b \<in> {BService, BVps, BFederation, BExternal}
            | _ \<Rightarrow> False)
        (reason F1 ''HIGH_BLAST_LOW_REVERSIBILITY'' HOLD) @
      raise_if (action_type a \<in> set destructive_categories \<and> no_rollback a)
        (reason F1 ''DESTRUCTIVE_NO_ROLLBACK'' HOLD) @
      raise_if (action_type a = ''CONSTITUTIONAL_FLOOR_CHANGE'') (reason F1 ''FLOOR_CHANGE_NEEDS_F13'' HOLD) @
      (case fc_aae ctx of
         None \<Rightarrow> []
       | Some aae \<Rightarrow>
           raise_if (ae_action_class aae \<notin> set (SEVERITY_FLOOR (classifyTool (tool_name a) None)))
             (reason F1 ''AAE_ACTION_CLASS_MISMATCH'' VOID) @
           (case fc_organ_secret ctx of
              None \<Rightarrow> []
            | Some secret \<Rightarrow>
                raise_if (secret \<noteq> [] \<and> \<not> vr_valid (fst (verifyAAE mac now aae secret None)))
                  (reason F1 ''AAE_VERIFICATION_FAILED'' VOID))))"

section \<open>F2 TRUTH\<close>

definition requires_epistemic :: "string list" where
  "requires_epistemic =
     [''EXECUTE'', ''WRITE'', ''DELETE'', ''DATABASE_WRITE'', ''VAULT_SEAL'', ''PRODUCTION_DEPLOY'',
      ''FINANCIAL_TRANSACTION'', ''CONSTITUTIONAL_FLOOR_CHANGE'']"

definition checkF2Truth :: "floor_context \<Rightarrow> floor_reason list" where
  "checkF2Truth ctx =
     (let a = fc_action ctx in
      if action_type a \<in> set requires_epistemic then
        (if tier a = Some 0 then [reason F2 ''TIER_UNKNOWN'' VOID]
         else raise_if (tier a = Some 1 \<or> tier a = Some 2) (reason F2 ''TIER_LOW'' HOLD)) @
        raise_if ((case tier a of None \<Rightarrow> False | Some t \<Rightarrow> t \<ge> 3) \<and>
              (case evidence_count a of None \<Rightarrow> True | Some n \<Rightarrow> n < 1))
          (reason F2 ''EVIDENCE_MISSING'' HOLD)
      else [])"

section \<open>F5 PEACE\<close>

definition F5_DESTRUCTIVE_VERBS :: "string list" where
  "F5_DESTRUCTIVE_VERBS =
    [''delete'', ''wipe'', ''destroy'', ''kill'', ''purge'', ''reset'', ''drop'', ''force'',
       ''overwrite'', ''revoke'', ''shutdown'', ''rotate-secret'', ''chmod-777'', ''truncate'',
       ''terminate'', ''abort'', ''evict'', ''demolish'']"

definition DESTRUCTIVE_VERB_PATTERN :: rx where
  "DESTRUCTIVE_VERB_PATTERN = rx_seq [RWordB, rx_words F5_DESTRUCTIVE_VERBS, RWordB]"

definition escalation_pattern :: rx where
  "escalation_pattern =
     rx_seq [RWordB,
       rx_alt [rx_seq [rx_text ''chmod'', rx_opt (rx_text ''-''), rx_text ''777''],
               rx_seq [rx_text ''chmod'', RSpaces, rx_text ''777''],
               rx_text ''rotate-secret'', rx_text ''force-reset'', rx_text ''hard-reset''],
       RWordB]"

definition checkF5Peace2 :: "floor_context \<Rightarrow> floor_reason list" where
  "checkF5Peace2 ctx =
     (let a = fc_action ctx;
          hasDestructiveVerb =
            rx_test_i DESTRUCTIVE_VERB_PATTERN (tool_name a) \<or>
            rx_test_i DESTRUCTIVE_VERB_PATTERN (action_type a) \<or>
            rx_test_i DESTRUCTIVE_VERB_PATTERN (intent a) in
      (if hasDestructiveVerb then
         [if no_rollback a then reason F5 ''DESTRUCTIVE_NO_ROLLBACK'' HOLD
          else reason F5 ''DESTRUCTIVE_WITH_ROLLBACK'' CAUTION]
       else []) @
      raise_if (blast_radius a \<in> {Some BService, Some BVps, Some BFederation} \<and>
            action_type a \<in> {''INFRASTRUCTURE_RESTART'', ''PRODUCTION_DEPLOY'', ''EXECUTE''})
        (reason F5 ''LIVE_SERVICE_BLAST'' HOLD) @
      raise_if (rx_test_i escalation_pattern (intent a) \<and>
            blast_radius a \<in> {Some BExternal, Some BFederation})
        (reason F5 ''EXTERNAL_DESTRUCTIVE_ESCALATION'' HOLD))"

section \<open>F10 ONTOLOGY\<close>

definition MUTATING_CATEGORIES :: "string list" where
  "MUTATING_CATEGORIES =
     [''WRITE'', ''DELETE'', ''EXECUTE'', ''NETWORK_OUT'', ''FORM_SUBMIT'', ''EMAIL_SEND'',
      ''DATABASE_WRITE'', ''VAULT_SEAL'', ''PRODUCTION_DEPLOY'', ''FINANCIAL_TRANSACTION'',
      ''SECRET_ROTATION'', ''CONSTITUTIONAL_FLOOR_CHANGE'', ''AGENT_SPAWN'', ''AGENT_HALT'',
      ''MEMORY_WRITE'', ''INFRASTRUCTURE_RESTART'']"

text \<open>The required fields in the order of the code, each with whether it is missing.\<close>

definition required_fields :: "action_request \<Rightarrow> (string \<times> bool) list" where
  "required_fields a =
     [(''action_id'', blank (action_id a)), (''tool_name'', blank (tool_name a)),
      (''action_type'', blank (action_type a)), (''target'', blank (target a)),
      (''tier'', tier a = None), (''actor'', blank (actor a)),
      (''session_id'', blank (session_id a)), (''intent'', blank (intent a)),
      (''expected_outcome'', blank (expected_outcome a))]"

definition tier_invalid :: "rat option \<Rightarrow> bool" where
  "tier_invalid t = (case t of None \<Rightarrow> True | Some n \<Rightarrow> n < 0 \<or> n > 5 \<or> n \<noteq> of_int \<lfloor>n\<rfloor>)"

definition checkF10Ontology :: "floor_context \<Rightarrow> floor_reason list" where
  "checkF10Ontology ctx =
     (let a = fc_action ctx in
      map (\<lambda>(f, _). reason F10 (''FIELD_MISSING:'' @ f) VOID) (filter snd (required_fields a)) @
      raise_if (action_type a \<notin> set ALL_CATEGORIES) (reason F10 ''ACTION_TYPE_INVALID'' VOID) @
      raise_if (action_type a \<in> set MUTATING_CATEGORIES \<and> blank (target a))
        (reason F10 ''MUTATION_TARGET_MISSING'' VOID) @
      raise_if (tier_invalid (tier a)) (reason F10 ''TIER_INVALID'' VOID) @
      (case mission a of
         None \<Rightarrow> []
       | Some m \<Rightarrow>
           raise_if (case ms_outcome m of
                   None \<Rightarrow> True
                 | Some oc \<Rightarrow> (case os_objective oc of None \<Rightarrow> True | Some s \<Rightarrow> length s < 10))
             (reason F10 ''OUTCOME_SPEC_MALFORMED'' VOID) @
           raise_if (case ms_outcome m of
                   None \<Rightarrow> True
                 | Some oc \<Rightarrow> (case os_success_criteria oc of None \<Rightarrow> True | Some cs \<Rightarrow> cs = []))
             (reason F10 ''OUTCOME_SPEC_NO_CRITERIA'' HOLD)))"

section \<open>The small floors of the enforcer\<close>

definition checkF3Witness :: "floor_context \<Rightarrow> floor_reason list" where
  "checkF3Witness ctx =
     (case quad_witness ctx of
        None \<Rightarrow> []
      | Some w \<Rightarrow> raise_if (w < dbl (75 / 100)) (reason F3 ''WITNESS_INSUFFICIENT'' HOLD))"

definition checkF4Clarity :: "floor_context \<Rightarrow> floor_reason list" where
  "checkF4Clarity ctx =
     (let a = fc_action ctx in
      raise_if (length (trim (intent a)) < 5) (reason F4 ''INTENT_AMBIGUOUS'' HOLD) @
      raise_if (length (trim (expected_outcome a)) < 5) (reason F4 ''OUTCOME_AMBIGUOUS'' HOLD))"

definition checkF7Humility :: "floor_context \<Rightarrow> floor_reason list" where
  "checkF7Humility ctx =
     (let a = fc_action ctx in
      raise_if (action_type a \<in> {''EXECUTE'', ''PRODUCTION_DEPLOY'', ''FINANCIAL_TRANSACTION''} \<and>
            (case tier a of None \<Rightarrow> True | Some t \<Rightarrow> t < 2))
        (reason F7 ''HUMILITY_MISSING'' HOLD))"

definition checkF8Genius :: "floor_context \<Rightarrow> floor_reason list" where
  "checkF8Genius ctx =
     (case g_score ctx of
        None \<Rightarrow> []
      | Some g \<Rightarrow> raise_if (g < dbl (80 / 100)) (reason F8 ''GENIUS_BELOW_THRESHOLD'' HOLD))"

definition hantuPatterns :: "rx list" where
  "hantuPatterns =
     [rx_seq [rx_text ''i'', RSpaces,
        rx_alt [rx_text ''feel'', rx_text ''think'', rx_text ''believe'', rx_text ''want'',
                rx_text ''desire'', rx_seq [rx_text ''am'', RSpaces, rx_text ''conscious'']]],
      rx_seq [rx_text ''my'', RSpaces,
        rx_words [''thoughts'', ''feelings'', ''consciousness'', ''soul'']]]"

definition checkF9AntiHantu :: "floor_context \<Rightarrow> floor_reason list" where
  "checkF9AntiHantu ctx =
     (let a = fc_action ctx; haystack = intent a @ '' '' @ expected_outcome a in
      raise_if (list_ex (\<lambda>p. rx_test_i p haystack) hantuPatterns) (reason F9 ''ANTIHANTU_VIOLATION'' VOID))"

definition checkF11Auth :: "floor_context \<Rightarrow> floor_reason list" where
  "checkF11Auth ctx =
     (let a = fc_action ctx in
      raise_if (starts_with (session_id a) ''SEAL-'' \<and> actor a = ''anonymous'')
        (reason F11 ''ACTOR_UNVERIFIED'' VOID))"

definition checkF13Sovereign :: "channel \<Rightarrow> floor_context \<Rightarrow> floor_reason list" where
  "checkF13Sovereign c ctx =
     (let a = fc_action ctx in
      if isActive c ScopeAction (action_id a) \<or> isActive c ScopeTool (tool_name a) \<or>
         isActive c ScopeFederation ''all''
      then [reason F13 ''HALT_ACTIVE'' VOID]
      else if (case mission a of
                 None \<Rightarrow> False
               | Some m \<Rightarrow> (case ms_outcome m of
                   None \<Rightarrow> False | Some oc \<Rightarrow> os_sensitivity oc = Some ''SOVEREIGN''))
      then [reason F13 ''SOVEREIGN_TIER_NEEDS_ACK'' HOLD]
      else [])"

definition checkUnknownAction :: "floor_context \<Rightarrow> floor_reason list" where
  "checkUnknownAction ctx =
     (let a = fc_action ctx in
      raise_if (action_type a \<notin> set ALL_CATEGORIES) (reason F10 ''ACTION_TYPE_UNKNOWN'' HOLD) @
      raise_if (tier a \<notin> set (map Some [0, 1, 2, 3, 4, 5])) (reason F10 ''TIER_UNKNOWN'' HOLD))"

end
