(* ===== verification/Floor_Injection.thy ===== *)
theory Floor_Injection
  imports Floor_Request
begin

text \<open>
  The injection floor F12 (\<^verbatim>\<open>src/src/domain/governance/f12Injection.ts\<close> with the threat
  patterns of \<^verbatim>\<open>src/src/domain/types/action-request.ts\<close>): the text it scans, the
  allow-lists and the seven rules.

  The arguments of the tool are its JSON fields in order. The text of a number, for the rule
  that joins parts of the task context, is that of the runtime.
\<close>

section \<open>Threat patterns\<close>

definition shell_chars :: "char list" where
  "shell_chars = '';|&$<>!*?{}[]'' @ [CHR 0x60, CHR 0x5C]"

definition SHELL_METACHARS :: rx where
  "SHELL_METACHARS = RSet shell_chars"

definition PATH_TRAVERSAL :: rx where
  "PATH_TRAVERSAL =
     rx_words [''../'', [CHR ''.'', CHR ''.'', CHR 0x5C]]"

definition ABSOLUTE_SENSITIVE :: rx where
  "ABSOLUTE_SENSITIVE =
     rx_seq [RStart, rx_words [''/etc/'', ''/root/'', ''/proc/'', ''/sys/'', ''/var/log/'',
       ''/dev/'']]"

definition PROMPT_INJECTION_PHRASES :: "rx list" where
  "PROMPT_INJECTION_PHRASES =
    [rx_seq [rx_text ''ignore'', RSpaces, rx_opt (rx_seq [rx_text ''all'', RSpaces]),
       rx_text ''previous''],
     rx_seq [rx_text ''bypass'', RSpaces, rx_words [''safety'', ''guard'', ''gate'', ''floor'',
       ''filter'', ''check'']],
     rx_seq [rx_text ''override'', RSpaces, rx_words [''system'', ''safety'', ''policy'',
       ''floor'', ''gate'']],
     rx_seq [rx_text ''reveal'', RSpaces, rx_words [''secret'', ''password'', ''token'', ''key'',
       ''credential'']],
     rx_seq [rx_text ''disable'', RSpaces, rx_words [''safety'', ''guard'', ''gate'', ''filter'',
       ''check'', ''floor'']],
     rx_seq [rx_text ''act'', RSpaces, rx_text ''as'', RSpaces, rx_words [''root'', ''admin'',
       ''sovereign'', ''arif'', ''owner'']],
     rx_alt [rx_text ''exfiltrate'', rx_text ''leak'', rx_seq [rx_text ''dump'', RSpaces,
       rx_alt [rx_text ''data'', rx_plural ''secret'', rx_plural ''cred'']]],
     rx_seq [rx_text ''you'', RSpaces, rx_text ''are'', RSpaces, rx_text ''now'', RSpaces,
       rx_words [''root'', ''jailbroken'', ''unrestricted'', ''free'']]]"

definition SECRET_FILE_PATTERNS :: "rx list" where
  "SECRET_FILE_PATTERNS =
    [rx_seq [rx_text ''.env'', rx_alt [REnd, rx_text ''.'']],
     rx_words [''id_rsa'', ''id_ed25519'', ''id_dsa''],
     rx_seq [rx_words [''private'', ''secret''], rx_opt (RSet (''_-'')), rx_text ''key''],
     rx_alt [rx_text ''password'', rx_text ''token'', rx_text ''credential'',
       rx_seq [rx_text ''api'', rx_opt (RSet (''_-'')), rx_text ''key'']]]"

definition AUTHORITY_SMUGGLING_PHRASES :: "rx list" where
  "AUTHORITY_SMUGGLING_PHRASES =
    [rx_seq [rx_text ''f13'', rx_opt (RSet (''_-'' @ white)), rx_text ''ratified''],
     rx_seq [rx_text ''i'', RSpaces, rx_text ''am'', RSpaces, rx_text ''arif''],
     rx_seq [rx_text ''sovereign'', RSpaces, rx_text ''ack''],
     rx_seq [rx_text ''arif'', RSpaces, rx_text ''approved''],
     rx_seq [rx_text ''ack'', rx_opt (RSet (''_-'' @ white)), rx_text ''irreversible''],
     rx_seq [rx_text ''self'', rx_opt (RSet (''_-'' @ white)), rx_text ''authorize'']]"

section \<open>Lists of paths and tools\<close>

definition SENSITIVE_PATHS :: "string list" where
  "SENSITIVE_PATHS =
    [''/etc/passwd'', ''/etc/shadow'', ''/etc/sudoers'', ''/etc/ssh/'', ''/root/.ssh/'',
       ''/root/.gnupg/'', ''/root/.aws/'', ''/var/log/auth.log'', ''/proc/'', ''/sys/'']"

definition CODE_ACCEPTING_TOOLS :: "string list" where
  "CODE_ACCEPTING_TOOLS =
    [''forge_skill'', ''forge_evaluate'', ''forge_witness'', ''forge_scar'', ''forge_register'',
       ''forge_registry'', ''forge_shell_dryrun'', ''forge_vault'', ''forge_session_init'',
       ''forge_kernel'', ''forge_filesystem'', ''forge_filesystem_read'',
       ''forge_filesystem_write'', ''forge_filesystem_patch'', ''forge_filesystem_tree'',
       ''forge_filesystem_search'', ''forge_filesystem_stat'', ''forge_filesystem_move'',
       ''forge_filesystem_delete'', ''forge_document_ingest'']"

definition AUTHORIZED_PROXY_TOOLS :: "string list" where
  "AUTHORIZED_PROXY_TOOLS =
    [''forge_filesystem'', ''forge_filesystem_read'', ''forge_filesystem_write'',
       ''forge_filesystem_patch'', ''forge_filesystem_tree'', ''forge_filesystem_search'',
       ''forge_filesystem_stat'', ''forge_filesystem_move'', ''forge_filesystem_delete'',
       ''forge_git'', ''forge_postgres'', ''forge_docker'', ''forge_github'', ''forge_memory'',
       ''forge_document_ingest'']"

definition benign_chars :: "char list" where
  "benign_chars = word_chars @ white @ ''-./?*[]{},:;_+=()@%&#!'' @ [CHR 0x22, CHR 0x27]"

definition benign_text :: rx where
  "benign_text = rx_seq [RStart, rx_plus (RSet benign_chars), REnd]"

section \<open>What is scanned\<close>

definition skipKeys :: "string list" where
  "skipKeys = [''session_token'', ''sct'', ''arifos_sct'']"

definition arg_texts :: "(string \<times> json) list \<Rightarrow> string list" where
  "arg_texts kvs =
     concat (map (\<lambda>(k, v). case v of JStr s \<Rightarrow> if k \<notin> set skipKeys then [s] else [] | _ \<Rightarrow> []) kvs)"

definition flattenForScan :: "action_request \<Rightarrow> string" where
  "flattenForScan a =
     join_with '' ''
       ([tool_name a, target a, intent a, expected_outcome a,
         (case rollback_plan a of Some p \<Rightarrow> p | None \<Rightarrow> []), actor a, session_id a] @
        (case args a of None \<Rightarrow> [] | Some kvs \<Rightarrow> arg_texts kvs))"

text \<open>The text of a value inside \<^verbatim>\<open>join\<close>: nothing for null and undefined.\<close>

fun join_text :: "runtime \<Rightarrow> json \<Rightarrow> string" and join_texts :: "runtime \<Rightarrow> json list \<Rightarrow> string list" where
  "join_text rt JUndef = []"
| "join_text rt JNull = []"
| "join_text rt (JBool b) = (if b then ''true'' else ''false'')"
| "join_text rt (JNum n) = number_text rt n"
| "join_text rt (JStr s) = s"
| "join_text rt (JArr xs) = join_with '','' (join_texts rt xs)"
| "join_text rt (JObj kvs) = ''[object Object]''"
| "join_texts rt [] = []"
| "join_texts rt (x # xs) = join_text rt x # join_texts rt xs"

fun truthy :: "json \<Rightarrow> bool" where
  "truthy JUndef \<longleftrightarrow> False"
| "truthy JNull \<longleftrightarrow> False"
| "truthy (JBool b) \<longleftrightarrow> b"
| "truthy (JNum n) \<longleftrightarrow> n \<noteq> 0"
| "truthy (JStr s) \<longleftrightarrow> s \<noteq> []"
| "truthy _ \<longleftrightarrow> True"

section \<open>The rules\<close>

definition shell_flag :: "string \<times> json \<Rightarrow> floor_reason list" where
  "shell_flag kv =
     (case snd kv of
        JStr s \<Rightarrow> raise_if (rx_test SHELL_METACHARS s \<and> \<not> rx_test benign_text s)
                    (reason F12 ''SHELL_METACHARS'' VOID)
      | _ \<Rightarrow> [])"

definition shell_metachars_rule :: "action_request \<Rightarrow> floor_reason list" where
  "shell_metachars_rule a =
     (case args a of
        None \<Rightarrow> []
      | Some kvs \<Rightarrow>
          if tool_name a \<in> set CODE_ACCEPTING_TOOLS then []
          else concat (map shell_flag kvs))"

definition sensitive_path_rule :: "action_request \<Rightarrow> floor_reason list" where
  "sensitive_path_rule a =
     (if tool_name a \<in> set AUTHORIZED_PROXY_TOOLS then []
      else
        concat (map (\<lambda>p. raise_if (starts_with (target a) p \<or> str_includes (flattenForScan a) p)
          (reason F12 ''SENSITIVE_PATH'' VOID)) SENSITIVE_PATHS) @
        raise_if (rx_test ABSOLUTE_SENSITIVE (target a)) (reason F12 ''ABSOLUTE_SENSITIVE_PATH'' VOID))"

definition page_context_rule :: "runtime \<Rightarrow> action_request \<Rightarrow> floor_reason list" where
  "page_context_rule rt a =
     (let rawTask = field (JObj (metadata a)) ''task_context'';
          rawPage = field (JObj (metadata a)) ''page_context'' in
      if starts_with (tool_name a) ''forge_browser_'' \<and> truthy rawPage \<and> is_object rawPage then
        (if \<not> truthy rawTask then [reason F12 ''PAGE_ORIGINATED_ACTION'' HOLD]
         else
           (case field rawPage ''snippet'' of
              JStr pageSnippet \<Rightarrow>
                if length pageSnippet \<ge> 12 \<and>
                   str_includes (to_lower (flattenForScan a)) (to_lower pageSnippet) then
                  (let taskText =
                     (if is_object rawTask
                      then to_lower (join_with '' ''
                             [join_text rt (field rawTask ''task''),
                              join_text rt (field rawTask ''expected_outcome'')])
                      else []) in
                   raise_if (\<not> str_includes taskText (to_lower pageSnippet))
                     (reason F12 ''PAGE_ORIGINATED_ACTION'' VOID))
                else []
            | _ \<Rightarrow> []))
      else [])"

definition checkF12Injection :: "runtime \<Rightarrow> floor_context \<Rightarrow> floor_reason list" where
  "checkF12Injection rt ctx =
     (let a = fc_action ctx;
          isCodeAccepter = (tool_name a \<in> set CODE_ACCEPTING_TOOLS);
          haystack = flattenForScan a;
          haystackForSecretCheck = (if isCodeAccepter then target a else haystack) in
      shell_metachars_rule a @
      raise_if (rx_test PATH_TRAVERSAL haystack) (reason F12 ''PATH_TRAVERSAL'' VOID) @
      sensitive_path_rule a @
      raise_if (list_ex (\<lambda>p. rx_test_i p haystack) PROMPT_INJECTION_PHRASES)
        (reason F12 ''PROMPT_INJECTION'' VOID) @
      raise_if (list_ex (\<lambda>p. rx_test_i p (target a) \<or> rx_test_i p haystackForSecretCheck) SECRET_FILE_PATTERNS)
        (reason F12 ''SECRET_ACCESS'' VOID) @
      raise_if (list_ex (\<lambda>p. rx_test_i p haystack) AUTHORITY_SMUGGLING_PHRASES)
        (reason F12 ''AUTHORITY_SMUGGLING'' VOID) @
      page_context_rule rt a)"

section \<open>The shell rule\<close>

text \<open>
  The shell rule voids a call exactly when one of its string arguments contains a shell
  metacharacter and also a character outside the benign class. The benign class itself
  contains the semicolon, the ampersand and the globbing characters, so a command chain built
  from these alone is never flagged.
\<close>

theorem shell_rule_needs_two_characters:
  assumes "tool_name a \<notin> set CODE_ACCEPTING_TOOLS" and "args a = Some kvs"
  shows "(shell_metachars_rule a \<noteq> [] \<longleftrightarrow>
      (\<exists>k s. (k, JStr s) \<in> set kvs \<and> (\<exists>c \<in> set s. c \<in> set shell_chars) \<and>
             (\<exists>c \<in> set s. c \<notin> set benign_chars))) \<and>
    {CHR '';'', CHR ''&'', CHR ''!'', CHR ''*'', CHR ''?''} \<subseteq> set shell_chars \<inter> set benign_chars"
proof
  have s: "rx_test SHELL_METACHARS s \<and> \<not> rx_test benign_text s \<longleftrightarrow>
      (\<exists>c \<in> set s. c \<in> set shell_chars) \<and> (\<exists>c \<in> set s. c \<notin> set benign_chars)" for s
    unfolding SHELL_METACHARS_def benign_text_def rx_test_set rx_test_only by auto
  have one: "shell_flag (k, v) \<noteq> [] \<longleftrightarrow>
      (\<exists>s. v = JStr s \<and> (\<exists>c \<in> set s. c \<in> set shell_chars) \<and> (\<exists>c \<in> set s. c \<notin> set benign_chars))" for k v
    unfolding shell_flag_def s raise_if_def by (cases v) auto
  have "shell_metachars_rule a = concat (map shell_flag kvs)"
    using assms unfolding shell_metachars_rule_def by simp
  then have "shell_metachars_rule a \<noteq> [] \<longleftrightarrow> (\<exists>kv \<in> set kvs. shell_flag kv \<noteq> [])" by simp
  also have "\<dots> \<longleftrightarrow> (\<exists>k v. (k, v) \<in> set kvs \<and> shell_flag (k, v) \<noteq> [])"
    unfolding Bex_def split_paired_Ex by (rule refl)
  finally show "shell_metachars_rule a \<noteq> [] \<longleftrightarrow>
      (\<exists>k s. (k, JStr s) \<in> set kvs \<and> (\<exists>c \<in> set s. c \<in> set shell_chars) \<and>
             (\<exists>c \<in> set s. c \<notin> set benign_chars))"
    unfolding one by blast
  show "{CHR '';'', CHR ''&'', CHR ''!'', CHR ''*'', CHR ''?''} \<subseteq> set shell_chars \<inter> set benign_chars"
    by (simp add: shell_chars_def benign_chars_def)
qed

definition chained_call :: action_request where
  "chained_call =
     \<lparr> action_id = ''a1'', tool_name = ''forge_notes'', action_type = ''OTHER'', target = ''n'',
       tier = Some 3, actor = ''arif'', session_id = ''s1'', intent = ''write a note'',
       expected_outcome = ''a note'', args = Some [(''body'', JStr ''ls; reboot & halt'')], mission = None,
       reversibility_score = None, blast_radius = None, rollback_plan = None, evidence_count = None,
       sensitivity = None, metadata = [] \<rparr>"

theorem shell_rule_needs_two_characters_witness: "shell_metachars_rule chained_call = []"
proof (rule ccontr)
  assume flagged: "shell_metachars_rule chained_call \<noteq> []"
  have call: "tool_name chained_call \<notin> set CODE_ACCEPTING_TOOLS"
    "args chained_call = Some [(''body'', JStr ''ls; reboot & halt'')]"
    by (simp_all add: chained_call_def CODE_ACCEPTING_TOOLS_def)
  have benign: "list_all (\<lambda>c. c \<in> set benign_chars) ''ls; reboot & halt''" by code_simp
  obtain k s where "(k, JStr s) \<in> set [(''body'', JStr ''ls; reboot & halt'')]"
    and bad: "\<exists>c \<in> set s. c \<notin> set benign_chars"
    using shell_rule_needs_two_characters [OF call, THEN conjunct1, THEN iffD1, OF flagged]
    by (elim exE conjE)
  then have "s = ''ls; reboot & halt''" by simp
  with benign have "list_all (\<lambda>c. c \<in> set benign_chars) s" by (simp only:)
  then show False using bad unfolding list_all_iff by blast
qed

end
