(* ===== verification/Floor_Empathy.thy ===== *)
theory Floor_Empathy
  imports Text_Match Double_Arith Canonical_Json
begin

text \<open>
  The empathy floor F6 (\<^verbatim>\<open>src/src/domain/governance/f6Empathy.ts\<close>): the harm
  vocabulary, the coefficient \<open>kappa_r\<close> computed in binary64 as the code computes it, the
  context and the verdicts for a text and for the arguments of a tool.

  Messages and the list of matched patterns are left out of the results. The texts are
  lower-cased before every test, so the patterns are written in lower case.
\<close>

section \<open>Vocabulary\<close>

definition DIGNITY_HARM_PATTERNS :: "rx list" where
  "DIGNITY_HARM_PATTERNS =
    [rx_words [''insult'', ''humiliate'', ''degrade'', ''shame'', ''mock'', ''ridicule''],
     rx_words [''threaten'', ''intimidate'', ''coerce'', ''blackmail'', ''extort''],
     rx_words [''discriminate'', ''harass'', ''stalk'', ''dox''],
     rx_words [''defraud'', ''scam'', ''phish'', ''impersonate''],
     rx_seq [rx_text ''exploit'', RSpaces, rx_opt (rx_seq [rx_text ''a'', RSpaces]),
       rx_words [''child'', ''minor'', ''elderly'', ''vulnerable'']]]"

definition STAKEHOLDER_IMPACT_PATTERNS :: "rx list" where
  "STAKEHOLDER_IMPACT_PATTERNS =
    [rx_seq [rx_words [''affect'', ''impact'', ''harm'', ''benefit''], RSpaces,
       rx_alt [rx_plural ''user'', rx_plural ''customer'', rx_plural ''employee'',
       rx_plural ''citizen'', rx_text ''public'', rx_text ''community'']],
     rx_alt [rx_text ''privacy'', rx_text ''consent'', rx_seq [rx_text ''data'', RSpaces,
       rx_text ''right'', rx_opt (rx_text ''s'')], rx_seq [rx_text ''personal'', RSpaces,
       rx_words [''data'', ''info'']]],
     rx_words [''accessibility'', ''inclusion'', ''equity'', ''fairness'', ''bias''],
     rx_seq [rx_words [''layoff'', ''termination'', ''suspension'', ''ban'', ''block''], RSpaces,
       rx_opt (rx_words [''of'', ''all'']), RSpaces0, rx_alt [rx_plural ''user'',
       rx_plural ''account'', rx_text ''access'']],
     rx_alt [rx_text ''environmental'', rx_text ''ecological'', rx_text ''pollution'',
       rx_plural ''emission'', rx_text ''waste''],
     rx_alt [rx_text ''indigenous'', rx_text ''native'', rx_text ''traditional'',
       rx_seq [rx_text ''cultural'', RSpaces, rx_text ''heritage'']]]"

definition HARM_PATTERNS :: "rx list" where
  "HARM_PATTERNS =
    [rx_seq [rx_text ''rm'', RSpaces, rx_text ''-rf'', RSpaces, rx_text ''/''],
     rx_seq [rx_text ''rm'', RSpaces, rx_text ''-rf'', RSpaces, rx_text ''~''],
     rx_seq [rx_text ''delete'', RSpaces, rx_text ''all'', RSpaces, rx_words [''files'', ''data'']],
     rx_seq [rx_text ''drop'', RSpaces, rx_words [''database'', ''table''], rx_opt (rx_text ''s''),
       RWordB],
     rx_seq [rx_text ''exploit'', RSpaces, rx_opt (rx_seq [rx_text ''a'', RSpaces]),
       rx_words [''vulnerability'', ''bug'', ''flaw'', ''hole'']],
     rx_seq [rx_text ''bypass'', RSpaces, rx_words [''security'', ''auth'', ''authentication'',
       ''permission'']],
     rx_seq [rx_text ''steal'', RSpaces, rx_words [''data'', ''credentials'', ''passwords'',
       ''secrets'', ''keys'']],
     rx_seq [rx_text ''inject'', RSpaces, rx_words [''sql'', ''code'', ''malware'', ''xss'',
       ''script'']],
     rx_seq [rx_text ''overwrite'', RSpaces, rx_words [''system'', ''boot'', ''mbr'', ''firmware'']],
     rx_seq [rx_text ''format'', RSpaces, rx_opt (rx_seq [rx_text ''the'', RSpaces]),
       rx_words [''root'', ''disk'', ''drive'', ''filesystem'', ''system'']],
     rx_words ['':(){ :'', '':& };:''],
     rx_seq [rx_words [''delete'', ''wipe'', ''remove'', ''truncate'', ''drop''], RSpaces,
       rx_opt (rx_seq [rx_text ''all'', RSpaces]), rx_alt [rx_text ''vault999'',
       rx_seq [rx_text ''vau'', rx_opt (rx_text ''l''), rx_text ''t''], rx_plural ''record'',
       rx_text ''data'', rx_plural ''table'', rx_plural ''volume'', rx_plural ''collection'',
       rx_plural ''ledger'', rx_plural ''seal'']],
     rx_seq [rx_words [''delete'', ''wipe'', ''remove'', ''truncate'', ''drop''], RSpaces,
       rx_opt (rx_seq [rx_text ''all'', RSpaces]), rx_words [''postgres'', ''postgresql'',
       ''redis'', ''qdrant'', ''memory'', ''vector'', ''docker'', ''data'']],
     rx_seq [rx_words [''clear'', ''purge'', ''erase''], RSpaces, rx_opt (rx_seq [rx_text ''all'',
       RSpaces]), rx_alt [rx_text ''data'', rx_text ''database'', rx_plural ''log'',
       rx_text ''cache'', rx_text ''memory'', rx_text ''state'']],
     rx_seq [rx_words [''stop'', ''kill'', ''shutdown''], RSpaces, rx_opt (rx_seq [rx_text ''all'',
       RSpaces]), rx_alt [rx_text ''services'', rx_text ''containers'', rx_text ''processes'',
       rx_plural ''database'']],
     rx_seq [rx_words [''destroy'', ''demolish''], RSpaces, rx_opt (rx_seq [rx_text ''all'',
       RSpaces]), rx_alt [rx_text ''data'', rx_text ''records'', rx_plural ''volume'',
       rx_plural ''backup'', rx_text ''docker'']],
     rx_seq [rx_text ''prune'', RSpaces, rx_opt (rx_seq [rx_text ''all'', RSpaces]),
       rx_alt [rx_plural ''volume'', rx_plural ''image'', rx_plural ''container'',
       rx_plural ''network'']],
     rx_seq [rx_words [''remove'', ''delete''], RSpaces, rx_opt (rx_seq [rx_text ''all'',
       RSpaces]), rx_words [''containers'', ''images'', ''volumes'', ''networks'']],
     rx_seq [rx_words [''flush'', ''reset''], RSpaces, rx_opt (rx_seq [rx_text ''all'', RSpaces]),
       rx_alt [rx_text ''database'', rx_text ''postgres'', rx_plural ''table'', rx_text ''cache'',
       rx_text ''state'']],
     rx_seq [rx_words [''sudo'', ''su'', ''admin''], RSpaces, rx_words [''rm'', ''delete'',
       ''drop'', ''format'', ''wipe'', ''mkfs'', ''dd'']],
     rx_seq [rx_text ''dd'', RSpaces, rx_words [''if'', ''of''], rx_text ''='', RStar (RDot),
       rx_words [''dev'', ''zero'', ''null'']],
     rx_text ''mkfs'',
     rx_seq [rx_words [''rm'', ''delete'', ''remove''], RSpaces, rx_text ''-rf'', RSpaces,
       rx_words [''home'', ''root'', ''etc'', ''usr'', ''var'', ''opt'']],
     rx_seq [rx_alt [rx_text ''become'', rx_text ''get'', rx_text ''obtain'',
       rx_seq [rx_text ''get'', RSpaces]], RSpaces0, rx_words [''root'', ''admin'', ''superuser'',
       ''privileges'']],
     rx_seq [rx_text ''make'', RSpaces, rx_text ''me'', RSpaces, rx_opt (rx_seq [rx_text ''a'',
       RSpaces]), rx_words [''root'', ''admin'', ''superuser'']],
     rx_seq [rx_text ''elevate'', RSpaces, rx_opt (rx_seq [rx_text ''to'', RSpaces]),
       rx_words [''root'', ''admin'', ''privileges'']],
     rx_seq [rx_text ''sudo'', RSpaces, rx_text ''su'', RWordB],
     rx_seq [rx_text ''root'', RSpaces, rx_words [''access'', ''shell'', ''login'']],
     rx_seq [RStart, rx_text ''su'', RSpaces, REnd]]"

definition human_only :: "rx list" where
  "human_only =
    [rx_seq [rx_words [''message'', ''email'', ''reply'', ''respond'', ''communicate'', ''notify'',
       ''announce'', ''publish'', ''post'', ''share''], RSpaces, rx_opt (rx_words [''to'',
       ''with'', ''for'']), RSpaces0, rx_words [''user'', ''customer'', ''person'', ''client'',
       ''citizen'', ''public'']],
     rx_seq [rx_words [''write'', ''compose'', ''draft'', ''send''], RSpaces,
       rx_words [''message'', ''email'', ''letter'', ''notification'', ''announcement'']]]"

definition destructive_patterns :: "rx list" where
  "destructive_patterns =
    [rx_seq [rx_text ''rm'', RSpaces, rx_text ''-rf''],
     rx_seq [rx_text ''>'', RSpaces0, rx_text ''/dev/null''],
     rx_text ''mkfs'',
     rx_seq [rx_text ''dd'', RSpaces, rx_text ''if='', RStar (RDot), rx_text ''of=/dev'']]"

section \<open>The coefficient\<close>

definition KAPPA_R_OPS_MIN :: rat where
  "KAPPA_R_OPS_MIN = dbl (10 / 100)"

definition KAPPA_R_HUMAN_MIN :: rat where
  "KAPPA_R_HUMAN_MIN = dbl (70 / 100)"

definition KAPPA_R_VOID_THRESHOLD :: rat where
  "KAPPA_R_VOID_THRESHOLD = dbl (10 / 100)"

text \<open>\<open>for (const p of ps) if (p.test(text)) score += weight\<close>\<close>

definition add_matches :: "rx list \<Rightarrow> rat \<Rightarrow> string \<Rightarrow> rat \<Rightarrow> rat" where
  "add_matches ps weight text score =
     fold (\<lambda>p sc. if rx_test p text then dbl_add sc weight else sc) ps score"

definition tool_weights :: "rat list" where
  "tool_weights = [dbl (1 / 2), dbl (3 / 10), dbl (1 / 2), dbl (1 / 2)]"

text \<open>
  The arguments of a tool are given by their JSON text in lower case; \<^term>\<open>None\<close> when the
  tool name or the arguments are missing.
\<close>

definition computeKappaR :: "string \<Rightarrow> (string \<times> string) option \<Rightarrow> rat" where
  "computeKappaR input tool =
     (let normalized = to_lower input;
          s1 = add_matches DIGNITY_HARM_PATTERNS (dbl (4 / 10)) normalized 0;
          s2 = add_matches STAKEHOLDER_IMPACT_PATTERNS (dbl (1 / 4)) normalized s1;
          s3 = add_matches HARM_PATTERNS (dbl (1 / 2)) normalized s2;
          s4 = (case tool of
                  Some (toolName, argString) \<Rightarrow>
                    if toolName = ''run_command'' \<or> toolName = ''write_file''
                    then fold (\<lambda>(p, w) sc. if rx_test p argString then dbl_add sc w else sc)
                           (zip destructive_patterns tool_weights) s3
                    else s3
                | None \<Rightarrow> s3) in
      max 0 (min 1 (dbl_sub 1 s4)))"

datatype stakeholder_context = OPS | HUMAN

definition classifyStakeholderContext :: "string \<Rightarrow> stakeholder_context" where
  "classifyStakeholderContext input =
     (if list_ex (\<lambda>p. rx_test p (to_lower input))
          (DIGNITY_HARM_PATTERNS @ STAKEHOLDER_IMPACT_PATTERNS @ human_only)
      then HUMAN else OPS)"

datatype empathy_verdict = E_PASS | E_CAUTION | E_HOLD | E_VOID

definition kappaVerdict :: "rat \<Rightarrow> stakeholder_context \<Rightarrow> empathy_verdict" where
  "kappaVerdict kappaR ctx =
     (let minKappa = (if ctx = HUMAN then KAPPA_R_HUMAN_MIN else KAPPA_R_OPS_MIN) in
      if kappaR \<ge> minKappa then E_PASS
      else if kappaR < KAPPA_R_VOID_THRESHOLD then E_VOID
      else if ctx = HUMAN then (if kappaR \<ge> dbl (40 / 100) then E_CAUTION else E_HOLD)
      else E_VOID)"

section \<open>Verdicts\<close>

datatype empathy_reason = HarmPatternDetected | DestructiveToolArgs | KappaR empathy_verdict

record empathy_result =
  er_verdict :: empathy_verdict
  er_reason :: "empathy_reason option"
  er_kappa_r :: rat
  er_context :: stakeholder_context

definition kappa_result :: "rat \<Rightarrow> stakeholder_context \<Rightarrow> empathy_result" where
  "kappa_result kappaR ctx =
     (let verdict = kappaVerdict kappaR ctx in
      \<lparr> er_verdict = verdict,
        er_reason = (if verdict \<noteq> E_PASS then Some (KappaR verdict) else None),
        er_kappa_r = kappaR, er_context = ctx \<rparr>)"

definition checkEmpathy :: "string \<Rightarrow> empathy_result" where
  "checkEmpathy input =
     (let normalized = to_lower input;
          ctx = classifyStakeholderContext input;
          kappaR = computeKappaR input None in
      if list_ex (\<lambda>p. rx_test p normalized) HARM_PATTERNS then
        \<lparr> er_verdict = E_VOID, er_reason = Some HarmPatternDetected, er_kappa_r = kappaR, er_context = ctx \<rparr>
      else kappa_result kappaR ctx)"

definition checkToolHarm :: "runtime \<Rightarrow> string \<Rightarrow> json \<Rightarrow> empathy_result" where
  "checkToolHarm rt toolName args =
     (let argString = to_lower (stringify (number_text rt) args);
          ctx = classifyStakeholderContext argString;
          kappaR = computeKappaR argString (if toolName = [] then None else Some (toolName, argString)) in
      if (toolName = ''run_command'' \<or> toolName = ''write_file'') \<and>
         list_ex (\<lambda>p. rx_test p argString) destructive_patterns then
        \<lparr> er_verdict = E_VOID, er_reason = Some DestructiveToolArgs, er_kappa_r = kappaR, er_context = ctx \<rparr>
      else kappa_result kappaR ctx)"

definition checkF6Empathy :: "runtime \<Rightarrow> string \<Rightarrow> string option \<Rightarrow> json option \<Rightarrow> empathy_result" where
  "checkF6Empathy rt input toolName args =
     (let r = (case (toolName, args) of
                 (Some t, Some a) \<Rightarrow> if t \<noteq> [] then checkToolHarm rt t a else checkEmpathy input
               | _ \<Rightarrow> checkEmpathy input) in
      if er_verdict r = E_VOID \<and> er_reason r \<noteq> Some HarmPatternDetected \<and>
         er_reason r \<noteq> Some DestructiveToolArgs
      then r\<lparr>er_verdict := E_HOLD\<rparr> else r)"

end
