(* ===== verification/Floors.thy ===== *)
theory Floors
  imports Floor_Injection Floor_Empathy
begin

text \<open>
  The floor enforcer (\<^verbatim>\<open>src/src/domain/governance/FloorEnforcer.ts\<close>): the dispatcher that
  runs the thirteen floors in their order and composes the verdict, and its wrapper for MCP
  tool calls (\<^verbatim>\<open>src/src/domain/governance/mcpFloorEnforcer.ts\<close>).

  The state read is the halt channel; \<open>now\<close> is the clock in milliseconds, \<open>mac\<close> the HMAC of
  envelopes, \<open>rt\<close> the runtime's text functions. The timestamp and the messages of a verdict
  and the text of the MCP error response are left out.
\<close>

section \<open>F6 as a floor\<close>

fun empathy_code :: "empathy_reason option \<Rightarrow> string" where
  "empathy_code (Some HarmPatternDetected) = ''HARM_PATTERN_DETECTED''"
| "empathy_code (Some DestructiveToolArgs) = ''DESTRUCTIVE_TOOL_ARGS''"
| "empathy_code (Some (KappaR E_PASS)) = ''KAPPA_R_PASS''"
| "empathy_code (Some (KappaR E_CAUTION)) = ''KAPPA_R_CAUTION''"
| "empathy_code (Some (KappaR E_HOLD)) = ''KAPPA_R_HOLD''"
| "empathy_code (Some (KappaR E_VOID)) = ''KAPPA_R_VOID''"
| "empathy_code None = ''EMPATHY_ADVISORY''"

definition checkF6EmpathyFloor :: "runtime \<Rightarrow> floor_context \<Rightarrow> floor_reason list" where
  "checkF6EmpathyFloor rt ctx =
     (let a = fc_action ctx;
          input = intent a @ '' '' @ expected_outcome a;
          result = checkF6Empathy rt input (Some (tool_name a)) None in
      if er_verdict result \<noteq> E_PASS then
        [reason F6 (empathy_code (er_reason result)) (if er_verdict result = E_VOID then HOLD else SABAR)]
      else [])"

section \<open>Composition\<close>

record floor_verdict =
  v_final :: severity
  v_allowed :: bool
  v_hold_required :: bool
  v_void :: bool
  v_sabar :: bool
  v_caution :: bool
  v_reasons :: "floor_reason list"
  v_action_id :: string
  v_tool_name :: string
  v_f13_halt_active :: bool

definition has_severity :: "severity \<Rightarrow> floor_reason list \<Rightarrow> bool" where
  "has_severity s reasons = list_ex (\<lambda>r. severity_of r = s) reasons"

definition composeFinal :: "floor_reason list \<Rightarrow> severity \<times> bool \<times> bool \<times> bool \<times> bool \<times> bool" where
  "composeFinal reasons =
     (let hasCaution = has_severity CAUTION reasons in
      if has_severity VOID reasons then (VOID, False, True, True, False, hasCaution)
      else if has_severity HOLD reasons then (HOLD, False, True, False, False, hasCaution)
      else if has_severity SABAR reasons then (SABAR, True, False, False, True, hasCaution)
      else if hasCaution then (canonicalSeverity CAUTION, True, False, False, True, True)
      else (SEAL, True, False, False, False, False))"

definition all_reasons ::
  "runtime \<Rightarrow> (string \<Rightarrow> aae_body \<Rightarrow> string) \<Rightarrow> int \<Rightarrow> channel \<Rightarrow> floor_context \<Rightarrow> floor_reason list" where
  "all_reasons rt mac now c ctx =
     checkF13Sovereign c ctx @ checkF11Auth ctx @ checkF12Injection rt ctx @ checkF10Ontology ctx @
     checkF1Amanah mac now ctx @ checkF2Truth ctx @ checkF4Clarity ctx @ checkF7Humility ctx @
     checkF8Genius ctx @ checkF5Peace2 ctx @ checkF6EmpathyFloor rt ctx @ checkF3Witness ctx @
     checkF9AntiHantu ctx @ checkUnknownAction ctx"

definition checkAll ::
  "runtime \<Rightarrow> (string \<Rightarrow> aae_body \<Rightarrow> string) \<Rightarrow> int \<Rightarrow> channel \<Rightarrow> floor_context \<Rightarrow> floor_verdict" where
  "checkAll rt mac now c ctx =
     (let allReasons = all_reasons rt mac now c ctx;
          (fin, ok, hold, vd, sabar, caution) = composeFinal allReasons in
      \<lparr> v_final = fin, v_allowed = ok, v_hold_required = hold, v_void = vd, v_sabar = sabar,
        v_caution = caution, v_reasons = allReasons, v_action_id = action_id (fc_action ctx),
        v_tool_name = tool_name (fc_action ctx), v_f13_halt_active = f13_halt_active ctx \<rparr>)"

definition isAllowed ::
  "runtime \<Rightarrow> (string \<Rightarrow> aae_body \<Rightarrow> string) \<Rightarrow> int \<Rightarrow> channel \<Rightarrow> floor_context \<Rightarrow> bool" where
  "isAllowed rt mac now c ctx = v_allowed (checkAll rt mac now c ctx)"

definition requiresF13Ack ::
  "runtime \<Rightarrow> (string \<Rightarrow> aae_body \<Rightarrow> string) \<Rightarrow> int \<Rightarrow> channel \<Rightarrow> floor_context \<Rightarrow> bool" where
  "requiresF13Ack rt mac now c ctx = v_hold_required (checkAll rt mac now c ctx)"

section \<open>MCP tool calls\<close>

definition classifyAction :: "runtime \<Rightarrow> string \<Rightarrow> (string \<times> json) list \<Rightarrow> string" where
  "classifyAction rt toolName kvs =
     (let n = to_lower toolName; a = to_lower (stringify (number_text rt) (JObj kvs));
          has = str_includes n; arg = str_includes a in
      if has ''vault_seal'' then ''VAULT_SEAL''
      else if has ''vault_delete'' then ''DELETE''
      else if has ''vault_read'' \<or> (has ''vault'' \<and> arg ''read'') then ''VAULT_READ''
      else if has ''vault_write'' then ''MEMORY_WRITE''
      else if has ''memory_recall'' \<or> has ''memory_read'' then ''MEMORY_READ''
      else if has ''memory_store'' \<or> has ''memory_write'' \<or> has ''remember'' then ''MEMORY_WRITE''
      else if has ''web_search'' \<or> has ''sense_observe'' \<or> has ''fetch'' then ''NETWORK_OUT''
      else if has ''understand_image'' \<and> arg ''http'' then ''NETWORK_OUT''
      else if has ''form_submit'' then ''FORM_SUBMIT''
      else if has ''email_send'' then ''EMAIL_SEND''
      else if has ''db_write'' \<or> has ''database_write'' then ''DATABASE_WRITE''
      else if has ''postgres_query'' \<and> \<not> arg ''insert'' \<and> \<not> arg ''update'' \<and> \<not> arg ''delete'' then ''READ''
      else if has ''financial'' \<or> has ''emv'' \<or> has ''roi'' then ''FINANCIAL_TRANSACTION''
      else if has ''production'' \<or> has ''deploy'' then ''PRODUCTION_DEPLOY''
      else if n = ''forge_execute'' \<or> n = ''arif_forge_execute'' then ''EXECUTE''
      else if has ''forge_run'' then ''EXECUTE''
      else if has ''judge_deliberate'' \<or> has ''mind_reason'' then ''READ''
      else if has ''heart_critique'' then ''READ''
      else if has ''sense_observe'' then ''READ''
      else if has ''kernel_route'' \<or> has ''kernel_status'' then ''READ''
      else if has ''thermodynamic'' then ''READ''
      else if has ''pipeline'' then ''READ''
      else if has ''floor'' \<and> (arg ''change'' \<or> arg ''mutate'') then ''CONSTITUTIONAL_FLOOR_CHANGE''
      else if has ''health_check'' \<or> has ''health'' then ''READ''
      else if has ''measure'' \<or> has ''ops_measure'' then ''READ''
      else if has ''readiness'' \<or> has ''wellness'' then ''READ''
      else if has ''state_read'' \<or> has ''get_state'' then ''READ''
      else if has ''floor_scan'' \<or> has ''check_floor'' then ''READ''
      else if has ''registry_status'' \<or> has ''agent_list'' \<or> has ''agent_status'' then ''READ''
      else if has ''log_tail'' \<or> has ''job_status'' \<or> has ''job_result'' then ''READ''
      else if has ''lease_status'' then ''READ''
      else if has ''search'' \<or> has ''research'' \<or> has ''docs_lookup'' then ''READ''
      else if has ''browser_'' \<and> \<not> has ''submit'' then ''READ''
      else if has ''shell_dryrun'' then ''READ''
      else if has ''postgres_schema'' then ''READ''
      else if has ''reply_compose'' then ''WRITE''
      else if has ''session_init'' then ''WRITE''
      else if has ''memory'' then ''MEMORY_READ''
      else ''OTHER'')"

fun text_field :: "json \<Rightarrow> string option" where
  "text_field (JStr s) = Some s"
| "text_field _ = None"

fun number_field :: "json \<Rightarrow> rat option" where
  "number_field (JNum n) = Some n"
| "number_field _ = None"

definition extractTarget :: "runtime \<Rightarrow> string \<Rightarrow> (string \<times> json) list \<Rightarrow> string" where
  "extractTarget rt toolName kvs =
     (let get = (\<lambda>k. text_field (field (JObj kvs) k)) in
      case get ''url'' of Some s \<Rightarrow> s | None \<Rightarrow>
      (case get ''path'' of Some s \<Rightarrow> s | None \<Rightarrow>
      (case get ''file_path'' of Some s \<Rightarrow> s | None \<Rightarrow>
      (case get ''target'' of Some s \<Rightarrow> s | None \<Rightarrow>
      (case get ''query'' of Some s \<Rightarrow> ''query:'' @ take 100 s | None \<Rightarrow>
      (case get ''image_source'' of Some s \<Rightarrow> s | None \<Rightarrow>
      (case get ''actor_id'' of Some s \<Rightarrow> ''actor:'' @ s | None \<Rightarrow>
      (case get ''content'' of
         Some s \<Rightarrow> ''content('' @ number_text rt (of_nat (length s)) @ '' chars)'' | None \<Rightarrow>
      (case field (JObj kvs) ''grounded_facts'' of
         JArr xs \<Rightarrow> ''facts('' @ number_text rt (of_nat (length xs)) @ '' items)''
       | _ \<Rightarrow> ''tool:'' @ toolName)))))))))"

definition long_text :: "json \<Rightarrow> string \<Rightarrow> string" where
  "long_text v fallback =
     (case text_field v of Some s \<Rightarrow> if length s \<ge> 5 then s else fallback | None \<Rightarrow> fallback)"

definition buildActionRequest ::
  "runtime \<Rightarrow> string \<Rightarrow> string \<Rightarrow> (string \<times> json) list \<Rightarrow> string \<Rightarrow> string \<Rightarrow> rat option \<Rightarrow> action_request" where
  "buildActionRequest rt uuid toolName kvs callerActor callerSession tierOverride =
     (let a = JObj kvs;
          own = (\<lambda>k d. case text_field (field a k) of Some s \<Rightarrow> if s \<noteq> [] then s else d | None \<Rightarrow> d) in
      \<lparr> action_id = uuid, tool_name = toolName, action_type = classifyAction rt toolName kvs,
        target = extractTarget rt toolName kvs,
        tier = (case tierOverride of Some t \<Rightarrow> Some t
                | None \<Rightarrow> (case number_field (field a ''tier'') of Some t \<Rightarrow> Some t | None \<Rightarrow> Some 3)),
        actor = own ''actor_id'' callerActor,
        session_id = own ''session_id'' callerSession,
        intent = long_text (field a ''intent'') (''Invoke '' @ toolName @ '' via MCP''),
        expected_outcome = long_text (field a ''expected_outcome'') ''Tool execution completes normally'',
        args = Some kvs, mission = None, reversibility_score = Some (dbl (8 / 10)),
        blast_radius = Some BService, rollback_plan = text_field (field a ''rollback_plan''),
        evidence_count = (case number_field (field a ''evidence_count'') of Some n \<Rightarrow> Some n | None \<Rightarrow> Some 1),
        sensitivity = (case text_field (field a ''sensitivity'') of Some s \<Rightarrow> Some s
                       | None \<Rightarrow> text_field (field (field (field a ''mission'') ''outcome'') ''sensitivity'')),
        metadata = [(''source'', JStr ''mcp''), (''task_context'', field a ''task_context''),
                    (''page_context'', field a ''page_context'')] \<rparr>)"

definition mcp_context ::
  "runtime \<Rightarrow> string \<Rightarrow> string \<Rightarrow> (string \<times> json) list \<Rightarrow> string \<Rightarrow> string \<Rightarrow> floor_context" where
  "mcp_context rt uuid toolName kvs callerActor callerSession =
     (let action = buildActionRequest rt uuid toolName kvs callerActor callerSession None in
      \<lparr> fc_action = action, fc_actor_id = actor action, fc_session_id = session_id action,
        f13_halt_active = False, f13_halt_scope = None,
        g_score = number_field (field (JObj kvs) ''g_score''),
        quad_witness = number_field (field (JObj kvs) ''quad_witness''),
        fc_aae = None, fc_organ_secret = None \<rparr>)"

definition enforceMcpFloor ::
  "runtime \<Rightarrow> (string \<Rightarrow> aae_body \<Rightarrow> string) \<Rightarrow> int \<Rightarrow> channel \<Rightarrow> string \<Rightarrow> string \<Rightarrow> (string \<times> json) list \<Rightarrow>
   string \<Rightarrow> string \<Rightarrow> floor_verdict" where
  "enforceMcpFloor rt mac now c uuid toolName kvs callerActor callerSession =
     checkAll rt mac now c (mcp_context rt uuid toolName kvs callerActor callerSession)"

definition gateTool ::
  "runtime \<Rightarrow> (string \<Rightarrow> aae_body \<Rightarrow> string) \<Rightarrow> int \<Rightarrow> channel \<Rightarrow> string \<Rightarrow> string \<Rightarrow> (string \<times> json) list \<Rightarrow> bool" where
  "gateTool rt mac now c uuid toolName kvs =
     v_allowed (enforceMcpFloor rt mac now c uuid toolName kvs ''mcp-anonymous'' ''mcp-session'')"

section \<open>The verdict is the worst reason\<close>

instantiation severity :: linorder
begin

definition severity_rank :: "severity \<Rightarrow> nat" where
  "severity_rank s = (case s of SEAL \<Rightarrow> 0 | CAUTION \<Rightarrow> 1 | SABAR \<Rightarrow> 2 | HOLD \<Rightarrow> 3 | VOID \<Rightarrow> 4)"

definition less_eq_severity :: "severity \<Rightarrow> severity \<Rightarrow> bool" where
  "less_eq_severity a b \<longleftrightarrow> severity_rank a \<le> severity_rank b"

definition less_severity :: "severity \<Rightarrow> severity \<Rightarrow> bool" where
  "less_severity a b \<longleftrightarrow> severity_rank a < severity_rank b"

instance
proof
  fix x y z :: severity
  show "x < y \<longleftrightarrow> x \<le> y \<and> \<not> y \<le> x" by (auto simp: less_severity_def less_eq_severity_def)
  show "x \<le> x" "x \<le> y \<or> y \<le> x" by (auto simp: less_eq_severity_def)
  show "x \<le> z" if "x \<le> y" "y \<le> z" using that by (auto simp: less_eq_severity_def)
  show "x = y" if "x \<le> y" "y \<le> x"
    using that by (cases x; cases y) (simp_all add: less_eq_severity_def severity_rank_def)
qed

end

lemmas severity_order = less_eq_severity_def less_severity_def severity_rank_def

lemma canonicalSeverity_simps [simp]:
  "canonicalSeverity SEAL = SEAL" "canonicalSeverity CAUTION = SABAR" "canonicalSeverity SABAR = SABAR"
  "canonicalSeverity HOLD = HOLD" "canonicalSeverity VOID = VOID"
  by (simp_all add: canonicalSeverity_def)

lemma has_severity_iff: "has_severity s rs \<longleftrightarrow> s \<in> severity_of ` set rs"
  by (auto simp: has_severity_def list_ex_iff)

lemma compose_final:
  "fst (composeFinal rs) = Max (insert SEAL ((\<lambda>r. canonicalSeverity (severity_of r)) ` set rs))"
proof (rule sym, rule Max_eqI)
  show "fst (composeFinal rs) \<in> insert SEAL ((\<lambda>r. canonicalSeverity (severity_of r)) ` set rs)"
    by (auto simp: composeFinal_def Let_def has_severity_iff image_iff canonicalSeverity_def)
next
  fix s
  assume "s \<in> insert SEAL ((\<lambda>r. canonicalSeverity (severity_of r)) ` set rs)"
  then consider "s = SEAL" | r where "r \<in> set rs" "s = canonicalSeverity (severity_of r)" by auto
  then show "s \<le> fst (composeFinal rs)"
  proof cases
    case 2
    then have "has_severity (severity_of r) rs" by (auto simp: has_severity_iff)
    then show ?thesis using 2
      by (cases "severity_of r") (simp_all add: composeFinal_def Let_def severity_order)
  qed (simp add: severity_order composeFinal_def Let_def split: severity.split)
qed simp

lemma compose_allowed:
  "fst (snd (composeFinal rs)) \<longleftrightarrow> (\<forall>r \<in> set rs. severity_of r \<notin> {HOLD, VOID})"
  by (auto simp: composeFinal_def Let_def has_severity_def list_ex_iff)

lemma compose_flags:
  "fst (composeFinal rs) \<noteq> CAUTION"
  "fst (snd (composeFinal rs)) \<longleftrightarrow> fst (composeFinal rs) \<in> {SEAL, SABAR}"
  "fst (snd (snd (composeFinal rs))) \<longleftrightarrow> fst (composeFinal rs) \<in> {HOLD, VOID}"
  "fst (snd (snd (snd (composeFinal rs)))) \<longleftrightarrow> fst (composeFinal rs) = VOID"
  "fst (snd (snd (snd (snd (composeFinal rs))))) \<longleftrightarrow> fst (composeFinal rs) = SABAR"
  "snd (snd (snd (snd (snd (composeFinal rs))))) \<longleftrightarrow> has_severity CAUTION rs"
  by (simp_all add: composeFinal_def Let_def)

lemma checkAll_composed:
  "v_final (checkAll rt mac now c ctx) = fst (composeFinal (all_reasons rt mac now c ctx))"
  "v_allowed (checkAll rt mac now c ctx) = fst (snd (composeFinal (all_reasons rt mac now c ctx)))"
  "v_hold_required (checkAll rt mac now c ctx) = fst (snd (snd (composeFinal (all_reasons rt mac now c ctx))))"
  "v_void (checkAll rt mac now c ctx) = fst (snd (snd (snd (composeFinal (all_reasons rt mac now c ctx)))))"
  "v_sabar (checkAll rt mac now c ctx) = fst (snd (snd (snd (snd (composeFinal (all_reasons rt mac now c ctx))))))"
  "v_caution (checkAll rt mac now c ctx) = snd (snd (snd (snd (snd (composeFinal (all_reasons rt mac now c ctx))))))"
  "v_reasons (checkAll rt mac now c ctx) = all_reasons rt mac now c ctx"
  by (simp_all add: checkAll_def Let_def case_prod_beta)

lemma checkAll_allowed:
  "v_allowed (checkAll rt mac now c ctx) \<longleftrightarrow>
   (\<forall>r \<in> set (all_reasons rt mac now c ctx). severity_of r \<notin> {HOLD, VOID})"
  by (simp only: checkAll_composed compose_allowed)

lemma checkAll_final:
  "v_final (checkAll rt mac now c ctx) =
   Max (insert SEAL ((\<lambda>r. canonicalSeverity (severity_of r)) ` set (all_reasons rt mac now c ctx)))"
  by (simp only: checkAll_composed compose_final)

text \<open>
  C3. The reasons of a verdict are those of F13, F11, F12, F10, F1, F2, F4, F7, F8, F5, F6, F3,
  F9 and of the safety net for unknown actions, each consulted once and in that order. The
  verdict is the worst of them (SEAL when there is none) with CAUTION counted as SABAR, so no
  floor can be outweighed by another; the action is allowed exactly when that is SEAL or SABAR.
  The flags are those the code computes, which is not what the comments on the type say:
  \<^verbatim>\<open>hold_required\<close> also holds of a VOID, and \<^verbatim>\<open>sabar\<close> also of a mere CAUTION.
\<close>

theorem verdict_is_worst_reason:
  "let v = checkAll rt mac now c ctx;
       found = checkF13Sovereign c ctx @ checkF11Auth ctx @ checkF12Injection rt ctx @
         checkF10Ontology ctx @ checkF1Amanah mac now ctx @ checkF2Truth ctx @ checkF4Clarity ctx @
         checkF7Humility ctx @ checkF8Genius ctx @ checkF5Peace2 ctx @ checkF6EmpathyFloor rt ctx @
         checkF3Witness ctx @ checkF9AntiHantu ctx @ checkUnknownAction ctx;
       worst = Max (insert SEAL ((\<lambda>r. canonicalSeverity (severity_of r)) ` set found)) in
   v_reasons v = found \<and> v_final v = worst \<and> worst \<noteq> CAUTION \<and>
   (v_allowed v \<longleftrightarrow> worst \<in> {SEAL, SABAR}) \<and>
   (v_hold_required v \<longleftrightarrow> worst \<in> {HOLD, VOID}) \<and>
   (v_void v \<longleftrightarrow> worst = VOID) \<and> (v_sabar v \<longleftrightarrow> worst = SABAR) \<and>
   (v_caution v \<longleftrightarrow> CAUTION \<in> severity_of ` set found)"
  unfolding Let_def all_reasons_def [symmetric] compose_final [symmetric] checkAll_composed has_severity_iff [symmetric]
  by (simp add: compose_flags)

section \<open>What an allowed action satisfies\<close>

lemma raise_if_all [simp]: "(\<forall>r \<in> set (raise_if b x). P r) \<longleftrightarrow> (b \<longrightarrow> P x)"
  unfolding raise_if_def by (cases b) (simp_all only: if_True if_False list.set ball_simps insert_iff simp_thms)

lemma set_raise_if [simp]: "r \<in> set (raise_if b x) \<longleftrightarrow> b \<and> r = x"
  unfolding raise_if_def by (cases b) (simp_all only: if_True if_False list.set empty_iff insert_iff simp_thms)

lemma blocked_by:
  "r \<in> set (all_reasons rt mac now c ctx) \<Longrightarrow> severity_of r \<in> {HOLD, VOID} \<Longrightarrow>
   \<not> v_allowed (checkAll rt mac now c ctx)"
  by (auto simp: checkAll_allowed)

lemma void_by:
  assumes "r \<in> set (all_reasons rt mac now c ctx)" "severity_of r = VOID"
  shows "v_final (checkAll rt mac now c ctx) = VOID"
proof -
  have "has_severity VOID (all_reasons rt mac now c ctx)" unfolding has_severity_def list_ex_iff using assms by blast
  then show ?thesis by (simp add: checkAll_composed composeFinal_def)
qed

lemma allowed_floors:
  assumes "v_allowed (checkAll rt mac now c ctx)"
  shows "\<forall>r \<in> set (checkF13Sovereign c ctx). severity_of r \<notin> {HOLD, VOID}"
    "\<forall>r \<in> set (checkF11Auth ctx). severity_of r \<notin> {HOLD, VOID}"
    "\<forall>r \<in> set (checkF10Ontology ctx). severity_of r \<notin> {HOLD, VOID}"
    "\<forall>r \<in> set (checkF1Amanah mac now ctx). severity_of r \<notin> {HOLD, VOID}"
    "\<forall>r \<in> set (checkF2Truth ctx). severity_of r \<notin> {HOLD, VOID}"
    "\<forall>r \<in> set (checkF4Clarity ctx). severity_of r \<notin> {HOLD, VOID}"
    "\<forall>r \<in> set (checkF8Genius ctx). severity_of r \<notin> {HOLD, VOID}"
    "\<forall>r \<in> set (checkF5Peace2 ctx). severity_of r \<notin> {HOLD, VOID}"
    "\<forall>r \<in> set (checkF3Witness ctx). severity_of r \<notin> {HOLD, VOID}"
    "\<forall>r \<in> set (checkUnknownAction ctx). severity_of r \<notin> {HOLD, VOID}"
  using assms unfolding checkAll_allowed all_reasons_def set_append by blast+

lemma f1_clear:
  assumes "\<forall>r \<in> set (checkF1Amanah mac now ctx). severity_of r \<notin> {HOLD, VOID}"
  shows "\<not> blank (actor (fc_action ctx))" "\<not> blank (session_id (fc_action ctx))"
    "action_type (fc_action ctx) \<in> set destructive_categories \<Longrightarrow> \<not> no_rollback (fc_action ctx)"
    "action_type (fc_action ctx) \<noteq> ''CONSTITUTIONAL_FLOOR_CHANGE''"
    "reversibility_score (fc_action ctx) = Some q \<Longrightarrow> q < dbl (3 / 10) \<Longrightarrow>
       blast_radius (fc_action ctx) \<in> {None, Some BLocal, Some BRepo}"
proof -
  note f1 = assms [unfolded checkF1Amanah_def Let_def set_append ball_Un raise_if_all, simplified]
  show "\<not> blank (actor (fc_action ctx))" "\<not> blank (session_id (fc_action ctx))"
    "action_type (fc_action ctx) \<noteq> ''CONSTITUTIONAL_FLOOR_CHANGE''" using f1 by simp_all
  show "action_type (fc_action ctx) \<in> set destructive_categories \<Longrightarrow> \<not> no_rollback (fc_action ctx)"
    using f1 by simp
  show "reversibility_score (fc_action ctx) = Some q \<Longrightarrow> q < dbl (3 / 10) \<Longrightarrow>
       blast_radius (fc_action ctx) \<in> {None, Some BLocal, Some BRepo}"
    using f1 by (cases "blast_radius (fc_action ctx)"; cases "the (blast_radius (fc_action ctx))") auto
qed

lemma f10_clear:
  assumes "\<forall>r \<in> set (checkF10Ontology ctx). severity_of r \<notin> {HOLD, VOID}"
  shows "list_all (\<lambda>(f, missing). \<not> missing) (required_fields (fc_action ctx))"
    "action_type (fc_action ctx) \<in> set ALL_CATEGORIES"
proof -
  note f10 = assms [unfolded checkF10Ontology_def Let_def set_append ball_Un raise_if_all]
  have "\<forall>r \<in> set (map (\<lambda>(f, _). reason F10 (''FIELD_MISSING:'' @ f) VOID)
      (filter snd (required_fields (fc_action ctx)))). severity_of r \<notin> {HOLD, VOID}"
    using f10 by blast
  then show "list_all (\<lambda>(f, missing). \<not> missing) (required_fields (fc_action ctx))"
    by (auto simp: list_all_iff split: prod.splits)
  show "action_type (fc_action ctx) \<in> set ALL_CATEGORIES" using f10 by simp
qed

lemma f2_clear:
  assumes "\<forall>r \<in> set (checkF2Truth ctx). severity_of r \<notin> {HOLD, VOID}"
    and "action_type (fc_action ctx) \<in> set requires_epistemic"
    and "tier (fc_action ctx) \<in> set (map Some [0, 1, 2, 3, 4, 5])"
  shows "\<exists>t n. tier (fc_action ctx) = Some t \<and> t \<ge> 3 \<and> evidence_count (fc_action ctx) = Some n \<and> n \<ge> 1"
  using assms by (auto simp: checkF2Truth_def Let_def not_less split: if_splits option.splits)

text \<open>
  C6. An allowed action is governed: no halt covers it, every required field is declared, the
  category is known and is not a floor change, the tier is one of the six, a destructive
  category has a rollback plan, a category that acts on model output has a tier of at least
  PLAUSIBLE and evidence, a barely reversible action stays local, a live-service action does
  not reach a service, and a given G score or witness reaches its threshold.
\<close>

theorem allowed_means_governed:
  assumes "v_allowed (checkAll rt mac now c ctx)"
  defines "a \<equiv> fc_action ctx"
  shows "\<not> isActive c ScopeAction (action_id a) \<and> \<not> isActive c ScopeTool (tool_name a) \<and>
    list_all (\<lambda>(f, missing). \<not> missing) (required_fields a) \<and>
    length (trim (intent a)) \<ge> 5 \<and> length (trim (expected_outcome a)) \<ge> 5 \<and>
    action_type a \<in> set ALL_CATEGORIES - {''CONSTITUTIONAL_FLOOR_CHANGE''} \<and>
    tier a \<in> set (map Some [0, 1, 2, 3, 4, 5]) \<and>
    (action_type a \<in> set destructive_categories \<longrightarrow> \<not> no_rollback a) \<and>
    (action_type a \<in> set requires_epistemic \<longrightarrow>
      (\<exists>t n. tier a = Some t \<and> t \<ge> 3 \<and> evidence_count a = Some n \<and> n \<ge> 1)) \<and>
    (\<forall>q. reversibility_score a = Some q \<longrightarrow> q < dbl (3 / 10) \<longrightarrow>
      blast_radius a \<in> {None, Some BLocal, Some BRepo}) \<and>
    (action_type a \<in> {''INFRASTRUCTURE_RESTART'', ''PRODUCTION_DEPLOY'', ''EXECUTE''} \<longrightarrow>
      blast_radius a \<notin> {Some BService, Some BVps, Some BFederation}) \<and>
    (\<forall>g. g_score ctx = Some g \<longrightarrow> g \<ge> dbl (80 / 100)) \<and>
    (\<forall>w. quad_witness ctx = Some w \<longrightarrow> w \<ge> dbl (75 / 100))"
proof -
  note ok = allowed_floors [OF assms(1)]
  note f1 = f1_clear [OF ok(4)] and f10 = f10_clear [OF ok(3)]
  have halt: "\<not> isActive c ScopeAction (action_id a)" "\<not> isActive c ScopeTool (tool_name a)"
    using ok(1) by (auto simp: checkF13Sovereign_def Let_def a_def)
  have tier: "tier a \<in> set (map Some [0, 1, 2, 3, 4, 5])"
    using ok(10) by (simp only: checkUnknownAction_def Let_def a_def set_append ball_Un raise_if_all) simp
  have f2: "\<exists>t n. tier a = Some t \<and> t \<ge> 3 \<and> evidence_count a = Some n \<and> n \<ge> 1"
    if "action_type a \<in> set requires_epistemic"
    unfolding a_def by (rule f2_clear [OF ok(5) that [unfolded a_def] tier [unfolded a_def]])
  have f4: "length (trim (intent a)) \<ge> 5" "length (trim (expected_outcome a)) \<ge> 5"
    using ok(6) by (simp_all add: checkF4Clarity_def Let_def a_def ball_Un not_less)
  have f5: "blast_radius a \<notin> {Some BService, Some BVps, Some BFederation}"
    if "action_type a \<in> {''INFRASTRUCTURE_RESTART'', ''PRODUCTION_DEPLOY'', ''EXECUTE''}"
    using ok(8) that by (simp only: checkF5Peace2_def Let_def a_def set_append ball_Un raise_if_all) simp
  have f8: "\<forall>g. g_score ctx = Some g \<longrightarrow> g \<ge> dbl (80 / 100)"
    using ok(7) by (auto simp: checkF8Genius_def)
  have f3: "\<forall>w. quad_witness ctx = Some w \<longrightarrow> w \<ge> dbl (75 / 100)"
    using ok(9) by (auto simp: checkF3Witness_def)
  show ?thesis
    using halt tier f2 f4 f5 f8 f3 f10(2) f1(3-5) f10(1) unfolding a_def by blast
qed

definition quiet_channel :: channel where
  "quiet_channel = \<lparr> activeHalts = [], handlers = [], delivered = [], watching = False \<rparr>"

definition sample_action :: action_request where
  "sample_action =
     \<lparr> action_id = ''a1'', tool_name = ''forge_shell_dryrun'', action_type = ''READ'', target = ''docs'',
       tier = Some 3, actor = ''arif'', session_id = ''s1'', intent = ''list the docs'',
       expected_outcome = ''a listing'', args = None, mission = None, reversibility_score = None,
       blast_radius = None, rollback_plan = None, evidence_count = None, sensitivity = None,
       metadata = [] \<rparr>"

definition sample_context :: floor_context where
  "sample_context =
     \<lparr> fc_action = sample_action, fc_actor_id = ''arif'', fc_session_id = ''s1'', f13_halt_active = False,
       f13_halt_scope = None, g_score = None, quad_witness = None, fc_aae = None, fc_organ_secret = None \<rparr>"

lemma sample_allowed: "v_allowed (checkAll plain_runtime sample_mac 0 quiet_channel sample_context)"
  by code_simp

text \<open>The sample is governed.\<close>

theorem allowed_means_governed_witness:
  "length (trim (intent sample_action)) \<ge> 5 \<and> action_type sample_action \<in> set ALL_CATEGORIES \<and>
   \<not> isActive quiet_channel ScopeTool (tool_name sample_action)"
  using allowed_means_governed [OF sample_allowed]
  by (simp only: sample_context_def floor_context.simps Diff_iff simp_thms)

section \<open>Halts reach the floors\<close>

lemma halted_void:
  assumes "isActive c ScopeAction (action_id (fc_action ctx)) \<or> isActive c ScopeTool (tool_name (fc_action ctx)) \<or>
    isActive c ScopeFederation ''all''"
  shows "v_final (checkAll rt mac now c ctx) = VOID"
proof (rule void_by)
  show "reason F13 ''HALT_ACTIVE'' VOID \<in> set (all_reasons rt mac now c ctx)"
    using assms unfolding all_reasons_def checkF13Sovereign_def Let_def by simp
qed simp

lemma f13_reads:
  assumes "\<And>scope target. scope \<noteq> ScopeOrgan \<Longrightarrow> isActive c scope target = isActive d scope target"
  shows "checkAll rt mac now c ctx = checkAll rt mac now d ctx"
  unfolding checkAll_def all_reasons_def checkF13Sovereign_def by (simp add: assms)

text \<open>
  A sovereign halt takes effect on the next check: once a valid message that covers the
  action, its tool or the federation is published, the verdict of the action is VOID, however
  the other floors judge it and whether or not the halt file could be written. A halt of an
  organ, valid and published in the same way, changes no verdict.
\<close>

theorem published_halt_voids:
  assumes "isValidHaltMessage msg"
  shows "(halts msg ScopeAction (action_id (fc_action ctx)) \<or>
          halts msg ScopeTool (tool_name (fc_action ctx)) \<or> halts msg ScopeFederation ''all'' \<longrightarrow>
          v_final (checkAll rt mac now (snd (publish w msg file' c)) ctx) = VOID) \<and>
    (field msg ''scope'' = JStr ''organ'' \<longrightarrow>
      checkAll rt mac now (snd (publish w msg file' c)) ctx = checkAll rt mac now c ctx)"
proof (intro conjI impI)
  assume "halts msg ScopeAction (action_id (fc_action ctx)) \<or>
    halts msg ScopeTool (tool_name (fc_action ctx)) \<or> halts msg ScopeFederation ''all''"
  then show "v_final (checkAll rt mac now (snd (publish w msg file' c)) ctx) = VOID"
    by (intro halted_void) (use publish_halts [OF assms] in blast)
next
  assume "field msg ''scope'' = JStr ''organ''"
  then show "checkAll rt mac now (snd (publish w msg file' c)) ctx = checkAll rt mac now c ctx"
    by (intro f13_reads organ_halt_elsewhere [OF assms])
qed

theorem published_halt_voids_witness:
  "v_final (checkAll plain_runtime sample_mac 0 (snd (publish False stop_all None quiet_channel)) sample_context) = VOID"
  using published_halt_voids [OF stop_all_valid(1)] stop_all_valid(2) by blast

section \<open>What the MCP wrapper can allow\<close>

lemma f5_clear:
  assumes "\<forall>r \<in> set (checkF5Peace2 ctx). severity_of r \<notin> {HOLD, VOID}"
    and "action_type (fc_action ctx) \<in> {''INFRASTRUCTURE_RESTART'', ''PRODUCTION_DEPLOY'', ''EXECUTE''}"
  shows "blast_radius (fc_action ctx) \<notin> {Some BService, Some BVps, Some BFederation}"
  using assms by (simp only: checkF5Peace2_def Let_def set_append ball_Un raise_if_all) simp

lemma mcp_action:
  "fc_action (mcp_context rt uuid toolName kvs callerActor callerSession) =
   buildActionRequest rt uuid toolName kvs callerActor callerSession None"
  by (simp add: mcp_context_def Let_def)

lemma mcp_fields:
  "action_type (buildActionRequest rt uuid toolName kvs ca cs t) = classifyAction rt toolName kvs"
  "blast_radius (buildActionRequest rt uuid toolName kvs ca cs t) = Some BService"
  "mission (buildActionRequest rt uuid toolName kvs ca cs t) = None"
  "rollback_plan (buildActionRequest rt uuid toolName kvs ca cs t) = text_field (field (JObj kvs) ''rollback_plan'')"
  by (simp_all add: buildActionRequest_def Let_def)

text \<open>
  Through the MCP wrapper a call classified as execution or as a production deploy is
  never allowed, whatever its arguments, since the wrapper declares every call to have the
  blast radius of a service; a call of a destructive category is allowed only with a rollback
  plan among its arguments; and the sovereign's acknowledgement is never asked for, since the
  mission of the arguments is not passed on: F13 reports a halt or nothing.
\<close>

theorem mcp_calls_allowed:
  "(classifyAction rt toolName kvs \<in> {''EXECUTE'', ''PRODUCTION_DEPLOY''} \<longrightarrow>
      \<not> v_allowed (enforceMcpFloor rt mac now c uuid toolName kvs ca cs)) \<and>
   (classifyAction rt toolName kvs \<in> set destructive_categories \<longrightarrow>
      v_allowed (enforceMcpFloor rt mac now c uuid toolName kvs ca cs) \<longrightarrow>
      (\<exists>plan. field (JObj kvs) ''rollback_plan'' = JStr plan \<and> \<not> blank plan)) \<and>
   checkF13Sovereign c (mcp_context rt uuid toolName kvs ca cs) \<in> {[], [reason F13 ''HALT_ACTIVE'' VOID]}"
proof (intro conjI impI)
  let ?ctx = "mcp_context rt uuid toolName kvs ca cs"
  assume x: "classifyAction rt toolName kvs \<in> {''EXECUTE'', ''PRODUCTION_DEPLOY''}"
  show "\<not> v_allowed (enforceMcpFloor rt mac now c uuid toolName kvs ca cs)"
  proof
    assume "v_allowed (enforceMcpFloor rt mac now c uuid toolName kvs ca cs)"
    then have "v_allowed (checkAll rt mac now c ?ctx)" unfolding enforceMcpFloor_def .
    from f5_clear [OF allowed_floors(8) [OF this]] show False
      using x unfolding mcp_action mcp_fields by blast
  qed
next
  let ?ctx = "mcp_context rt uuid toolName kvs ca cs"
  assume d: "classifyAction rt toolName kvs \<in> set destructive_categories"
    and "v_allowed (enforceMcpFloor rt mac now c uuid toolName kvs ca cs)"
  then have "v_allowed (checkAll rt mac now c ?ctx)" unfolding enforceMcpFloor_def by blast
  from f1_clear(3) [OF allowed_floors(4) [OF this]]
  have "\<not> no_rollback (buildActionRequest rt uuid toolName kvs ca cs None)"
    using d unfolding mcp_action mcp_fields by blast
  then show "\<exists>plan. field (JObj kvs) ''rollback_plan'' = JStr plan \<and> \<not> blank plan"
    unfolding no_rollback_def mcp_fields by (cases "field (JObj kvs) ''rollback_plan''") simp_all
next
  show "checkF13Sovereign c (mcp_context rt uuid toolName kvs ca cs) \<in> {[], [reason F13 ''HALT_ACTIVE'' VOID]}"
    unfolding checkF13Sovereign_def Let_def mcp_action mcp_fields by simp
qed

lemma forge_execute_class: "classifyAction plain_runtime ''arif_forge_execute'' [] = ''EXECUTE''"
  by code_simp

theorem mcp_calls_allowed_witness:
  "\<not> v_allowed (enforceMcpFloor plain_runtime sample_mac 0 quiet_channel ''a1'' ''arif_forge_execute'' [] ''arif'' ''s1'')"
  using mcp_calls_allowed [of plain_runtime "''arif_forge_execute''" "[]" sample_mac 0 quiet_channel "''a1''" "''arif''" "''s1''"]
    forge_execute_class by simp

end
