(* ===== verification/Session_Gate.thy ===== *)
theory Session_Gate
  imports Floor_Injection
begin

text \<open>
  The session gate (\<^verbatim>\<open>src/src/domain/session/sessionGate.ts\<close>): registration of
  kernel-born sessions with a time to live, their validation, the stateless verification of
  ACT tokens, the asynchronous validation with its fallbacks and the clean-up.

  Times are milliseconds. The environment is a record: the variables the code reads, the
  hexadecimal HMAC of a payload, and \<open>claims_of\<close>, the JSON value of a base64url text (\<^term>\<open>None\<close>
  when \<^verbatim>\<open>JSON.parse\<close> throws). The kernel's HTTP reply is an argument. A reason is a
  constructor that stands for its text.
\<close>

section \<open>Sessions\<close>

record session_record =
  sr_session_id :: string
  sr_actor_id :: string
  sr_act_token :: "string option"
  sr_issued_at :: int
  sr_expires_at :: int
  sr_kernel_verified :: bool

type_synonym sessions = "(string, session_record) jsmap"

definition DEFAULT_TTL_MS :: int where "DEFAULT_TTL_MS = 3600000"
definition MAX_TTL_MS :: int where "MAX_TTL_MS = 86400000"

definition hex_lower :: "char list" where
  "hex_lower = ''abcdef0123456789''"

text \<open>\<^verbatim>\<open>/^SEAL-[a-f0-9]{16}$/\<close>\<close>

definition isSealSession :: "string \<Rightarrow> bool" where
  "isSealSession s \<longleftrightarrow>
     starts_with s ''SEAL-'' \<and> length s = 21 \<and> list_all (\<lambda>c. c \<in> set hex_lower) (drop 5 s)"

definition registerSession :: "int \<Rightarrow> string \<Rightarrow> string \<Rightarrow> int option \<Rightarrow> sessions \<Rightarrow> sessions \<times> int" where
  "registerSession now sid who ttl_ms ss =
     (let ttl = min (case ttl_ms of None \<Rightarrow> DEFAULT_TTL_MS | Some t \<Rightarrow> t) MAX_TTL_MS;
          r = \<lparr> sr_session_id = sid, sr_actor_id = who, sr_act_token = None, sr_issued_at = now,
                sr_expires_at = now + ttl, sr_kernel_verified = True \<rparr> in
      (m_set sid r ss, now + ttl))"

definition expired_ids :: "int \<Rightarrow> sessions \<Rightarrow> string list" where
  "expired_ids now ss = map fst (filter (\<lambda>(i, r). now > sr_expires_at r) ss)"

definition cleanExpiredSessions :: "int \<Rightarrow> sessions \<Rightarrow> sessions \<times> nat" where
  "cleanExpiredSessions now ss = (fold m_delete (expired_ids now ss) ss, length (expired_ids now ss))"

definition sessionExists :: "string \<Rightarrow> sessions \<Rightarrow> bool" where
  "sessionExists sid ss = m_has ss sid"

definition getSessionStats :: "sessions \<Rightarrow> nat" where
  "getSessionStats ss = length ss"

definition storeSessionAct :: "string \<Rightarrow> string \<Rightarrow> sessions \<Rightarrow> sessions" where
  "storeSessionAct sid token ss =
     (case m_get ss sid of None \<Rightarrow> ss | Some r \<Rightarrow> m_set sid (r\<lparr>sr_act_token := Some token\<rparr>) ss)"

definition getSessionAct :: "string \<Rightarrow> sessions \<Rightarrow> string option" where
  "getSessionAct sid ss = (case m_get ss sid of None \<Rightarrow> None | Some r \<Rightarrow> sr_act_token r)"

section \<open>ACT tokens\<close>

record gate_env =
  gate_token :: bool                          \<comment> \<open>ARIFOS_GATE_TOKEN is set and not empty\<close>
  session_secret :: "string option"           \<comment> \<open>ARIFOS_SESSION_SECRET\<close>
  hmac_hex :: "string \<Rightarrow> string \<Rightarrow> string"
  claims_of :: "string \<Rightarrow> json option"
  env_runtime :: runtime

fun split_on :: "char \<Rightarrow> string \<Rightarrow> string list" where
  "split_on d [] = [[]]"
| "split_on d (c # cs) =
     (if c = d then [] # split_on d cs
      else (case split_on d cs of [] \<Rightarrow> [[c]] | w # ws \<Rightarrow> (c # w) # ws))"

text \<open>\<^verbatim>\<open>a ?? b\<close> on JSON values.\<close>

definition coalesce :: "json \<Rightarrow> json \<Rightarrow> json" where
  "coalesce a b = (if a = JUndef \<or> a = JNull then b else a)"

definition verifyActLocally :: "gate_env \<Rightarrow> int \<Rightarrow> string \<Rightarrow> string \<Rightarrow> string option" where
  "verifyActLocally env now token expected_session_id =
     (case session_secret env of
        None \<Rightarrow> None
      | Some secret \<Rightarrow>
          if secret = [] then None
          else (case split_on (CHR ''.'') token of
            [p0, payload, sig] \<Rightarrow>
              if p0 \<noteq> ''act_v1'' \<or> payload = [] \<or> length sig < 16 then None
              else
                (let expected = take 16 (hmac_hex env secret payload) in
                 if expected \<noteq> take 16 sig then None
                 else
                   (case claims_of env payload of
                      None \<Rightarrow> None
                    | Some JNull \<Rightarrow> None
                    | Some claims \<Rightarrow>
                        let text = join_text (env_runtime env);
                            sid = text (coalesce (field claims ''sid'')
                                    (coalesce (field claims ''session_id'') (JStr [])));
                            exp = (case field claims ''exp'' of JNum n \<Rightarrow> n | _ \<Rightarrow> 0) in
                        if sid \<noteq> expected_session_id then None
                        else if exp \<noteq> 0 \<and> dbl (of_int now / 1000) > exp then None
                        else Some (text (coalesce (field claims ''actor'')
                               (coalesce (field claims ''actor_id'') (JStr ''opencode''))))))
          | _ \<Rightarrow> None))"

section \<open>Validation\<close>

datatype session_reason =
    SESSION_REQUIRED | SESSION_UNKNOWN | SESSION_UNVERIFIED | SESSION_EXPIRED | KERNEL_VERIFY_FAILED string

definition act_actor :: "gate_env \<Rightarrow> int \<Rightarrow> string option \<Rightarrow> string \<Rightarrow> string option" where
  "act_actor env now token sid =
     (case token of
        None \<Rightarrow> None
      | Some t \<Rightarrow> if starts_with t ''act_v1.'' then verifyActLocally env now t sid else None)"

definition validateSession ::
  "gate_env \<Rightarrow> int \<Rightarrow> string option \<Rightarrow> string option \<Rightarrow> sessions \<Rightarrow> (session_reason + string) \<times> sessions" where
  "validateSession env now given token ss =
     (case js_or given None of
        None \<Rightarrow> (Inl SESSION_REQUIRED, ss)
      | Some sid \<Rightarrow>
          let ss1 = (if m_get ss sid = None \<and> gate_token env
                     then fst (registerSession now sid ''gate-authorized-agent'' (Some 3600000) ss) else ss) in
          (case m_get ss1 sid of
             None \<Rightarrow>
               (case act_actor env now token sid of
                  Some who \<Rightarrow> (Inr who, ss1)
                | None \<Rightarrow> (Inl SESSION_UNKNOWN, ss1))
           | Some r \<Rightarrow>
               if \<not> sr_kernel_verified r then (Inl SESSION_UNVERIFIED, ss1)
               else if now > sr_expires_at r then
                 (Inl SESSION_EXPIRED, fst (cleanExpiredSessions now (m_delete sid ss1)))
               else (Inr (sr_actor_id r), ss1)))"

text \<open>
  The kernel's reply to \<^verbatim>\<open>arif_init\<close>: no reply, an HTTP status that is not ok, or a body
  (\<^term>\<open>None\<close> when it is not JSON). \<open>parse\<close> is \<^verbatim>\<open>JSON.parse\<close>. The actor of a verified
  token is whatever value the kernel sent.
\<close>

datatype kernel_reply = NoReply | NotOk | Body "json option"

definition first_item :: "json \<Rightarrow> json" where
  "first_item v = (case v of JArr (x # xs) \<Rightarrow> x | _ \<Rightarrow> JUndef)"

definition or_falsy :: "json \<Rightarrow> json \<Rightarrow> json" where
  "or_falsy a b = (if truthy a then a else b)"

definition verifySessionTokenWithKernel ::
  "(string \<Rightarrow> json option) \<Rightarrow> kernel_reply \<Rightarrow> string option \<Rightarrow> json option" where
  "verifySessionTokenWithKernel parse reply caller =
     (case reply of
        Body (Some body) \<Rightarrow>
          let resultText = field (first_item (field (field body ''result'') ''content'')) ''text'' in
          if \<not> truthy resultText then None
          else
            (case (case resultText of JStr t \<Rightarrow> parse t | v \<Rightarrow> Some v) of
               None \<Rightarrow> None
             | Some result \<Rightarrow>
                 let verified = (field (field result ''actor'') ''actor_verified'' = JBool True \<or>
                                 field result ''status'' = JStr ''resumed'' \<or>
                                 field result ''verdict'' = JStr ''SEAL'') in
                 if verified then
                   Some (or_falsy (field (field result ''actor'') ''actor_id'')
                          (or_falsy (case caller of Some a \<Rightarrow> JStr a | None \<Rightarrow> JUndef) (JStr ''opencode'')))
                 else None)
      | _ \<Rightarrow> None)"

text \<open>
  \<open>verifier\<close> is the answer of the registered callback, \<^term>\<open>None\<close> when none is set. The state
  is the one after the kernel's reply; nothing else is assumed to run before the callback's answer.
\<close>

definition validateSessionAsync ::
  "gate_env \<Rightarrow> int \<Rightarrow> (string \<Rightarrow> json option) \<Rightarrow> kernel_reply \<Rightarrow> (string + string) option \<Rightarrow>
   string option \<Rightarrow> string option \<Rightarrow> string option \<Rightarrow> sessions \<Rightarrow> (session_reason + json) \<times> sessions" where
  "validateSessionAsync env now parse reply verifier given caller token ss =
     (let sid = js_or given None; tok = js_or token None;
          local = (if sid = None \<or> tok = None then None else act_actor env now tok (the sid));
          kernel = (if sid = None \<or> tok = None then None
                    else verifySessionTokenWithKernel parse reply caller) in
      case local of
        Some who \<Rightarrow> (Inr (JStr who), ss)
      | None \<Rightarrow>
          (case kernel of
             Some who \<Rightarrow> (Inr who, ss)
           | None \<Rightarrow>
               (case validateSession env now given token ss of
                  (Inr who, ss1) \<Rightarrow> (Inr (JStr who), ss1)
                | (Inl e, ss1) \<Rightarrow>
                    (case (verifier, sid) of
                       (Some (Inr who), Some s) \<Rightarrow> (Inr (JStr who), fst (registerSession now s who None ss1))
                     | (Some (Inl why), Some s) \<Rightarrow> (Inl (KERNEL_VERIFY_FAILED why), ss1)
                     | _ \<Rightarrow> (Inl e, ss1)))))"

section \<open>Steps\<close>

text \<open>The state with the clock; \<open>env\<close> may change between steps, as the variables are read each time.\<close>

inductive session_step :: "int \<times> sessions \<Rightarrow> int \<times> sessions \<Rightarrow> bool" where
  tick: "now \<le> now' \<Longrightarrow> session_step (now, ss) (now', ss)"
| register: "session_step (now, ss) (now, fst (registerSession now sid who ttl ss))"
| validate: "session_step (now, ss) (now, snd (validateSession env now sid token ss))"
| validate_async:
    "session_step (now, ss) (now, snd (validateSessionAsync env now parse reply verifier sid who token ss))"
| clean: "session_step (now, ss) (now, fst (cleanExpiredSessions now ss))"
| store_act: "session_step (now, ss) (now, storeSessionAct sid token ss)"

inductive_cases session_stepE: "session_step s t"

definition record_ok :: "int \<Rightarrow> string \<Rightarrow> session_record \<Rightarrow> bool" where
  "record_ok now k r \<longleftrightarrow>
     sr_session_id r = k \<and> sr_kernel_verified r \<and> sr_issued_at r \<le> now \<and>
     sr_expires_at r \<le> sr_issued_at r + MAX_TTL_MS"

definition sessions_ok :: "int \<times> sessions \<Rightarrow> bool" where
  "sessions_ok s \<longleftrightarrow>
     m_wf (snd s) \<and> (\<forall>k r. m_get (snd s) k = Some r \<longrightarrow> record_ok (fst s) k r)"

lemma sessions_okI:
  "m_wf ss \<Longrightarrow> (\<And>k r. m_get ss k = Some r \<Longrightarrow> record_ok now k r) \<Longrightarrow> sessions_ok (now, ss)"
  by (simp add: sessions_ok_def)

lemma sessions_okD:
  "sessions_ok (now, ss) \<Longrightarrow> m_wf ss"
  "sessions_ok (now, ss) \<Longrightarrow> m_get ss k = Some r \<Longrightarrow> record_ok now k r"
  by (simp_all add: sessions_ok_def)

lemma register_ok:
  assumes "sessions_ok (now, ss)"
  shows "sessions_ok (now, fst (registerSession now sid who ttl ss))"
proof (rule sessions_okI)
  show "m_wf (fst (registerSession now sid who ttl ss))"
    by (simp add: registerSession_def Let_def m_wf_update sessions_okD [OF assms])
  show "record_ok now k r" if k: "m_get (fst (registerSession now sid who ttl ss)) k = Some r" for k r
    using k sessions_okD(2) [OF assms]
    by (auto simp: registerSession_def Let_def store_simps record_ok_def split: if_splits)
qed

lemma delete_ok: "sessions_ok (now, ss) \<Longrightarrow> sessions_ok (now, m_delete sid ss)"
  by (auto simp: sessions_ok_def store_simps m_wf_delete split: if_splits)

lemma clean_ok: "sessions_ok (now, ss) \<Longrightarrow> sessions_ok (now, fst (cleanExpiredSessions now ss))"
  by (auto simp: sessions_ok_def cleanExpiredSessions_def store_simps js.fold_remove_well_formed split: if_splits)

lemma validate_ok:
  assumes "sessions_ok (now, ss)"
  shows "sessions_ok (now, snd (validateSession env now sid token ss))"
  using assms
  by (auto simp: validateSession_def Let_def split: option.splits if_splits
      intro!: register_ok clean_ok delete_ok)

lemma store_ok:
  assumes "sessions_ok (now, ss)"
  shows "sessions_ok (now, storeSessionAct sid token ss)"
proof (cases "m_get ss sid")
  case (Some r)
  have "record_ok now sid (r\<lparr>sr_act_token := Some token\<rparr>)"
    using sessions_okD(2) [OF assms Some] by (simp add: record_ok_def)
  with Some sessions_okD [OF assms] show ?thesis
    by (auto simp: storeSessionAct_def store_simps m_wf_update intro!: sessions_okI split: if_splits)
qed (simp add: storeSessionAct_def assms)

lemma async_ok:
  assumes "sessions_ok (now, ss)"
  shows "sessions_ok (now, snd (validateSessionAsync env now parse reply verifier sid who token ss))"
proof -
  obtain out ss1 where v: "validateSession env now sid token ss = (out, ss1)" by fastforce
  then have "sessions_ok (now, ss1)" using validate_ok [OF assms, of env sid token] by simp
  then show ?thesis using assms register_ok
    by (simp add: validateSessionAsync_def Let_def v split: option.splits sum.splits)
qed

interpretation sessions: kept_invariant session_step sessions_ok
proof
  fix s t
  assume "session_step s t" "sessions_ok s"
  then show "sessions_ok t"
  proof (cases rule: session_step.cases)
    case (tick now now' ss)
    with \<open>sessions_ok s\<close> show ?thesis by (fastforce simp: sessions_ok_def record_ok_def)
  qed (auto intro: register_ok validate_ok async_ok clean_ok store_ok)
qed

section \<open>Who is accepted\<close>

lemma cleaned: "m_get (fst (cleanExpiredSessions now ss)) k =
    (if k \<in> set (expired_ids now ss) then None else m_get ss k)"
  by (simp add: cleanExpiredSessions_def store_simps)

lemma expired_iff: "m_wf ss \<Longrightarrow> k \<in> set (expired_ids now ss) \<longleftrightarrow>
    (\<exists>r. m_get ss k = Some r \<and> now > sr_expires_at r)"
  by (force simp: expired_ids_def m_get_iff)

text \<open>What the registry, the gate token and an ACT token say of a session.\<close>

definition session_accepts :: "gate_env \<Rightarrow> int \<Rightarrow> string option \<Rightarrow> string \<Rightarrow> sessions \<Rightarrow> string \<Rightarrow> bool" where
  "session_accepts env now token sid ss who \<longleftrightarrow>
     (case m_get ss sid of
        Some r \<Rightarrow> now \<le> sr_expires_at r \<and> now \<le> sr_issued_at r + MAX_TTL_MS \<and> who = sr_actor_id r
      | None \<Rightarrow> if gate_token env then who = ''gate-authorized-agent'' else act_actor env now token sid = Some who)"

text \<open>What a token proves by itself, whatever the registry says: an ACT token that verifies, or the kernel's word.\<close>

definition token_proves ::
  "gate_env \<Rightarrow> int \<Rightarrow> (string \<Rightarrow> json option) \<Rightarrow> kernel_reply \<Rightarrow> string option \<Rightarrow> string option \<Rightarrow> string \<Rightarrow> json option" where
  "token_proves env now parse reply caller token sid =
     (case js_or token None of
        None \<Rightarrow> None
      | Some t \<Rightarrow>
          (case act_actor env now (Some t) sid of
             Some who \<Rightarrow> Some (JStr who)
           | None \<Rightarrow> verifySessionTokenWithKernel parse reply caller))"

lemma validate_accepts:
  assumes "sessions_ok (now, ss)" "sid \<noteq> []"
  shows "fst (validateSession env now (Some sid) token ss) = Inr who \<longleftrightarrow> session_accepts env now token sid ss who"
proof (cases "m_get ss sid")
  case None
  then show ?thesis using assms(2)
    by (auto simp: session_accepts_def validateSession_def Let_def registerSession_def MAX_TTL_MS_def store_simps
        split: option.splits)
next
  case (Some r)
  show ?thesis using Some assms(2) sessions_okD(2) [OF assms(1) Some, unfolded record_ok_def]
    by (auto simp: session_accepts_def validateSession_def Let_def)
qed

lemma validate_expires:
  assumes "sessions_ok (now, ss)" "sid \<noteq> []" "fst (validateSession env now (Some sid) token ss) = Inl SESSION_EXPIRED"
  shows "m_get (snd (validateSession env now (Some sid) token ss)) k =
    (if \<exists>r. m_get ss k = Some r \<and> now > sr_expires_at r then None else m_get ss k)"
proof (cases "m_get ss sid")
  case None
  then show ?thesis using assms(2,3)
    by (auto simp: validateSession_def Let_def registerSession_def MAX_TTL_MS_def store_simps split: option.splits if_splits)
next
  case (Some r)
  have wf: "m_wf (m_delete sid ss)" using sessions_okD(1) [OF assms(1)] by (rule m_wf_delete)
  have "m_get (fst (cleanExpiredSessions now (m_delete sid ss))) k =
      (if \<exists>r. m_get ss k = Some r \<and> now > sr_expires_at r then None else m_get ss k)"
    if "now > sr_expires_at r"
    using that Some unfolding cleaned expired_iff [OF wf] by (auto simp: store_simps)
  then show ?thesis using Some assms(2,3) sessions_okD(2) [OF assms(1) Some, unfolded record_ok_def]
    by (auto simp: validateSession_def Let_def split: if_splits)
qed

lemma async_accepts:
  assumes "sessions_ok (now, ss)" "sid \<noteq> []"
  shows "fst (validateSessionAsync env now parse reply verifier (Some sid) caller token ss) = Inr who \<longleftrightarrow>
    (case token_proves env now parse reply caller token sid of
       Some v \<Rightarrow> who = v
     | None \<Rightarrow> (\<exists>a. session_accepts env now token sid ss a \<and> who = JStr a) \<or>
         (\<nexists>a. session_accepts env now token sid ss a) \<and> (\<exists>a. verifier = Some (Inr a) \<and> who = JStr a))"
proof -
  obtain out ss1 where v: "validateSession env now (Some sid) token ss = (out, ss1)" by fastforce
  have acc: "session_accepts env now token sid ss a \<longleftrightarrow> out = Inr a" for a
    using validate_accepts [OF assms, of env token a] v by simp
  have async: "validateSessionAsync env now parse reply verifier (Some sid) caller token ss =
      (case token_proves env now parse reply caller token sid of
         Some w \<Rightarrow> (Inr w, ss)
       | None \<Rightarrow> (case out of
             Inr w \<Rightarrow> (Inr (JStr w), ss1)
           | Inl e \<Rightarrow> (case verifier of
                 Some (Inr w) \<Rightarrow> (Inr (JStr w), fst (registerSession now sid w None ss1))
               | Some (Inl why) \<Rightarrow> (Inl (KERNEL_VERIFY_FAILED why), ss1)
               | None \<Rightarrow> (Inl e, ss1))))"
    using assms(2) by (auto simp: validateSessionAsync_def token_proves_def Let_def v split: option.splits sum.splits)
  show ?thesis unfolding async acc by (auto split: option.splits sum.splits)
qed

text \<open>
  C39. In every reachable state, \<open>validateSession\<close> accepts a non-empty session identifier for exactly one of three
  reasons: it is registered and its time to live, never more than a day after its
  registration, has not run out, and then the actor is the registered one; it is unknown and
  the deployment registers unknown sessions by its gate token; or it is unknown, there is no gate token, and it carries an
  ACT token that verifies for it (for a registered session that has expired such a token does not help). When it finds a
  session expired, it removes every expired session and no other. \<open>validateSessionAsync\<close> looks at the token first:
  it accepts, registered and expired or not, whatever an ACT token that verifies or else the kernel says of the actor; only
  a token that proves nothing leaves it to \<open>validateSession\<close>, and then to the callback.
\<close>

theorem session_accepted_iff:
  assumes run: "session_step\<^sup>*\<^sup>* (start, []) (now, ss)" and sid: "sid \<noteq> []"
  shows "(fst (validateSession env now (Some sid) token ss) = Inr who \<longleftrightarrow>
      (\<exists>r. m_get ss sid = Some r \<and> now \<le> sr_expires_at r \<and> now \<le> sr_issued_at r + MAX_TTL_MS \<and>
           who = sr_actor_id r) \<or>
      m_get ss sid = None \<and>
        (if gate_token env then who = ''gate-authorized-agent'' else act_actor env now token sid = Some who)) \<and>
    (fst (validateSession env now (Some sid) token ss) = Inl SESSION_EXPIRED \<longrightarrow>
      m_get (snd (validateSession env now (Some sid) token ss)) k =
        (if \<exists>r. m_get ss k = Some r \<and> now > sr_expires_at r then None else m_get ss k)) \<and>
    (fst (validateSessionAsync env now parse reply verifier (Some sid) caller token ss) = Inr v \<longleftrightarrow>
      (case token_proves env now parse reply caller token sid of
         Some w \<Rightarrow> v = w
       | None \<Rightarrow> (\<exists>a. session_accepts env now token sid ss a \<and> v = JStr a) \<or>
           (\<nexists>a. session_accepts env now token sid ss a) \<and> (\<exists>a. verifier = Some (Inr a) \<and> v = JStr a)))"
proof -
  have ok: "sessions_ok (now, ss)"
    by (rule sessions.run_inv [OF run]) (simp add: sessions_ok_def m_wf_def)
  have "session_accepts env now token sid ss who \<longleftrightarrow>
      (\<exists>r. m_get ss sid = Some r \<and> now \<le> sr_expires_at r \<and> now \<le> sr_issued_at r + MAX_TTL_MS \<and>
           who = sr_actor_id r) \<or>
      m_get ss sid = None \<and>
        (if gate_token env then who = ''gate-authorized-agent'' else act_actor env now token sid = Some who)"
    by (cases "m_get ss sid") (auto simp: session_accepts_def)
  then show ?thesis
    using validate_accepts [OF ok sid, of env token who] validate_expires [OF ok sid, of env token k]
      async_accepts [OF ok sid, of env parse reply verifier caller token v] by blast
qed

definition plain_env :: gate_env where
  "plain_env = \<lparr> gate_token = False, session_secret = None, hmac_hex = \<lambda>k t. [], claims_of = \<lambda>t. None,
     env_runtime = \<lparr> sha256 = \<lambda>t. t, number_text = \<lambda>n. [], get_time = \<lambda>t. 0 \<rparr> \<rparr>"

definition one_session :: sessions where
  "one_session = fst (registerSession 0 ''s1'' ''arif'' None [])"

lemma one_session_reached: "session_step\<^sup>*\<^sup>* (0, []) (3600000, one_session)"
  by (rule rtranclp.rtrancl_into_rtrancl [OF r_into_rtranclp])
     (auto simp: one_session_def intro: session_step.register session_step.tick)

theorem session_accepted_iff_witness:
  "fst (validateSession plain_env 3600000 (Some ''s1'') None one_session) = Inr ''arif'' \<and>
   fst (validateSession plain_env 3600000 (Some ''SEAL-0123456789abcdef'') None one_session) \<noteq> Inr ''arif'' \<and>
   fst (validateSessionAsync plain_env 3600000 (\<lambda>t. None) NoReply None (Some ''s1'') None None one_session) = Inr (JStr ''arif'')"
  using session_accepted_iff [OF one_session_reached, of "''s1''" plain_env None "''arif''" _ "\<lambda>t. None" NoReply None None "JStr ''arif''"]
    session_accepted_iff [OF one_session_reached, of "''SEAL-0123456789abcdef''" plain_env None "''arif''"]
  by (simp add: one_session_def registerSession_def Let_def DEFAULT_TTL_MS_def MAX_TTL_MS_def
      plain_env_def act_actor_def token_proves_def session_accepts_def)

end
