(* ===== verification/Well_Readiness.thy ===== *)
theory Well_Readiness
  imports Text_Match Double_Arith
begin

text \<open>
  The readiness gate (\<^verbatim>\<open>src/src/domain/governance/wellReadiness.ts\<close>): the verdict on the
  health report of the organ WELL for an execution of a given risk.

  The report is the interface \<^verbatim>\<open>WellHealthPayload\<close>, an absent field \<^term>\<open>None\<close>;
  \<open>NullBody\<close> is the body \<^verbatim>\<open>null\<close>, on which the first field access throws. Messages and
  the address of the source are left out.
\<close>

datatype well_verdict = PASS_W | SABAR_W | HOLD_W
datatype risk_level = RiskLow | RiskMedium | RiskHigh | RiskCritical

record well_health =
  wh_identity :: "string option"
  wh_authority :: "string option"
  wh_well_signal :: "string option"
  wh_well_score :: "rat option"
  wh_floors_violated :: "string list option"
  wh_truth_status :: "string option"
  wh_has_metrics :: "bool option"
  wh_has_verified_telemetry :: "bool option"
  wh_clarity :: "rat option"
  wh_freshness_band :: "string option"
  wh_state_age_hours :: "rat option"
  wh_freshness_status :: "string option"
  wh_decision_fatigue :: "rat option"

datatype well_reply = Unreachable | HttpError | NullBody | Health well_health

record well_result =
  wr_verdict :: well_verdict
  wr_score :: rat
  wr_fatigue :: rat
  wr_floors_violated :: "string list"
  wr_signal :: "string option"
  wr_truthStatus :: "string option"
  wr_freshnessBand :: "string option"
  wr_hasVerifiedTelemetry :: bool
  wr_stateAgeHours :: "rat option"

definition blockedTelemetryResult :: "risk_level \<Rightarrow> well_result" where
  "blockedTelemetryResult risk =
     \<lparr> wr_verdict = (if risk = RiskLow \<or> risk = RiskMedium then SABAR_W else HOLD_W), wr_score = 0,
       wr_fatigue = 0, wr_floors_violated = [], wr_signal = None, wr_truthStatus = None,
       wr_freshnessBand = None, wr_hasVerifiedTelemetry = False, wr_stateAgeHours = None \<rparr>"

definition or_zero :: "rat option \<Rightarrow> rat" where
  "or_zero n = (case n of None \<Rightarrow> 0 | Some x \<Rightarrow> x)"

definition below :: "rat option \<Rightarrow> rat \<Rightarrow> bool" where
  "below n b = (case n of None \<Rightarrow> False | Some x \<Rightarrow> x < b)"

definition freshness_of :: "well_health \<Rightarrow> string option" where
  "freshness_of h = (case wh_freshness_status h of Some s \<Rightarrow> Some s | None \<Rightarrow> wh_freshness_band h)"

definition well_verdict_of :: "risk_level \<Rightarrow> well_health \<Rightarrow> well_verdict" where
  "well_verdict_of risk h =
     (let score = or_zero (wh_well_score h); fatigue = or_zero (wh_decision_fatigue h);
          violations = (case wh_floors_violated h of None \<Rightarrow> [] | Some fs \<Rightarrow> fs);
          clarity = wh_clarity h in
      if wh_identity h \<noteq> Some ''WELL'' \<or> wh_authority h \<noteq> Some ''REFLECT_ONLY'' then HOLD_W
      else if wh_has_metrics h \<noteq> Some True \<or> wh_has_verified_telemetry h \<noteq> Some True then
        (if risk = RiskCritical then HOLD_W else SABAR_W)
      else if freshness_of h = Some ''stale'' \<or> freshness_of h = Some ''expired'' then
        (if risk = RiskCritical \<or> risk = RiskHigh then HOLD_W else SABAR_W)
      else if wh_truth_status h = Some ''INSUFFICIENT_DATA'' \<or> wh_truth_status h = Some ''UNVERIFIED'' then
        (if risk = RiskCritical then HOLD_W else SABAR_W)
      else if (case wh_well_signal h of None \<Rightarrow> False | Some s \<Rightarrow> str_includes s ''HOLD'') then
        (if risk = RiskLow then SABAR_W else HOLD_W)
      else if violations \<noteq> [] then
        (if risk = RiskHigh \<or> risk = RiskCritical then HOLD_W else SABAR_W)
      else if score < 60 \<or> fatigue > 7 \<or> below clarity 40 then
        (if risk = RiskCritical \<or> risk = RiskHigh then HOLD_W else SABAR_W)
      else if score < 80 \<or> fatigue > 4 \<or> below clarity 65 then
        (if risk = RiskCritical \<or> risk = RiskHigh then SABAR_W else PASS_W)
      else PASS_W)"

text \<open>\<^term>\<open>None\<close> when the promise is rejected.\<close>

definition checkWellReadiness :: "risk_level \<Rightarrow> well_reply \<Rightarrow> well_result option" where
  "checkWellReadiness risk reply =
     (case reply of
        Health h \<Rightarrow> Some
          \<lparr> wr_verdict = well_verdict_of risk h, wr_score = or_zero (wh_well_score h),
            wr_fatigue = or_zero (wh_decision_fatigue h),
            wr_floors_violated = (case wh_floors_violated h of None \<Rightarrow> [] | Some fs \<Rightarrow> fs),
            wr_signal = wh_well_signal h, wr_truthStatus = wh_truth_status h,
            wr_freshnessBand = freshness_of h,
            wr_hasVerifiedTelemetry = (wh_has_verified_telemetry h = Some True),
            wr_stateAgeHours = wh_state_age_hours h \<rparr>
      | NullBody \<Rightarrow> None
      | _ \<Rightarrow> Some (blockedTelemetryResult risk))"

section \<open>More risk, more caution\<close>

fun verdict_rank :: "well_verdict \<Rightarrow> nat" where
  "verdict_rank PASS_W = 0" | "verdict_rank SABAR_W = 1" | "verdict_rank HOLD_W = 2"

fun risk_rank :: "risk_level \<Rightarrow> nat" where
  "risk_rank RiskLow = 0" | "risk_rank RiskMedium = 1" | "risk_rank RiskHigh = 2" | "risk_rank RiskCritical = 3"

lemma health_monotone:
  assumes "risk_rank r \<le> risk_rank r'"
  shows "verdict_rank (well_verdict_of r h) \<le> verdict_rank (well_verdict_of r' h)"
  using assms by (cases r; cases r') (simp_all add: well_verdict_of_def Let_def)

lemma reply_monotone:
  assumes "risk_rank r \<le> risk_rank r'" "checkWellReadiness r reply = Some a" "checkWellReadiness r' reply = Some b"
  shows "verdict_rank (wr_verdict a) \<le> verdict_rank (wr_verdict b)"
proof (cases reply)
  case (Health h)
  then show ?thesis using assms health_monotone [OF assms(1), of h] by (auto simp: checkWellReadiness_def)
qed (use assms in \<open>cases r; cases r'; auto simp: checkWellReadiness_def blockedTelemetryResult_def\<close>)+

lemma age_unread: "well_verdict_of r (h\<lparr>wh_state_age_hours := age\<rparr>) = well_verdict_of r h"
proof -
  have "freshness_of (h\<lparr>wh_state_age_hours := age\<rparr>) = freshness_of h"
    by (simp add: freshness_of_def split: option.split)
  then show ?thesis unfolding well_verdict_of_def Let_def by (simp cong: if_cong option.case_cong)
qed

lemma critical_pass:
  assumes "well_verdict_of RiskCritical h = PASS_W"
  shows "wh_identity h = Some ''WELL''" "wh_authority h = Some ''REFLECT_ONLY''"
    "wh_has_verified_telemetry h = Some True" "freshness_of h \<noteq> Some ''stale''" "freshness_of h \<noteq> Some ''expired''"
    "(case wh_floors_violated h of None \<Rightarrow> [] | Some fs \<Rightarrow> fs) = []"
    "\<not> or_zero (wh_well_score h) < 80" "\<not> or_zero (wh_decision_fatigue h) > 4"
  using assms unfolding well_verdict_of_def Let_def
  by (simp_all only: if_split_eq1 if_split_eq2 split: if_split_asm) auto

text \<open>
  The readiness gate is monotone in the risk: what is asked of a more dangerous execution
  is never less than what is asked of a less dangerous one, for every reply of WELL; without a
  reply high and critical executions are held; and a critical execution passes only on a
  report that is authentic, measured, verified, fresh, without violations and with the load
  within its bounds. The age of the report is never consulted.
\<close>

theorem readiness_monotone:
  assumes "risk_rank r \<le> risk_rank r'"
    and "checkWellReadiness r reply = Some a" and "checkWellReadiness r' reply = Some b"
  shows "verdict_rank (wr_verdict a) \<le> verdict_rank (wr_verdict b) \<and>
    (reply \<in> {Unreachable, HttpError} \<longrightarrow> r' \<in> {RiskHigh, RiskCritical} \<longrightarrow> wr_verdict b = HOLD_W) \<and>
    (r' = RiskCritical \<longrightarrow> wr_verdict b = PASS_W \<longrightarrow>
      (\<exists>h. reply = Health h \<and> wh_identity h = Some ''WELL'' \<and> wh_authority h = Some ''REFLECT_ONLY'' \<and>
        wr_hasVerifiedTelemetry b \<and> wr_freshnessBand b \<notin> {Some ''stale'', Some ''expired''} \<and>
        wr_floors_violated b = [] \<and> wr_score b \<ge> 80 \<and> wr_fatigue b \<le> 4)) \<and>
    (\<forall>h age. reply = Health h \<longrightarrow>
      map_option wr_verdict (checkWellReadiness r (Health (h\<lparr>wh_state_age_hours := age\<rparr>))) = Some (wr_verdict a))"
proof (intro conjI impI allI)
  show "verdict_rank (wr_verdict a) \<le> verdict_rank (wr_verdict b)" by (rule reply_monotone [OF assms])
next
  assume "reply \<in> {Unreachable, HttpError}" "r' \<in> {RiskHigh, RiskCritical}"
  then show "wr_verdict b = HOLD_W"
    using assms(3) by (auto simp: checkWellReadiness_def blockedTelemetryResult_def)
next
  assume crit: "r' = RiskCritical" "wr_verdict b = PASS_W"
  then obtain h where h: "reply = Health h"
    using assms(3) by (cases reply) (auto simp: checkWellReadiness_def blockedTelemetryResult_def)
  then have "well_verdict_of RiskCritical h = PASS_W"
    using assms(3) crit by (auto simp: checkWellReadiness_def)
  then show "\<exists>h. reply = Health h \<and> wh_identity h = Some ''WELL'' \<and> wh_authority h = Some ''REFLECT_ONLY'' \<and>
        wr_hasVerifiedTelemetry b \<and> wr_freshnessBand b \<notin> {Some ''stale'', Some ''expired''} \<and>
        wr_floors_violated b = [] \<and> wr_score b \<ge> 80 \<and> wr_fatigue b \<le> 4"
    using assms(3) h crit(1) critical_pass [of h] by (auto simp: checkWellReadiness_def not_less)
next
  fix h age
  assume "reply = Health h"
  moreover have "well_verdict_of r (h\<lparr>wh_state_age_hours := age\<rparr>) = well_verdict_of r h"
    by (rule age_unread)
  ultimately show "map_option wr_verdict (checkWellReadiness r (Health (h\<lparr>wh_state_age_hours := age\<rparr>))) = Some (wr_verdict a)"
    using assms(2) by (auto simp: checkWellReadiness_def)
qed

theorem readiness_monotone_witness:
  "map_option wr_verdict (checkWellReadiness RiskCritical Unreachable) = Some HOLD_W"
  using readiness_monotone [of RiskMedium RiskCritical Unreachable "blockedTelemetryResult RiskMedium"
      "blockedTelemetryResult RiskCritical"]
  by (simp add: checkWellReadiness_def)

end
