(* ===== verification/Memory_Gate.thy ===== *)
theory Memory_Gate
  imports Floors Session_Gate Well_Readiness Hash_Chain
begin

text \<open>
  The central gate of the memory operations: the registry of agents and actors
  (\<^verbatim>\<open>src/src/domain/aaa/AaaAgentRegistry.ts\<close>), the capability graph
  (\<^verbatim>\<open>AaaCapabilityGraph.ts\<close>) and \<^verbatim>\<open>aaaMemoryGate\<close> with its chain of receipts
  (\<^verbatim>\<open>AaaMemoryLinkage.ts\<close>).

  The gate awaits WELL once; \<open>gate_admit\<close> is what runs before the await and \<open>gate_finish\<close>
  what runs after it, so the step relation interleaves them with other calls. A rejected
  promise is \<^term>\<open>None\<close>. Identifiers, the clock and the reply of WELL are arguments.
  A reason is a constructor that stands for its text.
\<close>

section \<open>Agents and actors\<close>

datatype aaa_agent_id = AGI_333 | ASI_555 | APEX_888 | A_AUDIT | A_ARCHIVE

datatype aaa_role = THINK | MEMORY | JUDGE | WATCH | VAULT

datatype governs = GRead | GWrite | GMutate | GReceipt | GSeal

record aaa_agent =
  ag_id :: aaa_agent_id
  ag_role :: aaa_role
  ag_governs :: governs
  ag_deprecated :: bool

definition AAA_AGENTS :: "aaa_agent list" where
  "AAA_AGENTS =
     [\<lparr> ag_id = AGI_333, ag_role = THINK, ag_governs = GRead, ag_deprecated = False \<rparr>,
      \<lparr> ag_id = ASI_555, ag_role = MEMORY, ag_governs = GWrite, ag_deprecated = False \<rparr>,
      \<lparr> ag_id = APEX_888, ag_role = JUDGE, ag_governs = GMutate, ag_deprecated = False \<rparr>,
      \<lparr> ag_id = A_AUDIT, ag_role = WATCH, ag_governs = GReceipt, ag_deprecated = True \<rparr>,
      \<lparr> ag_id = A_ARCHIVE, ag_role = VAULT, ag_governs = GSeal, ag_deprecated = True \<rparr>]"

definition getGoverningAgent :: "governs \<Rightarrow> aaa_agent option" where
  "getGoverningAgent action = find (\<lambda>a. ag_governs a = action) AAA_AGENTS"

definition getAgent :: "aaa_agent_id \<Rightarrow> aaa_agent option" where
  "getAgent i = find (\<lambda>a. ag_id a = i) AAA_AGENTS"

definition listAgents :: "aaa_agent list" where
  "listAgents = AAA_AGENTS"

fun agent_text :: "aaa_agent_id \<Rightarrow> string" where
  "agent_text AGI_333 = ''333-AGI''" | "agent_text ASI_555 = ''555-ASI''"
| "agent_text APEX_888 = ''888-APEX''" | "agent_text A_AUDIT = ''A-AUDIT''"
| "agent_text A_ARCHIVE = ''A-ARCHIVE''"

record actor_binding =
  ab_actorId :: string
  ab_primaryAgent :: aaa_agent_id
  ab_delegateAgents :: "aaa_agent_id list"
  ab_humanOverride :: bool

abbreviation binding :: "string \<Rightarrow> aaa_agent_id \<Rightarrow> aaa_agent_id list \<Rightarrow> bool \<Rightarrow> actor_binding" where
  "binding a p d h \<equiv> \<lparr> ab_actorId = a, ab_primaryAgent = p, ab_delegateAgents = d, ab_humanOverride = h \<rparr>"

definition exact_bindings :: "(string \<times> actor_binding) list" where
  "exact_bindings =
     [(''arif-fazil'', binding ''arif-fazil'' APEX_888 [AGI_333, ASI_555] True),
      (''arif'', binding ''arif'' APEX_888 [AGI_333, ASI_555] True),
      (''a-forge::seal-service'', binding ''a-forge::seal-service'' APEX_888 [] False),
      (''a-forge::short-term-memory'', binding ''a-forge::short-term-memory'' ASI_555 [AGI_333] False),
      (''a-forge::long-term-memory'', binding ''a-forge::long-term-memory'' ASI_555 [AGI_333, APEX_888] False),
      (''a-forge::memory-contract'', binding ''a-forge::memory-contract'' ASI_555 [AGI_333, APEX_888] False),
      (''a-forge::memory-client'', binding ''a-forge::memory-client'' ASI_555 [AGI_333] False),
      (''a-forge::cooling-gate'', binding ''a-forge::cooling-gate'' APEX_888 [ASI_555] False),
      (''kimi'', binding ''kimi'' ASI_555 [AGI_333] False),
      (''kernel-sealed'', binding ''kernel-sealed'' APEX_888 [] False)]"

text \<open>
  The table is an object literal, so the names of \<^verbatim>\<open>Object.prototype\<close> are found in it too;
  what is found then is no binding.
\<close>

definition inherited_names :: "string list" where
  "inherited_names =
     [''constructor'', ''__defineGetter__'', ''__defineSetter__'', ''hasOwnProperty'', ''__lookupGetter__'',
      ''__lookupSetter__'', ''isPrototypeOf'', ''propertyIsEnumerable'', ''toString'', ''valueOf'',
      ''__proto__'', ''toLocaleString'']"

datatype resolved = Unbound | Inherited | Bound actor_binding

definition resolveActor :: "string \<Rightarrow> resolved" where
  "resolveActor actorId =
     (if isSealSession actorId then Bound (binding actorId APEX_888 [ASI_555, AGI_333] False)
      else
        (case map_of exact_bindings actorId of
           Some b \<Rightarrow> Bound b
         | None \<Rightarrow>
             if actorId \<in> set inherited_names then Inherited
             else if starts_with actorId ''session::'' then Bound (binding actorId AGI_333 [ASI_555] False)
             else if starts_with actorId ''a-forge::'' then Bound (binding actorId ASI_555 [AGI_333] False)
             else if starts_with actorId ''human::'' then Bound (binding actorId APEX_888 [AGI_333, ASI_555] True)
             else Unbound))"

section \<open>Capabilities\<close>

datatype memory_action =
    MRead | MWrite | MMutate | MDelete | MSeal | MSearch | MEvict | MArchive | MFederate | MDowngrade
  | MVerify | MPin

fun action_text :: "memory_action \<Rightarrow> string" where
  "action_text MRead = ''memory:read''" | "action_text MWrite = ''memory:write''"
| "action_text MMutate = ''memory:mutate''" | "action_text MDelete = ''memory:delete''"
| "action_text MSeal = ''memory:seal''" | "action_text MSearch = ''memory:search''"
| "action_text MEvict = ''memory:evict''" | "action_text MArchive = ''memory:archive''"
| "action_text MFederate = ''memory:federate''" | "action_text MDowngrade = ''memory:downgrade''"
| "action_text MVerify = ''memory:verify''" | "action_text MPin = ''memory:pin''"

record capability_entry =
  ce_requiredAgent :: aaa_agent_id
  ce_minVerdict :: severity
  ce_reversible :: bool
  ce_requiresSession :: bool
  ce_requiresReadiness :: bool
  ce_requiresAmanahLock :: bool
  ce_requiresSovereignApproval :: bool
  ce_requiresReceipt :: bool

abbreviation capability ::
  "aaa_agent_id \<Rightarrow> severity \<Rightarrow> bool \<Rightarrow> bool \<Rightarrow> bool \<Rightarrow> bool \<Rightarrow> bool \<Rightarrow> bool \<Rightarrow> capability_entry" where
  "capability agent v reversible sess ready lock sov receipt \<equiv>
     \<lparr> ce_requiredAgent = agent, ce_minVerdict = v, ce_reversible = reversible, ce_requiresSession = sess,
       ce_requiresReadiness = ready, ce_requiresAmanahLock = lock, ce_requiresSovereignApproval = sov,
       ce_requiresReceipt = receipt \<rparr>"

fun AAA_CAPABILITY_GRAPH :: "memory_action \<Rightarrow> capability_entry" where
  "AAA_CAPABILITY_GRAPH MRead =
     capability AGI_333 SEAL True False False False False False"
| "AAA_CAPABILITY_GRAPH MWrite =
     capability ASI_555 SEAL True True False False False True"
| "AAA_CAPABILITY_GRAPH MMutate =
     capability APEX_888 SABAR False True True True False True"
| "AAA_CAPABILITY_GRAPH MDelete =
     capability APEX_888 SABAR False True True True False True"
| "AAA_CAPABILITY_GRAPH MSeal =
     capability APEX_888 SABAR False True True True True True"
| "AAA_CAPABILITY_GRAPH MSearch =
     capability AGI_333 SEAL True False False False False False"
| "AAA_CAPABILITY_GRAPH MEvict =
     capability ASI_555 SEAL True True False False False True"
| "AAA_CAPABILITY_GRAPH MArchive =
     capability ASI_555 SEAL True True False False False True"
| "AAA_CAPABILITY_GRAPH MFederate =
     capability ASI_555 SEAL True True False False False True"
| "AAA_CAPABILITY_GRAPH MDowngrade =
     capability APEX_888 SABAR True True False False False True"
| "AAA_CAPABILITY_GRAPH MVerify =
     capability APEX_888 SEAL True True False False False True"
| "AAA_CAPABILITY_GRAPH MPin =
     capability ASI_555 SEAL True True False False False True"

definition binding_agents :: "actor_binding \<Rightarrow> aaa_agent_id list" where
  "binding_agents b = ab_primaryAgent b # ab_delegateAgents b"

definition verifyCapability :: "memory_action \<Rightarrow> actor_binding \<Rightarrow> bool" where
  "verifyCapability action b = (ce_requiredAgent (AAA_CAPABILITY_GRAPH action) \<in> set (binding_agents b))"

section \<open>Receipts\<close>

datatype memory_blast = NONE_B | LOCAL_B | SESSION_B | FEDERATION_B

record receipt_input =
  mr_receiptId :: string
  mr_action :: memory_action
  mr_actorId :: string
  mr_sessionId :: string
  mr_aaaAgent :: aaa_agent_id
  mr_timestamp :: string
  mr_memoryId :: "string option"
  mr_contentHash :: "string option"
  mr_prevReceiptHash :: string
  mr_floorVerdict :: severity
  mr_wellVerdict :: "string option"
  mr_reversible :: bool
  mr_blastRadius :: memory_blast

record memory_receipt = receipt_input +
  mr_receiptHash :: string

fun severity_text :: "severity \<Rightarrow> string" where
  "severity_text SEAL = ''SEAL''" | "severity_text SABAR = ''SABAR''" | "severity_text CAUTION = ''CAUTION''"
| "severity_text HOLD = ''HOLD''" | "severity_text VOID = ''VOID''"

definition or_empty :: "string option \<Rightarrow> string" where
  "or_empty s = (case s of None \<Rightarrow> [] | Some t \<Rightarrow> t)"

definition receipt_payload :: "'a receipt_input_scheme \<Rightarrow> json" where
  "receipt_payload r = JObj
     [(''receiptId'', JStr (mr_receiptId r)), (''action'', JStr (action_text (mr_action r))),
      (''actorId'', JStr (mr_actorId r)), (''sessionId'', JStr (mr_sessionId r)),
      (''aaaAgent'', JStr (agent_text (mr_aaaAgent r))), (''timestamp'', JStr (mr_timestamp r)),
      (''memoryId'', JStr (or_empty (mr_memoryId r))), (''contentHash'', JStr (or_empty (mr_contentHash r))),
      (''prevReceiptHash'', JStr (mr_prevReceiptHash r)),
      (''floorVerdict'', JStr (severity_text (mr_floorVerdict r)))]"

definition computeReceiptHash :: "runtime \<Rightarrow> 'a receipt_input_scheme \<Rightarrow> string" where
  "computeReceiptHash rt r = sha256 rt (stringify (number_text rt) (receipt_payload r))"

record gate_state =
  gs_sessions :: sessions
  receiptChain :: "memory_receipt list"
  lastReceiptHash :: string

definition zero_hash :: string where
  "zero_hash = replicate 64 (CHR ''0'')"

definition new_gate_state :: gate_state where
  "new_gate_state = \<lparr> gs_sessions = [], receiptChain = [], lastReceiptHash = zero_hash \<rparr>"

record gate_params =
  gp_action :: memory_action
  gp_actorId :: string
  gp_sessionId :: string
  gp_memoryId :: "string option"
  gp_content :: "string option"
  gp_toolName :: "string option"
  gp_description :: "string option"

definition buildReceipt ::
  "runtime \<Rightarrow> string \<Rightarrow> string \<Rightarrow> gate_params \<Rightarrow> capability_entry \<Rightarrow> string option \<Rightarrow> severity \<Rightarrow> string option \<Rightarrow>
   gate_state \<Rightarrow> memory_receipt \<times> gate_state" where
  "buildReceipt rt uuid stamp p cap contentHash verdict well st =
     (let input =
        \<lparr> mr_receiptId = ''AAA-RCPT-'' @ take 8 uuid, mr_action = gp_action p, mr_actorId = gp_actorId p,
          mr_sessionId = gp_sessionId p, mr_aaaAgent = ce_requiredAgent cap, mr_timestamp = stamp,
          mr_memoryId = gp_memoryId p, mr_contentHash = contentHash, mr_prevReceiptHash = lastReceiptHash st,
          mr_floorVerdict = verdict, mr_wellVerdict = well, mr_reversible = ce_reversible cap,
          mr_blastRadius =
            (if gp_action p = MSeal then FEDERATION_B else if gp_action p = MDelete then SESSION_B
             else if gp_action p = MMutate then LOCAL_B else NONE_B) \<rparr>;
          receipt = receipt_input.extend input \<lparr> mr_receiptHash = computeReceiptHash rt input \<rparr> in
      (receipt, st\<lparr> receiptChain := receiptChain st @ [receipt], lastReceiptHash := mr_receiptHash receipt \<rparr>))"

section \<open>The gate\<close>

datatype link_reason =
    SessionGate session_reason
  | UnknownActor
  | LacksAuthority
  | WellHold
  | WellUnavailable
  | FloorBlocked severity "floor_reason list"
  | AuthorizedBy aaa_agent_id "string option"

record linkage_result =
  lk_allowed :: bool
  lk_aaaAgent :: "aaa_agent_id option"
  lk_receipt :: "memory_receipt option"
  lk_reason :: link_reason
  lk_floorVerdict :: severity
  lk_actorBinding :: "actor_binding option"

definition blocked :: "aaa_agent_id option \<Rightarrow> link_reason \<Rightarrow> severity \<Rightarrow> actor_binding option \<Rightarrow> linkage_result" where
  "blocked agent why verdict b =
     \<lparr> lk_allowed = False, lk_aaaAgent = agent, lk_receipt = None, lk_reason = why,
       lk_floorVerdict = verdict, lk_actorBinding = b \<rparr>"

datatype admission = Rejected linkage_result | Threw | Admitted actor_binding

definition gate_admit :: "gate_env \<Rightarrow> int \<Rightarrow> gate_params \<Rightarrow> sessions \<Rightarrow> admission \<times> sessions" where
  "gate_admit env now p ss =
     (let cap = AAA_CAPABILITY_GRAPH (gp_action p);
          (check, ss1) = (if ce_requiresSession cap
             then validateSession env now (Some (gp_sessionId p)) None ss else (Inr [], ss)) in
      case check of
        Inl e \<Rightarrow> (Rejected (blocked None (SessionGate e) HOLD None), ss1)
      | Inr _ \<Rightarrow>
          (case resolveActor (gp_actorId p) of
             Unbound \<Rightarrow> (Rejected (blocked None UnknownActor HOLD None), ss1)
           | Inherited \<Rightarrow> (Threw, ss1)
           | Bound b \<Rightarrow>
               if \<not> verifyCapability (gp_action p) b
               then (Rejected (blocked (Some (ce_requiredAgent cap)) LacksAuthority HOLD (Some b)), ss1)
               else (Admitted b, ss1)))"

definition gate_risk :: "memory_action \<Rightarrow> risk_level" where
  "gate_risk a = (if a = MSeal then RiskCritical else if a = MDelete then RiskHigh else RiskMedium)"

fun well_text :: "well_verdict \<Rightarrow> string" where
  "well_text PASS_W = ''PASS''" | "well_text SABAR_W = ''SABAR''" | "well_text HOLD_W = ''HOLD''"

definition gate_readiness :: "memory_action \<Rightarrow> well_reply \<Rightarrow> link_reason + string option" where
  "gate_readiness a reply =
     (if \<not> ce_requiresReadiness (AAA_CAPABILITY_GRAPH a) then Inr None
      else
        (case checkWellReadiness (gate_risk a) reply of
           Some w \<Rightarrow> if wr_verdict w = HOLD_W then Inl WellHold else Inr (Some (well_text (wr_verdict w)))
         | None \<Rightarrow> if gate_risk a = RiskCritical then Inl WellUnavailable else Inr (Some ''UNKNOWN'')))"

definition colons_to_dashes :: "string \<Rightarrow> string" where
  "colons_to_dashes s = map (\<lambda>c. if c = CHR '':'' then CHR ''-'' else c) s"

definition gate_request :: "string \<Rightarrow> gate_params \<Rightarrow> action_request" where
  "gate_request uuid p =
     (let cap = AAA_CAPABILITY_GRAPH (gp_action p); name = action_text (gp_action p) in
      \<lparr> action_id = ''mem-'' @ colons_to_dashes name @ ''-'' @ take 8 uuid,
        tool_name = (case gp_toolName p of Some t \<Rightarrow> t | None \<Rightarrow> ''aaa_memory_linkage''),
        action_type = (if ce_reversible cap then ''MEMORY_WRITE'' else ''VAULT_SEAL''),
        target = (case gp_memoryId p of Some m \<Rightarrow> m | None \<Rightarrow> ''memory-substrate''),
        tier = Some 3, actor = gp_actorId p, session_id = gp_sessionId p,
        intent = name @ '': '' @ (case gp_description p of Some d \<Rightarrow> d | None \<Rightarrow> ''governed memory operation''),
        expected_outcome = name @ '' completes with '' @ agent_text (ce_requiredAgent cap) @ '' authority'',
        args = None, mission = None,
        reversibility_score = Some (if ce_reversible cap then dbl (8 / 10) else dbl (1 / 10)),
        blast_radius = Some (if gp_action p = MSeal then BFederation
          else if gp_action p = MDelete \<or> gp_action p = MMutate then BService else BLocal),
        rollback_plan = None, evidence_count = Some (if ce_requiresReceipt cap then 1 else 0),
        sensitivity = None, metadata = [] \<rparr>)"

definition gate_context :: "string \<Rightarrow> gate_params \<Rightarrow> floor_context" where
  "gate_context uuid p =
     \<lparr> fc_action = gate_request uuid p, fc_actor_id = gp_actorId p, fc_session_id = gp_sessionId p,
       f13_halt_active = False, f13_halt_scope = None, g_score = None, quad_witness = None, fc_aae = None,
       fc_organ_secret = None \<rparr>"

text \<open>The two identifiers are those of the request and of the receipt.\<close>

definition gate_finish ::
  "runtime \<Rightarrow> (string \<Rightarrow> aae_body \<Rightarrow> string) \<Rightarrow> int \<Rightarrow> string \<Rightarrow> string \<times> string \<Rightarrow> channel \<Rightarrow> well_reply \<Rightarrow>
   gate_params \<Rightarrow> actor_binding \<Rightarrow> gate_state \<Rightarrow> linkage_result \<times> gate_state" where
  "gate_finish rt mac now stamp uuids c reply p b st =
     (let cap = AAA_CAPABILITY_GRAPH (gp_action p); agent = Some (ce_requiredAgent cap) in
      case gate_readiness (gp_action p) reply of
        Inl why \<Rightarrow> (blocked agent why HOLD (Some b), st)
      | Inr well \<Rightarrow>
          let v = checkAll rt mac now c (gate_context (fst uuids) p) in
          if \<not> v_allowed v then (blocked agent (FloorBlocked (v_final v) (v_reasons v)) (v_final v) (Some b), st)
          else
            (let contentHash = (case gp_content p of
                   None \<Rightarrow> None
                 | Some t \<Rightarrow> if t = [] then None else Some (take 16 (sha256 rt t)));
                 (receipt, st1) = (if ce_requiresReceipt cap
                   then map_prod Some id (buildReceipt rt (snd uuids) stamp p cap contentHash (v_final v) well st)
                   else (None, st)) in
             (\<lparr> lk_allowed = True, lk_aaaAgent = agent, lk_receipt = receipt,
                lk_reason = AuthorizedBy (ce_requiredAgent cap) (map_option mr_receiptId receipt),
                lk_floorVerdict = v_final v, lk_actorBinding = Some b \<rparr>, st1)))"

definition aaaMemoryGate ::
  "runtime \<Rightarrow> gate_env \<Rightarrow> (string \<Rightarrow> aae_body \<Rightarrow> string) \<Rightarrow> int \<Rightarrow> string \<Rightarrow> string \<times> string \<Rightarrow> channel \<Rightarrow>
   well_reply \<Rightarrow> gate_params \<Rightarrow> gate_state \<Rightarrow> linkage_result option \<times> gate_state" where
  "aaaMemoryGate rt env mac now stamp uuids c reply p st =
     (let (adm, ss) = gate_admit env now p (gs_sessions st); st1 = st\<lparr>gs_sessions := ss\<rparr> in
      case adm of
        Rejected r \<Rightarrow> (Some r, st1)
      | Threw \<Rightarrow> (None, st1)
      | Admitted b \<Rightarrow> map_prod Some id (gate_finish rt mac now stamp uuids c reply p b st1))"

section \<open>Queries\<close>

definition getReceiptChain :: "nat \<Rightarrow> gate_state \<Rightarrow> memory_receipt list" where
  "getReceiptChain limit st =
     (if limit = 0 then receiptChain st else drop (length (receiptChain st) - limit) (receiptChain st))"

fun verify_from :: "string \<Rightarrow> nat \<Rightarrow> memory_receipt list \<Rightarrow> nat option" where
  "verify_from prevHash i [] = None"
| "verify_from prevHash i (r # rs) =
     (if mr_prevReceiptHash r \<noteq> prevHash then Some i else verify_from (mr_receiptHash r) (Suc i) rs)"

definition verifyReceiptChain :: "memory_receipt list \<Rightarrow> bool \<times> nat option \<times> nat" where
  "verifyReceiptChain rs =
     (let broken = verify_from zero_hash 0 rs in (broken = None, broken, length rs))"

section \<open>What the gate never allows\<close>

lemma evict_is_destructive: "rx_test_i DESTRUCTIVE_VERB_PATTERN (''memory:evict: '' @ d)"
proof -
  let ?v = "'': '' @ to_lower d"
  have lower: "to_lower (''memory:evict: '' @ d) = ''memory:'' @ (''evict'' @ ?v)"
    by (simp add: to_lower_def lower_char_def)
  have evict: "''evict'' \<in> set F5_DESTRUCTIVE_VERBS" by (simp add: F5_DESTRUCTIVE_VERBS_def)
  have "at_word_boundary (Some CHR '':'', ''evict'' @ ?v)" "at_word_boundary (Some CHR ''t'', ?v)"
    by (simp_all add: at_word_boundary_def word_char_def)
  moreover have "rmatch (rx_words F5_DESTRUCTIVE_VERBS) (Some CHR '':'', ''evict'' @ ?v) (Some (last ''evict''), ?v)"
    by (rule rmatch_words [OF evict]) simp
  ultimately have "rmatch DESTRUCTIVE_VERB_PATTERN (Some CHR '':'', ''evict'' @ ?v) (Some CHR ''t'', ?v)"
    unfolding DESTRUCTIVE_VERB_PATTERN_def rx_seq.simps
    by (intro rmatch.seq [OF rmatch.wordb] rmatch.seq [OF _ rmatch.wordb]) simp_all
  then show ?thesis unfolding rx_test_i_def rx_test_iff lower
    by (intro exI [of _ "''memory:''"] exI [of _ "''evict'' @ ?v"] exI [of _ "(Some CHR ''t'', ?v)"]) simp
qed

lemma f5_verb_clear:
  assumes "\<forall>r \<in> set (checkF5Peace2 ctx). severity_of r \<notin> {HOLD, VOID}"
    and "rx_test_i DESTRUCTIVE_VERB_PATTERN (intent (fc_action ctx))"
  shows "\<not> no_rollback (fc_action ctx)"
  using assms by (simp only: checkF5Peace2_def Let_def set_append ball_Un simp_thms) (simp split: if_splits)

lemma finish_blocked:
  assumes "gp_action p \<in> {MMutate, MDelete, MSeal, MEvict}"
  shows "\<not> v_allowed (checkAll rt mac now c (gate_context uuid p))"
proof
  assume ok: "v_allowed (checkAll rt mac now c (gate_context uuid p))"
  have none: "no_rollback (fc_action (gate_context uuid p))"
    by (simp add: gate_context_def gate_request_def Let_def no_rollback_def)
  show False
  proof (cases "gp_action p = MEvict")
    case True
    then have "intent (fc_action (gate_context uuid p)) = ''memory:evict: '' @
        (case gp_description p of Some d \<Rightarrow> d | None \<Rightarrow> ''governed memory operation'')"
      by (simp add: gate_context_def gate_request_def Let_def)
    then show False using f5_verb_clear [OF allowed_floors(8) [OF ok]] evict_is_destructive none by metis
  next
    case False
    then have "action_type (fc_action (gate_context uuid p)) = ''VAULT_SEAL''"
      using assms by (auto simp: gate_context_def gate_request_def Let_def)
    then show False
      using f1_clear(3) [OF allowed_floors(4) [OF ok]] none by (simp add: destructive_categories_def)
  qed
qed

lemma gate_blocks:
  assumes "gp_action p \<in> {MMutate, MDelete, MSeal, MEvict}"
    and "fst (aaaMemoryGate rt env mac now stamp uuids c reply p st) = Some r"
  shows "\<not> lk_allowed r \<and> lk_receipt r = None \<and>
    receiptChain (snd (aaaMemoryGate rt env mac now stamp uuids c reply p st)) = receiptChain st"
proof -
  obtain adm ss where adm: "gate_admit env now p (gs_sessions st) = (adm, ss)" by fastforce
  show ?thesis
  proof (cases adm)
    case (Rejected r')
    then have "r = r'" "\<not> lk_allowed r'" "lk_receipt r' = None" using assms(2) adm
      by (auto simp: aaaMemoryGate_def gate_admit_def Let_def blocked_def
          split: sum.splits resolved.splits if_splits prod.splits)
    then show ?thesis using Rejected adm by (simp add: aaaMemoryGate_def)
  next
    case Threw
    then show ?thesis using assms(2) adm by (simp add: aaaMemoryGate_def)
  next
    case (Admitted b)
    then show ?thesis using assms(2) adm finish_blocked [OF assms(1)]
      by (auto simp: aaaMemoryGate_def gate_finish_def Let_def blocked_def split: sum.splits)
  qed
qed

text \<open>
  The memory gate never allows a correction, a deletion, a seal or an eviction, whoever asks and
  whatever the session, the readiness and the halts: the first three are submitted to the
  floors as a vault seal without a rollback plan, the last has a destructive verb in the
  intent the gate itself writes, and the gate passes no rollback plan.
\<close>

theorem gate_never_allows:
  assumes "gp_action p \<in> {MMutate, MDelete, MSeal, MEvict}"
    and "fst (aaaMemoryGate rt env mac now stamp uuids c reply p st) = Some r"
  shows "\<not> lk_allowed r \<and> lk_receipt r = None \<and>
    receiptChain (snd (aaaMemoryGate rt env mac now stamp uuids c reply p st)) = receiptChain st"
  by (rule gate_blocks [OF assms])

definition delete_call :: gate_params where
  "delete_call =
     \<lparr> gp_action = MDelete, gp_actorId = ''arif'', gp_sessionId = ''s1'', gp_memoryId = Some ''m1'',
       gp_content = None, gp_toolName = None, gp_description = None \<rparr>"

theorem gate_never_allows_witness:
  "case fst (aaaMemoryGate plain_runtime plain_env sample_mac 0 ''t'' (''u'', ''v'') quiet_channel Unreachable
      delete_call (new_gate_state\<lparr>gs_sessions := one_session\<rparr>)) of
     None \<Rightarrow> False | Some r \<Rightarrow> \<not> lk_allowed r"
proof -
  let ?g = "aaaMemoryGate plain_runtime plain_env sample_mac 0 ''t'' (''u'', ''v'') quiet_channel Unreachable
      delete_call (new_gate_state\<lparr>gs_sessions := one_session\<rparr>)"
  have "gate_admit plain_env 0 delete_call one_session =
      (Admitted (binding ''arif'' APEX_888 [AGI_333, ASI_555] True), one_session)"
    by code_simp
  then obtain r where r: "fst ?g = Some r" by (simp add: aaaMemoryGate_def)
  with gate_never_allows [OF _ r] show ?thesis by (simp add: delete_call_def)
qed

section \<open>What an allowed operation has passed\<close>

lemma finish_result:
  "lk_allowed (fst (gate_finish rt mac now stamp uuids c reply p b st)) \<longleftrightarrow>
     (\<exists>w. gate_readiness (gp_action p) reply = Inr w) \<and>
     v_allowed (checkAll rt mac now c (gate_context (fst uuids) p))"
  "lk_receipt (fst (gate_finish rt mac now stamp uuids c reply p b st)) \<noteq> None \<longleftrightarrow>
     lk_allowed (fst (gate_finish rt mac now stamp uuids c reply p b st)) \<and>
     ce_requiresReceipt (AAA_CAPABILITY_GRAPH (gp_action p))"
  "receiptChain (snd (gate_finish rt mac now stamp uuids c reply p b st)) = receiptChain st @
     (case lk_receipt (fst (gate_finish rt mac now stamp uuids c reply p b st)) of None \<Rightarrow> [] | Some r \<Rightarrow> [r])"
  by (auto simp: gate_finish_def Let_def blocked_def buildReceipt_def split: sum.splits prod.splits)

definition agent_bound :: "gate_params \<Rightarrow> bool" where
  "agent_bound p \<longleftrightarrow>
     (\<exists>b. resolveActor (gp_actorId p) = Bound b \<and>
          ce_requiredAgent (AAA_CAPABILITY_GRAPH (gp_action p)) \<in> set (binding_agents b))"

definition session_passes :: "gate_env \<Rightarrow> int \<Rightarrow> gate_params \<Rightarrow> sessions \<Rightarrow> bool" where
  "session_passes env now p ss \<longleftrightarrow>
     ce_requiresSession (AAA_CAPABILITY_GRAPH (gp_action p)) \<longrightarrow>
     (\<exists>who. fst (validateSession env now (Some (gp_sessionId p)) None ss) = Inr who)"

lemma admit_result:
  "(\<exists>b. fst (gate_admit env now p ss) = Admitted b) \<longleftrightarrow> session_passes env now p ss \<and> agent_bound p"
  by (auto simp: gate_admit_def Let_def session_passes_def agent_bound_def verifyCapability_def
      split: sum.splits resolved.splits prod.splits)

lemma rejected_result:
  "fst (gate_admit env now p ss) = Rejected r \<Longrightarrow> \<not> lk_allowed r \<and> lk_receipt r = None"
  by (auto simp: gate_admit_def Let_def blocked_def split: sum.splits resolved.splits prod.splits if_splits)

text \<open>
  C17. The gate is non-compensatory: an operation is allowed exactly when its session is valid
  (where the graph asks for one), its actor is bound to an agent list with the required
  agent, WELL does not hold it (where readiness is asked for) and the floors allow it. A
  receipt is appended to the chain exactly when the operation is allowed and the graph asks
  for one, and it is the receipt that is returned; otherwise the chain does not change.
\<close>

theorem gate_allows_iff:
  "let g = aaaMemoryGate rt env mac now stamp uuids c reply p st;
       passes = (session_passes env now p (gs_sessions st) \<and> agent_bound p \<and>
         (\<exists>w. gate_readiness (gp_action p) reply = Inr w) \<and>
         v_allowed (checkAll rt mac now c (gate_context (fst uuids) p))) in
   ((\<exists>r. fst g = Some r \<and> lk_allowed r) \<longleftrightarrow> passes) \<and>
   ((\<exists>r. fst g = Some r \<and> lk_receipt r \<noteq> None) \<longleftrightarrow>
      passes \<and> ce_requiresReceipt (AAA_CAPABILITY_GRAPH (gp_action p))) \<and>
   receiptChain (snd g) = receiptChain st @
     (case fst g of None \<Rightarrow> [] | Some r \<Rightarrow> (case lk_receipt r of None \<Rightarrow> [] | Some x \<Rightarrow> [x]))"
proof -
  obtain adm ss where adm: "gate_admit env now p (gs_sessions st) = (adm, ss)" by fastforce
  have passed: "(\<exists>b. adm = Admitted b) \<longleftrightarrow> session_passes env now p (gs_sessions st) \<and> agent_bound p"
    using admit_result [of env now p "gs_sessions st"] adm by simp
  show ?thesis
  proof (cases adm)
    case (Rejected r)
    then show ?thesis using passed rejected_result [of env now p "gs_sessions st" r] adm
      by (auto simp: aaaMemoryGate_def Let_def)
  next
    case Threw
    then show ?thesis using passed adm by (auto simp: aaaMemoryGate_def Let_def)
  next
    case (Admitted b)
    define g where "g = gate_finish rt mac now stamp uuids c reply p b (st\<lparr>gs_sessions := ss\<rparr>)"
    have "aaaMemoryGate rt env mac now stamp uuids c reply p st = (Some (fst g), snd g)"
      using Admitted adm by (simp add: aaaMemoryGate_def g_def Let_def map_prod_def case_prod_beta)
    then show ?thesis using passed Admitted
      finish_result [of rt mac now stamp uuids c reply p b "st\<lparr>gs_sessions := ss\<rparr>", folded g_def]
      by (simp add: Let_def)
  qed
qed

section \<open>The chain of receipts\<close>

interpretation mem_log: hash_chain mr_prevReceiptHash mr_receiptHash receipt_payload
    "\<lambda>v. sha256 rt (stringify (number_text rt) v)" for rt
  by unfold_locales (simp add: receipt_payload_def)

inductive gate_step :: "runtime \<Rightarrow> gate_state \<Rightarrow> gate_state \<Rightarrow> bool" for rt where
  sessions: "gate_step rt st (st\<lparr>gs_sessions := ss\<rparr>)"
| finish: "gate_step rt st (snd (gate_finish rt mac now stamp uuids c reply p b st))"
| whole: "gate_step rt st (snd (aaaMemoryGate rt env mac now stamp uuids c reply p st))"

definition chain_ok :: "runtime \<Rightarrow> gate_state \<Rightarrow> bool" where
  "chain_ok rt st \<longleftrightarrow>
     chained mr_prevReceiptHash mr_receiptHash
       (\<lambda>r. sha256 rt (stringify (number_text rt) (receipt_payload r))) zero_hash (receiptChain st) \<and>
     lastReceiptHash st = last_hash mr_receiptHash zero_hash (receiptChain st)"

lemma payload_extend: "receipt_payload (receipt_input.extend i m) = receipt_payload i"
  unfolding receipt_payload_def receipt_input.defs receipt_input.simps by (rule refl)

lemma built:
  assumes "buildReceipt rt uuid stamp p cap h v w st = (r, st')"
  shows "mr_prevReceiptHash r = lastReceiptHash st" "receiptChain st' = receiptChain st @ [r]"
    "lastReceiptHash st' = mr_receiptHash r"
    "mr_receiptHash r = sha256 rt (stringify (number_text rt) (receipt_payload r))"
proof -
  define i where "i = \<lparr> mr_receiptId = ''AAA-RCPT-'' @ take 8 uuid, mr_action = gp_action p, mr_actorId = gp_actorId p,
          mr_sessionId = gp_sessionId p, mr_aaaAgent = ce_requiredAgent cap, mr_timestamp = stamp,
          mr_memoryId = gp_memoryId p, mr_contentHash = h, mr_prevReceiptHash = lastReceiptHash st,
          mr_floorVerdict = v, mr_wellVerdict = w, mr_reversible = ce_reversible cap,
          mr_blastRadius =
            (if gp_action p = MSeal then FEDERATION_B else if gp_action p = MDelete then SESSION_B
             else if gp_action p = MMutate then LOCAL_B else NONE_B) \<rparr>"
  have r: "r = receipt_input.extend i \<lparr> mr_receiptHash = computeReceiptHash rt i \<rparr>"
    and st': "st' = st\<lparr> receiptChain := receiptChain st @ [r], lastReceiptHash := mr_receiptHash r \<rparr>"
    using assms unfolding buildReceipt_def Let_def i_def by auto
  have hash: "mr_receiptHash r = computeReceiptHash rt i" unfolding r receipt_input.defs by simp
  have payload: "receipt_payload r = receipt_payload i" unfolding r payload_extend ..
  show "mr_receiptHash r = sha256 rt (stringify (number_text rt) (receipt_payload r))"
    using hash payload by (simp only: computeReceiptHash_def)
  show "mr_prevReceiptHash r = lastReceiptHash st" unfolding r receipt_input.defs i_def by simp
  show "receiptChain st' = receiptChain st @ [r]" "lastReceiptHash st' = mr_receiptHash r"
    unfolding st' by simp_all
qed

lemma build_ok:
  assumes "chain_ok rt st"
  shows "chain_ok rt (snd (buildReceipt rt uuid stamp p cap h v w st))"
proof -
  obtain r st' where b: "buildReceipt rt uuid stamp p cap h v w st = (r, st')" by fastforce
  show ?thesis using assms built [OF b] unfolding b snd_conv chain_ok_def
    by (simp only: mem_log.chained_snoc last_hash_simps simp_thms)
qed

lemma finish_state:
  "snd (gate_finish rt mac now stamp uuids c reply p b st) = st \<or>
   (\<exists>h v w. snd (gate_finish rt mac now stamp uuids c reply p b st) =
      snd (buildReceipt rt (snd uuids) stamp p (AAA_CAPABILITY_GRAPH (gp_action p)) h v w st))"
proof (cases "gate_readiness (gp_action p) reply")
  case (Inr well)
  then show ?thesis by (simp add: gate_finish_def Let_def prod.case_eq_if) blast
qed (simp add: gate_finish_def Let_def)

lemma finish_ok: "chain_ok rt st \<Longrightarrow> chain_ok rt (snd (gate_finish rt mac now stamp uuids c reply p b st))"
  using finish_state [of rt mac now stamp uuids c reply p b st] build_ok [of rt st] by auto

lemma whole_ok:
  assumes "chain_ok rt st"
  shows "chain_ok rt (snd (aaaMemoryGate rt env mac now stamp uuids c reply p st))"
proof -
  obtain adm ss where adm: "gate_admit env now p (gs_sessions st) = (adm, ss)" by fastforce
  have "chain_ok rt (st\<lparr>gs_sessions := ss\<rparr>)" using assms by (simp add: chain_ok_def)
  then show ?thesis using finish_ok [of rt "st\<lparr>gs_sessions := ss\<rparr>"]
    by (cases adm) (simp_all add: aaaMemoryGate_def adm Let_def)
qed

interpretation mem_gate: kept_invariant "gate_step rt" "chain_ok rt" for rt
proof
  fix s t
  assume "gate_step rt s t" "chain_ok rt s"
  then show "chain_ok rt t"
  proof (cases rule: gate_step.cases)
    case (sessions ss)
    with \<open>chain_ok rt s\<close> show ?thesis by (simp add: chain_ok_def)
  qed (simp_all only: finish_ok whole_ok)
qed

lemma verify_chained: "chained mr_prevReceiptHash mr_receiptHash f h rs \<Longrightarrow> verify_from h i rs = None"
  by (induction rs arbitrary: h i) auto

lemma verify_map:
  "(\<And>r. mr_prevReceiptHash (f r) = mr_prevReceiptHash r) \<Longrightarrow> (\<And>r. mr_receiptHash (f r) = mr_receiptHash r) \<Longrightarrow>
   verify_from h i (map f rs) = verify_from h i rs"
  by (induction rs arbitrary: h i) auto

lemma verify_append:
  "verify_from h i (xs @ y # ys) = None \<Longrightarrow> mr_prevReceiptHash y = last_hash mr_receiptHash h xs"
  by (induction xs arbitrary: h i) (auto simp: last_hash_Cons split: if_splits)

text \<open>
  However calls interleave, the chain of receipts verifies, every receipt carries the hash
  of its own contents and the next one links to it, so that a removed receipt is noticed
  (unless it is the last or its hash collides). The verification compares the links only: a
  change of the contents of receipts that keeps their hashes is not noticed.
\<close>

theorem receipt_chain_verifies:
  assumes "(gate_step rt)\<^sup>*\<^sup>* new_gate_state st"
  shows "verifyReceiptChain (receiptChain st) = (True, None, length (receiptChain st)) \<and>
    (\<forall>r \<in> set (receiptChain st). mr_receiptHash r = computeReceiptHash rt r) \<and>
    (\<forall>xs r y ys. receiptChain st = xs @ r # y # ys \<longrightarrow>
      mr_receiptHash r \<noteq> last_hash mr_receiptHash zero_hash xs \<longrightarrow>
      \<not> fst (verifyReceiptChain (xs @ y # ys))) \<and>
    (\<forall>f. (\<forall>r. mr_prevReceiptHash (f r) = mr_prevReceiptHash r \<and> mr_receiptHash (f r) = mr_receiptHash r) \<longrightarrow>
      verifyReceiptChain (map f (receiptChain st)) = verifyReceiptChain (receiptChain st))"
proof -
  have ok: "chain_ok rt st"
    by (rule mem_gate.run_inv [OF assms]) (simp add: chain_ok_def new_gate_state_def)
  then have ch: "chained mr_prevReceiptHash mr_receiptHash
      (\<lambda>r. sha256 rt (stringify (number_text rt) (receipt_payload r))) zero_hash (receiptChain st)"
    by (simp add: chain_ok_def)
  have removed: "\<not> fst (verifyReceiptChain (xs @ y # ys))"
    if eq: "receiptChain st = xs @ r # y # ys" and new: "mr_receiptHash r \<noteq> last_hash mr_receiptHash zero_hash xs"
    for xs r y ys
  proof -
    have "mr_prevReceiptHash y = mr_receiptHash r" using ch unfolding eq by (simp add: chained_append)
    then show ?thesis using verify_append [of zero_hash 0 xs y ys] new
      by (auto simp: verifyReceiptChain_def Let_def)
  qed
  have "\<forall>r \<in> set (receiptChain st). mr_receiptHash r = computeReceiptHash rt r"
    using chained_stored [OF ch] unfolding computeReceiptHash_def by blast
  then show ?thesis
    using verify_chained [OF ch] removed verify_map by (simp add: verifyReceiptChain_def Let_def)
qed

definition write_call :: gate_params where
  "write_call = delete_call\<lparr>gp_action := MWrite, gp_actorId := ''kimi'', gp_content := Some ''a note''\<rparr>"

theorem receipt_chain_verifies_witness:
  "fst (verifyReceiptChain (receiptChain (snd (aaaMemoryGate plain_runtime plain_env sample_mac 0 ''t''
     (''u'', ''v'') quiet_channel Unreachable write_call new_gate_state))))"
  using receipt_chain_verifies [OF r_into_rtranclp, OF gate_step.whole [of plain_runtime new_gate_state plain_env
      sample_mac 0 "''t''" "(''u'', ''v'')" quiet_channel Unreachable write_call]]
  by simp

section \<open>A call of the gate\<close>

text \<open>What the gate reads besides its arguments: the runtime, the environment, the clock, the
  identifiers, the halts and the reply of WELL.\<close>

record gate_world =
  gw_runtime :: runtime
  gw_env :: gate_env
  gw_mac :: "string \<Rightarrow> aae_body \<Rightarrow> string"
  gw_now :: int
  gw_stamp :: string
  gw_uuids :: "string \<times> string"
  gw_channel :: channel
  gw_reply :: well_reply

definition gate_call :: "gate_world \<Rightarrow> gate_params \<Rightarrow> gate_state \<Rightarrow> linkage_result option \<times> gate_state" where
  "gate_call w p g =
     aaaMemoryGate (gw_runtime w) (gw_env w) (gw_mac w) (gw_now w) (gw_stamp w) (gw_uuids w) (gw_channel w)
       (gw_reply w) p g"

lemma gate_call_blocks:
  assumes "gp_action p \<in> {MMutate, MDelete, MSeal, MEvict}" "fst (gate_call w p g) = Some r"
  shows "\<not> lk_allowed r"
  using gate_blocks [OF assms(1)] assms(2) unfolding gate_call_def by blast

end
