(* ===== verification/Memory_Contract.thy ===== *)
theory Memory_Contract
  imports Memory_Gate "HOL-Library.Product_Lexorder"
begin

text \<open>
  The memory contract (\<^verbatim>\<open>src/src/domain/memory-contract/MemoryContract.ts\<close>): tiered memories
  with governed operations over an in-memory map that is mirrored in a JSON-lines file.

  Every governed operation awaits \<^verbatim>\<open>_aaaGate\<close>, which is the memory gate of \<open>Memory_Gate\<close>, and
  then runs to its write; the part after the gate is a definition of its own (\<open>store_body\<close>,
  \<open>correct_body\<close>, ...), so that the step relation can interleave it with other calls. The
  outcome of the write is an argument: when it fails the promise is rejected, the change stays in memory, and the
  file is whatever the failed write left. The writes of one contract are taken to reach the file in the order of the
  calls, \<^verbatim>\<open>initialize\<close> runs in one step, and nobody else writes the file.

  The file is the list of its lines that are not blank, each the entry it denotes, or \<^term>\<open>None\<close> when
  \<^verbatim>\<open>JSON.parse\<close> throws on it, and whether the last of them lacks its line end. Text that is appended to such a
  line becomes a part of it, and a text that is not blank with an object after it never parses. Times are ISO
  strings, read with \<^const>\<open>get_time\<close>; identifiers and the readings of the clock are arguments.
\<close>

section \<open>Entries\<close>

datatype memory_tier = EphemeralT | WorkingT | CanonT | SacredT | QuarantineT

datatype source_type = HumanS | InferredS | ExternalS | SystemS

record memory_source =
  sc_type :: source_type
  sc_description :: string
  sc_reference :: "string option"

record memory_version =
  mv_version :: nat
  mv_content :: string
  mv_modifiedAt :: string
  mv_modifiedBy :: string
  mv_reason :: string

datatype verification_status = PendingV | VerifiedV | RejectedV

record memory_verification =
  vf_status :: verification_status
  vf_verifiedAt :: "string option"
  vf_verifiedBy :: "string option"

record memory_entry =
  me_memoryId :: string
  me_tier :: memory_tier
  me_content :: string
  me_createdAt :: string
  me_modifiedAt :: string
  me_lastAccessedAt :: "string option"
  me_source :: memory_source
  me_confidence :: rat
  me_editable :: bool
  me_canDecay :: bool
  me_reason :: string
  me_tags :: "string list"
  me_history :: "memory_version list"
  me_verification :: "memory_verification option"
  me_pinned :: "bool option"

record store_request =
  sq_content :: string
  sq_tier :: "memory_tier option"
  sq_source :: "memory_source option"
  sq_confidence :: "rat option"
  sq_reason :: string
  sq_tags :: "string list option"

type_synonym memories = "(string, memory_entry) jsmap"

record memory_file =
  mf_lines :: "memory_entry option list"
  mf_open :: bool      \<comment> \<open>the last line has no line end\<close>

type_synonym disk = "memory_file option"

text \<open>A write takes effect, or fails and leaves the file in some state.\<close>

datatype write_outcome = Written | Broken disk

record contract =
  mc_memories :: memories
  mc_initialized :: bool
  mc_disk :: disk

definition new_contract :: "disk \<Rightarrow> contract" where
  "new_contract d = \<lparr> mc_memories = [], mc_initialized = False, mc_disk = d \<rparr>"

datatype contract_error =
    NotInitialized
  | GateBlocked link_reason
  | GateThrew
  | MemoryNotFound string
  | NotEditable string memory_tier
  | SacredForget string
  | NotQuarantined string
  | WriteFailed
  | MkdirFailed

section \<open>Tiers\<close>

definition mentions_any :: "string list \<Rightarrow> string \<Rightarrow> bool" where
  "mentions_any ws lower = list_ex (str_includes lower) ws"

definition classify ::
  "string \<Rightarrow> source_type \<Rightarrow> rat \<Rightarrow> memory_tier" where
  "classify text_content sourceType confidence =
     (let lower = to_lower text_content in
      if sourceType = SystemS \<and> confidence \<ge> dbl (95 / 100) \<and>
         mentions_any [''constitution'', ''sovereign'', ''floor'', ''never'', ''always'', ''must not'', ''shall not''] lower
      then SacredT
      else if (sourceType = HumanS \<or> confidence \<ge> dbl (9 / 10)) \<and> length text_content < 500 then CanonT
      else if confidence < dbl (4 / 10) then QuarantineT
      else if sourceType = InferredS \<and> confidence < dbl (7 / 10) then EphemeralT
      else WorkingT)"

definition inferTier :: "string \<Rightarrow> memory_tier" where
  "inferTier text_content =
     (let lower = to_lower text_content in
      if mentions_any [''constitution'', ''sovereign'', ''i am '', ''never '', ''always ''] lower then SacredT
      else if mentions_any [''my name'', ''i prefer'', ''my birthday'', ''my address''] lower then CanonT
      else if mentions_any [''temp'', ''now'', ''today''] lower then EphemeralT
      else WorkingT)"

section \<open>The file\<close>

definition load_line :: "memory_entry option \<Rightarrow> memories \<Rightarrow> memories" where
  "load_line l m = (case l of None \<Rightarrow> m | Some e \<Rightarrow> m_set (me_memoryId e) e m)"

definition file_lines :: "disk \<Rightarrow> memory_entry option list" where
  "file_lines d = (case d of None \<Rightarrow> [] | Some f \<Rightarrow> mf_lines f)"

text \<open>\<open>readable\<close> says whether the file can be read; when it cannot, the contract starts empty.\<close>

definition loadMemories :: "bool \<Rightarrow> contract \<Rightarrow> contract" where
  "loadMemories readable s =
     (if \<not> readable \<or> mc_disk s = None then s
      else s\<lparr>mc_memories := fold load_line (file_lines (mc_disk s)) (mc_memories s)\<rparr>)"

definition initialize :: "bool \<Rightarrow> bool \<Rightarrow> contract \<Rightarrow> (contract_error + unit) \<times> contract" where
  "initialize mkdir_ok readable s =
     (if mc_initialized s then (Inr (), s)
      else if \<not> mkdir_ok then (Inl MkdirFailed, s)
      else (Inr (), (loadMemories readable s)\<lparr>mc_initialized := True\<rparr>))"

definition closed_file :: "memory_entry option list \<Rightarrow> memory_file" where
  "closed_file ls = \<lparr> mf_lines = ls, mf_open = False \<rparr>"

definition append_line :: "memory_entry \<Rightarrow> disk \<Rightarrow> memory_file" where
  "append_line e d =
     (case d of
        None \<Rightarrow> closed_file [Some e]
      | Some f \<Rightarrow> closed_file (if mf_open f then butlast (mf_lines f) @ [None] else mf_lines f @ [Some e]))"

definition persistMemory :: "write_outcome \<Rightarrow> memory_entry \<Rightarrow> 'r \<Rightarrow> contract \<Rightarrow> (contract_error + 'r) \<times> contract" where
  "persistMemory w e result s =
     (case w of
        Broken d \<Rightarrow> (Inl WriteFailed, s\<lparr>mc_disk := d\<rparr>)
      | Written \<Rightarrow> (Inr result, s\<lparr>mc_disk := Some (append_line e (mc_disk s))\<rparr>))"

definition persistAllMemories :: "write_outcome \<Rightarrow> 'r \<Rightarrow> contract \<Rightarrow> (contract_error + 'r) \<times> contract" where
  "persistAllMemories w result s =
     (case w of
        Broken d \<Rightarrow> (Inl WriteFailed, s\<lparr>mc_disk := d\<rparr>)
      | Written \<Rightarrow> (Inr result, s\<lparr>mc_disk := Some (closed_file (map Some (m_values (mc_memories s))))\<rparr>))"

definition put_entry :: "memory_entry \<Rightarrow> contract \<Rightarrow> contract" where
  "put_entry e s = s\<lparr>mc_memories := m_set (me_memoryId e) e (mc_memories s)\<rparr>"

section \<open>The gate of an operation\<close>

record caller =
  op_actorId :: "string option"
  op_sessionId :: "string option"

definition AUTONOMOUS_KERNEL_SESSION :: string where
  "AUTONOMOUS_KERNEL_SESSION = ''SEAL-c0dec0dec0dec0de''"

definition contract_params ::
  "memory_action \<Rightarrow> string option \<Rightarrow> string option \<Rightarrow> caller \<Rightarrow> string \<Rightarrow> gate_params" where
  "contract_params a mid text_content c tool =
     \<lparr> gp_action = a,
       gp_actorId = (case op_actorId c of Some i \<Rightarrow> i | None \<Rightarrow> ''a-forge::memory-contract''),
       gp_sessionId = (case op_sessionId c of Some i \<Rightarrow> i | None \<Rightarrow> AUTONOMOUS_KERNEL_SESSION),
       gp_memoryId = mid, gp_content = text_content, gp_toolName = Some tool,
       gp_description = Some (''MemoryContract '' @ action_text a) \<rparr>"

definition aaaGate ::
  "gate_world \<Rightarrow> memory_action \<Rightarrow> string option \<Rightarrow> string option \<Rightarrow> caller \<Rightarrow> string \<Rightarrow> gate_state \<Rightarrow>
   (contract_error + unit) \<times> gate_state" where
  "aaaGate w a mid text_content c tool g =
     (let (r, g') = gate_call w (contract_params a mid text_content c tool) g in
      case r of
        None \<Rightarrow> (Inl GateThrew, g')
      | Some res \<Rightarrow> if lk_allowed res then (Inr (), g') else (Inl (GateBlocked (lk_reason res)), g'))"

text \<open>An operation that checks \<^verbatim>\<open>initialized\<close>, awaits the gate and then runs its body.\<close>

definition governed ::
  "(contract_error + unit) \<times> gate_state \<Rightarrow> gate_state \<Rightarrow> (contract \<Rightarrow> (contract_error + 'r) \<times> contract) \<Rightarrow> contract \<Rightarrow>
   (contract_error + 'r) \<times> contract \<times> gate_state" where
  "governed gate g body s =
     (if \<not> mc_initialized s then (Inl NotInitialized, s, g)
      else (case gate of
          (Inl e, g') \<Rightarrow> (Inl e, s, g')
        | (Inr _, g') \<Rightarrow> (let (r, s') = body s in (r, s', g'))))"

section \<open>Governed operations\<close>

text \<open>The three stamps are those of \<^verbatim>\<open>createdAt\<close>, \<^verbatim>\<open>modifiedAt\<close> and \<^verbatim>\<open>lastAccessedAt\<close>.\<close>

definition new_memory :: "string \<Rightarrow> string \<times> string \<times> string \<Rightarrow> store_request \<Rightarrow> memory_entry" where
  "new_memory i stamps q =
     (let t = (case sq_tier q of Some t \<Rightarrow> t | None \<Rightarrow> inferTier (sq_content q)) in
      \<lparr> me_memoryId = i, me_tier = t, me_content = sq_content q, me_createdAt = fst stamps,
        me_modifiedAt = fst (snd stamps), me_lastAccessedAt = Some (snd (snd stamps)),
        me_source = (case sq_source q of Some s \<Rightarrow> s
          | None \<Rightarrow> \<lparr> sc_type = HumanS, sc_description = ''Stated by operator'', sc_reference = None \<rparr>),
        me_confidence = (case sq_confidence q of Some c \<Rightarrow> c
          | None \<Rightarrow> if map_option sc_type (sq_source q) = Some HumanS then 1 else dbl (7 / 10)),
        me_editable = (t \<noteq> SacredT), me_canDecay = (t = EphemeralT \<or> t = WorkingT), me_reason = sq_reason q,
        me_tags = (case sq_tags q of Some ts \<Rightarrow> ts | None \<Rightarrow> []), me_history = [],
        me_verification = (if t = QuarantineT
          then Some \<lparr> vf_status = PendingV, vf_verifiedAt = None, vf_verifiedBy = None \<rparr> else None),
        me_pinned = Some (t = SacredT) \<rparr>)"

definition store_body ::
  "string \<Rightarrow> string \<times> string \<times> string \<Rightarrow> write_outcome \<Rightarrow> store_request \<Rightarrow> contract \<Rightarrow>
   (contract_error + memory_entry) \<times> contract" where
  "store_body i stamps w q s =
     (let e = new_memory i stamps q in persistMemory w e e (put_entry e s))"

definition store ::
  "gate_world \<Rightarrow> string \<Rightarrow> string \<times> string \<times> string \<Rightarrow> write_outcome \<Rightarrow> store_request \<Rightarrow> caller \<Rightarrow> gate_state \<Rightarrow> contract \<Rightarrow>
   (contract_error + memory_entry) \<times> contract \<times> gate_state" where
  "store gw i stamps w q c g s =
     governed (aaaGate gw MWrite None (Some (sq_content q)) c ''MemoryContract.store'' g) g
       (store_body i stamps w q) s"

text \<open>The common prefix of the operations on one memory, \<^verbatim>\<open>this.memories.get\<close> and its check.\<close>

definition with_memory ::
  "string \<Rightarrow> (memory_entry \<Rightarrow> contract \<Rightarrow> (contract_error + 'r) \<times> contract) \<Rightarrow> contract \<Rightarrow>
   (contract_error + 'r) \<times> contract" where
  "with_memory i f s =
     (case m_get (mc_memories s) i of None \<Rightarrow> (Inl (MemoryNotFound i), s) | Some e \<Rightarrow> f e s)"

definition corrected :: "string \<Rightarrow> string \<Rightarrow> string \<Rightarrow> memory_entry \<Rightarrow> memory_entry" where
  "corrected stamp newContent why e =
     e\<lparr> me_history := me_history e @
          [\<lparr> mv_version = length (me_history e) + 1, mv_content = me_content e, mv_modifiedAt = me_modifiedAt e,
             mv_modifiedBy = sc_description (me_source e), mv_reason = me_reason e \<rparr>],
        me_content := newContent, me_modifiedAt := stamp, me_reason := why \<rparr>"

definition correct_body ::
  "string \<Rightarrow> write_outcome \<Rightarrow> string \<Rightarrow> string \<Rightarrow> string \<Rightarrow> contract \<Rightarrow> (contract_error + memory_entry) \<times> contract" where
  "correct_body stamp w i newContent why =
     with_memory i (\<lambda>e s.
       if \<not> me_editable e then (Inl (NotEditable i (me_tier e)), s)
       else (let e' = corrected stamp newContent why e in
             persistAllMemories w e' (s\<lparr>mc_memories := m_set i e' (mc_memories s)\<rparr>)))"

definition correct ::
  "gate_world \<Rightarrow> string \<Rightarrow> write_outcome \<Rightarrow> string \<Rightarrow> string \<Rightarrow> string \<Rightarrow> caller \<Rightarrow> gate_state \<Rightarrow> contract \<Rightarrow>
   (contract_error + memory_entry) \<times> contract \<times> gate_state" where
  "correct gw stamp w i newContent why c g s =
     governed (aaaGate gw MMutate (Some i) (Some newContent) c ''MemoryContract.correct'' g) g
       (correct_body stamp w i newContent why) s"

text \<open>\<^verbatim>\<open>pin\<close> awaits no gate.\<close>

definition pin :: "string \<Rightarrow> write_outcome \<Rightarrow> string \<Rightarrow> contract \<Rightarrow> (contract_error + memory_entry) \<times> contract" where
  "pin stamp w i s =
     (if \<not> mc_initialized s then (Inl NotInitialized, s)
      else with_memory i (\<lambda>e s.
        let e' = e\<lparr> me_pinned := Some True, me_canDecay := False, me_modifiedAt := stamp \<rparr> in
        persistAllMemories w e' (s\<lparr>mc_memories := m_set i e' (mc_memories s)\<rparr>)) s)"

definition forget_body :: "write_outcome \<Rightarrow> string \<Rightarrow> contract \<Rightarrow> (contract_error + unit) \<times> contract" where
  "forget_body w i =
     with_memory i (\<lambda>e s.
       if me_tier e = SacredT then (Inl (SacredForget i), s)
       else persistAllMemories w () (s\<lparr>mc_memories := m_delete i (mc_memories s)\<rparr>))"

definition forget ::
  "gate_world \<Rightarrow> write_outcome \<Rightarrow> string \<Rightarrow> caller \<Rightarrow> gate_state \<Rightarrow> contract \<Rightarrow> (contract_error + unit) \<times> contract \<times> gate_state" where
  "forget gw w i c g s =
     governed (aaaGate gw MDelete (Some i) None c ''MemoryContract.forget'' g) g (forget_body w i) s"

definition downgraded :: "string \<Rightarrow> string \<Rightarrow> memory_entry \<Rightarrow> memory_entry" where
  "downgraded stamp why e =
     e\<lparr> me_tier := QuarantineT,
        me_verification := Some \<lparr> vf_status = PendingV, vf_verifiedAt = None, vf_verifiedBy = None \<rparr>,
        me_confidence := dbl (3 / 10), me_modifiedAt := stamp, me_reason := why \<rparr>"

definition downgrade_body ::
  "string \<Rightarrow> write_outcome \<Rightarrow> string \<Rightarrow> string \<Rightarrow> contract \<Rightarrow> (contract_error + memory_entry) \<times> contract" where
  "downgrade_body stamp w i why =
     with_memory i (\<lambda>e s.
       let e' = downgraded stamp why e in
       persistAllMemories w e' (s\<lparr>mc_memories := m_set i e' (mc_memories s)\<rparr>))"

definition downgrade ::
  "gate_world \<Rightarrow> string \<Rightarrow> write_outcome \<Rightarrow> string \<Rightarrow> string \<Rightarrow> caller \<Rightarrow> gate_state \<Rightarrow> contract \<Rightarrow>
   (contract_error + memory_entry) \<times> contract \<times> gate_state" where
  "downgrade gw stamp w i why c g s =
     governed (aaaGate gw MDowngrade (Some i) None c ''MemoryContract.downgrade'' g) g
       (downgrade_body stamp w i why) s"

text \<open>The first stamp is that of the verification, the second the modification time.\<close>

definition verified_entry :: "string \<times> string \<Rightarrow> bool \<Rightarrow> memory_entry \<Rightarrow> memory_entry" where
  "verified_entry stamps ok e =
     (let e1 = e\<lparr> me_verification := Some \<lparr> vf_status = (if ok then VerifiedV else RejectedV),
                    vf_verifiedAt = Some (fst stamps), vf_verifiedBy = Some ''operator'' \<rparr> \<rparr>;
          e2 = (if ok then e1\<lparr> me_tier := WorkingT, me_confidence := dbl (8 / 10) \<rparr> else e1) in
      e2\<lparr> me_modifiedAt := snd stamps \<rparr>)"

definition verify_body ::
  "string \<times> string \<Rightarrow> write_outcome \<Rightarrow> string \<Rightarrow> bool \<Rightarrow> contract \<Rightarrow> (contract_error + memory_entry) \<times> contract" where
  "verify_body stamps w i ok =
     with_memory i (\<lambda>e s.
       if me_tier e \<noteq> QuarantineT then (Inl (NotQuarantined i), s)
       else (let e' = verified_entry stamps ok e in
             persistAllMemories w e' (s\<lparr>mc_memories := m_set i e' (mc_memories s)\<rparr>)))"

definition verify ::
  "gate_world \<Rightarrow> string \<times> string \<Rightarrow> write_outcome \<Rightarrow> string \<Rightarrow> bool \<Rightarrow> caller \<Rightarrow> gate_state \<Rightarrow> contract \<Rightarrow>
   (contract_error + memory_entry) \<times> contract \<times> gate_state" where
  "verify gw stamps w i ok c g s =
     governed (aaaGate gw MVerify (Some i) None c ''MemoryContract.verify'' g) g (verify_body stamps w i ok) s"

section \<open>Queries\<close>

record memory_query =
  mq_query :: string
  mq_tiers :: "memory_tier list option"
  mq_minConfidence :: "rat option"
  mq_tags :: "string list option"
  mq_sources :: "source_type list option"
  mq_limit :: "int option"
  mq_includeQuarantine :: bool

definition matches_query :: "memory_query \<Rightarrow> memory_entry \<Rightarrow> bool" where
  "matches_query q m =
     (let lower = to_lower (mq_query q) in
      (mq_query q = [] \<or> str_includes (to_lower (me_content m)) lower \<or>
        list_ex (\<lambda>t. str_includes (to_lower t) lower) (me_tags m) \<or> str_includes (to_lower (me_reason m)) lower) \<and>
      (case mq_tiers q of None \<Rightarrow> True | Some ts \<Rightarrow> me_tier m \<in> set ts) \<and>
      (mq_includeQuarantine q \<or> me_tier m \<noteq> QuarantineT) \<and>
      (case mq_minConfidence q of None \<Rightarrow> True | Some c \<Rightarrow> me_confidence m \<ge> c) \<and>
      (case mq_tags q of None \<Rightarrow> True | Some ts \<Rightarrow> list_ex (\<lambda>t. t \<in> set (me_tags m)) ts) \<and>
      (case mq_sources q of None \<Rightarrow> True | Some ss \<Rightarrow> sc_type (me_source m) \<in> set ss))"

text \<open>
  \<^verbatim>\<open>slice(0, n)\<close>, and \<open>touch\<close>, which sets the access time of the matching memories in the map;
  \<open>clock\<close> is the reading for each of them.
\<close>

definition slice_to :: "int \<Rightarrow> 'a list \<Rightarrow> 'a list" where
  "slice_to n xs = (if n < 0 then take (length xs - nat (- n)) xs else take (nat n) xs)"

definition touch :: "(memory_entry \<Rightarrow> bool) \<Rightarrow> (string \<Rightarrow> string) \<Rightarrow> memories \<Rightarrow> memories" where
  "touch P clock m =
     map (\<lambda>(k, e). (k, if P e then e\<lparr>me_lastAccessedAt := Some (clock k)\<rparr> else e)) m"

definition recency :: "runtime \<Rightarrow> memory_entry \<Rightarrow> int" where
  "recency rt m = - get_time rt (me_createdAt m)"

definition query ::
  "runtime \<Rightarrow> (string \<Rightarrow> string) \<Rightarrow> memory_query \<Rightarrow> contract \<Rightarrow>
   (contract_error + memory_entry list \<times> nat) \<times> contract" where
  "query rt clock q s =
     (if \<not> mc_initialized s then (Inl NotInitialized, s)
      else
        (let results = filter (matches_query q) (m_values (mc_memories s));
             touched = map (\<lambda>e. e\<lparr>me_lastAccessedAt := Some (clock (me_memoryId e))\<rparr>) results;
             sorted = sort_key (\<lambda>m. (- me_confidence m, recency rt m)) touched;
             limited = (case mq_limit q of None \<Rightarrow> sorted | Some n \<Rightarrow> if n = 0 then sorted else slice_to n sorted) in
         (Inr (limited, length sorted), s\<lparr>mc_memories := touch (matches_query q) clock (mc_memories s)\<rparr>)))"

definition get :: "string \<Rightarrow> string \<Rightarrow> contract \<Rightarrow> (contract_error + memory_entry option) \<times> contract" where
  "get stamp i s =
     (if \<not> mc_initialized s then (Inl NotInitialized, s)
      else (case m_get (mc_memories s) i of
          None \<Rightarrow> (Inr None, s)
        | Some e \<Rightarrow> (let e' = e\<lparr>me_lastAccessedAt := Some stamp\<rparr> in
            (Inr (Some e'), s\<lparr>mc_memories := m_set i e' (mc_memories s)\<rparr>))))"

definition getByTier :: "runtime \<Rightarrow> memory_tier \<Rightarrow> contract \<Rightarrow> contract_error + memory_entry list" where
  "getByTier rt t s =
     (if \<not> mc_initialized s then Inl NotInitialized
      else Inr (sort_key (recency rt) (filter (\<lambda>m. me_tier m = t) (m_values (mc_memories s)))))"

definition all_tiers :: "memory_tier list" where
  "all_tiers = [EphemeralT, WorkingT, CanonT, SacredT, QuarantineT]"

text \<open>The total, and the number of memories of each tier.\<close>

definition getStats :: "runtime \<Rightarrow> contract \<Rightarrow> contract_error + nat \<times> (memory_tier \<times> nat) list" where
  "getStats rt s =
     (if \<not> mc_initialized s then Inl NotInitialized
      else Inr (length (mc_memories s),
        map (\<lambda>t. (t, case getByTier rt t s of Inl _ \<Rightarrow> 0 | Inr ms \<Rightarrow> length ms)) all_tiers))"

section \<open>Decay\<close>

definition DEFAULT_MAX_AGE_MS :: int where
  "DEFAULT_MAX_AGE_MS = 7 * 24 * 60 * 60 * 1000"

definition decayed :: "runtime \<Rightarrow> int \<Rightarrow> int \<Rightarrow> memory_entry \<Rightarrow> bool" where
  "decayed rt now maxAgeMs m =
     (if \<not> me_canDecay m \<or> me_pinned m = Some True then False
      else
        (let age = now - get_time rt (me_createdAt m);
             lastAccess = (case me_lastAccessedAt m of
               None \<Rightarrow> age | Some t \<Rightarrow> if t = [] then age else now - get_time rt t) in
         age > maxAgeMs \<and> lastAccess > maxAgeMs))"

definition runDecay ::
  "runtime \<Rightarrow> int \<Rightarrow> write_outcome \<Rightarrow> int option \<Rightarrow> contract \<Rightarrow> (contract_error + nat) \<times> contract" where
  "runDecay rt now w maxAge s =
     (if \<not> mc_initialized s then (Inl NotInitialized, s)
      else
        (let maxAgeMs = (case maxAge of None \<Rightarrow> DEFAULT_MAX_AGE_MS | Some a \<Rightarrow> a);
             toRemove = map fst (filter (\<lambda>(k, m). decayed rt now maxAgeMs m) (mc_memories s));
             s1 = s\<lparr>mc_memories := fold m_delete toRemove (mc_memories s)\<rparr> in
         if toRemove \<noteq> [] then persistAllMemories w (length toRemove) s1 else (Inr 0, s1)))"

section \<open>Resources\<close>

fun tier_text :: "memory_tier \<Rightarrow> string" where
  "tier_text EphemeralT = ''ephemeral''" | "tier_text WorkingT = ''working''"
| "tier_text CanonT = ''canon''" | "tier_text SacredT = ''sacred''" | "tier_text QuarantineT = ''quarantine''"

fun source_type_text :: "source_type \<Rightarrow> string" where
  "source_type_text HumanS = ''human''" | "source_type_text InferredS = ''inferred''"
| "source_type_text ExternalS = ''external''" | "source_type_text SystemS = ''system''"

record mcp_resource =
  rs_uri :: string
  rs_name :: string
  rs_mimeType :: string
  rs_text :: string

definition source_json :: "memory_source \<Rightarrow> json" where
  "source_json s = JObj
     ([(''type'', JStr (source_type_text (sc_type s))), (''description'', JStr (sc_description s))] @
      (case sc_reference s of None \<Rightarrow> [] | Some r \<Rightarrow> [(''reference'', JStr r)]))"

definition resource_of :: "runtime \<Rightarrow> memory_entry \<Rightarrow> mcp_resource" where
  "resource_of rt m =
     \<lparr> rs_uri = ''memory://'' @ me_memoryId m,
       rs_name = tier_text (me_tier m) @ '': '' @ take 50 (me_content m) @
         (if length (me_content m) > 50 then ''...'' else ''''),
       rs_mimeType = ''application/json'',
       rs_text = stringify (number_text rt) (JObj
         [(''memoryId'', JStr (me_memoryId m)), (''tier'', JStr (tier_text (me_tier m))),
          (''content'', JStr (me_content m)), (''confidence'', JNum (me_confidence m)),
          (''source'', source_json (me_source m)), (''createdAt'', JStr (me_createdAt m))]) \<rparr>"

definition getMCPResources :: "runtime \<Rightarrow> contract \<Rightarrow> contract_error + mcp_resource list" where
  "getMCPResources rt s =
     (if \<not> mc_initialized s then Inl NotInitialized
      else Inr (map (resource_of rt) (m_values (mc_memories s))))"

section \<open>The gate of an operation\<close>

lemma correction_gate_closed:
  "a \<in> {MMutate, MDelete} \<Longrightarrow> \<exists>err. fst (aaaGate gw a mid t c tool g) = Inl err"
  using gate_call_blocks [of "contract_params a mid t c tool" gw g]
  by (auto simp: aaaGate_def contract_params_def case_prod_beta split: option.splits)

lemma governed_refused:
  assumes "\<exists>err. fst gate = Inl err"
  shows "\<exists>err. fst (governed gate g body s) = Inl err" "fst (snd (governed gate g body s)) = s"
  using assms by (auto simp: governed_def split: prod.splits sum.splits)

text \<open>
  No correction and no deletion of a memory ever takes effect: whoever calls, with whatever
  session, clock, readiness and halts, both operations throw and leave the memories and the
  file as they are, because the gate never lets them through.
\<close>

theorem corrections_never_apply:
  "(\<exists>err. fst (correct gw stamp w i newContent why c g s) = Inl err) \<and>
   fst (snd (correct gw stamp w i newContent why c g s)) = s \<and>
   (\<exists>err. fst (forget gw w i c g s) = Inl err) \<and> fst (snd (forget gw w i c g s)) = s"
  unfolding correct_def forget_def by (intro conjI governed_refused correction_gate_closed) simp_all

section \<open>Steps\<close>

text \<open>
  One step of a contract: a call that awaits no gate, or the part after the gate of a call that
  was let through, whatever the state was when the gate ran. When \<open>healthy\<close>, reads and writes succeed;
  otherwise each may fail. An identifier is a time and a random text; a step stores under one that
  is not in use.
\<close>

inductive contract_step :: "bool \<Rightarrow> contract \<Rightarrow> contract \<Rightarrow> bool" for healthy where
  init: "(healthy \<longrightarrow> readable) \<Longrightarrow> contract_step healthy s (snd (initialize ok readable s))"
| stored: "(healthy \<longrightarrow> w = Written) \<Longrightarrow>
    fst (aaaGate gw MWrite None (Some (sq_content q)) c ''MemoryContract.store'' g) = Inr () \<Longrightarrow>
    mc_initialized s \<Longrightarrow> m_get (mc_memories s) i = None \<Longrightarrow>
    contract_step healthy s (snd (store_body i stamps w q s))"
| corrected: "(healthy \<longrightarrow> w = Written) \<Longrightarrow>
    fst (aaaGate gw MMutate (Some i) (Some newContent) c ''MemoryContract.correct'' g) = Inr () \<Longrightarrow>
    contract_step healthy s (snd (correct_body stamp w i newContent why s))"
| pinned: "(healthy \<longrightarrow> w = Written) \<Longrightarrow> contract_step healthy s (snd (pin stamp w i s))"
| forgotten: "(healthy \<longrightarrow> w = Written) \<Longrightarrow>
    fst (aaaGate gw MDelete (Some i) None c ''MemoryContract.forget'' g) = Inr () \<Longrightarrow>
    contract_step healthy s (snd (forget_body w i s))"
| downgraded: "(healthy \<longrightarrow> w = Written) \<Longrightarrow>
    fst (aaaGate gw MDowngrade (Some i) None c ''MemoryContract.downgrade'' g) = Inr () \<Longrightarrow>
    contract_step healthy s (snd (downgrade_body stamp w i why s))"
| verified: "(healthy \<longrightarrow> w = Written) \<Longrightarrow>
    fst (aaaGate gw MVerify (Some i) None c ''MemoryContract.verify'' g) = Inr () \<Longrightarrow>
    contract_step healthy s (snd (verify_body stamps w i ok s))"
| queried: "contract_step healthy s (snd (query rt clock q s))"
| got: "contract_step healthy s (snd (get stamp i s))"
| decay: "(healthy \<longrightarrow> w = Written) \<Longrightarrow> contract_step healthy s (snd (runDecay rt now w maxAge s))"

definition entry_ok :: "memory_entry \<Rightarrow> bool" where
  "entry_ok e \<longleftrightarrow>
     (me_tier e = SacredT \<longrightarrow> me_pinned e = Some True \<and> \<not> me_editable e) \<and>
     (me_pinned e = Some True \<longrightarrow> \<not> me_canDecay e) \<and>
     (me_tier e = QuarantineT \<longrightarrow> me_verification e \<noteq> None) \<and>
     (me_canDecay e \<longrightarrow> me_tier e \<noteq> CanonT) \<and> me_history e = []"

definition keyed :: "memories \<Rightarrow> bool" where
  "keyed m \<longleftrightarrow> m_wf m \<and> (\<forall>k e. m_get m k = Some e \<longrightarrow> me_memoryId e = k)"

definition memories_ok :: "memories \<Rightarrow> bool" where
  "memories_ok m \<longleftrightarrow> keyed m \<and> (\<forall>k e. m_get m k = Some e \<longrightarrow> entry_ok e)"

definition file_ok :: "disk \<Rightarrow> bool" where
  "file_ok d \<longleftrightarrow> (\<forall>e. Some e \<in> set (file_lines d) \<longrightarrow> entry_ok e)"

text \<open>The file is read at most once, before the first write.\<close>

definition contract_ok :: "contract \<Rightarrow> bool" where
  "contract_ok s \<longleftrightarrow> memories_ok (mc_memories s) \<and> (mc_initialized s \<or> mc_memories s = [] \<and> file_ok (mc_disk s))"

lemma entry_ok_ops [simp]:
  "entry_ok (new_memory i stamps q)"
  "entry_ok e \<Longrightarrow> entry_ok (e\<lparr>me_pinned := Some True, me_canDecay := False, me_modifiedAt := t\<rparr>)"
  "entry_ok e \<Longrightarrow> entry_ok (downgraded t why e)"
  "entry_ok e \<Longrightarrow> entry_ok (verified_entry ts ok e)"
  "entry_ok e \<Longrightarrow> entry_ok (e\<lparr>me_lastAccessedAt := a\<rparr>)"
  by (auto simp: entry_ok_def new_memory_def downgraded_def verified_entry_def Let_def)

lemma id_ops [simp]:
  "me_memoryId (new_memory i stamps q) = i"
  "me_memoryId (downgraded t why e) = me_memoryId e"
  "me_memoryId (verified_entry ts ok e) = me_memoryId e"
  by (simp_all add: new_memory_def downgraded_def verified_entry_def Let_def)

lemma keyed_set: "keyed m \<Longrightarrow> me_memoryId e = k \<Longrightarrow> keyed (m_set k e m)"
  by (auto simp: keyed_def store_simps intro: m_wf_update split: if_splits)


lemma keyed_removes: "keyed m \<Longrightarrow> keyed (fold m_delete ks m)"
  by (auto simp: keyed_def store_simps intro: js.fold_remove_well_formed split: if_splits)


lemma touch_get:
  "m_get (touch P clock m) k = map_option (\<lambda>e. if P e then e\<lparr>me_lastAccessedAt := Some (clock k)\<rparr> else e) (m_get m k)"
  by (induction m) (auto simp: touch_def)

lemma touch_keys: "m_keys (touch P clock m) = m_keys m"
  by (simp add: touch_def case_prod_beta comp_def)

lemma keyed_touch: "keyed m \<Longrightarrow> keyed (touch P clock m)"
  by (auto simp: keyed_def touch_get m_wf_def touch_keys)


lemma keyed_load: "keyed m \<Longrightarrow> keyed (fold load_line ls m)"
  by (induction ls arbitrary: m) (auto simp: load_line_def intro: keyed_set split: option.splits)


lemma keyed_values: "keyed m \<Longrightarrow> (k, e) \<in> set m \<Longrightarrow> me_memoryId e = k"
  by (auto simp: keyed_def m_get_iff)

lemma keyed_put: "keyed m \<Longrightarrow> m_get m i = Some e \<Longrightarrow> me_memoryId e' = me_memoryId e \<Longrightarrow> keyed (m_set i e' m)"
  by (rule keyed_set) (auto simp: keyed_def)





lemma persist_all_keeps [simp]: "mc_memories (snd (persistAllMemories w r s)) = mc_memories s"
  "mc_initialized (snd (persistAllMemories w r s)) = mc_initialized s"
  by (simp_all add: persistAllMemories_def split: write_outcome.split)

lemma persist_keeps [simp]: "mc_memories (snd (persistMemory w e r s)) = mc_memories s"
  "mc_initialized (snd (persistMemory w e r s)) = mc_initialized s"
  by (simp_all add: persistMemory_def split: write_outcome.split)


lemma never_let_through:
  "fst (aaaGate gw MMutate mid t c tool g) \<noteq> Inr ()" "fst (aaaGate gw MDelete mid t c tool g) \<noteq> Inr ()"
  using correction_gate_closed [of MMutate gw mid t c tool g] correction_gate_closed [of MDelete gw mid t c tool g]
  by auto



text \<open>A tier is left for quarantine, and quarantine for the working tier by a verification.\<close>

definition tier_kept :: "memory_entry \<Rightarrow> memory_entry \<Rightarrow> bool" where
  "tier_kept e e' \<longleftrightarrow>
     me_tier e' = QuarantineT \<or> (me_tier e' = me_tier e \<and> me_verification e' = me_verification e) \<or>
     (me_tier e' = WorkingT \<and> map_option vf_status (me_verification e') = Some VerifiedV)"


text \<open>What no call changes in a memory that does not decay.\<close>

definition kept_memory :: "memory_entry \<Rightarrow> memory_entry \<Rightarrow> bool" where
  "kept_memory e e' \<longleftrightarrow>
     me_content e' = me_content e \<and> me_createdAt e' = me_createdAt e \<and> me_source e' = me_source e \<and>
     me_tags e' = me_tags e \<and> me_editable e' = me_editable e \<and> me_history e' = me_history e \<and>
     \<not> me_canDecay e' \<and> (me_pinned e = Some True \<longrightarrow> me_pinned e' = Some True) \<and>
     (me_verification e \<noteq> None \<or> me_tier e' \<noteq> me_tier e \<longrightarrow> me_verification e' \<noteq> None) \<and> tier_kept e e'"

lemma tier_kept_ops [simp]:
  "tier_kept e e" "tier_kept e (e\<lparr>me_pinned := Some True, me_canDecay := False, me_modifiedAt := t\<rparr>)"
  "tier_kept e (downgraded t why e)" "tier_kept e (e\<lparr>me_lastAccessedAt := a\<rparr>)"
  by (simp_all add: tier_kept_def downgraded_def)

lemma tier_kept_verified: "me_tier e = QuarantineT \<Longrightarrow> tier_kept e (verified_entry ts ok e)"
  by (cases ok) (simp_all add: tier_kept_def verified_entry_def Let_def)

lemma kept_ops [simp]:
  assumes "\<not> me_canDecay e"
  shows "kept_memory e e" "kept_memory e (e\<lparr>me_pinned := Some True, me_canDecay := False, me_modifiedAt := t\<rparr>)"
    "kept_memory e (downgraded t why e)" "kept_memory e (e\<lparr>me_lastAccessedAt := a\<rparr>)"
  using assms by (simp_all add: kept_memory_def) (simp add: downgraded_def)

lemma kept_verified [simp]:
  "\<not> me_canDecay e \<Longrightarrow> me_tier e = QuarantineT \<Longrightarrow> kept_memory e (verified_entry ts ok e)"
  unfolding kept_memory_def using tier_kept_verified [of e ts ok] by (simp add: verified_entry_def Let_def)


definition keeps_all :: "memories \<Rightarrow> memories \<Rightarrow> bool" where
  "keeps_all m m' \<longleftrightarrow>
     (\<forall>k e. m_get m k = Some e \<longrightarrow> \<not> me_canDecay e \<longrightarrow>
        (\<exists>e'. m_get m' k = Some e' \<and> kept_memory e e'))"



lemma keeps_same [simp]: "keeps_all m m"
  by (auto simp: keeps_all_def)







definition sacred_memory :: memory_entry where
  "sacred_memory = new_memory ''m1'' (''t0'', ''t0'', ''t0'')
     \<lparr> sq_content = ''i am the sovereign'', sq_tier = None, sq_source = None, sq_confidence = None,
       sq_reason = ''identity'', sq_tags = None \<rparr>"

definition sacred_file :: disk where
  "sacred_file = Some (closed_file [None, Some sacred_memory])"



text \<open>A memory stored in quarantine reaches the working tier without a downgrade, and does not decay there.\<close>

lemma quarantine_promoted:
  "let e = verified_entry ts True (new_memory i stamps (q\<lparr>sq_tier := Some QuarantineT\<rparr>)) in
   me_tier e = WorkingT \<and> \<not> me_canDecay e"
  by (simp add: verified_entry_def new_memory_def Let_def)

section \<open>The file mirrors the memories\<close>

definition unread :: "memory_entry \<Rightarrow> memory_entry" where
  "unread e = e\<lparr>me_lastAccessedAt := None\<rparr>"

lemma unread_simps [simp]:
  "unread (e\<lparr>me_lastAccessedAt := a\<rparr>) = unread e" "me_modifiedAt (unread e) = me_modifiedAt e"
  by (simp_all add: unread_def)

abbreviation without_access :: "memories \<Rightarrow> memories" where
  "without_access m \<equiv> map (\<lambda>(k, e). (k, unread e)) m"

definition reload :: "disk \<Rightarrow> memories" where
  "reload d = fold load_line (file_lines d) []"

lemma reload_initialize:
  "mc_memories (snd (initialize True True (new_contract d))) = reload d"
  by (cases d) (simp_all add: initialize_def loadMemories_def new_contract_def reload_def file_lines_def)

lemma without_access_set: "without_access (m_set k e m) = m_set k (unread e) (without_access m)"
  by (induction m) auto

lemma m_set_same: "m_get m k = Some v \<Longrightarrow> m_set k v m = m"
  by (induction m) (auto split: if_splits)

lemma m_set_new: "m_get m k = None \<Longrightarrow> m_set k v m = m @ [(k, v)]"
  by (induction m) (auto split: if_splits)

lemma without_access_get: "m_get (without_access m) k = map_option unread (m_get m k)"
  by (induction m) auto

lemma without_access_touch: "without_access (touch P clock m) = without_access m"
  by (induction m) (auto simp: touch_def)

lemma without_access_read:
  "m_get m k = Some e \<Longrightarrow> without_access (m_set k (e\<lparr>me_lastAccessedAt := a\<rparr>) m) = without_access m"
  unfolding without_access_set by (rule m_set_same) (simp add: without_access_get)

lemma load_saved:
  "distinct (m_keys (acc @ m)) \<Longrightarrow> \<forall>(k, e) \<in> set m. me_memoryId e = k \<Longrightarrow>
   fold load_line (map Some (m_values m)) acc = acc @ m"
proof (induction m arbitrary: acc)
  case (Cons x m)
  obtain k e where x: "x = (k, e)" by fastforce
  have "m_set k e acc = acc @ [x]" using Cons.prems(1) unfolding x
    by (intro m_set_new) (auto simp: map_of_eq_None_iff)
  then show ?case using Cons.IH [of "acc @ [x]"] Cons.prems x by (simp add: load_line_def)
qed simp

lemma reload_saved:
  assumes "keyed m"
  shows "reload (Some (closed_file (map Some (m_values m)))) = m"
proof -
  have "distinct (m_keys ([] @ m))" using assms by (simp add: keyed_def m_wf_def)
  moreover have "\<forall>(k, e) \<in> set m. me_memoryId e = k" using keyed_values [OF assms] by blast
  ultimately show ?thesis unfolding reload_def closed_file_def file_lines_def
    by (simp only: option.case memory_file.select_convs load_saved append_Nil)
qed

text \<open>The last line of the file has its line end.\<close>

definition closed :: "disk \<Rightarrow> bool" where
  "closed d \<longleftrightarrow> (case d of None \<Rightarrow> True | Some f \<Rightarrow> \<not> mf_open f)"

lemma reload_append: "closed d \<Longrightarrow> reload (Some (append_line e d)) = m_set (me_memoryId e) e (reload d)"
  by (simp add: closed_def reload_def file_lines_def append_line_def closed_file_def load_line_def split: option.splits)

definition mirrored :: "contract \<Rightarrow> bool" where
  "mirrored s \<longleftrightarrow> keyed (mc_memories s) \<and> closed (mc_disk s) \<and>
     (if mc_initialized s then without_access (reload (mc_disk s)) = without_access (mc_memories s)
      else mc_memories s = [])"

lemma mirrored_keyed: "mirrored s \<Longrightarrow> keyed (mc_memories s)"
  by (simp add: mirrored_def)

lemma mirrored_saved:
  assumes "mirrored s" "keyed m" "mc_initialized s"
  shows "mirrored (snd (persistAllMemories Written r (s\<lparr>mc_memories := m\<rparr>)))"
proof -
  have "mc_disk (snd (persistAllMemories Written r (s\<lparr>mc_memories := m\<rparr>))) = Some (closed_file (map Some (m_values m)))"
    by (simp add: persistAllMemories_def)
  then show ?thesis using assms(2,3) reload_saved [OF assms(2)]
    by (simp add: mirrored_def closed_def closed_file_def)
qed

lemma mirrored_put:
  assumes "mirrored s" "m_get (mc_memories s) i = Some e" "me_memoryId e' = me_memoryId e"
  shows "mirrored (snd (persistAllMemories Written r (s\<lparr>mc_memories := m_set i e' (mc_memories s)\<rparr>)))"
proof -
  have "keyed (m_set i e' (mc_memories s))" using keyed_put [OF mirrored_keyed [OF assms(1)] assms(2,3)] .
  moreover have "mc_initialized s" using assms(1,2) by (auto simp: mirrored_def split: if_splits)
  ultimately show ?thesis by (rule mirrored_saved [OF assms(1)])
qed

lemma mirrored_access:
  assumes "mirrored s" "keyed m" "without_access m = without_access (mc_memories s)"
  shows "mirrored (s\<lparr>mc_memories := m\<rparr>)"
  using assms by (auto simp: mirrored_def split: if_splits)

lemma mirrored_step:
  assumes "contract_step True s t" "mirrored s"
  shows "mirrored t"
  using assms(1)
proof (cases rule: contract_step.cases)
  case (init readable ok)
  show ?thesis
  proof (cases "mc_initialized s \<or> \<not> ok")
    case False
    have m: "mc_memories s = []" using False assms(2) by (simp add: mirrored_def)
    have "mc_memories t = reload (mc_disk s)" "mc_disk t = mc_disk s" "mc_initialized t"
      using False init m by (auto simp: initialize_def loadMemories_def reload_def file_lines_def)
    moreover have "keyed (reload (mc_disk s))"
      unfolding reload_def by (rule keyed_load) (simp add: keyed_def m_wf_def)
    ultimately show ?thesis using assms(2) by (simp add: mirrored_def)
  qed (use assms(2) init in \<open>auto simp: initialize_def\<close>)
next
  case (stored w gw q c g i stamps)
  have "keyed (m_set i (new_memory i stamps q) (mc_memories s))"
    by (rule keyed_set) (simp_all add: mirrored_keyed [OF assms(2)])
  moreover have "closed (mc_disk s)" using assms(2) by (simp add: mirrored_def)
  ultimately show ?thesis using stored(2,4) assms(2) unfolding stored(1)
    by (simp add: mirrored_def store_body_def Let_def put_entry_def persistMemory_def without_access_set reload_append)
      (simp add: closed_def append_line_def closed_file_def split: option.split)
next
  case (pinned w stamp i)
  then show ?thesis using assms(2)
    by (auto simp: pin_def with_memory_def Let_def intro!: mirrored_put split: option.splits)
next
  case (downgraded w gw i c g stamp why)
  then show ?thesis using assms(2)
    by (auto simp: downgrade_body_def with_memory_def Let_def intro!: mirrored_put split: option.splits)
next
  case (verified w gw i c g stamps ok)
  then show ?thesis using assms(2)
    by (auto simp: verify_body_def with_memory_def Let_def intro!: mirrored_put split: option.splits)
next
  case (queried rt clock q)
  then show ?thesis using assms(2) mirrored_access [OF assms(2) keyed_touch [OF mirrored_keyed [OF assms(2)]]]
    by (simp add: query_def Let_def without_access_touch)
next
  case (got stamp i)
  have "mirrored (s\<lparr>mc_memories := m_set i (e\<lparr>me_lastAccessedAt := Some stamp\<rparr>) (mc_memories s)\<rparr>)"
    if "m_get (mc_memories s) i = Some e" for e
    by (rule mirrored_access [OF assms(2) keyed_put [OF mirrored_keyed [OF assms(2)] that]])
       (simp_all add: without_access_read [OF that])
  then show ?thesis using assms(2) got by (auto simp: get_def Let_def split: option.splits)
next
  case (decay w rt now maxAge)
  then show ?thesis using assms(2) mirrored_saved [OF assms(2) keyed_removes [OF mirrored_keyed [OF assms(2)]]]
    by (auto simp: runDecay_def Let_def)
qed (simp_all add: never_let_through)

interpretation mem_mirror: kept_invariant "contract_step True" mirrored
  by unfold_locales (rule mirrored_step)

text \<open>
  C31. As long as reads and writes succeed and the file, when there was one at the start, ended with a line end
  (blank text after it aside), the file holds the memories: a new contract that is
  initialised on the file a run has left behind, whatever entries and unreadable lines were in it at the start,
  has the same memories in the same order, up to the times of their last access, which
  queries do not write. Without the line end it need not: the first memory that is stored is appended to the open
  line and is lost with it.
\<close>

theorem reload_restores:
  assumes "(contract_step True)\<^sup>*\<^sup>* (new_contract d) t" "mc_initialized t" "closed d"
  shows "without_access (mc_memories (snd (initialize True True (new_contract (mc_disk t))))) =
    without_access (mc_memories t)"
proof -
  have "mirrored (new_contract d)" using assms(3) by (simp add: mirrored_def new_contract_def keyed_def m_wf_def)
  then have "mirrored t" by (rule mem_mirror.run_inv [OF assms(1)])
  then show ?thesis using assms(2) by (simp add: mirrored_def reload_initialize)
qed

theorem reload_restores_witness:
  "\<exists>e. m_get (mc_memories (snd (initialize True True (new_contract (mc_disk (snd (pin ''t1'' Written ''m1''
     (snd (initialize True True (new_contract sacred_file)))))))))) ''m1'' = Some e \<and>
     me_modifiedAt e = ''t1''"
proof -
  let ?s = "snd (initialize True True (new_contract sacred_file))"
  let ?t = "snd (pin ''t1'' Written ''m1'' ?s)"
  have "(contract_step True)\<^sup>*\<^sup>* (new_contract sacred_file) ?s" "contract_step True ?s ?t"
    by (auto intro!: contract_step.intros)
  then have run: "(contract_step True)\<^sup>*\<^sup>* (new_contract sacred_file) ?t" by (rule rtranclp.rtrancl_into_rtrancl)
  have init: "mc_initialized ?t" by code_simp
  have "closed sacred_file" by code_simp
  from arg_cong [OF reload_restores [OF run init this], of "\<lambda>m. map_option me_modifiedAt (m_get m ''m1'')"]
  have "map_option me_modifiedAt (m_get (mc_memories (snd (initialize True True (new_contract (mc_disk ?t))))) ''m1'') =
      map_option me_modifiedAt (m_get (mc_memories ?t) ''m1'')"
    by (simp add: without_access_get option.map_comp comp_def)
  moreover have "map_option me_modifiedAt (m_get (mc_memories ?t) ''m1'') = Some ''t1''" by code_simp
  ultimately show ?thesis by auto
qed

text \<open>An open line swallows the memory that is stored after it, and keeps none of the two.\<close>

lemma open_line_swallows:
  "reload (Some (append_line e (Some \<lparr> mf_lines = ls @ [l], mf_open = True \<rparr>))) = reload (Some (closed_file ls))"
  by (simp add: append_line_def closed_file_def reload_def file_lines_def load_line_def)

text \<open>A file that could not be read is taken for an empty one, and the next change of a memory replaces it.\<close>

lemma unread_file_replaced:
  "let s = snd (initialize True False (new_contract d)) in
   mc_memories s = [] \<and> mc_disk (snd (pin t Written i (snd (store_body i stamps Written q s)))) =
     Some (closed_file [Some ((new_memory i stamps q)\<lparr> me_pinned := Some True, me_canDecay := False, me_modifiedAt := t \<rparr>)])"
  by (simp add: initialize_def loadMemories_def new_contract_def store_body_def put_entry_def persistMemory_def pin_def
      with_memory_def persistAllMemories_def Let_def)

section \<open>Answers of a query\<close>

text \<open>The order of the answers: more confident first, then younger first.\<close>

definition ranked_before :: "runtime \<Rightarrow> memory_entry \<Rightarrow> memory_entry \<Rightarrow> bool" where
  "ranked_before rt a b \<longleftrightarrow>
     me_confidence a > me_confidence b \<or>
     (me_confidence a = me_confidence b \<and> get_time rt (me_createdAt a) \<ge> get_time rt (me_createdAt b))"

lemma sorted_ranked:
  "sorted_wrt (ranked_before rt) (sort_key (\<lambda>m. (- me_confidence m, recency rt m)) xs)"
proof -
  have "sorted_wrt (\<lambda>a b. (- me_confidence a, recency rt a) \<le> (- me_confidence b, recency rt b))
      (sort_key (\<lambda>m. (- me_confidence m, recency rt m)) xs)"
    using sorted_sort_key [of "\<lambda>m. (- me_confidence m, recency rt m)" xs] by (simp add: sorted_map)
  then show ?thesis by (rule sorted_wrt_mono_rel [rotated]) (auto simp: ranked_before_def recency_def)
qed

lemma slice_prefix: "\<exists>ys. xs = slice_to n xs @ ys"
  unfolding slice_to_def using append_take_drop_id [symmetric] by metis

lemma length_slice:
  "length (slice_to n xs) = (if n < 0 then length xs - nat (- n) else min (nat n) (length xs))"
  by (simp add: slice_to_def min.commute)

definition limited_length :: "int option \<Rightarrow> nat \<Rightarrow> nat" where
  "limited_length l n_all =
     (case l of None \<Rightarrow> n_all
      | Some n \<Rightarrow> if n = 0 then n_all else if n < 0 then n_all - nat (- n) else min (nat n) n_all)"

text \<open>
  A query answers with the best matches: the answers are a prefix, as long as the limit
  says, of the matching memories ranked by confidence and then by age; the total counts all
  matches before the limit; a quarantined memory is among them only when it was asked for;
  and the query changes nothing but the access times. A limit of 0 is no limit, and a negative
  one drops that many answers from the end.
\<close>

theorem query_answers:
  "case query rt clock q s of
     (Inl e, s') \<Rightarrow> e = NotInitialized \<and> \<not> mc_initialized s \<and> s' = s
   | (Inr (rs, n_all), s') \<Rightarrow>
       mc_initialized s \<and>
       (\<exists>rest. sorted_wrt (ranked_before rt) (rs @ rest) \<and>
          mset (map unread (rs @ rest)) =
            mset (map unread (filter (matches_query q) (m_values (mc_memories s))))) \<and>
       n_all = length (filter (matches_query q) (m_values (mc_memories s))) \<and>
       length rs = limited_length (mq_limit q) n_all \<and>
       filter (\<lambda>m. me_tier m = QuarantineT \<and> \<not> mq_includeQuarantine q) rs = [] \<and>
       without_access (mc_memories s') = without_access (mc_memories s) \<and>
       mc_disk s' = mc_disk s"
proof (cases "mc_initialized s")
  case True
  define ms where "ms = filter (matches_query q) (m_values (mc_memories s))"
  define ts where "ts = map (\<lambda>e. e\<lparr>me_lastAccessedAt := Some (clock (me_memoryId e))\<rparr>) ms"
  define srt where "srt = sort_key (\<lambda>m. (- me_confidence m, recency rt m)) ts"
  define rs where "rs = (case mq_limit q of None \<Rightarrow> srt | Some n \<Rightarrow> if n = 0 then srt else slice_to n srt)"
  have query: "query rt clock q s =
      (Inr (rs, length srt), s\<lparr>mc_memories := touch (matches_query q) clock (mc_memories s)\<rparr>)"
    using True unfolding query_def Let_def rs_def srt_def ts_def ms_def by simp
  have "\<exists>rest. srt = rs @ rest" unfolding rs_def using slice_prefix [of srt] by (simp split: option.split)
  then obtain rest where rest: "srt = rs @ rest" ..
  have sorted: "sorted_wrt (ranked_before rt) (rs @ rest)" using sorted_ranked [of rt ts] rest by (simp add: srt_def)
  have "map unread ts = map unread ms" by (simp add: ts_def)
  then have perm: "mset (map unread (rs @ rest)) = mset (map unread ms)"
    using rest unfolding srt_def by (metis mset_map mset_sort)
  have len: "length srt = length ms" by (simp add: srt_def ts_def)
  have limited: "length rs = limited_length (mq_limit q) (length srt)"
    unfolding rs_def limited_length_def by (simp add: length_slice split: option.split)
  have "me_tier m \<noteq> QuarantineT \<or> mq_includeQuarantine q" if "m \<in> set rs" for m
  proof -
    have "m \<in> set ts" using that rest by (metis Un_iff set_append set_sort srt_def)
    then obtain e where "e \<in> set ms" "me_tier m = me_tier e" by (auto simp: ts_def)
    then show ?thesis by (auto simp: ms_def matches_query_def Let_def)
  qed
  then have "filter (\<lambda>m. me_tier m = QuarantineT \<and> \<not> mq_includeQuarantine q) rs = []"
    by (auto simp: filter_empty_conv)
  then show ?thesis unfolding query prod.case sum.case ms_def [symmetric]
    using True sorted perm len limited by (auto simp: without_access_touch)
qed (simp add: query_def)

section \<open>Decay removes exactly what has aged\<close>

lemma fold_delete: "fold m_delete ks m = filter (\<lambda>x. fst x \<notin> set ks) m"
proof (induction ks arbitrary: m)
  case (Cons k ks)
  have "fold m_delete (k # ks) m = filter (\<lambda>x. fst x \<notin> set ks) (m_delete k m)" by (simp only: fold.simps comp_apply Cons)
  also have "\<dots> = filter (\<lambda>x. fst x \<notin> set (k # ks)) m"
    unfolding AList.delete_eq filter_filter by (intro filter_cong refl) auto
  finally show ?case .
qed simp

theorem decay_removes_exactly:
  fixes rt now maxAge
  assumes "contract_ok s" "mc_initialized s"
  defines "gone \<equiv> decayed rt now (case maxAge of None \<Rightarrow> DEFAULT_MAX_AGE_MS | Some a \<Rightarrow> a)"
  shows "mc_memories (snd (runDecay rt now w maxAge s)) = filter (\<lambda>x. \<not> gone (snd x)) (mc_memories s)"
proof -
  have dist: "distinct (m_keys (mc_memories s))" using assms(1) by (simp add: contract_ok_def memories_ok_def keyed_def m_wf_def)
  let ?ks = "map fst (filter (\<lambda>(k, m). gone m) (mc_memories s))"
  have "fst x \<in> set ?ks \<longleftrightarrow> gone (snd x)" if "x \<in> set (mc_memories s)" for x
  proof
    assume "fst x \<in> set ?ks"
    then obtain e where "(fst x, e) \<in> set (mc_memories s)" "gone e" by auto
    then show "gone (snd x)" using eq_key_imp_eq_value [OF dist, of "fst x" e "snd x"] that by simp
  next
    assume "gone (snd x)"
    then show "fst x \<in> set ?ks" using that by (auto simp: case_prod_beta)
  qed
  then have "filter (\<lambda>x. fst x \<notin> set ?ks) (mc_memories s) = filter (\<lambda>x. \<not> gone (snd x)) (mc_memories s)"
    by (intro filter_cong refl) simp
  then have "fold m_delete ?ks (mc_memories s) = filter (\<lambda>x. \<not> gone (snd x)) (mc_memories s)"
    by (simp only: fold_delete)
  moreover have "mc_memories (snd (runDecay rt now w maxAge s)) = fold m_delete ?ks (mc_memories s)"
    using assms(2) unfolding runDecay_def Let_def gone_def
    by (simp only: not_True_eq_False if_False if_distrib [of snd] if_distrib [of mc_memories]
        persist_all_keeps snd_conv) simp
  ultimately show ?thesis by (rule trans [rotated])
qed

section \<open>A sacred memory can be demoted\<close>

text \<open>Once the gate lets a downgrade and a verification through, a sacred memory is a working one.\<close>

theorem sacred_memory_demoted:
  "let s = snd (initialize True True (new_contract sacred_file));
       s1 = snd (downgrade_body ''t1'' Written ''m1'' ''w'' s);
       s2 = snd (verify_body (''t2'', ''t2'') Written ''m1'' True s1) in
   map_option me_tier (m_get (mc_memories s) ''m1'') = Some SacredT \<and>
   map_option me_tier (m_get (mc_memories s2) ''m1'') = Some WorkingT"
  by code_simp

definition plain_world :: gate_world where
  "plain_world = \<lparr> gw_runtime = plain_runtime, gw_env = plain_env, gw_mac = sample_mac, gw_now = 0, gw_stamp = ''t'',
     gw_uuids = (''u'', ''v''), gw_channel = quiet_channel, gw_reply = Unreachable \<rparr>"

definition default_caller :: caller where
  "default_caller = \<lparr> op_actorId = None, op_sessionId = None \<rparr>"

theorem default_store_refused:
  "fst (store plain_world ''m2'' (''t'', ''t'', ''t'') Written
      \<lparr> sq_content = ''a note'', sq_tier = None, sq_source = None, sq_confidence = None, sq_reason = ''r'', sq_tags = None \<rparr>
      default_caller new_gate_state (snd (initialize True True (new_contract None)))) =
   Inl (GateBlocked (SessionGate SESSION_UNKNOWN))"
  by code_simp

end
