(* ===== verification/Act_Token.thy ===== *)
theory Act_Token
  imports Session_Gate
begin

text \<open>
  The capability tokens and the request forensics of
  \<^verbatim>\<open>src/src/domain/governance/McpPolicyGate.ts\<close>: \<^verbatim>\<open>buildACT\<close>, \<^verbatim>\<open>verifyACT\<close>,
  \<^verbatim>\<open>hashArguments\<close> and \<^verbatim>\<open>snapshotArguments\<close>.

  The encodings are a record: \<open>encode_json\<close> is the base64url text of the JSON text of a value,
  \<open>decode_json\<close> the reverse (\<^term>\<open>None\<close> when the parse throws), \<open>hmac64\<close> the base64url HMAC. An
  expiry in a payload is a number or absent, as the comparison with \<^verbatim>\<open>undefined\<close> is
  false. A call that throws is \<^term>\<open>None\<close>.
\<close>

section \<open>Tokens\<close>

record token_env =
  encode_json :: "json \<Rightarrow> string"
  decode_json :: "string \<Rightarrow> json option"
  hmac64 :: "string \<Rightarrow> string \<Rightarrow> string"
  token_runtime :: runtime

definition act_payload :: "string \<Rightarrow> string \<Rightarrow> int \<Rightarrow> int \<Rightarrow> json" where
  "act_payload who sid now ttl =
     JObj [(''actor_id'', JStr who), (''session_id'', JStr sid), (''issued_at'', JNum (of_int now)),
           (''expiry'', JNum (of_int (now + ttl)))]"

definition buildACT :: "token_env \<Rightarrow> int \<Rightarrow> string \<Rightarrow> string \<Rightarrow> string \<Rightarrow> int \<Rightarrow> string" where
  "buildACT env now who sid organSecret ttl =
     (let payloadB64 = encode_json env (act_payload who sid now ttl);
          sig = hmac64 env organSecret payloadB64 in
      ''act_v1.'' @ payloadB64 @ ''.'' @ sig)"

datatype act_reason =
    MissingPrefix | MalformedParts | SignatureLength | HmacMismatch | PayloadParse
  | ActActorMismatch string string | ActSessionMismatch | ActExpired | ActValid

definition canonical_actor :: "token_env \<Rightarrow> json \<Rightarrow> string" where
  "canonical_actor env v = to_lower (trim (join_text (token_runtime env) v))"

definition MAX_DATE :: rat where "MAX_DATE = 8640000000000000"

definition verify_claims :: "token_env \<Rightarrow> int \<Rightarrow> json \<Rightarrow> string \<Rightarrow> string \<Rightarrow> act_reason option" where
  "verify_claims env now payload expectedActorId expectedSessionId =
     (let actActor = canonical_actor env
            (coalesce (field payload ''actor'') (coalesce (field payload ''actor_id'') (JStr [])));
          expectedActor = to_lower (trim expectedActorId) in
      if actActor \<noteq> expectedActor then Some (ActActorMismatch actActor expectedActor)
      else if field payload ''session_id'' \<noteq> JStr expectedSessionId then Some ActSessionMismatch
      else
        (case field payload ''expiry'' of
           JNum n \<Rightarrow>
             if of_int now > n then (if \<bar>n\<bar> > MAX_DATE then None else Some ActExpired) else Some ActValid
         | _ \<Rightarrow> Some ActValid))"

definition verifyACT ::
  "token_env \<Rightarrow> int \<Rightarrow> string \<Rightarrow> string \<Rightarrow> string \<Rightarrow> string \<Rightarrow> act_reason option" where
  "verifyACT env now act expectedActorId expectedSessionId organSecret =
     (if \<not> starts_with act ''act_v1.'' \<and> \<not> starts_with act ''sct_v1.'' then Some MissingPrefix
      else
        (case split_on (CHR ''.'') act of
           [_, payloadB64, sigB64] \<Rightarrow>
             let expectedSig = hmac64 env organSecret payloadB64 in
             if length sigB64 \<noteq> length expectedSig then Some SignatureLength
             else if list_ex (\<lambda>c. of_char c \<ge> (128 :: nat)) sigB64 then None
             else if sigB64 \<noteq> expectedSig then Some HmacMismatch
             else
               (case decode_json env payloadB64 of
                  None \<Rightarrow> Some PayloadParse
                | Some payload \<Rightarrow>
                    if payload = JNull then None
                    else verify_claims env now payload expectedActorId expectedSessionId)
         | _ \<Rightarrow> Some MalformedParts))"

section \<open>Forensics\<close>

definition REDACT_PATTERNS :: "rx list" where
  "REDACT_PATTERNS =
     [rx_text ''secret'', rx_text ''token'', rx_text ''password'',
      rx_seq [rx_text ''api'', rx_opt (RSet ''_-''), rx_text ''key''], rx_text ''credential'', rx_text ''auth'',
      rx_seq [rx_text ''private'', rx_opt (RSet ''_-''), rx_text ''key''],
      rx_seq [rx_text ''session'', rx_opt (RSet ''_-''), rx_text ''token''],
      rx_seq [rx_text ''act'', rx_opt (RSet ''_-''), rx_text ''v'', RSet ''123'']]"

definition MAX_SNAPSHOT_BYTES :: nat where "MAX_SNAPSHOT_BYTES = 2048"

text \<open>
  \<^verbatim>\<open>JSON.stringify(value, keys)\<close>: every object, however deep, keeps the fields of the
  list only, in the order of the list. Fields that are undefined are dropped.
\<close>

fun restrict_keys :: "string list \<Rightarrow> json \<Rightarrow> json"
  and restrict_items :: "string list \<Rightarrow> json list \<Rightarrow> json list"
  and restrict_fields :: "string list \<Rightarrow> (string \<times> json) list \<Rightarrow> (string \<times> json) list" where
  "restrict_keys ks (JObj kvs) =
     (let rs = restrict_fields ks kvs in
      JObj (concat (map (\<lambda>k. case map_of rs k of None \<Rightarrow> [] | Some v \<Rightarrow> [(k, v)]) ks)))"
| "restrict_keys ks (JArr xs) = JArr (restrict_items ks xs)"
| "restrict_keys ks v = v"
| "restrict_items ks [] = []"
| "restrict_items ks (x # xs) = restrict_keys ks x # restrict_items ks xs"
| "restrict_fields ks [] = []"
| "restrict_fields ks ((k, v) # kvs) =
     (if v = JUndef then restrict_fields ks kvs else (k, restrict_keys ks v) # restrict_fields ks kvs)"

definition stringify_keys :: "runtime \<Rightarrow> string list \<Rightarrow> json \<Rightarrow> string" where
  "stringify_keys rt ks v = stringify (number_text rt) (restrict_keys ks v)"

definition own_keys :: "json \<Rightarrow> string list" where
  "own_keys v = (case v of JObj kvs \<Rightarrow> map fst kvs | _ \<Rightarrow> [])"

definition absent :: "json \<Rightarrow> bool" where
  "absent v \<longleftrightarrow> v = JUndef \<or> v = JNull"

definition hashArguments :: "runtime \<Rightarrow> json \<Rightarrow> string option" where
  "hashArguments rt v =
     (if absent v then None
      else Some (take 16 (sha256 rt (stringify_keys rt (sort (own_keys v)) v))))"

definition snapshot_value :: "string \<Rightarrow> json \<Rightarrow> json" where
  "snapshot_value k v =
     (if list_ex (\<lambda>p. rx_test_i p k) REDACT_PATTERNS then JStr ''[REDACTED]''
      else (case v of JStr s \<Rightarrow> if length s > 200 then JStr (take 200 s @ ''...'') else v | _ \<Rightarrow> v))"

text \<open>The entries of an array are numbered.\<close>

definition entries_of :: "runtime \<Rightarrow> json \<Rightarrow> (string \<times> json) list option" where
  "entries_of rt v =
     (case v of
        JObj kvs \<Rightarrow> Some kvs
      | JArr xs \<Rightarrow> Some (zip (map (\<lambda>i. number_text rt (of_nat i)) [0..<length xs]) xs)
      | _ \<Rightarrow> None)"

definition snapshotArguments :: "runtime \<Rightarrow> json \<Rightarrow> string option" where
  "snapshotArguments rt v =
     (if absent v then None
      else
        (case entries_of rt v of
           None \<Rightarrow> None
         | Some kvs \<Rightarrow>
             let redacted = map (\<lambda>(k, x). (k, snapshot_value k x)) kvs;
                 text = stringify_keys rt (sort (map fst redacted)) (JObj redacted) in
             Some (if length text > MAX_SNAPSHOT_BYTES then take MAX_SNAPSHOT_BYTES text @ ''...'' else text)))"

section \<open>A minted token is accepted by its owner until it expires\<close>

lemma split_on_none: "d \<notin> set s \<Longrightarrow> split_on d s = [s]"
  by (induction s) auto

lemma split_on_append: "d \<notin> set s \<Longrightarrow> split_on d (s @ d # t) = s # split_on d t"
  by (induction s) auto

text \<open>What is used of the encodings: base64url texts have no dot and are ASCII, and decoding inverts encoding.\<close>

definition codec_ok :: "token_env \<Rightarrow> json \<Rightarrow> bool" where
  "codec_ok env v \<longleftrightarrow>
     decode_json env (encode_json env v) = Some v \<and> CHR ''.'' \<notin> set (encode_json env v) \<and>
     (\<forall>k t. CHR ''.'' \<notin> set (hmac64 env k t) \<and> (\<forall>c \<in> set (hmac64 env k t). of_char c < (128 :: nat)))"

lemma verify_built:
  assumes "codec_ok env (act_payload who sid now ttl)"
  shows "verifyACT env now' (buildACT env now who sid key ttl) who' sid' key' =
    (let payload = encode_json env (act_payload who sid now ttl) in
     if length (hmac64 env key payload) \<noteq> length (hmac64 env key' payload) then Some SignatureLength
     else if hmac64 env key payload \<noteq> hmac64 env key' payload then Some HmacMismatch
     else if to_lower (trim who) \<noteq> to_lower (trim who')
       then Some (ActActorMismatch (to_lower (trim who)) (to_lower (trim who')))
     else if sid \<noteq> sid' then Some ActSessionMismatch
     else if now' > now + ttl
       then (if \<bar>of_int (now + ttl)\<bar> > MAX_DATE then None else Some ActExpired)
     else Some ActValid)"
proof -
  let ?p = "encode_json env (act_payload who sid now ttl)"
  let ?s = "hmac64 env key ?p"
  have dots: "CHR ''.'' \<notin> set ?p" "CHR ''.'' \<notin> set ?s" and ascii: "\<not> list_ex (\<lambda>c. of_char c \<ge> (128 :: nat)) ?s"
    using assms by (auto simp: codec_ok_def list_ex_iff not_le)
  have "split_on (CHR ''.'') (''act_v1'' @ CHR ''.'' # (?p @ CHR ''.'' # ?s)) = [''act_v1'', ?p, ?s]"
    by (subst split_on_append, simp) (simp add: split_on_append split_on_none dots)
  moreover have "buildACT env now who sid key ttl = ''act_v1'' @ CHR ''.'' # (?p @ CHR ''.'' # ?s)"
    by (simp add: buildACT_def Let_def)
  moreover have "starts_with (''act_v1'' @ CHR ''.'' # t) ''act_v1.''" for t
    by (simp add: starts_with_iff)
  moreover have "decode_json env ?p = Some (act_payload who sid now ttl)"
    using assms by (simp add: codec_ok_def)
  moreover have "(of_int now' > (of_int (now + ttl) :: rat)) \<longleftrightarrow> now' > now + ttl" by linarith
  ultimately show ?thesis using ascii
    by (simp add: verifyACT_def verify_claims_def Let_def act_payload_def field_def coalesce_def canonical_actor_def)
qed

text \<open>
  A minted token is accepted exactly by the verification with the same signature, for the
  actor it was minted for (up to case and surrounding space) and the session it was minted
  for, until its time to live has passed. Every token whose authentic payload carries no expiry
  is accepted for ever.
\<close>

theorem minted_token_accepted_iff:
  assumes "codec_ok env (act_payload who sid now ttl)"
  shows "(verifyACT env now' (buildACT env now who sid key ttl) who' sid' key' = Some ActValid \<longleftrightarrow>
      hmac64 env key (encode_json env (act_payload who sid now ttl)) =
        hmac64 env key' (encode_json env (act_payload who sid now ttl)) \<and>
      to_lower (trim who) = to_lower (trim who') \<and> sid = sid' \<and> now' \<le> now + ttl) \<and>
    (\<forall>v. codec_ok env v \<longrightarrow> field v ''expiry'' = JUndef \<longrightarrow> field v ''session_id'' = JStr sid \<longrightarrow> field v ''actor'' = JStr who \<longrightarrow>
      verifyACT env now' (''act_v1.'' @ encode_json env v @ ''.'' @ hmac64 env key (encode_json env v)) who sid key
        = Some ActValid)"
proof (intro conjI allI impI)
  show "verifyACT env now' (buildACT env now who sid key ttl) who' sid' key' = Some ActValid \<longleftrightarrow>
      hmac64 env key (encode_json env (act_payload who sid now ttl)) =
        hmac64 env key' (encode_json env (act_payload who sid now ttl)) \<and>
      to_lower (trim who) = to_lower (trim who') \<and> sid = sid' \<and> now' \<le> now + ttl"
    unfolding verify_built [OF assms] by (auto simp: Let_def split: if_splits)
next
  fix v
  assume ok: "codec_ok env v" and v: "field v ''expiry'' = JUndef" "field v ''session_id'' = JStr sid" "field v ''actor'' = JStr who"
  let ?p = "encode_json env v"
  let ?s = "hmac64 env key ?p"
  have dots: "CHR ''.'' \<notin> set ?p" "CHR ''.'' \<notin> set ?s" and ascii: "\<not> list_ex (\<lambda>c. of_char c \<ge> (128 :: nat)) ?s"
    and dec: "decode_json env ?p = Some v"
    using ok by (auto simp: codec_ok_def list_ex_iff not_le)
  have split: "split_on (CHR ''.'') (''act_v1'' @ CHR ''.'' # (?p @ CHR ''.'' # ?s)) = [''act_v1'', ?p, ?s]"
    by (subst split_on_append, simp) (simp add: split_on_append split_on_none dots)
  have start: "starts_with (''act_v1'' @ CHR ''.'' # t) ''act_v1.''" for t by (simp add: starts_with_iff)
  have claims: "verify_claims env now' v who sid = Some ActValid" and "v \<noteq> JNull"
    using v by (simp_all add: verify_claims_def Let_def coalesce_def canonical_actor_def) (auto simp: field_def)
  then have "verifyACT env now' (''act_v1'' @ CHR ''.'' # (?p @ CHR ''.'' # ?s)) who sid key = Some ActValid"
    unfolding verifyACT_def split using ascii by (simp add: start Let_def dec)
  then show "verifyACT env now' (''act_v1.'' @ ?p @ ''.'' @ ?s) who sid key = Some ActValid" by simp
qed

definition small_codec :: token_env where
  "small_codec =
     \<lparr> encode_json = \<lambda>v. ''p'', decode_json = \<lambda>t. Some (act_payload ''arif'' ''s1'' 0 1000), hmac64 = \<lambda>k t. if k = ''k1'' then ''s'' else ''t'',
       token_runtime = \<lparr> sha256 = \<lambda>t. t, number_text = \<lambda>n. [], get_time = \<lambda>t. 0 \<rparr> \<rparr>"

theorem minted_token_accepted_iff_witness:
  "verifyACT small_codec 1000 (buildACT small_codec 0 ''arif'' ''s1'' ''k1'' 1000) ''ARIF '' ''s1'' ''k1'' = Some ActValid \<and>
   verifyACT small_codec 1001 (buildACT small_codec 0 ''arif'' ''s1'' ''k1'' 1000) ''arif'' ''s1'' ''k1'' \<noteq> Some ActValid"
proof -
  have ok: "codec_ok small_codec (act_payload ''arif'' ''s1'' 0 1000)"
    by (simp add: codec_ok_def small_codec_def)
  have "to_lower (trim ''arif'') = to_lower (trim ''ARIF '')" by code_simp
  then show ?thesis
    using minted_token_accepted_iff [OF ok, of 1000 "''k1''" "''ARIF ''" "''s1''" "''k1''"]
      minted_token_accepted_iff [OF ok, of 1001 "''k1''" "''arif''" "''s1''" "''k1''"] by simp
qed

section \<open>What the hash of the arguments covers\<close>

lemma restrict_fields_keys: "(k, v) \<in> set (restrict_fields ks kvs) \<Longrightarrow> k \<in> fst ` set kvs"
  by (induction kvs) (auto split: if_splits)

lemma restrict_disjoint:
  assumes "set (map fst kvs) \<inter> set ks = {}"
  shows "restrict_keys ks (JObj kvs) = JObj []"
proof -
  have "map_of (restrict_fields ks kvs) k = None" if "k \<in> set ks" for k
  proof (cases "map_of (restrict_fields ks kvs) k")
    case (Some v)
    then have "k \<in> fst ` set kvs" by (intro restrict_fields_keys [of k v ks]) (rule map_of_SomeD)
    then show ?thesis using that assms by auto
  qed
  then show ?thesis by (simp add: Let_def)
qed

text \<open>
  The hash of the arguments, kept to detect tampering, does not cover nested objects: fields of
  a nested object whose names are no names of top-level arguments can be changed, added and
  removed without changing the hash.
\<close>

theorem nested_arguments_unhashed:
  assumes "(set (map fst kvs) \<union> set (map fst kvs')) \<inter> set (k # map fst others) = {}"
  shows "hashArguments rt (JObj ((k, JObj kvs) # others)) = hashArguments rt (JObj ((k, JObj kvs') # others))"
proof -
  let ?ks = "sort (k # map fst others)"
  have "restrict_keys ?ks (JObj kvs) = JObj []" "restrict_keys ?ks (JObj kvs') = JObj []"
    using assms by (intro restrict_disjoint; simp only: set_sort set_simps; blast)+
  then have "restrict_keys ?ks (JObj ((k, JObj kvs) # others)) = restrict_keys ?ks (JObj ((k, JObj kvs') # others))"
    by (simp only: restrict_keys.simps restrict_fields.simps json.distinct if_False)
  then show ?thesis
    unfolding hashArguments_def stringify_keys_def own_keys_def absent_def by simp
qed

theorem nested_arguments_unhashed_witness:
  "hashArguments (token_runtime small_codec) (JObj [(''file'', JObj [(''path'', JStr ''/tmp/a'')])]) =
   hashArguments (token_runtime small_codec) (JObj [(''file'', JObj [(''path'', JStr ''/etc/shadow'')])])"
  by (rule nested_arguments_unhashed) simp

end
