(* ===== verification/Policy_Gate.thy ===== *)
theory Policy_Gate
  imports Act_Token
begin

text \<open>
  The policy gate between agents and MCP tools: the class \<^verbatim>\<open>McpPolicyGate\<close> of
  \<^verbatim>\<open>src/src/domain/governance/McpPolicyGate.ts\<close>, with the verified sessions, the policies
  and the layered \<^verbatim>\<open>evaluate\<close>.

  The arguments of a request are a JSON value, \<^term>\<open>JUndef\<close> when they are missing. Policies hold
  the texts of their regular expressions; \<open>re_test\<close> is the expression engine, \<^term>\<open>None\<close> for an
  expression it rejects. The audit log is the list of the verdicts written; whether the file
  can be written is an argument. Timestamps are left out, a reason is a constructor that
  stands for its text.
\<close>

section \<open>Principals and policies\<close>

datatype policy_verdict = ALLOW | DENY | AUDIT_LOG

datatype principal_source = VerifiedSession | ClientSupplied | TransportFallback

datatype authority = OBSERVE_ONLY | LIMITED_MUTATE | FULL

record principal =
  pr_actorId :: "string option"
  pr_displayLabel :: string
  pr_source :: principal_source
  pr_authenticated :: bool
  pr_authority :: authority

record argument_constraint =
  ac_path :: string
  ac_regex :: string

record tool_policy =
  tp_deny :: bool
  tp_allow_pattern :: "string option"
  tp_deny_tools :: "string list option"
  tp_argument_constraints :: "argument_constraint list"

record server_policy =
  sp_allow :: bool
  sp_tools :: "(string \<times> tool_policy) list"
  sp_default_tool_policy :: "tool_policy option"

record mcp_policy =
  mp_policy_id :: string
  mp_actor_id :: string
  mp_allow_by_default :: bool
  mp_allowed_mcp_servers :: "(string \<times> server_policy) list option"
  mp_denied_mcp_servers :: "string list option"
  mp_max_requests_per_minute :: "int option"

record tool_call_request =
  rq_actor_id :: "string option"
  rq_tool_name :: string
  rq_arguments :: json
  rq_session_id :: "string option"
  rq_aae :: "aae_v1 option"
  rq_organ_secret :: "string option"

definition authorityPermits :: "authority \<Rightarrow> action_class \<Rightarrow> string \<Rightarrow> bool" where
  "authorityPermits authority cls toolName =
     (if cls = EXECUTE_REVERSIBLE \<and> starts_with toolName ''forge_'' then True
      else (case authority of
        OBSERVE_ONLY \<Rightarrow> cls \<in> {OBSERVE, SUGGEST, SIMULATE}
      | LIMITED_MUTATE \<Rightarrow> cls \<noteq> EXECUTE_HIGH_IMPACT \<and> cls \<noteq> IRREVERSIBLE
      | FULL \<Rightarrow> True))"

section \<open>Verdicts\<close>

datatype tool_reason =
    NoServerPolicy | ToolHardDeny | ToolExplicitAllow | DefaultToolPolicy | AllowByDefault | ToolNotInAllowlist

datatype policy_reason =
    L1_EmptyActor | L1_Anonymous | L1_Spoofing | L1_Unverified
  | L1_MissingSecret | L1_Replay verify_reason | L1_Aae verify_reason | L1_ActorMismatch
  | L1_Authority | L1_Channel
  | L2_Server | L3_Tool tool_reason
  | L4_ArgumentsMissing | L4_ArgumentsMalformed | L4_Violation string string string | L4_InvalidRegex string
  | L4b_UnknownTool
  | L5_Replay "nonce_reason option" | L5_NeedIrreversible | L5_NeedHighImpact | L5_NeedJudgment

record layer_flags =
  ly_identity :: bool
  ly_server :: bool
  ly_tool :: bool
  ly_argument :: bool

record verdict_result =
  pv_verdict :: policy_verdict
  pv_actor_id :: string
  pv_principal :: principal
  pv_policy_id :: string
  pv_mcp_server :: string
  pv_tool_name :: string
  pv_layers :: layer_flags
  pv_reasons :: "policy_reason list"
  pv_violated_regex :: "(string \<times> string \<times> string) list"
  pv_args_hash :: "string option"
  pv_args_snapshot :: "string option"
  pv_args_present :: bool

record policy_gate =
  pg_policies :: "(string, mcp_policy) jsmap"
  pg_defaultPolicy :: mcp_policy
  pg_verifiedSessions :: "(string, string \<times> int) jsmap"
  pg_nonceStore :: nonce_store
  pg_audit :: "verdict_result list"
  pg_pinnedCommit :: "string option"
  pg_pinViolation :: bool

section \<open>Sessions and policies\<close>

definition registerVerifiedSession ::
  "token_env \<Rightarrow> int \<Rightarrow> string \<Rightarrow> string \<Rightarrow> string option \<Rightarrow> string option \<Rightarrow> policy_gate \<Rightarrow> bool option \<times> policy_gate" where
  "registerVerifiedSession env now sid who act secret g =
     (case (js_or act None, js_or secret None) of
        (Some a, Some s) \<Rightarrow>
          (case verifyACT env now a who sid s of
             None \<Rightarrow> (None, g)
           | Some ActValid \<Rightarrow> (Some True, g\<lparr>pg_verifiedSessions := m_set sid (who, now) (pg_verifiedSessions g)\<rparr>)
           | Some _ \<Rightarrow> (Some False, g))
      | _ \<Rightarrow> (Some False, g))"

definition setActor :: "int \<Rightarrow> string \<Rightarrow> policy_gate \<Rightarrow> policy_gate" where
  "setActor now who g =
     g\<lparr>pg_verifiedSessions := m_set ''__legacy_active'' (who, now) (pg_verifiedSessions g)\<rparr>"

definition registerKernelVerifiedSession :: "int \<Rightarrow> string \<Rightarrow> string \<Rightarrow> policy_gate \<Rightarrow> policy_gate" where
  "registerKernelVerifiedSession now sid who g =
     g\<lparr>pg_verifiedSessions := m_set sid (who, now) (pg_verifiedSessions g)\<rparr>"

definition hasVerifiedSession :: "string \<Rightarrow> policy_gate \<Rightarrow> bool" where
  "hasVerifiedSession sid g = m_has (pg_verifiedSessions g) sid"

definition addPolicy :: "mcp_policy \<Rightarrow> policy_gate \<Rightarrow> policy_gate" where
  "addPolicy p g = g\<lparr>pg_policies := m_set (mp_policy_id p) p (pg_policies g)\<rparr>"

text \<open>\<^term>\<open>None\<close> is the error that the default policy cannot be removed.\<close>

definition removePolicy :: "string \<Rightarrow> policy_gate \<Rightarrow> policy_gate option" where
  "removePolicy i g =
     (if i = ''default:sovereign'' then None else Some (g\<lparr>pg_policies := m_delete i (pg_policies g)\<rparr>))"

definition list_policies :: "policy_gate \<Rightarrow> mcp_policy list" where
  "list_policies g = m_values (pg_policies g)"

definition get_policy :: "string \<Rightarrow> policy_gate \<Rightarrow> mcp_policy option" where
  "get_policy i g = m_get (pg_policies g) i"

section \<open>Helpers of the evaluation\<close>

definition derivePrincipal :: "tool_call_request \<Rightarrow> policy_gate \<Rightarrow> principal" where
  "derivePrincipal r g =
     (let verified = (\<lambda>who. \<lparr> pr_actorId = Some who, pr_displayLabel = who, pr_source = VerifiedSession,
            pr_authenticated = True, pr_authority = FULL \<rparr>);
          claimed = (\<lambda>who. \<lparr> pr_actorId = Some who, pr_displayLabel = who, pr_source = ClientSupplied,
            pr_authenticated = False, pr_authority = OBSERVE_ONLY \<rparr>) in
      if rq_actor_id r \<in> {Some ''anonymous'', Some '''', Some ''stateless-client''} then
        claimed (if rq_actor_id r = Some '''' then ''(empty)'' else the (rq_actor_id r))
      else
        (case (case js_or (rq_session_id r) None of None \<Rightarrow> None | Some sid \<Rightarrow> m_get (pg_verifiedSessions g) sid) of
           Some (who, t) \<Rightarrow> verified who
         | None \<Rightarrow>
             (case m_get (pg_verifiedSessions g) ''__legacy_active'' of
                Some (who, t) \<Rightarrow> verified who
              | None \<Rightarrow>
                  (case rq_actor_id r of
                     Some who \<Rightarrow> claimed who
                   | None \<Rightarrow> \<lparr> pr_actorId = None, pr_displayLabel = ''stateless-client'',
                       pr_source = TransportFallback, pr_authenticated = False, pr_authority = OBSERVE_ONLY \<rparr>))))"

definition actor_key :: "string \<Rightarrow> string" where
  "actor_key s = to_lower (trim s)"

definition resolvePolicy :: "string \<Rightarrow> policy_gate \<Rightarrow> mcp_policy" where
  "resolvePolicy who g =
     (case find (\<lambda>p. actor_key (mp_actor_id p) = actor_key who) (m_values (pg_policies g)) of
        Some p \<Rightarrow> p
      | None \<Rightarrow> pg_defaultPolicy g)"

definition known_servers :: "string list" where
  "known_servers =
     [''arifos'', ''aforge'', ''forge'', ''geox'', ''wealth'', ''well'', ''aaa'', ''hermes'', ''github'',
      ''postgres'', ''supabase'', ''qdrant'', ''cloudflare'', ''docker'', ''hostinger'', ''minimax'',
      ''brave'', ''perplexity'', ''exa'', ''context7'', ''sequential'', ''playwright'', ''chrome'', ''meyhem'']"

definition extractServerFromTool :: "string \<Rightarrow> string" where
  "extractServerFromTool toolName =
     (if toolName = [] \<or> \<not> str_includes toolName ''_'' then ''unknown''
      else (let prefix = hd (split_on (CHR ''_'') toolName) in
        if prefix \<in> set known_servers then prefix else ''unknown''))"

definition server_entry :: "mcp_policy \<Rightarrow> string \<Rightarrow> server_policy option" where
  "server_entry p server =
     (case mp_allowed_mcp_servers p of None \<Rightarrow> None | Some m \<Rightarrow> map_of m server)"

definition isServerAllowed :: "mcp_policy \<Rightarrow> string \<Rightarrow> bool" where
  "isServerAllowed p server =
     (if (case mp_denied_mcp_servers p of None \<Rightarrow> False | Some ds \<Rightarrow> server \<in> set ds) then False
      else if \<not> mp_allow_by_default p then
        (case server_entry p server of None \<Rightarrow> False | Some sp \<Rightarrow> sp_allow sp)
      else (case server_entry p server of None \<Rightarrow> True | Some sp \<Rightarrow> sp_allow sp))"

definition isToolAllowed :: "mcp_policy \<Rightarrow> string \<Rightarrow> string \<Rightarrow> bool \<times> tool_reason \<times> tool_policy option" where
  "isToolAllowed p server toolName =
     (case server_entry p server of
        None \<Rightarrow> (mp_allow_by_default p, NoServerPolicy, None)
      | Some sp \<Rightarrow>
          if list_ex (\<lambda>(name, tp). name = toolName \<and> tp_deny tp) (sp_tools sp) then (False, ToolHardDeny, None)
          else
            (case map_of (sp_tools sp) toolName of
               Some tp \<Rightarrow> (True, ToolExplicitAllow, Some tp)
             | None \<Rightarrow>
                 (case sp_default_tool_policy sp of
                    Some tp \<Rightarrow> (True, DefaultToolPolicy, Some tp)
                  | None \<Rightarrow>
                      if mp_allow_by_default p then (True, AllowByDefault, None)
                      else (False, ToolNotInAllowlist, None))))"

text \<open>\<^verbatim>\<open>acc[key]\<close> on the values a path can meet: fields, indices and lengths.\<close>

definition digit_value :: "char \<Rightarrow> nat option" where
  "digit_value c = (let n = of_char c in if 48 \<le> n \<and> n \<le> 57 then Some (n - 48) else None)"

fun index_from :: "nat \<Rightarrow> string \<Rightarrow> nat option" where
  "index_from n [] = Some n"
| "index_from n (c # cs) = (case digit_value c of None \<Rightarrow> None | Some d \<Rightarrow> index_from (10 * n + d) cs)"

definition index_of_key :: "string \<Rightarrow> nat option" where
  "index_of_key k =
     (if k = [] \<or> (hd k = CHR ''0'' \<and> length k > 1) then None else index_from 0 k)"

definition member :: "json \<Rightarrow> string \<Rightarrow> json" where
  "member v k =
     (let get = (\<lambda>n item. if k = ''length'' then JNum (of_nat n)
                 else (case index_of_key k of Some i \<Rightarrow> if i < n then item i else JUndef | None \<Rightarrow> JUndef)) in
      case v of
        JObj kvs \<Rightarrow> field v k
      | JArr xs \<Rightarrow> get (length xs) (\<lambda>i. xs ! i)
      | JStr s \<Rightarrow> get (length s) (\<lambda>i. JStr [s ! i])
      | _ \<Rightarrow> JUndef)"

definition getValueAtPath :: "json \<Rightarrow> string \<Rightarrow> json" where
  "getValueAtPath v path =
     fold (\<lambda>key acc. if absent acc then JUndef else member acc key) (split_on (CHR ''.'') path) v"

definition value_text :: "runtime \<Rightarrow> json \<Rightarrow> string" where
  "value_text rt v = (if v = JNull then ''null'' else join_text rt v)"

text \<open>The reasons and the violations of the constraints, in their order.\<close>

fun check_constraints ::
  "runtime \<Rightarrow> (string \<Rightarrow> string \<Rightarrow> bool option) \<Rightarrow> json \<Rightarrow> argument_constraint list \<Rightarrow>
   policy_reason list \<times> (string \<times> string \<times> string) list" where
  "check_constraints rt re_test v [] = ([], [])"
| "check_constraints rt re_test v (c # cs) =
     (let (rs, vs) = check_constraints rt re_test v cs; value = getValueAtPath v (ac_path c); s = value_text rt value in
      if value = JUndef then (rs, vs)
      else
        (case re_test (ac_regex c) s of
           None \<Rightarrow> (L4_InvalidRegex (ac_path c) # rs, vs)
         | Some True \<Rightarrow> (rs, vs)
         | Some False \<Rightarrow>
             (L4_Violation (ac_path c) s (ac_regex c) # rs, (ac_path c, ac_regex c, s) # vs)))"

definition CHATGPT_DENIED_TOOLS :: "string list" where
  "CHATGPT_DENIED_TOOLS =
     [''forge_vault'', ''forge_shell'', ''forge_shell_dryrun'', ''forge_security_drift_scan'', ''forge_journalctl'',
      ''forge_vps_ports'', ''forge_vps_services'', ''forge_vps_cron'', ''forge_probe'', ''forge_netdata_alarms'',
      ''forge_netdata_metrics'']"

definition channel_denied :: "principal \<Rightarrow> string \<Rightarrow> bool" where
  "channel_denied pr toolName \<longleftrightarrow>
     pr_source pr = ClientSupplied \<and> pr_displayLabel pr = ''chatgpt-arif'' \<and>
     list_ex (\<lambda>dt. toolName = dt \<or> starts_with toolName (dt @ ''_'')) CHATGPT_DENIED_TOOLS"

section \<open>The layers\<close>

text \<open>A layer denies with a reason (\<^term>\<open>Inl\<close>) or passes.\<close>

text \<open>Layer 1: the caveats it adds and whether it sets the identity flag.\<close>

definition layer_identity :: "tool_call_request \<Rightarrow> principal \<Rightarrow> policy_reason + (policy_reason list \<times> bool)" where
  "layer_identity r pr =
     (if \<not> pr_authenticated pr then
        (if rq_actor_id r = Some '''' then Inl L1_EmptyActor
         else if rq_actor_id r = Some ''anonymous'' then Inl L1_Anonymous
         else if pr_source pr = ClientSupplied \<and> rq_actor_id r = Some ''stateless-client'' then Inl L1_Spoofing
         else if pr_source pr = TransportFallback then Inr ([], True)
         else if pr_source pr = ClientSupplied \<and> \<not> falsy (rq_actor_id r) then Inr ([L1_Unverified], True)
         else Inr ([], False))
      else Inr ([], True))"

text \<open>Layer 1b: the nonce store after it and whether the nonce was verified.\<close>

definition layer_aae ::
  "(string \<Rightarrow> aae_body \<Rightarrow> string) \<Rightarrow> int \<Rightarrow> tool_call_request \<Rightarrow> principal \<Rightarrow> nonce_store \<Rightarrow>
   (policy_reason + bool) \<times> nonce_store" where
  "layer_aae mac now r pr ns =
     (case rq_aae r of
        None \<Rightarrow> (Inr False, ns)
      | Some aae \<Rightarrow>
          (case js_or (rq_organ_secret r) None of
             None \<Rightarrow> (Inl L1_MissingSecret, ns)
           | Some secret \<Rightarrow>
               let (res, store) = verifyAAE mac now aae secret (Some ns); ns1 = the store in
               if \<not> vr_valid res then
                 (Inl (if vr_replay_detected res then L1_Replay (vr_reason res) else L1_Aae (vr_reason res)), ns1)
               else if Some (ae_actor_id aae) \<noteq> pr_actorId pr then (Inl L1_ActorMismatch, ns1)
               else (Inr True, ns1)))"

definition layer_arguments ::
  "runtime \<Rightarrow> (string \<Rightarrow> string \<Rightarrow> bool option) \<Rightarrow> json \<Rightarrow> tool_policy option \<Rightarrow>
   policy_reason list \<times> (string \<times> string \<times> string) list" where
  "layer_arguments rt re_test v tp =
     (if absent v then ([L4_ArgumentsMissing], [])
      else if (case v of JObj _ \<Rightarrow> False | _ \<Rightarrow> True) then ([L4_ArgumentsMalformed], [])
      else (case tp of None \<Rightarrow> ([], []) | Some p \<Rightarrow> check_constraints rt re_test v (tp_argument_constraints p)))"

definition layer_action_class ::
  "int \<Rightarrow> action_class \<Rightarrow> bool \<Rightarrow> aae_v1 option \<Rightarrow> nonce_store \<Rightarrow> policy_reason option \<times> nonce_store" where
  "layer_action_class now toolClass nonceVerified aae ns =
     (case aae of
        None \<Rightarrow> (None, ns)
      | Some e \<Rightarrow>
          let (replay, ns1) = (if ae_nonce e \<noteq> [] \<and> \<not> nonceVerified
                 then map_prod Some (\<lambda>s. s) (checkAndRecord now (ae_nonce e) ns) else (None, ns));
              cls = ae_action_class e in
          if (case replay of Some nr \<Rightarrow> nr_replay nr | None \<Rightarrow> False)
          then (Some (L5_Replay (nr_reason (the replay))), ns1)
          else if toolClass = IRREVERSIBLE \<and> cls \<noteq> IRREVERSIBLE then (Some L5_NeedIrreversible, ns1)
          else if toolClass = EXECUTE_HIGH_IMPACT \<and> cls \<noteq> EXECUTE_HIGH_IMPACT \<and> cls \<noteq> IRREVERSIBLE
          then (Some L5_NeedHighImpact, ns1)
          else if (cls = EXECUTE_HIGH_IMPACT \<or> cls = IRREVERSIBLE) \<and> falsy (ae_judgment_reference e)
          then (Some L5_NeedJudgment, ns1)
          else (None, ns1))"

section \<open>The evaluation\<close>

definition request_mode :: "tool_call_request \<Rightarrow> string option" where
  "request_mode r = (case field (rq_arguments r) ''mode'' of JStr m \<Rightarrow> Some m | _ \<Rightarrow> None)"

abbreviation flags :: "bool \<Rightarrow> bool \<Rightarrow> bool \<Rightarrow> bool \<Rightarrow> layer_flags" where
  "flags i s t a \<equiv> \<lparr> ly_identity = i, ly_server = s, ly_tool = t, ly_argument = a \<rparr>"

type_synonym judgement =
  "policy_verdict \<times> layer_flags \<times> policy_reason list \<times> (string \<times> string \<times> string) list \<times> nonce_store"

definition judge_request ::
  "runtime \<Rightarrow> (string \<Rightarrow> aae_body \<Rightarrow> string) \<Rightarrow> int \<Rightarrow> (string \<Rightarrow> string \<Rightarrow> bool option) \<Rightarrow> tool_call_request \<Rightarrow>
   principal \<Rightarrow> mcp_policy \<Rightarrow> nonce_store \<Rightarrow> judgement" where
  "judge_request rt mac now re_test r pr policy ns =
     (let tool = rq_tool_name r; server = extractServerFromTool tool;
          cls = classifyTool tool (request_mode r) in
      case layer_identity r pr of
        Inl why \<Rightarrow> (DENY, flags False False False False, [why], [], ns)
      | Inr (rs, idn) \<Rightarrow>
          (case layer_aae mac now r pr ns of
             (Inl why, ns1) \<Rightarrow> (DENY, flags idn False False False, rs @ [why], [], ns1)
           | (Inr nonceOk, ns1) \<Rightarrow>
               if \<not> authorityPermits (pr_authority pr) cls tool then
                 (DENY, flags idn False False False, rs @ [L1_Authority], [], ns1)
               else if channel_denied pr tool then
                 (DENY, flags idn False False False, rs @ [L1_Channel], [], ns1)
               else if \<not> isServerAllowed policy server then
                 (DENY, flags idn False False False, rs @ [L2_Server], [], ns1)
               else
                 (case isToolAllowed policy server tool of (ok, why, tp) \<Rightarrow>
                   if \<not> ok then (DENY, flags idn True False False, rs @ [L3_Tool why], [], ns1)
                   else
                     (case layer_arguments rt re_test (rq_arguments r) tp of (ars, viol) \<Rightarrow>
                       if ars \<noteq> [] then (DENY, flags idn True True False, rs @ ars, viol, ns1)
                       else if \<not> isClassifiedTool tool then
                         (DENY, flags idn True True True, rs @ [L4b_UnknownTool], viol, ns1)
                       else
                         (case layer_action_class now cls nonceOk (rq_aae r) ns1 of
                            (Some why, ns2) \<Rightarrow> (DENY, flags idn True True True, rs @ [why], viol, ns2)
                          | (None, ns2) \<Rightarrow> (ALLOW, flags idn True True True, rs, viol, ns2))))))"

definition evaluate ::
  "runtime \<Rightarrow> (string \<Rightarrow> aae_body \<Rightarrow> string) \<Rightarrow> int \<Rightarrow> (string \<Rightarrow> string \<Rightarrow> bool option) \<Rightarrow> bool \<Rightarrow>
   tool_call_request \<Rightarrow> policy_gate \<Rightarrow> verdict_result \<times> policy_gate" where
  "evaluate rt mac now re_test writable r g =
     (let pr = derivePrincipal r g;
          policy = resolvePolicy (case pr_actorId pr of Some a \<Rightarrow> a | None \<Rightarrow> pr_displayLabel pr) g;
          (v, fl, rs, viol, ns) = judge_request rt mac now re_test r pr policy (pg_nonceStore g);
          res = \<lparr> pv_verdict = v, pv_actor_id = pr_displayLabel pr, pv_principal = pr,
                  pv_policy_id = mp_policy_id policy, pv_mcp_server = extractServerFromTool (rq_tool_name r),
                  pv_tool_name = rq_tool_name r, pv_layers = fl, pv_reasons = rs, pv_violated_regex = viol,
                  pv_args_hash = hashArguments rt (rq_arguments r),
                  pv_args_snapshot = snapshotArguments rt (rq_arguments r),
                  pv_args_present = (\<not> absent (rq_arguments r)) \<rparr> in
      (res, g\<lparr> pg_nonceStore := ns, pg_audit := pg_audit g @ (if writable then [res] else []) \<rparr>))"

section \<open>What an allowed call has passed\<close>

definition policy_for :: "tool_call_request \<Rightarrow> policy_gate \<Rightarrow> mcp_policy" where
  "policy_for r g =
     (let pr = derivePrincipal r g in
      resolvePolicy (case pr_actorId pr of Some a \<Rightarrow> a | None \<Rightarrow> pr_displayLabel pr) g)"

definition identity_ok :: "tool_call_request \<Rightarrow> bool" where
  "identity_ok r \<longleftrightarrow> rq_actor_id r \<notin> {Some ''anonymous'', Some [], Some ''stateless-client''}"

definition class_covers :: "action_class \<Rightarrow> aae_v1 \<Rightarrow> bool" where
  "class_covers tc e \<longleftrightarrow>
     (tc = IRREVERSIBLE \<longrightarrow> ae_action_class e = IRREVERSIBLE) \<and>
     (tc = EXECUTE_HIGH_IMPACT \<longrightarrow> ae_action_class e \<in> {EXECUTE_HIGH_IMPACT, IRREVERSIBLE}) \<and>
     (ae_action_class e \<in> {EXECUTE_HIGH_IMPACT, IRREVERSIBLE} \<longrightarrow> \<not> falsy (ae_judgment_reference e))"

definition envelope_valid ::
  "(string \<Rightarrow> aae_body \<Rightarrow> string) \<Rightarrow> int \<Rightarrow> tool_call_request \<Rightarrow> principal \<Rightarrow> nonce_store \<Rightarrow> bool" where
  "envelope_valid mac now r pr ns \<longleftrightarrow>
     (case rq_aae r of
        None \<Rightarrow> True
      | Some e \<Rightarrow>
          (\<exists>secret. rq_organ_secret r = Some secret \<and> secret \<noteq> [] \<and>
             vr_valid (fst (verifyAAE mac now e secret (Some ns)))) \<and>
          pr_actorId pr = Some (ae_actor_id e))"

definition constraints_hold ::
  "runtime \<Rightarrow> (string \<Rightarrow> string \<Rightarrow> bool option) \<Rightarrow> json \<Rightarrow> argument_constraint list \<Rightarrow> bool" where
  "constraints_hold rt re_test v cs \<longleftrightarrow>
     list_all (\<lambda>c. getValueAtPath v (ac_path c) = JUndef \<or>
        re_test (ac_regex c) (value_text rt (getValueAtPath v (ac_path c))) = Some True) cs"

definition arguments_pass ::
  "runtime \<Rightarrow> (string \<Rightarrow> string \<Rightarrow> bool option) \<Rightarrow> json \<Rightarrow> tool_policy option \<Rightarrow> bool" where
  "arguments_pass rt re_test v tp \<longleftrightarrow>
     (\<exists>kvs. v = JObj kvs) \<and>
     (case tp of None \<Rightarrow> True | Some p \<Rightarrow> constraints_hold rt re_test v (tp_argument_constraints p))"

lemma check_constraints_nil:
  "fst (check_constraints rt re_test v cs) = [] \<longleftrightarrow> constraints_hold rt re_test v cs"
  by (induction cs) (auto simp: constraints_hold_def Let_def split: prod.splits option.splits bool.splits)

lemma layer_arguments_nil:
  "fst (layer_arguments rt re_test v tp) = [] \<longleftrightarrow> arguments_pass rt re_test v tp"
  by (cases v) (auto simp: layer_arguments_def arguments_pass_def absent_def check_constraints_nil split: option.split)

lemma identity_passes:
  "(\<exists>x. layer_identity r (derivePrincipal r g) = Inr x) \<longleftrightarrow> identity_ok r"
  by (auto simp: layer_identity_def identity_ok_def derivePrincipal_def Let_def split: option.splits)

lemma aae_passes:
  "(\<exists>ok ns1. layer_aae mac now r pr ns = (Inr ok, ns1)) \<longleftrightarrow> envelope_valid mac now r pr ns"
  by (auto simp: layer_aae_def envelope_valid_def Let_def js_or_def falsy_def split: option.splits prod.splits)

lemma aae_verified:
  "layer_aae mac now r pr ns = (Inr ok, ns1) \<Longrightarrow> rq_aae r \<noteq> None \<Longrightarrow> ok"
  by (auto simp: layer_aae_def Let_def split: option.splits prod.splits if_splits)

lemma class_passes:
  assumes "aae \<noteq> None \<Longrightarrow> ok"
  shows "fst (layer_action_class now tc ok aae ns) = None \<longleftrightarrow>
    (case aae of None \<Rightarrow> True | Some e \<Rightarrow> class_covers tc e)"
  using assms by (cases aae) (auto simp: layer_action_class_def class_covers_def Let_def)

definition policy_passes ::
  "runtime \<Rightarrow> (string \<Rightarrow> string \<Rightarrow> bool option) \<Rightarrow> tool_call_request \<Rightarrow> mcp_policy \<Rightarrow> bool" where
  "policy_passes rt re_test r policy \<longleftrightarrow>
     (let server = extractServerFromTool (rq_tool_name r) in
      isServerAllowed policy server \<and>
      fst (isToolAllowed policy server (rq_tool_name r)) \<and>
      arguments_pass rt re_test (rq_arguments r) (snd (snd (isToolAllowed policy server (rq_tool_name r)))))"

lemma judge_allows:
  "fst (judge_request rt mac now re_test r (derivePrincipal r g) policy ns) = ALLOW \<longleftrightarrow>
    identity_ok r \<and> envelope_valid mac now r (derivePrincipal r g) ns \<and>
    authorityPermits (pr_authority (derivePrincipal r g)) (classifyTool (rq_tool_name r) (request_mode r)) (rq_tool_name r) \<and>
    \<not> channel_denied (derivePrincipal r g) (rq_tool_name r) \<and> policy_passes rt re_test r policy \<and>
    isClassifiedTool (rq_tool_name r) \<and>
    (case rq_aae r of None \<Rightarrow> True | Some e \<Rightarrow> class_covers (classifyTool (rq_tool_name r) (request_mode r)) e)"
proof -
  let ?pr = "derivePrincipal r g"
  let ?tc = "classifyTool (rq_tool_name r) (request_mode r)"
  show ?thesis
  proof (cases "layer_identity r ?pr")
    case (Inl why)
    then have "\<not> identity_ok r" using identity_passes [of r g] by auto
    then show ?thesis using Inl by (simp add: judge_request_def Let_def)
  next
    case (Inr rs)
    then have idn: "identity_ok r" using identity_passes [of r g] by auto
    obtain out ns1 where aae: "layer_aae mac now r ?pr ns = (out, ns1)" by fastforce
    show ?thesis
    proof (cases out)
      case (Inl why)
      then have "\<not> envelope_valid mac now r ?pr ns" using aae aae_passes [of mac now r ?pr ns] by auto
      then show ?thesis using Inl Inr aae by (simp add: judge_request_def Let_def split: prod.split)
    next
      case ok: (Inr ok)
      then have env: "envelope_valid mac now r ?pr ns" using aae aae_passes [of mac now r ?pr ns] by auto
      have cls: "fst (layer_action_class now ?tc ok (rq_aae r) ns1) = None \<longleftrightarrow>
          (case rq_aae r of None \<Rightarrow> True | Some e \<Rightarrow> class_covers ?tc e)"
        by (rule class_passes) (use aae ok aae_verified in blast)
      obtain tok why tp where tool: "isToolAllowed policy (extractServerFromTool (rq_tool_name r)) (rq_tool_name r) = (tok, why, tp)"
        by (metis prod.exhaust)
      obtain ars viol where args: "layer_arguments rt re_test (rq_arguments r) tp = (ars, viol)" by fastforce
      obtain res ns2 where last: "layer_action_class now ?tc ok (rq_aae r) ns1 = (res, ns2)" by fastforce
      have "ars = [] \<longleftrightarrow> arguments_pass rt re_test (rq_arguments r) tp"
        using layer_arguments_nil [of rt re_test "rq_arguments r" tp] args by simp
      moreover have "res = None \<longleftrightarrow> (case rq_aae r of None \<Rightarrow> True | Some e \<Rightarrow> class_covers ?tc e)"
        using cls last by simp
      ultimately show ?thesis
        unfolding judge_request_def policy_passes_def Let_def Inr aae ok
        using idn env by (cases rs; cases res) (simp_all add: tool args last)
    qed
  qed
qed

section \<open>The policies that are built in\<close>

abbreviation tool_rule :: "bool \<Rightarrow> argument_constraint list \<Rightarrow> tool_policy" where
  "tool_rule deny cs \<equiv>
     \<lparr> tp_deny = deny, tp_allow_pattern = None, tp_deny_tools = None, tp_argument_constraints = cs \<rparr>"

abbreviation server_rule :: "(string \<times> tool_policy) list \<Rightarrow> server_policy" where
  "server_rule tools \<equiv> \<lparr> sp_allow = True, sp_tools = tools, sp_default_tool_policy = None \<rparr>"

definition organ_names :: "string list" where
  "organ_names =
     [''forge'', ''arifos'', ''geox'', ''wealth'', ''well'', ''aaa'', ''hermes'', ''github'',
      ''postgres'', ''supabase'', ''qdrant'', ''cloudflare'', ''docker'', ''hostinger'', ''minimax'', ''brave'',
      ''perplexity'', ''exa'', ''context7'', ''sequential'', ''playwright'', ''chrome'', ''meyhem'']"

definition buildDefaultSovereignPolicy :: mcp_policy where
  "buildDefaultSovereignPolicy =
     \<lparr> mp_policy_id = ''default:sovereign'', mp_actor_id = ''arif'', mp_allow_by_default = True,
       mp_allowed_mcp_servers = Some (map (\<lambda>n. (n, server_rule [])) organ_names),
       mp_denied_mcp_servers = Some [], mp_max_requests_per_minute = None \<rparr>"

definition CHATGPT_HARD_DENIED :: "argument_constraint list" where
  "CHATGPT_HARD_DENIED =
     [\<lparr> ac_path = ''command'', ac_regex = ''^(?!.*(?:/root/'' @ [CHR 0x5C] @ ''.secrets/|/etc/shadow|/etc/passwd|VAULT999|'' @ [CHR 0x5C] @ ''.secrets/|aws.*--secret|gh auth login))'' \<rparr>,
         \<lparr> ac_path = ''path'', ac_regex = ''^(?!/root/'' @ [CHR 0x5C] @ ''.secrets/|/etc/shadow|/etc/passwd|/root/VAULT999|/root/'' @ [CHR 0x5C] @ ''.env)'' \<rparr>,
         \<lparr> ac_path = ''url'', ac_regex = ''^(?!.*(?:'' @ [CHR 0x5C] @ ''.secrets/|vault999|api[_-]?key|secret|password|token))'' \<rparr>,
         \<lparr> ac_path = ''query'', ac_regex = ''^(?!.*(?:/root/'' @ [CHR 0x5C] @ ''.secrets/|VAULT999|api[_-]?key|secret|password|token))'' \<rparr>]"

definition EXAMPLE_POLICIES :: "mcp_policy list" where
  "EXAMPLE_POLICIES =
     [\<lparr> mp_policy_id = ''agent:support-agent'', mp_actor_id = ''support-agent'', mp_allow_by_default = False,
        mp_allowed_mcp_servers = Some [(''forge'', server_rule [(''forge_memory'', tool_rule False []),
           (''forge_search'', tool_rule False []),
           (''forge_registry_status'', tool_rule False []),
           (''forge_probe'', tool_rule False [])]),
        (''postgres'', server_rule [(''postgres_query'', tool_rule False [\<lparr> ac_path = ''sql'', ac_regex = ''^'' @ [CHR 0x5C] @ ''s*SELECT'' @ [CHR 0x5C] @ ''s'' \<rparr>])])],
        mp_denied_mcp_servers = None, mp_max_requests_per_minute = None \<rparr>,
      \<lparr> mp_policy_id = ''agent:sales-agent'', mp_actor_id = ''sales-agent'', mp_allow_by_default = False,
        mp_allowed_mcp_servers = Some [(''forge'', server_rule [(''forge_search'', tool_rule False []),
           (''forge_memory'', tool_rule False [])]),
        (''hermes'', server_rule [(''hermes_send_message'', tool_rule False [\<lparr> ac_path = ''recipient'', ac_regex = ''@(arif-fazil'' @ [CHR 0x5C] @ ''.com|ariffazil'' @ [CHR 0x5C] @ ''.com|partner-corp'' @ [CHR 0x5C] @ ''.com)$'' \<rparr>,
         \<lparr> ac_path = ''subject'', ac_regex = ''^(?!.*(?:urgent|asap|immediately))'' \<rparr>])])],
        mp_denied_mcp_servers = None, mp_max_requests_per_minute = None \<rparr>,
      \<lparr> mp_policy_id = ''agent:forge-worker'', mp_actor_id = ''forge-worker'', mp_allow_by_default = True,
        mp_allowed_mcp_servers = Some [(''forge'', server_rule [(''forge_shell'', tool_rule False [\<lparr> ac_path = ''command'', ac_regex = ''^(?!.*(?:/etc/shadow|/etc/passwd|VAULT999|'' @ [CHR 0x5C] @ ''.secrets/|aws.*--secret|gh auth login))'' \<rparr>]),
           (''forge_filesystem'', tool_rule False [\<lparr> ac_path = ''path'', ac_regex = ''^/(?:root|tmp|data|var/log)/'' \<rparr>]),
           (''forge_vault'', tool_rule False [\<lparr> ac_path = ''mode'', ac_regex = ''^(?:read|list)$'' \<rparr>]),
           (''forge_seal'', tool_rule True []),
           (''forge_register'', tool_rule True [])])],
        mp_denied_mcp_servers = Some [], mp_max_requests_per_minute = None \<rparr>,
      \<lparr> mp_policy_id = ''agent:data-scientist'', mp_actor_id = ''data-scientist'', mp_allow_by_default = False,
        mp_allowed_mcp_servers = Some [(''postgres'', server_rule [(''postgres_query'', tool_rule False [\<lparr> ac_path = ''sql'', ac_regex = ''^'' @ [CHR 0x5C] @ ''s*SELECT'' @ [CHR 0x5C] @ ''s'' \<rparr>]),
           (''postgres_describe_table'', tool_rule False [])]),
        (''supabase'', server_rule []),
        (''qdrant'', server_rule []),
        (''forge'', server_rule [(''forge_chart'', tool_rule False []),
           (''forge_memory'', tool_rule False [])])],
        mp_denied_mcp_servers = None, mp_max_requests_per_minute = None \<rparr>,
      \<lparr> mp_policy_id = ''agent:chatgpt-arif'', mp_actor_id = ''chatgpt-arif'', mp_allow_by_default = False,
        mp_allowed_mcp_servers = Some [(''forge'', server_rule [(''forge_health_check'', tool_rule False CHATGPT_HARD_DENIED),
           (''forge_probe'', tool_rule False CHATGPT_HARD_DENIED),
           (''forge_search'', tool_rule False CHATGPT_HARD_DENIED),
           (''forge_minimax_search'', tool_rule False CHATGPT_HARD_DENIED),
           (''forge_filesystem_read'', tool_rule False CHATGPT_HARD_DENIED),
           (''forge_filesystem_tree'', tool_rule False CHATGPT_HARD_DENIED),
           (''forge_filesystem_stat'', tool_rule False CHATGPT_HARD_DENIED),
           (''forge_memory'', tool_rule False CHATGPT_HARD_DENIED),
           (''forge_registry_status'', tool_rule False CHATGPT_HARD_DENIED),
           (''forge_session_init'', tool_rule False CHATGPT_HARD_DENIED)])],
        mp_denied_mcp_servers = None, mp_max_requests_per_minute = None \<rparr>]"

section \<open>Loading\<close>

text \<open>
  The file of policies: missing, unreadable (the read or the parse throws), or its policies and
  pinned commit. \<open>head\<close> is the stamp of the deployed commit, \<open>unpinned\<close> the override.
\<close>

datatype policy_file = NoFile | Unreadable | PolicyFile "mcp_policy list option" "string option"

definition current_head :: "string option \<Rightarrow> string option" where
  "current_head stamp =
     (case stamp of None \<Rightarrow> None
      | Some t \<Rightarrow> let s = trim t in if s \<noteq> [] \<and> s \<noteq> ''UNAVAILABLE'' then Some s else None)"

definition pin_mismatch :: "string option \<Rightarrow> string option \<Rightarrow> bool \<Rightarrow> bool" where
  "pin_mismatch pinned stamp unpinned =
     (case (js_or (map_option trim pinned) None, current_head stamp) of
        (Some p, Some h) \<Rightarrow> \<not> unpinned \<and> take 7 p \<noteq> take 7 h
      | _ \<Rightarrow> False)"

definition loadFromDisk :: "policy_file \<Rightarrow> string option \<Rightarrow> bool \<Rightarrow> policy_gate \<Rightarrow> policy_gate" where
  "loadFromDisk disk stamp unpinned g =
     (case disk of
        PolicyFile ps pinned \<Rightarrow>
          if pin_mismatch pinned stamp unpinned then g\<lparr>pg_pinViolation := True\<rparr>
          else
            (let g1 = (case (js_or (map_option trim pinned) None, current_head stamp) of
                   (Some p, Some h) \<Rightarrow> if unpinned then g else g\<lparr>pg_pinnedCommit := Some (take 7 p)\<rparr>
                 | _ \<Rightarrow> g) in
             fold addPolicy (case ps of None \<Rightarrow> [] | Some l \<Rightarrow> l) g1)
      | _ \<Rightarrow> g)"

definition new_policy_gate :: "nonce_store \<Rightarrow> policy_file \<Rightarrow> string option \<Rightarrow> bool \<Rightarrow> policy_gate" where
  "new_policy_gate ns disk stamp unpinned =
     loadFromDisk disk stamp unpinned
       \<lparr> pg_policies = [(''default:sovereign'', buildDefaultSovereignPolicy)],
         pg_defaultPolicy = buildDefaultSovereignPolicy, pg_verifiedSessions = [], pg_nonceStore = ns,
         pg_audit = [], pg_pinnedCommit = None, pg_pinViolation = False \<rparr>"

definition isPinViolated :: "policy_gate \<Rightarrow> bool" where
  "isPinViolated g = pg_pinViolation g"

text \<open>Saving writes the policies without a pin.\<close>

definition saveToDisk :: "policy_gate \<Rightarrow> policy_file" where
  "saveToDisk g = PolicyFile (Some (list_policies g)) None"

definition getMcpPolicyGate :: "policy_gate option \<Rightarrow> nonce_store \<Rightarrow> policy_file \<Rightarrow> string option \<Rightarrow> bool \<Rightarrow> policy_gate" where
  "getMcpPolicyGate inst ns disk stamp unpinned =
     (case inst of Some g \<Rightarrow> g
      | None \<Rightarrow> fold addPolicy EXAMPLE_POLICIES (new_policy_gate ns disk stamp unpinned))"


section \<open>The layers are non-compensatory\<close>

text \<open>
  C10. The gate allows a call exactly when every layer passes: the claimed identity is not one
  of the refused ones, an envelope (if there is one) verifies under the organ's secret for the
  same actor, the authority of the principal covers the class of the tool, the channel may
  use the tool, the actor's policy admits server, tool and every constrained argument, the
  tool is classified, and the envelope covers the class of the tool with a judgment where one
  is needed. Every verdict is ALLOW or DENY and is appended to the audit log when the log can
  be written; the evaluation changes no policy and no session. The authority of a reversible \<^verbatim>\<open>forge_\<close> tool is
  covered for everyone, so a caller without a verified identity gets ALLOW for \<^verbatim>\<open>forge_shell\<close> (lemma
  \<open>anonymous_shell_allowed\<close>), which the conformance test C-003 of
  \<^verbatim>\<open>src/test/conformance/kernel/authority-gate.test.ts\<close> expects to be denied.
\<close>

theorem call_allowed_iff:
  "let (res, g') = evaluate rt mac now re_test writable r g;
       pr = derivePrincipal r g; cls = classifyTool (rq_tool_name r) (request_mode r) in
   (pv_verdict res = ALLOW \<longleftrightarrow>
      identity_ok r \<and> envelope_valid mac now r pr (pg_nonceStore g) \<and>
      authorityPermits (pr_authority pr) cls (rq_tool_name r) \<and> \<not> channel_denied pr (rq_tool_name r) \<and>
      policy_passes rt re_test r (policy_for r g) \<and> isClassifiedTool (rq_tool_name r) \<and>
      (case rq_aae r of None \<Rightarrow> True | Some e \<Rightarrow> class_covers cls e)) \<and>
   pv_verdict res \<in> {ALLOW, DENY} \<and>
   pg_audit g' = pg_audit g @ (if writable then [res] else []) \<and>
   pg_policies g' = pg_policies g \<and> pg_verifiedSessions g' = pg_verifiedSessions g"
proof -
  obtain v fl rs viol ns where j: "judge_request rt mac now re_test r (derivePrincipal r g) (policy_for r g)
      (pg_nonceStore g) = (v, fl, rs, viol, ns)" by (metis prod.exhaust)
  have v: "v \<in> {ALLOW, DENY}"
    using j by (auto simp: judge_request_def Let_def split: sum.splits prod.splits if_splits option.splits)
  show ?thesis
    using judge_allows [of rt mac now re_test r g "policy_for r g" "pg_nonceStore g"] v j
    unfolding evaluate_def Let_def policy_for_def by (simp del: insert_iff)
qed

lemma allowed_call:
  assumes "pv_verdict (fst (evaluate rt mac now re_test writable r g)) = ALLOW"
  shows "identity_ok r"
    "authorityPermits (pr_authority (derivePrincipal r g)) (classifyTool (rq_tool_name r) (request_mode r)) (rq_tool_name r)"
    "isClassifiedTool (rq_tool_name r)"
proof -
  obtain v fl rs viol ns where j: "judge_request rt mac now re_test r (derivePrincipal r g) (policy_for r g)
      (pg_nonceStore g) = (v, fl, rs, viol, ns)" by (metis prod.exhaust)
  then have "v = ALLOW" using assms unfolding evaluate_def Let_def policy_for_def by simp
  then show "identity_ok r" "isClassifiedTool (rq_tool_name r)"
    "authorityPermits (pr_authority (derivePrincipal r g)) (classifyTool (rq_tool_name r) (request_mode r)) (rq_tool_name r)"
    using judge_allows [of rt mac now re_test r g "policy_for r g" "pg_nonceStore g"] j by simp_all
qed

section \<open>The authority of a session\<close>

definition session_actor :: "tool_call_request \<Rightarrow> policy_gate \<Rightarrow> string option" where
  "session_actor r g =
     (case (case js_or (rq_session_id r) None of None \<Rightarrow> None | Some sid \<Rightarrow> m_get (pg_verifiedSessions g) sid) of
        Some (who, t) \<Rightarrow> Some who
      | None \<Rightarrow> map_option fst (m_get (pg_verifiedSessions g) ''__legacy_active''))"

lemma principal_of_session:
  assumes "identity_ok r"
  shows "pr_authority (derivePrincipal r g) = (if session_actor r g = None then OBSERVE_ONLY else FULL)"
    "session_actor r g = Some who \<Longrightarrow> pr_actorId (derivePrincipal r g) = Some who"
  using assms by (auto simp: derivePrincipal_def session_actor_def identity_ok_def Let_def split: option.splits)

text \<open>
  C13. Authority comes from sessions only: an allowed call whose session is not verified is an
  observation, a suggestion, a simulation or a reversible execution of a \<^verbatim>\<open>forge_\<close> tool, so a
  high-impact or irreversible call needs a verified session. A verified session has full
  authority whoever its actor is, and acts as that actor whatever identity the call claims;
  and once \<^verbatim>\<open>setActor\<close> has been called, every later call that claims no refused identity
  has full authority, with or without a session.
\<close>

theorem authority_comes_from_sessions:
  assumes "pv_verdict (fst (evaluate rt mac now re_test writable r g)) = ALLOW"
  defines "cls \<equiv> classifyTool (rq_tool_name r) (request_mode r)"
  shows "(session_actor r g = None \<longrightarrow>
      cls \<in> {OBSERVE, SUGGEST, SIMULATE} \<or> (cls = EXECUTE_REVERSIBLE \<and> starts_with (rq_tool_name r) ''forge_'')) \<and>
    (cls \<in> {EXECUTE_HIGH_IMPACT, IRREVERSIBLE} \<longrightarrow> session_actor r g \<noteq> None) \<and>
    (\<forall>who. session_actor r g = Some who \<longrightarrow>
      pr_authority (derivePrincipal r g) = FULL \<and> pr_actorId (derivePrincipal r g) = Some who) \<and>
    pr_authority (derivePrincipal r (setActor now' who' g)) = FULL"
proof -
  note ok = allowed_call [OF assms(1), folded cls_def]
  note pr = principal_of_session [OF ok(1)]
  have low: "cls \<in> {OBSERVE, SUGGEST, SIMULATE} \<or> (cls = EXECUTE_REVERSIBLE \<and> starts_with (rq_tool_name r) ''forge_'')"
    if "session_actor r g = None"
    using ok(2) that pr(1) [of g] by (auto simp: authorityPermits_def split: if_splits)
  have "session_actor r (setActor now' who' g) \<noteq> None"
    by (auto simp: session_actor_def setActor_def store_simps split: option.splits)
  then show ?thesis using low pr by auto
qed

definition observe_request :: tool_call_request where
  "observe_request =
     \<lparr> rq_actor_id = None, rq_tool_name = ''forge_probe'', rq_arguments = JObj [], rq_session_id = None,
       rq_aae = None, rq_organ_secret = None \<rparr>"

definition fresh_gate :: policy_gate where
  "fresh_gate = new_policy_gate (new_nonce_store 600000 10000) NoFile None False"

definition plain_rt :: runtime where
  "plain_rt = \<lparr> sha256 = \<lambda>t. t, number_text = \<lambda>n. [], get_time = \<lambda>t. 0 \<rparr>"

lemma observe_allowed:
  "pv_verdict (fst (evaluate plain_rt sample_mac 0 (\<lambda>p t. Some True) True observe_request fresh_gate)) = ALLOW"
  by code_simp

theorem authority_comes_from_sessions_witness:
  "session_actor observe_request fresh_gate = None \<and>
   classifyTool ''forge_probe'' None \<in> {OBSERVE, SUGGEST, SIMULATE, EXECUTE_REVERSIBLE}"
proof -
  have "session_actor observe_request fresh_gate = None" by code_simp
  then show ?thesis using authority_comes_from_sessions [OF observe_allowed]
    by (auto simp: observe_request_def request_mode_def field_def)
qed

text \<open>The call of the conformance test C-003, and its like over the channel of ChatGPT, which only the deny list of the
  channel stops.\<close>

definition shell_request :: tool_call_request where
  "shell_request = observe_request\<lparr> rq_tool_name := ''forge_shell'', rq_arguments := JObj [(''command'', JStr ''echo test'')] \<rparr>"

lemma anonymous_shell_allowed:
  "pv_verdict (fst (evaluate plain_rt sample_mac 0 (\<lambda>p t. Some True) True shell_request fresh_gate)) = ALLOW"
  by code_simp

lemma channel_shell_denied:
  "let res = fst (evaluate plain_rt sample_mac 0 (\<lambda>p t. Some True) True
       (shell_request\<lparr>rq_actor_id := Some ''chatgpt-arif''\<rparr>) fresh_gate) in
   pv_verdict res = DENY \<and> L1_Authority \<notin> set (pv_reasons res)"
  by code_simp

section \<open>Policies that were not loaded\<close>

lemma policies_fold: "pg_policies (fold addPolicy ps g) = fold (\<lambda>p m. m_set (mp_policy_id p) p m) ps (pg_policies g)"
  by (induction ps arbitrary: g) (simp_all add: addPolicy_def)

lemma unread_fold:
  "pg_defaultPolicy (fold addPolicy ps g) = pg_defaultPolicy g"
  "pg_verifiedSessions (fold addPolicy ps g) = pg_verifiedSessions g"
  "pg_pinViolation (fold addPolicy ps g) = pg_pinViolation g"
  by (induction ps arbitrary: g) (simp_all add: addPolicy_def)

lemma builtin_policies:
  "map snd (fold (\<lambda>p m. m_set (mp_policy_id p) p m) EXAMPLE_POLICIES
     [(''default:sovereign'', buildDefaultSovereignPolicy)]) = buildDefaultSovereignPolicy # EXAMPLE_POLICIES"
  by code_simp

lemma same_values: "map_of (map (\<lambda>n. (n, x)) ns) s \<in> {None, Some x}"
  by (induction ns) auto

lemma default_policy_passes:
  "policy_passes rt re_test r buildDefaultSovereignPolicy \<longleftrightarrow> (\<exists>kvs. rq_arguments r = JObj kvs)"
proof -
  have entry: "server_entry buildDefaultSovereignPolicy s \<in> {None, Some (server_rule [])}" for s
    unfolding server_entry_def buildDefaultSovereignPolicy_def using same_values [of "server_rule []" organ_names s] by simp
  have "isServerAllowed buildDefaultSovereignPolicy s" for s
    using entry [of s] by (auto simp: isServerAllowed_def buildDefaultSovereignPolicy_def)
  moreover have "fst (isToolAllowed buildDefaultSovereignPolicy s t)"
    "snd (snd (isToolAllowed buildDefaultSovereignPolicy s t)) = None" for s t
    using entry [of s] by (auto simp: isToolAllowed_def buildDefaultSovereignPolicy_def)
  ultimately show ?thesis by (simp add: policy_passes_def Let_def arguments_pass_def)
qed

text \<open>
  A file of policies whose pinned commit does not match the deployed one is not loaded, and
  then the gate is more open, not closed: an actor with no built-in policy gets the default
  policy, which allows everything it does not list, so every well-formed call of a classified
  observing tool by this actor is allowed, whatever the file's policy for the actor says, and
  nothing but a flag records the mismatch.
\<close>

theorem pin_mismatch_fails_open:
  fixes ns ps
  assumes "pin_mismatch pinned stamp unpinned"
    and "rq_actor_id r = Some who" "identity_ok r" "rq_aae r = None" "rq_arguments r = JObj kvs"
    and "actor_key who \<notin> set (map (\<lambda>p. actor_key (mp_actor_id p)) EXAMPLE_POLICIES)" "who \<noteq> ''chatgpt-arif''"
    and "isClassifiedTool (rq_tool_name r)" "classifyTool (rq_tool_name r) (request_mode r) = OBSERVE"
  defines "g \<equiv> getMcpPolicyGate None ns (PolicyFile ps pinned) stamp unpinned"
  shows "isPinViolated g \<and> list_policies g = buildDefaultSovereignPolicy # EXAMPLE_POLICIES \<and>
    policy_for r g = buildDefaultSovereignPolicy \<and>
    pv_verdict (fst (evaluate rt mac now re_test writable r g)) = ALLOW"
proof -
  have pols: "list_policies g = buildDefaultSovereignPolicy # EXAMPLE_POLICIES"
    and flag: "isPinViolated g" and sess: "pg_verifiedSessions g = []"
    and dflt: "pg_defaultPolicy g = buildDefaultSovereignPolicy"
    using assms(1) builtin_policies
    by (simp_all add: g_def getMcpPolicyGate_def new_policy_gate_def loadFromDisk_def list_policies_def
        policies_fold unread_fold isPinViolated_def)
  have pr: "derivePrincipal r g = \<lparr> pr_actorId = Some who, pr_displayLabel = who, pr_source = ClientSupplied,
      pr_authenticated = False, pr_authority = OBSERVE_ONLY \<rparr>"
    using assms(2,3) by (simp add: derivePrincipal_def sess identity_ok_def Let_def split: option.split)
  have "find (\<lambda>p. actor_key (mp_actor_id p) = actor_key who) EXAMPLE_POLICIES = None"
    using assms(6) unfolding find_None_iff set_map by (metis (no_types, lifting) image_eqI)
  then have pol: "policy_for r g = buildDefaultSovereignPolicy"
    using pols dflt by (simp add: policy_for_def Let_def pr resolvePolicy_def list_policies_def [symmetric])
  have "pv_verdict (fst (evaluate rt mac now re_test writable r g)) =
      fst (judge_request rt mac now re_test r (derivePrincipal r g) (policy_for r g) (pg_nonceStore g))"
    by (simp add: evaluate_def policy_for_def Let_def case_prod_beta)
  also have "\<dots> = ALLOW"
    unfolding judge_allows
    using assms(3-5,7-9) by (simp add: pol pr default_policy_passes envelope_valid_def authorityPermits_def channel_denied_def)
  finally show ?thesis using pols flag pol by blast
qed

definition lockdown_policy :: mcp_policy where
  "lockdown_policy =
     \<lparr> mp_policy_id = ''agent:guest'', mp_actor_id = ''guest'', mp_allow_by_default = False,
       mp_allowed_mcp_servers = None, mp_denied_mcp_servers = None, mp_max_requests_per_minute = None \<rparr>"

lemma guest_call:
  "pin_mismatch (Some ''aaaaaaa'') (Some ''bbbbbbb'') False"
  "identity_ok (observe_request\<lparr>rq_actor_id := Some ''guest''\<rparr>)"
  "actor_key ''guest'' \<notin> set (map (\<lambda>p. actor_key (mp_actor_id p)) EXAMPLE_POLICIES)"
  "isClassifiedTool ''forge_probe''"
  "classifyTool ''forge_probe'' (request_mode (observe_request\<lparr>rq_actor_id := Some ''guest''\<rparr>)) = OBSERVE"
  by code_simp+

theorem pin_mismatch_fails_open_witness:
  "pv_verdict (fst (evaluate plain_rt sample_mac 0 (\<lambda>p t. Some True) True
     (observe_request\<lparr>rq_actor_id := Some ''guest''\<rparr>)
     (getMcpPolicyGate None (new_nonce_store 600000 10000)
       (PolicyFile (Some [lockdown_policy]) (Some ''aaaaaaa'')) (Some ''bbbbbbb'') False))) = ALLOW"
  using pin_mismatch_fails_open [OF guest_call(1), of "observe_request\<lparr>rq_actor_id := Some ''guest''\<rparr>" "''guest''"
      "[]" "new_nonce_store 600000 10000" "Some [lockdown_policy]" plain_rt sample_mac 0 "\<lambda>p t. Some True" True]
    guest_call
  by (simp add: observe_request_def)

end
