(* ===== verification/Cooling_Gate.thy ===== *)
theory Cooling_Gate
  imports Memory_Contract
begin

text \<open>
  The cooldown of build artifacts (\<^verbatim>\<open>src/src/domain/governance/CoolingGate.ts\<close>): entries that
  wait for three witnesses before they are sealed, with a resource budget and an expiry, and
  the deploy gate that reads them.

  Times are milliseconds, which is what an ISO text stores. A call that awaits is modelled
  without interleaving; its file reads, its writes and the memory gate are arguments. \<open>io\<close>
  says whether a write succeeds, \<open>skip\<close> whether \<^verbatim>\<open>ARIFOS_GATE_TOKEN\<close> is set, which makes
  \<^verbatim>\<open>persist\<close> ignore a failed write. The receipt forwarded to another service after a seal and
  the log messages are left out. A reason is a constructor that stands for its text.
\<close>

section \<open>Entries\<close>

definition COOLDOWN_MIN_HOURS :: rat where "COOLDOWN_MIN_HOURS = 24"
definition COOLDOWN_MAX_HOURS :: rat where "COOLDOWN_MAX_HOURS = 720"

datatype risk_tier = LowTier | MediumTier | HighTier | CriticalTier

fun RISK_TIER_HOURS :: "risk_tier \<Rightarrow> rat" where
  "RISK_TIER_HOURS LowTier = 24" | "RISK_TIER_HOURS MediumTier = 72"
| "RISK_TIER_HOURS HighTier = 168" | "RISK_TIER_HOURS CriticalTier = 720"

datatype cooling_verdict = CSabar | CSeal | CVoid

datatype witness_type = HumanW | AiAuditW | RealityCheckW

record tri_witness =
  tw_human :: bool
  tw_ai_audit :: bool
  tw_reality_check :: bool

record resource_budget =
  rb_disk_bytes_allocated :: rat
  rb_disk_bytes_peak :: rat
  rb_compute_seconds :: rat
  rb_memory_mb_seconds :: rat
  rb_token_count :: rat
  rb_disk_limit_bytes :: rat
  rb_compute_limit_seconds :: rat
  rb_memory_limit_mb_seconds :: rat
  rb_token_limit :: rat

datatype seal_reason =
    EntryNotFound
  | AlreadyResolved cooling_verdict
  | AaaGateRefused link_reason
  | AaaGateError
  | EntryVanished
  | AutoResolved cooling_verdict
  | CooldownExpired
  | WitnessIncomplete nat
  | BudgetExhausted
  | SealedOk

datatype void_reason = ExpiredAutoVoid | BudgetAutoVoid | ResolveFailed seal_reason | BatchExpiry

record cooling_entry =
  ce_entry_id :: string
  ce_artifact_ref :: "string option"
  ce_description :: string
  ce_risk_tier :: risk_tier
  ce_proposed_at :: int
  ce_cooldown_expiry :: int
  ce_cooldown_hours :: rat
  ce_verdict :: cooling_verdict
  ce_tri_witness :: tri_witness
  ce_resource_budget :: resource_budget
  ce_sealed_at :: "int option"
  ce_voided_at :: "int option"
  ce_void_reason :: "void_reason option"

definition defaultBudget :: resource_budget where
  "defaultBudget =
     \<lparr> rb_disk_bytes_allocated = 0, rb_disk_bytes_peak = 0, rb_compute_seconds = 0, rb_memory_mb_seconds = 0,
       rb_token_count = 0, rb_disk_limit_bytes = 50000000000, rb_compute_limit_seconds = 3600,
       rb_memory_limit_mb_seconds = 1000000, rb_token_limit = 1000000 \<rparr>"

section \<open>State and persistence\<close>

record cooling_file =
  cf_entries :: "cooling_entry list"
  cf_sealedCount :: nat
  cf_voidedCount :: nat

datatype stored_file = Missing | Malformed | Saved cooling_file

record cooling_gate =
  cg_entries :: "(string, cooling_entry) jsmap"
  cg_sealedCount :: nat
  cg_voidedCount :: nat
  cg_loaded :: bool
  cg_file :: stored_file

definition new_cooling_gate :: "stored_file \<Rightarrow> cooling_gate" where
  "new_cooling_gate f =
     \<lparr> cg_entries = [], cg_sealedCount = 0, cg_voidedCount = 0, cg_loaded = False, cg_file = f \<rparr>"

definition load_entries :: "cooling_entry list \<Rightarrow> (string, cooling_entry) jsmap" where
  "load_entries es = fold (\<lambda>e m. m_set (ce_entry_id e) e m) es []"

definition loadFromJson :: "cooling_file \<Rightarrow> cooling_gate \<Rightarrow> cooling_gate" where
  "loadFromJson f s =
     s\<lparr> cg_entries := load_entries (cf_entries f), cg_sealedCount := cf_sealedCount f,
        cg_voidedCount := cf_voidedCount f \<rparr>"

definition ensureLoaded :: "cooling_gate \<Rightarrow> cooling_gate" where
  "ensureLoaded s =
     (if cg_loaded s then s
      else (case cg_file s of Saved f \<Rightarrow> loadFromJson f s | Missing \<Rightarrow> s | Malformed \<Rightarrow> s)\<lparr>cg_loaded := True\<rparr>)"

text \<open>\<^term>\<open>False\<close> when \<^verbatim>\<open>persist\<close> throws.\<close>

definition persist :: "bool \<Rightarrow> bool \<Rightarrow> cooling_gate \<Rightarrow> bool \<times> cooling_gate" where
  "persist io skip s =
     (if io then (True, s\<lparr>cg_file := Saved
          \<lparr> cf_entries = m_values (cg_entries s), cf_sealedCount = cg_sealedCount s, cf_voidedCount = cg_voidedCount s \<rparr>\<rparr>)
      else (skip, s))"

definition set_entry :: "cooling_entry \<Rightarrow> cooling_gate \<Rightarrow> cooling_gate" where
  "set_entry e s = s\<lparr>cg_entries := m_set (ce_entry_id e) e (cg_entries s)\<rparr>"

section \<open>Conditions\<close>

definition entryExpired :: "int \<Rightarrow> cooling_entry \<Rightarrow> bool" where
  "entryExpired now e \<longleftrightarrow> now > ce_cooldown_expiry e"

definition isBudgetExhausted :: "cooling_entry \<Rightarrow> bool" where
  "isBudgetExhausted e =
     (let b = ce_resource_budget e in
      rb_disk_bytes_allocated b > rb_disk_limit_bytes b \<or>
      rb_compute_seconds b > rb_compute_limit_seconds b \<or>
      rb_memory_mb_seconds b > rb_memory_limit_mb_seconds b \<or>
      rb_token_count b > rb_token_limit b)"

definition remainingHours :: "int \<Rightarrow> cooling_entry \<Rightarrow> rat" where
  "remainingHours now e = max 0 (dbl (of_int (ce_cooldown_expiry e - now) / 3600000))"

definition witness_count :: "tri_witness \<Rightarrow> nat" where
  "witness_count w = length (filter (\<lambda>b. b) [tw_human w, tw_ai_audit w, tw_reality_check w])"

section \<open>Operations\<close>

record propose_options =
  po_artifact_ref :: "string option"
  po_description :: "string option"
  po_risk_tier :: "risk_tier option"
  po_cooldown_hours :: "rat option"

definition clamped_hours :: "propose_options \<Rightarrow> rat" where
  "clamped_hours ops =
     (let tier = (case po_risk_tier ops of Some t \<Rightarrow> t | None \<Rightarrow> MediumTier);
          hours = (case po_cooldown_hours ops of Some h \<Rightarrow> h | None \<Rightarrow> RISK_TIER_HOURS tier) in
      max COOLDOWN_MIN_HOURS (min hours COOLDOWN_MAX_HOURS))"

definition expiry_time :: "int \<Rightarrow> rat \<Rightarrow> int" where
  "expiry_time now hours = \<lfloor>dbl_add (of_int now) (dbl (hours * 3600000))\<rfloor>"

definition proposed_entry :: "string \<Rightarrow> int \<Rightarrow> propose_options \<Rightarrow> cooling_entry" where
  "proposed_entry uuid now ops =
     \<lparr> ce_entry_id = take 12 uuid, ce_artifact_ref = po_artifact_ref ops,
       ce_description = (case po_description ops of Some d \<Rightarrow> d | None \<Rightarrow> ''''),
       ce_risk_tier = (case po_risk_tier ops of Some t \<Rightarrow> t | None \<Rightarrow> MediumTier), ce_proposed_at = now,
       ce_cooldown_expiry = expiry_time now (clamped_hours ops), ce_cooldown_hours = clamped_hours ops,
       ce_verdict = CSabar, ce_tri_witness = \<lparr> tw_human = False, tw_ai_audit = False, tw_reality_check = False \<rparr>,
       ce_resource_budget = defaultBudget, ce_sealed_at = None, ce_voided_at = None, ce_void_reason = None \<rparr>"

definition cooling_params :: "memory_action \<Rightarrow> string \<Rightarrow> string \<Rightarrow> string \<Rightarrow> string \<Rightarrow> gate_params" where
  "cooling_params a i text_content tool label =
     \<lparr> gp_action = a, gp_actorId = ''a-forge::cooling-gate'', gp_sessionId = ''SEAL-c001c0ffeec001d0'',
       gp_memoryId = Some i, gp_content = Some text_content, gp_toolName = Some tool,
       gp_description = Some (label @ take 80 text_content) \<rparr>"

text \<open>The memory gate is asked, but its answer is only logged. The result is \<^term>\<open>None\<close> when
  the promise is rejected.\<close>

definition propose ::
  "gate_world \<Rightarrow> string \<Rightarrow> bool \<Rightarrow> bool \<Rightarrow> propose_options \<Rightarrow> gate_state \<Rightarrow> cooling_gate \<Rightarrow>
   cooling_entry option \<times> cooling_gate \<times> gate_state" where
  "propose w uuid io skip ops g s =
     (let s1 = ensureLoaded s;
          e = proposed_entry uuid (gw_now w) ops;
          s2 = set_entry e s1;
          (answer, g') = gate_call w (cooling_params MWrite (ce_entry_id e) (ce_description e)
            ''CoolingGate.propose'' ''Propose cooling entry: '') g;
          (kept, s3) = persist io skip s2 in
      (if kept then Some e else None, s3, g'))"

text \<open>\<^verbatim>\<open>void\<close> catches what \<^verbatim>\<open>persist\<close> throws.\<close>

definition void_entry :: "int \<Rightarrow> bool \<Rightarrow> bool \<Rightarrow> cooling_entry \<Rightarrow> void_reason \<Rightarrow> cooling_gate \<Rightarrow> cooling_gate" where
  "void_entry now io skip e why s =
     snd (persist io skip
       ((set_entry (e\<lparr> ce_verdict := CVoid, ce_voided_at := Some now, ce_void_reason := Some why \<rparr>) s)
        \<lparr> cg_voidedCount := cg_voidedCount s + 1 \<rparr>))"

definition check :: "int \<Rightarrow> bool \<Rightarrow> bool \<Rightarrow> string \<Rightarrow> cooling_gate \<Rightarrow> cooling_entry option \<times> cooling_gate" where
  "check now io skip i s =
     (let s1 = ensureLoaded s in
      case m_get (cg_entries s1) i of
        None \<Rightarrow> (None, s1)
      | Some e \<Rightarrow>
          if ce_verdict e = CSeal \<or> ce_verdict e = CVoid then (Some e, s1)
          else if entryExpired now e then
            (let s2 = void_entry now io skip e ExpiredAutoVoid s1 in (m_get (cg_entries s2) i, s2))
          else if isBudgetExhausted e then
            (let s2 = void_entry now io skip e BudgetAutoVoid s1 in (m_get (cg_entries s2) i, s2))
          else (Some e, s1))"

fun set_witness :: "witness_type \<Rightarrow> bool \<Rightarrow> tri_witness \<Rightarrow> tri_witness" where
  "set_witness HumanW v w = w\<lparr>tw_human := v\<rparr>"
| "set_witness AiAuditW v w = w\<lparr>tw_ai_audit := v\<rparr>"
| "set_witness RealityCheckW v w = w\<lparr>tw_reality_check := v\<rparr>"

definition witness :: "string \<Rightarrow> witness_type \<Rightarrow> bool \<Rightarrow> cooling_gate \<Rightarrow> bool \<times> cooling_gate" where
  "witness i t v s =
     (case m_get (cg_entries s) i of
        None \<Rightarrow> (False, s)
      | Some e \<Rightarrow>
          if ce_verdict e \<noteq> CSabar then (False, s)
          else (True, s\<lparr>cg_entries := m_set i (e\<lparr>ce_tri_witness := set_witness t v (ce_tri_witness e)\<rparr>) (cg_entries s)\<rparr>))"

text \<open>What \<^verbatim>\<open>seal\<close> does once the memory gate has let it through. The result is \<^term>\<open>None\<close> when
  the promise is rejected, which leaves the entry sealed in memory.\<close>

definition seal_body ::
  "int \<Rightarrow> bool \<Rightarrow> bool \<Rightarrow> string \<Rightarrow> cooling_gate \<Rightarrow> (bool \<times> seal_reason) option \<times> cooling_gate" where
  "seal_body now io skip i s =
     (let (checked, s1) = check now io skip i s in
      case checked of
        None \<Rightarrow> (Some (False, EntryVanished), s1)
      | Some e \<Rightarrow>
          if ce_verdict e \<noteq> CSabar then (Some (False, AutoResolved (ce_verdict e)), s1)
          else if entryExpired now e then (Some (False, CooldownExpired), s1)
          else if witness_count (ce_tri_witness e) < 3
            then (Some (False, WitnessIncomplete (witness_count (ce_tri_witness e))), s1)
          else if isBudgetExhausted e then (Some (False, BudgetExhausted), s1)
          else
            (let (kept, s2) = persist io skip
                 ((set_entry (e\<lparr> ce_verdict := CSeal, ce_sealed_at := Some now \<rparr>) s1)
                  \<lparr> cg_sealedCount := cg_sealedCount s1 + 1 \<rparr>) in
             (if kept then Some (True, SealedOk) else None, s2)))"

definition seal ::
  "gate_world \<Rightarrow> bool \<Rightarrow> bool \<Rightarrow> string \<Rightarrow> gate_state \<Rightarrow> cooling_gate \<Rightarrow>
   (bool \<times> seal_reason) option \<times> cooling_gate \<times> gate_state" where
  "seal w io skip i g s =
     (let s1 = ensureLoaded s in
      case m_get (cg_entries s1) i of
        None \<Rightarrow> (Some (False, EntryNotFound), s1, g)
      | Some e \<Rightarrow>
          if ce_verdict e \<noteq> CSabar then (Some (False, AlreadyResolved (ce_verdict e)), s1, g)
          else
            (let (answer, g') = gate_call w
                 (cooling_params MSeal i (ce_description e) ''CoolingGate.seal'' ''Seal cooling entry: '') g in
             case answer of
               None \<Rightarrow> (Some (False, AaaGateError), s1, g')
             | Some r \<Rightarrow>
                 if \<not> lk_allowed r then (Some (False, AaaGateRefused (lk_reason r)), s1, g')
                 else (let (res, s2) = seal_body (gw_now w) io skip i s1 in (res, s2, g'))))"

definition resolve ::
  "gate_world \<Rightarrow> bool \<Rightarrow> bool \<Rightarrow> string \<Rightarrow> gate_state \<Rightarrow> cooling_gate \<Rightarrow>
   cooling_entry option option \<times> cooling_gate \<times> gate_state" where
  "resolve w io skip i g s =
     (case m_get (cg_entries s) i of
        None \<Rightarrow> (Some None, s, g)
      | Some e \<Rightarrow>
          if ce_verdict e \<noteq> CSabar then (Some (Some e), s, g)
          else
            (let (result, s1, g') = seal w io skip i g s in
             case result of
               None \<Rightarrow> (None, s1, g')
             | Some (ok, why) \<Rightarrow>
                 (let s2 = (if ok then s1
                    else (case m_get (cg_entries s1) i of
                        None \<Rightarrow> s1
                      | Some e1 \<Rightarrow> void_entry (gw_now w) io skip e1 (ResolveFailed why) s1)) in
                  (Some (m_get (cg_entries s2) i), s2, g'))))"

section \<open>Deploy gate and housekeeping\<close>

datatype deploy_reason = InCooldown rat | Registered rat

record deploy_result =
  dr_allowed :: bool
  dr_verdict :: cooling_verdict
  dr_reason :: deploy_reason
  dr_remaining_hours :: "rat option"
  dr_cooldown_entry_id :: "string option"

definition cooling_for :: "string \<Rightarrow> cooling_entry \<Rightarrow> bool" where
  "cooling_for artifact e \<longleftrightarrow> ce_artifact_ref e = Some artifact \<and> ce_verdict e = CSabar"

definition deployGate ::
  "gate_world \<Rightarrow> string \<Rightarrow> bool \<Rightarrow> bool \<Rightarrow> string \<Rightarrow> gate_state \<Rightarrow> cooling_gate \<Rightarrow>
   deploy_result option \<times> cooling_gate \<times> gate_state" where
  "deployGate w uuid io skip artifact g s =
     (case find (cooling_for artifact) (m_values (cg_entries s)) of
        Some e \<Rightarrow>
          (Some \<lparr> dr_allowed = False, dr_verdict = CSabar, dr_reason = InCooldown (remainingHours (gw_now w) e),
             dr_remaining_hours = Some (remainingHours (gw_now w) e), dr_cooldown_entry_id = Some (ce_entry_id e) \<rparr>,
           s, g)
      | None \<Rightarrow>
          (let (r, s', g') = propose w uuid io skip
               \<lparr> po_artifact_ref = Some artifact, po_description = Some (''auto-registered deploy: '' @ artifact),
                 po_risk_tier = Some MediumTier, po_cooldown_hours = None \<rparr> g s in
           (map_option (\<lambda>e. \<lparr> dr_allowed = True, dr_verdict = CSabar, dr_reason = Registered (ce_cooldown_hours e),
              dr_remaining_hours = Some (ce_cooldown_hours e), dr_cooldown_entry_id = Some (ce_entry_id e) \<rparr>) r,
            s', g')))"

text \<open>The clock and the outcome of the write of each entry are functions of its identifier.\<close>

definition expire_one ::
  "(string \<Rightarrow> int) \<Rightarrow> (string \<Rightarrow> bool) \<Rightarrow> bool \<Rightarrow> string \<Rightarrow> nat \<times> cooling_gate \<Rightarrow> nat \<times> cooling_gate" where
  "expire_one clock io skip i nt =
     (case m_get (cg_entries (snd nt)) i of
        None \<Rightarrow> nt
      | Some e \<Rightarrow>
          if ce_verdict e = CSabar \<and> entryExpired (clock i) e
          then (fst nt + 1, void_entry (clock i) (io i) skip e BatchExpiry (snd nt)) else nt)"

definition expireAll ::
  "(string \<Rightarrow> int) \<Rightarrow> (string \<Rightarrow> bool) \<Rightarrow> bool \<Rightarrow> cooling_gate \<Rightarrow> nat \<times> cooling_gate" where
  "expireAll clock io skip s = fold (expire_one clock io skip) (m_keys (cg_entries s)) (0, s)"

definition pruneVoided :: "cooling_gate \<Rightarrow> nat \<times> cooling_gate" where
  "pruneVoided s =
     (let gone = map fst (filter (\<lambda>(i, e). ce_verdict e = CVoid) (cg_entries s)) in
      (length gone, s\<lparr>cg_entries := fold m_delete gone (cg_entries s)\<rparr>))"

section \<open>Queries\<close>

record active_entry =
  av_entry_id :: string
  av_description :: string
  av_remaining_hours :: rat
  av_witness_count :: nat
  av_risk_tier :: risk_tier
  av_verdict :: cooling_verdict

record cooling_vitals =
  cv_active_count :: nat
  cv_sealed_count :: nat
  cv_voided_count :: nat
  cv_total_entries :: nat
  cv_oldest_remaining_hours :: "rat option"
  cv_budget_exhausted_any :: bool
  cv_active_entries :: "active_entry list"

text \<open>\<^verbatim>\<open>Math.round(h * 10) / 10\<close>\<close>

definition round_tenth :: "rat \<Rightarrow> rat" where
  "round_tenth h = dbl (of_int \<lfloor>dbl (h * 10) + 1 / 2\<rfloor> / 10)"

definition vitals :: "int \<Rightarrow> cooling_gate \<Rightarrow> cooling_vitals \<times> cooling_gate" where
  "vitals now s0 =
     (let s = ensureLoaded s0;
          active = filter (\<lambda>e. ce_verdict e = CSabar) (m_values (cg_entries s));
          remaining = map (remainingHours now) active in
      (\<lparr> cv_active_count = length active, cv_sealed_count = cg_sealedCount s, cv_voided_count = cg_voidedCount s,
         cv_total_entries = length (cg_entries s),
         cv_oldest_remaining_hours =
           (case remaining of [] \<Rightarrow> None | h # hs \<Rightarrow> Some (round_tenth (fold min hs h))),
         cv_budget_exhausted_any = list_ex isBudgetExhausted active,
         cv_active_entries = map (\<lambda>e.
           \<lparr> av_entry_id = ce_entry_id e, av_description = take 60 (ce_description e),
             av_remaining_hours = round_tenth (remainingHours now e),
             av_witness_count = witness_count (ce_tri_witness e), av_risk_tier = ce_risk_tier e,
             av_verdict = ce_verdict e \<rparr>) (take 10 active) \<rparr>, s))"

definition getEntry :: "string \<Rightarrow> cooling_gate \<Rightarrow> cooling_entry option \<times> cooling_gate" where
  "getEntry i s = (let s1 = ensureLoaded s in (m_get (cg_entries s1) i, s1))"

section \<open>What a seal needs\<close>

lemma persist_fields [simp]:
  "cg_entries (snd (persist io skip s)) = cg_entries s" "cg_sealedCount (snd (persist io skip s)) = cg_sealedCount s"
  "cg_voidedCount (snd (persist io skip s)) = cg_voidedCount s" "cg_loaded (snd (persist io skip s)) = cg_loaded s"
  by (simp_all add: persist_def)

lemma set_entry_fields [simp]:
  "cg_entries (set_entry e s) = m_set (ce_entry_id e) e (cg_entries s)" "cg_sealedCount (set_entry e s) = cg_sealedCount s"
  "cg_voidedCount (set_entry e s) = cg_voidedCount s" "cg_loaded (set_entry e s) = cg_loaded s"
  "cg_file (set_entry e s) = cg_file s"
  by (simp_all add: set_entry_def)

definition voided :: "int \<Rightarrow> void_reason \<Rightarrow> cooling_entry \<Rightarrow> cooling_entry" where
  "voided now why e = e\<lparr> ce_verdict := CVoid, ce_voided_at := Some now, ce_void_reason := Some why \<rparr>"

lemma voided_simps [simp]: "ce_verdict (voided now why e) = CVoid" "ce_entry_id (voided now why e) = ce_entry_id e"
  by (simp_all add: voided_def)

lemma void_entry_fields [simp]:
  "cg_entries (void_entry now io skip e why s) = m_set (ce_entry_id e) (voided now why e) (cg_entries s)"
  "cg_sealedCount (void_entry now io skip e why s) = cg_sealedCount s"
  "cg_loaded (void_entry now io skip e why s) = cg_loaded s"
  by (simp_all add: void_entry_def voided_def)

lemma ensureLoaded_loaded [simp]: "cg_loaded s \<Longrightarrow> ensureLoaded s = s"
  by (simp add: ensureLoaded_def)

lemma ensureLoaded_sets [simp]: "cg_loaded (ensureLoaded s)"
  by (simp add: ensureLoaded_def)

text \<open>Every entry of the map is stored under its identifier.\<close>

definition keyed_entries :: "cooling_gate \<Rightarrow> bool" where
  "keyed_entries s \<longleftrightarrow> m_wf (cg_entries s) \<and> (\<forall>i e. m_get (cg_entries s) i = Some e \<longrightarrow> ce_entry_id e = i)"

lemma check_cases:
  assumes "keyed_entries s" "cg_loaded s" "m_get (cg_entries s) i = Some e" "ce_verdict e = CSabar"
  shows "check now io skip i s =
    (if entryExpired now e then (Some (voided now ExpiredAutoVoid e), void_entry now io skip e ExpiredAutoVoid s)
     else if isBudgetExhausted e then (Some (voided now BudgetAutoVoid e), void_entry now io skip e BudgetAutoVoid s)
     else (Some e, s))"
proof -
  have "ce_entry_id e = i" using assms(1,3) by (simp add: keyed_entries_def)
  then show ?thesis using assms(2-) by (simp add: check_def Let_def store_simps)
qed

definition fit_to_seal :: "int \<Rightarrow> cooling_entry \<Rightarrow> bool" where
  "fit_to_seal now e \<longleftrightarrow>
     tw_human (ce_tri_witness e) \<and> tw_ai_audit (ce_tri_witness e) \<and> tw_reality_check (ce_tri_witness e) \<and>
     \<not> entryExpired now e \<and> \<not> isBudgetExhausted e"

lemma three_witnesses:
  "\<not> witness_count w < 3 \<longleftrightarrow> tw_human w \<and> tw_ai_audit w \<and> tw_reality_check w"
  by (simp add: witness_count_def)

lemma seal_body_cases:
  assumes "keyed_entries s" "cg_loaded s" "m_get (cg_entries s) i = Some e" "ce_verdict e = CSabar"
  shows "fst (seal_body now io skip i s) =
      (if entryExpired now e \<or> isBudgetExhausted e then Some (False, AutoResolved CVoid)
       else if \<not> fit_to_seal now e then Some (False, WitnessIncomplete (witness_count (ce_tri_witness e)))
       else if io \<or> skip then Some (True, SealedOk) else None) \<and>
    map_option ce_verdict (m_get (cg_entries (snd (seal_body now io skip i s))) i) =
      Some (if entryExpired now e \<or> isBudgetExhausted e then CVoid else if fit_to_seal now e then CSeal else CSabar)"
proof -
  have i: "ce_entry_id e = i" using assms(1,3) by (simp add: keyed_entries_def)
  note check = check_cases [OF assms, of now io skip]
  consider (bad) "entryExpired now e \<or> isBudgetExhausted e"
    | (short) "\<not> (entryExpired now e \<or> isBudgetExhausted e)" "witness_count (ce_tri_witness e) < 3"
    | (fit) "\<not> (entryExpired now e \<or> isBudgetExhausted e)" "\<not> witness_count (ce_tri_witness e) < 3"
    by blast
  then show ?thesis
  proof cases
    case bad
    then show ?thesis using check i by (auto simp: seal_body_def store_simps)
  next
    case short
    then have "\<not> fit_to_seal now e" using three_witnesses [of "ce_tri_witness e"] by (auto simp: fit_to_seal_def)
    then show ?thesis using short check assms(3,4) by (simp add: seal_body_def)
  next
    case fit
    then have "fit_to_seal now e" using three_witnesses [of "ce_tri_witness e"] by (auto simp: fit_to_seal_def)
    then show ?thesis using fit check i assms(4)
      by (simp add: seal_body_def case_prod_beta store_simps) (simp add: persist_def)
  qed
qed

text \<open>
  Past the memory gate, \<^verbatim>\<open>seal\<close> seals an entry that waits exactly when it has all three
  witnesses, has not expired and has not exhausted its budget; an expired entry and one that is
  over budget are voided; with a witness missing nothing changes, and the answer says how many
  there are. A failed write rejects the promise but leaves the entry sealed in memory.
\<close>

theorem seal_needs_three_witnesses:
  assumes "keyed_entries s" "cg_loaded s" "m_get (cg_entries s) i = Some e" "ce_verdict e = CSabar"
  shows "map_option ce_verdict (m_get (cg_entries (snd (seal_body now io skip i s))) i) =
      Some (if entryExpired now e \<or> isBudgetExhausted e then CVoid
            else if fit_to_seal now e then CSeal else CSabar) \<and>
    (fst (seal_body now io skip i s) = Some (True, SealedOk) \<longleftrightarrow> fit_to_seal now e \<and> (io \<or> skip)) \<and>
    (fst (seal_body now io skip i s) = None \<longleftrightarrow> fit_to_seal now e \<and> \<not> io \<and> \<not> skip) \<and>
    (\<forall>n. fst (seal_body now io skip i s) = Some (False, WitnessIncomplete n) \<longrightarrow>
       n = witness_count (ce_tri_witness e) \<and> n < 3 \<and> snd (seal_body now io skip i s) = s)"
proof -
  note cases = seal_body_cases [OF assms, of now io skip]
  have "snd (seal_body now io skip i s) = s" "n = witness_count (ce_tri_witness e)" "n < 3"
    if "fst (seal_body now io skip i s) = Some (False, WitnessIncomplete n)" for n
  proof -
    have c: "\<not> (entryExpired now e \<or> isBudgetExhausted e)" "\<not> fit_to_seal now e" "n = witness_count (ce_tri_witness e)"
      using that cases by (auto split: if_splits)
    then have "witness_count (ce_tri_witness e) < 3"
      using three_witnesses [of "ce_tri_witness e"] by (auto simp: fit_to_seal_def)
    then show "snd (seal_body now io skip i s) = s" "n = witness_count (ce_tri_witness e)" "n < 3"
      using c check_cases [OF assms, of now io skip] assms(4) by (simp_all add: seal_body_def)
  qed
  then show ?thesis using cases by (auto simp: fit_to_seal_def split: if_splits)
qed

definition witnessed_entry :: cooling_entry where
  "witnessed_entry = (proposed_entry ''entry-000001'' 0
     \<lparr> po_artifact_ref = Some ''a'', po_description = None, po_risk_tier = None, po_cooldown_hours = None \<rparr>)
     \<lparr> ce_tri_witness := \<lparr> tw_human = True, tw_ai_audit = True, tw_reality_check = True \<rparr> \<rparr>"

definition one_entry :: cooling_gate where
  "one_entry = ensureLoaded (new_cooling_gate (Saved
     \<lparr> cf_entries = [witnessed_entry], cf_sealedCount = 0, cf_voidedCount = 0 \<rparr>))"

lemma one_entry_get: "cg_entries one_entry = [(''entry-000001'', witnessed_entry)]" "cg_loaded one_entry"
  by code_simp+

lemma witnessed_entry_simps: "ce_entry_id witnessed_entry = ''entry-000001''" "ce_verdict witnessed_entry = CSabar"
  "fit_to_seal 1000 witnessed_entry" "fit_to_seal 259200000 witnessed_entry" "\<not> fit_to_seal 259200001 witnessed_entry"
  by code_simp+

theorem seal_needs_three_witnesses_witness:
  "fst (seal_body 1000 True False ''entry-000001'' one_entry) = Some (True, SealedOk)"
proof -
  have "keyed_entries one_entry" by (simp add: keyed_entries_def m_wf_def one_entry_get witnessed_entry_simps)
  from seal_needs_three_witnesses [OF this one_entry_get(2), of "''entry-000001''" witnessed_entry 1000 True False]
  show ?thesis by (simp add: one_entry_get witnessed_entry_simps)
qed

section \<open>Nothing is ever sealed\<close>

lemma seal_refused:
  "(\<exists>why. fst (seal w io skip i g s) = Some (False, why)) \<and> fst (snd (seal w io skip i g s)) = ensureLoaded s"
proof -
  have "\<not> lk_allowed r"
    if "fst (gate_call w (cooling_params MSeal i d t l) g) = Some r" for r d t l
    using gate_call_blocks [OF _ that] by (simp add: cooling_params_def)
  then show ?thesis by (auto simp: seal_def Let_def case_prod_beta split: option.splits)
qed

inductive cooling_step :: "cooling_gate \<Rightarrow> cooling_gate \<Rightarrow> bool" where
  proposed: "m_get (cg_entries (ensureLoaded s)) (take 12 uuid) = None \<Longrightarrow>
    cooling_step s (fst (snd (propose w uuid io skip ops g s)))"
| checked: "cooling_step s (snd (check now io skip i s))"
| witnessed: "cooling_step s (snd (witness i t v s))"
| sealed: "cooling_step s (fst (snd (seal w io skip i g s)))"
| resolved: "cooling_step s (fst (snd (resolve w io skip i g s)))"
| deployed: "m_get (cg_entries (ensureLoaded s)) (take 12 uuid) = None \<Longrightarrow>
    cooling_step s (fst (snd (deployGate w uuid io skip artifact g s)))"
| expired: "cooling_step s (snd (expireAll clock ios skip s))"
| pruned: "cooling_step s (snd (pruneVoided s))"
| vitals: "cooling_step s (snd (vitals now s))"
| got: "cooling_step s (snd (getEntry i s))"

text \<open>The changes of which the operations are made.\<close>

inductive cooling_change :: "cooling_gate \<Rightarrow> cooling_gate \<Rightarrow> bool" where
  load: "cooling_change s (ensureLoaded s)"
| added: "cg_loaded s \<Longrightarrow> m_get (cg_entries s) (ce_entry_id e) = None \<Longrightarrow> ce_verdict e = CSabar \<Longrightarrow>
    cooling_change s (snd (persist io skip (set_entry e s)))"
| voided: "m_get (cg_entries s) i = Some e \<Longrightarrow> ce_verdict e = CSabar \<Longrightarrow>
    cooling_change s (void_entry now io skip e why s)"
| observed: "m_get (cg_entries s) i = Some e \<Longrightarrow> ce_verdict e = CSabar \<Longrightarrow>
    cooling_change s (s\<lparr>cg_entries := m_set i (e\<lparr>ce_tri_witness := tw\<rparr>) (cg_entries s)\<rparr>)"
| pruned: "cooling_change s (snd (pruneVoided s))"

lemma change_run: "cooling_change s t \<Longrightarrow> cooling_change\<^sup>*\<^sup>* s t" "cooling_change\<^sup>*\<^sup>* s s"
  by auto

lemma load_then: "cooling_change (ensureLoaded s) t \<Longrightarrow> cooling_change\<^sup>*\<^sup>* s t"
  using cooling_change.load [of s] by (meson converse_rtranclp_into_rtranclp r_into_rtranclp)

lemma propose_change:
  "m_get (cg_entries (ensureLoaded s)) (take 12 uuid) = None \<Longrightarrow>
   cooling_change\<^sup>*\<^sup>* s (fst (snd (propose w uuid io skip ops g s)))"
  by (auto simp: propose_def Let_def case_prod_beta proposed_entry_def intro!: load_then cooling_change.added)

lemma expire_fold:
  "cooling_change\<^sup>*\<^sup>* s (snd nt) \<Longrightarrow> cooling_change\<^sup>*\<^sup>* s (snd (fold (expire_one clock io skip) is nt))"
proof (induction "is" arbitrary: nt)
  case (Cons i "is")
  have "cooling_change\<^sup>*\<^sup>* s (snd (expire_one clock io skip i nt))"
    using Cons.prems by (auto simp: expire_one_def split: option.splits
        intro: rtranclp.rtrancl_into_rtrancl cooling_change.voided)
  then show ?case using Cons.IH by simp
qed simp

lemma check_change: "cooling_change\<^sup>*\<^sup>* s (snd (check now io skip i s))"
proof (cases "m_get (cg_entries (ensureLoaded s)) i")
  case None
  then show ?thesis by (auto simp: check_def Let_def intro: cooling_change.load)
next
  case (Some e)
  have "cooling_change\<^sup>*\<^sup>* s (void_entry now io skip e why (ensureLoaded s))" if "ce_verdict e = CSabar" for why
    by (rule load_then) (rule cooling_change.voided [OF Some that])
  then show ?thesis using Some cooling_change.load [of s]
    by (cases "ce_verdict e") (auto simp: check_def Let_def)
qed

text \<open>Before the file is read there are no entries.\<close>

definition loaded_or_empty :: "cooling_gate \<Rightarrow> bool" where
  "loaded_or_empty s \<longleftrightarrow> cg_loaded s \<or> cg_entries s = []"

lemma resolve_state:
  assumes "loaded_or_empty s" "keyed_entries s"
  shows "fst (snd (resolve w io skip i g s)) =
    (case m_get (cg_entries s) i of
       None \<Rightarrow> s
     | Some e \<Rightarrow> if ce_verdict e \<noteq> CSabar then s
         else (case fst (seal w io skip i g s) of
             Some (ok, why) \<Rightarrow> void_entry (gw_now w) io skip e (ResolveFailed why) s | None \<Rightarrow> s))"
proof (cases "m_get (cg_entries s) i")
  case (Some e)
  then have "ensureLoaded s = s" using assms(1) by (auto simp: loaded_or_empty_def)
  then show ?thesis using Some seal_refused [of w io skip i g s]
    by (auto simp: resolve_def Let_def case_prod_beta)
qed (simp add: resolve_def)

lemma step_changes:
  assumes "cooling_step s t" "loaded_or_empty s" "keyed_entries s"
  shows "cooling_change\<^sup>*\<^sup>* s t"
  using assms(1)
proof (cases rule: cooling_step.cases)
  case (proposed uuid w io skip ops g)
  then show ?thesis using propose_change by simp
next
  case (checked now io skip i)
  then show ?thesis using check_change by simp
next
  case (witnessed i t v)
  then show ?thesis by (auto simp: witness_def split: option.splits intro: cooling_change.observed)
next
  case (sealed w io skip i g)
  then show ?thesis using seal_refused cooling_change.load by auto
next
  case (resolved w io skip i g)
  then show ?thesis using resolve_state [OF assms(2,3), of w io skip i g]
    by (auto split: option.splits intro: cooling_change.voided)
next
  case (deployed uuid w io skip artifact g)
  then show ?thesis using propose_change
    by (auto simp: deployGate_def Let_def case_prod_beta split: option.splits)
next
  case (expired clock ios skip)
  then show ?thesis using expire_fold [of s "(0, s)"] by (simp add: expireAll_def)
next
  case pruned
  then show ?thesis by (auto intro: cooling_change.pruned)
next
  case (vitals now)
  then show ?thesis by (auto simp: vitals_def Let_def intro: cooling_change.load)
next
  case (got i)
  then show ?thesis by (auto simp: getEntry_def Let_def intro: cooling_change.load)
qed

definition file_unsealed :: "stored_file \<Rightarrow> bool" where
  "file_unsealed f \<longleftrightarrow> (\<forall>c. f = Saved c \<longrightarrow> (\<forall>e \<in> set (cf_entries c). ce_verdict e \<noteq> CSeal))"

definition unsealed :: "cooling_gate \<Rightarrow> bool" where
  "unsealed s \<longleftrightarrow> keyed_entries s \<and> loaded_or_empty s \<and>
     (\<forall>i e. m_get (cg_entries s) i = Some e \<longrightarrow> ce_verdict e \<noteq> CSeal) \<and> file_unsealed (cg_file s)"

definition entries_ok :: "(string, cooling_entry) jsmap \<Rightarrow> bool" where
  "entries_ok m \<longleftrightarrow> m_wf m \<and> (\<forall>i e. m_get m i = Some e \<longrightarrow> ce_entry_id e = i \<and> ce_verdict e \<noteq> CSeal)"

lemma unsealed_iff:
  "unsealed s \<longleftrightarrow> entries_ok (cg_entries s) \<and> loaded_or_empty s \<and> file_unsealed (cg_file s)"
  by (auto simp: unsealed_def keyed_entries_def entries_ok_def)

lemma entries_ok_set:
  "entries_ok m \<Longrightarrow> ce_entry_id e = i \<Longrightarrow> ce_verdict e \<noteq> CSeal \<Longrightarrow> entries_ok (m_set i e m)"
  by (auto simp: entries_ok_def store_simps intro: m_wf_update split: if_splits)

lemma entries_ok_removes: "entries_ok m \<Longrightarrow> entries_ok (fold m_delete ks m)"
  by (auto simp: entries_ok_def store_simps intro: js.fold_remove_well_formed split: if_splits)

lemma entries_ok_fold:
  "entries_ok m \<Longrightarrow> \<forall>e \<in> set es. ce_verdict e \<noteq> CSeal \<Longrightarrow>
   entries_ok (fold (\<lambda>e m. m_set (ce_entry_id e) e m) es m)"
  by (induction es arbitrary: m) (auto intro: entries_ok_set)

lemma entries_ok_load: "\<forall>e \<in> set es. ce_verdict e \<noteq> CSeal \<Longrightarrow> entries_ok (load_entries es)"
  unfolding load_entries_def by (rule entries_ok_fold) (simp_all add: entries_ok_def m_wf_def)

lemma entries_ok_values: "entries_ok m \<Longrightarrow> e \<in> set (m_values m) \<Longrightarrow> ce_verdict e \<noteq> CSeal"
  by (auto simp: entries_ok_def m_get_iff)

lemma persist_unsealed:
  "entries_ok (cg_entries s) \<Longrightarrow> file_unsealed (cg_file s) \<Longrightarrow> file_unsealed (cg_file (snd (persist io skip s)))"
  using entries_ok_values [of "cg_entries s"] by (auto simp: persist_def file_unsealed_def)

lemma change_unsealed:
  assumes "cooling_change s t" "unsealed s"
  shows "unsealed t"
  using assms
proof (induction rule: cooling_change.induct)
  case (load s)
  then show ?case using entries_ok_load
    by (auto simp: unsealed_iff ensureLoaded_def loadFromJson_def loaded_or_empty_def file_unsealed_def
        split: stored_file.splits)
next
  case (added s e io skip)
  then have "entries_ok (m_set (ce_entry_id e) e (cg_entries s))" by (auto simp: unsealed_iff intro: entries_ok_set)
  then show ?case using added(1,4) persist_unsealed [of "set_entry e s" io skip]
    by (auto simp: unsealed_iff loaded_or_empty_def)
next
  case (voided s i e now io skip why)
  then have "ce_entry_id e = i" by (simp add: unsealed_iff entries_ok_def)
  moreover have "entries_ok (m_set i (voided now why e) (cg_entries s))"
    using voided(3) calculation by (auto simp: unsealed_iff intro: entries_ok_set)
  moreover have "file_unsealed (cg_file (void_entry now io skip e why s))"
    unfolding void_entry_def using calculation voided(3)
    by (intro persist_unsealed) (simp_all add: voided_def unsealed_iff)
  moreover have "cg_loaded s" using voided(1,3) by (auto simp: unsealed_iff loaded_or_empty_def)
  ultimately show ?case by (simp add: unsealed_iff loaded_or_empty_def)
next
  case (observed s i e tw)
  then have "ce_entry_id e = i" "cg_loaded s" by (auto simp: unsealed_iff entries_ok_def loaded_or_empty_def)
  then show ?case using observed by (auto simp: unsealed_iff loaded_or_empty_def intro: entries_ok_set)
next
  case (pruned s)
  then show ?case by (auto simp: unsealed_iff pruneVoided_def Let_def loaded_or_empty_def intro: entries_ok_removes)
qed

lemma step_unsealed: "cooling_step s t \<Longrightarrow> unsealed s \<Longrightarrow> unsealed t"
proof -
  assume st: "cooling_step s t" and ok: "unsealed s"
  have "cooling_change\<^sup>*\<^sup>* s t" using step_changes [OF st] ok by (simp add: unsealed_def)
  then show "unsealed t" using ok by (induction rule: rtranclp_induct) (auto intro: change_unsealed)
qed

interpretation cooling: kept_invariant cooling_step unsealed
  by unfold_locales (rule step_unsealed)

text \<open>
  C19. Nothing is ever sealed. From a file without sealed entries, no sequence of calls leaves a
  sealed entry: every \<^verbatim>\<open>seal\<close> is refused, because the memory gate lets no seal through,
  and every \<^verbatim>\<open>resolve\<close> of a waiting entry voids it, whatever its witnesses.
\<close>

theorem nothing_is_ever_sealed:
  assumes "cooling_step\<^sup>*\<^sup>* (new_cooling_gate f) s" "file_unsealed f"
  shows "(\<forall>i e. m_get (cg_entries s) i = Some e \<longrightarrow> ce_verdict e \<noteq> CSeal) \<and>
    (\<exists>why. fst (seal w io skip i g s) = Some (False, why)) \<and>
    (\<forall>e. m_get (cg_entries s) i = Some e \<longrightarrow> ce_verdict e = CSabar \<longrightarrow>
      map_option ce_verdict (m_get (cg_entries (fst (snd (resolve w io skip i g s)))) i) = Some CVoid)"
proof -
  have "unsealed (new_cooling_gate f)" using assms(2)
    by (simp add: unsealed_iff new_cooling_gate_def entries_ok_def m_wf_def loaded_or_empty_def)
  then have ok: "unsealed s" by (rule cooling.run_inv [OF assms(1)])
  have "map_option ce_verdict (m_get (cg_entries (fst (snd (resolve w io skip i g s)))) i) = Some CVoid"
    if e: "m_get (cg_entries s) i = Some e" "ce_verdict e = CSabar" for e
  proof -
    have "ce_entry_id e = i" "loaded_or_empty s" "keyed_entries s"
      using ok e by (simp_all add: unsealed_def keyed_entries_def)
    then show ?thesis using resolve_state [of s w io skip i g] seal_refused [of w io skip i g s] e
      by (auto simp: store_simps)
  qed
  then show ?thesis using ok seal_refused by (auto simp: unsealed_def)
qed

definition cooling_world :: gate_world where
  "cooling_world = plain_world\<lparr>gw_now := 1000\<rparr>"

theorem nothing_is_ever_sealed_witness:
  "map_option ce_verdict (m_get (cg_entries (fst (snd
     (resolve cooling_world True False ''entry-000001'' new_gate_state one_entry)))) ''entry-000001'') = Some CVoid"
proof -
  let ?f = "Saved \<lparr> cf_entries = [witnessed_entry], cf_sealedCount = 0, cf_voidedCount = 0 \<rparr>"
  have "cooling_step (new_cooling_gate ?f) (snd (getEntry ''x'' (new_cooling_gate ?f)))" by (rule cooling_step.got)
  then have "cooling_step\<^sup>*\<^sup>* (new_cooling_gate ?f) one_entry"
    by (auto simp: getEntry_def Let_def one_entry_def)
  moreover have "file_unsealed ?f" by (simp add: file_unsealed_def witnessed_entry_simps)
  ultimately show ?thesis using nothing_is_ever_sealed [of ?f one_entry cooling_world True False "''entry-000001''" new_gate_state]
    by (simp add: one_entry_get witnessed_entry_simps)
qed

section \<open>The deploy gate\<close>

lemma propose_result:
  "fst (propose w uuid io skip ops g s) = (if io \<or> skip then Some (proposed_entry uuid (gw_now w) ops) else None)"
  "cg_entries (fst (snd (propose w uuid io skip ops g s))) =
     m_set (take 12 uuid) (proposed_entry uuid (gw_now w) ops) (cg_entries (ensureLoaded s))"
  by (simp_all add: propose_def Let_def case_prod_beta proposed_entry_def) (simp add: persist_def)

lemma set_in_values: "v \<in> set (m_values (m_set k v m))"
proof -
  have "m_get (m_set k v m) k = Some v" by (simp add: store_simps)
  then show ?thesis using m_get_in by force
qed

lemma no_cooling: "find (cooling_for a) (m_values m) = None \<longleftrightarrow> list_all (\<lambda>e. \<not> cooling_for a e) (m_values m)"
  by (auto simp: find_None_all list_all_iff)

text \<open>
  The deploy gate allows a deploy exactly when no entry in memory cools the artifact; it then
  registers one, so that the next deploy of the artifact is refused, however much later it
  comes: an expired entry still refuses until it is voided. The entries of the file do not
  count: a gate that has not read it yet allows every artifact.
\<close>

theorem deploy_allowed_once:
  assumes "io \<or> skip"
  shows "(case fst (deployGate w uuid io skip a g s) of
       None \<Rightarrow> False
     | Some r \<Rightarrow> dr_allowed r \<longleftrightarrow> list_all (\<lambda>e. \<not> cooling_for a e) (m_values (cg_entries s))) \<and>
    (case fst (deployGate w' uuid' io' skip' a g' (fst (snd (deployGate w uuid io skip a g s)))) of
       None \<Rightarrow> False | Some r \<Rightarrow> \<not> dr_allowed r) \<and>
    (case fst (deployGate w uuid io skip a g (new_cooling_gate f)) of None \<Rightarrow> False | Some r \<Rightarrow> dr_allowed r)"
proof -
  have fresh: "\<exists>r. fst (deployGate w uuid io skip a g t) = Some r \<and> dr_allowed r \<and>
      (\<exists>e \<in> set (m_values (cg_entries (fst (snd (deployGate w uuid io skip a g t))))). cooling_for a e)"
    if "find (cooling_for a) (m_values (cg_entries t)) = None" for t
  proof -
    let ?ops = "\<lparr> po_artifact_ref = Some a, po_description = Some (''auto-registered deploy: '' @ a),
                 po_risk_tier = Some MediumTier, po_cooldown_hours = None \<rparr>"
    have "cooling_for a (proposed_entry uuid (gw_now w) ?ops)" by (simp add: cooling_for_def proposed_entry_def)
    then have "\<exists>e \<in> set (m_values (cg_entries (fst (snd (propose w uuid io skip ?ops g t))))). cooling_for a e"
      unfolding propose_result using set_in_values by fast
    then show ?thesis using that assms by (simp add: deployGate_def Let_def case_prod_beta propose_result(1))
  qed
  have refused: "\<exists>r. fst (deployGate v u i k a h t) = Some r \<and> \<not> dr_allowed r \<and> fst (snd (deployGate v u i k a h t)) = t"
    if "find (cooling_for a) (m_values (cg_entries t)) = Some e" for t e v u i k h
    using that by (simp add: deployGate_def)
  let ?t = "fst (snd (deployGate w uuid io skip a g s))"
  have "find (cooling_for a) (m_values (cg_entries ?t)) \<noteq> None"
  proof (cases "find (cooling_for a) (m_values (cg_entries s))")
    case None
    then show ?thesis using fresh [OF None] unfolding find_None_all by blast
  next
    case (Some e)
    then have "?t = s" using refused [OF Some] by blast
    then show ?thesis using Some by (metis option.distinct(1))
  qed
  then have second: "\<exists>r. fst (deployGate w' uuid' io' skip' a g' ?t) = Some r \<and> \<not> dr_allowed r"
    using refused [of ?t] by blast
  have first: "case fst (deployGate w uuid io skip a g s) of None \<Rightarrow> False
     | Some r \<Rightarrow> dr_allowed r \<longleftrightarrow> list_all (\<lambda>e. \<not> cooling_for a e) (m_values (cg_entries s))"
  proof (cases "find (cooling_for a) (m_values (cg_entries s))")
    case None
    then show ?thesis using fresh [OF None] iffD1 [OF no_cooling None] by auto
  next
    case (Some e)
    then have "\<not> list_all (\<lambda>e. \<not> cooling_for a e) (m_values (cg_entries s))"
      using no_cooling [of a "cg_entries s"] by (metis option.distinct(1))
    moreover obtain r where "fst (deployGate w uuid io skip a g s) = Some r" "\<not> dr_allowed r"
      using refused [OF Some] by blast
    ultimately show ?thesis by simp
  qed
  show ?thesis using first second fresh [of "new_cooling_gate f"] by (auto simp: new_cooling_gate_def)
qed

theorem deploy_allowed_once_witness:
  "case fst (deployGate plain_world ''u'' True False ''a'' new_gate_state (new_cooling_gate Missing)) of
     None \<Rightarrow> False | Some r \<Rightarrow> dr_allowed r"
  using deploy_allowed_once [where io = True and skip = False and w = plain_world and uuid = "''u''" and a = "''a''"
      and g = new_gate_state and f = Missing] by blast

end
