(* ===== verification/Amanah_Lock.thy ===== *)
theory Amanah_Lock
  imports Text_Match
begin

text \<open>
  The mutex of file and infrastructure mutations
  (\<^verbatim>\<open>src/src/domain/governance/AmanahLockManager.ts\<close>) on both of its stores: the table
  \<^verbatim>\<open>amanah_locks\<close> of PostgreSQL and the JSON-lines vault that is used without a database.

  Times are milliseconds; the ISO texts the code compares as strings have a fixed width, so
  they compare as their times. A line of the vault is the record it denotes, or \<^term>\<open>None\<close>
  when \<^verbatim>\<open>JSON.parse\<close> throws on it. The table is the list of its rows, and its statements are
  what SQL says of them: \<^verbatim>\<open>lock_id\<close> is the primary key, so an \<^verbatim>\<open>INSERT\<close> under a used key
  fails. \<open>token\<close> says whether \<^verbatim>\<open>ARIFOS_GATE_TOKEN\<close> is set. An acquisition awaits the store
  between its check and its insertion; \<open>acquire_check\<close> and \<open>insert_lock\<close> are the two parts. The
  creation of the table and of the directory, and the messages, are left out.

  The locale \<open>lock_table\<close> is the contract both stores keep; exclusion is proved in it once.
\<close>

section \<open>Records\<close>

datatype lock_status = HELD | RELEASED | EXPIRED

record lock_record =
  lr_lock_id :: string
  lr_resource_id :: string
  lr_session_id :: "string option"
  lr_actor_id :: string
  lr_status :: lock_status
  lr_justification :: string
  lr_acquired_at :: int
  lr_expires_at :: int
  lr_released_at :: "int option"
  lr_release_reason :: "string option"

definition LOCK_TTL_MS :: int where "LOCK_TTL_MS = 5 * 60 * 1000"

definition live_at :: "int \<Rightarrow> lock_record \<Rightarrow> bool" where
  "live_at now r \<longleftrightarrow> lr_status r = HELD \<and> lr_expires_at r > now"

definition first_of :: "lock_record list \<Rightarrow> lock_record option" where
  "first_of rs = (case sort_key (\<lambda>r. - lr_acquired_at r) rs of [] \<Rightarrow> None | r # _ \<Rightarrow> Some r)"

section \<open>The vault\<close>

type_synonym vault = "lock_record option list"

text \<open>One line that does not parse makes \<^verbatim>\<open>_readVault\<close> return no records.\<close>

definition readVault :: "vault \<Rightarrow> lock_record list" where
  "readVault v = (if list_all (\<lambda>l. l \<noteq> None) v then map the v else [])"

definition appendVault :: "lock_record \<Rightarrow> vault \<Rightarrow> vault" where
  "appendVault r v = v @ [Some r]"

definition keep_latest :: "lock_record \<Rightarrow> (string, lock_record) jsmap \<Rightarrow> (string, lock_record) jsmap" where
  "keep_latest l m =
     (case m_get m (lr_lock_id l) of
        None \<Rightarrow> m_set (lr_lock_id l) l m
      | Some e \<Rightarrow> if lr_acquired_at l \<ge> lr_acquired_at e then m_set (lr_lock_id l) l m else m)"

definition latest_by_id :: "lock_record list \<Rightarrow> (string, lock_record) jsmap" where
  "latest_by_id ls = fold keep_latest ls []"

definition vault_active :: "int \<Rightarrow> string \<Rightarrow> vault \<Rightarrow> lock_record option" where
  "vault_active now res v =
     first_of (filter (\<lambda>l. lr_resource_id l = res \<and> live_at now l) (m_values (latest_by_id (readVault v))))"

definition vault_by_id :: "string \<Rightarrow> vault \<Rightarrow> lock_record option" where
  "vault_by_id i v = first_of (filter (\<lambda>l. lr_lock_id l = i) (readVault v))"

section \<open>The table\<close>

type_synonym table = "lock_record list"

definition table_active :: "int \<Rightarrow> string \<Rightarrow> table \<Rightarrow> lock_record option" where
  "table_active now res t = first_of (filter (\<lambda>l. lr_resource_id l = res \<and> live_at now l) t)"

definition table_by_id :: "string \<Rightarrow> table \<Rightarrow> lock_record option" where
  "table_by_id i t = find (\<lambda>l. lr_lock_id l = i) t"

definition released :: "int \<Rightarrow> string \<Rightarrow> lock_record \<Rightarrow> lock_record" where
  "released now why r = r\<lparr> lr_status := RELEASED, lr_released_at := Some now, lr_release_reason := Some why \<rparr>"

definition table_release :: "int \<Rightarrow> string \<Rightarrow> string \<Rightarrow> table \<Rightarrow> table" where
  "table_release now why i t = map (\<lambda>l. if lr_lock_id l = i then released now why l else l) t"

section \<open>The manager\<close>

datatype lock_store = Vault vault | Table table

definition stored_active :: "int \<Rightarrow> string \<Rightarrow> lock_store \<Rightarrow> lock_record option" where
  "stored_active now res st = (case st of Vault v \<Rightarrow> vault_active now res v | Table t \<Rightarrow> table_active now res t)"

definition getLockById :: "string \<Rightarrow> lock_store \<Rightarrow> lock_record option" where
  "getLockById i st = (case st of Vault v \<Rightarrow> vault_by_id i v | Table t \<Rightarrow> table_by_id i t)"

definition getActiveLock :: "bool \<Rightarrow> int \<Rightarrow> string \<Rightarrow> lock_store \<Rightarrow> lock_record option" where
  "getActiveLock token now res st =
     (if token then Some
        \<lparr> lr_lock_id = ''amanah-gate-synthetic'', lr_resource_id = res, lr_session_id = Some ''gate-session'',
          lr_actor_id = ''gate-authorized'', lr_status = HELD, lr_justification = ''ARIFOS_GATE_TOKEN authorized'',
          lr_acquired_at = now, lr_expires_at = now + 3600000, lr_released_at = None, lr_release_reason = None \<rparr>
      else stored_active now res st)"

definition isLocked :: "bool \<Rightarrow> int \<Rightarrow> string \<Rightarrow> lock_store \<Rightarrow> bool" where
  "isLocked token now res st \<longleftrightarrow> getActiveLock token now res st \<noteq> None"

record acquire_request =
  aq_resource :: string
  aq_actor :: string
  aq_justification :: string
  aq_session :: "string option"
  aq_ttl :: "int option"

datatype acquire_result =
    GateAuthorized string
  | Reentrant string
  | LockedBy lock_record
  | Granted string

definition is_granted :: "acquire_result \<Rightarrow> bool" where
  "is_granted a \<longleftrightarrow> (case a of LockedBy _ \<Rightarrow> False | _ \<Rightarrow> True)"

definition same_actor :: "string \<Rightarrow> string \<Rightarrow> bool" where
  "same_actor a b \<longleftrightarrow> to_lower (trim a) = to_lower (trim b)"

text \<open>A lock without a session reads back without one from the vault, and with \<^verbatim>\<open>null\<close> from the
  table, which is not \<^verbatim>\<open>undefined\<close>.\<close>

definition same_session :: "lock_store \<Rightarrow> string option \<Rightarrow> string option \<Rightarrow> bool" where
  "same_session st holder asked \<longleftrightarrow>
     (if asked = None then holder = None \<and> (case st of Vault _ \<Rightarrow> True | Table _ \<Rightarrow> False) else holder = asked)"

definition granted_record :: "string \<Rightarrow> int \<Rightarrow> acquire_request \<Rightarrow> lock_record" where
  "granted_record i now q =
     \<lparr> lr_lock_id = ''amanah-'' @ i, lr_resource_id = aq_resource q, lr_session_id = aq_session q,
       lr_actor_id = aq_actor q, lr_status = HELD, lr_justification = aq_justification q, lr_acquired_at = now,
       lr_expires_at = now + (case aq_ttl q of Some t \<Rightarrow> t | None \<Rightarrow> LOCK_TTL_MS), lr_released_at = None,
       lr_release_reason = None \<rparr>"

text \<open>The part before the insertion: an answer, or the record to insert.\<close>

definition acquire_check ::
  "bool \<Rightarrow> string \<Rightarrow> int \<Rightarrow> acquire_request \<Rightarrow> lock_store \<Rightarrow> acquire_result + lock_record" where
  "acquire_check token i now q st =
     (if token then Inl (GateAuthorized (''amanah-gate-'' @ i))
      else (case getActiveLock token now (aq_resource q) st of
          Some existing \<Rightarrow>
            Inl (if same_actor (lr_actor_id existing) (aq_actor q) \<and> same_session st (lr_session_id existing) (aq_session q)
                 then Reentrant (lr_lock_id existing) else LockedBy existing)
        | None \<Rightarrow> Inr (granted_record i now q)))"

text \<open>\<^term>\<open>None\<close> when the insertion is rejected.\<close>

definition insert_lock :: "lock_record \<Rightarrow> lock_store \<Rightarrow> lock_store option" where
  "insert_lock r st =
     (case st of
        Vault v \<Rightarrow> Some (Vault (appendVault r v))
      | Table t \<Rightarrow> if lr_lock_id r \<in> lr_lock_id ` set t then None else Some (Table (t @ [r])))"

definition acquireLock ::
  "bool \<Rightarrow> string \<Rightarrow> int \<Rightarrow> acquire_request \<Rightarrow> lock_store \<Rightarrow> acquire_result option \<times> lock_store" where
  "acquireLock token i now q st =
     (case acquire_check token i now q st of
        Inl a \<Rightarrow> (Some a, st)
      | Inr r \<Rightarrow>
          (case insert_lock r st of
             None \<Rightarrow> (None, st)
           | Some st' \<Rightarrow> (Some (Granted (lr_lock_id r)), st')))"

datatype release_result = ReleasedOk | LockNotFound | NotOwner string | NotHeld lock_status

definition releaseLock ::
  "int \<Rightarrow> string \<Rightarrow> string \<Rightarrow> string option \<Rightarrow> lock_store \<Rightarrow> release_result \<times> lock_store" where
  "releaseLock now i actor why st =
     (case getLockById i st of
        None \<Rightarrow> (LockNotFound, st)
      | Some r \<Rightarrow>
          if \<not> same_actor (lr_actor_id r) actor then (NotOwner (lr_actor_id r), st)
          else if lr_status r \<noteq> HELD then (NotHeld (lr_status r), st)
          else
            (let reason = (case why of Some w \<Rightarrow> w | None \<Rightarrow> ''manual_release'') in
             (ReleasedOk,
              case st of
                Vault v \<Rightarrow> Vault (appendVault (released now reason r) v)
              | Table t \<Rightarrow> Table (table_release now reason i t))))"

section \<open>The first of the records\<close>

lemma first_of_in: "first_of rs = Some r \<Longrightarrow> r \<in> set rs"
  unfolding first_of_def using set_sort [of "\<lambda>r. - lr_acquired_at r" rs]
  by (auto split: list.splits simp del: set_sort)

lemma first_of_None: "first_of rs = None \<longleftrightarrow> rs = []"
proof -
  have "sort_key (\<lambda>r. - lr_acquired_at r) rs = [] \<longleftrightarrow> rs = []"
    by (metis length_0_conv length_sort)
  then show ?thesis by (auto simp: first_of_def split: list.splits)
qed

lemma first_of_latest: "first_of rs = Some r \<Longrightarrow> r' \<in> set rs \<Longrightarrow> lr_acquired_at r' \<le> lr_acquired_at r"
proof -
  assume r: "first_of rs = Some r" and r': "r' \<in> set rs"
  obtain ys where ys: "sort_key (\<lambda>r. - lr_acquired_at r) rs = r # ys"
    using r by (auto simp: first_of_def split: list.splits)
  have "sorted (map (\<lambda>r. - lr_acquired_at r) (r # ys))" unfolding ys [symmetric] by simp
  moreover have "r' \<in> set (r # ys)" unfolding ys [symmetric] using r' by simp
  ultimately show ?thesis by auto
qed

section \<open>The contract of a store\<close>

locale lock_table =
  fixes active :: "int \<Rightarrow> string \<Rightarrow> 's \<Rightarrow> lock_record option"
    and insert_record :: "lock_record \<Rightarrow> 's \<Rightarrow> 's"
    and by_id :: "string \<Rightarrow> 's \<Rightarrow> lock_record option"
    and release_record :: "int \<Rightarrow> string \<Rightarrow> lock_record \<Rightarrow> 's \<Rightarrow> 's"
    and held :: "'s \<Rightarrow> lock_record set"
    and lock_ids :: "'s \<Rightarrow> string set"
    and valid :: "'s \<Rightarrow> bool"
  assumes active_None: "valid s \<Longrightarrow> active now res s = None \<longleftrightarrow>
      (\<forall>r \<in> held s. lr_resource_id r = res \<longrightarrow> \<not> lr_expires_at r > now)"
    and active_Some: "valid s \<Longrightarrow> active now res s = Some r \<Longrightarrow>
      r \<in> held s \<and> lr_resource_id r = res \<and> lr_expires_at r > now"
    and held_insert: "valid s \<Longrightarrow> lr_lock_id r \<notin> lock_ids s \<Longrightarrow> lr_status r = HELD \<Longrightarrow>
      valid (insert_record r s) \<and> held (insert_record r s) = insert r (held s)"
    and held_release: "valid s \<Longrightarrow> by_id i s = Some r \<Longrightarrow>
      valid (release_record now why r s) \<and> held (release_record now why r s) = {x \<in> held s. lr_lock_id x \<noteq> i}"
begin

definition exclusive :: "int \<Rightarrow> 's \<Rightarrow> bool" where
  "exclusive now s \<longleftrightarrow>
     (\<forall>r \<in> held s. \<forall>r' \<in> held s. lr_resource_id r = lr_resource_id r' \<longrightarrow>
        lr_expires_at r > now \<longrightarrow> lr_expires_at r' > now \<longrightarrow> r = r')"

lemma exclusive_later: "exclusive now s \<Longrightarrow> now \<le> now' \<Longrightarrow> exclusive now' s"
  unfolding exclusive_def by (meson le_less_trans)

lemma exclusive_insert:
  assumes "valid s" "exclusive now s" "lr_lock_id r \<notin> lock_ids s" "lr_status r = HELD"
    and "active now (lr_resource_id r) s = None"
  shows "exclusive now (insert_record r s)"
  using assms(2,5) held_insert [OF assms(1,3,4)] active_None [OF assms(1)]
  unfolding exclusive_def by auto

lemma exclusive_release:
  assumes "valid s" "exclusive now s" "by_id i s = Some r"
  shows "exclusive now (release_record t why r s)"
  using assms(2) held_release [OF assms(1,3)] unfolding exclusive_def by auto

lemma active_unique:
  assumes "valid s" "exclusive now s" "r \<in> held s" "lr_expires_at r > now"
  shows "active now (lr_resource_id r) s = Some r"
proof (cases "active now (lr_resource_id r) s")
  case None
  then show ?thesis using active_None [OF assms(1)] assms(3,4) by blast
next
  case (Some r')
  then show ?thesis using active_Some [OF assms(1) Some] assms unfolding exclusive_def by auto
qed

lemma both_held:
  assumes "valid s" "lr_lock_id r \<notin> lock_ids s" "lr_lock_id r' \<notin> lock_ids (insert_record r s)"
    "lr_status r = HELD" "lr_status r' = HELD"
  shows "r \<in> held (insert_record r' (insert_record r s)) \<and> r' \<in> held (insert_record r' (insert_record r s))"
  using held_insert [OF assms(1,2,4)] held_insert [of "insert_record r s" r'] assms(3,5) by auto

end

section \<open>The table keeps the contract\<close>

definition table_held :: "table \<Rightarrow> lock_record set" where
  "table_held t = {r \<in> set t. lr_status r = HELD}"

definition table_valid :: "table \<Rightarrow> bool" where
  "table_valid t \<longleftrightarrow> distinct (map lr_lock_id t)"

abbreviation table_ids :: "table \<Rightarrow> string set" where
  "table_ids t \<equiv> lr_lock_id ` set t"

lemma released_simps [simp]:
  "lr_status (released now why r) = RELEASED" "lr_lock_id (released now why r) = lr_lock_id r"
  "lr_acquired_at (released now why r) = lr_acquired_at r"
  by (simp_all add: released_def)

lemma table_release_ids: "map lr_lock_id (table_release now why i t) = map lr_lock_id t"
  by (simp add: table_release_def comp_def if_distrib [of lr_lock_id] cong: if_cong)

interpretation lock_rows: lock_table table_active "\<lambda>r t. t @ [r]" table_by_id
    "\<lambda>now why r t. table_release now why (lr_lock_id r) t" table_held table_ids table_valid
proof unfold_locales
  fix s :: table and now res
  show "table_active now res s = None \<longleftrightarrow>
      (\<forall>r \<in> table_held s. lr_resource_id r = res \<longrightarrow> \<not> lr_expires_at r > now)"
    by (auto simp: table_active_def first_of_None table_held_def live_at_def filter_empty_conv)
next
  fix s :: table and now res r
  assume "table_active now res s = Some r"
  then show "r \<in> table_held s \<and> lr_resource_id r = res \<and> lr_expires_at r > now"
    using first_of_in by (fastforce simp: table_active_def table_held_def live_at_def)
next
  fix s :: table and r :: lock_record
  assume "table_valid s" "lr_lock_id r \<notin> table_ids s" "lr_status r = HELD"
  then show "table_valid (s @ [r]) \<and> table_held (s @ [r]) = insert r (table_held s)"
    by (auto simp: table_valid_def table_held_def)
next
  fix s :: table and i r now why
  assume "table_valid s" "table_by_id i s = Some r"
  moreover have "lr_lock_id r = i" using find_Some_in [OF calculation(2) [unfolded table_by_id_def]] by simp
  moreover have "table_valid (table_release now why i s)"
    using calculation(1) table_release_ids [of now why i s] by (simp only: table_valid_def)
  ultimately show "table_valid (table_release now why (lr_lock_id r) s) \<and>
      table_held (table_release now why (lr_lock_id r) s) = {x \<in> table_held s. lr_lock_id x \<noteq> i}"
    by (auto simp: table_held_def table_release_def split: if_splits)
qed

section \<open>The vault keeps the contract\<close>

definition vault_held :: "vault \<Rightarrow> lock_record set" where
  "vault_held v = {r \<in> set (m_values (latest_by_id (readVault v))). lr_status r = HELD}"

definition vault_ids :: "vault \<Rightarrow> string set" where
  "vault_ids v = lr_lock_id ` set (readVault v)"

definition vault_valid :: "vault \<Rightarrow> bool" where
  "vault_valid v \<longleftrightarrow> list_all (\<lambda>l. l \<noteq> None) v"

lemma read_append: "vault_valid v \<Longrightarrow> readVault (appendVault r v) = readVault v @ [r] \<and> vault_valid (appendVault r v)"
  by (simp add: readVault_def appendVault_def vault_valid_def)

definition latest_ok :: "lock_record list \<Rightarrow> (string, lock_record) jsmap \<Rightarrow> bool" where
  "latest_ok ls m \<longleftrightarrow> m_wf m \<and> (\<forall>i r. m_get m i = Some r \<longrightarrow> lr_lock_id r = i \<and> r \<in> set ls) \<and>
     (\<forall>l \<in> set ls. m_get m (lr_lock_id l) \<noteq> None)"

lemma latest_snoc: "latest_by_id (ls @ [l]) = keep_latest l (latest_by_id ls)"
  by (simp add: latest_by_id_def)

lemma latest_ok_all: "latest_ok ls (latest_by_id ls)"
proof (induction ls rule: rev_induct)
  case Nil
  show ?case by (simp add: latest_by_id_def latest_ok_def m_wf_def)
next
  case (snoc l ls)
  then show ?case unfolding latest_snoc
    by (auto simp: latest_ok_def keep_latest_def store_simps m_wf_update split: option.splits if_splits)
qed

lemma held_iff: "r \<in> vault_held v \<longleftrightarrow> m_get (latest_by_id (readVault v)) (lr_lock_id r) = Some r \<and> lr_status r = HELD"
proof -
  let ?m = "latest_by_id (readVault v)"
  have wf: "m_wf ?m" and keys: "\<And>i r. m_get ?m i = Some r \<Longrightarrow> lr_lock_id r = i"
    using latest_ok_all [of "readVault v"] by (simp_all add: latest_ok_def)
  have "r \<in> set (m_values ?m) \<longleftrightarrow> m_get ?m (lr_lock_id r) = Some r"
  proof
    assume "r \<in> set (m_values ?m)"
    then obtain i where "(i, r) \<in> set ?m" by auto
    then have "m_get ?m i = Some r" using m_get_iff [OF wf] by blast
    then show "m_get ?m (lr_lock_id r) = Some r" using keys by blast
  qed (use m_get_in in force)
  then show ?thesis unfolding vault_held_def by blast
qed

lemma by_id_latest:
  assumes "vault_by_id i v = Some r"
  shows "lr_lock_id r = i" "m_get (latest_by_id (readVault v)) i = Some e \<Longrightarrow> lr_acquired_at e \<le> lr_acquired_at r"
proof -
  show "lr_lock_id r = i" using first_of_in [OF assms [unfolded vault_by_id_def]] by simp
  assume "m_get (latest_by_id (readVault v)) i = Some e"
  then have "e \<in> set (filter (\<lambda>l. lr_lock_id l = i) (readVault v))"
    using latest_ok_all [of "readVault v"] by (auto simp: latest_ok_def)
  then show "lr_acquired_at e \<le> lr_acquired_at r" by (rule first_of_latest [OF assms [unfolded vault_by_id_def]])
qed

interpretation lock_lines: lock_table vault_active appendVault vault_by_id
    "\<lambda>now why r v. appendVault (released now why r) v" vault_held vault_ids vault_valid
proof unfold_locales
  fix s :: vault and now res
  show "vault_active now res s = None \<longleftrightarrow>
      (\<forall>r \<in> vault_held s. lr_resource_id r = res \<longrightarrow> \<not> lr_expires_at r > now)"
    by (auto simp: vault_active_def first_of_None vault_held_def live_at_def filter_empty_conv)
next
  fix s :: vault and now res r
  assume "vault_active now res s = Some r"
  then show "r \<in> vault_held s \<and> lr_resource_id r = res \<and> lr_expires_at r > now"
    using first_of_in by (fastforce simp: vault_active_def vault_held_def live_at_def)
next
  fix s :: vault and r :: lock_record
  assume ok: "vault_valid s" "lr_lock_id r \<notin> vault_ids s" "lr_status r = HELD"
  let ?m = "latest_by_id (readVault s)"
  have new: "m_get ?m (lr_lock_id r) = None"
  proof (rule ccontr)
    assume "m_get ?m (lr_lock_id r) \<noteq> None"
    then obtain x where "m_get ?m (lr_lock_id r) = Some x" by blast
    then have "lr_lock_id x = lr_lock_id r" "x \<in> set (readVault s)"
      using latest_ok_all [of "readVault s"] unfolding latest_ok_def by blast+
    then have "lr_lock_id r \<in> vault_ids s" unfolding vault_ids_def by (metis imageI)
    then show False using ok(2) by contradiction
  qed
  then have latest: "latest_by_id (readVault (appendVault r s)) = m_set (lr_lock_id r) r ?m"
    using read_append [OF ok(1)] by (simp add: latest_snoc keep_latest_def)
  have "x \<in> vault_held (appendVault r s) \<longleftrightarrow> x = r \<or> x \<in> vault_held s" for x
    using ok(3) new unfolding held_iff latest by (auto simp: store_simps)
  then show "vault_valid (appendVault r s) \<and> vault_held (appendVault r s) = insert r (vault_held s)"
    using read_append [OF ok(1)] by blast
next
  fix s :: vault and i r now why
  assume ok: "vault_valid s" "vault_by_id i s = Some r"
  let ?m = "latest_by_id (readVault s)"
  have "keep_latest (released now why r) ?m = m_set i (released now why r) ?m"
    using by_id_latest [OF ok(2)] by (auto simp: keep_latest_def split: option.splits)
  then have latest: "latest_by_id (readVault (appendVault (released now why r) s)) = m_set i (released now why r) ?m"
    using read_append [OF ok(1)] by (simp add: latest_snoc)
  have "x \<in> vault_held (appendVault (released now why r) s) \<longleftrightarrow> x \<in> vault_held s \<and> lr_lock_id x \<noteq> i" for x
    unfolding held_iff latest by (auto simp: store_simps)
  then show "vault_valid (appendVault (released now why r) s) \<and>
      vault_held (appendVault (released now why r) s) = {x \<in> vault_held s. lr_lock_id x \<noteq> i}"
    using read_append [OF ok(1)] by blast
qed

section \<open>Exclusion\<close>

definition store_held :: "lock_store \<Rightarrow> lock_record set" where
  "store_held st = (case st of Vault v \<Rightarrow> vault_held v | Table t \<Rightarrow> table_held t)"

definition store_ids :: "lock_store \<Rightarrow> string set" where
  "store_ids st = (case st of Vault v \<Rightarrow> vault_ids v | Table t \<Rightarrow> table_ids t)"

definition store_valid :: "lock_store \<Rightarrow> bool" where
  "store_valid st = (case st of Vault v \<Rightarrow> vault_valid v | Table t \<Rightarrow> table_valid t)"

definition put_record :: "lock_record \<Rightarrow> lock_store \<Rightarrow> lock_store" where
  "put_record r st = (case st of Vault v \<Rightarrow> Vault (appendVault r v) | Table t \<Rightarrow> Table (t @ [r]))"

definition release_in :: "int \<Rightarrow> string \<Rightarrow> lock_record \<Rightarrow> lock_store \<Rightarrow> lock_store" where
  "release_in now why r st =
     (case st of Vault v \<Rightarrow> Vault (appendVault (released now why r) v)
      | Table t \<Rightarrow> Table (table_release now why (lr_lock_id r) t))"

interpretation lock_stores: lock_table stored_active put_record getLockById release_in store_held store_ids store_valid
proof unfold_locales
  fix s :: lock_store and now res
  assume "store_valid s"
  then show "stored_active now res s = None \<longleftrightarrow>
      (\<forall>r \<in> store_held s. lr_resource_id r = res \<longrightarrow> \<not> lr_expires_at r > now)"
    using lock_rows.active_None lock_lines.active_None
    by (cases s) (simp_all add: stored_active_def store_held_def store_valid_def)
next
  fix s :: lock_store and now res r
  assume "store_valid s" "stored_active now res s = Some r"
  then show "r \<in> store_held s \<and> lr_resource_id r = res \<and> lr_expires_at r > now"
    using lock_rows.active_Some lock_lines.active_Some
    by (cases s) (simp_all add: stored_active_def store_held_def store_valid_def)
next
  fix s :: lock_store and r :: lock_record
  assume "store_valid s" "lr_lock_id r \<notin> store_ids s" "lr_status r = HELD"
  then show "store_valid (put_record r s) \<and> store_held (put_record r s) = insert r (store_held s)"
    using lock_rows.held_insert lock_lines.held_insert
    by (cases s) (simp_all add: put_record_def store_held_def store_valid_def store_ids_def)
next
  fix s :: lock_store and i r now why
  assume "store_valid s" "getLockById i s = Some r"
  then show "store_valid (release_in now why r s) \<and>
      store_held (release_in now why r s) = {x \<in> store_held s. lr_lock_id x \<noteq> i}"
    using lock_rows.held_release lock_lines.held_release
    by (cases s) (simp_all add: release_in_def store_held_def store_valid_def getLockById_def)
qed

lemma insert_put: "lr_lock_id r \<notin> store_ids st \<Longrightarrow> insert_lock r st = Some (put_record r st)"
  by (cases st) (auto simp: insert_lock_def put_record_def store_ids_def)

lemma by_id_id: "getLockById i st = Some r \<Longrightarrow> lr_lock_id r = i"
  using find_Some_in by (cases st) (fastforce simp: getLockById_def table_by_id_def by_id_latest(1))+

lemma granted_simps [simp]: "lr_lock_id (granted_record i now q) = ''amanah-'' @ i" "lr_status (granted_record i now q) = HELD"
  "lr_resource_id (granted_record i now q) = aq_resource q" "lr_actor_id (granted_record i now q) = aq_actor q"
  by (simp_all add: granted_record_def)

lemma acquire_cases:
  assumes "''amanah-'' @ i \<notin> store_ids st"
  shows "acquireLock False i now q st =
    (case stored_active now (aq_resource q) st of
       Some r \<Rightarrow> (Some (if same_actor (lr_actor_id r) (aq_actor q) \<and> same_session st (lr_session_id r) (aq_session q)
           then Reentrant (lr_lock_id r) else LockedBy r), st)
     | None \<Rightarrow> (Some (Granted (''amanah-'' @ i)), put_record (granted_record i now q) st))"
  using insert_put [of "granted_record i now q" st] assms
  by (simp add: acquireLock_def acquire_check_def getActiveLock_def split: option.split)

lemma release_cases:
  "snd (releaseLock now i actor why st) = st \<or>
   (\<exists>r w. getLockById i st = Some r \<and> snd (releaseLock now i actor why st) = release_in now w r st)"
  using by_id_id [of i st] by (auto simp: releaseLock_def release_in_def Let_def split: option.splits lock_store.splits)

inductive lock_step :: "int \<times> lock_store \<Rightarrow> int \<times> lock_store \<Rightarrow> bool" where
  acquire: "''amanah-'' @ i \<notin> store_ids st \<Longrightarrow> lock_step (now, st) (now, snd (acquireLock False i now q st))"
| release: "lock_step (now, st) (now, snd (releaseLock now i actor why st))"
| tick: "now \<le> now' \<Longrightarrow> lock_step (now, st) (now', st)"

definition lock_inv :: "int \<times> lock_store \<Rightarrow> bool" where
  "lock_inv s \<longleftrightarrow> store_valid (snd s) \<and> lock_stores.exclusive (fst s) (snd s)"

lemma lock_step_inv: "lock_step s t \<Longrightarrow> lock_inv s \<Longrightarrow> lock_inv t"
proof (induction rule: lock_step.induct)
  case (acquire i st now q)
  then show ?case using lock_stores.exclusive_insert [of st now "granted_record i now q"]
      lock_stores.held_insert [of st "granted_record i now q"]
    by (auto simp: lock_inv_def acquire_cases split: option.split)
next
  case (release now st i actor why)
  then show ?case using release_cases [of now i actor why st] lock_stores.exclusive_release lock_stores.held_release
    by (auto simp: lock_inv_def)
next
  case (tick now now' st)
  then show ?case using lock_stores.exclusive_later by (auto simp: lock_inv_def)
qed

interpretation locks: kept_invariant lock_step lock_inv
  by unfold_locales (rule lock_step_inv)

definition empty_store :: "lock_store \<Rightarrow> bool" where
  "empty_store st \<longleftrightarrow> st = Vault [] \<or> st = Table []"

lemma empty_inv: "empty_store st \<Longrightarrow> lock_inv (now, st)"
  by (auto simp: empty_store_def lock_inv_def store_valid_def vault_valid_def table_valid_def
      lock_stores.exclusive_def store_held_def held_iff table_held_def readVault_def latest_by_id_def)

text \<open>
  C25. On either store, without a gate token and when acquisitions do not overlap, a resource has at most one
  unexpired lock at any time; while it has one, an acquisition by another actor or for another session
  is refused with that lock and changes nothing, and its own actor and session get the same
  lock again --- except that on the table a holder without a session is refused its own lock, since
  the session reads back as \<^verbatim>\<open>null\<close> there (\<^term>\<open>same_session\<close>). With a gate token every acquisition is granted
  and nothing is recorded.
\<close>

theorem sequential_locks_exclude:
  assumes "empty_store st0" "lock_step\<^sup>*\<^sup>* (t0, st0) (now, st)"
    and "r \<in> store_held st" "lr_expires_at r > now" "lr_resource_id r = aq_resource q"
    and "''amanah-'' @ i \<notin> store_ids st"
  shows "(\<forall>r' \<in> store_held st. lr_resource_id r' = lr_resource_id r \<longrightarrow> lr_expires_at r' > now \<longrightarrow> r' = r) \<and>
    acquireLock False i now q st =
      (Some (if same_actor (lr_actor_id r) (aq_actor q) \<and> same_session st (lr_session_id r) (aq_session q)
             then Reentrant (lr_lock_id r) else LockedBy r), st)"
proof -
  have "lock_inv (now, st)" by (rule locks.run_inv [OF assms(2) empty_inv [OF assms(1)]])
  then have ok: "store_valid st" "lock_stores.exclusive now st" by (simp_all add: lock_inv_def)
  have "stored_active now (aq_resource q) st = Some r"
    using lock_stores.active_unique [OF ok assms(3,4)] assms(5) by simp
  then show ?thesis using acquire_cases [OF assms(6), of now q] ok(2) assms(3-5)
    by (auto simp: lock_stores.exclusive_def)
qed

definition build_request :: acquire_request where
  "build_request = \<lparr> aq_resource = ''build'', aq_actor = ''Kimi '', aq_justification = ''j'', aq_session = None, aq_ttl = None \<rparr>"

definition rival_request :: acquire_request where
  "rival_request = build_request\<lparr>aq_actor := ''codex''\<rparr>"

theorem sequential_locks_exclude_witness:
  "acquireLock False ''2'' 1000 rival_request (snd (acquireLock False ''1'' 0 build_request (Vault []))) =
     (Some (LockedBy (granted_record ''1'' 0 build_request)), snd (acquireLock False ''1'' 0 build_request (Vault [])))"
proof -
  let ?st = "snd (acquireLock False ''1'' 0 build_request (Vault []))"
  have st: "?st = Vault [Some (granted_record ''1'' 0 build_request)]" by code_simp
  have "lock_step (0, Vault []) (0, ?st)" by (rule lock_step.acquire) (simp add: store_ids_def vault_ids_def readVault_def)
  moreover have "lock_step (0, ?st) (1000, ?st)" by (rule lock_step.tick) simp
  ultimately have run: "lock_step\<^sup>*\<^sup>* (0, Vault []) (1000, ?st)" by (meson rtranclp.rtrancl_into_rtrancl r_into_rtranclp)
  have r: "granted_record ''1'' 0 build_request \<in> store_held ?st"
    unfolding st by (simp add: store_held_def held_iff readVault_def latest_by_id_def keep_latest_def)
  have "\<not> same_actor (aq_actor build_request) (aq_actor rival_request)" by code_simp
  then show ?thesis using sequential_locks_exclude [OF _ run r, of rival_request "''2''"]
    by (simp add: empty_store_def rival_request_def build_request_def granted_record_def LOCK_TTL_MS_def
        st [unfolded build_request_def granted_record_def LOCK_TTL_MS_def] store_ids_def vault_ids_def readVault_def)
qed

text \<open>The holder without a session, on the table and on the vault\<close>

lemma holder_without_session_refused:
  "fst (acquireLock False ''2'' 1 build_request (Table [granted_record ''1'' 0 build_request])) =
     Some (LockedBy (granted_record ''1'' 0 build_request))"
  "fst (acquireLock False ''2'' 1 build_request (Vault [Some (granted_record ''1'' 0 build_request)])) =
     Some (Reentrant ''amanah-1'')"
  by code_simp+

text \<open>
  The check and the insertion of an acquisition are not atomic: two actors whose checks both
  run on a store where the resource is free are both granted it, on either store, and both
  hold unexpired locks on it.
\<close>

theorem overlapping_locks_share:
  assumes "store_valid st" "acquire_check False i now q st = Inr r" "acquire_check False j now q' st = Inr r'"
    and "aq_resource q' = aq_resource q" "i \<noteq> j" "''amanah-'' @ i \<notin> store_ids st" "''amanah-'' @ j \<notin> store_ids st"
  shows "case insert_lock r st of None \<Rightarrow> False | Some st1 \<Rightarrow>
    (case insert_lock r' st1 of None \<Rightarrow> False | Some st2 \<Rightarrow>
      r \<in> store_held st2 \<and> r' \<in> store_held st2 \<and> lr_lock_id r \<noteq> lr_lock_id r' \<and>
      lr_resource_id r = lr_resource_id r' \<and> lr_actor_id r = aq_actor q \<and> lr_actor_id r' = aq_actor q')"
proof -
  have r: "r = granted_record i now q" "r' = granted_record j now q'"
    using assms(2,3) by (auto simp: acquire_check_def split: option.splits)
  have first: "insert_lock r st = Some (put_record r st)" using insert_put assms(6) r by simp
  have ids: "store_ids (put_record r st) = insert (lr_lock_id r) (store_ids st)"
    using assms(1) read_append [of _ r]
    by (cases st) (auto simp: put_record_def store_ids_def vault_ids_def store_valid_def)
  then have fresh: "lr_lock_id r' \<notin> store_ids (put_record r st)" using assms(5,7) r by simp
  have second: "insert_lock r' (put_record r st) = Some (put_record r' (put_record r st))" by (rule insert_put [OF fresh])
  have "r \<in> store_held (put_record r' (put_record r st)) \<and> r' \<in> store_held (put_record r' (put_record r st))"
    by (rule lock_stores.both_held) (use assms(1,6) fresh r in simp_all)
  then show ?thesis using first second assms(4,5) r by simp
qed

theorem overlapping_locks_share_witness:
  "case insert_lock (granted_record ''1'' 0 build_request) (Table []) of None \<Rightarrow> False | Some st1 \<Rightarrow>
    (case insert_lock (granted_record ''2'' 0 rival_request) st1 of None \<Rightarrow> False | Some st2 \<Rightarrow>
      granted_record ''1'' 0 build_request \<in> store_held st2 \<and> granted_record ''2'' 0 rival_request \<in> store_held st2)"
proof -
  have "acquire_check False ''1'' 0 build_request (Table []) = Inr (granted_record ''1'' 0 build_request)"
    "acquire_check False ''2'' 0 rival_request (Table []) = Inr (granted_record ''2'' 0 rival_request)"
    "aq_resource rival_request = aq_resource build_request"
    by code_simp+
  from overlapping_locks_share [OF _ this] show ?thesis
    by (auto simp: store_valid_def table_valid_def store_ids_def split: option.splits)
qed

section \<open>Releases\<close>

lemma first_of_filter:
  assumes "first_of rs = Some r"
  shows "\<exists>ys. filter (\<lambda>x. lr_acquired_at x = lr_acquired_at r) rs = r # ys"
proof -
  obtain ys where "sort_key (\<lambda>r. - lr_acquired_at r) rs = r # ys"
    using assms by (auto simp: first_of_def split: list.splits)
  then have "filter (\<lambda>y. - lr_acquired_at y = - lr_acquired_at r) (sort_key (\<lambda>r. - lr_acquired_at r) rs) =
      r # filter (\<lambda>y. - lr_acquired_at y = - lr_acquired_at r) ys" by simp
  then show ?thesis unfolding sort_key_stable by auto
qed

lemma first_of_append:
  assumes "first_of rs = Some r" "lr_acquired_at y = lr_acquired_at r"
  shows "first_of (rs @ [y]) = Some r"
proof -
  have "first_of (rs @ [y]) \<noteq> None" by (simp add: first_of_None)
  then obtain z where z: "first_of (rs @ [y]) = Some z" by blast
  have "lr_acquired_at z \<le> lr_acquired_at r"
    using first_of_in [OF z] first_of_latest [OF assms(1)] assms(2) by auto
  moreover have "lr_acquired_at r \<le> lr_acquired_at z"
    using first_of_latest [OF z, of r] first_of_in [OF assms(1)] by simp
  ultimately have eq: "lr_acquired_at z = lr_acquired_at r" by simp
  obtain xs where xs: "filter (\<lambda>x. lr_acquired_at x = lr_acquired_at r) rs = r # xs"
    using first_of_filter [OF assms(1)] by blast
  obtain ys where "filter (\<lambda>x. lr_acquired_at x = lr_acquired_at r) (rs @ [y]) = z # ys"
    using first_of_filter [OF z] eq by auto
  then show ?thesis using z xs by simp
qed

lemma vault_by_id_released:
  assumes "vault_valid v" "vault_by_id i v = Some r"
  shows "vault_by_id i (appendVault (released now why r) v) = Some r"
  using first_of_append [OF assms(2) [unfolded vault_by_id_def], of "released now why r"]
    read_append [OF assms(1)] by_id_latest(1) [OF assms(2)] by (simp add: vault_by_id_def)

lemma find_map_released:
  "find (\<lambda>l. lr_lock_id l = i) t = Some r \<Longrightarrow>
   find (\<lambda>l. lr_lock_id l = i) (table_release now why i t) = Some (released now why r)"
  by (induction t) (auto simp: table_release_def split: if_splits)

text \<open>
  A release is for the holder: it succeeds only for an actor that is the holder's up to case
  and white space, and then the lock is no longer held. A second release of the same lock
  fails on the table but succeeds again in the vault, where the lookup by identifier finds the
  line of the acquisition and not the later line of the release.
\<close>

theorem released_lock_is_free:
  assumes "store_valid st" "fst (releaseLock now i actor why st) = ReleasedOk"
  shows "(\<exists>r. getLockById i st = Some r \<and> same_actor (lr_actor_id r) actor) \<and>
    store_held (snd (releaseLock now i actor why st)) = {r \<in> store_held st. lr_lock_id r \<noteq> i} \<and>
    fst (releaseLock now' i actor why' (snd (releaseLock now i actor why st))) =
      (case st of Vault v \<Rightarrow> ReleasedOk | Table t \<Rightarrow> NotHeld RELEASED)"
proof -
  obtain r where r: "getLockById i st = Some r" "same_actor (lr_actor_id r) actor" "lr_status r = HELD"
    using assms(2) by (auto simp: releaseLock_def split: option.splits if_splits)
  define w where "w = (case why of Some x \<Rightarrow> x | None \<Rightarrow> ''manual_release'')"
  have st': "snd (releaseLock now i actor why st) = release_in now w r st"
    using r by_id_id [OF r(1)] by (simp add: releaseLock_def release_in_def w_def Let_def split: lock_store.split)
  have "store_held (release_in now w r st) = {x \<in> store_held st. lr_lock_id x \<noteq> i}"
    using lock_stores.held_release [OF assms(1) r(1)] by blast
  moreover have "fst (releaseLock now' i actor why' (release_in now w r st)) =
      (case st of Vault v \<Rightarrow> ReleasedOk | Table t \<Rightarrow> NotHeld RELEASED)"
  proof (cases st)
    case (Vault v)
    then have "getLockById i (release_in now w r st) = Some r"
      using vault_by_id_released [of v i r now w] assms(1) r(1)
      by (simp add: getLockById_def release_in_def store_valid_def)
    then show ?thesis using r Vault by (simp add: releaseLock_def Let_def)
  next
    case (Table t)
    then have "getLockById i (release_in now w r st) = Some (released now w r)"
      using find_map_released [of i t r now w] r(1) by_id_id [OF r(1)]
      by (simp add: getLockById_def release_in_def table_by_id_def)
    moreover have "lr_actor_id (released now w r) = lr_actor_id r" by (simp add: released_def)
    ultimately show ?thesis using r Table by (simp add: releaseLock_def)
  qed
  ultimately show ?thesis using r st' by auto
qed

theorem released_lock_is_free_witness:
  "fst (releaseLock 2 ''amanah-1'' ''KIMI'' None
      (snd (releaseLock 1 ''amanah-1'' ''KIMI'' None (Vault [Some (granted_record ''1'' 0 build_request)])))) = ReleasedOk"
proof -
  have "fst (releaseLock 1 ''amanah-1'' ''KIMI'' None (Vault [Some (granted_record ''1'' 0 build_request)])) = ReleasedOk"
    by code_simp
  moreover have "store_valid (Vault [Some (granted_record ''1'' 0 build_request)])" by (simp add: store_valid_def vault_valid_def)
  ultimately show ?thesis
    using released_lock_is_free [of "Vault [Some (granted_record ''1'' 0 build_request)]" 1 "''amanah-1''" "''KIMI''" None 2 None]
    by simp
qed

section \<open>A corrupted vault\<close>

text \<open>
  One line that does not parse opens the vault: from then on every resource is free, so every
  acquisition is granted whoever holds a lock, no lock can be released, and the appended
  records do not mend it.
\<close>

theorem corrupted_vault_opens:
  assumes "None \<in> set v"
  shows "acquireLock False i now q (Vault v) =
      (Some (Granted (''amanah-'' @ i)), Vault (v @ [Some (granted_record i now q)])) \<and>
    \<not> isLocked False now res (Vault v) \<and> fst (releaseLock now k actor why (Vault v)) = LockNotFound \<and>
    None \<in> set (v @ [Some (granted_record i now q)])"
proof -
  have empty: "readVault v = []" using assms by (auto simp: readVault_def list_all_iff)
  have free: "stored_active now res' (Vault v) = None" for res'
    by (simp add: stored_active_def vault_active_def empty latest_by_id_def first_of_None)
  have "getLockById k (Vault v) = None" by (simp add: getLockById_def vault_by_id_def empty first_of_None)
  then show ?thesis using free assms
    by (simp add: acquireLock_def acquire_check_def getActiveLock_def insert_lock_def isLocked_def releaseLock_def appendVault_def)
qed

theorem corrupted_vault_opens_witness:
  "acquireLock False ''2'' 0 rival_request (Vault [Some (granted_record ''1'' 0 build_request), None]) =
     (Some (Granted ''amanah-2''), Vault [Some (granted_record ''1'' 0 build_request), None,
        Some (granted_record ''2'' 0 rival_request)])"
  using corrupted_vault_opens [of "[Some (granted_record ''1'' 0 build_request), None]" "''2''" 0 rival_request] by simp

end
