(* ===== verification/Capability_Lease.thy ===== *)
theory Capability_Lease
  imports Act_Token
begin

text \<open>
  The permits of ephemeral tools (\<^verbatim>\<open>src/src/domain/forge/CapabilityLease.ts\<close>): the green and
  yellow leases, the hash that seals a lease, its validation and the check of the paths a tool
  asks for.

  Identifiers and the two readings of the clock are arguments; \<open>isoText\<close> prints a time as the ISO
  text that \<^const>\<open>get_time\<close> reads. A violation is a constructor that stands for its text.
\<close>

section \<open>Leases\<close>

datatype lease_operation = ReadTransform | ComputeOnly | ReadApi | ReadRepo | ProcessUserdata

datatype authority_band = GREEN | YELLOW | ORANGE | RED

datatype credential_mode = NoCredentials | ScopedCredentials

datatype lease_state = L_ISSUED | L_ACTIVE | L_EXPIRED | L_REVOKED | L_VIOLATED

record filesystem_scope =
  fs_read :: "string list"
  fs_write :: "string list"
  fs_deny :: "string list"

record network_scope =
  ns_allow :: bool
  ns_allowedDomains :: "string list option"
  ns_allowedPorts :: "int list option"

record resource_limits =
  rl_cpuLimit :: rat
  rl_memoryMB :: rat
  rl_timeoutSeconds :: rat
  rl_maxFileSizeMB :: rat
  rl_maxProcesses :: rat

record lease =
  le_leaseId :: string
  le_purpose :: string
  le_allowedOperation :: lease_operation
  le_authorityBand :: authority_band
  le_filesystem :: filesystem_scope
  le_network :: network_scope
  le_resources :: resource_limits
  le_credentials :: credential_mode
  le_credentialScope :: "string list option"
  le_persistentRegistration :: bool
  le_selfPromotion :: bool
  le_issuedAt :: string
  le_expiresAt :: string
  le_issuedBy :: string
  le_toolHash :: string
  le_leaseHash :: "string option"
  le_state :: lease_state

section \<open>The hash of a lease\<close>

fun operation_text :: "lease_operation \<Rightarrow> string" where
  "operation_text ReadTransform = ''read_transform''" | "operation_text ComputeOnly = ''compute_only''"
| "operation_text ReadApi = ''read_api''" | "operation_text ReadRepo = ''read_repo''"
| "operation_text ProcessUserdata = ''process_userdata''"

fun band_text :: "authority_band \<Rightarrow> string" where
  "band_text GREEN = ''GREEN''" | "band_text YELLOW = ''YELLOW''" | "band_text ORANGE = ''ORANGE''"
| "band_text RED = ''RED''"

fun credential_text :: "credential_mode \<Rightarrow> string" where
  "credential_text NoCredentials = ''NONE''" | "credential_text ScopedCredentials = ''SCOPED''"

definition filesystem_json :: "filesystem_scope \<Rightarrow> json" where
  "filesystem_json f = JObj
     [(''read'', JArr (map JStr (fs_read f))), (''write'', JArr (map JStr (fs_write f))),
      (''deny'', JArr (map JStr (fs_deny f)))]"

definition network_json :: "network_scope \<Rightarrow> json" where
  "network_json n = JObj
     [(''allow'', JBool (ns_allow n)),
      (''allowedDomains'', case ns_allowedDomains n of None \<Rightarrow> JUndef | Some ds \<Rightarrow> JArr (map JStr ds)),
      (''allowedPorts'', case ns_allowedPorts n of None \<Rightarrow> JUndef | Some ps \<Rightarrow> JArr (map (\<lambda>p. JNum (of_int p)) ps))]"

definition resources_json :: "resource_limits \<Rightarrow> json" where
  "resources_json r = JObj
     [(''cpuLimit'', JNum (rl_cpuLimit r)), (''memoryMB'', JNum (rl_memoryMB r)),
      (''timeoutSeconds'', JNum (rl_timeoutSeconds r)), (''maxFileSizeMB'', JNum (rl_maxFileSizeMB r)),
      (''maxProcesses'', JNum (rl_maxProcesses r))]"

definition lease_json :: "lease \<Rightarrow> json" where
  "lease_json l = JObj
     [(''leaseId'', JStr (le_leaseId l)), (''purpose'', JStr (le_purpose l)),
      (''allowedOperation'', JStr (operation_text (le_allowedOperation l))),
      (''authorityBand'', JStr (band_text (le_authorityBand l))), (''filesystem'', filesystem_json (le_filesystem l)),
      (''network'', network_json (le_network l)), (''resources'', resources_json (le_resources l)),
      (''credentials'', JStr (credential_text (le_credentials l))),
      (''persistentRegistration'', JBool (le_persistentRegistration l)),
      (''selfPromotion'', JBool (le_selfPromotion l)), (''issuedAt'', JStr (le_issuedAt l)),
      (''expiresAt'', JStr (le_expiresAt l)), (''toolHash'', JStr (le_toolHash l))]"

text \<open>\<^verbatim>\<open>Object.keys(lease)\<close>\<close>

definition lease_keys :: "lease \<Rightarrow> string list" where
  "lease_keys l =
     [''leaseId'', ''purpose'', ''allowedOperation'', ''authorityBand'', ''filesystem'', ''network'', ''resources'',
      ''credentials'', ''persistentRegistration'', ''selfPromotion'', ''issuedAt'', ''expiresAt'', ''issuedBy'',
      ''toolHash'', ''state''] @
     (if le_leaseHash l = None then [] else [''leaseHash'']) @
     (if le_credentialScope l = None then [] else [''credentialScope''])"

definition computeLeaseHash :: "runtime \<Rightarrow> lease \<Rightarrow> string" where
  "computeLeaseHash rt l = sha256 rt (stringify_keys rt (sort (lease_keys l)) (lease_json l))"

section \<open>Creation\<close>

text \<open>\<^verbatim>\<open>timeout || default\<close>\<close>

definition timeout_or :: "rat option \<Rightarrow> rat \<Rightarrow> rat" where
  "timeout_or t d = (case t of None \<Rightarrow> d | Some x \<Rightarrow> if x = 0 then d else x)"

definition createGreenLease ::
  "runtime \<Rightarrow> (int \<Rightarrow> string) \<Rightarrow> string \<Rightarrow> int \<Rightarrow> string \<Rightarrow> string \<Rightarrow> string \<Rightarrow> rat option \<Rightarrow> lease" where
  "createGreenLease rt isoText uuid now purpose issuedBy toolCode timeout =
     (let l = \<lparr> le_leaseId = ''caplease-'' @ take 12 uuid, le_purpose = purpose, le_allowedOperation = ComputeOnly,
          le_authorityBand = GREEN,
          le_filesystem = \<lparr> fs_read = [''/tmp/forge8/staging''], fs_write = [''/tmp/forge8/output''],
            fs_deny = [''/root/.secrets'', ''/root/.ssh'', ''/root/VAULT999'', ''/etc'', ''/opt'', ''/var/lib''] \<rparr>,
          le_network = \<lparr> ns_allow = False, ns_allowedDomains = None, ns_allowedPorts = None \<rparr>,
          le_resources = \<lparr> rl_cpuLimit = 1, rl_memoryMB = 512, rl_timeoutSeconds = timeout_or timeout 120,
            rl_maxFileSizeMB = 10, rl_maxProcesses = 4 \<rparr>,
          le_credentials = NoCredentials, le_credentialScope = None, le_persistentRegistration = False,
          le_selfPromotion = False, le_issuedAt = isoText now, le_expiresAt = isoText (now + 24 * 60 * 60 * 1000),
          le_issuedBy = issuedBy, le_toolHash = sha256 rt toolCode, le_leaseHash = None, le_state = L_ISSUED \<rparr> in
      l\<lparr>le_leaseHash := Some (computeLeaseHash rt l)\<rparr>)"

definition createYellowLease ::
  "runtime \<Rightarrow> (int \<Rightarrow> string) \<Rightarrow> string \<times> string \<Rightarrow> int \<Rightarrow> string \<Rightarrow> string \<Rightarrow> string \<Rightarrow> string list \<Rightarrow>
   string list option \<Rightarrow> rat option \<Rightarrow> lease" where
  "createYellowLease rt isoText uuids now purpose issuedBy toolCode allowedDomains readPaths timeout =
     (let green = createGreenLease rt isoText (fst uuids) now purpose issuedBy toolCode (Some (timeout_or timeout 300)) in
      green\<lparr> le_leaseId := ''caplease-'' @ take 12 (snd uuids), le_allowedOperation := ReadApi,
        le_authorityBand := YELLOW,
        le_filesystem := (le_filesystem green)
          \<lparr>fs_read := fs_read (le_filesystem green) @ (case readPaths of None \<Rightarrow> [] | Some ps \<Rightarrow> ps)\<rparr>,
        le_network := \<lparr> ns_allow = True, ns_allowedDomains = Some allowedDomains, ns_allowedPorts = Some [443, 80] \<rparr> \<rparr>)"

section \<open>Validation\<close>

datatype lease_violation =
    LeaseHasExpired
  | LeaseRevoked
  | LeaseViolated
  | PersistentRegistration
  | SelfPromotion
  | BandRequiresNoCredentials authority_band
  | GreenRequiresNoNetwork
  | TimeoutTooLong
  | TooMuchMemory
  | TooManyCores
  | DenyListMissing string
  | LeaseHashMismatch
  | ReadOutOfScope string
  | WriteOutOfScope string
  | NetworkNotPermitted

definition flag :: "bool \<Rightarrow> lease_violation \<Rightarrow> lease_violation list" where
  "flag b v = (if b then [v] else [])"

definition isLeaseExpired :: "runtime \<Rightarrow> int \<Rightarrow> lease \<Rightarrow> bool" where
  "isLeaseExpired rt now l \<longleftrightarrow> get_time rt (le_expiresAt l) \<le> now"

definition isLeaseActive :: "runtime \<Rightarrow> int \<Rightarrow> lease \<Rightarrow> bool" where
  "isLeaseActive rt now l \<longleftrightarrow> (le_state l = L_ISSUED \<or> le_state l = L_ACTIVE) \<and> \<not> isLeaseExpired rt now l"

definition denyRequired :: "string list" where
  "denyRequired = [''/root/.secrets'', ''/root/.ssh'']"

definition lease_violations :: "runtime \<Rightarrow> int \<Rightarrow> lease \<Rightarrow> lease_violation list" where
  "lease_violations rt now l =
     flag (isLeaseExpired rt now l) LeaseHasExpired @
     flag (le_state l = L_REVOKED) LeaseRevoked @
     flag (le_state l = L_VIOLATED) LeaseViolated @
     flag (le_persistentRegistration l) PersistentRegistration @
     flag (le_selfPromotion l) SelfPromotion @
     flag (le_authorityBand l \<in> {GREEN, YELLOW} \<and> le_credentials l \<noteq> NoCredentials)
       (BandRequiresNoCredentials (le_authorityBand l)) @
     flag (le_authorityBand l = GREEN \<and> ns_allow (le_network l)) GreenRequiresNoNetwork @
     flag (rl_timeoutSeconds (le_resources l) > 3600) TimeoutTooLong @
     flag (rl_memoryMB (le_resources l) > 4096) TooMuchMemory @
     flag (rl_cpuLimit (le_resources l) > 4) TooManyCores @
     concat (map (\<lambda>p. flag (\<not> list_ex (\<lambda>d. starts_with d p) (fs_deny (le_filesystem l))) (DenyListMissing p))
       denyRequired) @
     flag (Some (computeLeaseHash rt l) \<noteq> le_leaseHash l) LeaseHashMismatch"

definition validateLease :: "runtime \<Rightarrow> int \<Rightarrow> lease \<Rightarrow> bool \<times> lease_violation list" where
  "validateLease rt now l = (let vs = lease_violations rt now l in (vs = [], vs))"

definition in_scope :: "string list \<Rightarrow> string list \<Rightarrow> string \<Rightarrow> bool" where
  "in_scope allow deny path \<longleftrightarrow> list_ex (starts_with path) allow \<and> \<not> list_ex (starts_with path) deny"

definition checkOperationScope ::
  "lease \<Rightarrow> string list \<Rightarrow> string list \<Rightarrow> bool \<Rightarrow> bool \<times> lease_violation list" where
  "checkOperationScope l reads writes wantsNetwork =
     (let f = le_filesystem l;
          vs = concat (map (\<lambda>p. flag (\<not> in_scope (fs_read f) (fs_deny f) p) (ReadOutOfScope p)) reads) @
               concat (map (\<lambda>p. flag (\<not> in_scope (fs_write f) (fs_deny f) p) (WriteOutOfScope p)) writes) @
               flag (wantsNetwork \<and> \<not> ns_allow (le_network l)) NetworkNotPermitted in
      (vs = [], vs))"

section \<open>What the hash covers\<close>

definition covered_fields :: "lease \<Rightarrow> (string \<times> json) list" where
  "covered_fields l =
     [(''allowedOperation'', JStr (operation_text (le_allowedOperation l))),
      (''authorityBand'', JStr (band_text (le_authorityBand l))), (''credentials'', JStr (credential_text (le_credentials l))),
      (''expiresAt'', JStr (le_expiresAt l)), (''filesystem'', JObj []), (''issuedAt'', JStr (le_issuedAt l)),
      (''leaseId'', JStr (le_leaseId l)), (''network'', JObj []),
      (''persistentRegistration'', JBool (le_persistentRegistration l)), (''purpose'', JStr (le_purpose l)),
      (''resources'', JObj []), (''selfPromotion'', JBool (le_selfPromotion l)), (''toolHash'', JStr (le_toolHash l))]"

definition sorted_keys :: "bool \<Rightarrow> bool \<Rightarrow> string list" where
  "sorted_keys hashed scoped =
     [''allowedOperation'', ''authorityBand''] @ (if scoped then [''credentialScope''] else []) @
     [''credentials'', ''expiresAt'', ''filesystem'', ''issuedAt'', ''issuedBy''] @
     (if hashed then [''leaseHash''] else []) @
     [''leaseId'', ''network'', ''persistentRegistration'', ''purpose'', ''resources'', ''selfPromotion'', ''state'', ''toolHash'']"

lemma sort_lease_keys: "sort (lease_keys l) = sorted_keys (le_leaseHash l \<noteq> None) (le_credentialScope l \<noteq> None)"
proof -
  have "sort ([''leaseId'', ''purpose'', ''allowedOperation'', ''authorityBand'', ''filesystem'', ''network'', ''resources'',
      ''credentials'', ''persistentRegistration'', ''selfPromotion'', ''issuedAt'', ''expiresAt'', ''issuedBy'',
      ''toolHash'', ''state''] @ (if \<not> hashed then [] else [''leaseHash'']) @
      (if \<not> scoped then [] else [''credentialScope''])) =
      sorted_keys hashed scoped" for hashed scoped
    by (cases hashed; cases scoped; simp only: if_True if_False not_True_eq_False not_False_eq_True; code_simp)
  from this [of "le_leaseHash l \<noteq> None" "le_credentialScope l \<noteq> None"] show ?thesis
    unfolding lease_keys_def by (simp only: not_not)
qed

lemma nested_unhashed:
  "restrict_keys (sorted_keys h c) (filesystem_json f) = JObj []"
  "restrict_keys (sorted_keys h c) (network_json n) = JObj []"
  "restrict_keys (sorted_keys h c) (resources_json r) = JObj []"
  unfolding filesystem_json_def network_json_def resources_json_def
  by (rule restrict_disjoint; cases h; cases c; simp add: sorted_keys_def)+

lemma json_defined: "filesystem_json f \<noteq> JUndef" "network_json n \<noteq> JUndef" "resources_json r \<noteq> JUndef"
  by (simp_all add: filesystem_json_def network_json_def resources_json_def)

lemma restricted_lease: "restrict_keys (sorted_keys h c) (lease_json l) = JObj (covered_fields l)"
proof -
  have "restrict_fields (sorted_keys h c)
      [(''leaseId'', JStr a1), (''purpose'', JStr a2), (''allowedOperation'', JStr a3), (''authorityBand'', JStr a4),
       (''filesystem'', filesystem_json f), (''network'', network_json n), (''resources'', resources_json r),
       (''credentials'', JStr a5), (''persistentRegistration'', JBool a6), (''selfPromotion'', JBool a7),
       (''issuedAt'', JStr a8), (''expiresAt'', JStr a9), (''toolHash'', JStr a10)] =
      [(''leaseId'', JStr a1), (''purpose'', JStr a2), (''allowedOperation'', JStr a3), (''authorityBand'', JStr a4),
       (''filesystem'', JObj []), (''network'', JObj []), (''resources'', JObj []),
       (''credentials'', JStr a5), (''persistentRegistration'', JBool a6), (''selfPromotion'', JBool a7),
       (''issuedAt'', JStr a8), (''expiresAt'', JStr a9), (''toolHash'', JStr a10)]"
    for a1 a2 a3 a4 f n r a5 a6 a7 a8 a9 a10
    by (simp add: nested_unhashed json_defined)
  note fields = this
  show ?thesis
    unfolding lease_json_def restrict_keys.simps fields Let_def covered_fields_def
    by (cases h; cases c; simp add: sorted_keys_def)
qed

lemma lease_hash: "computeLeaseHash rt l = sha256 rt (stringify (number_text rt) (JObj (covered_fields l)))"
  by (simp only: computeLeaseHash_def stringify_keys_def sort_lease_keys restricted_lease)

lemma operation_text_inject: "operation_text a = operation_text b \<longleftrightarrow> a = b"
  by (cases a; cases b) simp_all

lemma band_text_inject: "band_text a = band_text b \<longleftrightarrow> a = b"
  by (cases a; cases b) simp_all

lemma credential_text_inject: "credential_text a = credential_text b \<longleftrightarrow> a = b"
  by (cases a; cases b) simp_all

lemma covered_fields_inject:
  "covered_fields l = covered_fields l' \<longleftrightarrow>
     le_leaseId l = le_leaseId l' \<and> le_purpose l = le_purpose l' \<and> le_allowedOperation l = le_allowedOperation l' \<and>
     le_authorityBand l = le_authorityBand l' \<and> le_credentials l = le_credentials l' \<and>
     le_persistentRegistration l = le_persistentRegistration l' \<and> le_selfPromotion l = le_selfPromotion l' \<and>
     le_issuedAt l = le_issuedAt l' \<and> le_expiresAt l = le_expiresAt l' \<and> le_toolHash l = le_toolHash l'"
  by (auto simp: covered_fields_def operation_text_inject band_text_inject credential_text_inject)

definition collision_free :: "runtime \<Rightarrow> bool" where
  "collision_free rt \<longleftrightarrow> inj (sha256 rt)"

lemma hash_covered:
  assumes "collision_free rt" "prints_numbers (number_text rt)"
  shows "computeLeaseHash rt l = computeLeaseHash rt l' \<longleftrightarrow> covered_fields l = covered_fields l'"
proof
  assume "computeLeaseHash rt l = computeLeaseHash rt l'"
  then have "stringify (number_text rt) (JObj (covered_fields l)) = stringify (number_text rt) (JObj (covered_fields l'))"
    using assms(1) by (simp add: lease_hash collision_free_def inj_eq)
  then have "JObj (covered_fields l) = JObj (covered_fields l')"
    by (rule stringify_injective [OF assms(2), rotated -1]) (simp_all add: covered_fields_def)
  then show "covered_fields l = covered_fields l'" by simp
qed (simp add: lease_hash)

text \<open>
  The hash of a lease covers exactly its identifier, purpose, operation, band, credentials,
  the two iron rules, its times and the hash of its tool. The paths it opens, its network scope,
  its resource limits and its holder are not covered, because the property list that is handed
  to \<^verbatim>\<open>JSON.stringify\<close> filters the fields of the nested objects too.
\<close>

theorem lease_hash_covers:
  assumes "collision_free rt" "prints_numbers (number_text rt)"
  shows "computeLeaseHash rt l = computeLeaseHash rt l' \<longleftrightarrow>
     le_leaseId l = le_leaseId l' \<and> le_purpose l = le_purpose l' \<and> le_allowedOperation l = le_allowedOperation l' \<and>
     le_authorityBand l = le_authorityBand l' \<and> le_credentials l = le_credentials l' \<and>
     le_persistentRegistration l = le_persistentRegistration l' \<and> le_selfPromotion l = le_selfPromotion l' \<and>
     le_issuedAt l = le_issuedAt l' \<and> le_expiresAt l = le_expiresAt l' \<and> le_toolHash l = le_toolHash l'"
  unfolding hash_covered [OF assms] by (rule covered_fields_inject)

text \<open>For the witnesses: times in unary, and hashes and numbers as their own texts.\<close>

definition clock_text :: "int \<Rightarrow> string" where
  "clock_text t = replicate (nat t) (CHR ''+'') @ replicate (nat (- t)) (CHR ''-'')"

definition clock_time :: "string \<Rightarrow> int" where
  "clock_time s = int (length (filter ((=) (CHR ''+'')) s)) - int (length (filter ((=) (CHR ''-'')) s))"

definition lease_runtime :: runtime where
  "lease_runtime = plain_runtime\<lparr>get_time := clock_time\<rparr>"

lemma clock_time_text: "get_time lease_runtime (clock_text t) = t"
  by (simp add: lease_runtime_def clock_time_def clock_text_def)

lemma lease_runtime_ok: "collision_free lease_runtime" "prints_numbers (number_text lease_runtime)"
  by (simp_all add: lease_runtime_def plain_runtime_def collision_free_def prints_unary inj_def)

definition sample_lease :: lease where
  "sample_lease = createGreenLease lease_runtime clock_text ''0123456789ab'' 0 ''p'' ''kimi'' ''code'' None"

theorem lease_hash_covers_witness:
  "computeLeaseHash lease_runtime sample_lease =
   computeLeaseHash lease_runtime (sample_lease\<lparr>le_filesystem := \<lparr> fs_read = [], fs_write = [''/''], fs_deny = [] \<rparr>\<rparr>)"
  unfolding lease_hash_covers [OF lease_runtime_ok] by simp

section \<open>Valid leases\<close>

lemma flag_Nil [simp]: "flag b v = [] \<longleftrightarrow> \<not> b"
  by (simp add: flag_def)

lemma in_flag [simp]: "v \<in> set (flag b w) \<longleftrightarrow> b \<and> v = w"
  by (auto simp: flag_def)

lemma lease_valid_iff:
  "fst (validateLease rt now l) \<longleftrightarrow>
     \<not> isLeaseExpired rt now l \<and> le_state l \<notin> {L_REVOKED, L_VIOLATED} \<and> \<not> le_persistentRegistration l \<and>
     \<not> le_selfPromotion l \<and> \<not> (le_authorityBand l \<in> {GREEN, YELLOW} \<and> le_credentials l \<noteq> NoCredentials) \<and>
     \<not> (le_authorityBand l = GREEN \<and> ns_allow (le_network l)) \<and>
     rl_timeoutSeconds (le_resources l) \<le> 3600 \<and> rl_memoryMB (le_resources l) \<le> 4096 \<and> rl_cpuLimit (le_resources l) \<le> 4 \<and>
     (\<forall>p \<in> set denyRequired. list_ex (\<lambda>d. starts_with d p) (fs_deny (le_filesystem l))) \<and>
     le_leaseHash l = Some (computeLeaseHash rt l)"
  by (auto simp: validateLease_def lease_violations_def Let_def concat_eq_Nil_conv not_less)

lemma hash_unread: "computeLeaseHash rt (l\<lparr>le_leaseHash := h\<rparr>) = computeLeaseHash rt l"
  unfolding lease_hash by (simp add: covered_fields_def)

lemma green_simps:
  fixes rt isoText uuid now purpose issuedBy toolCode timeout
  defines "g \<equiv> createGreenLease rt isoText uuid now purpose issuedBy toolCode timeout"
  shows "le_leaseHash g = Some (computeLeaseHash rt g)" "le_state g = L_ISSUED" "le_persistentRegistration g = False"
    "le_selfPromotion g = False" "le_authorityBand g = GREEN" "le_credentials g = NoCredentials" "ns_allow (le_network g) = False"
    "le_resources g = \<lparr> rl_cpuLimit = 1, rl_memoryMB = 512, rl_timeoutSeconds = timeout_or timeout 120,
       rl_maxFileSizeMB = 10, rl_maxProcesses = 4 \<rparr>"
    "fs_deny (le_filesystem g) = [''/root/.secrets'', ''/root/.ssh'', ''/root/VAULT999'', ''/etc'', ''/opt'', ''/var/lib'']"
    "fs_write (le_filesystem g) = [''/tmp/forge8/output'']" "fs_read (le_filesystem g) = [''/tmp/forge8/staging'']"
    "le_expiresAt g = isoText (now + 24 * 60 * 60 * 1000)"
  unfolding g_def createGreenLease_def Let_def hash_unread by simp_all

lemma deny_secrets:
  "p \<in> set denyRequired \<Longrightarrow>
   list_ex (\<lambda>d. starts_with d p) [''/root/.secrets'', ''/root/.ssh'', ''/root/VAULT999'', ''/etc'', ''/opt'', ''/var/lib'']"
  by (auto simp: denyRequired_def)

text \<open>
  A green lease is accepted until a day after its creation, and never when its time limit is
  above an hour; until then it is active.
\<close>

theorem green_lease_valid:
  assumes "\<forall>t. get_time rt (isoText t) = t"
  shows "(fst (validateLease rt now' (createGreenLease rt isoText uuid now purpose issuedBy toolCode timeout)) \<longleftrightarrow>
      now' < now + 86400000 \<and> timeout_or timeout 120 \<le> 3600) \<and>
    (isLeaseActive rt now' (createGreenLease rt isoText uuid now purpose issuedBy toolCode timeout) \<longleftrightarrow> now' < now + 86400000)"
  unfolding lease_valid_iff isLeaseActive_def isLeaseExpired_def green_simps(2-12) using deny_secrets assms
  by (auto simp: green_simps(1))

theorem green_lease_valid_witness:
  "fst (validateLease lease_runtime 5 (createGreenLease lease_runtime clock_text ''u'' 0 ''p'' ''kimi'' ''c'' None)) \<and>
   \<not> fst (validateLease lease_runtime 5 (createGreenLease lease_runtime clock_text ''u'' 0 ''p'' ''kimi'' ''c'' (Some 7200)))"
  using green_lease_valid [of lease_runtime clock_text 5 "''u''" 0 "''p''" "''kimi''" "''c''"]
  by (simp add: clock_time_text timeout_or_def)

text \<open>
  No yellow lease is ever accepted: it keeps the hash of the green lease it was made from,
  which has another band, so its validation always reports a hash mismatch.
\<close>

theorem yellow_lease_rejected:
  assumes "collision_free rt" "prints_numbers (number_text rt)"
  shows "LeaseHashMismatch \<in> set (snd (validateLease rt now'
      (createYellowLease rt isoText uuids now purpose issuedBy toolCode domains paths timeout))) \<and>
    \<not> fst (validateLease rt now'
      (createYellowLease rt isoText uuids now purpose issuedBy toolCode domains paths timeout))"
proof -
  define g where "g = createGreenLease rt isoText (fst uuids) now purpose issuedBy toolCode (Some (timeout_or timeout 300))"
  define y where "y = createYellowLease rt isoText uuids now purpose issuedBy toolCode domains paths timeout"
  have "le_leaseHash y = le_leaseHash g" "le_authorityBand y = YELLOW"
    by (simp_all add: y_def g_def createYellowLease_def Let_def)
  moreover have "le_leaseHash g = Some (computeLeaseHash rt g)" "le_authorityBand g = GREEN"
    unfolding g_def by (rule green_simps)+
  moreover have "covered_fields g \<noteq> covered_fields y"
    using calculation(2,4) by (simp add: covered_fields_inject)
  ultimately have "Some (computeLeaseHash rt y) \<noteq> le_leaseHash y" using hash_covered [OF assms, of g y] by simp
  then have "LeaseHashMismatch \<in> set (snd (validateLease rt now' y))"
    by (simp add: validateLease_def lease_violations_def Let_def)
  then show ?thesis unfolding y_def [symmetric] by (auto simp: validateLease_def Let_def)
qed

theorem yellow_lease_rejected_witness:
  "\<not> fst (validateLease lease_runtime 0
     (createYellowLease lease_runtime clock_text (''u'', ''v'') 0 ''p'' ''kimi'' ''c'' [''example.org''] None None))"
  using yellow_lease_rejected [OF lease_runtime_ok] by blast

section \<open>The scope of a lease\<close>

text \<open>
  An operation is in the scope of a lease exactly when every path it reads or writes has an
  allowed path as a textual prefix and no denied one, and it uses the network only where the
  lease allows it. The prefixes are compared as texts, so a green lease opens every path that
  starts like its output directory, one that climbs out of it included.
\<close>

theorem scope_check_iff:
  "(fst (checkOperationScope l reads writes net) \<longleftrightarrow>
     list_all (in_scope (fs_read (le_filesystem l)) (fs_deny (le_filesystem l))) reads \<and>
     list_all (in_scope (fs_write (le_filesystem l)) (fs_deny (le_filesystem l))) writes \<and>
     (if net then ns_allow (le_network l) else True)) \<and>
   fst (checkOperationScope (createGreenLease rt isoText uuid now purpose issuedBy toolCode timeout) []
     [''/tmp/forge8/output'' @ rest] False)"
proof -
  have "fst (checkOperationScope (createGreenLease rt isoText uuid now purpose issuedBy toolCode timeout) []
     [''/tmp/forge8/output'' @ rest] False)"
    unfolding checkOperationScope_def Let_def green_simps(7,9,10)
    by (simp add: in_scope_def starts_with_iff)
  then show ?thesis
    by (auto simp: checkOperationScope_def Let_def concat_eq_Nil_conv list_all_iff)
qed

end
