(* ===== verification/Lease_Gate.thy ===== *)
theory Lease_Gate
  imports Memory_Gate
begin

text \<open>
  The lease gate in front of every tool that is not an observation, the lease life cycle and the
  registry of agents (\<^verbatim>\<open>src/src/interfaces/mcp/forgeTools.ts\<close>: the in-memory stores,
  \<^verbatim>\<open>forge_agent\<close>, \<^verbatim>\<open>forge_lease\<close>, \<^verbatim>\<open>issueLeaseViaKernel\<close>, \<^verbatim>\<open>validateLeaseForTool\<close>).

  Leases are minted by the kernel, another program: the reply to a call of it is an argument, a
  JSON value, or \<^term>\<open>None\<close> when the call throws. What the code takes over from a reply without
  a check stays a JSON value. \<open>date_of\<close> is \<^verbatim>\<open>new Date(v).getTime()\<close>, \<^term>\<open>None\<close> for NaN, and a
  time is a rational number of milliseconds or NaN. Generated identifiers are arguments. \<open>ok\<close>
  says whether \<^verbatim>\<open>saveIdentities\<close> succeeds. Answers are constructors that stand for their
  texts; the log and the seal hash of a local lease, which nothing here reads, are left out.
\<close>

section \<open>Leases and agents\<close>

record lease_record =
  ls_lease_id :: json
  ls_agent_id :: json
  ls_scope :: "json list"
  ls_max_action_class :: json
  ls_ttl_seconds :: "rat option"
  ls_issued_at :: "rat option"
  ls_expires_at :: "rat option"
  ls_forbidden :: "json list"
  ls_revoked :: bool
  ls_verdict_geometry :: json
  ls_session_geometry :: json
  ls_restraint_flags :: "json list"

record registered_agent =
  ra_agent_id :: string
  ra_agent_type :: string
  ra_role :: string
  ra_authority :: json
  ra_identity_proof :: string
  ra_registered_at :: string
  ra_last_seen :: string
  ra_lease_ids :: "json list option"

record lease_tools =
  lt_agents :: "(string, registered_agent) jsmap"
  lt_leases :: "(json, lease_record) jsmap"
  lt_nonces :: nonce_store

definition cache_lease :: "json \<Rightarrow> lease_record \<Rightarrow> lease_tools \<Rightarrow> lease_tools" where
  "cache_lease i l s = s\<lparr>lt_leases := m_set i l (lt_leases s)\<rparr>"

definition registerLocalLease :: "lease_record \<Rightarrow> lease_tools \<Rightarrow> lease_tools" where
  "registerLocalLease l s = cache_lease (ls_lease_id l) l s"

text \<open>The lease that the gateway registers by itself, for a call with a valid session and no lease and
  for a session whose lease the kernel did not issue; \<open>origin\<close> is the origin it notes.\<close>

definition gateway_lease :: "string \<Rightarrow> int \<Rightarrow> string \<Rightarrow> string \<Rightarrow> lease_record" where
  "gateway_lease origin now who i =
     \<lparr> ls_lease_id = JStr i, ls_agent_id = JStr who,
       ls_scope = map JStr [''forge_filesystem'', ''forge_vault'', ''forge_shell'', ''forge_shell_dryrun'', ''forge_seal'',
         ''arif_seal'', ''forge_session_init'', ''forge_health_check'', ''forge_ephemeral''],
       ls_max_action_class = JStr ''IRREVERSIBLE'', ls_ttl_seconds = Some 1800, ls_issued_at = Some (of_int now),
       ls_expires_at = Some (of_int (now + 1800 * 1000)), ls_forbidden = [], ls_revoked = False,
       ls_verdict_geometry = JObj [(''trace_id'', JStr (''auto-'' @ i)), (''auto_sealed'', JBool True), (''source'', JStr origin)],
       ls_session_geometry = JUndef, ls_restraint_flags = [] \<rparr>"

section \<open>Action classes\<close>

definition CLASS_RANK :: "(string \<times> nat) list" where
  "CLASS_RANK =
     [(''IRREVERSIBLE'', 0), (''EXECUTE_HIGH_IMPACT'', 1), (''EXECUTE_REVERSIBLE'', 2), (''QUEUE'', 3), (''DRAFT'', 4),
      (''SIMULATE'', 5), (''SUGGEST'', 6), (''OBSERVE'', 7), (''PROPOSE'', 5), (''MUTATE'', 2), (''ATOMIC'', 0)]"

text \<open>\<^verbatim>\<open>c in CLASS_RANK\<close> finds the inherited names too; what it finds there is no number, and
  a comparison with it is false. The name of an array of one value is that of the value; other values
  have names that no class has.\<close>

fun json_key :: "json \<Rightarrow> string option" where
  "json_key (JStr s) = Some s"
| "json_key (JArr [v]) = json_key v"
| "json_key _ = None"

definition ranked_class :: "json \<Rightarrow> bool" where
  "ranked_class v \<longleftrightarrow>
     (case json_key v of None \<Rightarrow> False | Some c \<Rightarrow> c \<in> set (map fst CLASS_RANK) \<or> c \<in> set inherited_names)"

definition class_rank :: "json \<Rightarrow> nat option" where
  "class_rank v = (case json_key v of None \<Rightarrow> None | Some c \<Rightarrow> map_of CLASS_RANK c)"

definition rank_below :: "json \<Rightarrow> json \<Rightarrow> bool" where
  "rank_below a b =
     (case (class_rank a, class_rank b) of (Some x, Some y) \<Rightarrow> x < y | _ \<Rightarrow> False)"

definition AFORGE_TO_ARIFOS_CLASS :: "(string \<times> string) list" where
  "AFORGE_TO_ARIFOS_CLASS =
     [(''OBSERVE'', ''OBSERVE''), (''SUGGEST'', ''REASON''), (''SIMULATE'', ''DRY_RUN''), (''DRAFT'', ''DRY_RUN''),
      (''QUEUE'', ''DRY_RUN''), (''EXECUTE_REVERSIBLE'', ''MUTATE''), (''EXECUTE_HIGH_IMPACT'', ''EXTERNAL''),
      (''IRREVERSIBLE'', ''IRREVERSIBLE''), (''PROPOSE'', ''DRY_RUN''), (''MUTATE'', ''MUTATE''),
      (''ATOMIC'', ''IRREVERSIBLE'')]"

text \<open>\<^term>\<open>None\<close> when it throws; the classes of a request are those of its schema, which are all listed.\<close>

definition toArifosActionClass :: "string \<Rightarrow> string option" where
  "toArifosActionClass c = map_of AFORGE_TO_ARIFOS_CLASS c"

definition isObserveClass :: "json \<Rightarrow> bool" where
  "isObserveClass c \<longleftrightarrow> c = JStr ''OBSERVE''"

section \<open>The verdict loop\<close>

datatype restraint = VerdictLoopRequired | RestraintHold | RestraintAsk | RestraintRefuse

definition geometry_of :: "lease_record \<Rightarrow> json" where
  "geometry_of l = or_falsy (or_falsy (ls_verdict_geometry l) (ls_session_geometry l)) (JObj [])"

definition checkVerdictLoop :: "lease_record \<Rightarrow> json \<Rightarrow> restraint option" where
  "checkVerdictLoop l actionClass =
     (let vg = geometry_of l; flags = ls_restraint_flags l in
      if \<not> isObserveClass actionClass \<and> \<not> truthy (field vg ''trace_id'') then Some VerdictLoopRequired
      else if JStr ''restraint_under_uncertainty'' \<in> set flags \<or> field vg ''restraint_state'' = JStr ''HOLD''
        then Some RestraintHold
      else if JStr ''refusal_on_ambiguity'' \<in> set flags \<or> field vg ''restraint_state'' = JStr ''ASK_ONE_QUESTION''
        then Some RestraintAsk
      else if JStr ''bounded_authority'' \<in> set flags \<and>
          actionClass \<in> {JStr ''EXECUTE_HIGH_IMPACT'', JStr ''IRREVERSIBLE''} then Some RestraintRefuse
      else None)"

section \<open>Leases of the kernel\<close>

definition array_or_empty :: "json \<Rightarrow> json list" where
  "array_or_empty v = (case v of JArr xs \<Rightarrow> xs | _ \<Rightarrow> [])"

definition date_or :: "(json \<Rightarrow> int option) \<Rightarrow> json \<Rightarrow> int \<Rightarrow> rat option" where
  "date_or date_of v d = (if truthy v then map_option of_int (date_of v) else Some (of_int d))"

definition arifosLeaseToLocal :: "(json \<Rightarrow> int option) \<Rightarrow> int \<Rightarrow> json \<Rightarrow> lease_record" where
  "arifosLeaseToLocal date_of now l =
     (let issuedAt = date_or date_of (field l ''issued_at'') now;
          expiresAt = date_or date_of (field l ''expires_at'') (now + 300000) in
      \<lparr> ls_lease_id = field l ''lease_id'',
        ls_agent_id = coalesce (coalesce (field l ''actor_id'') (field l ''agent_id'')) (JStr ''unknown''),
        ls_scope = array_or_empty (field l ''scope''), ls_max_action_class = field l ''max_action_class'',
        ls_ttl_seconds =
          (case (expiresAt, issuedAt) of (Some e, Some i) \<Rightarrow> Some (max 1 (of_int \<lfloor>(e - i) / 1000\<rfloor>)) | _ \<Rightarrow> None),
        ls_issued_at = issuedAt, ls_expires_at = expiresAt, ls_forbidden = array_or_empty (field l ''forbidden''),
        ls_revoked = (field l ''revoked'' = JBool True), ls_verdict_geometry = field l ''verdict_geometry'',
        ls_session_geometry = field l ''session_geometry'',
        ls_restraint_flags = array_or_empty (field l ''restraint_flags'') \<rparr>)"

text \<open>\<^verbatim>\<open>reply?.lease ?? reply?.result?.lease\<close>, when it is a lease with an identifier\<close>

definition kernel_lease :: "json \<Rightarrow> json" where
  "kernel_lease reply = coalesce (field reply ''lease'') (field (field reply ''result'') ''lease'')"

definition names_lease :: "json \<Rightarrow> bool" where
  "names_lease k \<longleftrightarrow> truthy k \<and> truthy (field k ''lease_id'')"

section \<open>The gate\<close>

datatype lease_gate =
    REPLAY_DETECTED | LEASE_REQUIRED | LEASE_KERNEL_UNKNOWN | LEASE_REVOKED | LEASE_EXPIRED
  | LEASE_KERNEL_UNREACHABLE | UNKNOWN_ACTION_CLASS | LEASE_UNKNOWN_CLASS | LEASE_CLASS_EXCEEDED
  | LEASE_SCOPE_DENIED | LEASE_FORBIDDEN | VERDICT_RESTRAINT_GATE restraint

definition live_lease :: "int \<Rightarrow> lease_record \<Rightarrow> bool" where
  "live_lease now l \<longleftrightarrow>
     \<not> ls_revoked l \<and> (case ls_expires_at l of None \<Rightarrow> False | Some e \<Rightarrow> e > of_int now)"

definition kernel_expired :: "(json \<Rightarrow> int option) \<Rightarrow> int \<Rightarrow> json \<Rightarrow> bool" where
  "kernel_expired date_of now k \<longleftrightarrow> (case date_of (field k ''expires_at'') of None \<Rightarrow> False | Some e \<Rightarrow> now > e)"

definition fetch_lease ::
  "(json \<Rightarrow> int option) \<Rightarrow> int \<Rightarrow> json option \<Rightarrow> string \<Rightarrow> lease_tools \<Rightarrow> (lease_gate + lease_record) \<times> lease_tools" where
  "fetch_lease date_of now reply i s =
     (case reply of
        Some r \<Rightarrow>
          (let k = kernel_lease r in
           if \<not> names_lease k then (Inl LEASE_KERNEL_UNKNOWN, s)
           else if field k ''revoked'' = JBool True then (Inl LEASE_REVOKED, s)
           else if kernel_expired date_of now k then (Inl LEASE_EXPIRED, s)
           else (let l = arifosLeaseToLocal date_of now k in (Inr l, cache_lease (JStr i) l s)))
      | None \<Rightarrow>
          (case m_get (lt_leases s) (JStr i) of
             None \<Rightarrow> (Inl LEASE_KERNEL_UNREACHABLE, s)
           | Some l \<Rightarrow> (if live_lease now l then Inr l else Inl LEASE_KERNEL_UNREACHABLE, s)))"

definition lease_permits :: "lease_record \<Rightarrow> string \<Rightarrow> string \<Rightarrow> lease_gate + lease_record option" where
  "lease_permits l tool actionClass =
     (if isObserveClass (JStr actionClass) then Inr (Some l)
      else if \<not> ranked_class (JStr actionClass) then Inl UNKNOWN_ACTION_CLASS
      else if \<not> ranked_class (ls_max_action_class l) then Inl LEASE_UNKNOWN_CLASS
      else if rank_below (JStr actionClass) (ls_max_action_class l) then Inl LEASE_CLASS_EXCEEDED
      else if JStr ''*'' \<notin> set (ls_scope l) \<and> JStr tool \<notin> set (ls_scope l) then Inl LEASE_SCOPE_DENIED
      else if JStr tool \<in> set (ls_forbidden l) then Inl LEASE_FORBIDDEN
      else (case checkVerdictLoop l (JStr actionClass) of
          Some why \<Rightarrow> Inl (VERDICT_RESTRAINT_GATE why) | None \<Rightarrow> Inr (Some l)))"

definition check_nonce :: "int \<Rightarrow> string option \<Rightarrow> nonce_store \<Rightarrow> bool \<times> nonce_store" where
  "check_nonce now nonce ns =
     (case nonce of
        None \<Rightarrow> (False, ns)
      | Some n \<Rightarrow> if n = [] then (False, ns) else map_prod nr_replay id (checkAndRecord now n ns))"

definition validateLeaseForTool ::
  "(json \<Rightarrow> int option) \<Rightarrow> int \<Rightarrow> json option \<Rightarrow> string option \<Rightarrow> string \<Rightarrow> string \<Rightarrow> string option \<Rightarrow> lease_tools \<Rightarrow>
   (lease_gate + lease_record option) \<times> lease_tools" where
  "validateLeaseForTool date_of now reply lease_id tool actionClass nonce s =
     (let (replay, ns) = check_nonce now nonce (lt_nonces s); s1 = s\<lparr>lt_nonces := ns\<rparr> in
      if replay then (Inl REPLAY_DETECTED, s1)
      else (case lease_id of
          None \<Rightarrow> (if isObserveClass (JStr actionClass) then Inr None else Inl LEASE_REQUIRED, s1)
        | Some i \<Rightarrow>
            if i = [] then (if isObserveClass (JStr actionClass) then Inr None else Inl LEASE_REQUIRED, s1)
            else (case fetch_lease date_of now reply i s1 of
                (Inl e, s2) \<Rightarrow> (Inl e, s2)
              | (Inr l, s2) \<Rightarrow> (lease_permits l tool actionClass, s2))))"

section \<open>Issue and revocation\<close>

record issue_args =
  ia_agent_id :: string
  ia_scope :: "string list"
  ia_max_action_class :: string
  ia_ttl_seconds :: rat
  ia_forbidden :: "string list"

definition local_lease :: "int \<Rightarrow> string \<Rightarrow> string \<Rightarrow> issue_args \<Rightarrow> lease_record" where
  "local_lease now i cls a =
     (let ttl = min (max (ia_ttl_seconds a) 1) 3600 in
      \<lparr> ls_lease_id = JStr i, ls_agent_id = JStr (ia_agent_id a), ls_scope = map JStr (ia_scope a),
        ls_max_action_class = JStr cls, ls_ttl_seconds = Some ttl, ls_issued_at = Some (of_int now),
        ls_expires_at = Some (of_int now + ttl * 1000), ls_forbidden = map JStr (ia_forbidden a), ls_revoked = False,
        ls_verdict_geometry = JUndef, ls_session_geometry = JUndef, ls_restraint_flags = [] \<rparr>)"

text \<open>The lease of the kernel, when the call succeeds and its restraints allow it.\<close>

definition kernel_issued :: "(json \<Rightarrow> int option) \<Rightarrow> int \<Rightarrow> json option \<Rightarrow> issue_args \<Rightarrow> lease_record option" where
  "kernel_issued date_of now reply a =
     (case (toArifosActionClass (ia_max_action_class a), reply) of
        (Some _, Some r) \<Rightarrow>
          (let k = kernel_lease r; l = arifosLeaseToLocal date_of now k in
           if names_lease k \<and>
              checkVerdictLoop l (or_falsy (field k ''max_action_class'') (JStr ''OBSERVE'')) = None
           then Some l else None)
      | _ \<Rightarrow> None)"

datatype issue_result = Issued lease_record | KernelUnreachable | IssueThrew

text \<open>\<open>fallback\<close> is \<^verbatim>\<open>ALLOW_LOCAL_LEASE_FALLBACK === "true"\<close>.\<close>

definition issueLeaseViaKernel ::
  "(json \<Rightarrow> int option) \<Rightarrow> int \<Rightarrow> json option \<Rightarrow> bool \<Rightarrow> string \<Rightarrow> issue_args \<Rightarrow> issue_result" where
  "issueLeaseViaKernel date_of now reply fallback i a =
     (case kernel_issued date_of now reply a of
        Some l \<Rightarrow> Issued l
      | None \<Rightarrow>
          if \<not> fallback then KernelUnreachable
          else (case toArifosActionClass (ia_max_action_class a) of
              None \<Rightarrow> IssueThrew
            | Some cls \<Rightarrow> Issued (local_lease now i cls a)))"

definition revokeLeaseViaKernel :: "(json \<Rightarrow> int option) \<Rightarrow> int \<Rightarrow> json option \<Rightarrow> lease_record option" where
  "revokeLeaseViaKernel date_of now reply =
     (case reply of
        None \<Rightarrow> None
      | Some r \<Rightarrow> (let k = kernel_lease r in if names_lease k then Some (arifosLeaseToLocal date_of now k) else None))"

section \<open>The tool of leases\<close>

datatype lease_status = ActiveLease | RevokedLease | ExpiredLease

datatype lease_answer =
    NeedsArguments
  | LeaseNotFound
  | StatusOf bool lease_status rat      \<comment> \<open>from the kernel or from the cache; remaining seconds\<close>
  | RevokeFailed
  | Revoked
  | AgentNotRegistered
  | IssueFailed
  | IssuedTo lease_record
  | RequestThrew

text \<open>The answer prints the expiry with \<^verbatim>\<open>toISOString\<close>, which throws on NaN.\<close>

definition status_answer :: "bool \<Rightarrow> int \<Rightarrow> lease_record \<Rightarrow> lease_answer option" where
  "status_answer from_kernel now l =
     (case ls_expires_at l of
        None \<Rightarrow> None
      | Some e \<Rightarrow>
          (let remaining = max 0 (of_int \<lfloor>(e - of_int now) / 1000\<rfloor>) in
           Some (StatusOf from_kernel
             (if ls_revoked l then RevokedLease else if remaining = 0 then ExpiredLease else ActiveLease) remaining)))"

definition cached_status :: "int \<Rightarrow> string \<Rightarrow> lease_tools \<Rightarrow> lease_answer" where
  "cached_status now i s =
     (case m_get (lt_leases s) (JStr i) of
        None \<Rightarrow> LeaseNotFound
      | Some l \<Rightarrow> (case status_answer False now l of None \<Rightarrow> RequestThrew | Some a \<Rightarrow> a))"

definition lease_status_tool ::
  "(json \<Rightarrow> int option) \<Rightarrow> int \<Rightarrow> json option \<Rightarrow> string option \<Rightarrow> lease_tools \<Rightarrow> lease_answer \<times> lease_tools" where
  "lease_status_tool date_of now reply lease_id s =
     (if falsy lease_id then (NeedsArguments, s)
      else
        (let i = the lease_id in
         case reply of
           None \<Rightarrow> (cached_status now i s, s)
         | Some r \<Rightarrow>
             (let k = kernel_lease r in
              if \<not> truthy k then (cached_status now i s, s)
              else (let l = arifosLeaseToLocal date_of now k; s1 = cache_lease (JStr i) l s in
                (case status_answer True now l of Some a \<Rightarrow> a | None \<Rightarrow> cached_status now i s1, s1)))))"

definition lease_revoke_tool ::
  "(json \<Rightarrow> int option) \<Rightarrow> int \<Rightarrow> json option \<Rightarrow> string option \<Rightarrow> string option \<Rightarrow> lease_tools \<Rightarrow>
   lease_answer \<times> lease_tools" where
  "lease_revoke_tool date_of now reply lease_id agent_id s =
     (if falsy lease_id \<or> falsy agent_id then (NeedsArguments, s)
      else (case revokeLeaseViaKernel date_of now reply of
          None \<Rightarrow> (RevokeFailed, s)
        | Some l \<Rightarrow> (Revoked, cache_lease (JStr (the lease_id)) l s)))"

definition lease_request_tool ::
  "(json \<Rightarrow> int option) \<Rightarrow> int \<Rightarrow> json option \<Rightarrow> bool \<Rightarrow> string \<Rightarrow> string option \<Rightarrow> string list option \<Rightarrow> string \<Rightarrow>
   rat option \<Rightarrow> string list option \<Rightarrow> lease_tools \<Rightarrow> lease_answer \<times> lease_tools" where
  "lease_request_tool date_of now reply fallback i agent_id scope cls ttl forbidden s =
     (if falsy agent_id \<or> scope = None then (NeedsArguments, s)
      else (case m_get (lt_agents s) (the agent_id) of
          None \<Rightarrow> (AgentNotRegistered, s)
        | Some agent \<Rightarrow>
            (case issueLeaseViaKernel date_of now reply fallback i
               \<lparr> ia_agent_id = the agent_id, ia_scope = the scope, ia_max_action_class = cls,
                 ia_ttl_seconds = min (case ttl of Some t \<Rightarrow> t | None \<Rightarrow> 300) 3600,
                 ia_forbidden = (case forbidden of Some f \<Rightarrow> f | None \<Rightarrow> []) \<rparr> of
               KernelUnreachable \<Rightarrow> (IssueFailed, s)
             | IssueThrew \<Rightarrow> (RequestThrew, s)
             | Issued l \<Rightarrow>
                 (let s1 = cache_lease (ls_lease_id l) l s in
                  case ra_lease_ids agent of
                    None \<Rightarrow> (RequestThrew, s1)
                  | Some ids \<Rightarrow>
                      (if ls_expires_at l = None then RequestThrew else IssuedTo l,
                       s1\<lparr>lt_agents := m_set (the agent_id) (agent\<lparr>ra_lease_ids := Some (ids @ [ls_lease_id l])\<rparr>)
                         (lt_agents s1)\<rparr>)))))"

section \<open>The tool of agents\<close>

datatype agent_answer =
    AgentNeedsArguments
  | AgentUnknown
  | KillLeaseInvalid
  | KillLeaseExpired
  | AgentList "(string \<times> string \<times> string \<times> string \<times> string \<times> nat) list"
  | AgentStatus registered_agent "lease_record list"
  | AgentKilled nat
  | AgentRegistered
  | AgentThrew

definition agent_list_tool :: "lease_tools \<Rightarrow> agent_answer" where
  "agent_list_tool s =
     AgentList (map (\<lambda>a. (ra_agent_id a, ra_role a, ra_agent_type a, ra_registered_at a, ra_last_seen a,
       case ra_lease_ids a of None \<Rightarrow> 0 | Some ids \<Rightarrow> length ids)) (m_values (lt_agents s)))"

definition agent_status_tool :: "string \<Rightarrow> string option \<Rightarrow> lease_tools \<Rightarrow> agent_answer \<times> lease_tools" where
  "agent_status_tool stamp agent_id s =
     (if falsy agent_id then (AgentNeedsArguments, s)
      else (case m_get (lt_agents s) (the agent_id) of
          None \<Rightarrow> (AgentUnknown, s)
        | Some a \<Rightarrow>
            (let a' = a\<lparr>ra_last_seen := stamp\<rparr>;
                 ls = (case ra_lease_ids a of None \<Rightarrow> [] | Some ids \<Rightarrow> List.map_filter (m_get (lt_leases s)) ids) in
             (AgentStatus a' ls, s\<lparr>lt_agents := m_set (the agent_id) a' (lt_agents s)\<rparr>))))"

definition revoke_one :: "json \<Rightarrow> nat \<times> (json, lease_record) jsmap \<Rightarrow> nat \<times> (json, lease_record) jsmap" where
  "revoke_one i nm =
     (case m_get (snd nm) i of
        None \<Rightarrow> nm
      | Some l \<Rightarrow> if ls_revoked l then nm else (fst nm + 1, m_set i (l\<lparr>ls_revoked := True\<rparr>) (snd nm)))"

definition agent_kill_tool ::
  "int \<Rightarrow> bool \<Rightarrow> string option \<Rightarrow> string option \<Rightarrow> string option \<Rightarrow> string option \<Rightarrow> lease_tools \<Rightarrow>
   agent_answer \<times> lease_tools" where
  "agent_kill_tool now ok agent_id killer lease_id why s =
     (if falsy agent_id \<or> falsy killer \<or> falsy lease_id \<or> falsy why \<or> trim (the why) = [] then (AgentNeedsArguments, s)
      else (case m_get (lt_leases s) (JStr (the lease_id)) of
          None \<Rightarrow> (KillLeaseInvalid, s)
        | Some l \<Rightarrow>
            if ls_revoked l then (KillLeaseInvalid, s)
            else if (case ls_expires_at l of None \<Rightarrow> False | Some e \<Rightarrow> e < of_int now) then (KillLeaseExpired, s)
            else (case m_get (lt_agents s) (the agent_id) of
                None \<Rightarrow> (AgentUnknown, s)
              | Some a \<Rightarrow>
                  (case ra_lease_ids a of
                     None \<Rightarrow> (AgentThrew, s)
                   | Some ids \<Rightarrow>
                       (let (n, leases) = fold revoke_one ids (0, lt_leases s) in
                        (if ok then AgentKilled n else AgentThrew,
                         s\<lparr>lt_leases := leases, lt_agents := m_delete (the agent_id) (lt_agents s)\<rparr>))))))"

definition agent_register_tool ::
  "string \<Rightarrow> bool \<Rightarrow> string option \<Rightarrow> string option \<Rightarrow> string option \<Rightarrow> json option \<Rightarrow> string option \<Rightarrow> lease_tools \<Rightarrow>
   agent_answer \<times> lease_tools" where
  "agent_register_tool stamp ok agent_id agent_type role authority proof_text s =
     (if falsy agent_id \<or> falsy agent_type \<or> falsy role then (AgentNeedsArguments, s)
      else
        (let a = \<lparr> ra_agent_id = the agent_id, ra_agent_type = the agent_type, ra_role = the role,
               ra_authority = (case authority of Some v \<Rightarrow> v | None \<Rightarrow> JObj []),
               ra_identity_proof = (case proof_text of Some p \<Rightarrow> p | None \<Rightarrow> ''pending''), ra_registered_at = stamp,
               ra_last_seen = stamp, ra_lease_ids = Some [] \<rparr> in
         (if ok then AgentRegistered else AgentThrew, s\<lparr>lt_agents := m_set (the agent_id) a (lt_agents s)\<rparr>)))"

text \<open>The agents of the identity file, each under the key it has there.\<close>

definition loadIdentities :: "(string \<times> registered_agent) list option \<Rightarrow> lease_tools \<Rightarrow> lease_tools" where
  "loadIdentities f s =
     (case f of
        None \<Rightarrow> s
      | Some as \<Rightarrow> s\<lparr>lt_agents := fold (\<lambda>(i, a) m. m_set i a m) as (lt_agents s)\<rparr>)"

section \<open>What the gate lets pass\<close>

lemma validateLeaseForTool_cases:
  "validateLeaseForTool date_of now reply lease_id tool cls nonce s =
     (let s1 = s\<lparr>lt_nonces := snd (check_nonce now nonce (lt_nonces s))\<rparr> in
      if fst (check_nonce now nonce (lt_nonces s)) then (Inl REPLAY_DETECTED, s1)
      else if falsy lease_id then (if cls = ''OBSERVE'' then Inr None else Inl LEASE_REQUIRED, s1)
      else (case fetch_lease date_of now reply (the lease_id) s1 of
          (Inl e, s2) \<Rightarrow> (Inl e, s2)
        | (Inr l, s2) \<Rightarrow> (lease_permits l tool cls, s2)))"
  by (cases "check_nonce now nonce (lt_nonces s)"; cases lease_id)
    (auto simp: validateLeaseForTool_def Let_def falsy_def isObserveClass_def)

definition lease_found :: "(json \<Rightarrow> int option) \<Rightarrow> int \<Rightarrow> json option \<Rightarrow> string \<Rightarrow> lease_tools \<Rightarrow> lease_record \<Rightarrow> bool" where
  "lease_found date_of now reply i s l \<longleftrightarrow>
     (case reply of
        Some r \<Rightarrow>
          names_lease (kernel_lease r) \<and> field (kernel_lease r) ''revoked'' \<noteq> JBool True \<and>
          \<not> kernel_expired date_of now (kernel_lease r) \<and> l = arifosLeaseToLocal date_of now (kernel_lease r)
      | None \<Rightarrow> m_get (lt_leases s) (JStr i) = Some l \<and> live_lease now l)"

lemma fetch_lease_iff:
  "fst (fetch_lease date_of now reply i s) = Inr l \<longleftrightarrow> lease_found date_of now reply i s l"
  by (auto simp: fetch_lease_def lease_found_def Let_def split: option.splits)

lemma fetch_lease_nonces: "lease_found date_of now reply i (s\<lparr>lt_nonces := ns\<rparr>) l = lease_found date_of now reply i s l"
  by (simp add: lease_found_def split: option.split)

lemma lease_permits_iff:
  assumes "cls \<noteq> ''OBSERVE''"
  shows "lease_permits l tool cls = Inr r \<longleftrightarrow>
    r = Some l \<and> ranked_class (JStr cls) \<and> ranked_class (ls_max_action_class l) \<and>
    \<not> rank_below (JStr cls) (ls_max_action_class l) \<and>
    (JStr ''*'' \<in> set (ls_scope l) \<or> JStr tool \<in> set (ls_scope l)) \<and> JStr tool \<notin> set (ls_forbidden l) \<and>
    checkVerdictLoop l (JStr cls) = None"
  using assms by (auto simp: lease_permits_def isObserveClass_def split: option.split)

lemma gate_passes_iff:
  assumes "cls \<noteq> ''OBSERVE''"
  shows "fst (validateLeaseForTool date_of now reply lease_id tool cls nonce s) = Inr r \<longleftrightarrow>
    \<not> fst (check_nonce now nonce (lt_nonces s)) \<and> \<not> falsy lease_id \<and>
    (\<exists>l. lease_found date_of now reply (the lease_id) s l \<and> lease_permits l tool cls = Inr r)"
proof (cases "fst (check_nonce now nonce (lt_nonces s)) \<or> falsy lease_id")
  case True
  then show ?thesis using assms by (auto simp: validateLeaseForTool_cases Let_def)
next
  case False
  let ?s = "s\<lparr>lt_nonces := snd (check_nonce now nonce (lt_nonces s))\<rparr>"
  obtain x s2 where f: "fetch_lease date_of now reply (the lease_id) ?s = (x, s2)" by fastforce
  have x: "x = Inr l \<longleftrightarrow> lease_found date_of now reply (the lease_id) s l" for l
    using fetch_lease_iff [of date_of now reply "the lease_id" ?s l] by (simp add: f fetch_lease_nonces)
  have "fst (validateLeaseForTool date_of now reply lease_id tool cls nonce s) =
      (case x of Inl e \<Rightarrow> Inl e | Inr l \<Rightarrow> lease_permits l tool cls)"
    using False by (simp add: validateLeaseForTool_cases Let_def f split: sum.split)
  then show ?thesis using False x by (cases x) (simp_all, metis)
qed

text \<open>
  C8. A call of a class other than OBSERVE passes the lease gate exactly when its nonce is not a
  replay, it names a lease, the lease is found --- the kernel knows it, not revoked and not expired,
  or the kernel cannot be reached and the cached copy is live ---, both action classes are known, the
  class is not more severe than that of the lease, the tool is in the scope and not forbidden,
  and the lease passes the verdict loop. The case of the cached copy is what the code does, against
  its own comment (authorization never comes from the cache) and against the header of
  \<^verbatim>\<open>src/test/leaseKernel.test.ts\<close>.\<close>
theorem lease_gate_iff:
  assumes "cls \<noteq> ''OBSERVE''"
  shows "fst (validateLeaseForTool date_of now reply lease_id tool cls nonce s) = Inr r \<longleftrightarrow>
    \<not> fst (check_nonce now nonce (lt_nonces s)) \<and> \<not> falsy lease_id \<and>
    (\<exists>l. lease_found date_of now reply (the lease_id) s l \<and> r = Some l \<and>
      ranked_class (JStr cls) \<and> ranked_class (ls_max_action_class l) \<and>
      \<not> rank_below (JStr cls) (ls_max_action_class l) \<and>
      (JStr ''*'' \<in> set (ls_scope l) \<or> JStr tool \<in> set (ls_scope l)) \<and> JStr tool \<notin> set (ls_forbidden l) \<and>
      checkVerdictLoop l (JStr cls) = None)"
  unfolding gate_passes_iff [OF assms] lease_permits_iff [OF assms] by simp

definition sample_kernel_lease :: json where
  "sample_kernel_lease = JObj [(''lease'', JObj [(''lease_id'', JStr ''L1''), (''actor_id'', JStr ''a''),
     (''scope'', JArr [JStr ''forge_git'']), (''max_action_class'', JStr ''MUTATE''),
     (''verdict_geometry'', JObj [(''trace_id'', JStr ''t1'')])])]"

definition no_tools :: lease_tools where
  "no_tools = \<lparr> lt_agents = [], lt_leases = [], lt_nonces = new_nonce_store 300000 10000 \<rparr>"

theorem lease_gate_iff_witness:
  "(fst (validateLeaseForTool (\<lambda>_. None) 0 (Some sample_kernel_lease) (Some ''L1'') ''forge_git'' ''EXECUTE_REVERSIBLE'' None no_tools) =
      Inr (Some (arifosLeaseToLocal (\<lambda>_. None) 0 (kernel_lease sample_kernel_lease)))) = True"
  unfolding lease_gate_iff [of "''EXECUTE_REVERSIBLE''", simplified]
  by (simp add: sample_kernel_lease_def check_nonce_def falsy_def lease_found_def kernel_lease_def names_lease_def
    coalesce_def field_def kernel_expired_def ranked_class_def arifosLeaseToLocal_def Let_def date_or_def rank_below_def
    class_rank_def CLASS_RANK_def array_or_empty_def checkVerdictLoop_def geometry_of_def or_falsy_def isObserveClass_def)

section \<open>Without the kernel\<close>

definition untraced :: "lease_record \<Rightarrow> bool" where
  "untraced l \<longleftrightarrow> \<not> truthy (field (geometry_of l) ''trace_id'')"

lemma untraced_local [simp]: "untraced (local_lease now i cls a)"
  by (simp add: untraced_def local_lease_def geometry_of_def or_falsy_def field_def Let_def)

lemma unreachable_issue:
  "issueLeaseViaKernel date_of now None fallback i a = Issued l \<Longrightarrow> untraced l"
  by (auto simp: issueLeaseViaKernel_def kernel_issued_def split: option.splits if_splits)

text \<open>A cached lease is of \<open>A\<close>, or no authority: it is revoked, or has no verdict trace.\<close>

definition held_in :: "lease_record set \<Rightarrow> (json, lease_record) jsmap \<Rightarrow> bool" where
  "held_in A m \<longleftrightarrow> (\<forall>i l. m_get m i = Some l \<longrightarrow> untraced l \<or> ls_revoked l \<or> l \<in> A)"

lemma held_cache: "held_in A (lt_leases s) \<Longrightarrow> untraced l \<or> l \<in> A \<Longrightarrow> held_in A (lt_leases (cache_lease i l s))"
  by (auto simp: held_in_def cache_lease_def update_conv')

lemma revoke_all_held:
  "fold revoke_one ids nm = (k, m) \<Longrightarrow> held_in A (snd nm) \<Longrightarrow> held_in A m"
proof (induction ids arbitrary: nm)
  case (Cons j ids)
  have "held_in A (snd (revoke_one j nm))"
    using Cons.prems(2) by (auto simp: held_in_def revoke_one_def update_conv' split: option.split if_splits)
  then show ?case using Cons by simp
qed simp

text \<open>One call of a tool while the kernel cannot be reached, or the registration of a lease by the gateway;
  \<open>G\<close> is the set of leases that the gateway registers.\<close>

inductive outage_step :: "lease_record set \<Rightarrow> lease_tools \<Rightarrow> lease_tools \<Rightarrow> bool" for G where
  ask: "outage_step G s (snd (lease_request_tool date_of now None fallback i agent_id scope cls ttl forbidden s))"
| status: "outage_step G s (snd (lease_status_tool date_of now None lease_id s))"
| revoke: "outage_step G s (snd (lease_revoke_tool date_of now None lease_id agent_id s))"
| kill: "outage_step G s (snd (agent_kill_tool now ok agent_id killer lease_id why s))"
| register: "outage_step G s (snd (agent_register_tool stamp ok agent_id agent_type role authority proof_text s))"
| see: "outage_step G s (snd (agent_status_tool stamp agent_id s))"
| load: "outage_step G s (loadIdentities f s)"
| gate: "outage_step G s (snd (validateLeaseForTool date_of now None lease_id tool cls nonce s))"
| own: "l \<in> G \<Longrightarrow> outage_step G s (registerLocalLease l s)"

inductive_cases outage_stepE: "outage_step G s t"

lemma ask_held:
  "held_in A (lt_leases s) \<Longrightarrow>
    held_in A (lt_leases (snd (lease_request_tool date_of now None fallback i agent_id scope cls ttl forbidden s)))"
  by (auto simp: lease_request_tool_def Let_def held_cache unreachable_issue split: option.splits issue_result.splits)

lemma kill_held:
  "held_in A (lt_leases s) \<Longrightarrow>
    held_in A (lt_leases (snd (agent_kill_tool now ok agent_id killer lease_id why s)))"
  by (auto simp: agent_kill_tool_def dest!: revoke_all_held split: option.splits prod.split)

lemma gate_held:
  "held_in A (lt_leases s) \<Longrightarrow>
    held_in A (lt_leases (snd (validateLeaseForTool date_of now None lease_id tool cls nonce s)))"
  by (auto simp: validateLeaseForTool_cases fetch_lease_def Let_def split: option.splits)

lemma outage_held: "outage_step G s t \<Longrightarrow> held_in (G \<union> B) (lt_leases s) \<Longrightarrow> held_in (G \<union> B) (lt_leases t)"
  by (elim outage_stepE)
    (auto simp: ask_held kill_held gate_held held_cache lease_status_tool_def lease_revoke_tool_def
      revokeLeaseViaKernel_def agent_register_tool_def agent_status_tool_def loadIdentities_def registerLocalLease_def Let_def
      split: option.splits)

interpretation outage: kept_invariant "outage_step G" "\<lambda>s. held_in (G \<union> B) (lt_leases s)" for G B
  by unfold_locales (rule outage_held)

text \<open>
  C14. While the kernel cannot be reached, authority is only inherited or registered by the gateway:
  whatever calls of the lease and agent tools came before, a call of a class other than OBSERVE that passes
  does so under a live lease that was in the cache when the outage began or that the gateway registered
  itself (\<^verbatim>\<open>registerLocalLease\<close>, the set \<open>G\<close>), unchanged, with a verdict trace, of a class that
  covers the call and with the tool in its scope. No lease the tools mint in an outage, by the local
  fallback, and no lease that was revoked authorises anything. The gateway does register such leases
  (\<^term>\<open>gateway_lease\<close>): the one of the witness lets an irreversible shell call pass without the kernel.\<close>
theorem outage_authority_is_held:
  assumes "(outage_step G)\<^sup>*\<^sup>* s0 s" and "cls \<noteq> ''OBSERVE''"
    and "fst (validateLeaseForTool date_of now None lease_id tool cls nonce s) = Inr r"
  shows "\<exists>l. r = Some l \<and> l \<in> G \<union> {l. \<exists>i. m_get (lt_leases s0) i = Some l} \<and> live_lease now l \<and>
    truthy (field (geometry_of l) ''trace_id'') \<and> \<not> rank_below (JStr cls) (ls_max_action_class l) \<and>
    (JStr ''*'' \<in> set (ls_scope l) \<or> JStr tool \<in> set (ls_scope l))"
proof -
  let ?B = "{l. \<exists>i. m_get (lt_leases s0) i = Some l}"
  have "held_in (G \<union> ?B) (lt_leases s0)" by (auto simp: held_in_def)
  then have held: "held_in (G \<union> ?B) (lt_leases s)" by (rule outage.run_inv [OF assms(1)])
  obtain l where found: "lease_found date_of now None (the lease_id) s l" and ok: "lease_permits l tool cls = Inr r"
    using assms(3) unfolding gate_passes_iff [OF assms(2)] by blast
  note passes = ok [unfolded lease_permits_iff [OF assms(2)]]
  have live: "live_lease now l" using found by (simp add: lease_found_def)
  moreover have trace: "\<not> untraced l" using passes assms(2)
    by (auto simp: checkVerdictLoop_def Let_def untraced_def isObserveClass_def split: if_splits)
  moreover have "l \<in> G \<union> ?B" using held found live trace
    by (auto simp: held_in_def lease_found_def live_lease_def)
  ultimately show ?thesis using passes by (auto simp: untraced_def)
qed

definition sample_gateway_lease :: lease_record where
  "sample_gateway_lease = gateway_lease ''sct_gate_auto_lease_fallback'' 0 ''opencode'' ''AUTO-1''"

theorem outage_authority_is_held_witness:
  "fst (validateLeaseForTool (\<lambda>_. None) 1 None (Some ''AUTO-1'') ''forge_shell'' ''IRREVERSIBLE'' None
     (registerLocalLease sample_gateway_lease no_tools)) = Inr (Some sample_gateway_lease) \<and>
   truthy (field (geometry_of sample_gateway_lease) ''trace_id'')"
proof (rule conjI)
  show passes: "fst (validateLeaseForTool (\<lambda>_. None) 1 None (Some ''AUTO-1'') ''forge_shell'' ''IRREVERSIBLE'' None
     (registerLocalLease sample_gateway_lease no_tools)) = Inr (Some sample_gateway_lease)" by code_simp
  have "(outage_step {sample_gateway_lease})\<^sup>*\<^sup>* no_tools (registerLocalLease sample_gateway_lease no_tools)"
    by (rule r_into_rtranclp, rule outage_step.own) simp
  from outage_authority_is_held [OF this _ passes]
  show "truthy (field (geometry_of sample_gateway_lease) ''trace_id'')" by simp
qed

text \<open>A lease the tools mint without the kernel passes no call but observations.\<close>

lemma fallback_lease_refused:
  "issueLeaseViaKernel date_of now None fallback i a = Issued l \<Longrightarrow> cls \<noteq> ''OBSERVE'' \<Longrightarrow>
    lease_permits l tool cls \<noteq> Inr r"
  by (simp add: lease_permits_iff checkVerdictLoop_def Let_def isObserveClass_def unreachable_issue [unfolded untraced_def])

section \<open>Killed agents\<close>

lemma agent_kill_nonces [simp]:
  "lt_nonces (snd (agent_kill_tool now ok agent_id killer lease_id why s)) = lt_nonces s"
  by (simp add: agent_kill_tool_def split: option.split prod.split)

text \<open>
  Killing an agent, which revokes its cached leases, changes no decision of the gate as long as the kernel
  answers: a call under a lease of the killed agent passes exactly as it did before.\<close>
theorem kill_leaves_gate:
  "fst (validateLeaseForTool date_of now (Some r) lease tool cls nonce
      (snd (agent_kill_tool now' ok agent_id killer lease_id why s))) =
   fst (validateLeaseForTool date_of now (Some r) lease tool cls nonce s)"
  by (simp add: validateLeaseForTool_cases Let_def fetch_lease_def)

end
