(* ===== verification/Engine_Floors.thy ===== *)
theory Engine_Floors
  imports Floor_Empathy Well_Readiness Memory_Gate
begin

text \<open>
  The floors the agent engine evaluates around a run and around each tool call
  (\<^verbatim>\<open>src/src/domain/governance\<close>: \<^verbatim>\<open>thresholds.ts\<close>, \<^verbatim>\<open>f3Witness.ts\<close>,
  \<^verbatim>\<open>f4Clarity.ts\<close>, \<^verbatim>\<open>f8Genius.ts\<close>, \<^verbatim>\<open>f9AntiHantu.ts\<close>, \<^verbatim>\<open>f11Coherence.ts\<close>,
  \<^verbatim>\<open>governanceAdvisory.ts\<close>, \<^verbatim>\<open>GovernanceClient.ts\<close>). They are not the floors of the
  request gate, which have the same numbers and other rules (theory \<open>Floors\<close>).

  Scores are binary64 numbers. Messages are left out; a list of findings keeps what a decision
  reads of it. Texts have characters of 8 bits, so the patterns for Greek and Chinese characters
  match nothing and are left out. Patterns with the flag \<^verbatim>\<open>i\<close> are written in lower case and
  tested on the text in lower case.
\<close>

section \<open>Thresholds\<close>

datatype intent_model = Informational | Advisory | Execution | Speculative

record adaptive_thresholds =
  th_minLength :: nat
  th_minWords :: nat
  th_overconfident :: "rat \<times> rat"
  th_underconfident :: "rat \<times> nat"
  th_forceHold :: bool

definition getAdaptiveThresholds :: "intent_model \<Rightarrow> risk_level \<Rightarrow> adaptive_thresholds" where
  "getAdaptiveThresholds model risk =
     \<lparr> th_minLength = (if risk = RiskCritical then 30 else if risk = RiskHigh then 20 else if risk = RiskMedium then 10 else 3),
       th_minWords = (if risk = RiskCritical then 4 else if risk = RiskHigh then 3 else if risk = RiskMedium then 2 else 1),
       th_overconfident =
         (if risk = RiskCritical \<or> model = Speculative then (dbl (70 / 100), dbl (45 / 100))
          else if risk = RiskHigh \<or> model = Execution then (dbl (75 / 100), dbl (40 / 100))
          else if risk = RiskMedium \<or> model = Advisory then (dbl (85 / 100), dbl (35 / 100))
          else (dbl (92 / 100), dbl (25 / 100))),
       th_underconfident =
         (if risk = RiskCritical \<or> model = Speculative then (dbl (1 / 2), 1)
          else if risk = RiskHigh \<or> model = Execution then (dbl (4 / 10), 2)
          else if risk = RiskMedium \<or> model = Advisory then (dbl (3 / 10), 3)
          else (dbl (2 / 10), 5)),
       th_forceHold = (risk = RiskHigh \<or> risk = RiskCritical) \<rparr>"

section \<open>Repeated patterns\<close>

fun rx_times :: "nat \<Rightarrow> rx \<Rightarrow> rx" where
  "rx_times 0 r = REmpty"
| "rx_times (Suc n) r = (if n = 0 then r else RSeq r (rx_times n r))"

text \<open>
  The number of matches of \<^verbatim>\<open>matchAll\<close>, for a pattern that matches no empty text and has at
  most one match at a position.\<close>

fun rx_count :: "nat \<Rightarrow> rx \<Rightarrow> position \<Rightarrow> nat" where
  "rx_count 0 r st = 0"
| "rx_count (Suc n) r st =
     (case ends r st of
        e # es \<Rightarrow> Suc (rx_count n r e)
      | [] \<Rightarrow> (case snd st of [] \<Rightarrow> 0 | c # cs \<Rightarrow> rx_count n r (Some c, cs)))"

definition match_count :: "rx \<Rightarrow> string \<Rightarrow> nat" where
  "match_count r s = (let t = to_lower s in rx_count (Suc (length t)) r (None, t))"

section \<open>F3: a clear task\<close>

fun split_white :: "string \<Rightarrow> string \<Rightarrow> string list" where
  "split_white acc [] = [rev acc]"
| "split_white acc (c # cs) = (if space_char c then rev acc # split_white [] cs else split_white (c # acc) cs)"

definition words_of :: "string \<Rightarrow> string list" where
  "words_of s = filter (\<lambda>w. w \<noteq> []) (split_white [] s)"

definition bare_word :: "string \<Rightarrow> string" where
  "bare_word w = filter (\<lambda>c. c \<in> set ''abcdefghijklmnopqrstuvwxyz0123456789'') (to_lower w)"

definition greetingPattern :: rx where
  "greetingPattern =
     rx_seq [RStart, rx_words [''hi'', ''hey'', ''hello'', ''yo'', ''sup'', ''ok'', ''thanks'',
       ''thx'', ''bye'', ''good'', ''yes'', ''no'', ''y'', ''n'', ''hmm'', ''ah'', ''oh'', ''wtf'',
       ''lol''], RStar (RSet (''!.'')), REnd]"

datatype witness_problem = EmptyInput | INPUT_TOO_SHORT | INSUFFICIENT_WORDS | AMBIGUOUS_REPETITION

text \<open>\<^term>\<open>None\<close> is PASS; a problem is SABAR.\<close>

definition checkWitness :: "string \<Rightarrow> nat \<Rightarrow> nat \<Rightarrow> witness_problem option" where
  "checkWitness task minLength minWords =
     (let trimmed = trim task; ws = words_of trimmed in
      if trimmed = [] then Some EmptyInput
      else if rx_test_i greetingPattern trimmed then None
      else if length trimmed < minLength then Some INPUT_TOO_SHORT
      else if length ws < minWords then Some INSUFFICIENT_WORDS
      else if length ws > 3 \<and> length (remdups (map bare_word ws)) = 1 then Some AMBIGUOUS_REPETITION
      else None)"

section \<open>F4: the risk of a call\<close>

text \<open>
  A tool named like a property every object inherits finds that property instead of a score, and the risk is NaN
  (\<^term>\<open>None\<close>).\<close>

definition RISK_SCORES :: "(string \<times> rat) list" where
  "RISK_SCORES =
     [(''read_file'', dbl (1 / 10)), (''list_files'', dbl (1 / 10)), (''grep_text'', dbl (1 / 10)),
      (''write_file'', dbl (1 / 2)), (''run_tests'', dbl (3 / 10)), (''run_command'', dbl (8 / 10))]"

definition MODIFIER_PATTERNS :: "(rx \<times> rat) list" where
  "MODIFIER_PATTERNS =
     [(rx_words [''delete'', ''remove''], dbl (3 / 10)), (rx_words [''overwrite'', ''replace''], dbl (2 / 10)),
      (rx_words [''sudo'', ''admin'', ''root''], dbl (4 / 10)), (rx_words [''production'', ''prod'', ''live''], dbl (3 / 10))]"

definition score_of :: "(string \<times> rat) list \<Rightarrow> rat \<Rightarrow> string \<Rightarrow> rat option" where
  "score_of scores other name =
     (if name \<in> set inherited_names then None
      else Some (case map_of scores name of Some x \<Rightarrow> x | None \<Rightarrow> other))"

text \<open>\<open>for (const m of ms) if (m.pattern.test(text)) value += m.delta; return Math.min(1.0, value)\<close>\<close>

definition add_deltas :: "(rx \<times> rat) list \<Rightarrow> string \<Rightarrow> rat \<Rightarrow> rat" where
  "add_deltas ms text base =
     min 1 (fold (\<lambda>(p, d) x. if rx_test_i p text then dbl_add x d else x) ms base)"

definition calculateRisk :: "runtime \<Rightarrow> string \<Rightarrow> json \<Rightarrow> rat option" where
  "calculateRisk rt toolName params =
     map_option (add_deltas MODIFIER_PATTERNS (stringify (number_text rt) params)) (score_of RISK_SCORES (dbl (1 / 2)) toolName)"

text \<open>Whether the call is held, and the risk after it.\<close>

definition checkClarity :: "runtime \<Rightarrow> string \<Rightarrow> json \<Rightarrow> rat option \<Rightarrow> bool \<Rightarrow> bool \<times> rat option" where
  "checkClarity rt toolName params previousRisk isFirstCall =
     (let riskAfter = calculateRisk rt toolName params in
      (\<not> isFirstCall \<and>
         (case (riskAfter, previousRisk) of
            (Some a, Some b) \<Rightarrow> dbl_sub a b > dbl (4 / 10)
          | _ \<Rightarrow> False), riskAfter))"

section \<open>F8: grounding\<close>

definition TRIVIAL_TOOLS :: "string list" where
  "TRIVIAL_TOOLS = [''list_files'', ''read_file'', ''grep_text'']"

definition gStar :: "nat \<Rightarrow> nat \<Rightarrow> rat" where
  "gStar evidenceCount memoryHits =
     min 1 (dbl_add (dbl_add (dbl (of_nat evidenceCount * dbl (3 / 10))) (dbl (of_nat memoryHits * dbl (2 / 10)))) (dbl (1 / 10)))"

text \<open>Whether the call is held.\<close>

definition checkGenius :: "string \<Rightarrow> nat \<Rightarrow> nat \<Rightarrow> bool \<Rightarrow> bool" where
  "checkGenius toolName evidenceCount memoryHits isFirstCall \<longleftrightarrow>
     \<not> (toolName \<in> set TRIVIAL_TOOLS \<or> isFirstCall) \<and> gStar evidenceCount memoryHits < dbl (45 / 100)"

definition countEvidence :: "(bool \<times> string) list \<Rightarrow> nat" where
  "countEvidence toolResults = length (filter (\<lambda>(ok, out). ok \<and> length out > 10) toolResults)"

section \<open>F9: injection and shadows\<close>

definition INJECTION_PATTERNS :: "rx list" where
  "INJECTION_PATTERNS =
    [rx_seq [rx_text ''ignore'', RSpaces, rx_opt (rx_seq [rx_text ''all'', RSpaces]),
       rx_words [''previous'', ''earlier'', ''above''], RSpaces, rx_alt [rx_plural ''instruction'',
       rx_plural ''command'']],
     rx_seq [rx_text ''bypass'', RSpaces, rx_alt [rx_text ''policy'', rx_text ''security'',
       rx_plural ''restriction'']],
     rx_seq [rx_text ''override'', RSpaces, rx_alt [rx_text ''system'', rx_text ''safety'',
       rx_plural ''constraint'']],
     rx_seq [rx_text ''do'', RSpaces, rx_text ''not'', RSpaces, rx_words [''log'', ''record'',
       ''remember'']],
     rx_seq [rx_text ''reveal'', RSpaces, rx_alt [rx_plural ''secret'', rx_plural ''key'',
       rx_plural ''password'', rx_plural ''token'']],
     rx_seq [rx_text ''forget'', RSpaces, rx_words [''your'', ''all''], RSpaces,
       rx_alt [rx_plural ''instruction'', rx_text ''training'']],
     rx_seq [rx_text ''you'', RSpaces, rx_text ''are'', RSpaces, rx_words [''now'', ''instead''],
       RSpaces, rx_opt (rx_seq [rx_text ''a'', rx_opt (rx_text ''n''), RSpaces]),
       rx_words [''dan'', ''jailbroken'', ''unrestricted'']],
     rx_seq [rx_text ''system'', RSpaces0, rx_text '':'', RSpaces0, rx_text ''new'', RSpaces,
       rx_text ''instruction''],
     rx_seq [rx_text ''user'', RSpaces0, rx_text '':'', RSpaces0, rx_text ''administrator''],
     rx_seq [rx_text ''disregard'', RSpaces, rx_words [''safety'', ''ethical'', ''morality'']]]"

definition SHADOW_PATTERNS :: "rx list" where
  "SHADOW_PATTERNS =
    [rx_seq [RWordB, rx_text ''maruah'', RWordB],
     rx_seq [RWordB, rx_text ''seal'', RSpaces, rx_text ''verdict'', RWordB],
     rx_seq [RWordB, rx_text ''metabolic'', RSpaces, rx_text ''pulse'', RWordB],
     rx_seq [RWordB, rx_text ''tri-witness'', RWordB]]"

definition MANIPULATION_PATTERNS :: "rx list" where
  "MANIPULATION_PATTERNS =
    [rx_words [''delete'', ''wipe'', ''remove'', ''drop'', ''truncate''],
     rx_words [''bypass'', ''override'', ''ignore''],
     rx_text ''fabricat'',
     rx_words [''unauthorized'', ''forged'', ''shadow'']]"

definition isShadowContext :: "string \<Rightarrow> nat \<Rightarrow> bool" where
  "isShadowContext input found \<longleftrightarrow>
     found \<ge> 2 \<or> (list_ex (\<lambda>p. rx_test_i p input) MANIPULATION_PATTERNS \<and> found \<ge> 1)"

record shadow_context =
  sc_sessionId :: "string option"
  sc_pipelineStage :: "string option"
  sc_hasTelemetry :: bool

text \<open>The number of injection patterns and the number of shadow rules that trigger; VOID unless both are 0.\<close>

definition checkAntiHantu :: "string \<Rightarrow> shadow_context \<Rightarrow> nat \<times> nat" where
  "checkAntiHantu input ctx =
     (let found = length (filter (\<lambda>p. rx_test_i p input) SHADOW_PATTERNS);
          stage = (\<lambda>t. case sc_pipelineStage ctx of None \<Rightarrow> False | Some s \<Rightarrow> str_includes s t) in
      (length (filter (\<lambda>p. rx_test_i p input) INJECTION_PATTERNS),
       (if found > 0 \<and> \<not> sc_hasTelemetry ctx then 1 else 0) +
       (if found > 0 \<and> falsy (sc_sessionId ctx) \<and> isShadowContext input found then 1 else 0) +
       (if str_includes (to_lower input) ''stage 777'' \<and> \<not> stage ''555'' \<and> \<not> stage ''777'' then 1 else 0)))"

section \<open>F11: contradictions\<close>

definition CONTRADICTION_PATTERNS :: "(rx \<times> rx) list" where
  "CONTRADICTION_PATTERNS =
    [(rx_seq [RWordB, rx_text ''yes'', RWordB], rx_seq [RWordB, rx_text ''no'', RWordB]),
     (rx_seq [RWordB, rx_text ''success'', RWordB], rx_seq [RWordB, rx_text ''failed'', RWordB]),
     (rx_seq [RWordB, rx_text ''exists'', RWordB], rx_seq [RWordB, rx_text ''does not exist'', RWordB]),
     (rx_seq [RWordB, rx_text ''pass'', RWordB], rx_seq [RWordB, rx_text ''fail'', RWordB]),
     (rx_seq [RWordB, rx_text ''correct'', RWordB], rx_seq [RWordB, rx_text ''incorrect'', RWordB]),
     (rx_seq [RWordB, rx_text ''valid'', RWordB], rx_seq [RWordB, rx_text ''invalid'', RWordB])]"

definition FILE_EXISTS_PATTERN :: rx where
  "FILE_EXISTS_PATTERN =
     rx_seq [rx_text ''file'', RStar (RDot), rx_words [''exists'', ''found'']]"

definition FILE_NOT_EXISTS_PATTERN :: rx where
  "FILE_NOT_EXISTS_PATTERN =
     rx_seq [rx_text ''file'', RStar (RDot), rx_words [''not found'', ''does not exist'',
       ''no such file'']]"

definition contradicts :: "string \<Rightarrow> string \<Rightarrow> nat" where
  "contradicts cur nxt =
     (if cur = [] \<or> nxt = [] then 0
      else length (filter (\<lambda>(a, b). (rx_test_i a cur \<and> rx_test_i b nxt) \<or> (rx_test_i b cur \<and> rx_test_i a nxt))
        CONTRADICTION_PATTERNS))"

fun pair_contradictions :: "string list \<Rightarrow> nat" where
  "pair_contradictions (a # b # ms) = contradicts a b + pair_contradictions (b # ms)"
| "pair_contradictions ms = 0"

text \<open>The number of contradictions; HOLD unless 0.\<close>

definition checkCoherence :: "string list \<Rightarrow> nat" where
  "checkCoherence messages =
     pair_contradictions (drop (length messages - 5) messages) +
     (if list_ex (rx_test_i FILE_EXISTS_PATTERN) messages \<and> list_ex (rx_test_i FILE_NOT_EXISTS_PATTERN) messages then 1 else 0)"

section \<open>The advisories\<close>

datatype recommendation = PROCEED_A | ROUTE_TO_KERNEL | FLAG_FOR_HUMAN

datatype advisory_risk = AdvLow | AdvMedium | AdvHigh | AdvCritical

definition certaintyPatterns :: rx where
  "certaintyPatterns =
     rx_seq [RWordB, rx_words [''definitely'', ''absolutely'', ''certainly'', ''without a doubt'',
       ''undeniably'', ''irrefutably'', ''100% sure''], RWordB]"

definition evidenceMarkers :: rx where
  "evidenceMarkers =
     rx_seq [RWordB, rx_words [''according to'', ''evidence shows'', ''source:'', ''citation'',
       ''referenced in'', ''as reported by''], RWordB]"

definition adviseTruth :: "string \<Rightarrow> nat \<Rightarrow> recommendation" where
  "adviseTruth text evidenceCount =
     (if match_count certaintyPatterns text > match_count evidenceMarkers text \<and> evidenceCount < 2
      then ROUTE_TO_KERNEL else PROCEED_A)"

definition PRIVACY_PATTERNS :: "(string \<times> rx \<times> bool) list" where
  "PRIVACY_PATTERNS =
    [(''EMAIL'',
       rx_seq [rx_plus (RSet (''abcdefghijklmnopqrstuvwxyz0123456789._%+-'')), rx_text ''@'',
         rx_plus (RSet (''abcdefghijklmnopqrstuvwxyz0123456789.-'')), rx_text ''.'',
         RSeq (rx_times 2 (RSet (''abcdefghijklmnopqrstuvwxyz''))) (RStar (RSet (''abcdefghijklmnopqrstuvwxyz'')))], False),
     (''PHONE'',
       rx_seq [RWordB, rx_times 3 (RSet (''0123456789'')), rx_opt (RSet (''-.'' @ white)),
         rx_times 3 (RSet (''0123456789'')), rx_opt (RSet (''-.'' @ white)),
         rx_times 4 (RSet (''0123456789'')), RWordB], False),
     (''SSN'',
       rx_seq [RWordB, rx_times 3 (RSet (''0123456789'')), rx_text ''-'',
         rx_times 2 (RSet (''0123456789'')), rx_text ''-'', rx_times 4 (RSet (''0123456789'')),
         RWordB], True),
     (''CREDIT_CARD'',
       rx_seq [RWordB, rx_times 3 (rx_seq [rx_times 4 (RSet (''0123456789'')),
         rx_opt (RSet (''-'' @ white))]), rx_times 4 (RSet (''0123456789'')), RWordB], True)]"

definition advisePrivacy :: "string \<Rightarrow> recommendation \<times> advisory_risk \<times> string list" where
  "advisePrivacy text =
     (let found = filter (\<lambda>(name, p, critical). rx_test_i p text) PRIVACY_PATTERNS in
      if found = [] then (PROCEED_A, AdvLow, [])
      else (ROUTE_TO_KERNEL, if list_ex (\<lambda>(name, p, critical). critical) found then AdvCritical else AdvHigh, map fst found))"

definition resource_score :: "nat \<Rightarrow> nat \<Rightarrow> rat \<Rightarrow> nat \<Rightarrow> bool \<Rightarrow> rat" where
  "resource_score turnCount toolCallCount maxTurns blockedCommands error =
     dbl_add (dbl_add (dbl_add (if of_nat turnCount > dbl (maxTurns * dbl (8 / 10)) then dbl (4 / 10) else 0)
       (if toolCallCount > 20 then dbl (3 / 10) else 0)) (if blockedCommands > 0 then dbl (2 / 10) else 0))
       (if error then dbl (1 / 10) else 0)"

text \<open>\<open>error\<close>: there is an error message, and it is not the empty text.\<close>

definition adviseStewardship :: "nat \<Rightarrow> nat \<Rightarrow> rat \<Rightarrow> nat \<Rightarrow> bool \<Rightarrow> recommendation" where
  "adviseStewardship turnCount toolCallCount maxTurns blockedCommands error =
     (let score = resource_score turnCount toolCallCount maxTurns blockedCommands error in
      if score > dbl (1 / 2) then ROUTE_TO_KERNEL else if score > dbl (3 / 10) then FLAG_FOR_HUMAN else PROCEED_A)"

section \<open>The local governance client\<close>

datatype governance_verdict = G_SEAL | G_HOLD | G_SABAR | G_VOID

definition local_governance :: "string \<Rightarrow> shadow_context \<Rightarrow> nat \<Rightarrow> nat \<Rightarrow> governance_verdict \<times> string list" where
  "local_governance task ctx minLength minWords =
     (let harm = er_verdict (checkEmpathy task) = E_VOID in
      if \<not> harm \<and> checkWitness task minLength minWords \<noteq> None then (G_SABAR, [''F3''])
      else if harm then (G_VOID, [''F6''])
      else if checkAntiHantu task ctx \<noteq> (0, 0) then (G_VOID, [''F9''])
      else (G_SEAL, []))"

text \<open>
  The client of the governance service: \<^term>\<open>None\<close> when the service cannot be reached or its answer is no
  success; a missing verdict is HOLD.\<close>

definition http_governance :: "(string option \<times> string list option) option \<Rightarrow> string \<times> string list" where
  "http_governance reply =
     (case reply of
        None \<Rightarrow> (''HOLD'', [''F1''])
      | Some (v, fs) \<Rightarrow> (case v of Some x \<Rightarrow> x | None \<Rightarrow> ''HOLD'', case fs of Some x \<Rightarrow> x | None \<Rightarrow> []))"

end
