(* ===== verification/Thermo_Cost.thy ===== *)
theory Thermo_Cost
  imports Engine_Floors
begin

text \<open>
  The cost estimate that is made before every tool call
  (\<^verbatim>\<open>src/src/domain/ops/ThermodynamicCostEstimator.ts\<close>), in binary64 arithmetic. The name of a
  tool that every object inherits as a property makes the estimate throw
  (\<^term>\<open>None\<close>), as the score it finds has no \<^verbatim>\<open>toFixed\<close>. The texts of the reasons are left out. The
  power function of the present value is an argument.
\<close>

definition KAPPA_R_THRESHOLD :: rat where "KAPPA_R_THRESHOLD = dbl (7 / 10)"
definition BLAST_RADIUS_THRESHOLD :: rat where "BLAST_RADIUS_THRESHOLD = dbl (8 / 10)"
definition LANDAUER_COST_THRESHOLD :: rat where "LANDAUER_COST_THRESHOLD = dbl (7 / 10)"
definition DS_PREDICT_THRESHOLD :: rat where "DS_PREDICT_THRESHOLD = dbl (4 / 10)"

definition TOOL_LANDAUER_COST :: "(string \<times> rat) list" where
  "TOOL_LANDAUER_COST =
    [(''read_file'', dbl (5 / 100)), (''list_files'', dbl (3 / 100)), (''grep_text'', dbl (8 / 100)), (''apply_patches'', dbl (40 / 100)), (''write_file'', dbl (35 / 100)), (''run_tests'', dbl (40 / 100)), (''run_command'', dbl (85 / 100))]"

definition TOOL_KAPPA_R :: "(string \<times> rat) list" where
  "TOOL_KAPPA_R =
    [(''read_file'', dbl (100 / 100)), (''list_files'', dbl (100 / 100)), (''grep_text'', dbl (100 / 100)), (''apply_patches'', dbl (80 / 100)), (''write_file'', dbl (60 / 100)), (''run_tests'', dbl (70 / 100)), (''run_command'', dbl (20 / 100))]"

definition TOOL_BLAST_RADIUS :: "(string \<times> rat) list" where
  "TOOL_BLAST_RADIUS =
    [(''read_file'', dbl (0 / 100)), (''list_files'', dbl (0 / 100)), (''grep_text'', dbl (5 / 100)), (''apply_patches'', dbl (40 / 100)), (''write_file'', dbl (60 / 100)), (''run_tests'', dbl (40 / 100)), (''run_command'', dbl (90 / 100))]"

definition BLAST_RADIUS_MODIFIERS :: "(rx \<times> rat) list" where
  "BLAST_RADIUS_MODIFIERS =
    [(rx_words [''rm'', ''del'', ''drop'', ''truncate''], dbl (40 / 100)),
     (rx_words [''production'', ''prod'', ''main'', ''live''], dbl (30 / 100)),
     (rx_words [''sudo'', ''exec'', ''eval'', ''spawn''], dbl (35 / 100)),
     (rx_alt [rx_text ''merge'', rx_seq [rx_text ''push'', RStar (RDot), rx_text ''main''], rx_seq [rx_text ''force'', RStar (RDot), rx_text ''push'']], dbl (50 / 100)),
     (rx_alt [rx_seq [rx_text ''git'', RStar (RDot), rx_text ''reset''], rx_seq [rx_text ''rebase'', RStar (RDot), rx_text ''-i'']], dbl (30 / 100))]"

definition DS_PREDICT_MODIFIERS :: "(rx \<times> rat) list" where
  "DS_PREDICT_MODIFIERS =
    [(rx_words [''delete'', ''remove'', ''rm''], dbl (40 / 100)),
     (rx_words [''overwrite'', ''replace''], dbl (20 / 100)),
     (rx_words [''production'', ''prod'', ''live''], dbl (30 / 100)),
     (rx_words [''batch'', ''bulk'', ''loop''], dbl (25 / 100))]"

section \<open>The estimate\<close>

datatype thermo_band = BandLow | BandMedium | BandHigh | BandCritical

record thermo_cost =
  tc_landauerCost :: rat
  tc_kappa_r :: rat
  tc_blastRadius :: rat
  tc_dS_predict :: rat
  tc_emv :: rat
  tc_npv :: rat
  tc_isReversible :: bool
  tc_isExpensive :: bool
  tc_band :: thermo_band

definition composite :: "rat \<Rightarrow> rat \<Rightarrow> rat \<Rightarrow> rat \<Rightarrow> rat" where
  "composite landauer kappa blast dS =
     dbl_add (dbl_add (dbl_add (dbl_mul landauer (dbl (3 / 10))) (dbl_mul (dbl_sub 1 kappa) (dbl (3 / 10))))
       (dbl_mul blast (dbl (2 / 10)))) (dbl_mul dS (dbl (2 / 10)))"

definition band_of :: "rat \<Rightarrow> thermo_band" where
  "band_of x =
     (if x \<ge> dbl (8 / 10) then BandCritical else if x \<ge> dbl (6 / 10) then BandHigh
      else if x \<ge> dbl (3 / 10) then BandMedium else BandLow)"

definition estimate :: "runtime \<Rightarrow> string \<Rightarrow> json \<Rightarrow> thermo_cost option" where
  "estimate rt toolName params =
     (let argStr = stringify (number_text rt) params in
      case (score_of TOOL_LANDAUER_COST (dbl (1 / 2)) toolName, score_of TOOL_KAPPA_R (dbl (1 / 2)) toolName,
            score_of TOOL_BLAST_RADIUS (dbl (1 / 2)) toolName) of
        (Some landauer, Some kappa, Some base) \<Rightarrow>
          (let landauerCost = add_deltas [] argStr landauer;
               blastRadius = add_deltas BLAST_RADIUS_MODIFIERS argStr base;
               dS = add_deltas DS_PREDICT_MODIFIERS argStr (dbl_mul blastRadius (dbl (1 / 2))) in
           Some \<lparr> tc_landauerCost = landauerCost, tc_kappa_r = kappa, tc_blastRadius = blastRadius,
             tc_dS_predict = dS, tc_emv = 0, tc_npv = 0, tc_isReversible = (kappa \<ge> KAPPA_R_THRESHOLD),
             tc_isExpensive = (landauerCost \<ge> LANDAUER_COST_THRESHOLD),
             tc_band = band_of (composite landauerCost kappa blastRadius dS) \<rparr>)
      | _ \<Rightarrow> None)"

section \<open>Expected and present value\<close>

record cash_flow =
  cf_amount :: rat
  cf_probability :: rat
  cf_period :: rat

record wealth_scenario =
  ws_cashFlows :: "cash_flow list"
  ws_initialInvestment :: rat
  ws_discountRate :: rat

definition computeEMV :: "wealth_scenario \<Rightarrow> rat" where
  "computeEMV sc =
     dbl_sub (fold (\<lambda>cf sum. dbl_add sum (dbl_mul (cf_probability cf) (cf_amount cf))) (ws_cashFlows sc) 0)
       (ws_initialInvestment sc)"

text \<open>\<open>pow\<close> is \<^verbatim>\<open>Math.pow\<close>; a rate of -1 is left out.\<close>

definition present_value :: "(rat \<Rightarrow> rat \<Rightarrow> rat) \<Rightarrow> (cash_flow \<Rightarrow> rat) \<Rightarrow> wealth_scenario \<Rightarrow> rat" where
  "present_value pow period sc =
     dbl_sub (fold (\<lambda>cf sum. dbl_add sum (dbl (cf_amount cf / pow (dbl_add 1 (ws_discountRate sc)) (period cf))))
       (ws_cashFlows sc) 0) (ws_initialInvestment sc)"

definition scenarioNPV :: "(rat \<Rightarrow> rat \<Rightarrow> rat) \<Rightarrow> wealth_scenario \<Rightarrow> rat" where
  "scenarioNPV pow sc = present_value pow cf_period sc"

text \<open>The method of the class counts a period that is not positive as 1.\<close>

definition computeNPV :: "(rat \<Rightarrow> rat \<Rightarrow> rat) \<Rightarrow> wealth_scenario \<Rightarrow> rat" where
  "computeNPV pow sc = present_value pow (\<lambda>cf. if cf_period cf > 0 then cf_period cf else 1) sc"

section \<open>The verdict\<close>

datatype thermo_verdict = ThermoPass | ThermoHold | ThermoVoid

datatype thermo_violation = LANDAUER_COST | REVERSIBILITY | BLAST_RADIUS | ENTROPY_DELTA | EMV | NPV

definition thermo_violations :: "thermo_cost \<Rightarrow> thermo_violation list" where
  "thermo_violations c =
     (if tc_landauerCost c \<ge> LANDAUER_COST_THRESHOLD then [LANDAUER_COST] else []) @
     (if tc_kappa_r c < KAPPA_R_THRESHOLD then [REVERSIBILITY] else []) @
     (if tc_blastRadius c \<ge> BLAST_RADIUS_THRESHOLD then [BLAST_RADIUS] else []) @
     (if tc_dS_predict c > DS_PREDICT_THRESHOLD then [ENTROPY_DELTA] else []) @
     (if tc_emv c < 0 then [EMV] else []) @
     (if tc_npv c < 0 then [NPV] else [])"

definition thermo_verdict_of :: "thermo_cost \<Rightarrow> thermo_verdict" where
  "thermo_verdict_of c =
     (if list_ex (\<lambda>v. v \<in> {BLAST_RADIUS, EMV, NPV}) (thermo_violations c) then ThermoVoid
      else if tc_band c = BandHigh \<or> tc_band c = BandCritical then ThermoHold else ThermoPass)"

definition estimateWithWealth ::
  "(rat \<Rightarrow> rat \<Rightarrow> rat) \<Rightarrow> runtime \<Rightarrow> string \<Rightarrow> json \<Rightarrow> wealth_scenario option \<Rightarrow> (thermo_verdict \<times> thermo_cost) option" where
  "estimateWithWealth pow rt toolName params scenario =
     (case estimate rt toolName params of
        None \<Rightarrow> None
      | Some c \<Rightarrow>
          (let c' = (case scenario of None \<Rightarrow> c
                     | Some sc \<Rightarrow> c\<lparr> tc_emv := computeEMV sc, tc_npv := scenarioNPV pow sc \<rparr>) in
           Some (thermo_verdict_of c', c')))"

definition quickEntropyCheck :: "runtime \<Rightarrow> string \<Rightarrow> json \<Rightarrow> rat \<Rightarrow> bool option" where
  "quickEntropyCheck rt toolName params previousRisk =
     map_option (\<lambda>c. tc_dS_predict c > DS_PREDICT_THRESHOLD \<and> previousRisk > 0) (estimate rt toolName params)"

section \<open>What the blast radius decides\<close>

lemma deltas_grow:
  "list_all (\<lambda>(p, d). 0 \<le> d) ms \<Longrightarrow> dbl c = c \<Longrightarrow> c \<le> x \<Longrightarrow>
    c \<le> fold (\<lambda>(p, d) x. if rx_test_i p text then dbl_add x d else x) ms x"
proof (induction ms arbitrary: x)
  case (Cons m ms)
  obtain p d where m: "m = (p, d)" by (cases m)
  have "c \<le> (if rx_test_i p text then dbl_add x d else x)"
    using Cons.prems dbl_add_grows [of c x d] by (cases "rx_test_i p text") (simp_all add: m)
  then show ?case using Cons.IH Cons.prems(1,2) by (simp only: m fold.simps comp_apply prod.case list.pred_inject)
qed simp

lemma add_deltas_grow:
  "list_all (\<lambda>(p, d). 0 \<le> d) ms \<Longrightarrow> dbl c = c \<Longrightarrow> c \<le> 1 \<Longrightarrow> c \<le> x \<Longrightarrow> c \<le> add_deltas ms text x"
  using deltas_grow [of ms c x "text"] by (simp add: add_deltas_def)

lemma blast_deltas_pos: "list_all (\<lambda>(p, d). 0 \<le> d) BLAST_RADIUS_MODIFIERS"
  unfolding BLAST_RADIUS_MODIFIERS_def list.pred_inject prod.case by (intro conjI TrueI dbl_nonneg; simp)

definition deletion_words :: rx where
  "deletion_words = rx_words [''rm'', ''del'', ''drop'', ''truncate'']"

lemma dbl_1 [simp]: "dbl 1 = 1"
  using dbl_exact [of "2 ^ 52" "- 52"] by (simp add: two_pow_def)

lemma two_pow_simps: "two_pow 0 = 1" "two_pow 1 = 2" "two_pow 2 = 4"
  by (simp_all add: two_pow_def)

lemma dbl_two_mul: "dbl (2 * x) = 2 * dbl x"
proof -
  have p: "dbl (2 * x) = 2 * dbl x" if "0 < x" for x
  proof -
    have b: "binary_exponent (2 * x) = binary_exponent x + 1"
      using binary_exponent_bounds [OF that] by (intro binary_exponent_unique) (simp_all add: two_pow_add two_pow_simps)
    have "two_pow (binary_exponent x + 1 - 52) = 2 * two_pow (binary_exponent x - 52)"
      using two_pow_add [of "binary_exponent x - 52" 1] by (simp add: two_pow_simps)
    then show ?thesis using that by (simp add: dbl_def b Let_def)
  qed
  consider "0 < x" | "x = 0" | "0 < - x" by linarith
  then show ?thesis using p [of x] p [of "- x"] by cases (simp_all add: dbl_minus)
qed

lemma threshold_facts:
  "dbl BLAST_RADIUS_THRESHOLD = BLAST_RADIUS_THRESHOLD" "BLAST_RADIUS_THRESHOLD \<le> 1"
  "BLAST_RADIUS_THRESHOLD \<le> dbl (90 / 100)"
  "BLAST_RADIUS_THRESHOLD \<le> dbl_add (dbl (60 / 100)) (dbl (40 / 100))"
  "BLAST_RADIUS_THRESHOLD \<le> dbl_add (dbl (40 / 100)) (dbl (40 / 100))"
proof -
  show "dbl BLAST_RADIUS_THRESHOLD = BLAST_RADIUS_THRESHOLD" by (simp add: BLAST_RADIUS_THRESHOLD_def)
  show "BLAST_RADIUS_THRESHOLD \<le> 1" using dbl_mono [of "8 / 10" 1] by (simp add: BLAST_RADIUS_THRESHOLD_def)
  show "BLAST_RADIUS_THRESHOLD \<le> dbl (90 / 100)" by (simp add: BLAST_RADIUS_THRESHOLD_def dbl_mono)
  have "1 / 2 \<le> dbl (60 / 100)" "3 / 8 \<le> dbl (40 / 100)"
    using dbl_mono [of "1 / 2" "60 / 100"] dbl_mono [of "3 / 8" "40 / 100"]
      dbl_exact [of "2 ^ 52" "- 53"] dbl_exact [of "3 * 2 ^ 51" "- 54"] by (simp_all add: two_pow_def)
  then show "BLAST_RADIUS_THRESHOLD \<le> dbl_add (dbl (60 / 100)) (dbl (40 / 100))"
    unfolding dbl_add_def BLAST_RADIUS_THRESHOLD_def by (intro dbl_mono) simp
  show "BLAST_RADIUS_THRESHOLD \<le> dbl_add (dbl (40 / 100)) (dbl (40 / 100))"
    using dbl_two_mul [of "4 / 10"] dbl_two_mul [of "dbl (4 / 10)"]
    by (simp add: dbl_add_def BLAST_RADIUS_THRESHOLD_def)
qed

lemma deletion_blast:
  assumes "rx_test_i deletion_words text" "BLAST_RADIUS_THRESHOLD \<le> dbl_add base (dbl (40 / 100))"
  shows "BLAST_RADIUS_THRESHOLD \<le> add_deltas BLAST_RADIUS_MODIFIERS text base"
proof -
  let ?ms = "tl BLAST_RADIUS_MODIFIERS"
  have ms: "BLAST_RADIUS_MODIFIERS = (deletion_words, dbl (40 / 100)) # ?ms"
    by (simp add: BLAST_RADIUS_MODIFIERS_def deletion_words_def)
  have "add_deltas BLAST_RADIUS_MODIFIERS text base = add_deltas ?ms text (dbl_add base (dbl (40 / 100)))"
    by (subst ms) (simp add: add_deltas_def assms(1))
  moreover have "list_all (\<lambda>(p, d). 0 \<le> d) ?ms" using blast_deltas_pos by (subst (asm) ms) simp
  ultimately show ?thesis using add_deltas_grow threshold_facts(1,2) assms(2) by metis
qed

lemma blast_voids:
  "estimate rt toolName params = Some c \<Longrightarrow> BLAST_RADIUS_THRESHOLD \<le> tc_blastRadius c \<Longrightarrow>
    \<exists>c. estimateWithWealth pow rt toolName params sc = Some (ThermoVoid, c)"
  by (cases sc) (simp_all add: estimateWithWealth_def thermo_verdict_of_def thermo_violations_def Let_def)

lemma estimate_blast:
  assumes "toolName \<notin> set inherited_names"
  shows "\<exists>c. estimate rt toolName params = Some c \<and>
    tc_blastRadius c = add_deltas BLAST_RADIUS_MODIFIERS (stringify (number_text rt) params)
      (case map_of TOOL_BLAST_RADIUS toolName of Some x \<Rightarrow> x | None \<Rightarrow> dbl (1 / 2))"
  using assms by (auto simp: estimate_def score_of_def Let_def)

text \<open>
  The estimate voids every call of \<^verbatim>\<open>run_command\<close>, whatever the command, and every write or patch whose
  arguments contain \<^verbatim>\<open>rm\<close>, \<^verbatim>\<open>del\<close>, \<^verbatim>\<open>drop\<close> or \<^verbatim>\<open>truncate\<close> anywhere, inside another
  word (\<^verbatim>\<open>form\<close>, \<^verbatim>\<open>model\<close>) or not; a wealth scenario does not help.\<close>
theorem thermo_voids_commands:
  "(\<exists>c. estimateWithWealth pow rt ''run_command'' params sc = Some (ThermoVoid, c)) \<and>
   (if str_includes (to_lower (stringify (number_text rt) params)) ''rm'' \<or>
       str_includes (to_lower (stringify (number_text rt) params)) ''del''
    then (\<exists>c. estimateWithWealth pow rt ''write_file'' params sc = Some (ThermoVoid, c)) \<and>
         (\<exists>c. estimateWithWealth pow rt ''apply_patches'' params sc = Some (ThermoVoid, c))
    else True)"
proof -
  let ?t = "stringify (number_text rt) params"
  have e: "\<exists>c. estimateWithWealth pow rt name params sc = Some (ThermoVoid, c)"
    if "name \<notin> set inherited_names" "map_of TOOL_BLAST_RADIUS name = Some x"
      "BLAST_RADIUS_THRESHOLD \<le> add_deltas BLAST_RADIUS_MODIFIERS ?t x" for name x
    using estimate_blast [OF that(1), of rt params] that(2,3) by (auto intro: blast_voids)
  have "BLAST_RADIUS_THRESHOLD \<le> add_deltas BLAST_RADIUS_MODIFIERS ?t (dbl (90 / 100))"
    by (rule add_deltas_grow [OF blast_deltas_pos threshold_facts(1-3)])
  then have "\<exists>c. estimateWithWealth pow rt ''run_command'' params sc = Some (ThermoVoid, c)"
    by (intro e [of _ "dbl (90 / 100)"]) (simp_all add: inherited_names_def TOOL_BLAST_RADIUS_def)
  moreover have "(\<exists>c. estimateWithWealth pow rt ''write_file'' params sc = Some (ThermoVoid, c)) \<and>
      (\<exists>c. estimateWithWealth pow rt ''apply_patches'' params sc = Some (ThermoVoid, c))"
    if w: "str_includes (to_lower ?t) ''rm'' \<or> str_includes (to_lower ?t) ''del''"
  proof
    have "rx_test_i deletion_words ?t"
      using w unfolding rx_test_i_def deletion_words_def by (auto intro: rx_test_words [of "''rm''"] rx_test_words [of "''del''"])
    note d = deletion_blast [OF this]
    show "\<exists>c. estimateWithWealth pow rt ''write_file'' params sc = Some (ThermoVoid, c)"
      using d [OF threshold_facts(4)]
      by (intro e [of _ "dbl (60 / 100)"]) (simp_all add: inherited_names_def TOOL_BLAST_RADIUS_def)
    show "\<exists>c. estimateWithWealth pow rt ''apply_patches'' params sc = Some (ThermoVoid, c)"
      using d [OF threshold_facts(5)]
      by (intro e [of _ "dbl (40 / 100)"]) (simp_all add: inherited_names_def TOOL_BLAST_RADIUS_def)
  qed
  ultimately show ?thesis by simp
qed

end
