(* ===== verification/Tool_Runtime.thy ===== *)
theory Tool_Runtime
  imports Thermo_Cost Policy_Gate
begin

text \<open>
  What stands between a tool call of a model and the tool: the settings of a mode
  (\<^verbatim>\<open>src/src/interfaces/config/modes.ts\<close>, \<^verbatim>\<open>src/src/domain/engine/redact.ts\<close>), the QQQ
  record (\<^verbatim>\<open>src/src/domain/governance/QQQRuntime.ts\<close>) and the registry
  (\<^verbatim>\<open>src/src/infrastructure/tools/ToolRegistry.ts\<close>, \<^verbatim>\<open>base.ts\<close>).

  The answer of the kernel's judge is an argument (\<^term>\<open>None\<close> when the call throws), and so is what a tool does:
  \<open>run\<close> maps the world to the outcome and the new world, and an outcome is the message of an error or a
  result. The receipts that are appended to a file, and the identifiers and times in them, are left out.
\<close>

section \<open>Modes\<close>

datatype agent_mode = InternalMode | ExternalSafeMode

definition SECRET_PATTERNS :: "rx list" where
  "SECRET_PATTERNS =
    [rx_seq [rx_text ''sk-'',
       RSeq (rx_times 12 (RSet (''abcdefghijklmnopqrstuvwxyz0123456789''))) (RStar (RSet (''abcdefghijklmnopqrstuvwxyz0123456789'')))],
     rx_seq [RWordB, rx_alt [rx_seq [rx_text ''api'', rx_opt (RSet (''_-'')), rx_text ''key''],
       rx_text ''token'', rx_text ''secret''], RWordB, RSpaces0, RSet ('':=''), RSpaces0,
       rx_opt (RSet ([CHR 0x22, CHR 0x27])),
       RSeq (rx_times 8 (RSet (''abcdefghijklmnopqrstuvwxyz0123456789._-''))) (RStar (RSet (''abcdefghijklmnopqrstuvwxyz0123456789._-''))),
       rx_opt (RSet ([CHR 0x22, CHR 0x27]))],
     rx_seq [rx_text ''http'', rx_opt (rx_text ''s''), rx_text ''://'', rx_plus (RNot (white))]]"
text \<open>
  \<^verbatim>\<open>current.replace(pattern, "[redacted]")\<close> for a pattern with the flags \<^verbatim>\<open>g\<close> and \<^verbatim>\<open>i\<close>: the
  matches are found in the lower-cased text and cut out of the text. For these patterns the match
  at a position is the longest one.\<close>

definition longest_end :: "position list \<Rightarrow> position" where
  "longest_end es = fold (\<lambda>e b. if length (snd e) < length (snd b) then e else b) (tl es) (hd es)"

fun redact_from :: "nat \<Rightarrow> rx \<Rightarrow> position \<Rightarrow> string \<Rightarrow> string" where
  "redact_from 0 r st rest = rest"
| "redact_from (Suc n) r st rest =
     (if ends r st \<noteq> [] then
        (let e = longest_end (ends r st) in
         ''[redacted]'' @ redact_from n r e (drop (length (snd st) - length (snd e)) rest))
      else
        (case (snd st, rest) of
           (l # ls, c # cs) \<Rightarrow> c # redact_from n r (Some l, ls) cs
         | _ \<Rightarrow> []))"

definition redact_pattern :: "rx \<Rightarrow> string \<Rightarrow> string" where
  "redact_pattern r s = redact_from (Suc (length s)) r (None, to_lower s) s"

definition redactForExternalMode :: "agent_mode \<Rightarrow> string \<Rightarrow> string" where
  "redactForExternalMode mode input =
     (if mode \<noteq> ExternalSafeMode then input else fold redact_pattern SECRET_PATTERNS input)"

record mode_settings =
  mo_allowDangerousTools :: bool
  mo_allowExperimentalTools :: bool
  mo_filterAllowedTools :: "string list \<Rightarrow> string list"
  mo_transformText :: "string \<Rightarrow> string"

definition buildModeSettings :: "agent_mode \<Rightarrow> mode_settings" where
  "buildModeSettings mode =
     (if mode = InternalMode then
        \<lparr> mo_allowDangerousTools = True, mo_allowExperimentalTools = True, mo_filterAllowedTools = id, mo_transformText = id \<rparr>
      else
        \<lparr> mo_allowDangerousTools = False, mo_allowExperimentalTools = False,
          mo_filterAllowedTools = filter (\<lambda>t. t \<noteq> ''run_command''), mo_transformText = redactForExternalMode mode \<rparr>)"

section \<open>The QQQ record\<close>

text \<open>\<^verbatim>\<open>Array.from(new Set(xs))\<close>\<close>

definition js_unique :: "'a list \<Rightarrow> 'a list" where
  "js_unique xs = rev (remdups (rev xs))"

definition names_any :: "string \<Rightarrow> string list \<Rightarrow> bool" where
  "names_any toolName ws \<longleftrightarrow> list_ex (str_includes toolName) ws"

definition extractAssumptions :: "string \<Rightarrow> string list" where
  "extractAssumptions toolName =
     [''Workspace matches standard arifOS directory structure'',
      ''Environment variables are set correctly in the sandboxed process''] @
     (if names_any toolName [''file'', ''write'', ''patch''] then
        [''Target file path is writeable and has no concurrent locks'',
         ''No binary file corruption will occur from textual edits'',
         ''File encoding is UTF-8 compliant'']
      else if names_any toolName [''shell'', ''command''] then
        [''Host system has required binaries and libraries installed'',
         ''Command execution does not exceed standard resource limits'',
         ''Process will exit cleanly without hanging'']
      else if names_any toolName [''wealth'', ''geox'', ''well''] then
        [''Organ service endpoint is online and listening on loopback port'',
         ''Calculations adhere to constitutional schema requirements'']
      else [])"

definition path_argument :: "runtime \<Rightarrow> json \<Rightarrow> string" where
  "path_argument rt params =
     value_text rt (coalesce (coalesce (coalesce (field params ''path'') (field params ''TargetFile''))
       (field params ''filepath'')) (JStr ''unknown''))"

definition command_argument :: "runtime \<Rightarrow> json \<Rightarrow> string \<Rightarrow> string" where
  "command_argument rt params missing =
     value_text rt (coalesce (coalesce (field params ''command'') (field params ''CommandLine'')) (JStr missing))"

definition detectUnknowns :: "runtime \<Rightarrow> string \<Rightarrow> json \<Rightarrow> string list" where
  "detectUnknowns rt toolName params =
     [''Whether concurrent system changes are being made outside the sandbox''] @
     (if names_any toolName [''file'', ''patch''] then
        (let path = path_argument rt params in
         [''Exact live contents of file '' @ [CHR 0x27] @ path @ [CHR 0x27] @ '' prior to write'',
          ''Whether target file '' @ [CHR 0x27] @ path @ [CHR 0x27] @ '' is currently tracked or untracked in git''])
      else if names_any toolName [''shell'', ''command''] then
        [''Side-effects of executing command: '' @ [CHR 0x27] @ take 100 (command_argument rt params ''unknown'') @ [CHR 0x27],
         ''Standard error streams or signals that may be returned by the shell'']
      else [])"

definition generatePaths :: "runtime \<Rightarrow> string \<Rightarrow> json \<Rightarrow> string \<times> string \<times> string" where
  "generatePaths rt toolName params =
     (''Direct Execution: Call '' @ toolName @ '' with args: '' @ take 150 (stringify (number_text rt) params),
      ''Pre-check/Probe: Verify system state or read files before calling '' @ toolName,
      ''NO-OP/Abort: Log warning, fallback to cached state, and halt execution path'')"

definition calculateRiskScore :: "runtime \<Rightarrow> string \<Rightarrow> json \<Rightarrow> rat" where
  "calculateRiskScore rt toolName params =
     (if toolName = ''forge_shell'' \<or> toolName = ''run_command'' then
        (let cmd = to_lower (command_argument rt params []) in
         if names_any cmd [''rm -rf'', ''drop'', ''force''] then dbl (95 / 100) else dbl (80 / 100))
      else if toolName = ''write_file'' \<or> toolName = ''apply_patches'' then dbl (70 / 100)
      else if toolName = ''read_file'' \<or> toolName = ''list_files'' \<or> toolName = ''grep_text'' then dbl (15 / 100)
      else dbl (40 / 100))"

definition generateRollback :: "runtime \<Rightarrow> string \<Rightarrow> json \<Rightarrow> string" where
  "generateRollback rt toolName params =
     (if names_any toolName [''read'', ''list'', ''grep'', ''search'']
      then ''No state rollback needed (read-only or metadata action)''
      else if names_any toolName [''file'', ''patch''] then
        (let path = path_argument rt params; q = [CHR 0x22] in
         ''git checkout -- '' @ q @ path @ q @ '' || rm -f '' @ q @ path @ q @ '' (Restore pre-write state)'')
      else if names_any toolName [''shell'', ''command'']
      then ''Check shell status, kill hung subprocesses, and restore database/state backups if mutation occurred''
      else ''No state rollback needed (read-only or metadata action)'')"

definition runSimulationPass :: "string \<Rightarrow> rat \<Rightarrow> bool \<times> string" where
  "runSimulationPass toolName riskScore =
     (riskScore < dbl (90 / 100),
      if names_any toolName [''geox''] then ''earth'' else if names_any toolName [''wealth''] then ''capital''
      else if names_any toolName [''well''] then ''human'' else ''general'')"

text \<open>What the agent declares: a list handed to the runtime and one of three arguments of the call.\<close>

definition array_of :: "json \<Rightarrow> json list option" where
  "array_of v = (case v of JArr xs \<Rightarrow> Some xs | _ \<Rightarrow> None)"

definition array_items :: "json \<Rightarrow> json list" where
  "array_items v = (case array_of v of Some xs \<Rightarrow> xs | None \<Rightarrow> [])"

definition declared :: "string list \<Rightarrow> json \<Rightarrow> string \<Rightarrow> string \<Rightarrow> json list" where
  "declared given params key other =
     js_unique (map JStr given @
       (case array_of (field params key) of
          Some xs \<Rightarrow> xs
        | None \<Rightarrow> (case array_of (field (field params ''qqq'') key) of
            Some xs \<Rightarrow> xs
          | None \<Rightarrow> array_items (field params other))))"

record qqq_record =
  qq_assumptions_declared :: "json list"
  qq_assumptions_inferred :: "string list"
  qq_assumptions :: "json list"
  qq_unknowns_declared :: "json list"
  qq_unknowns_inferred :: "string list"
  qq_unknowns :: "json list"
  qq_options :: "string \<times> string \<times> string"
  qq_risk_score :: rat
  qq_rollback :: string
  qq_simulation :: "bool \<times> string"
  qq_verdict :: string
  qq_floors :: "json list"
  qq_reason :: string

text \<open>The verdict, the floors and the reason, before and after the judge was asked. The flag is the degraded mode.\<close>

definition local_floors :: "rat \<Rightarrow> string list \<Rightarrow> json list" where
  "local_floors riskScore unknowns =
     (if riskScore \<ge> dbl (90 / 100) then [JStr ''F1''] else []) @ (if length unknowns > 5 then [JStr ''F7''] else [])"

definition judge_verdict ::
  "runtime \<Rightarrow> json option \<Rightarrow> rat \<Rightarrow> json list \<Rightarrow> (string \<times> json list \<times> string) \<times> bool" where
  "judge_verdict rt reply riskScore floors =
     (case reply of
        Some r \<Rightarrow>
          ((case field r ''verdict'' of
              JStr v \<Rightarrow>
                (v, floors @ array_items (field r ''floors_triggered''),
                 value_text rt (coalesce (field r ''reason'') (JStr ''arifOS evaluated verdict.'')))
            | _ \<Rightarrow> (''SEAL'', floors, ''QQQ local checks passed.'')), False)
      | None \<Rightarrow>
          (if riskScore \<ge> dbl (90 / 100)
           then (''HOLD'', floors, ''F1 AMANAH: High risk execution requires sovereign verification (arifOS offline fallback).'')
           else (''SEAL'', floors, ''QQQ offline fallback: Local F1-F13 thresholds check passed.''), True))"

definition executeQQQ ::
  "runtime \<Rightarrow> json option \<Rightarrow> bool \<Rightarrow> string \<Rightarrow> json \<Rightarrow> string list \<Rightarrow> string list \<Rightarrow> qqq_record \<times> bool" where
  "executeQQQ rt reply degraded toolName params assumptions unknowns =
     (let as = declared assumptions params ''assumptions_declared'' ''qqq_assumptions'';
          us = declared unknowns params ''unknowns_declared'' ''qqq_unknowns'';
          ai = extractAssumptions toolName; ui = detectUnknowns rt toolName params;
          risk = calculateRiskScore rt toolName params;
          floors = local_floors risk ui;
          ((v, fs, why), d) =
            (if as = [] \<and> us = [] then
               ((''HOLD'', floors @ [JStr ''F7''],
                 ''888_HOLD: no reasoning submitted. Missing: assumptions_declared, unknowns_declared.''), degraded)
             else judge_verdict rt reply risk floors) in
      (\<lparr> qq_assumptions_declared = as, qq_assumptions_inferred = ai, qq_assumptions = js_unique (as @ map JStr ai),
         qq_unknowns_declared = us, qq_unknowns_inferred = ui, qq_unknowns = js_unique (us @ map JStr ui),
         qq_options = generatePaths rt toolName params, qq_risk_score = risk,
         qq_rollback = generateRollback rt toolName params, qq_simulation = runSimulationPass toolName risk,
         qq_verdict = v, qq_floors = js_unique fs, qq_reason = why \<rparr>, d))"

section \<open>Permissions and the registry\<close>

datatype tool_risk = SafeTool | GuardedTool | DangerousTool

record permission_context =
  pc_enabledTools :: "string list"
  pc_dangerousToolsEnabled :: bool
  pc_experimentalToolsEnabled :: bool
  pc_holdEnabled :: bool
  pc_riskLevel :: "risk_level option"
  pc_humanOverride :: bool

record runtime_policy =
  tp_allowedTools :: "string list option"
  tp_blockedTools :: "string list option"

record tool_result =
  to_ok :: bool
  to_output :: string
  to_hold :: bool      \<comment> \<open>metadata.hold\<close>

record 'w tool_def =
  td_name :: string
  td_riskLevel :: tool_risk
  td_experimental :: bool
  td_run :: "json \<Rightarrow> 'w \<Rightarrow> (string + tool_result) \<times> 'w"

definition isPermitted :: "permission_context \<Rightarrow> 'w tool_def \<Rightarrow> bool" where
  "isPermitted pc t \<longleftrightarrow>
     td_name t \<in> set (pc_enabledTools pc) \<and> \<not> (td_experimental t \<and> \<not> pc_experimentalToolsEnabled pc) \<and>
     \<not> (td_riskLevel t = DangerousTool \<and> \<not> pc_dangerousToolsEnabled pc)"

type_synonym 'w registry = "(string, 'w tool_def) jsmap"

definition register_tool :: "'w tool_def \<Rightarrow> 'w registry \<Rightarrow> 'w registry" where
  "register_tool t r = m_set (td_name t) t r"

definition listForModel :: "permission_context \<Rightarrow> 'w registry \<Rightarrow> string list" where
  "listForModel pc r = map td_name (filter (isPermitted pc) (m_values r))"

definition qqq_refused :: "string \<Rightarrow> tool_result" where
  "qqq_refused out = \<lparr> to_ok = False, to_output = out, to_hold = False \<rparr>"

definition quoted :: "string \<Rightarrow> string" where
  "quoted s = [CHR 0x27] @ s @ [CHR 0x27]"

definition forced_hold :: "permission_context \<Rightarrow> bool" where
  "forced_hold pc \<longleftrightarrow> \<not> pc_humanOverride pc \<and> pc_riskLevel pc \<in> {Some RiskHigh, Some RiskCritical}"

definition hold_answer :: "permission_context \<Rightarrow> string \<Rightarrow> tool_result" where
  "hold_answer pc name =
     \<lparr> to_ok = False,
       to_output =
         (if forced_hold pc
          then ''[888_HOLD] Tool '' @ quoted name @ '' blocked by F13 Sovereign: high/critical risk level mandates human approval.''
          else ''[888_HOLD] Tool '' @ quoted name @ '' requires explicit human approval (F13 Sovereign). '' @
               ''Enable AGENT_WORKBENCH_TRUST_LOCAL_VPS=1 for local trusted mode.''),
       to_hold = True \<rparr>"

text \<open>What the registry answers without running the tool; \<^term>\<open>None\<close> when it runs it.\<close>

definition tool_decision ::
  "agent_mode \<Rightarrow> runtime_policy option \<Rightarrow> permission_context \<Rightarrow> string \<Rightarrow> string \<Rightarrow> string \<Rightarrow> 'w tool_def \<Rightarrow>
   (string + tool_result) option" where
  "tool_decision mode policy pc verdict why name t =
     (if verdict = ''VOID'' then Some (Inr (qqq_refused (''VOID: QQQ Runtime blocked execution. Reason: '' @ why)))
      else if verdict = ''HOLD'' then Some (Inr (qqq_refused (''HOLD: QQQ Runtime held execution. Reason: '' @ why)))
      else if \<not> isPermitted pc t then Some (Inl (''Tool is not permitted in this profile or mode: '' @ name))
      else if (case policy of Some p \<Rightarrow> (case tp_blockedTools p of Some b \<Rightarrow> name \<in> set b | None \<Rightarrow> False) | None \<Rightarrow> False)
        then Some (Inl (''Tool '' @ quoted name @ '' is explicitly blocked by runtime ToolPolicyConfig.''))
      else if (case policy of
                 Some p \<Rightarrow> (case tp_allowedTools p of Some a \<Rightarrow> a \<noteq> [] \<and> name \<notin> set a | None \<Rightarrow> False) | None \<Rightarrow> False)
        then Some (Inl (''Tool '' @ quoted name @ '' is not in the allowlist of runtime ToolPolicyConfig.''))
      else if mode \<noteq> InternalMode \<and> td_riskLevel t = DangerousTool
        then Some (Inl (''Critical: Dangerous tool '' @ quoted name @ '' attempted outside internal_mode.''))
      else if td_riskLevel t = DangerousTool \<and> (\<not> pc_holdEnabled pc \<and> \<not> pc_humanOverride pc \<or> forced_hold pc)
        then Some (Inr (hold_answer pc name))
      else None)"

definition runTool ::
  "runtime \<Rightarrow> json option \<Rightarrow> agent_mode \<Rightarrow> runtime_policy option \<Rightarrow> permission_context \<Rightarrow> string list \<Rightarrow> string list \<Rightarrow>
   'w registry \<Rightarrow> string \<Rightarrow> json \<Rightarrow> bool \<times> 'w \<Rightarrow> (string + tool_result) \<times> bool \<times> 'w" where
  "runTool rt reply mode policy pc assumptions unknowns reg toolName params s =
     (case m_get reg toolName of
        None \<Rightarrow> (Inl (''Unknown tool: '' @ toolName), s)
      | Some t \<Rightarrow>
          (let (q, d) = executeQQQ rt reply (fst s) toolName params assumptions unknowns in
           case tool_decision mode policy pc (qq_verdict q) (qq_reason q) toolName t of
             Some r \<Rightarrow> (r, d, snd s)
           | None \<Rightarrow> (let (r, w) = td_run t params (snd s) in (r, d, w))))"

section \<open>When a tool runs\<close>

definition policy_allows :: "runtime_policy option \<Rightarrow> string \<Rightarrow> bool" where
  "policy_allows policy name \<longleftrightarrow>
     (case policy of None \<Rightarrow> True
      | Some p \<Rightarrow> (case tp_blockedTools p of None \<Rightarrow> True | Some b \<Rightarrow> name \<notin> set b) \<and>
          (case tp_allowedTools p of None \<Rightarrow> True | Some a \<Rightarrow> a = [] \<or> name \<in> set a))"

lemma tool_decision_None_iff:
  "tool_decision mode policy pc v why name t = None \<longleftrightarrow>
     v \<noteq> ''VOID'' \<and> v \<noteq> ''HOLD'' \<and> isPermitted pc t \<and> policy_allows policy name \<and>
     (td_riskLevel t = DangerousTool \<longrightarrow>
        mode = InternalMode \<and> (pc_holdEnabled pc \<or> pc_humanOverride pc) \<and> \<not> forced_hold pc)"
  by (auto simp: tool_decision_def Let_def policy_allows_def split: option.splits)

lemma tool_decision_fails: "tool_decision mode policy pc v why name t = Some (Inr r) \<Longrightarrow> \<not> to_ok r"
  by (auto simp: tool_decision_def Let_def qqq_refused_def hold_answer_def split: if_splits)

text \<open>
  A registered tool runs exactly when the verdict of its QQQ record is neither VOID nor HOLD --- any other word
  of the judge counts as consent ---, the tool is enabled for the profile, an experimental one in a mode with
  experimental tools, the runtime policy neither blocks it nor leaves it out of a non-empty list, and a dangerous
  one only in the internal mode with dangerous tools enabled, with the hold lifted or a human override, and at a
  high or critical risk only with the override. Otherwise the world stays as it was and no result is a success.\<close>
theorem tool_runs_iff:
  assumes "m_get reg toolName = Some t"
  shows "let q = fst (executeQQQ rt reply dg toolName params as us);
             r = runTool rt reply mode policy pc as us reg toolName params (dg, w) in
         if qq_verdict q \<notin> {''VOID'', ''HOLD''} \<and> td_name t \<in> set (pc_enabledTools pc) \<and>
            (if td_experimental t then pc_experimentalToolsEnabled pc else True) \<and> policy_allows policy toolName \<and>
            (if td_riskLevel t = DangerousTool
             then mode = InternalMode \<and> pc_dangerousToolsEnabled pc \<and> (pc_holdEnabled pc \<or> pc_humanOverride pc) \<and>
               (if pc_riskLevel pc \<in> {Some RiskHigh, Some RiskCritical} then pc_humanOverride pc else True)
             else True)
         then fst r = fst (td_run t params w) \<and> snd (snd r) = snd (td_run t params w)
         else snd (snd r) = w \<and> (case fst r of Inl e \<Rightarrow> True | Inr x \<Rightarrow> \<not> to_ok x)"
proof -
  obtain q d where q: "executeQQQ rt reply dg toolName params as us = (q, d)" by fastforce
  have iff: "tool_decision mode policy pc (qq_verdict q) (qq_reason q) toolName t = None \<longleftrightarrow>
      qq_verdict q \<notin> {''VOID'', ''HOLD''} \<and> td_name t \<in> set (pc_enabledTools pc) \<and>
            (if td_experimental t then pc_experimentalToolsEnabled pc else True) \<and> policy_allows policy toolName \<and>
            (if td_riskLevel t = DangerousTool
             then mode = InternalMode \<and> pc_dangerousToolsEnabled pc \<and> (pc_holdEnabled pc \<or> pc_humanOverride pc) \<and>
               (if pc_riskLevel pc \<in> {Some RiskHigh, Some RiskCritical} then pc_humanOverride pc else True)
             else True)"
    unfolding tool_decision_None_iff isPermitted_def forced_hold_def by auto
  show ?thesis
  proof (cases "tool_decision mode policy pc (qq_verdict q) (qq_reason q) toolName t")
    case None
    then show ?thesis unfolding Let_def q fst_conv iff [symmetric] by (simp add: q runTool_def assms split_beta)
  next
    case (Some x)
    then have n: "(case x of Inl e \<Rightarrow> True | Inr r \<Rightarrow> \<not> to_ok r)"
      using Some by (cases x) (auto dest: tool_decision_fails)
    show ?thesis unfolding Let_def q fst_conv iff [symmetric] using n Some by (simp add: q runTool_def assms)
  qed
qed

definition counter_tool :: "tool_risk \<Rightarrow> nat tool_def" where
  "counter_tool risk = \<lparr> td_name = ''t'', td_riskLevel = risk, td_experimental = False,
     td_run = (\<lambda>params n. (Inr \<lparr> to_ok = True, to_output = ''done'', to_hold = False \<rparr>, Suc n)) \<rparr>"

definition trusted_context :: permission_context where
  "trusted_context = \<lparr> pc_enabledTools = [''t''], pc_dangerousToolsEnabled = True, pc_experimentalToolsEnabled = True,
     pc_holdEnabled = True, pc_riskLevel = Some RiskMedium, pc_humanOverride = False \<rparr>"

definition sabar_reply :: "json option" where
  "sabar_reply = Some (JObj [(''verdict'', JStr ''SABAR'')])"

lemma sabar_runs:
  "qq_verdict (fst (executeQQQ plain_runtime sabar_reply False ''t'' (JObj []) [''a''] [])) = ''SABAR''"
  by (simp add: executeQQQ_def Let_def declared_def js_unique_def judge_verdict_def sabar_reply_def field_def split_beta)

theorem tool_runs_iff_witness:
  "snd (snd (runTool plain_runtime sabar_reply InternalMode None trusted_context [''a''] []
     [(''t'', counter_tool DangerousTool)] ''t'' (JObj []) (False, 7))) = 8"
  using tool_runs_iff [of "[(''t'', counter_tool DangerousTool)]" "''t''" "counter_tool DangerousTool" plain_runtime
      sabar_reply False "JObj []" "[''a'']" "[]" InternalMode None trusted_context 7]
  by (simp add: Let_def sabar_runs counter_tool_def trusted_context_def policy_allows_def)

text \<open>
  A call that declares no assumptions and no unknowns is held before the judge is asked and whatever the risk:
  no such call ever runs a tool.\<close>
theorem silent_calls_held:
  assumes "declared as params ''assumptions_declared'' ''qqq_assumptions'' = []"
    and "declared us params ''unknowns_declared'' ''qqq_unknowns'' = []"
  shows "snd (snd (runTool rt reply mode policy pc as us reg toolName params (dg, w))) = w \<and>
    (case fst (runTool rt reply mode policy pc as us reg toolName params (dg, w)) of
       Inl e \<Rightarrow> m_get reg toolName = None
     | Inr r \<Rightarrow> \<not> to_ok r \<and> starts_with (to_output r) ''HOLD: QQQ Runtime held execution.'')"
proof -
  have "qq_verdict (fst (executeQQQ rt reply dg toolName params as us)) = ''HOLD''"
    by (simp add: executeQQQ_def Let_def assms)
  then show ?thesis
    by (cases "executeQQQ rt reply dg toolName params as us")
      (auto simp: runTool_def tool_decision_def Let_def qqq_refused_def split: option.split)
qed

theorem silent_calls_held_witness:
  "snd (snd (runTool plain_runtime sabar_reply InternalMode None trusted_context [] []
     [(''t'', counter_tool SafeTool)] ''t'' (JObj []) (False, 7))) = 7"
  using silent_calls_held [of "[]" "JObj []" "[]" plain_runtime sabar_reply InternalMode None trusted_context
      "[(''t'', counter_tool SafeTool)]" "''t''" False 7]
  by (simp add: declared_def js_unique_def field_def array_items_def array_of_def)

end
