(* ===== verification/Engine_Seal.thy ===== *)
theory Engine_Seal
  imports Tool_Runtime Governance_Card
begin

text \<open>
  How a run of the agent engine ends (\<^verbatim>\<open>sealTerminal\<close> and the methods it calls in
  \<^verbatim>\<open>src/src/domain/engine/AgentEngine.ts\<close>; \<^verbatim>\<open>computeInputHash\<close> in
  \<^verbatim>\<open>src/src/infrastructure/vault/VaultClient.ts\<close>): the verdict that is read off the final text, the
  telemetry, the escalation of a refused run to a human and the record that is handed to the vault.

  What the engine does to the world is an \<^verbatim>\<open>effect\<close>, and the world answers it with the message of an
  error or with \<^term>\<open>None\<close>. Identifiers of tickets are an argument; times and the identifier of the
  record are left out.
\<close>

section \<open>A run\<close>

record node_epistemic =
  ne_id :: string
  ne_status :: string
  ne_declared :: "(string list \<times> string list) option"   \<comment> \<open>assumptions and unknowns, when the node is epistemic\<close>

record run_options =
  eo_task :: string
  eo_sessionId :: string
  eo_intentModel :: "intent_model option"
  eo_riskLevel :: "risk_level option"
  eo_ackIrreversible :: bool
  eo_hitvClass :: "rat option"
  eo_approvedTicket :: "string option"
  eo_domain :: "string option"
  eo_testsPassed :: "bool option"
  eo_plan :: "plan_dag option"
  eo_nodes :: "node_epistemic list"      \<comment> \<open>what the engine reads of the nodes of the plan\<close>

definition run_risk :: "run_options \<Rightarrow> risk_level" where
  "run_risk ops = (case eo_riskLevel ops of Some r \<Rightarrow> r | None \<Rightarrow> RiskMedium)"

definition run_intent :: "run_options \<Rightarrow> intent_model" where
  "run_intent ops = (case eo_intentModel ops of Some m \<Rightarrow> m | None \<Rightarrow> Advisory)"

definition risky :: "risk_level \<Rightarrow> bool" where
  "risky r \<longleftrightarrow> r = RiskHigh \<or> r = RiskCritical"

section \<open>Verdict and telemetry\<close>

datatype seal_verdict = SealV | HoldV | SabarV | VoidV

definition inferVerdict :: "string \<Rightarrow> seal_verdict" where
  "inferVerdict t =
     (if starts_with t ''VOID'' then VoidV else if starts_with t ''SABAR'' then SabarV
      else if starts_with t ''HOLD'' then HoldV else if starts_with t ''Run failed'' then HoldV else SealV)"

record telemetry =
  te_dS :: rat
  te_peace2 :: rat
  te_psi_le :: rat
  te_W3 :: rat
  te_G :: rat

definition computeTelemetry :: "string \<Rightarrow> string list \<Rightarrow> intent_model option \<Rightarrow> risk_level option \<Rightarrow> telemetry" where
  "computeTelemetry t floors im risk =
     (let blocked = floors \<noteq> []; failed = starts_with t ''Run failed'';
          strict = (risk = Some RiskHigh \<or> risk = Some RiskCritical \<or> im = Some Execution) in
      \<lparr> te_dS = (if blocked then (if strict then dbl (3 / 10) else dbl (2 / 10)) else (if strict then dbl (- 15 / 100) else dbl (- 1 / 10))),
        te_peace2 = (if blocked then (if failed then dbl (8 / 10) else dbl (9 / 10)) else 1),
        te_psi_le =
          (if blocked
           then (if failed then (if strict then dbl (75 / 100) else dbl (85 / 100)) else (if strict then dbl (9 / 10) else dbl (95 / 100)))
           else (if strict then dbl (102 / 100) else dbl (105 / 100))),
        te_W3 = (if blocked then (if failed then 0 else dbl (8 / 10)) else dbl (95 / 100)),
        te_G = (if blocked then (if failed then dbl (6 / 10) else dbl (75 / 100)) else dbl (85 / 100)) \<rparr>)"

definition isIrreversible :: "permission_context \<Rightarrow> string list \<Rightarrow> nat \<Rightarrow> nat \<Rightarrow> bool" where
  "isIrreversible pc floors turnCount nblocked \<longleftrightarrow>
     (pc_dangerousToolsEnabled pc \<and> turnCount > 0) \<or> nblocked > 0 \<or> ''F1'' \<in> set floors"

definition computeInputHash :: "runtime \<Rightarrow> string \<Rightarrow> string \<Rightarrow> string \<Rightarrow> nat \<Rightarrow> string" where
  "computeInputHash rt task t sessionId turnCount =
     sha256 rt (stringify (number_text rt) (JObj
       [(''task'', JStr task), (''finalText'', JStr t), (''sessionId'', JStr sessionId), (''turnCount'', JNum (of_nat turnCount))]))"

section \<open>Effects\<close>

record approval_ticket =
  at_ticketId :: string
  at_gate :: string
  at_riskLevel :: risk_level
  at_planSummary :: string
  at_floors :: "string list"
  at_telemetry :: telemetry

record seal_record =
  sr_sessionId :: string
  sr_verdict :: seal_verdict
  sr_hash :: string
  sr_telemetry :: telemetry
  sr_floors :: "string list"
  sr_irreversible :: bool
  sr_task :: string
  sr_finalText :: string
  sr_turnCount :: nat
  sr_profileName :: string
  sr_ticket :: "string option"      \<comment> \<open>the ticket of an escalation\<close>

record tool_log =
  tl_toolName :: string
  tl_params :: json
  tl_result :: string
  tl_verdict :: string
  tl_floors :: "string list"

datatype effect =
    CreateTicket approval_ticket
  | UpdateTicket string string
  | Escalate approval_ticket
  | SealRecord seal_record
  | LogToolCall tool_log
  | StoreMemory string "string list"
  | EvaluatePlan "(string \<times> rat \<times> rat) list" int int
  | StoreSession string "string list"
  | RecordExecution bool "string list"
  | CoolingLedger string
  | ReportRun string

type_synonym 'w port = "effect \<Rightarrow> 'w \<Rightarrow> string option \<times> 'w"

fun perform_all :: "'w port \<Rightarrow> effect list \<Rightarrow> 'w \<Rightarrow> string option \<times> 'w" where
  "perform_all p [] w = (None, w)"
| "perform_all p (e # es) w =
     (case p e w of (Some err, w) \<Rightarrow> (Some err, w) | (None, w) \<Rightarrow> perform_all p es w)"

section \<open>Sealing\<close>

record seal_setup =
  ss_runtime :: runtime
  ss_vault :: bool           \<comment> \<open>a vault client is configured\<close>
  ss_escalation :: bool      \<comment> \<open>an escalation client is configured\<close>
  ss_ticketId :: string
  ss_profileName :: string

definition shouldEscalate :: "seal_setup \<Rightarrow> run_options \<Rightarrow> string \<Rightarrow> bool" where
  "shouldEscalate su ops t \<longleftrightarrow>
     ss_escalation su \<and> risky (run_risk ops) \<and> (starts_with t ''HOLD'' \<or> starts_with t ''SABAR'' \<or> starts_with t ''VOID'')"

definition escalation_ticket :: "seal_setup \<Rightarrow> run_options \<Rightarrow> string \<Rightarrow> string list \<Rightarrow> approval_ticket" where
  "escalation_ticket su ops t floors =
     \<lparr> at_ticketId = ss_ticketId su, at_gate = ''ESCALATION'', at_riskLevel = run_risk ops, at_planSummary = take 500 t,
       at_floors = floors, at_telemetry = computeTelemetry t floors (eo_intentModel ops) (eo_riskLevel ops) \<rparr>"

definition escalated_text :: "seal_setup \<Rightarrow> string \<Rightarrow> string" where
  "escalated_text su t =
     t @ [CHR 0x0A] @ ''[ESCALATION: Dispatched to human expert (ticket '' @ ss_ticketId su @
     ''). Constitution gate active at arifOS:8088.]''"

text \<open>The ticket, when the run is escalated; the message of an error that is thrown.\<close>

definition maybeEscalate ::
  "seal_setup \<Rightarrow> 'w port \<Rightarrow> run_options \<Rightarrow> string \<Rightarrow> string list \<Rightarrow> 'w \<Rightarrow> (string + string option \<times> string) \<times> 'w" where
  "maybeEscalate su p ops t floors w =
     (if \<not> shouldEscalate su ops t then (Inr (None, t), w)
      else
        (let ticket = escalation_ticket su ops t floors in
         case perform_all p [CreateTicket ticket, Escalate ticket, UpdateTicket (ss_ticketId su) ''DISPATCHED''] w of
           (Some err, w) \<Rightarrow> (Inl err, w)
         | (None, w) \<Rightarrow> (Inr (Some (ss_ticketId su), escalated_text su t), w)))"

definition no_vault :: string where
  "no_vault = ''VAULT999: vaultClient not configured - append-only guarantee cannot be met. Halting.''"

definition hold_text :: "string \<Rightarrow> string" where
  "hold_text err = ''HOLD: VAULT999 seal failed ('' @ err @ ''). Execution record could not be persisted.''"

text \<open>The final text and the error of the vault.\<close>

definition sealTerminal ::
  "seal_setup \<Rightarrow> 'w port \<Rightarrow> run_options \<Rightarrow> string \<Rightarrow> nat \<Rightarrow> string list \<Rightarrow> permission_context \<Rightarrow> nat \<Rightarrow> 'w \<Rightarrow>
   (string + string \<times> string option) \<times> 'w" where
  "sealTerminal su p ops t turnCount floors pc nblocked w =
     (if \<not> ss_vault su then (Inl no_vault, w)
      else
        (let v = inferVerdict t; irr = isIrreversible pc floors turnCount nblocked in
         case maybeEscalate su p ops t floors w of
           (Inl err, w) \<Rightarrow> (Inl err, w)
         | (Inr (ticket, sealedText), w) \<Rightarrow>
             (let rec =
                \<lparr> sr_sessionId = eo_sessionId ops, sr_verdict = v,
                  sr_hash = computeInputHash (ss_runtime su) (eo_task ops) t (eo_sessionId ops) turnCount,
                  sr_telemetry = computeTelemetry t floors (eo_intentModel ops) (eo_riskLevel ops), sr_floors = floors,
                  sr_irreversible = irr, sr_task = eo_task ops, sr_finalText = sealedText, sr_turnCount = turnCount,
                  sr_profileName = ss_profileName su, sr_ticket = ticket \<rparr> in
              case p (SealRecord rec) w of
                (None, w) \<Rightarrow> (Inr (sealedText, None), w)
              | (Some err, w) \<Rightarrow>
                  if (irr \<or> turnCount > 0) \<and> v = SealV
                  then (Inr (hold_text err, Some err),
                        snd (p (SealRecord (rec\<lparr>sr_verdict := HoldV, sr_finalText := hold_text err\<rparr>)) w))
                  else (Inr (sealedText, Some err), w))))"

section \<open>No seal without a record\<close>

lemma starts_with_append: "starts_with t u \<Longrightarrow> starts_with (t @ v) u"
  by (auto simp: starts_with_iff)

lemma hold_text_held: "inferVerdict (hold_text err) = HoldV"
  by (simp add: inferVerdict_def hold_text_def)

lemma escalated_not_sealed: "shouldEscalate su ops t \<Longrightarrow> inferVerdict (escalated_text su t) \<noteq> SealV"
  by (auto simp: shouldEscalate_def escalated_text_def inferVerdict_def intro: starts_with_append)

lemma escalation_cases:
  assumes "maybeEscalate su p ops t floors w = (Inr (ticket, t'), w')"
  obtains "t' = t" | "shouldEscalate su ops t" "t' = escalated_text su t"
  using assms by (auto simp: maybeEscalate_def Let_def split: if_splits prod.splits option.splits)

text \<open>What the engine seals at the end of a run: a text that reads as a seal has a record.\<close>

lemma terminal_seal_recorded:
  assumes "sealTerminal su p ops t turnCount floors pc nblocked w = (Inr (t', e), w')"
    and "turnCount > 0" "inferVerdict t' = SealV"
  shows "e = None \<and> t' = t \<and> (\<exists>rec w0. p (SealRecord rec) w0 = (None, w') \<and> sr_verdict rec = SealV \<and> sr_finalText rec = t' \<and>
    sr_sessionId rec = eo_sessionId ops \<and>
    sr_hash rec = computeInputHash (ss_runtime su) (eo_task ops) t' (eo_sessionId ops) turnCount)"
proof -
  obtain x w1 where esc: "maybeEscalate su p ops t floors w = (x, w1)" by fastforce
  have v: "ss_vault su"
  proof (rule ccontr)
    assume "\<not> ss_vault su"
    then show False using assms(1) by (simp add: sealTerminal_def)
  qed
  obtain ticket u where x: "x = Inr (ticket, u)"
    using assms(1) v esc by (cases x) (auto simp: sealTerminal_def Let_def)
  define rec where "rec = \<lparr> sr_sessionId = eo_sessionId ops, sr_verdict = inferVerdict t,
    sr_hash = computeInputHash (ss_runtime su) (eo_task ops) t (eo_sessionId ops) turnCount,
    sr_telemetry = computeTelemetry t floors (eo_intentModel ops) (eo_riskLevel ops), sr_floors = floors,
    sr_irreversible = isIrreversible pc floors turnCount nblocked, sr_task = eo_task ops, sr_finalText = u,
    sr_turnCount = turnCount, sr_profileName = ss_profileName su, sr_ticket = ticket \<rparr>"
  obtain r w2 where r: "p (SealRecord rec) w1 = (r, w2)" by fastforce
  have run: "sealTerminal su p ops t turnCount floors pc nblocked w =
      (case r of None \<Rightarrow> (Inr (u, None), w2)
       | Some err \<Rightarrow> if inferVerdict t = SealV
           then (Inr (hold_text err, Some err),
             snd (p (SealRecord (rec\<lparr>sr_verdict := HoldV, sr_finalText := hold_text err\<rparr>)) w2))
           else (Inr (u, Some err), w2))"
    using v esc x r assms(2) unfolding sealTerminal_def rec_def by (simp add: Let_def split: option.split)
  have "t' \<noteq> hold_text err" for err using assms(3) hold_text_held by auto
  then have u: "t' = u" "e = r" "inferVerdict t \<noteq> SealV \<or> r = None" "r = None \<longrightarrow> w2 = w'"
    using assms(1) run by (auto split: option.splits if_splits)
  have same: "u = t" using esc x assms(3) u(1) by (auto elim: escalation_cases dest: escalated_not_sealed)
  then have "r = None" using u assms(3) by auto
  then show ?thesis using r u assms(3) same by (auto simp: rec_def)
qed

lemma unescalated_seal:
  assumes "sealTerminal su p ops t turnCount floors pc nblocked w = (Inr (t', None), w')" "inferVerdict t = SealV"
  shows "t' = t"
proof -
  obtain x w1 where esc: "maybeEscalate su p ops t floors w = (x, w1)" by fastforce
  have quiet: "\<not> shouldEscalate su ops t"
  proof
    assume "shouldEscalate su ops t"
    then show False using assms(2) by (auto simp: shouldEscalate_def inferVerdict_def split: if_splits)
  qed
  then have "maybeEscalate su p ops t floors w = (Inr (None, t), w)" by (simp add: maybeEscalate_def)
  then show ?thesis using assms(1) by (auto simp: sealTerminal_def Let_def split: if_splits prod.splits option.splits)
qed

definition log_port :: "effect list port" where
  "log_port e w = (None, w @ [e])"

definition plain_options :: run_options where
  "plain_options = \<lparr> eo_task = ''list the files'', eo_sessionId = ''s'', eo_intentModel = None, eo_riskLevel = None,
     eo_ackIrreversible = False, eo_hitvClass = None, eo_approvedTicket = None, eo_domain = None, eo_testsPassed = None,
     eo_plan = None, eo_nodes = [] \<rparr>"

definition plain_setup :: seal_setup where
  "plain_setup = \<lparr> ss_runtime = plain_runtime, ss_vault = True, ss_escalation = True, ss_ticketId = ''t1'',
     ss_profileName = ''build'' \<rparr>"

definition no_context :: permission_context where
  "no_context = \<lparr> pc_enabledTools = [], pc_dangerousToolsEnabled = False, pc_experimentalToolsEnabled = False,
     pc_holdEnabled = False, pc_riskLevel = None, pc_humanOverride = False \<rparr>"

end
