(* ===== verification/Short_Memory.thy ===== *)
theory Short_Memory
  imports Memory_Gate
begin

text \<open>
  The bounded window of messages of a run (\<^verbatim>\<open>src/src/application/memory/ShortTermMemory.ts\<close>):
  appending, pinning and the eviction that archives and summarises what leaves the window. The
  archive is the list of the messages handed to the file; the writes themselves, and whether they succeed,
  are left out. \<open>stamp\<close> is the time in the tag of a summary. The audit of an append or a pin asks
  the memory gate after the message is in, and its answer changes nothing here.
\<close>

section \<open>Messages\<close>

datatype message_role = SystemRole | UserRole | AssistantRole | ToolRole

record message =
  mg_role :: message_role
  mg_content :: string
  mg_toolCallId :: "string option"
  mg_toolName :: "string option"

record short_memory =
  sm_transcript :: "message list"
  sm_pinned :: "message list"
  sm_maxMessages :: int
  sm_maxTokens :: int
  sm_archive :: "message list"
  sm_summaries :: "string list"

definition new_short_memory :: "int option \<Rightarrow> int option \<Rightarrow> short_memory" where
  "new_short_memory maxMessages maxTokens =
     \<lparr> sm_transcript = [], sm_pinned = [],
       sm_maxMessages = (case maxMessages of Some n \<Rightarrow> n | None \<Rightarrow> 20),
       sm_maxTokens = (case maxTokens of Some n \<Rightarrow> n | None \<Rightarrow> 16384),
       sm_archive = [], sm_summaries = [] \<rparr>"

definition getMessages :: "short_memory \<Rightarrow> message list" where
  "getMessages s = sm_pinned s @ sm_transcript s"

text \<open>\<^verbatim>\<open>Math.ceil(content.length / 4)\<close>\<close>

definition message_tokens :: "message \<Rightarrow> int" where
  "message_tokens m = (int (length (mg_content m)) + 3) div 4"

definition estimateTokens :: "message list \<Rightarrow> int" where
  "estimateTokens ms = sum_list (map message_tokens ms)"

definition isFull :: "short_memory \<Rightarrow> bool" where
  "isFull s \<longleftrightarrow>
     int (length (sm_transcript s)) \<ge> sm_maxMessages s \<or> estimateTokens (getMessages s) \<ge> sm_maxTokens s"

section \<open>The summary\<close>

fun split_at_chars :: "(char \<Rightarrow> bool) \<Rightarrow> string \<Rightarrow> string \<Rightarrow> string list" where
  "split_at_chars P acc [] = [rev acc]"
| "split_at_chars P acc (c # cs) = (if P c then rev acc # split_at_chars P [] cs else split_at_chars P (c # acc) cs)"

definition significant_words :: rx where
  "significant_words =
     rx_seq [RWordB, rx_words [''tool'', ''call'', ''decide'', ''select'', ''result'', ''conclusion'', ''plan'', ''will'',
       ''need'', ''using'', ''invoke'', ''void'', ''seal'', ''hold'', ''sabar'', ''budget'', ''risk'', ''breach'', ''token'',
       ''cost'', ''ceiling'', ''threshold'', ''degrade'', ''refuse'', ''governance'', ''advisory'', ''constraint'', ''limit''], RWordB]"

definition line_feed :: string where
  "line_feed = [CHR 0x0A]"

definition last_chars :: "nat \<Rightarrow> string \<Rightarrow> string" where
  "last_chars n s = drop (length s - n) s"

definition extract_key :: "message \<Rightarrow> string option" where
  "extract_key m =
     (let t = trim (mg_content m) in
      if t = [] then None
      else
        (case mg_role m of
           ToolRole \<Rightarrow>
             (if falsy (mg_toolName m) then None
              else Some (''['' @ the (mg_toolName m) @ '']: '' @ take 200 (hd (split_at_chars (\<lambda>c. c \<in> set line_feed) [] t))))
         | AssistantRole \<Rightarrow>
             (let sig = take 2 (filter (\<lambda>s. length s > 10 \<and> rx_test_i significant_words s)
                  (map trim (split_at_chars (\<lambda>c. c \<in> set ''.!?'') [] t))) in
              if sig = [] then None else Some (join_with ''. '' sig))
         | UserRole \<Rightarrow>
             Some (''[User]: '' @ (if length t > 500 then take 300 t @ ''...'' @ last_chars 150 t else t))
         | SystemRole \<Rightarrow> if length t < 300 then Some (''[Policy]: '' @ take 200 t) else None))"

definition summarize :: "string \<Rightarrow> message list \<Rightarrow> string" where
  "summarize stamp ms =
     (let body = join_with '' | '' (List.map_filter extract_key ms) in
      ''[evicted: '' @ stamp @ ''] '' @ (if body = [] then ''[Context summary unavailable]'' else body))"

section \<open>The window\<close>

text \<open>The messages that leave the window and those that stay.\<close>

fun evict_window :: "int \<Rightarrow> int \<Rightarrow> message list \<Rightarrow> message list \<Rightarrow> message list \<times> message list" where
  "evict_window mx mt pinned [] = ([], [])"
| "evict_window mx mt pinned (m # ms) =
     (if int (length (m # ms)) > mx \<or> estimateTokens (pinned @ m # ms) > mt
      then (let (gone, kept) = evict_window mx mt pinned ms in (m # gone, kept))
      else ([], m # ms))"

definition enforceLimits :: "string \<Rightarrow> short_memory \<Rightarrow> short_memory" where
  "enforceLimits stamp s =
     (let (gone, kept) = evict_window (sm_maxMessages s) (sm_maxTokens s) (sm_pinned s) (sm_transcript s) in
      if gone = [] then s
      else s\<lparr> sm_transcript := kept, sm_archive := sm_archive s @ gone, sm_summaries := sm_summaries s @ [summarize stamp gone] \<rparr>)"

definition append_message :: "string \<Rightarrow> message \<Rightarrow> short_memory \<Rightarrow> short_memory" where
  "append_message stamp m s = enforceLimits stamp (s\<lparr>sm_transcript := sm_transcript s @ [m]\<rparr>)"

definition appendMany :: "string \<Rightarrow> message list \<Rightarrow> short_memory \<Rightarrow> short_memory" where
  "appendMany stamp ms s = fold (append_message stamp) ms s"

definition pin_message :: "message \<Rightarrow> short_memory \<Rightarrow> short_memory" where
  "pin_message m s = s\<lparr>sm_pinned := sm_pinned s @ [m]\<rparr>"

text \<open>The question the audit of a message asks the gate.\<close>

definition audit_params :: "memory_action \<Rightarrow> string \<Rightarrow> string \<Rightarrow> message \<Rightarrow> string \<Rightarrow> string \<Rightarrow> gate_params" where
  "audit_params a actorId sessionId m tool label =
     \<lparr> gp_action = a, gp_actorId = actorId, gp_sessionId = sessionId, gp_memoryId = None, gp_content = Some (mg_content m),
       gp_toolName = Some tool, gp_description = Some label \<rparr>"

definition clear_memory ::
  "gate_world \<Rightarrow> string \<Rightarrow> string \<Rightarrow> short_memory \<Rightarrow> gate_state \<Rightarrow> bool option \<times> short_memory \<times> gate_state" where
  "clear_memory w actorId sessionId s g =
     (let (answer, g') = gate_call w
          \<lparr> gp_action = MDelete, gp_actorId = actorId, gp_sessionId = sessionId, gp_memoryId = None, gp_content = None,
            gp_toolName = Some ''ShortTermMemory.clear'', gp_description = Some ''Clear all STM messages'' \<rparr> g in
      case answer of
        None \<Rightarrow> (None, s, g')
      | Some r \<Rightarrow> if \<not> lk_allowed r then (Some False, s, g')
          else (Some True, s\<lparr>sm_transcript := [], sm_pinned := []\<rparr>, g'))"

section \<open>The window stays within its limits and loses nothing\<close>

lemma evict_append: "evict_window mx mt p ms = (gone, kept) \<Longrightarrow> gone @ kept = ms"
  by (induction mx mt p ms arbitrary: gone kept rule: evict_window.induct)
    (auto split: if_splits prod.splits)

lemma evict_within:
  "evict_window mx mt p ms = (gone, kept) \<Longrightarrow>
    kept = [] \<or> int (length kept) \<le> mx \<and> estimateTokens (p @ kept) \<le> mt"
  by (induction mx mt p ms arbitrary: gone kept rule: evict_window.induct)
    (auto split: if_splits prod.splits)

lemma evict_needed:
  "evict_window mx mt p ms = (gone, kept) \<Longrightarrow> gone \<noteq> [] \<Longrightarrow>
    int (length (last gone # kept)) > mx \<or> estimateTokens (p @ last gone # kept) > mt"
proof (induction mx mt p ms arbitrary: gone kept rule: evict_window.induct)
  case (2 mx mt p m ms)
  obtain g k where e: "evict_window mx mt p ms = (g, k)" by fastforce
  show ?case
  proof (cases "g = []")
    case True
    then show ?thesis using 2 e evict_append [OF e] by (auto split: if_splits)
  next
    case False
    then show ?thesis using 2 e by (auto split: if_splits)
  qed
qed simp

text \<open>One operation on the window; \<open>all\<close> is every message appended so far.\<close>

inductive window_step :: "message list \<times> short_memory \<Rightarrow> message list \<times> short_memory \<Rightarrow> bool" where
  append: "window_step (ms, s) (ms @ [m], append_message stamp m s)"
| pin: "window_step (ms, s) (ms, pin_message m s)"
| clear: "window_step (ms, s) (ms, fst (snd (clear_memory w a i s g)))"

definition window_ok :: "message list \<times> short_memory \<Rightarrow> bool" where
  "window_ok ms_s \<longleftrightarrow> sm_archive (snd ms_s) @ sm_transcript (snd ms_s) = fst ms_s"

lemma clear_refused:
  "fst (snd (clear_memory w a i s g)) = s \<and> fst (clear_memory w a i s g) \<noteq> Some True"
proof -
  let ?p = "\<lparr> gp_action = MDelete, gp_actorId = a, gp_sessionId = i, gp_memoryId = None, gp_content = None,
     gp_toolName = Some ''ShortTermMemory.clear'', gp_description = Some ''Clear all STM messages'' \<rparr>"
  obtain answer g' where c: "gate_call w ?p g = (answer, g')" by fastforce
  have "\<not> lk_allowed r" if "answer = Some r" for r
    using gate_call_blocks [of ?p w g r] c that by simp
  then show ?thesis by (cases answer) (simp_all add: clear_memory_def c)
qed

lemma append_facts:
  "\<exists>gone kept. evict_window (sm_maxMessages s) (sm_maxTokens s) (sm_pinned s) (sm_transcript s @ [m]) = (gone, kept) \<and>
    gone @ kept = sm_transcript s @ [m] \<and> sm_transcript (append_message stamp m s) = kept \<and>
    sm_archive (append_message stamp m s) = sm_archive s @ gone \<and> sm_pinned (append_message stamp m s) = sm_pinned s \<and>
    sm_maxMessages (append_message stamp m s) = sm_maxMessages s \<and> sm_maxTokens (append_message stamp m s) = sm_maxTokens s"
proof -
  obtain gone kept where e:
    "evict_window (sm_maxMessages s) (sm_maxTokens s) (sm_pinned s) (sm_transcript s @ [m]) = (gone, kept)"
    by fastforce
  note a = evict_append [OF e]
  show ?thesis using e a by (cases "gone = []") (simp_all add: append_message_def enforceLimits_def)
qed

lemma window_step_ok: "window_step a b \<Longrightarrow> window_ok a \<Longrightarrow> window_ok b"
proof (induction rule: window_step.induct)
  case (append ms s m stamp)
  then show ?case using append_facts [of s m stamp] by (auto simp: window_ok_def)
qed (simp_all add: window_ok_def pin_message_def clear_refused)

interpretation window: kept_invariant window_step window_ok
  by unfold_locales (rule window_step_ok)

text \<open>
  Whatever is appended, pinned or asked to be cleared, no message is lost or reordered: the archive followed by the
  window is the list of all messages appended. Right after an append the window is empty or within both limits,
  the pinned messages counted, and no more was evicted than needed. The window is never cleared: the memory gate
  refuses every deletion.\<close>
theorem window_keeps_messages:
  assumes "window_step\<^sup>*\<^sup>* ([], new_short_memory mm mt) (ms, s)"
  shows "sm_archive s @ sm_transcript s = ms \<and>
    (let s' = append_message stamp m s in
       (sm_transcript s' = [] \<or>
          int (length (sm_transcript s')) \<le> sm_maxMessages s \<and> estimateTokens (getMessages s') \<le> sm_maxTokens s) \<and>
       sm_archive s' @ sm_transcript s' = ms @ [m] \<and> sm_pinned s' = sm_pinned s) \<and>
    fst (snd (clear_memory w a i s g)) = s \<and> fst (clear_memory w a i s g) \<noteq> Some True"
proof -
  have ok: "sm_archive s @ sm_transcript s = ms"
    using window.run_inv [OF assms] by (simp add: window_ok_def new_short_memory_def)
  obtain gone kept where e:
    "evict_window (sm_maxMessages s) (sm_maxTokens s) (sm_pinned s) (sm_transcript s @ [m]) = (gone, kept)"
    "gone @ kept = sm_transcript s @ [m]" "sm_transcript (append_message stamp m s) = kept"
    "sm_archive (append_message stamp m s) = sm_archive s @ gone" "sm_pinned (append_message stamp m s) = sm_pinned s"
    using append_facts [of s m stamp] by blast
  have "sm_archive (append_message stamp m s) @ sm_transcript (append_message stamp m s) = ms @ [m]"
    using e ok by (metis append_assoc)
  then show ?thesis
    using ok e evict_within [OF e(1)] clear_refused [of w a i s g] by (simp add: getMessages_def Let_def)
qed

definition sample_message :: "string \<Rightarrow> message" where
  "sample_message t = \<lparr> mg_role = UserRole, mg_content = t, mg_toolCallId = None, mg_toolName = None \<rparr>"

definition sample_window :: short_memory where
  "sample_window = append_message ''now'' (sample_message ''b'')
     (append_message ''now'' (sample_message ''a'') (new_short_memory (Some 1) None))"

theorem window_keeps_messages_witness:
  "sm_transcript sample_window = [sample_message ''b''] \<and>
   sm_archive sample_window @ sm_transcript sample_window = [sample_message ''a'', sample_message ''b'']"
proof
  show "sm_transcript sample_window = [sample_message ''b'']" by code_simp
  have "window_step\<^sup>*\<^sup>* ([], new_short_memory (Some 1) None) ([] @ [sample_message ''a''] @ [sample_message ''b''], sample_window)"
    unfolding sample_window_def append_assoc [symmetric]
    by (rule converse_rtranclp_into_rtranclp, rule window_step.append, rule r_into_rtranclp, rule window_step.append)
  from window_keeps_messages [OF this] show
    "sm_archive sample_window @ sm_transcript sample_window = [sample_message ''a'', sample_message ''b'']" by simp
qed

end
