(* ===== verification/Engine_Calls.thy ===== *)
theory Engine_Calls
  imports Engine_Seal Short_Memory
begin

text \<open>
  The tool calls of one answer of the model (\<^verbatim>\<open>executeToolCalls\<close> in
  \<^verbatim>\<open>src/src/domain/engine/AgentEngine.ts\<close>): the harm, risk and cost checks before the registry is asked,
  the privacy and grounding checks on what it answered, the counters, the log and the coherence check at the end.

  The world \<open>'w\<close> is what tools, the judge and the effects of the engine act on. The judge's decision on a floor is an
  argument (\<open>Inl\<close> when the call throws), and so is what the judge of the QQQ record answers. A tool that does not
  return in time is one whose outcome is the error of the timer. The text a floor gives as its reason is an argument.
\<close>

section \<open>The environment and the state\<close>

record tool_call =
  cl_id :: string
  cl_toolName :: string
  cl_params :: json

record 'w engine_env =
  ee_runtime :: runtime
  ee_mode :: agent_mode
  ee_policy :: "runtime_policy option"
  ee_registry :: "'w registry"
  ee_apex :: "string \<Rightarrow> 'w \<Rightarrow> (string + string option) \<times> 'w"
  ee_qqq :: "string \<Rightarrow> json \<Rightarrow> 'w \<Rightarrow> json option"
  ee_port :: "'w port"
  ee_logsTools :: bool       \<comment> \<open>the vault client has \<^verbatim>\<open>logToolCall\<close>\<close>
  ee_stamp :: string
  ee_say :: "string \<Rightarrow> string"

record 'w call_state =
  cs_world :: 'w
  cs_degraded :: bool
  cs_memory :: short_memory
  cs_floors :: "string list"
  cs_risk :: "rat option"
  cs_results :: "(bool \<times> string) list"
  cs_texts :: "string list"
  cs_messages :: "message list"
  cs_first :: bool
  cs_blocked :: nat
  cs_blockedCommands :: nat
  cs_timeouts :: nat
  cs_restricted :: nat

definition tool_message :: "tool_call \<Rightarrow> string \<Rightarrow> message" where
  "tool_message c t =
     \<lparr> mg_role = ToolRole, mg_content = t, mg_toolCallId = Some (cl_id c), mg_toolName = Some (cl_toolName c) \<rparr>"

definition push_message :: "'w engine_env \<Rightarrow> message \<Rightarrow> 'w call_state \<Rightarrow> 'w call_state" where
  "push_message env m s =
     s\<lparr> cs_memory := append_message (ee_stamp env) m (cs_memory s), cs_messages := cs_messages s @ [m], cs_first := False \<rparr>"

text \<open>A call that a floor refuses: its message goes to the model, and nothing is logged.\<close>

definition refuse_call :: "'w engine_env \<Rightarrow> tool_call \<Rightarrow> string \<Rightarrow> string \<Rightarrow> 'w call_state \<Rightarrow> 'w call_state" where
  "refuse_call env c floor_id t s =
     push_message env (tool_message c t) (s\<lparr> cs_floors := cs_floors s @ [floor_id], cs_blocked := cs_blocked s + 1 \<rparr>)"

section \<open>The answer of a call\<close>

definition result_held :: "tool_result \<Rightarrow> bool" where
  "result_held r \<longleftrightarrow> to_hold r \<or> starts_with (to_output r) ''[888_HOLD]''"

definition log_verdict :: "tool_result option \<Rightarrow> string list \<Rightarrow> string" where
  "log_verdict r floors =
     (let v = (case r of
          None \<Rightarrow> ''HOLD''
        | Some r \<Rightarrow> if to_ok r then ''PASS'' else if result_held r then ''HOLD''
            else if starts_with (to_output r) ''VOID'' then ''VOID'' else ''HOLD'') in
      if ''VOID'' \<in> set floors then ''VOID'' else if ''HOLD'' \<in> set floors then ''HOLD'' else v)"

definition log_call :: "'w engine_env \<Rightarrow> tool_call \<Rightarrow> string \<Rightarrow> string \<Rightarrow> string list \<Rightarrow> 'w \<Rightarrow> 'w" where
  "log_call env c t v floors w =
     (if ee_logsTools env then
        snd (ee_port env (LogToolCall \<lparr> tl_toolName = cl_toolName c, tl_params = cl_params c, tl_result = t, tl_verdict = v,
          tl_floors = floors \<rparr>) w)
      else w)"

definition answer_call ::
  "'w engine_env \<Rightarrow> tool_call \<Rightarrow> nat \<Rightarrow> tool_result option \<Rightarrow> string \<Rightarrow> 'w call_state \<Rightarrow> 'w call_state" where
  "answer_call env c floors_before r t s =
     (let floors = drop floors_before (cs_floors s) in
      push_message env (tool_message c t)
        (s\<lparr> cs_world := log_call env c t (log_verdict r floors) floors (cs_world s), cs_texts := cs_texts s @ [t] \<rparr>))"

definition blocked_patterns :: "string list" where
  "blocked_patterns = [''not permitted'', ''blocked by policy'', ''escapes the working directory sandbox'']"

definition isBlockedActionMessage :: "string \<Rightarrow> bool" where
  "isBlockedActionMessage m \<longleftrightarrow> list_ex (str_includes (to_lower m)) blocked_patterns"

definition timed_out_message :: "string \<Rightarrow> bool" where
  "timed_out_message m \<longleftrightarrow> list_ex (str_includes (to_lower m)) [''time out'', ''timed out'', ''timeout'']"

definition failed_call ::
  "'w engine_env \<Rightarrow> tool_call \<Rightarrow> nat \<Rightarrow> tool_result option \<Rightarrow> string \<Rightarrow> 'w call_state \<Rightarrow> 'w call_state" where
  "failed_call env c floors_before r m s =
     answer_call env c floors_before r (''Tool error: '' @ m)
       (s\<lparr> cs_blocked := cs_blocked s + (if isBlockedActionMessage m then 1 else 0),
           cs_blockedCommands := cs_blockedCommands s + (if str_includes (to_lower m) ''blocked by policy'' then 1 else 0),
           cs_timeouts := cs_timeouts s + (if timed_out_message m then 1 else 0),
           cs_restricted := cs_restricted s +
             (if str_includes (to_lower m) ''escapes the working directory sandbox'' then 1 else 0) \<rparr>)"

definition already_blocked :: "tool_result \<Rightarrow> bool" where
  "already_blocked r \<longleftrightarrow> \<not> to_ok r \<and> (result_held r \<or> starts_with (to_output r) ''VOID:'')"

definition ground_call ::
  "'w engine_env \<Rightarrow> nat \<Rightarrow> tool_call \<Rightarrow> nat \<Rightarrow> tool_result \<Rightarrow> 'w call_state \<Rightarrow> 'w call_state" where
  "ground_call env memoryCount c floors_before r s =
     (let t = redactForExternalMode (ee_mode env) (to_output r) in
      if already_blocked r then answer_call env c floors_before (Some r) t (s\<lparr>cs_blocked := cs_blocked s + 1\<rparr>)
      else if checkGenius (cl_toolName c) (countEvidence (cs_results s)) memoryCount (cs_first s)
        then refuse_call env c ''F8'' (''HOLD: '' @ ee_say env ''F8'') s
      else answer_call env c floors_before (Some r) t s)"

definition refuses :: "string option \<Rightarrow> bool" where
  "refuses d \<longleftrightarrow> d = Some ''HOLD'' \<or> d = Some ''VOID''"

definition after_tool ::
  "'w engine_env \<Rightarrow> nat \<Rightarrow> tool_call \<Rightarrow> nat \<Rightarrow> tool_result \<Rightarrow> 'w call_state \<Rightarrow> 'w call_state" where
  "after_tool env memoryCount c floors_before r s =
     (if fst (advisePrivacy (to_output r)) = ROUTE_TO_KERNEL then
        (case ee_apex env ''F10'' (cs_world s) of
           (Inl m, w) \<Rightarrow> failed_call env c floors_before (Some r) m (s\<lparr>cs_world := w\<rparr>)
         | (Inr d, w) \<Rightarrow>
             (let s = s\<lparr>cs_world := w\<rparr> in
              if refuses d then refuse_call env c ''F10'' (the d @ '': '' @ ee_say env ''F10'') s
              else ground_call env memoryCount c floors_before r s))
      else ground_call env memoryCount c floors_before r s)"

section \<open>A call\<close>

text \<open>What the first matching node of the plan declares.\<close>

definition declared_by_plan :: "node_epistemic list \<Rightarrow> string \<Rightarrow> string list \<times> string list" where
  "declared_by_plan nodes toolName =
     (case find (\<lambda>n. ne_declared n \<noteq> None \<and>
          (ne_status n = ''running'' \<or> ne_status n = ''pending'' \<or> str_includes (to_lower (ne_id n)) (to_lower toolName))) nodes of
        Some n \<Rightarrow> the (ne_declared n)
      | None \<Rightarrow> ([], []))"

definition run_call ::
  "'w engine_env \<Rightarrow> node_epistemic list \<Rightarrow> permission_context \<Rightarrow> nat \<Rightarrow> tool_call \<Rightarrow> 'w call_state \<Rightarrow> 'w call_state" where
  "run_call env nodes pc memoryCount c s =
     (let (as, us) = declared_by_plan nodes (cl_toolName c);
          n = length (cs_floors s);
          (r, d, w) = runTool (ee_runtime env) (ee_qqq env (cl_toolName c) (cl_params c) (cs_world s)) (ee_mode env)
            (ee_policy env) pc as us (ee_registry env) (cl_toolName c) (cl_params c) (cs_degraded s, cs_world s);
          s = s\<lparr> cs_world := w, cs_degraded := d \<rparr> in
      case r of
        Inl m \<Rightarrow> failed_call env c n None m s
      | Inr r \<Rightarrow> after_tool env memoryCount c n r (s\<lparr>cs_results := cs_results s @ [(to_ok r, to_output r)]\<rparr>))"

text \<open>The message of an error that is thrown. No scenario is handed to the estimate, so it needs no powers.\<close>

definition execute_call ::
  "'w engine_env \<Rightarrow> node_epistemic list \<Rightarrow> permission_context \<Rightarrow> nat \<Rightarrow> tool_call \<Rightarrow> 'w call_state \<Rightarrow>
   string option \<times> 'w call_state" where
  "execute_call env nodes pc memoryCount c s =
     (let rt = ee_runtime env; name = cl_toolName c; params = cl_params c in
      if er_verdict (checkToolHarm rt name params) = E_VOID
        then (None, refuse_call env c ''F6'' (''VOID: '' @ ee_say env ''F6'') s)
      else
        (let (held, risk) = checkClarity rt name params (cs_risk s) (cs_first s) in
         if held then (None, refuse_call env c ''F4'' (''HOLD: '' @ ee_say env ''F4'') s)
         else
           (let s = s\<lparr>cs_risk := risk\<rparr> in
            case estimateWithWealth (\<lambda>b e. b) rt name params None of
              None \<Rightarrow> (Some ''cost.kappa_r.toFixed is not a function'', s)
            | Some (ThermoVoid, cost) \<Rightarrow> (None, refuse_call env c ''OPS'' (''VOID [OPS/777 Thermo]: '' @ ee_say env ''OPS'') s)
            | Some (ThermoHold, cost) \<Rightarrow> (None, refuse_call env c ''OPS'' (''HOLD [OPS/777 Thermo]: '' @ ee_say env ''OPS'') s)
            | Some (ThermoPass, cost) \<Rightarrow> (None, run_call env nodes pc memoryCount c s))))"

fun execute_all ::
  "'w engine_env \<Rightarrow> node_epistemic list \<Rightarrow> permission_context \<Rightarrow> nat \<Rightarrow> tool_call list \<Rightarrow> 'w call_state \<Rightarrow>
   string option \<times> 'w call_state" where
  "execute_all env nodes pc memoryCount [] s = (None, s)"
| "execute_all env nodes pc memoryCount (c # cs) s =
     (case execute_call env nodes pc memoryCount c s of
        (Some m, s) \<Rightarrow> (Some m, s)
      | (None, s) \<Rightarrow> execute_all env nodes pc memoryCount cs s)"

definition warn_message :: "'w engine_env \<Rightarrow> message \<Rightarrow> message" where
  "warn_message env m = m\<lparr>mg_content := mg_content m @ [CHR 0x0A] @ ''[WARNING: '' @ ee_say env ''F11'' @ '']''\<rparr>"

definition change_last :: "('a \<Rightarrow> 'a) \<Rightarrow> 'a list \<Rightarrow> 'a list" where
  "change_last f xs = (if xs = [] then [] else butlast xs @ [f (last xs)])"

text \<open>The last message is one object with the last entry of the window, if that entry was not evicted.\<close>

definition check_coherence_of :: "'w engine_env \<Rightarrow> 'w call_state \<Rightarrow> 'w call_state" where
  "check_coherence_of env s =
     (if checkCoherence (cs_texts s) > 0 \<and> cs_messages s \<noteq> [] then
        s\<lparr> cs_floors := cs_floors s @ [''F11''], cs_messages := change_last (warn_message env) (cs_messages s),
           cs_memory := (cs_memory s)\<lparr>sm_transcript := change_last (warn_message env) (sm_transcript (cs_memory s))\<rparr> \<rparr>
      else s)"

definition executeToolCalls ::
  "'w engine_env \<Rightarrow> node_epistemic list \<Rightarrow> permission_context \<Rightarrow> nat \<Rightarrow> tool_call list \<Rightarrow>
   'w \<Rightarrow> bool \<Rightarrow> short_memory \<Rightarrow> string list \<Rightarrow> string option \<times> 'w call_state" where
  "executeToolCalls env nodes pc memoryCount calls w dg mem floors =
     (case execute_all env nodes pc memoryCount calls
        \<lparr> cs_world = w, cs_degraded = dg, cs_memory = mem, cs_floors = floors, cs_risk = Some (dbl (1 / 10)), cs_results = [],
          cs_texts = [], cs_messages = [], cs_first = True, cs_blocked = 0, cs_blockedCommands = 0, cs_timeouts = 0,
          cs_restricted = 0 \<rparr> of
        (Some m, s) \<Rightarrow> (Some m, s)
      | (None, s) \<Rightarrow> (None, check_coherence_of env s))"

section \<open>Every call is answered\<close>

definition answers :: "tool_call \<Rightarrow> message \<Rightarrow> bool" where
  "answers c m \<longleftrightarrow> mg_role m = ToolRole \<and> mg_toolCallId m = Some (cl_id c) \<and> mg_toolName m = Some (cl_toolName c)"

definition one_answer :: "tool_call \<Rightarrow> 'w call_state \<Rightarrow> 'w call_state \<Rightarrow> bool" where
  "one_answer c s s' \<longleftrightarrow> (\<exists>m. cs_messages s' = cs_messages s @ [m] \<and> answers c m)"

lemma answers_message [simp]: "answers c (tool_message c t)"
  by (simp add: answers_def tool_message_def)

lemma push_facts [simp]:
  "cs_messages (push_message env m s) = cs_messages s @ [m]" "cs_world (push_message env m s) = cs_world s"
  by (simp_all add: push_message_def)

lemma refuse_answers: "one_answer c s (refuse_call env c f t s)"
  by (simp add: one_answer_def refuse_call_def)

lemma answer_answers: "one_answer c s (answer_call env c n r t s)"
  by (simp add: one_answer_def answer_call_def Let_def)

lemma one_answer_from: "one_answer c t u \<Longrightarrow> cs_messages t = cs_messages s \<Longrightarrow> one_answer c s u"
  by (simp add: one_answer_def)

lemma failed_answers: "one_answer c s (failed_call env c n r m s)"
  unfolding failed_call_def by (rule one_answer_from [OF answer_answers]) simp

lemma ground_answers: "one_answer c s (ground_call env k c n r s)"
proof -
  have "one_answer c s (answer_call env c n (Some r) t (s\<lparr>cs_blocked := b\<rparr>))" for t b
    using answer_answers [of c "s\<lparr>cs_blocked := b\<rparr>" env n "Some r" t] by (simp add: one_answer_def)
  then show ?thesis by (simp add: ground_call_def Let_def refuse_answers answer_answers)
qed

lemma after_answers: "one_answer c s (after_tool env k c n r s)"
proof -
  have "one_answer c s (failed_call env c n x m (s\<lparr>cs_world := w\<rparr>))"
    "one_answer c s (refuse_call env c f t (s\<lparr>cs_world := w\<rparr>))"
    "one_answer c s (ground_call env k c n r (s\<lparr>cs_world := w\<rparr>))" for x m w f t
    using failed_answers [of c "s\<lparr>cs_world := w\<rparr>"] refuse_answers [of c "s\<lparr>cs_world := w\<rparr>"]
      ground_answers [of c "s\<lparr>cs_world := w\<rparr>"] by (simp_all add: one_answer_def)
  then show ?thesis by (simp add: after_tool_def Let_def ground_answers split: prod.split sum.split)
qed

lemma run_answers: "one_answer c s (run_call env nodes pc k c s)"
proof -
  have "one_answer c s (failed_call env c n x m (s\<lparr>cs_world := w, cs_degraded := d\<rparr>))"
    "one_answer c s (after_tool env k c n r (s\<lparr>cs_world := w, cs_degraded := d, cs_results := rs\<rparr>))" for n x m w d r rs
    using failed_answers [of c "s\<lparr>cs_world := w, cs_degraded := d\<rparr>"]
      after_answers [of c "s\<lparr>cs_world := w, cs_degraded := d, cs_results := rs\<rparr>"] by (simp_all add: one_answer_def)
  then show ?thesis by (simp add: run_call_def Let_def split_beta split: sum.split)
qed

lemma execute_call_answers:
  assumes "execute_call env nodes pc k c s = (None, s')"
  shows "one_answer c s s'"
proof -
  have "one_answer c s (refuse_call env c f t (s\<lparr>cs_risk := r\<rparr>))" "one_answer c s (run_call env nodes pc k c (s\<lparr>cs_risk := r\<rparr>))"
    for f t r
    using refuse_answers [of c "s\<lparr>cs_risk := r\<rparr>"] run_answers [of c "s\<lparr>cs_risk := r\<rparr>"] by (simp_all add: one_answer_def)
  then show ?thesis
    using assms refuse_answers [of c s]
    by (auto simp: execute_call_def Let_def split: if_splits prod.splits option.splits thermo_verdict.splits)
qed

lemma execute_all_answers:
  "execute_all env nodes pc k cs s = (None, s') \<Longrightarrow>
    \<exists>ms. cs_messages s' = cs_messages s @ ms \<and> list_all2 answers cs ms"
proof (induction cs arbitrary: s)
  case (Cons c cs)
  obtain s1 where s1: "execute_call env nodes pc k c s = (None, s1)" "execute_all env nodes pc k cs s1 = (None, s')"
    using Cons.prems by (auto split: prod.splits option.splits)
  from execute_call_answers [OF s1(1)] Cons.IH [OF s1(2)] show ?case by (auto simp: one_answer_def)
qed simp

lemma warned_answers: "list_all2 answers cs ms \<Longrightarrow> list_all2 answers cs (change_last (warn_message env) ms)"
proof (cases ms rule: rev_cases)
  case (snoc ks m)
  assume "list_all2 answers cs ms"
  then show ?thesis
    by (auto simp: snoc change_last_def warn_message_def answers_def list_all2_append2 list_all2_Cons2)
qed (simp add: change_last_def)

lemma calls_answered:
  assumes "executeToolCalls env nodes pc k cs w dg mem floors = (None, s)"
  shows "list_all2 answers cs (cs_messages s)"
proof -
  obtain s1 where e: "execute_all env nodes pc k cs \<lparr> cs_world = w, cs_degraded = dg, cs_memory = mem, cs_floors = floors,
      cs_risk = Some (dbl (1 / 10)), cs_results = [], cs_texts = [], cs_messages = [], cs_first = True, cs_blocked = 0,
      cs_blockedCommands = 0, cs_timeouts = 0, cs_restricted = 0 \<rparr> = (None, s1)" "s = check_coherence_of env s1"
    using assms by (auto simp: executeToolCalls_def split: prod.splits option.splits)
  show ?thesis using execute_all_answers [OF e(1)] by (auto simp: e(2) check_coherence_of_def warned_answers)
qed

section \<open>What the calls can do to the world\<close>

text \<open>The tools that a permission context, a mode and a policy let run.\<close>

definition may_run :: "'w engine_env \<Rightarrow> permission_context \<Rightarrow> string \<Rightarrow> 'w tool_def \<Rightarrow> bool" where
  "may_run env pc name t \<longleftrightarrow>
     name \<noteq> ''run_command'' \<and> isPermitted pc t \<and> policy_allows (ee_policy env) name \<and>
     (td_riskLevel t = DangerousTool \<longrightarrow>
        ee_mode env = InternalMode \<and> (pc_holdEnabled pc \<or> pc_humanOverride pc) \<and> \<not> forced_hold pc)"

text \<open>The judge, the effects of the engine and the tools that may run keep \<open>P\<close>.\<close>

definition calls_keep :: "('w \<Rightarrow> bool) \<Rightarrow> 'w engine_env \<Rightarrow> permission_context \<Rightarrow> bool" where
  "calls_keep P env pc \<longleftrightarrow>
     (\<forall>f w. P w \<longrightarrow> P (snd (ee_apex env f w))) \<and> (\<forall>e w. P w \<longrightarrow> P (snd (ee_port env e w))) \<and>
     (\<forall>(name, t) \<in> set (ee_registry env). may_run env pc name t \<longrightarrow> (\<forall>params w. P w \<longrightarrow> P (snd (td_run t params w))))"

lemma runTool_keeps:
  assumes "calls_keep P env pc" "name \<noteq> ''run_command''" "P w"
    "runTool rt reply (ee_mode env) (ee_policy env) pc as us (ee_registry env) name params (dg, w) = (r, d, w')"
  shows "P w'"
proof (cases "m_get (ee_registry env) name")
  case None
  then show ?thesis using assms by (simp add: runTool_def)
next
  case (Some t)
  obtain q d' where q: "executeQQQ rt reply dg name params as us = (q, d')" by fastforce
  show ?thesis
  proof (cases "tool_decision (ee_mode env) (ee_policy env) pc (qq_verdict q) (qq_reason q) name t")
    case None
    then have "may_run env pc name t" using assms(2) by (auto simp: tool_decision_None_iff may_run_def)
    moreover have "(name, t) \<in> set (ee_registry env)" using Some by (rule m_get_in)
    moreover have "\<forall>(name, t) \<in> set (ee_registry env). may_run env pc name t \<longrightarrow> (\<forall>params w. P w \<longrightarrow> P (snd (td_run t params w)))"
      using assms(1) by (simp add: calls_keep_def)
    ultimately have "P (snd (td_run t params w))" using assms(3) by blast
    then show ?thesis using assms(4) Some q None by (simp add: runTool_def split_beta)
  next
    case (Some x)
    then show ?thesis using assms(3,4) \<open>m_get (ee_registry env) name = Some t\<close> q by (simp add: runTool_def)
  qed
qed

lemma answer_keeps: "calls_keep P env pc \<Longrightarrow> P (cs_world s) \<Longrightarrow> P (cs_world (answer_call env c n r t s))"
  by (simp add: answer_call_def Let_def log_call_def calls_keep_def)

lemma failed_keeps: "calls_keep P env pc \<Longrightarrow> P (cs_world s) \<Longrightarrow> P (cs_world (failed_call env c n r m s))"
  unfolding failed_call_def by (rule answer_keeps) simp_all

lemma refuse_world [simp]: "cs_world (refuse_call env c f t s) = cs_world s"
  by (simp add: refuse_call_def)

lemma ground_keeps: "calls_keep P env pc \<Longrightarrow> P (cs_world s) \<Longrightarrow> P (cs_world (ground_call env k c n r s))"
  by (simp add: ground_call_def Let_def answer_keeps)

lemma after_keeps:
  assumes "calls_keep P env pc" "P (cs_world s)"
  shows "P (cs_world (after_tool env k c n r s))"
proof -
  obtain x w where a: "ee_apex env ''F10'' (cs_world s) = (x, w)" by fastforce
  have "P (snd (ee_apex env ''F10'' (cs_world s)))" using assms by (simp add: calls_keep_def)
  then have "P w" by (simp add: a)
  then show ?thesis
    using assms by (cases x) (simp_all add: after_tool_def a Let_def failed_keeps ground_keeps)
qed

lemma run_call_keeps:
  assumes "calls_keep P env pc" "cl_toolName c \<noteq> ''run_command''" "P (cs_world s)"
  shows "P (cs_world (run_call env nodes pc k c s))"
proof -
  obtain as us where d: "declared_by_plan nodes (cl_toolName c) = (as, us)" by fastforce
  obtain r dg w where r: "runTool (ee_runtime env) (ee_qqq env (cl_toolName c) (cl_params c) (cs_world s)) (ee_mode env)
      (ee_policy env) pc as us (ee_registry env) (cl_toolName c) (cl_params c) (cs_degraded s, cs_world s) = (r, dg, w)"
    by (metis prod.exhaust)
  have "P w" using runTool_keeps [OF assms r] .
  then show ?thesis using assms(1) by (cases r) (simp_all add: run_call_def d r Let_def failed_keeps after_keeps)
qed

lemma run_command_void: "\<exists>c. estimateWithWealth pow rt ''run_command'' params None = Some (ThermoVoid, c)"
proof -
  obtain c where c: "estimate rt ''run_command'' params = Some c"
    "tc_blastRadius c = add_deltas BLAST_RADIUS_MODIFIERS (stringify (number_text rt) params) (dbl (90 / 100))"
    using estimate_blast [of "''run_command''" rt params] by (auto simp: inherited_names_def TOOL_BLAST_RADIUS_def)
  show ?thesis
    by (rule blast_voids [OF c(1)]) (simp only: c(2) add_deltas_grow [OF blast_deltas_pos threshold_facts(1-3)])
qed

lemma execute_call_keeps:
  assumes "calls_keep P env pc" "P (cs_world s)"
  shows "P (cs_world (snd (execute_call env nodes pc k c s)))"
proof -
  have r: "P (cs_world (run_call env nodes pc k c (s\<lparr>cs_risk := x\<rparr>)))" if "cl_toolName c \<noteq> ''run_command''" for x
    by (rule run_call_keeps) (use that assms in simp_all)
  show ?thesis
  proof (cases "cl_toolName c = ''run_command''")
    case True
    then show ?thesis using run_command_void [of "\<lambda>b e. b" "ee_runtime env" "cl_params c"] assms(2)
      by (auto simp: execute_call_def Let_def split: prod.split)
  next
    case False
    show ?thesis using r [OF False] assms(2)
      by (auto simp: execute_call_def Let_def split: prod.split option.split thermo_verdict.split)
  qed
qed

lemma execute_all_keeps:
  "calls_keep P env pc \<Longrightarrow> P (cs_world s) \<Longrightarrow> P (cs_world (snd (execute_all env nodes pc k cs s)))"
proof (induction cs arbitrary: s)
  case (Cons c cs)
  then show ?case using execute_call_keeps [OF Cons.prems, of nodes k c]
    by (auto split: prod.split option.split)
qed simp

lemma calls_keep_world:
  assumes "calls_keep P env pc" "P w"
  shows "P (cs_world (snd (executeToolCalls env nodes pc k cs w dg mem floors)))"
proof -
  note e = execute_all_keeps [OF assms(1), of "\<lparr> cs_world = w, cs_degraded = dg, cs_memory = mem, cs_floors = floors,
      cs_risk = Some (dbl (1 / 10)), cs_results = [], cs_texts = [], cs_messages = [], cs_first = True, cs_blocked = 0,
      cs_blockedCommands = 0, cs_timeouts = 0, cs_restricted = 0 \<rparr>" nodes k cs]
  then show ?thesis using assms(2)
    by (auto simp: executeToolCalls_def check_coherence_of_def split: prod.splits option.split)
qed

end
