(* ===== verification/Intent_Router.thy ===== *)
theory Intent_Router
  imports Double_Arith Text_Match Canonical_Json
begin

text \<open>
  The classification of a task by keywords (\<^verbatim>\<open>src/src/domain/engine/IntentRouter.ts\<close>) and the
  stages of a run (\<^verbatim>\<open>src/src/domain/engine/ArifOSKernel.ts\<close>). Counts are exact, quotients
  and confidences are binary64 numbers. A dash in a text is written as a minus. The log of the kernel and the
  context it is handed are left out.
\<close>

section \<open>Keywords\<close>

datatype intent_domain = DomainGeox | DomainWealth | DomainCode | DomainMixed

definition GEOX_KEYWORDS :: "string list" where
  "GEOX_KEYWORDS =
    [''subsurface'', ''reservoir'', ''seismic'', '' geology'', ''geological'',
     ''hazard'', ''earthquake'', ''volcanic'', ''flood'', ''landslide'',
     ''extraction'', ''production'', ''field'', ''well'', ''formation'',
     ''climate'', ''temperature'', ''precipitation'', ''sea level'',
     ''soil'', '' terrain'', ''topography'', ''bathymetry'',
     ''carbon'', ''emissions'', ''environmental'', ''pollution'',
     ''sensor'', ''satellite'', ''drone'', ''survey'', ''measurement'',
     ''pressure'', ''porosity'', ''permeability'', ''saturation'',
     ''depth'', ''elevation'', ''distance'', ''velocity'']"

definition WEALTH_KEYWORDS :: "string list" where
  "WEALTH_KEYWORDS =
    [''investment'', ''roi'', ''npv'', ''emv'', ''irr'', ''cash flow'',
     ''budget'', ''cost'', ''revenue'', ''profit'', ''loss'',
     ''portfolio'', ''asset'', ''liability'', ''equity'',
     ''capital'', ''financing'', ''debt'', ''equity'',
     ''optimize'', ''allocation'', ''efficiency'', ''throughput'',
     ''thermodynamic'', ''entropy'', ''energy'', ''joule'',
     ''resource'', ''capacity'', ''utilization'',
     ''market'', ''commodity'', '' futures'', ''options'',
     ''risk'', ''volatility'', ''variance'', ''sharpe'',
     ''supply chain'', ''logistics'', ''dispatch'',
     ''bond'', ''stock'', ''derivative'', ''swap'',
     ''currency'', ''fx'', ''exchange rate'']"

definition CODE_KEYWORDS :: "string list" where
  "CODE_KEYWORDS =
    [''file'', ''read'', ''write'', ''edit'', ''create'', ''delete'',
     ''directory'', ''folder'', ''path'', ''directory'',
     ''run'', ''execute'', ''command'', ''shell'', ''bash'',
     ''compile'', ''build'', ''test'', ''deploy'',
     ''install'', ''npm'', ''docker'', ''container'',
     ''search'', ''grep'', ''find'', ''query'', ''scan'',
     ''function'', ''class'', ''interface'', ''module'',
     ''refactor'', ''migrate'', ''update'', ''patch'',
     ''code review'', ''lint'', ''format'', ''debug'']"

definition MIXED_INDICATORS :: "string list" where
  "MIXED_INDICATORS =
    [''compare'', ''versus'', ''vs'', ''alternative'', ''strategy'',
     '' tradeoff'', ''analysis'', ''evaluate'', ''assess'']"

text \<open>The matches; the count of the code is their number.\<close>

definition scoreKeywordMatch :: "string \<Rightarrow> string list \<Rightarrow> string list" where
  "scoreKeywordMatch s keywords = filter (\<lambda>kw. str_includes (to_lower s) (to_lower kw)) keywords"

section \<open>The decision\<close>

datatype uncertainty_band = BandLowUncertainty | BandMediumUncertainty | BandHighUncertainty | BandCriticalUncertainty

text \<open>\<open>g\<close>, \<open>w\<close> and \<open>c\<close> count the matches of the three domains.\<close>

definition top_score :: "nat \<Rightarrow> nat \<Rightarrow> nat \<Rightarrow> nat" where
  "top_score g w c = max (max g w) c"

definition dominance :: "nat \<Rightarrow> nat \<Rightarrow> nat \<Rightarrow> rat" where
  "dominance g w c = dbl_div (of_nat (top_score g w c)) (of_nat (g + w + c))"

definition computeUncertaintyBand :: "nat \<Rightarrow> nat \<Rightarrow> nat \<Rightarrow> uncertainty_band" where
  "computeUncertaintyBand g w c =
     (if g + w + c = 0 then BandCriticalUncertainty
      else if dominance g w c \<ge> dbl (7 / 10) then BandLowUncertainty
      else if dominance g w c \<ge> dbl (4 / 10) then BandMediumUncertainty
      else if g + w + c \<ge> 3 then BandHighUncertainty
      else BandCriticalUncertainty)"

definition primary_organ :: "nat \<Rightarrow> nat \<Rightarrow> nat \<Rightarrow> intent_domain" where
  "primary_organ g w c =
     (if g > w \<and> g > c then DomainGeox
      else if w > g \<and> w > c then DomainWealth
      else if c > g \<and> c > w then DomainCode
      else if g + w + c = 0 then DomainCode
      else DomainMixed)"

definition secondary_organs :: "nat \<Rightarrow> nat \<Rightarrow> nat \<Rightarrow> intent_domain list" where
  "secondary_organs g w c =
     (if g > 0 \<and> primary_organ g w c \<noteq> DomainGeox then [DomainGeox] else []) @
     (if w > 0 \<and> primary_organ g w c \<noteq> DomainWealth then [DomainWealth] else []) @
     (if c > 0 \<and> primary_organ g w c \<noteq> DomainCode then [DomainCode] else [])"

definition reasoning_part :: "runtime \<Rightarrow> string \<Rightarrow> string list \<Rightarrow> string list" where
  "reasoning_part rt name ms =
     (if ms = [] then []
      else [name @ ''['' @ number_text rt (of_nat (length ms)) @ '']: '' @ join_with '', '' (take 3 ms) @
        (if length ms > 3 then ''...'' else [])])"

definition routing_reasoning :: "runtime \<Rightarrow> string list \<Rightarrow> string list \<Rightarrow> string list \<Rightarrow> string list \<Rightarrow> string" where
  "routing_reasoning rt gs ws cs ms =
     (let parts = reasoning_part rt ''GEOX'' gs @ reasoning_part rt ''WEALTH'' ws @ reasoning_part rt ''CODE'' cs @
          (if ms = [] then [] else [''MIXED['' @ number_text rt (of_nat (length ms)) @ '']'']) in
      if parts = [] then ''No domain keywords detected - defaulting to CODE'' else join_with '' | '' parts)"

definition routing_confidence :: "nat \<Rightarrow> nat \<Rightarrow> nat \<Rightarrow> rat" where
  "routing_confidence g w c =
     (if g + w + c = 0 then dbl (3 / 10)
      else min (dbl (95 / 100))
        (dbl_add (dbl_mul (dominance g w c) (dbl (6 / 10)))
          (min (dbl_mul (of_nat (g + w + c)) (dbl (5 / 100))) (dbl (35 / 100)))))"

datatype routing_stage = Stage333Mind | Stage111Sense

record routing_decision =
  rd_primaryOrgan :: intent_domain      \<comment> \<open>also the field \<^verbatim>\<open>domain\<close>\<close>
  rd_confidence :: rat
  rd_secondaryOrgans :: "intent_domain list"
  rd_triggers :: "string list"
  rd_uncertaintyBand :: uncertainty_band
  rd_recommendedNextStage :: routing_stage
  rd_reasoning :: string

definition routeIntent :: "runtime \<Rightarrow> string \<Rightarrow> routing_decision" where
  "routeIntent rt s =
     (let gs = scoreKeywordMatch s GEOX_KEYWORDS; ws = scoreKeywordMatch s WEALTH_KEYWORDS;
          cs = scoreKeywordMatch s CODE_KEYWORDS; ms = scoreKeywordMatch s MIXED_INDICATORS;
          g = length gs; w = length ws; c = length cs; band = computeUncertaintyBand g w c in
      \<lparr> rd_primaryOrgan = primary_organ g w c, rd_confidence = routing_confidence g w c,
        rd_secondaryOrgans = secondary_organs g w c, rd_triggers = gs @ ws @ cs, rd_uncertaintyBand = band,
        rd_recommendedNextStage =
          (if band = BandCriticalUncertainty \<or> band = BandHighUncertainty then Stage111Sense else Stage333Mind),
        rd_reasoning = routing_reasoning rt gs ws cs ms \<rparr>)"

section \<open>The bounds of a decision\<close>

lemma third_of_total: "(g::nat) + w + c \<le> 3 * top_score g w c"
  by (simp add: top_score_def)

lemma dominance_ge:
  assumes "q * (g + w + c) \<le> p * top_score g w c" "0 < g + w + c" "0 < p"
  shows "dbl (of_nat q / of_nat p) \<le> dominance g w c"
proof -
  have "of_nat (q * (g + w + c)) \<le> (of_nat (p * top_score g w c) :: rat)" using assms(1) by (simp only: of_nat_le_iff)
  then have "of_nat q / of_nat p \<le> (of_nat (top_score g w c) / of_nat (g + w + c) :: rat)"
    using assms(2,3) by (simp add: divide_le_eq le_divide_eq mult.commute del: of_nat_add of_nat_le_iff)
  then show ?thesis unfolding dominance_def dbl_div_def by (rule dbl_mono)
qed

text \<open>Doubles below and above the constants of the code.\<close>

lemma constant_bounds:
  "5 / 16 \<le> dbl (1 / 3)" "1 / 2 \<le> dbl (1 / 2)" "19 / 32 \<le> dbl (6 / 10)" "3 / 64 \<le> dbl (5 / 100)" "11 / 32 \<le> dbl (35 / 100)"
  "dbl (3 / 10) \<le> 5 / 16"
  using dbl_mono [of "5 / 16" "1 / 3"] dbl_mono [of "19 / 32" "6 / 10"] dbl_mono [of "3 / 64" "5 / 100"]
    dbl_mono [of "11 / 32" "35 / 100"] dbl_mono [of "3 / 10" "5 / 16"]
    dbl_exact [of "5 * 2 ^ 50" "- 54"] dbl_exact [of "19 * 2 ^ 48" "- 53"] dbl_exact [of "3 * 2 ^ 51" "- 57"]
    dbl_exact [of "11 * 2 ^ 49" "- 54"] dbl_exact [of "2 ^ 52" "- 53"]
  by (simp_all add: two_pow_def)

lemma confidence_sum:
  assumes "x \<le> dominance g w c" "n \<le> g + w + c" "0 \<le> x" "n \<le> 3"
    and "dbl (x * (19 / 32)) = x * (19 / 32)" "dbl (of_nat n * (3 / 64)) = of_nat n * (3 / 64)"
    and "5 / 16 < x * (19 / 32) + of_nat n * (3 / 64)"
    and "dbl (x * (19 / 32) + of_nat n * (3 / 64)) = x * (19 / 32) + of_nat n * (3 / 64)"
  shows "5 / 16 < dbl_add (dbl_mul (dominance g w c) (dbl (6 / 10)))
          (min (dbl_mul (of_nat (g + w + c)) (dbl (5 / 100))) (dbl (35 / 100)))"
proof -
  have "x * (19 / 32) \<le> dominance g w c * dbl (6 / 10)"
    by (intro mult_mono assms constant_bounds order_trans [OF assms(3,1)]) simp
  then have a: "x * (19 / 32) \<le> dbl_mul (dominance g w c) (dbl (6 / 10))"
    unfolding dbl_mul_def by (metis assms(5) dbl_mono)
  have n: "(of_nat n :: rat) \<le> of_nat (g + w + c)" "(of_nat n :: rat) \<le> 3"
    using assms(2,4) by (simp_all only: of_nat_le_iff of_nat_le_numeral_iff)
  have "of_nat n * (3 / 64) \<le> (of_nat (g + w + c) * dbl (5 / 100) :: rat)"
    by (intro mult_mono n constant_bounds) simp_all
  then have "of_nat n * (3 / 64) \<le> dbl_mul (of_nat (g + w + c)) (dbl (5 / 100))"
    unfolding dbl_mul_def by (metis assms(6) dbl_mono)
  moreover have "of_nat n * (3 / 64) \<le> dbl (35 / 100)" using n(2) constant_bounds(5) by simp
  ultimately have "x * (19 / 32) + of_nat n * (3 / 64) \<le>
      dbl_mul (dominance g w c) (dbl (6 / 10)) + min (dbl_mul (of_nat (g + w + c)) (dbl (5 / 100))) (dbl (35 / 100))"
    using a by (simp add: add_mono)
  from dbl_mono [OF this] show ?thesis unfolding dbl_add_def assms(8) using assms(7) by linarith
qed

lemma confidence_above:
  assumes "g + w + c \<noteq> 0"
  shows "5 / 16 < routing_confidence g w c"
proof -
  have d: "dbl (19 / 64) = 19 / 64" "dbl (3 / 64) = 3 / 64" "dbl (11 / 32) = 11 / 32" "dbl (95 / 512) = 95 / 512"
    "dbl (9 / 64) = 9 / 64" "dbl (167 / 512) = 167 / 512" "15 / 16 \<le> dbl (95 / 100)"
    using dbl_exact [of "19 * 2 ^ 48" "- 54"] dbl_exact [of "3 * 2 ^ 51" "- 57"] dbl_exact [of "11 * 2 ^ 49" "- 54"]
      dbl_exact [of "95 * 2 ^ 46" "- 55"] dbl_exact [of "9 * 2 ^ 49" "- 55"] dbl_exact [of "167 * 2 ^ 45" "- 54"]
      dbl_exact [of "15 * 2 ^ 49" "- 53"] dbl_mono [of "15 / 16" "95 / 100"]
    by (simp_all add: two_pow_def)
  have "5 / 16 < dbl_add (dbl_mul (dominance g w c) (dbl (6 / 10)))
          (min (dbl_mul (of_nat (g + w + c)) (dbl (5 / 100))) (dbl (35 / 100)))"
  proof (cases "g + w + c < 3")
    case True
    then have "1 * (g + w + c) \<le> 2 * top_score g w c" by (simp add: top_score_def)
    from dominance_ge [OF this] assms have "1 / 2 \<le> dominance g w c" using constant_bounds(2) by simp
    moreover have "1 \<le> g + w + c" using assms by linarith
    ultimately show ?thesis using d by (intro confidence_sum [of "1 / 2" g w c 1]) simp_all
  next
    case False
    have "1 * (g + w + c) \<le> 3 * top_score g w c" using third_of_total by simp
    from dominance_ge [OF this] assms have "5 / 16 \<le> dominance g w c" using constant_bounds(1) by simp
    then show ?thesis using False d by (intro confidence_sum [of "5 / 16" g w c 3]) simp_all
  qed
  moreover have "5 / 16 < dbl (95 / 100)" using d(7) by linarith
  ultimately show ?thesis by (simp only: routing_confidence_def assms if_False min_less_iff_conj simp_thms)
qed

lemma critical_iff: "computeUncertaintyBand g w c = BandCriticalUncertainty \<longleftrightarrow> g + w + c = 0"
proof -
  have "dbl (4 / 10) \<le> dominance g w c" if t: "g + w + c \<noteq> 0" "g + w + c < 3"
  proof -
    have "1 * (g + w + c) \<le> 2 * top_score g w c" using t by (simp add: top_score_def)
    from dominance_ge [OF this] t(1) have "dbl (1 / 2) \<le> dominance g w c" by simp
    then show ?thesis using dbl_mono [of "4 / 10" "1 / 2"] by simp
  qed
  then show ?thesis unfolding computeUncertaintyBand_def by (simp split: if_splits) linarith
qed

text \<open>
  Every text gets a confidence between 0.3 and 0.95, exactly 0.3 when it holds no keyword, which is also when the
  uncertainty is critical. The primary organ is the domain with strictly the most matches, code when there are none and
  mixed on a tie, and the secondary organs are the other domains with a match.\<close>
theorem routing_bounds:
  "let d = routeIntent rt s; g = length (scoreKeywordMatch s GEOX_KEYWORDS);
       w = length (scoreKeywordMatch s WEALTH_KEYWORDS); c = length (scoreKeywordMatch s CODE_KEYWORDS) in
   dbl (3 / 10) \<le> rd_confidence d \<and> rd_confidence d \<le> dbl (95 / 100) \<and>
   (rd_confidence d = dbl (3 / 10) \<longleftrightarrow> g + w + c = 0) \<and>
   (rd_uncertaintyBand d = BandCriticalUncertainty \<longleftrightarrow> g + w + c = 0) \<and>
   (rd_primaryOrgan d = DomainGeox \<longleftrightarrow> g > max w c) \<and>
   (rd_primaryOrgan d = DomainWealth \<longleftrightarrow> w > max g c) \<and>
   (rd_primaryOrgan d = DomainCode \<longleftrightarrow> c > max g w \<or> g + w + c = 0) \<and>
   set (rd_secondaryOrgans d) =
     {x. (x, g > 0) \<in> {(DomainGeox, True)} \<or> (x, w > 0) \<in> {(DomainWealth, True)} \<or> (x, c > 0) \<in> {(DomainCode, True)}}
       - {rd_primaryOrgan d}"
proof -
  define g w c where n: "g = length (scoreKeywordMatch s GEOX_KEYWORDS)"
    "w = length (scoreKeywordMatch s WEALTH_KEYWORDS)" "c = length (scoreKeywordMatch s CODE_KEYWORDS)"
  have "dbl (3 / 10) \<le> dbl (95 / 100)" by (simp add: dbl_mono)
  then have conf: "dbl (3 / 10) \<le> routing_confidence g w c" "routing_confidence g w c \<le> dbl (95 / 100)"
    "routing_confidence g w c = dbl (3 / 10) \<longleftrightarrow> g + w + c = 0"
    using confidence_above [of g w c] constant_bounds(6) by (auto simp: routing_confidence_def)
  have organ: "primary_organ g w c = DomainGeox \<longleftrightarrow> g > max w c" "primary_organ g w c = DomainWealth \<longleftrightarrow> w > max g c"
    "primary_organ g w c = DomainCode \<longleftrightarrow> c > max g w \<or> g + w + c = 0"
    by (simp_all add: primary_organ_def)
  have "set (secondary_organs g w c) = {x. (x, g > 0) \<in> {(DomainGeox, True)} \<or> (x, w > 0) \<in> {(DomainWealth, True)} \<or>
      (x, c > 0) \<in> {(DomainCode, True)}} - {primary_organ g w c}"
    by (auto simp: secondary_organs_def split: if_splits)
  then show ?thesis using conf organ critical_iff [of g w c] by (simp add: routeIntent_def Let_def n [symmetric])
qed

section \<open>The stages of the kernel\<close>

datatype metabolic_state = S000 | S111 | S333 | S555 | S777 | S888 | S999

definition stage_index :: "metabolic_state \<Rightarrow> int" where
  "stage_index x = (case x of S000 \<Rightarrow> 0 | S111 \<Rightarrow> 1 | S333 \<Rightarrow> 2 | S555 \<Rightarrow> 3 | S777 \<Rightarrow> 4 | S888 \<Rightarrow> 5 | S999 \<Rightarrow> 6)"

datatype transition_verdict = TransPass | TransVoid | TransSkips | TransUnaudited

record task_contract =
  ct_sessionId :: string
  ct_intent :: string
  ct_metabolicState :: metabolic_state
  ct_tags :: "string list"
  ct_joules :: rat
  ct_carbon :: rat
  ct_entropy :: rat

definition new_kernel :: "string \<Rightarrow> string \<Rightarrow> task_contract" where
  "new_kernel i sessionId =
     \<lparr> ct_sessionId = sessionId, ct_intent = i, ct_metabolicState = S000, ct_tags = [''CLAIM''],
       ct_joules = 0, ct_carbon = 0, ct_entropy = 0 \<rparr>"

definition transition_check :: "metabolic_state \<Rightarrow> metabolic_state \<Rightarrow> transition_verdict" where
  "transition_check frm target =
     (if stage_index target \<le> stage_index frm \<and> target \<noteq> frm then TransVoid
      else if stage_index target > stage_index frm + 1 \<and> target \<noteq> S999 then TransSkips
      else if target = S999 \<and> frm \<noteq> S888 then TransUnaudited
      else TransPass)"

definition kernel_transition :: "metabolic_state \<Rightarrow> task_contract \<Rightarrow> transition_verdict \<times> task_contract" where
  "kernel_transition target k =
     (let v = transition_check (ct_metabolicState k) target in
      (v, if v = TransPass then k\<lparr>ct_metabolicState := target\<rparr> else k))"

definition updateTags :: "string list \<Rightarrow> task_contract \<Rightarrow> task_contract" where
  "updateTags ts k = k\<lparr>ct_tags := rev (remdups (rev (ct_tags k @ ts)))\<rparr>"

definition updateThermodynamics :: "rat \<Rightarrow> rat \<Rightarrow> rat \<Rightarrow> task_contract \<Rightarrow> task_contract" where
  "updateThermodynamics j c e k =
     k\<lparr> ct_joules := dbl_add (ct_joules k) j, ct_carbon := dbl_add (ct_carbon k) c, ct_entropy := dbl_add (ct_entropy k) e \<rparr>"

definition visited_stages :: "metabolic_state list \<Rightarrow> task_contract \<Rightarrow> metabolic_state list" where
  "visited_stages targets k =
     rev (snd (fold (\<lambda>t (k, seen). let k' = snd (kernel_transition t k) in
        (k', if ct_metabolicState k' = ct_metabolicState k then seen else ct_metabolicState k' # seen)) targets (k, [])))"

definition all_stages :: "metabolic_state list" where
  "all_stages = [S000, S111, S333, S555, S777, S888, S999]"

lemma transition_next:
  "transition_check frm target = TransPass \<longleftrightarrow>
     (target = frm \<and> frm \<noteq> S999) \<or> stage_index target = stage_index frm + 1"
  by (cases frm; cases target) (simp_all add: transition_check_def stage_index_def)

lemma stages_stepwise:
  "stage_index target = stage_index frm + 1 \<Longrightarrow> all_stages ! nat (stage_index target) = target \<and> stage_index frm \<ge> 0 \<and>
     stage_index target \<le> 6"
  by (cases frm; cases target) (simp_all add: stage_index_def all_stages_def)

lemma visited_fold:
  assumes "seen = rev (map ((!) all_stages) [Suc a..<Suc (nat (stage_index (ct_metabolicState k)))])"
    and "a \<le> nat (stage_index (ct_metabolicState k))"
  shows "\<exists>n \<le> 6. rev (snd (fold (\<lambda>t (k, seen). let k' = snd (kernel_transition t k) in
        (k', if ct_metabolicState k' = ct_metabolicState k then seen else ct_metabolicState k' # seen)) targets (k, seen))) =
     map ((!) all_stages) [Suc a..<Suc n]"
  using assms
proof (induction targets arbitrary: k seen)
  case Nil
  have "nat (stage_index (ct_metabolicState k)) \<le> 6" by (cases "ct_metabolicState k") (simp_all add: stage_index_def)
  then show ?case using Nil by auto
next
  case (Cons t ts)
  let ?k = "snd (kernel_transition t k)"
  let ?step = "\<lambda>t (k, seen). let k' = snd (kernel_transition t k) in
        (k', if ct_metabolicState k' = ct_metabolicState k then seen else ct_metabolicState k' # seen)"
  consider "ct_metabolicState ?k = ct_metabolicState k"
    | "stage_index (ct_metabolicState ?k) = stage_index (ct_metabolicState k) + 1"
    by (cases "transition_check (ct_metabolicState k) t = TransPass")
      (auto simp: kernel_transition_def Let_def transition_next [symmetric], auto simp: transition_next)
  then show ?case
  proof cases
    case 1
    then show ?thesis using Cons.IH [of seen ?k] Cons.prems by simp
  next
    case 2
    note s = stages_stepwise [OF 2]
    then have n: "nat (stage_index (ct_metabolicState ?k)) = Suc (nat (stage_index (ct_metabolicState k)))"
      using 2 by (simp add: nat_add_distrib)
    have ne: "ct_metabolicState ?k \<noteq> ct_metabolicState k" using 2 by auto
    have "ct_metabolicState ?k # seen = rev (map ((!) all_stages) [Suc a..<Suc (nat (stage_index (ct_metabolicState ?k)))])"
      using Cons.prems s unfolding n by simp
    moreover have "a \<le> nat (stage_index (ct_metabolicState ?k))" using Cons.prems(2) n by simp
    ultimately have "\<exists>n \<le> 6. rev (snd (fold ?step ts (?k, ct_metabolicState ?k # seen))) = map ((!) all_stages) [Suc a..<Suc n]"
      by (rule Cons.IH)
    then show ?thesis by (simp only: fold.simps comp_apply prod.case Let_def ne if_False)
  qed
qed

text \<open>
  Whatever sequence of transitions is asked of a new kernel, the stages it goes through are a prefix of
  111, 333, 555, 777, 888, 999: none is skipped, entered twice or left backwards, and 999 is entered only from 888.\<close>
theorem stages_in_order:
  "visited_stages targets (new_kernel i sid) =
    take (length (visited_stages targets (new_kernel i sid))) [S111, S333, S555, S777, S888, S999]"
proof -
  obtain n where n: "n \<le> 6" "visited_stages targets (new_kernel i sid) = map ((!) all_stages) [Suc 0..<Suc n]"
    using visited_fold [of "[]" 0 "new_kernel i sid" targets]
    by (auto simp: visited_stages_def new_kernel_def stage_index_def)
  have "map ((!) all_stages) [Suc 0..<Suc n] = take n [S111, S333, S555, S777, S888, S999]"
    using n(1) by (intro nth_equalityI) (simp_all add: all_stages_def nth_Cons' del: upt_Suc)
  then show ?thesis using n by (simp del: upt_Suc)
qed

end
