(* ===== verification/Budget.thy ===== *)
theory Budget
  imports Double_Arith Canonical_Json
begin

text \<open>
  The token budget of a run (\<^verbatim>\<open>src/src/domain/engine/BudgetManager.ts\<close>) and the router that
  refuses or downshifts the calls of the model (\<^verbatim>\<open>src/src/infrastructure/llm/BudgetAwareRouter.ts\<close>).
  Token counts are integers, quotients are binary64 numbers. The thrown errors are constructors; the log is
  left out. A provider is a function that maps the world to the message of an error or a response, and a new world.
\<close>

record agent_budget =
  ab_tokenCeiling :: int
  ab_maxTurns :: int
  ab_perTurnTokenLimit :: "int option"

record budget_manager =
  bm_budget :: agent_budget
  bm_inputCost :: rat
  bm_outputCost :: rat
  bm_total :: int
  bm_turnCount :: nat
  bm_lastTurn :: int
  bm_costUsd :: rat

definition new_budget_manager :: "agent_budget \<Rightarrow> (rat \<times> rat) option \<Rightarrow> budget_manager" where
  "new_budget_manager b pricing =
     \<lparr> bm_budget = b, bm_inputCost = (case pricing of Some (i, out) \<Rightarrow> i | None \<Rightarrow> 0),
       bm_outputCost = (case pricing of Some (i, out) \<Rightarrow> out | None \<Rightarrow> 0), bm_total = 0, bm_turnCount = 0,
       bm_lastTurn = 0, bm_costUsd = 0 \<rparr>"

definition perTurnTokenLimit :: "budget_manager \<Rightarrow> int" where
  "perTurnTokenLimit m = (case ab_perTurnTokenLimit (bm_budget m) of Some l \<Rightarrow> l | None \<Rightarrow> 2048)"

definition addUsage :: "int \<Rightarrow> int \<Rightarrow> budget_manager \<Rightarrow> budget_manager" where
  "addUsage i out m =
     m\<lparr> bm_lastTurn := i + out, bm_total := bm_total m + (i + out), bm_turnCount := bm_turnCount m + 1,
        bm_costUsd := dbl_add (bm_costUsd m)
          (dbl_add (dbl_div (dbl_mul (of_int i) (bm_inputCost m)) 1000000)
             (dbl_div (dbl_mul (of_int out) (bm_outputCost m)) 1000000)) \<rparr>"

definition usagePercent :: "budget_manager \<Rightarrow> rat" where
  "usagePercent m =
     (if ab_tokenCeiling (bm_budget m) > 0 then dbl_div (of_int (bm_total m)) (of_int (ab_tokenCeiling (bm_budget m)))
      else 0)"

text \<open>\<^verbatim>\<open>Math.round(x * k) / k\<close>\<close>

definition round_to :: "rat \<Rightarrow> rat \<Rightarrow> rat" where
  "round_to k x = dbl_div (of_int \<lfloor>dbl_mul x k + 1 / 2\<rfloor>) k"

record budget_report =
  br_totalTokensUsed :: int
  br_totalCostUsd :: rat
  br_usagePercent :: rat
  br_turnsRemaining :: int
  br_shouldDownshift :: bool

definition getStatus :: "budget_manager \<Rightarrow> budget_report" where
  "getStatus m =
     (let avg = (if bm_turnCount m > 0 then dbl_div (of_int (bm_total m)) (of_nat (bm_turnCount m)) else 1000);
          remaining = max 0 (ab_tokenCeiling (bm_budget m) - bm_total m) in
      \<lparr> br_totalTokensUsed = bm_total m, br_totalCostUsd = round_to 1000000 (bm_costUsd m),
        br_usagePercent = round_to 1000 (usagePercent m),
        br_turnsRemaining = \<lfloor>dbl_div (of_int remaining) (max avg 1)\<rfloor>,
        br_shouldDownshift = (usagePercent m \<ge> dbl (8 / 10)) \<rparr>)"

datatype budget_error = BudgetExhausted int int | PerTurnLimitExceeded int int

definition assertWithinBudget :: "budget_manager \<Rightarrow> budget_error option" where
  "assertWithinBudget m =
     (if bm_total m > ab_tokenCeiling (bm_budget m) then Some (BudgetExhausted (bm_total m) (ab_tokenCeiling (bm_budget m)))
      else None)"

definition assertPerTurnLimit :: "int \<Rightarrow> int \<Rightarrow> budget_manager \<Rightarrow> budget_error option" where
  "assertPerTurnLimit i out m =
     (if i + out > perTurnTokenLimit m then Some (PerTurnLimitExceeded (i + out) (perTurnTokenLimit m)) else None)"

definition budget_error_text :: "runtime \<Rightarrow> budget_error \<Rightarrow> string" where
  "budget_error_text rt e =
     (case e of
        BudgetExhausted used limit \<Rightarrow>
          ''Token ceiling exceeded: used '' @ number_text rt (of_int used) @ '', ceiling '' @ number_text rt (of_int limit)
      | PerTurnLimitExceeded used limit \<Rightarrow>
          ''Per-turn token limit exceeded: '' @ number_text rt (of_int used) @ '' > '' @ number_text rt (of_int limit))"

datatype threshold_level = BelowThresholds | Warning60 | Trigger80 | HardStop100

definition evaluateThresholds :: "budget_manager \<Rightarrow> threshold_level" where
  "evaluateThresholds m =
     (let p = usagePercent m in
      if p \<ge> 1 then HardStop100 else if p \<ge> dbl (8 / 10) then Trigger80
      else if p \<ge> dbl (6 / 10) then Warning60 else BelowThresholds)"

section \<open>The router\<close>

record ('c) turn_response =
  tu_content :: string
  tu_toolCalls :: "'c list"
  tu_inputTokens :: int
  tu_outputTokens :: int
  tu_responseId :: "string option"

type_synonym ('q, 'c, 'w) provider = "'q \<Rightarrow> 'w \<Rightarrow> (string + 'c turn_response) \<times> 'w"

definition budget_refusal :: "'c turn_response" where
  "budget_refusal =
     \<lparr> tu_content = ''[BUDGET] Session terminated: token budget exhausted (>=95%). No further LLM calls permitted.'',
       tu_toolCalls = [], tu_inputTokens = 0, tu_outputTokens = 0, tu_responseId = None \<rparr>"

definition route_turn ::
  "('q, 'c, 'w) provider \<Rightarrow> ('q, 'c, 'w) provider option \<Rightarrow> budget_manager \<Rightarrow> ('q, 'c, 'w) provider" where
  "route_turn primary fallback m q w =
     (if usagePercent m \<ge> dbl (95 / 100) then (Inr budget_refusal, w)
      else if usagePercent m \<ge> dbl (8 / 10) then
        (case fallback of Some f \<Rightarrow> f q w | None \<Rightarrow> primary q w)
      else primary q w)"

section \<open>What a budget allows\<close>

lemma addUsage_simps [simp]:
  "bm_total (addUsage i out m) = bm_total m + (i + out)" "bm_budget (addUsage i out m) = bm_budget m"
  by (simp_all add: addUsage_def)

text \<open>A use below the share \<open>s\<close> of the ceiling is one the rounded quotient shows as below it.\<close>

lemma usage_below:
  assumes "usagePercent m < dbl s" "ab_tokenCeiling (bm_budget m) > 0"
  shows "of_int (bm_total m) < s * of_int (ab_tokenCeiling (bm_budget m))"
proof (rule ccontr)
  let ?c = "of_int (ab_tokenCeiling (bm_budget m)) :: rat"
  assume "\<not> ?thesis"
  then have "s \<le> of_int (bm_total m) / ?c" using assms(2) by (simp add: le_divide_eq)
  then have "dbl s \<le> usagePercent m" using assms(2) dbl_mono by (simp add: usagePercent_def dbl_div_def)
  then show False using assms(1) by simp
qed

end
