(* ===== verification/Agent_Engine.thy ===== *)
theory Agent_Engine
  imports Engine_Calls Intent_Router Budget Cooling_Gate
begin

text \<open>
  A run of the agent engine up to its last answer (\<^verbatim>\<open>run\<close> in
  \<^verbatim>\<open>src/src/domain/engine/AgentEngine.ts\<close>): the gates before the first call of the model, the routing
  of the task and the loop of turns under the token budget. The end of a run is in theory \<open>Agent_Run\<close>.

  What is outside the engine is an argument: the models (\<open>en_primary\<close>, \<open>en_fallback\<close>), the reply of the
  governance and the readiness service, the registry of model cards, the store of approval tickets (the one of this
  repository, \<open>constitution_ticket\<close>, answers every query with the same status), the organs and the texts of reasons.
  The log, times and the metrics of the provider are left out.
\<close>

section \<open>The engine\<close>

record agent_profile =
  pf_name :: string
  pf_systemPrompt :: string
  pf_allowedTools :: "string list"
  pf_budget :: agent_budget

record turn_query =
  tn_systemPrompt :: string
  tn_messages :: "message list"
  tn_tools :: "string list"
  tn_previousResponseId :: "string option"

record geox_scenario =
  gx_environmentalImpact :: "rat option"
  gx_tag :: string
  gx_grounding :: nat

type_synonym allocation = "rat option"      \<comment> \<open>\<^verbatim>\<open>maruahScore\<close>\<close>

record stress_state =
  st_consecutiveFailures :: nat
  st_budgetBurnRate :: rat
  st_diminishingReturns :: bool
  st_cumulativeStress :: rat

record 'w engine =
  en_profile :: agent_profile
  en_calls :: "'w engine_env"
  en_seal :: seal_setup
  en_dangerous :: bool          \<comment> \<open>\<^verbatim>\<open>ENABLE_DANGEROUS_TOOLS\<close>\<close>
  en_experimental :: bool       \<comment> \<open>\<^verbatim>\<open>ENABLE_EXPERIMENTAL_TOOLS\<close>\<close>
  en_primary :: "(turn_query, tool_call, 'w) provider"
  en_fallback :: "(turn_query, tool_call, 'w) provider option"
  en_openai :: bool             \<comment> \<open>the provider keeps the conversation\<close>
  en_pricing :: "(rat \<times> rat) option"
  en_governance :: "(string option \<times> string list option) option option"   \<comment> \<open>the reply of the service, when there is one\<close>
  en_well :: well_reply
  en_gate_world :: gate_world
  en_uuid :: string
  en_io :: bool
  en_skip :: bool
  en_token :: bool              \<comment> \<open>\<^verbatim>\<open>ARIFOS_GATE_TOKEN\<close> is set\<close>
  en_card :: "governance_card option"
  en_cardRead :: "unit + governance_card option"
  en_modelGateCrash :: bool
  en_planGateCrash :: bool
  en_tickets :: "string \<Rightarrow> string option"
  en_scenarios :: "'w \<Rightarrow> (string + geox_scenario list) \<times> 'w"
  en_allocate :: "geox_scenario list \<Rightarrow> 'w \<Rightarrow> allocation list option \<times> 'w"
  en_summary :: "'w \<Rightarrow> string option"
  en_sacred :: "string option"
  en_continue :: "stress_state \<Rightarrow> 'w \<Rightarrow> (string \<times> string) option \<times> 'w"

record 'w engine_state =
  es_world :: 'w
  es_degraded :: bool
  es_cooling :: cooling_gate
  es_gate :: gate_state
  es_scenarios :: "geox_scenario list"
  es_allocations :: "allocation list"

text \<open>The only ticket store of the repository: it finds every ticket, and the status is never an approval.\<close>

definition constitution_ticket :: "string \<Rightarrow> string option" where
  "constitution_ticket i = Some ''constitution_gate''"

definition mode_of :: "'w engine \<Rightarrow> mode_settings" where
  "mode_of en = buildModeSettings (ee_mode (en_calls en))"

definition permission_of :: "'w engine \<Rightarrow> run_options \<Rightarrow> permission_context" where
  "permission_of en ops =
     \<lparr> pc_enabledTools = mo_filterAllowedTools (mode_of en) (pf_allowedTools (en_profile en)),
       pc_dangerousToolsEnabled = (mo_allowDangerousTools (mode_of en) \<and> en_dangerous en),
       pc_experimentalToolsEnabled = (mo_allowExperimentalTools (mode_of en) \<and> en_experimental en),
       pc_holdEnabled = (ee_mode (en_calls en) = InternalMode \<and> en_dangerous en),
       pc_riskLevel = Some (run_risk ops), pc_humanOverride = False \<rparr>"

section \<open>The gates\<close>

text \<open>A refusal has a text and the floor it is blamed on; a sealed one goes to the vault with its floors.\<close>

datatype stop =
    Refused string string
  | RefusedSealed string string "string list"
  | Thrown string

type_synonym 'w gate = "'w engine_state \<Rightarrow> stop option \<times> 'w engine_state"

definition say :: "'w engine \<Rightarrow> string \<Rightarrow> string" where
  "say en t = ee_say (en_calls en) t"

definition governance_word :: "governance_verdict \<Rightarrow> string" where
  "governance_word v = (case v of G_SEAL \<Rightarrow> ''SEAL'' | G_HOLD \<Rightarrow> ''HOLD'' | G_SABAR \<Rightarrow> ''SABAR'' | G_VOID \<Rightarrow> ''VOID'')"

definition governance_result :: "'w engine \<Rightarrow> run_options \<Rightarrow> string \<times> string list" where
  "governance_result en ops =
     (case en_governance en of
        Some reply \<Rightarrow> http_governance reply
      | None \<Rightarrow>
          (let th = getAdaptiveThresholds (run_intent ops) (run_risk ops);
               (v, fs) = local_governance (eo_task ops)
                 \<lparr> sc_sessionId = Some (eo_sessionId ops), sc_pipelineStage = None, sc_hasTelemetry = False \<rparr>
                 (th_minLength th) (th_minWords th) in
           (governance_word v, fs)))"

definition governance_gate :: "'w engine \<Rightarrow> run_options \<Rightarrow> 'w gate" where
  "governance_gate en ops s =
     (let (v, fs) = governance_result en ops in
      if v \<noteq> ''SEAL''
      then (Some (RefusedSealed (v @ '': '' @ say en ''governance'') (case fs of f # _ \<Rightarrow> f | [] \<Rightarrow> ''F1'') fs), s)
      else (None, s))"

definition irreversible_task :: "run_options \<Rightarrow> bool" where
  "irreversible_task ops \<longleftrightarrow> run_risk ops = RiskCritical \<or> eo_intentModel ops = Some Execution"

definition ack_gate :: "run_options \<Rightarrow> 'w gate" where
  "ack_gate ops s =
     (if irreversible_task ops \<and> \<not> eo_ackIrreversible ops
      then (Some (Refused ''HOLD: This operation is classified as irreversible.'' ''F1''), s)
      else (None, s))"

definition well_word :: "well_verdict \<Rightarrow> string" where
  "well_word v = (case v of PASS_W \<Rightarrow> ''PASS'' | SABAR_W \<Rightarrow> ''SABAR'' | HOLD_W \<Rightarrow> ''HOLD'')"

definition tier_of_risk :: "risk_level \<Rightarrow> risk_tier" where
  "tier_of_risk r = (case r of RiskLow \<Rightarrow> LowTier | RiskMedium \<Rightarrow> MediumTier | RiskHigh \<Rightarrow> HighTier | RiskCritical \<Rightarrow> CriticalTier)"

definition cooling_request :: "run_options \<Rightarrow> well_verdict \<Rightarrow> propose_options" where
  "cooling_request ops v =
     \<lparr> po_artifact_ref = Some (eo_sessionId ops),
       po_description = Some (''WELL '' @ well_word v @ '' gate: '' @ take 160 (eo_task ops)),
       po_risk_tier = Some (tier_of_risk (run_risk ops)), po_cooldown_hours = None \<rparr>"

definition requires_well :: "run_options \<Rightarrow> bool" where
  "requires_well ops \<longleftrightarrow> risky (run_risk ops) \<or> run_intent ops = Execution"

definition well_gate :: "'w engine \<Rightarrow> run_options \<Rightarrow> 'w gate" where
  "well_gate en ops s =
     (if \<not> requires_well ops then (None, s)
      else
        (case checkWellReadiness (run_risk ops) (en_well en) of
           None \<Rightarrow> (Some (Thrown ''Cannot read properties of null''), s)
         | Some r \<Rightarrow>
             if wr_verdict r = PASS_W then (None, s)
             else
               (let (entry, cool, g) = propose (en_gate_world en) (en_uuid en) (en_io en) (en_skip en)
                      (cooling_request ops (wr_verdict r)) (es_gate s) (es_cooling s);
                    s = s\<lparr> es_cooling := cool, es_gate := g \<rparr> in
                case entry of
                  None \<Rightarrow> (Some (Thrown ''persist failed''), s)
                | Some e \<Rightarrow>
                    (case ee_port (en_calls en) (CoolingLedger (ce_entry_id e)) (es_world s) of
                       (Some m, w) \<Rightarrow> (Some (Thrown m), s\<lparr>es_world := w\<rparr>)
                     | (None, w) \<Rightarrow>
                         (Some (Refused (well_word (wr_verdict r) @ '': '' @ say en ''W0'' @ '' | cooldown='' @ ce_entry_id e)
                            ''W0''), s\<lparr>es_world := w\<rparr>)))))"

definition halting_class :: "run_options \<Rightarrow> bool" where
  "halting_class ops \<longleftrightarrow> (case eo_hitvClass ops of Some n \<Rightarrow> n \<ge> 2 | None \<Rightarrow> False)"

definition gate_crashed :: "run_options \<Rightarrow> string \<Rightarrow> string \<Rightarrow> stop option" where
  "gate_crashed ops name floor_id = (if halting_class ops then Some (Refused (''HALT: '' @ name @ '' failed.'') floor_id) else None)"

definition capability_word :: "capability_verdict \<Rightarrow> string" where
  "capability_word v = (case v of PROCEED \<Rightarrow> ''PROCEED'' | HOLD_ACTION \<Rightarrow> ''HOLD'' | BLOCK_ACTION \<Rightarrow> ''BLOCK'')"

definition model_gate :: "'w engine \<Rightarrow> run_options \<Rightarrow> 'w gate" where
  "model_gate en ops s =
     (if en_token en then (None, s)
      else if en_modelGateCrash en then (gate_crashed ops ''Model capability gate'' ''MODEL_GATE_HALT'', s)
      else
        (let r = checkModelCapability (en_card en) (eo_task ops) (eo_ackIrreversible ops) in
         if allowed r then (None, s)
         else (Some (Refused (capability_word (cap_verdict r) @ '': '' @ say en ''MODEL_CAPABILITY'') ''MODEL_CAPABILITY''), s)))"

definition plan_ticket :: "'w engine \<Rightarrow> run_options \<Rightarrow> approval_ticket" where
  "plan_ticket en ops =
     \<lparr> at_ticketId = ss_ticketId (en_seal en), at_gate = ''PLAN_GOVERNANCE_HOLD'', at_riskLevel = run_risk ops,
       at_planSummary = say en ''PLAN_GOVERNANCE_HOLD'', at_floors = [''PLAN_GOVERNANCE_HOLD''],
       at_telemetry = \<lparr> te_dS = dbl (1 / 10), te_peace2 = dbl (95 / 100), te_psi_le = 1, te_W3 = dbl (9 / 10), te_G = dbl (8 / 10) \<rparr> \<rparr>"

text \<open>A ticket that cannot be created counts as a crash of the gate.\<close>

definition plan_gate :: "'w engine \<Rightarrow> run_options \<Rightarrow> 'w gate" where
  "plan_gate en ops s =
     (case eo_plan ops of
        None \<Rightarrow> (None, s)
      | Some plan \<Rightarrow>
          if en_token en then (None, s)
          else if en_planGateCrash en then (gate_crashed ops ''Plan governance gate'' ''PLAN_GOVERNANCE_HALT'', s)
          else
            (case fst (verifyGovernanceCard (pf_name (en_profile en)) plan (eo_ackIrreversible ops) (en_cardRead en)) of
               BLOCK \<Rightarrow> (Some (Refused ''BLOCK: Plan governance card rejected execution.'' ''PLAN_GOVERNANCE''), s)
             | HOLD_PLAN \<Rightarrow>
                 (case ee_port (en_calls en) (CreateTicket (plan_ticket en ops)) (es_world s) of
                    (Some m, w) \<Rightarrow> (gate_crashed ops ''Plan governance gate'' ''PLAN_GOVERNANCE_HALT'', s\<lparr>es_world := w\<rparr>)
                  | (None, w) \<Rightarrow>
                      (Some (Refused ''HOLD: Plan governance card requires human review'' ''PLAN_GOVERNANCE_HOLD''),
                       s\<lparr>es_world := w\<rparr>))
             | ALLOW \<Rightarrow> (None, s)))"

definition override_status :: "'w engine \<Rightarrow> run_options \<Rightarrow> string option" where
  "override_status en ops =
     (if falsy (eo_approvedTicket ops) then None else en_tickets en (the (eo_approvedTicket ops)))"

definition human_override :: "'w engine \<Rightarrow> run_options \<Rightarrow> bool" where
  "human_override en ops \<longleftrightarrow> override_status en ops \<in> {Some ''APPROVED'', Some ''REPLAYED''}"

definition ticket_gate :: "'w engine \<Rightarrow> run_options \<Rightarrow> 'w gate" where
  "ticket_gate en ops s =
     (if override_status en ops = Some ''APPROVED'' then
        (case ee_port (en_calls en) (UpdateTicket (the (eo_approvedTicket ops)) ''REPLAYED'') (es_world s) of
           (Some m, w) \<Rightarrow> (Some (Thrown m), s\<lparr>es_world := w\<rparr>)
         | (None, w) \<Rightarrow> (None, s\<lparr>es_world := w\<rparr>))
      else (None, s))"

definition privacy_gate :: "'w engine \<Rightarrow> run_options \<Rightarrow> 'w gate" where
  "privacy_gate en ops s =
     (if fst (advisePrivacy (eo_task ops)) = ROUTE_TO_KERNEL then
        (case ee_apex (en_calls en) ''F10'' (es_world s) of
           (Inl m, w) \<Rightarrow> (Some (Thrown m), s\<lparr>es_world := w\<rparr>)
         | (Inr d, w) \<Rightarrow>
             (if refuses d then Some (RefusedSealed (the d @ '': '' @ say en ''F10'') ''F10'' [''F10'']) else None,
              s\<lparr>es_world := w\<rparr>))
      else (None, s))"

fun first_stop :: "'w gate list \<Rightarrow> 'w gate" where
  "first_stop [] s = (None, s)"
| "first_stop (g # gs) s = (case g s of (Some x, s) \<Rightarrow> (Some x, s) | (None, s) \<Rightarrow> first_stop gs s)"

definition run_gates :: "'w engine \<Rightarrow> run_options \<Rightarrow> 'w gate list" where
  "run_gates en ops =
     [governance_gate en ops, ack_gate ops, well_gate en ops, model_gate en ops, plan_gate en ops, ticket_gate en ops,
      privacy_gate en ops]"

text \<open>The permissions of an admitted run.\<close>

definition run_admission :: "'w engine \<Rightarrow> run_options \<Rightarrow> 'w engine_state \<Rightarrow> (stop + permission_context) \<times> 'w engine_state" where
  "run_admission en ops s =
     (case first_stop (run_gates en ops) s of
        (Some x, s) \<Rightarrow> (Inl x, s)
      | (None, s) \<Rightarrow> (Inr ((permission_of en ops)\<lparr>pc_humanOverride := human_override en ops\<rparr>), s))"

end
