(* ===== verification/Agent_Loop.thy ===== *)
theory Agent_Loop
  imports Agent_Engine
begin

text \<open>
  An admitted run of the agent engine (\<^verbatim>\<open>src/src/domain/engine/AgentEngine.ts\<close>): the organs a task
  is routed to, the messages that are pinned for the model and the loop of turns. The texts of the
  messages pinned for the routing and the organs are arguments. Metrics that only the provider knows are left out.
\<close>

section \<open>Organs\<close>

definition system_message :: "string \<Rightarrow> message" where
  "system_message t = \<lparr> mg_role = SystemRole, mg_content = t, mg_toolCallId = None, mg_toolName = None \<rparr>"

definition asks_organ :: "routing_decision \<Rightarrow> intent_domain \<Rightarrow> bool" where
  "asks_organ r d \<longleftrightarrow> rd_primaryOrgan r = d \<or> d \<in> set (rd_secondaryOrgans r)"

text \<open>The scenarios and allocations that stay in the engine when a run does not ask for them are those of earlier runs.\<close>

definition load_scenarios :: "'w engine \<Rightarrow> routing_decision \<Rightarrow> 'w engine_state \<Rightarrow> string option \<times> 'w engine_state" where
  "load_scenarios en r s =
     (if asks_organ r DomainGeox then
        (case en_scenarios en (es_world s) of
           (Inl m, w) \<Rightarrow> (Some m, s\<lparr>es_world := w\<rparr>)
         | (Inr xs, w) \<Rightarrow> (None, s\<lparr>es_world := w, es_scenarios := xs\<rparr>))
      else (None, s))"

text \<open>Whether the budget of the organ is pinned.\<close>

definition allocate_wealth :: "'w engine \<Rightarrow> routing_decision \<Rightarrow> 'w engine_state \<Rightarrow> bool \<times> 'w engine_state" where
  "allocate_wealth en r s =
     (if \<not> asks_organ r DomainWealth then (False, s)
      else
        (let (xs, w) = (if es_scenarios s \<noteq> [] then (Inr (es_scenarios s), es_world s) else en_scenarios en (es_world s));
             s = s\<lparr>es_world := w\<rparr> in
         case xs of
           Inl m \<Rightarrow> (False, s)
         | Inr xs \<Rightarrow>
             (case en_allocate en xs (es_world s) of
                (None, w) \<Rightarrow> (False, s\<lparr>es_world := w\<rparr>)
              | (Some as, w) \<Rightarrow> (True, s\<lparr>es_world := w, es_allocations := as\<rparr>))))"

definition heart_violations :: "geox_scenario list \<Rightarrow> allocation list \<Rightarrow> string list" where
  "heart_violations xs as =
     concat (map (\<lambda>x.
       (if (case gx_environmentalImpact x of Some i \<Rightarrow> i | None \<Rightarrow> 0) > dbl (6 / 10) then [''F6_MARUAH''] else []) @
       (if gx_tag x = ''HYPOTHESIS'' \<and> gx_grounding x = 0 then [''F8_GROUNDING''] else [])) xs) @
     map (\<lambda>a. ''F6_MARUAH'') (filter (\<lambda>a. (case a of Some m \<Rightarrow> m | None \<Rightarrow> 1) < dbl (1 / 2)) as)"

definition pinned_texts :: "'w engine \<Rightarrow> bool \<Rightarrow> geox_scenario list \<Rightarrow> allocation list \<Rightarrow> string list" where
  "pinned_texts en budget xs as =
     (if budget then [say en ''WEALTH_BUDGET''] else []) @ [say en ''222_THINK''] @
     (if xs \<noteq> [] then [say en ''GEOX''] else []) @ (if as \<noteq> [] then [say en ''WEALTH''] else []) @
     (if heart_violations xs as \<noteq> []
      then [''[555_HEART] Red-team triggered: '' @ join_with '', '' (heart_violations xs as) @ '' - maruah review required'']
      else [])"

section \<open>The prompt\<close>

definition section_break :: string where
  "section_break = [CHR 0x0A, CHR 0x0A]"

definition buildDynamicSystemPrompt :: "string \<Rightarrow> string option \<Rightarrow> string option \<Rightarrow> string" where
  "buildDynamicSystemPrompt base sacred summary =
     base @
     (case sacred of None \<Rightarrow> []
      | Some t \<Rightarrow> section_break @ ''--- SACRED CONTEXT (immutable) ---'' @ [CHR 0x0A] @ t) @
     (if falsy summary then []
      else section_break @ ''--- RUNNING CONTEXT SUMMARY ---'' @ [CHR 0x0A] @ the summary)"

definition getMessagesForTurn :: "'w engine \<Rightarrow> short_memory \<Rightarrow> message list \<Rightarrow> string option \<Rightarrow> message list" where
  "getMessagesForTurn en mem incremental previous =
     (if en_openai en \<and> \<not> falsy previous then incremental else getMessages mem)"

section \<open>A turn\<close>

record 'w loop_state =
  ls_world :: 'w
  ls_degraded :: bool
  ls_memory :: short_memory
  ls_floors :: "string list"
  ls_budget :: budget_manager
  ls_pending :: "message list"
  ls_previous :: "string option"
  ls_turns :: nat
  ls_toolCalls :: nat
  ls_byType :: "(string, nat) jsmap"
  ls_blocked :: nat
  ls_blockedCommands :: nat
  ls_timeouts :: nat
  ls_restricted :: nat
  ls_tokensIn :: int
  ls_tokensOut :: int

datatype loop_end = Answered string | Failed string | Exhausted

definition turn_query_of :: "'w engine \<Rightarrow> permission_context \<Rightarrow> 'w loop_state \<Rightarrow> turn_query" where
  "turn_query_of en pc s =
     \<lparr> tn_systemPrompt =
         buildDynamicSystemPrompt (pf_systemPrompt (en_profile en)) (en_sacred en) (en_summary en (ls_world s)),
       tn_messages = ls_pending s, tn_tools = listForModel pc (ee_registry (en_calls en)),
       tn_previousResponseId = ls_previous s \<rparr>"

definition assistant_message :: "'w engine \<Rightarrow> string \<Rightarrow> message" where
  "assistant_message en t =
     \<lparr> mg_role = AssistantRole, mg_content = mo_transformText (mode_of en) t, mg_toolCallId = None, mg_toolName = None \<rparr>"

definition budget_text :: "'w engine \<Rightarrow> budget_error \<Rightarrow> string" where
  "budget_text en e = budget_error_text (ee_runtime (en_calls en)) e"

text \<open>The call of the model between its two checks of the budget; \<open>Inl\<close> is an error that is thrown.\<close>

definition ask_model ::
  "'w engine \<Rightarrow> permission_context \<Rightarrow> 'w loop_state \<Rightarrow> (string + tool_call turn_response) \<times> 'w loop_state" where
  "ask_model en pc s0 =
     (let s = s0\<lparr>ls_turns := ls_turns s0 + 1\<rparr> in
      case assertWithinBudget (ls_budget s) of
        Some e \<Rightarrow> (Inl (budget_text en e), s)
      | None \<Rightarrow>
          (case route_turn (en_primary en) (en_fallback en) (ls_budget s) (turn_query_of en pc s) (ls_world s) of
             (Inl m, w) \<Rightarrow> (Inl m, s\<lparr>ls_world := w\<rparr>)
           | (Inr r, w) \<Rightarrow>
               (let s = s\<lparr> ls_world := w, ls_budget := addUsage (tu_inputTokens r) (tu_outputTokens r) (ls_budget s),
                      ls_tokensIn := ls_tokensIn s + tu_inputTokens r, ls_tokensOut := ls_tokensOut s + tu_outputTokens r \<rparr> in
                case assertWithinBudget (ls_budget s) of
                  Some e \<Rightarrow> (Inl (budget_text en e), s)
                | None \<Rightarrow>
                    (Inr r, s\<lparr> ls_previous := tu_responseId r,
                       ls_memory := append_message (ee_stamp (en_calls en)) (assistant_message en (tu_content r)) (ls_memory s) \<rparr>))))"

definition estimateToolAction :: "string \<Rightarrow> string \<times> rat \<times> rat" where
  "estimateToolAction toolName =
     (let name = to_lower toolName; has = str_includes name in
      (toolName,
       (if has ''read_file'' then 1500 else if has ''run_tests'' \<or> has ''run_command'' then 1200
        else if has ''list_files'' then 200 else 500),
       (if has ''read'' \<or> has ''grep'' \<or> has ''list'' then 1 else if has ''test'' \<or> has ''run'' then dbl (1 / 2)
        else if has ''write'' \<or> has ''patch'' then dbl (3 / 10) else dbl (1 / 2))))"

definition count_type :: "string \<Rightarrow> (string, nat) jsmap \<Rightarrow> (string, nat) jsmap" where
  "count_type name m = m_set name (case m_get m name of Some n \<Rightarrow> n + 1 | None \<Rightarrow> 1) m"

definition count_calls :: "'w engine \<Rightarrow> tool_call list \<Rightarrow> 'w loop_state \<Rightarrow> 'w loop_state" where
  "count_calls en calls s =
     s\<lparr> ls_toolCalls := ls_toolCalls s + length calls,
        ls_byType := fold (\<lambda>c. count_type (cl_toolName c)) calls (ls_byType s),
        ls_world := snd (ee_port (en_calls en)
          (EvaluatePlan (map (\<lambda>c. estimateToolAction (cl_toolName c)) calls)
            (- max 0 (bm_total (ls_budget s) - ab_tokenCeiling (pf_budget (en_profile en))))
            (br_turnsRemaining (getStatus (ls_budget s)))) (ls_world s)) \<rparr>"

definition stress_of :: "'w call_state \<Rightarrow> 'w loop_state \<Rightarrow> stress_state" where
  "stress_of cs s =
     \<lparr> st_consecutiveFailures = cs_blocked cs + cs_timeouts cs,
       st_budgetBurnRate = dbl_div (of_int (bm_total (ls_budget s))) (of_nat (ls_turns s)),
       st_diminishingReturns = (cs_blocked cs > 0 \<and> ls_toolCalls s > 3),
       st_cumulativeStress =
         dbl_add (dbl_add (dbl_mul (of_nat (cs_blocked cs)) (dbl (1 / 2))) (dbl_mul (of_nat (cs_timeouts cs)) (dbl (3 / 10))))
           (if usagePercent (ls_budget s) > dbl (8 / 10) then dbl (8 / 10) else 0) \<rparr>"

definition remember_results :: "'w engine \<Rightarrow> message list \<Rightarrow> 'w \<Rightarrow> 'w" where
  "remember_results en ms w =
     snd (perform_all (ee_port (en_calls en))
       (map (\<lambda>m. StoreMemory (take 1000 (mg_content m))
          [''tool-result'', case mg_toolName m of Some n \<Rightarrow> n | None \<Rightarrow> ''unknown'']) (filter (\<lambda>m. mg_role m = ToolRole) ms)) w)"

definition after_calls :: "'w engine \<Rightarrow> 'w call_state \<Rightarrow> 'w loop_state \<Rightarrow> loop_end option \<times> 'w loop_state" where
  "after_calls en cs s =
     (let (advice, w) = en_continue en (stress_of cs s) (ls_world s); s = s\<lparr>ls_world := w\<rparr>;
          (v, why) = (case advice of Some a \<Rightarrow> a | None \<Rightarrow> (''SEAL'', [])) in
      if v = ''VOID'' then
        (Some (Answered (''[WEALTH-ADVISORY] '' @ why)), s\<lparr>ls_floors := ls_floors s @ [''WEALTH_VOID'']\<rparr>)
      else
          (None,
           s\<lparr> ls_world := remember_results en (cs_messages cs) (ls_world s),
              ls_pending := getMessagesForTurn en (ls_memory s) (cs_messages cs) (ls_previous s),
              ls_blocked := ls_blocked s + cs_blocked cs, ls_blockedCommands := ls_blockedCommands s + cs_blockedCommands cs,
              ls_timeouts := ls_timeouts s + cs_timeouts cs, ls_restricted := ls_restricted s + cs_restricted cs,
              ls_floors := ls_floors s @ (if cs_blocked cs > 0 then [''F1''] else []) @
                (if cs_restricted cs > 0 then [''F13''] else []) \<rparr>))"

text \<open>The number of injected memories is the number of running summaries: 0 or 1.\<close>

definition act_on ::
  "'w engine \<Rightarrow> run_options \<Rightarrow> permission_context \<Rightarrow> nat \<Rightarrow> tool_call turn_response \<Rightarrow> 'w loop_state \<Rightarrow>
   loop_end option \<times> 'w loop_state" where
  "act_on en ops pc memoryCount r s =
     (if tu_toolCalls r = [] then (Some (Answered (tu_content r)), s)
      else
        (let s = count_calls en (tu_toolCalls r) s in
         case assertWithinBudget (ls_budget s) of
           Some e \<Rightarrow> (Some (Failed (budget_text en e)), s)
         | None \<Rightarrow>
             (let (err, cs) = executeToolCalls (en_calls en) (eo_nodes ops) pc memoryCount (tu_toolCalls r) (ls_world s)
                    (ls_degraded s) (ls_memory s) (ls_floors s);
                  s = s\<lparr> ls_world := cs_world cs, ls_degraded := cs_degraded cs, ls_memory := cs_memory cs,
                         ls_floors := cs_floors cs \<rparr> in
              case err of
                Some m \<Rightarrow> (Some (Failed m), s)
              | None \<Rightarrow> after_calls en cs s)))"

definition run_turn ::
  "'w engine \<Rightarrow> run_options \<Rightarrow> permission_context \<Rightarrow> nat \<Rightarrow> 'w loop_state \<Rightarrow> loop_end option \<times> 'w loop_state" where
  "run_turn en ops pc memoryCount s =
     (case ask_model en pc s of
        (Inl m, s) \<Rightarrow> (Some (Failed m), s)
      | (Inr r, s) \<Rightarrow> act_on en ops pc memoryCount r s)"

text \<open>The first argument is the number of turns that are left; a budget of less than one turn allows none.\<close>

fun run_loop ::
  "nat \<Rightarrow> 'w engine \<Rightarrow> run_options \<Rightarrow> permission_context \<Rightarrow> nat \<Rightarrow> 'w loop_state \<Rightarrow> loop_end \<times> 'w loop_state" where
  "run_loop 0 en ops pc memoryCount s = (Exhausted, s)"
| "run_loop (Suc n) en ops pc memoryCount s =
     (case run_turn en ops pc memoryCount s of
        (Some e, s) \<Rightarrow> (e, s)
      | (None, s) \<Rightarrow> run_loop n en ops pc memoryCount s)"

definition start_loop ::
  "'w engine \<Rightarrow> run_options \<Rightarrow> 'w engine_state \<Rightarrow> bool \<Rightarrow> 'w loop_state" where
  "start_loop en ops s budget =
     (let user = \<lparr> mg_role = UserRole, mg_content = mo_transformText (mode_of en) (eo_task ops), mg_toolCallId = None,
            mg_toolName = None \<rparr>;
          pinned = fold (\<lambda>t. pin_message (system_message t)) (pinned_texts en budget (es_scenarios s) (es_allocations s))
            (new_short_memory (Some 20) (Some 16384));
          mem = append_message (ee_stamp (en_calls en)) user pinned in
      \<lparr> ls_world = es_world s, ls_degraded = es_degraded s, ls_memory = mem,
        ls_floors = heart_violations (es_scenarios s) (es_allocations s),
        ls_budget = new_budget_manager (pf_budget (en_profile en)) (en_pricing en),
        ls_pending = getMessagesForTurn en mem [user] None, ls_previous = None, ls_turns = 0, ls_toolCalls = 0,
        ls_byType = [], ls_blocked = 0, ls_blockedCommands = 0, ls_timeouts = 0, ls_restricted = 0, ls_tokensIn = 0,
        ls_tokensOut = 0 \<rparr>)"

end
