(* ===== verification/Agent_Run.thy ===== *)
theory Agent_Run
  imports Agent_Loop
begin

text \<open>
  A whole run of the agent engine (\<^verbatim>\<open>src/src/domain/engine/AgentEngine.ts\<close>): a refused run and how
  it is reported, and the end of an admitted one: the truth and stewardship checks, the metrics, the annotations, the
  seal and the report. The confidence evaluation of the stage 888 is left out, since the field it tests is never
  assigned. The line with the genius index (\<open>genius\<close>, from the floor scores), the verdict of the seal service
  (\<open>align\<close>) and the note of the mesa detector (\<open>mesa\<close>) are arguments.
\<close>

section \<open>Results\<close>

record run_result =
  rr_finalText :: string
  rr_turnCount :: nat
  rr_tokens :: int
  rr_transcript :: "message list"
  rr_taskSuccess :: bool
  rr_completion :: bool
  rr_testsPassed :: bool
  rr_errorMessage :: "string option"
  rr_blockedDangerous :: nat
  rr_toolCalls :: nat
  rr_byType :: "(string, nat) jsmap"
  rr_memoryReferences :: nat
  rr_cost :: rat

record run_texts =
  rt_genius :: "rat list \<Rightarrow> string option"
  rt_align :: "(string \<Rightarrow> string \<times> string option) option"
  rt_mesa :: "run_result \<Rightarrow> string option"

definition empty_error :: "string \<Rightarrow> string \<Rightarrow> string option \<Rightarrow> string" where
  "empty_error floor_id why sealError =
     (let t = ''Blocked by '' @ floor_id @ '': '' @ why in
      if falsy sealError then t else t @ ''; Seal error: '' @ the sealError)"

definition refused_result :: "string \<Rightarrow> nat \<Rightarrow> int \<Rightarrow> message list \<Rightarrow> string \<Rightarrow> run_result" where
  "refused_result t turns tokens transcript err =
     \<lparr> rr_finalText = t, rr_turnCount = turns, rr_tokens = tokens, rr_transcript = transcript, rr_taskSuccess = False,
       rr_completion = False, rr_testsPassed = False, rr_errorMessage = Some err, rr_blockedDangerous = 1,
       rr_toolCalls = 0, rr_byType = [], rr_memoryReferences = 0, rr_cost = 0 \<rparr>"

type_synonym 'w run_end = "(string + run_result) \<times> 'w engine_state"

text \<open>A run that a gate refuses.\<close>

definition refused_run :: "'w engine \<Rightarrow> run_options \<Rightarrow> stop \<Rightarrow> 'w engine_state \<Rightarrow> 'w run_end" where
  "refused_run en ops x s =
     (case x of
        Thrown m \<Rightarrow> (Inl m, s)
      | Refused t floor_id \<Rightarrow> (Inr (refused_result t 0 0 [] (empty_error floor_id (say en floor_id) None)), s)
      | RefusedSealed t floor_id floors \<Rightarrow>
          (case sealTerminal (en_seal en) (ee_port (en_calls en)) ops t 0 floors
             ((permission_of en ops)\<lparr>pc_humanOverride := floor_id = ''F10'' \<and> human_override en ops\<rparr>) 1 (es_world s) of
             (Inl m, w) \<Rightarrow> (Inl m, s\<lparr>es_world := w\<rparr>)
           | (Inr (t', e), w) \<Rightarrow> (Inr (refused_result t' 0 0 [] (empty_error floor_id (say en floor_id) e)), s\<lparr>es_world := w\<rparr>)))"

section \<open>The end of an admitted run\<close>

definition stopped_text :: string where
  "stopped_text = ''Stopped because the maximum turn count was reached.''"

definition end_text :: "loop_end \<Rightarrow> string" where
  "end_text e =
     (case e of Answered t \<Rightarrow> if t = [] then stopped_text else t | Failed m \<Rightarrow> ''Run failed: '' @ m | Exhausted \<Rightarrow> stopped_text)"

definition end_error :: "loop_end \<Rightarrow> string option" where
  "end_error e = (case e of Failed m \<Rightarrow> Some m | _ \<Rightarrow> None)"

text \<open>An error with an empty message counts as no error.\<close>

definition erred :: "loop_end \<Rightarrow> bool" where
  "erred e \<longleftrightarrow> \<not> falsy (end_error e)"

definition successful_text :: "string \<Rightarrow> bool" where
  "successful_text t \<longleftrightarrow> \<not> starts_with t ''Run failed'' \<and> \<not> starts_with t ''[WEALTH-ADVISORY]''"

definition inferTestsPassed :: "string \<Rightarrow> string \<Rightarrow> bool \<Rightarrow> bool" where
  "inferTestsPassed profileName t completed \<longleftrightarrow>
     completed \<and> (profileName = ''test'' \<longrightarrow> \<not> list_ex (str_includes (to_lower t)) [''fail'', ''error'', ''not ok''])"

definition countMemoryReferences :: "message list \<Rightarrow> nat" where
  "countMemoryReferences ms =
     length (filter (\<lambda>m. mg_role m = AssistantRole \<and>
       rx_test_i (rx_seq [RWordB, rx_text ''memory'', RWordB]) (mg_content m)) ms)"

definition keyword_char :: "char \<Rightarrow> bool" where
  "keyword_char c \<longleftrightarrow> c \<in> set ''abcdefghijklmnopqrstuvwxyz0123456789_/-''"

definition extractKeywords :: "string \<Rightarrow> string \<Rightarrow> string list" where
  "extractKeywords task response =
     take 16 (js_unique (filter (\<lambda>w. length w \<ge> 4)
       (split_at_chars (\<lambda>c. \<not> keyword_char c) [] (to_lower (task @ '' '' @ response)))))"

definition estimateApiCost :: "(rat \<times> rat) option \<Rightarrow> int \<Rightarrow> int \<Rightarrow> rat" where
  "estimateApiCost pricing i out =
     (case pricing of
        None \<Rightarrow> 0
      | Some (icost, ocost) \<Rightarrow>
          dbl_add (dbl_mul (dbl_div (of_int i) 1000000) icost) (dbl_mul (dbl_div (of_int out) 1000000) ocost))"

text \<open>The floor scores of the genius index that are not constant.\<close>

definition floors_proxy :: "permission_context \<Rightarrow> 'w engine_state \<Rightarrow> 'w loop_state \<Rightarrow> recommendation \<Rightarrow> recommendation \<Rightarrow> rat list" where
  "floors_proxy pc s ls truth_advice stewardship =
     (let organs = (es_scenarios s \<noteq> [] \<or> es_allocations s \<noteq> []) in
      [if pc_holdEnabled pc then 1 else if ls_blocked ls > 0 then dbl (6 / 10) else dbl (98 / 100),
       if truth_advice = PROCEED_A then dbl (98 / 100) else if truth_advice = FLAG_FOR_HUMAN then dbl (9 / 10) else dbl (8 / 10),
       if organs then dbl (98 / 100) else dbl (95 / 100),
       if stewardship = PROCEED_A then dbl (98 / 100) else dbl (85 / 100),
       if heart_violations (es_scenarios s) (es_allocations s) = [] then dbl (98 / 100) else dbl (80 / 100),
       if es_scenarios s \<noteq> [] then dbl (98 / 100) else dbl (95 / 100),
       if pc_holdEnabled pc then 1 else dbl (98 / 100)])"

text \<open>What the kernel says of an advisory: \<open>Inl\<close> an error, \<open>Inr True\<close> a refusal.\<close>

definition kernel_refuses :: "'w engine \<Rightarrow> string \<Rightarrow> bool \<Rightarrow> 'w \<Rightarrow> (string + bool) \<times> 'w" where
  "kernel_refuses en floor_id asked w =
     (if \<not> asked then (Inr False, w)
      else (case ee_apex (en_calls en) floor_id w of (Inl m, w) \<Rightarrow> (Inl m, w) | (Inr d, w) \<Rightarrow> (Inr (refuses d), w)))"

text \<open>A run that the kernel holds at its end.\<close>

definition held_run ::
  "'w engine \<Rightarrow> run_options \<Rightarrow> permission_context \<Rightarrow> string \<Rightarrow> string \<Rightarrow> 'w loop_state \<Rightarrow> 'w engine_state \<Rightarrow> 'w run_end" where
  "held_run en ops pc floor_id t ls s =
     (case sealTerminal (en_seal en) (ee_port (en_calls en)) ops t (ls_turns ls) (ls_floors ls @ [floor_id]) pc
        (ls_blocked ls) (ls_world ls) of
        (Inl m, w) \<Rightarrow> (Inl m, s\<lparr>es_world := w\<rparr>)
      | (Inr (t', e), w) \<Rightarrow>
          (Inr (refused_result t' (ls_turns ls) (bm_total (ls_budget ls)) (getMessages (ls_memory ls))
             (empty_error floor_id (say en floor_id) e)), s\<lparr>es_world := w\<rparr>))"

text \<open>The annotation of the seal service and whether it adds a floor.\<close>

definition align_note :: "run_texts \<Rightarrow> string \<Rightarrow> string \<times> string list" where
  "align_note tx t =
     (case rt_align tx of
        None \<Rightarrow> ([], [])
      | Some f \<Rightarrow>
          (let (status, m) = f t in
           if status = ''PASS'' then ([], [])
           else (section_break @ ''[666_ALIGN PLAN_SEAL: '' @ status @ (if falsy m then [] else '' - '' @ the m) @ '']'', [''SealService''])))"

definition run_metrics ::
  "'w engine \<Rightarrow> run_options \<Rightarrow> loop_end \<Rightarrow> string \<Rightarrow> 'w loop_state \<Rightarrow> run_result" where
  "run_metrics en ops e t ls =
     (let tests = (case eo_testsPassed ops of Some b \<Rightarrow> b | None \<Rightarrow> inferTestsPassed (pf_name (en_profile en)) t (\<not> erred e));
          completion = (\<not> erred e \<and> \<not> starts_with t ''Stopped because'') in
      \<lparr> rr_finalText = t, rr_turnCount = ls_turns ls, rr_tokens = bm_total (ls_budget ls),
        rr_transcript = getMessages (ls_memory ls), rr_taskSuccess = (completion \<and> tests), rr_completion = completion,
        rr_testsPassed = tests, rr_errorMessage = end_error e, rr_blockedDangerous = ls_blocked ls,
        rr_toolCalls = ls_toolCalls ls, rr_byType = ls_byType ls,
        rr_memoryReferences = countMemoryReferences (getMessages (ls_memory ls)),
        rr_cost = estimateApiCost (en_pricing en) (ls_tokensIn ls) (ls_tokensOut ls) \<rparr>)"

text \<open>The seal of a finished run, its report and the record of its execution.\<close>

definition seal_run ::
  "'w engine \<Rightarrow> run_options \<Rightarrow> run_texts \<Rightarrow> permission_context \<Rightarrow> string list \<Rightarrow> run_result \<Rightarrow> nat \<Rightarrow> 'w engine_state \<Rightarrow> 'w run_end" where
  "seal_run en ops tx pc floors r turns s =
     (case sealTerminal (en_seal en) (ee_port (en_calls en)) ops (rr_finalText r) turns floors pc (rr_blockedDangerous r)
        (es_world s) of
        (Inl m, w) \<Rightarrow> (Inl m, s\<lparr>es_world := w\<rparr>)
      | (Inr (t', e), w) \<Rightarrow>
          (let r = (if \<not> falsy e \<and> t' \<noteq> rr_finalText r
                    then r\<lparr>rr_finalText := t', rr_completion := False, rr_errorMessage := e\<rparr> else r) in
           case ee_port (en_calls en) (ReportRun (rr_finalText r)) w of
             (Some m, w) \<Rightarrow> (Inl m, s\<lparr>es_world := w\<rparr>)
           | (None, w) \<Rightarrow>
               (Inr (case rt_mesa tx r of None \<Rightarrow> r | Some note \<Rightarrow> r\<lparr>rr_finalText := rr_finalText r @ note\<rparr>),
                s\<lparr>es_world := snd (ee_port (en_calls en) (RecordExecution (rr_completion r) floors) w)\<rparr>)))"

definition conclude ::
  "'w engine \<Rightarrow> run_options \<Rightarrow> run_texts \<Rightarrow> permission_context \<Rightarrow> loop_end \<Rightarrow> string \<Rightarrow> rat list \<Rightarrow> 'w loop_state \<Rightarrow>
   'w engine_state \<Rightarrow> 'w run_end" where
  "conclude en ops tx pc e t scores ls s =
     (let t = t @ (case rt_genius tx scores of None \<Rightarrow> [] | Some g \<Rightarrow> section_break @ g) in
      case ee_port (en_calls en) (StoreSession t (extractKeywords (eo_task ops) t)) (ls_world ls) of
        (Some m, w) \<Rightarrow> (Inl m, s\<lparr>es_world := w\<rparr>)
      | (None, w) \<Rightarrow>
          (let r = run_metrics en ops e t ls; (note, more) = align_note tx t in
           seal_run en ops tx pc (ls_floors ls @ more) (r\<lparr>rr_finalText := t @ note\<rparr>) (ls_turns ls) (s\<lparr>es_world := w\<rparr>)))"

definition remember_end :: "'w engine \<Rightarrow> string \<Rightarrow> 'w \<Rightarrow> 'w" where
  "remember_end en t w =
     snd (ee_port (en_calls en) (StoreMemory (take 2000 t)
       [''session-conclusion'', if successful_text t then ''verified'' else ''unverified'']) w)"

definition finish_run ::
  "'w engine \<Rightarrow> run_options \<Rightarrow> run_texts \<Rightarrow> permission_context \<Rightarrow> loop_end \<Rightarrow> 'w loop_state \<Rightarrow> 'w engine_state \<Rightarrow> 'w run_end" where
  "finish_run en ops tx pc e ls s =
     (let t = end_text e; ls = ls\<lparr>ls_world := remember_end en t (ls_world ls)\<rparr>;
          truth_advice = adviseTruth t (ls_toolCalls ls);
          (x, w) = kernel_refuses en ''F2'' (truth_advice = ROUTE_TO_KERNEL) (ls_world ls); ls = ls\<lparr>ls_world := w\<rparr> in
      case x of
        Inl m \<Rightarrow> (Inl m, s\<lparr>es_world := w\<rparr>)
      | Inr refused \<Rightarrow>
          if refused \<and> \<not> erred e then held_run en ops pc ''F2'' (''[F2_TRUTH_KERNEL_HOLD] '' @ say en ''F2'') ls s
          else
            (let stewardship = adviseStewardship (ls_turns ls) (ls_toolCalls ls)
                   (of_int (ab_maxTurns (pf_budget (en_profile en)))) (ls_blockedCommands ls) (erred e);
                 (y, w) = kernel_refuses en ''F12'' (stewardship = ROUTE_TO_KERNEL) (ls_world ls);
                 ls = ls\<lparr>ls_world := w\<rparr> in
             case y of
               Inl m \<Rightarrow> (Inl m, s\<lparr>es_world := w\<rparr>)
             | Inr held \<Rightarrow>
                 if held then held_run en ops pc ''F12'' (''[F12_STEWARDSHIP_KERNEL_HOLD] '' @ say en ''F12'') ls s
                 else conclude en ops tx pc e t (floors_proxy pc s ls truth_advice stewardship) ls s))"

section \<open>The run\<close>

definition admitted_run ::
  "'w engine \<Rightarrow> run_options \<Rightarrow> run_texts \<Rightarrow> permission_context \<Rightarrow> 'w engine_state \<Rightarrow> 'w run_end" where
  "admitted_run en ops tx pc s =
     (let routing = routeIntent (ee_runtime (en_calls en)) (eo_task ops) in
      case load_scenarios en routing s of
        (Some m, s) \<Rightarrow> (Inl m, s)
      | (None, s) \<Rightarrow>
          (let (budget, s) = allocate_wealth en routing s;
               memoryCount = (if falsy (en_summary en (es_world s)) then 0 else 1);
               (e, ls) = run_loop (nat (ab_maxTurns (pf_budget (en_profile en)))) en ops pc memoryCount (start_loop en ops s budget);
               s = s\<lparr> es_world := ls_world ls, es_degraded := ls_degraded ls \<rparr> in
           finish_run en ops tx pc e ls s))"

definition agent_run :: "'w engine \<Rightarrow> run_options \<Rightarrow> run_texts \<Rightarrow> 'w engine_state \<Rightarrow> 'w run_end" where
  "agent_run en ops tx s =
     (case run_admission en ops s of
        (Inl x, s) \<Rightarrow> refused_run en ops x s
      | (Inr pc, s) \<Rightarrow> admitted_run en ops tx pc s)"

end
