(* ===== verification/Agent_Safety.thy ===== *)
theory Agent_Safety
  imports Agent_Run
begin

text \<open>
  What a run of the agent engine keeps to: no model and no tool before the gates are open, no tool that the permissions
  forbid, no more turns than the budget has and no more tokens than its ceiling and one answer, an answer for every
  call; and what its reports do not tell.
\<close>

section \<open>The gates\<close>

text \<open>What the gates demand of a run, apart from the kernel's judgement of private data.\<close>

definition gates_open :: "'w engine \<Rightarrow> run_options \<Rightarrow> bool" where
  "gates_open en ops \<longleftrightarrow>
     fst (governance_result en ops) = ''SEAL'' \<and>
     (irreversible_task ops \<longrightarrow> eo_ackIrreversible ops) \<and>
     (requires_well ops \<longrightarrow> map_option wr_verdict (checkWellReadiness (run_risk ops) (en_well en)) = Some PASS_W) \<and>
     (\<not> en_token en \<longrightarrow>
        (if en_modelGateCrash en then \<not> halting_class ops
         else allowed (checkModelCapability (en_card en) (eo_task ops) (eo_ackIrreversible ops)))) \<and>
     (eo_plan ops \<noteq> None \<and> \<not> en_token en \<longrightarrow>
        (if en_planGateCrash en then \<not> halting_class ops
         else fst (verifyGovernanceCard (pf_name (en_profile en)) (the (eo_plan ops)) (eo_ackIrreversible ops) (en_cardRead en)) = ALLOW
           \<or> fst (verifyGovernanceCard (pf_name (en_profile en)) (the (eo_plan ops)) (eo_ackIrreversible ops) (en_cardRead en)) = HOLD_PLAN
              \<and> \<not> halting_class ops))"

lemma first_stop_passes: "fst (first_stop gs s) = None \<Longrightarrow> g \<in> set gs \<Longrightarrow> \<exists>s. fst (g s) = None"
proof (induction gs arbitrary: s)
  case (Cons a gs)
  obtain r s1 where a: "a s = (r, s1)" by fastforce
  with Cons.prems have n: "r = None" "fst (first_stop gs s1) = None" by (cases r; simp)+
  show ?case
  proof (cases "g = a")
    case True
    then show ?thesis using a n by (intro exI [of _ s]) simp
  next
    case False
    then show ?thesis using Cons.IH [OF n(2)] Cons.prems by simp
  qed
qed simp

lemma well_gate_passes:
  "fst (well_gate en ops s) = None \<Longrightarrow> requires_well ops \<Longrightarrow>
    map_option wr_verdict (checkWellReadiness (run_risk ops) (en_well en)) = Some PASS_W"
  by (auto simp: well_gate_def Let_def split: if_splits option.splits prod.splits)

lemma model_gate_passes:
  "fst (model_gate en ops s) = None \<Longrightarrow> \<not> en_token en \<Longrightarrow>
    (if en_modelGateCrash en then \<not> halting_class ops
     else allowed (checkModelCapability (en_card en) (eo_task ops) (eo_ackIrreversible ops)))"
  by (auto simp: model_gate_def gate_crashed_def Let_def split: if_splits)

lemma plan_gate_passes:
  assumes "fst (plan_gate en ops s) = None" "eo_plan ops = Some plan" "\<not> en_token en"
  shows "if en_planGateCrash en then \<not> halting_class ops
    else fst (verifyGovernanceCard (pf_name (en_profile en)) plan (eo_ackIrreversible ops) (en_cardRead en)) = ALLOW
      \<or> fst (verifyGovernanceCard (pf_name (en_profile en)) plan (eo_ackIrreversible ops) (en_cardRead en)) = HOLD_PLAN
         \<and> \<not> halting_class ops"
proof (cases "fst (verifyGovernanceCard (pf_name (en_profile en)) plan (eo_ackIrreversible ops) (en_cardRead en))")
  case HOLD_PLAN
  then show ?thesis using assms
    by (auto simp: plan_gate_def gate_crashed_def split: if_splits option.splits prod.splits)
qed (use assms in \<open>auto simp: plan_gate_def gate_crashed_def split: if_splits\<close>)

lemma admitted_open:
  fixes en :: "'w engine" and s :: "'w engine_state"
  assumes "fst (run_admission en ops s) = Inr pc"
  shows "gates_open en ops \<and> pc = (permission_of en ops)\<lparr>pc_humanOverride := human_override en ops\<rparr>"
proof -
  have n: "fst (first_stop (run_gates en ops) s) = None"
    using assms by (auto simp: run_admission_def split: prod.splits option.splits)
  have m: "governance_gate en ops \<in> set (run_gates en ops)" "ack_gate ops \<in> set (run_gates en ops)"
    "well_gate en ops \<in> set (run_gates en ops)" "model_gate en ops \<in> set (run_gates en ops)"
    "plan_gate en ops \<in> set (run_gates en ops)" by (simp_all add: run_gates_def)
  obtain s1 s2 s3 s4 s5 where "fst (governance_gate en ops s4) = None" "fst (ack_gate ops (s5 :: 'w engine_state)) = None"
    and w: "fst (well_gate en ops s1) = None" "fst (model_gate en ops s2) = None" "fst (plan_gate en ops s3) = None"
    using m [THEN first_stop_passes [OF n]] by blast
  then have g: "fst (governance_result en ops) = ''SEAL''" "irreversible_task ops \<longrightarrow> eo_ackIrreversible ops"
    by (auto simp: governance_gate_def ack_gate_def Let_def split_beta split: if_splits)
  note p = well_gate_passes [OF w(1)] model_gate_passes [OF w(2)] plan_gate_passes [OF w(3)]
  have "gates_open en ops" unfolding gates_open_def using g(1,2) p by auto
  then show ?thesis using assms by (auto simp: run_admission_def split: prod.splits option.splits)
qed

text \<open>The engine with other models and other tools.\<close>

definition with_tools ::
  "(turn_query, tool_call, 'w) provider \<Rightarrow> (turn_query, tool_call, 'w) provider option \<Rightarrow> 'w registry \<Rightarrow> 'w engine \<Rightarrow> 'w engine" where
  "with_tools p f r en = en\<lparr> en_primary := p, en_fallback := f, en_calls := (en_calls en)\<lparr>ee_registry := r\<rparr> \<rparr>"

lemma with_tools_simps [simp]:
  "ee_port (en_calls (with_tools p f r en)) = ee_port (en_calls en)" "ee_apex (en_calls (with_tools p f r en)) = ee_apex (en_calls en)"
  "ee_say (en_calls (with_tools p f r en)) = ee_say (en_calls en)" "ee_mode (en_calls (with_tools p f r en)) = ee_mode (en_calls en)"
  "en_profile (with_tools p f r en) = en_profile en" "en_seal (with_tools p f r en) = en_seal en"
  "en_dangerous (with_tools p f r en) = en_dangerous en" "en_experimental (with_tools p f r en) = en_experimental en"
  "en_governance (with_tools p f r en) = en_governance en" "en_well (with_tools p f r en) = en_well en"
  "en_gate_world (with_tools p f r en) = en_gate_world en" "en_uuid (with_tools p f r en) = en_uuid en"
  "en_io (with_tools p f r en) = en_io en" "en_skip (with_tools p f r en) = en_skip en"
  "en_token (with_tools p f r en) = en_token en" "en_card (with_tools p f r en) = en_card en"
  "en_cardRead (with_tools p f r en) = en_cardRead en" "en_modelGateCrash (with_tools p f r en) = en_modelGateCrash en"
  "en_planGateCrash (with_tools p f r en) = en_planGateCrash en" "en_tickets (with_tools p f r en) = en_tickets en"
  by (simp_all add: with_tools_def)

lemma say_blind [simp]: "say (with_tools p f r en) = say en"
  by (intro ext) (simp add: say_def)

lemma permission_blind [simp]: "permission_of (with_tools p f r en) ops = permission_of en ops"
  unfolding permission_of_def mode_of_def with_tools_simps ..

lemma override_blind [simp]: "human_override (with_tools p f r en) ops = human_override en ops"
  unfolding human_override_def override_status_def with_tools_simps ..

lemma gates_blind: "run_gates (with_tools p f r en) ops = run_gates en ops"
proof -
  have "governance_gate (with_tools p f r en) ops = governance_gate en ops"
    unfolding fun_eq_iff governance_gate_def governance_result_def with_tools_simps say_blind by simp
  moreover have "well_gate (with_tools p f r en) ops = well_gate en ops"
    unfolding fun_eq_iff well_gate_def with_tools_simps say_blind by simp
  moreover have "model_gate (with_tools p f r en) ops = model_gate en ops"
    unfolding fun_eq_iff model_gate_def with_tools_simps say_blind by simp
  moreover have "plan_gate (with_tools p f r en) ops = plan_gate en ops"
    unfolding fun_eq_iff plan_gate_def plan_ticket_def with_tools_simps say_blind by simp
  moreover have "ticket_gate (with_tools p f r en) ops = ticket_gate en ops"
    unfolding fun_eq_iff ticket_gate_def override_status_def with_tools_simps by simp
  moreover have "privacy_gate (with_tools p f r en) ops = privacy_gate en ops"
    unfolding fun_eq_iff privacy_gate_def with_tools_simps say_blind by simp
  ultimately show ?thesis by (simp add: run_gates_def)
qed

lemma run_admission_blind: "run_admission (with_tools p f r en) ops s = run_admission en ops s"
  unfolding run_admission_def gates_blind permission_blind override_blind ..

lemma refused_blind: "refused_run (with_tools p f r en) ops x s = refused_run en ops x s"
  unfolding refused_run_def with_tools_simps say_blind permission_blind override_blind ..

text \<open>
  C4. Unless the governance plane says SEAL, an irreversible task is acknowledged, the readiness service passes a risky
  one, and the card of the model and the plan's card allow it --- or their gates crashed and the run is not of a
  consequential class, or a gate token is set ---, what a run returns and does to the world does not depend on the models
  nor on the tools: none of them is used.\<close>
theorem gates_stand_before_model:
  assumes "\<not> gates_open en ops"
  shows "agent_run (with_tools p f r en) ops tx s = agent_run en ops tx s"
proof -
  obtain x s' where "run_admission en ops s = (Inl x, s')"
    using assms admitted_open [of en ops s] by (cases "run_admission en ops s"; cases "fst (run_admission en ops s)") auto
  then show ?thesis by (simp add: agent_run_def run_admission_blind refused_blind)
qed

section \<open>The budget\<close>

text \<open>Every answer of a provider is charged at most \<open>L\<close> tokens.\<close>

definition answers_within :: "int \<Rightarrow> ('q, 'c, 'w) provider \<Rightarrow> bool" where
  "answers_within L p \<longleftrightarrow>
     (\<forall>q w. case fst (p q w) of Inl m \<Rightarrow> True | Inr r \<Rightarrow> tu_inputTokens r + tu_outputTokens r \<le> L)"

definition spent_within :: "int \<Rightarrow> 'w engine \<Rightarrow> 'w loop_state \<Rightarrow> bool" where
  "spent_within L en s \<longleftrightarrow>
     bm_budget (ls_budget s) = pf_budget (en_profile en) \<and>
     100 * bm_total (ls_budget s) < 95 * ab_tokenCeiling (pf_budget (en_profile en)) + 100 * L"

lemma routed_within:
  assumes "answers_within L p" "\<forall>f. fb = Some f \<longrightarrow> answers_within L f" "route_turn p fb m q w = (Inr r, w')" "0 \<le> L"
    and "ab_tokenCeiling (bm_budget m) > 0" "100 * bm_total m < 95 * ab_tokenCeiling (bm_budget m) + 100 * L"
  shows "100 * (bm_total m + (tu_inputTokens r + tu_outputTokens r)) < 95 * ab_tokenCeiling (bm_budget m) + 100 * L"
proof (cases "usagePercent m \<ge> dbl (95 / 100)")
  case True
  then have "r = budget_refusal" using assms(3) by (simp add: route_turn_def)
  then show ?thesis using assms(6) by (simp add: budget_refusal_def)
next
  case False
  then have "of_int (bm_total m) < 95 / 100 * (of_int (ab_tokenCeiling (bm_budget m)) :: rat)"
    using usage_below [of m "95 / 100"] assms(5) by simp
  then have "of_int (100 * bm_total m) < (of_int (95 * ab_tokenCeiling (bm_budget m)) :: rat)" by simp
  then have t: "100 * bm_total m < 95 * ab_tokenCeiling (bm_budget m)" by (simp only: of_int_less_iff)
  obtain f where "f q w = (Inr r, w')" "answers_within L f"
    using False assms(1-3) by (auto simp: route_turn_def split: if_splits option.splits)
  then have "tu_inputTokens r + tu_outputTokens r \<le> L" unfolding answers_within_def by (metis fst_conv sum.case(2))
  then show ?thesis using t by simp
qed

lemma ask_model_within:
  assumes "ask_model en pc s = (x, s')" "spent_within L en s" "answers_within L (en_primary en)"
    "\<forall>f. en_fallback en = Some f \<longrightarrow> answers_within L f" "0 \<le> L" "ab_tokenCeiling (pf_budget (en_profile en)) > 0"
  shows "spent_within L en s' \<and> ls_turns s' = Suc (ls_turns s)"
proof (cases "assertWithinBudget (ls_budget s)")
  case None
  let ?s = "s\<lparr>ls_turns := ls_turns s + 1\<rparr>"
  obtain y w where r: "route_turn (en_primary en) (en_fallback en) (ls_budget s) (turn_query_of en pc ?s) (ls_world s) = (y, w)"
    by fastforce
  show ?thesis
  proof (cases y)
    case (Inr a)
    have "100 * (bm_total (ls_budget s) + (tu_inputTokens a + tu_outputTokens a)) <
        95 * ab_tokenCeiling (pf_budget (en_profile en)) + 100 * L"
      using routed_within [OF assms(3,4) r [unfolded Inr] assms(5)] assms(2,6) by (simp add: spent_within_def)
    then show ?thesis using assms(1,2) None r Inr
      by (auto simp: ask_model_def Let_def spent_within_def split: option.splits)
  qed (use assms(1,2) None r in \<open>auto simp: ask_model_def Let_def spent_within_def\<close>)
qed (use assms(1,2) in \<open>auto simp: ask_model_def Let_def spent_within_def\<close>)

lemma after_calls_budget:
  "after_calls en cs s = (e, s') \<Longrightarrow> ls_budget s' = ls_budget s \<and> ls_turns s' = ls_turns s"
  by (auto simp: after_calls_def Let_def split_beta split: if_splits)

lemma act_on_budget:
  assumes "act_on en ops pc k r s = (e, s')"
  shows "ls_budget s' = ls_budget s \<and> ls_turns s' = ls_turns s"
proof (cases "tu_toolCalls r = []")
  case False
  have c: "ls_budget (count_calls en cs s) = ls_budget s" "ls_turns (count_calls en cs s) = ls_turns s" for cs
    by (simp_all add: count_calls_def)
  show ?thesis
  proof (cases "assertWithinBudget (ls_budget s)")
    case None
    show ?thesis using assms False None
      by (auto simp: act_on_def Let_def c split_beta split: option.splits dest!: after_calls_budget)
  qed (use assms False in \<open>auto simp: act_on_def Let_def c\<close>)
qed (use assms in \<open>simp add: act_on_def\<close>)

lemma run_loop_within:
  assumes "answers_within L (en_primary en)" "\<forall>f. en_fallback en = Some f \<longrightarrow> answers_within L f" "0 \<le> L"
    "ab_tokenCeiling (pf_budget (en_profile en)) > 0"
  shows "run_loop n en ops pc k s = (e, s') \<Longrightarrow> spent_within L en s \<Longrightarrow>
    spent_within L en s' \<and> ls_turns s' \<le> ls_turns s + n"
proof (induction n arbitrary: s)
  case (Suc n)
  obtain x s1 where a: "ask_model en pc s = (x, s1)" by fastforce
  note w = ask_model_within [OF a Suc.prems(2) assms]
  show ?case
  proof (cases x)
    case (Inl m)
    then show ?thesis using Suc.prems a w by (auto simp: run_turn_def)
  next
    case (Inr r)
    obtain y s2 where b: "act_on en ops pc k r s1 = (y, s2)" by fastforce
    have s2: "spent_within L en s2" "ls_turns s2 = Suc (ls_turns s)"
      using act_on_budget [OF b] w by (simp_all add: spent_within_def)
    show ?thesis
    proof (cases y)
      case None
      then have "run_loop n en ops pc k s2 = (e, s')" using Suc.prems(1) a b Inr by (simp add: run_turn_def)
      from Suc.IH [OF this s2(1)] s2(2) show ?thesis by simp
    qed (use Suc.prems(1) a b Inr s2 in \<open>auto simp: run_turn_def\<close>)
  qed
qed simp

lemma held_run_report:
  "fst (held_run en ops pc f t ls s) = Inr r \<Longrightarrow> rr_turnCount r = ls_turns ls \<and> rr_tokens r = bm_total (ls_budget ls)"
  by (auto simp: held_run_def refused_result_def split: prod.splits sum.splits)

lemma seal_run_report:
  "fst (seal_run en ops tx pc fs r0 n s) = Inr r \<Longrightarrow> rr_turnCount r = rr_turnCount r0 \<and> rr_tokens r = rr_tokens r0"
  by (auto simp: seal_run_def Let_def split: prod.splits sum.splits option.splits if_splits)

lemma conclude_report:
  assumes "fst (conclude en ops tx pc e t scores ls s) = Inr r"
  shows "rr_turnCount r = ls_turns ls \<and> rr_tokens r = bm_total (ls_budget ls)"
  using assms
  by (auto simp: conclude_def Let_def run_metrics_def split: prod.splits option.splits dest!: seal_run_report)

lemma finish_report:
  assumes "fst (finish_run en ops tx pc e ls s) = Inr r"
  shows "rr_turnCount r = ls_turns ls \<and> rr_tokens r = bm_total (ls_budget ls)"
  using assms
  by (auto simp: finish_run_def Let_def split: prod.splits sum.splits if_splits dest!: held_run_report conclude_report)

lemma start_within: "0 \<le> L \<Longrightarrow> ab_tokenCeiling (pf_budget (en_profile en)) > 0 \<Longrightarrow> spent_within L en (start_loop en ops s b)"
  by (simp add: spent_within_def start_loop_def Let_def new_budget_manager_def)

lemma refused_report: "fst (refused_run en ops x s) = Inr r \<Longrightarrow> rr_turnCount r = 0 \<and> rr_tokens r = 0"
  by (cases x) (auto simp: refused_run_def refused_result_def split: prod.splits sum.splits)

text \<open>
  C11. A run takes at most as many turns as its budget has, whatever the models answer, and if no answer of theirs is
  charged more than \<open>L\<close> tokens, the tokens of the run stay below 95 percent of the ceiling plus \<open>L\<close>: the last call
  of a model is made below that share, and what a call costs is only seen after it.\<close>
theorem run_stays_in_budget:
  assumes "fst (agent_run en ops tx s) = Inr r" "answers_within L (en_primary en)"
    "\<forall>f. en_fallback en = Some f \<longrightarrow> answers_within L f" "0 \<le> L" "ab_tokenCeiling (pf_budget (en_profile en)) > 0"
  shows "rr_turnCount r \<le> nat (ab_maxTurns (pf_budget (en_profile en))) \<and>
    100 * rr_tokens r < 95 * ab_tokenCeiling (pf_budget (en_profile en)) + 100 * L"
proof -
  obtain x s1 where a: "run_admission en ops s = (x, s1)" by fastforce
  show ?thesis
  proof (cases x)
    case (Inl y)
    then show ?thesis using assms(1,4,5) a refused_report [of en ops y s1 r] by (simp add: agent_run_def)
  next
    case (Inr pc)
    obtain z s2 where z: "load_scenarios en (routeIntent (ee_runtime (en_calls en)) (eo_task ops)) s1 = (z, s2)" by fastforce
    obtain b s3 where b: "allocate_wealth en (routeIntent (ee_runtime (en_calls en)) (eo_task ops)) s2 = (b, s3)" by fastforce
    obtain k :: nat where k: "k = (if falsy (en_summary en (es_world s3)) then 0 else 1)" by blast
    obtain e ls where l: "run_loop (nat (ab_maxTurns (pf_budget (en_profile en)))) en ops pc k (start_loop en ops s3 b) = (e, ls)"
      by fastforce
    have z': "z = None" using assms(1) a Inr z by (cases z) (simp_all add: agent_run_def admitted_run_def)
    have "fst (finish_run en ops tx pc e ls (s3\<lparr>es_world := ls_world ls, es_degraded := ls_degraded ls\<rparr>)) = Inr r"
      using assms(1) a Inr z z' b k l by (simp add: agent_run_def admitted_run_def Let_def)
    from finish_report [OF this] run_loop_within [OF assms(2-5) l start_within [OF assms(4,5)]]
    show ?thesis by (simp add: spent_within_def start_loop_def Let_def)
  qed
qed

section \<open>Tools that may not run\<close>

text \<open>What a run is made of keeps \<open>P\<close>: the models, the organs, the kernel, the effects and the tools that may run.\<close>

definition run_keeps :: "('w \<Rightarrow> bool) \<Rightarrow> 'w engine \<Rightarrow> permission_context \<Rightarrow> bool" where
  "run_keeps P en pc \<longleftrightarrow>
     calls_keep P (en_calls en) pc \<and> (\<forall>q w. P w \<longrightarrow> P (snd (en_primary en q w))) \<and>
     (\<forall>f. en_fallback en = Some f \<longrightarrow> (\<forall>q w. P w \<longrightarrow> P (snd (f q w)))) \<and>
     (\<forall>w. P w \<longrightarrow> P (snd (en_scenarios en w))) \<and> (\<forall>xs w. P w \<longrightarrow> P (snd (en_allocate en xs w))) \<and>
     (\<forall>st w. P w \<longrightarrow> P (snd (en_continue en st w)))"

lemma port_keeps_snd: "run_keeps P en pc \<Longrightarrow> P w \<Longrightarrow> P (snd (ee_port (en_calls en) e w))"
  by (simp add: run_keeps_def calls_keep_def)

lemma apex_keeps_snd: "run_keeps P en pc \<Longrightarrow> P w \<Longrightarrow> P (snd (ee_apex (en_calls en) f w))"
  by (simp add: run_keeps_def calls_keep_def)

lemma port_keeps: "ee_port (en_calls en) e w = (x, w') \<Longrightarrow> run_keeps P en pc \<Longrightarrow> P w \<Longrightarrow> P w'"
  using port_keeps_snd [of P en pc w e] by simp

lemma apex_keeps: "ee_apex (en_calls en) f w = (x, w') \<Longrightarrow> run_keeps P en pc \<Longrightarrow> P w \<Longrightarrow> P w'"
  using apex_keeps_snd [of P en pc w f] by simp

lemma perform_keeps: "run_keeps P en pc \<Longrightarrow> P w \<Longrightarrow> P (snd (perform_all (ee_port (en_calls en)) es w))"
proof (induction es arbitrary: w)
  case (Cons e es)
  obtain x w' where p: "ee_port (en_calls en) e w = (x, w')" by fastforce
  then have "P w'" using Cons.prems by (rule port_keeps)
  then show ?case using Cons.IH [of w'] Cons.prems(1) p by (cases x) simp_all
qed simp

lemma escalate_keeps:
  assumes "run_keeps P en pc" "P w"
  shows "P (snd (maybeEscalate su (ee_port (en_calls en)) ops t fs w))"
proof -
  have "P (snd (perform_all (ee_port (en_calls en)) [CreateTicket (escalation_ticket su ops t fs),
      Escalate (escalation_ticket su ops t fs), UpdateTicket (ss_ticketId su) ''DISPATCHED''] w))" (is "P (snd ?r)")
    by (rule perform_keeps [OF assms])
  then show ?thesis using assms(2)
    by (cases ?r; cases "fst ?r") (simp_all add: maybeEscalate_def Let_def del: perform_all.simps)
qed

lemma seal_keeps:
  assumes "run_keeps P en pc" "P w" "sealTerminal su (ee_port (en_calls en)) ops t n fs pc' b w = (x, w')"
  shows "P w'"
proof -
  obtain y w1 where e: "maybeEscalate su (ee_port (en_calls en)) ops t fs w = (y, w1)" by fastforce
  have w1: "P w1" using escalate_keeps [OF assms(1,2), of su ops t fs] by (simp add: e)
  note port = port_keeps_snd [OF assms(1)]
  show ?thesis
  proof (cases y)
    case (Inr a)
    obtain ticket u where a: "a = (ticket, u)" by (cases a)
    define rec where "rec = \<lparr> sr_sessionId = eo_sessionId ops, sr_verdict = inferVerdict t,
      sr_hash = computeInputHash (ss_runtime su) (eo_task ops) t (eo_sessionId ops) n,
      sr_telemetry = computeTelemetry t fs (eo_intentModel ops) (eo_riskLevel ops), sr_floors = fs,
      sr_irreversible = isIrreversible pc' fs n b, sr_task = eo_task ops, sr_finalText = u,
      sr_turnCount = n, sr_profileName = ss_profileName su, sr_ticket = ticket \<rparr>"
    obtain r w2 where r: "ee_port (en_calls en) (SealRecord rec) w1 = (r, w2)" by fastforce
    have w2: "P w2" using r assms(1) w1 by (rule port_keeps)
    have "sealTerminal su (ee_port (en_calls en)) ops t n fs pc' b w =
        (if \<not> ss_vault su then (Inl no_vault, w)
         else case r of
           None \<Rightarrow> (Inr (u, None), w2)
         | Some err \<Rightarrow>
             if (isIrreversible pc' fs n b \<or> n > 0) \<and> inferVerdict t = SealV
             then (Inr (hold_text err, Some err),
               snd (ee_port (en_calls en) (SealRecord (rec\<lparr>sr_verdict := HoldV, sr_finalText := hold_text err\<rparr>)) w2))
             else (Inr (u, Some err), w2))"
      using e Inr a r unfolding sealTerminal_def rec_def by (simp add: Let_def split: option.split)
    then show ?thesis using assms(2,3) w2 port by (auto split: if_splits option.splits)
  qed (use assms(2,3) w1 e in \<open>auto simp: sealTerminal_def Let_def split: if_splits\<close>)
qed

lemma well_gate_keeps:
  assumes "run_keeps P en pc" "P (es_world s)"
  shows "P (es_world (snd (well_gate en ops s)))"
  using assms
  by (auto simp: well_gate_def Let_def split_beta port_keeps_snd split: option.split)

lemma plan_gate_keeps:
  assumes "run_keeps P en pc" "P (es_world s)"
  shows "P (es_world (snd (plan_gate en ops s)))"
  using assms
  by (auto simp: plan_gate_def split_beta port_keeps_snd split: option.split card_verdict.split)

lemma run_gate_keeps:
  assumes "run_keeps P en pc" "g \<in> set (run_gates en ops)" "P (es_world s)"
  shows "P (es_world (snd (g s)))"
proof -
  have "P (es_world (snd (governance_gate en ops s)))" "P (es_world (snd (ack_gate ops s)))"
    "P (es_world (snd (model_gate en ops s)))"
    using assms(3) by (simp_all add: governance_gate_def ack_gate_def model_gate_def Let_def split_beta)
  moreover have "P (es_world (snd (ticket_gate en ops s)))" "P (es_world (snd (privacy_gate en ops s)))"
    using assms(1,3) by (auto simp: ticket_gate_def privacy_gate_def split_beta port_keeps_snd apex_keeps_snd split: option.split sum.split)
  moreover note well_gate_keeps [OF assms(1,3)] plan_gate_keeps [OF assms(1,3)]
  ultimately show ?thesis using assms(2) unfolding run_gates_def list.set insert_iff empty_iff by metis
qed

lemma first_stop_keeps:
  "(\<And>g s. g \<in> set gs \<Longrightarrow> P (es_world s) \<Longrightarrow> P (es_world (snd (g s)))) \<Longrightarrow> P (es_world s) \<Longrightarrow>
    P (es_world (snd (first_stop gs s)))"
proof (induction gs arbitrary: s)
  case (Cons g gs)
  obtain r s1 where g: "g s = (r, s1)" by fastforce
  then have "P (es_world s1)" using Cons.prems(1) [of g s] Cons.prems(2) by simp
  then show ?case using Cons.IH [of s1] Cons.prems(1) g by (cases r) simp_all
qed simp

lemma run_admission_keeps:
  assumes "run_keeps P en pc" "P (es_world s)" "run_admission en ops s = (x, s')"
  shows "P (es_world s')"
proof -
  have "P (es_world (snd (first_stop (run_gates en ops) s)))"
    by (rule first_stop_keeps) (use assms run_gate_keeps in blast)+
  moreover have "s' = snd (first_stop (run_gates en ops) s)"
    using assms(3) by (auto simp: run_admission_def split: prod.splits option.splits)
  ultimately show ?thesis by simp
qed

lemma ask_model_keeps:
  assumes "run_keeps P en pc" "P (ls_world s)" "ask_model en pc s = (x, s')"
  shows "P (ls_world s')"
proof -
  let ?s = "s\<lparr>ls_turns := ls_turns s + 1\<rparr>"
  obtain y w where r: "route_turn (en_primary en) (en_fallback en) (ls_budget s) (turn_query_of en pc ?s) (ls_world s) = (y, w)"
    by fastforce
  have f: "P (snd (f q v))" if "en_fallback en = Some f" "P v" for f q v
    using assms(1) that by (simp add: run_keeps_def)
  have "P (snd (route_turn (en_primary en) (en_fallback en) m q (ls_world s)))" for m q
    using assms(1,2) f by (auto simp: route_turn_def run_keeps_def split: option.split)
  from this [of "ls_budget s" "turn_query_of en pc ?s"] have "P w" unfolding r by simp
  then show ?thesis using assms(2,3) r
    by (cases y) (auto simp: ask_model_def Let_def split: option.splits)
qed

lemma after_calls_keeps:
  assumes "run_keeps P en pc" "P (ls_world s)"
  shows "P (ls_world (snd (after_calls en cs s)))"
proof -
  obtain a w where c: "en_continue en (stress_of cs s) (ls_world s) = (a, w)" by fastforce
  have "P (snd (en_continue en (stress_of cs s) (ls_world s)))" using assms by (simp add: run_keeps_def)
  then have "P w" by (simp add: c)
  moreover have "P (remember_results en ms w)" for ms
    unfolding remember_results_def using assms(1) \<open>P w\<close> by (rule perform_keeps)
  ultimately show ?thesis by (simp add: after_calls_def c Let_def split_beta)
qed

lemma act_on_keeps:
  assumes "run_keeps P en pc" "P (ls_world s)"
  shows "P (ls_world (snd (act_on en ops pc k r s)))"
proof (cases "tu_toolCalls r = []")
  case False
  let ?s = "count_calls en (tu_toolCalls r) s"
  have s: "P (ls_world ?s)" using assms by (simp add: count_calls_def port_keeps_snd)
  obtain err cs where e: "executeToolCalls (en_calls en) (eo_nodes ops) pc k (tu_toolCalls r) (ls_world ?s)
      (ls_degraded ?s) (ls_memory ?s) (ls_floors ?s) = (err, cs)" by fastforce
  have "calls_keep P (en_calls en) pc" using assms(1) by (simp add: run_keeps_def)
  from calls_keep_world [OF this s, of "eo_nodes ops" k "tu_toolCalls r" "ls_degraded ?s" "ls_memory ?s" "ls_floors ?s"]
  have cs: "P (cs_world cs)" by (simp add: e)
  show ?thesis
    using False s cs after_calls_keeps [OF assms(1), of "?s\<lparr> ls_world := cs_world cs, ls_degraded := cs_degraded cs,
      ls_memory := cs_memory cs, ls_floors := cs_floors cs \<rparr>" cs] e
    by (simp add: act_on_def Let_def split: option.split)
qed (use assms in \<open>simp add: act_on_def\<close>)

lemma run_loop_keeps:
  assumes "run_keeps P en pc"
  shows "P (ls_world s) \<Longrightarrow> P (ls_world (snd (run_loop n en ops pc k s)))"
proof (induction n arbitrary: s)
  case (Suc n)
  obtain x s1 where a: "ask_model en pc s = (x, s1)" by fastforce
  have s1: "P (ls_world s1)" using ask_model_keeps [OF assms Suc.prems a] .
  show ?case
  proof (cases x)
    case (Inr r)
    obtain y s2 where b: "act_on en ops pc k r s1 = (y, s2)" by fastforce
    have "P (ls_world s2)" using act_on_keeps [OF assms s1, of ops k r] by (simp add: b)
    then show ?thesis using Suc.IH [of s2] a b Inr by (cases y) (simp_all add: run_turn_def)
  qed (use a s1 in \<open>simp add: run_turn_def\<close>)
qed simp

lemma organs_keep:
  assumes "run_keeps P en pc" "P (es_world s)"
  shows "P (es_world (snd (load_scenarios en r s)))" "P (es_world (snd (allocate_wealth en r s)))"
proof -
  have sc: "P (snd (en_scenarios en w))" and al: "P (snd (en_allocate en xs w))" if "P w" for xs w
    using assms(1) that by (simp_all add: run_keeps_def)
  show "P (es_world (snd (load_scenarios en r s)))"
    using assms(2) sc [OF assms(2)] by (simp add: load_scenarios_def split_beta split: sum.split)
  obtain xs w where x: "(if es_scenarios s \<noteq> [] then (Inr (es_scenarios s), es_world s) else en_scenarios en (es_world s)) = (xs, w)"
    by fastforce
  have w: "P w" using x assms(2) sc [OF assms(2)] by (auto split: if_splits)
  show "P (es_world (snd (allocate_wealth en r s)))"
    unfolding allocate_wealth_def x using assms(2) w al [OF w]
    by (simp add: Let_def split_beta split: sum.split option.split)
qed

lemma held_run_keeps:
  assumes "run_keeps P en pc" "P (ls_world ls)"
  shows "P (es_world (snd (held_run en ops pc' f t ls s)))"
proof -
  obtain x w where t: "sealTerminal (en_seal en) (ee_port (en_calls en)) ops t (ls_turns ls) (ls_floors ls @ [f]) pc'
      (ls_blocked ls) (ls_world ls) = (x, w)" by fastforce
  from seal_keeps [OF assms this] show ?thesis by (cases x) (auto simp: held_run_def t)
qed

lemma seal_run_keeps:
  assumes "run_keeps P en pc" "P (es_world s)"
  shows "P (es_world (snd (seal_run en ops tx pc' fs r n s)))"
proof -
  obtain x w where t: "sealTerminal (en_seal en) (ee_port (en_calls en)) ops (rr_finalText r) n fs pc' (rr_blockedDangerous r)
      (es_world s) = (x, w)" by fastforce
  have w: "P w" using seal_keeps [OF assms t] .
  note port = port_keeps_snd [OF assms(1)]
  show ?thesis using port [OF w] port [OF port [OF w]] w
    by (cases x) (auto simp: seal_run_def t Let_def split_beta split: option.split)
qed

lemma conclude_keeps:
  assumes "run_keeps P en pc" "P (ls_world ls)"
  shows "P (es_world (snd (conclude en ops tx pc' e t scores ls s)))"
proof -
  note port = port_keeps_snd [OF assms]
  show ?thesis using port seal_run_keeps [OF assms(1)]
    by (simp add: conclude_def Let_def split_beta split: option.split)
qed

lemma kernel_keeps:
  assumes "run_keeps P en pc" "P w"
  shows "P (snd (kernel_refuses en f asked w))"
  using assms(2) apex_keeps_snd [OF assms, of f] by (simp add: kernel_refuses_def split_beta split: sum.split)

lemma finish_keeps:
  assumes "run_keeps P en pc" "P (ls_world ls)"
  shows "P (es_world (snd (finish_run en ops tx pc' e ls s)))"
proof -
  let ?w = "remember_end en (end_text e) (ls_world ls)"
  have w: "P ?w" unfolding remember_end_def using assms by (rule port_keeps_snd)
  obtain x w1 where k: "kernel_refuses en ''F2'' (adviseTruth (end_text e) (ls_toolCalls ls) = ROUTE_TO_KERNEL) ?w = (x, w1)"
    by fastforce
  have w1: "P w1" using kernel_keeps [OF assms(1) w] k by (metis snd_conv)
  obtain y w2 where l: "kernel_refuses en ''F12'' (adviseStewardship (ls_turns ls) (ls_toolCalls ls)
      (of_int (ab_maxTurns (pf_budget (en_profile en)))) (ls_blockedCommands ls) (erred e) = ROUTE_TO_KERNEL) w1 = (y, w2)"
    by fastforce
  have w2: "P w2" using kernel_keeps [OF assms(1) w1] l by (metis snd_conv)
  show ?thesis
    by (simp add: finish_run_def Let_def k l w1 w2 held_run_keeps [OF assms(1)] conclude_keeps [OF assms(1)] split: sum.split)
qed

lemma agent_run_keeps:
  assumes "run_keeps P en ((permission_of en ops)\<lparr>pc_humanOverride := human_override en ops\<rparr>)" "P (es_world s)"
  shows "P (es_world (snd (agent_run en ops tx s)))"
proof -
  obtain x s1 where a: "run_admission en ops s = (x, s1)" by fastforce
  have s1: "P (es_world s1)" by (rule run_admission_keeps [OF assms a])
  show ?thesis
  proof (cases x)
    case (Inl y)
    show ?thesis
    proof (cases y)
      case (RefusedSealed t f fs)
      obtain z w where z: "sealTerminal (en_seal en) (ee_port (en_calls en)) ops t 0 fs
          ((permission_of en ops)\<lparr>pc_humanOverride := f = ''F10'' \<and> human_override en ops\<rparr>) 1 (es_world s1) = (z, w)"
        by fastforce
      from seal_keeps [OF assms(1) s1 z] show ?thesis
        using a Inl RefusedSealed z by (cases z) (auto simp: agent_run_def refused_run_def)
    qed (use a Inl s1 in \<open>simp_all add: agent_run_def refused_run_def\<close>)
  next
    case (Inr pc)
    then have pc: "run_keeps P en pc" using assms(1) admitted_open [of en ops s pc] a by simp
    let ?r = "routeIntent (ee_runtime (en_calls en)) (eo_task ops)"
    obtain z s2 where z: "load_scenarios en ?r s1 = (z, s2)" by fastforce
    have s2: "P (es_world s2)" using organs_keep(1) [OF pc s1, of ?r] z by simp
    obtain b s3 where b: "allocate_wealth en ?r s2 = (b, s3)" by fastforce
    have s3: "P (es_world s3)" using organs_keep(2) [OF pc s2, of ?r] b by simp
    have st: "P (ls_world (start_loop en ops s3 b))" using s3 by (simp add: start_loop_def Let_def)
    show ?thesis
    proof (cases z)
      case None
      have "P (es_world (snd (finish_run en ops tx pc (fst l) (snd l)
          (s3\<lparr>es_world := ls_world (snd l), es_degraded := ls_degraded (snd l)\<rparr>))))"
        if "l = run_loop n en ops pc k (start_loop en ops s3 b)" for l n k
        by (rule finish_keeps [OF pc]) (simp add: that run_loop_keeps [OF pc st])
      then show ?thesis using a Inr z None b by (simp add: agent_run_def admitted_run_def Let_def split_beta)
    qed (use a Inr z s2 in \<open>simp add: agent_run_def admitted_run_def\<close>)
  qed
qed

text \<open>
  A condition under which no dangerous tool may run: the run is not in the internal mode, the flag is off, or the risk
  is high or critical and the tickets are those of the repository's store.\<close>

definition dangerous_tools_locked :: "'w engine \<Rightarrow> run_options \<Rightarrow> bool" where
  "dangerous_tools_locked en ops \<longleftrightarrow>
     ee_mode (en_calls en) \<noteq> InternalMode \<or> \<not> en_dangerous en \<or>
     (risky (run_risk ops) \<and> en_tickets en = constitution_ticket)"

lemma locked_may_run:
  assumes "dangerous_tools_locked en ops"
    "may_run (en_calls en) ((permission_of en ops)\<lparr>pc_humanOverride := human_override en ops\<rparr>) name t"
  shows "td_riskLevel t \<noteq> DangerousTool \<and> name \<noteq> ''run_command''"
proof -
  have "human_override en ops = False" if "en_tickets en = constitution_ticket"
    using that by (simp add: human_override_def override_status_def constitution_ticket_def)
  then show ?thesis using assms
    by (auto simp: dangerous_tools_locked_def may_run_def isPermitted_def permission_of_def forced_hold_def risky_def)
qed

section \<open>A small engine\<close>

text \<open>The world counts the runs of the tool; the model asks for it in its first answer.\<close>

definition plain_answer :: "string \<Rightarrow> tool_call list \<Rightarrow> tool_call turn_response" where
  "plain_answer t calls = \<lparr> tu_content = t, tu_toolCalls = calls, tu_inputTokens = 10, tu_outputTokens = 10, tu_responseId = None \<rparr>"

definition counter_env :: "nat engine_env" where
  "counter_env = \<lparr> ee_runtime = plain_runtime, ee_mode = InternalMode, ee_policy = None,
     ee_registry = [(''t'', counter_tool DangerousTool)], ee_apex = (\<lambda>f w. (Inr None, w)), ee_qqq = (\<lambda>t a w. sabar_reply),
     ee_port = (\<lambda>e w. (None, w)), ee_logsTools = True, ee_stamp = ''now'', ee_say = (\<lambda>f. f) \<rparr>"

definition counter_call :: tool_call where
  "counter_call = \<lparr> cl_id = ''c1'', cl_toolName = ''t'',
     cl_params = JObj [(''assumptions_declared'', JArr [JStr ''none''])] \<rparr>"

definition counter_engine :: "nat engine" where
  "counter_engine = \<lparr> en_profile = \<lparr> pf_name = ''build'', pf_systemPrompt = ''work'', pf_allowedTools = [''t''],
       pf_budget = \<lparr> ab_tokenCeiling = 1000, ab_maxTurns = 3, ab_perTurnTokenLimit = None \<rparr> \<rparr>,
     en_calls = counter_env, en_seal = plain_setup, en_dangerous = True, en_experimental = False,
     en_primary = (\<lambda>q w. (Inr (plain_answer ''use it'' [counter_call]), w)), en_fallback = None, en_openai = False,
     en_pricing = None, en_governance = Some (Some (Some ''SEAL'', None)), en_well = NullBody,
     en_gate_world = plain_world, en_uuid = ''entry'', en_io = True, en_skip = False, en_token = True, en_card = None,
     en_cardRead = Inr None, en_modelGateCrash = False, en_planGateCrash = False, en_tickets = constitution_ticket,
     en_scenarios = (\<lambda>w. (Inr [], w)), en_allocate = (\<lambda>xs w. (None, w)), en_summary = (\<lambda>w. None), en_sacred = None,
     en_continue = (\<lambda>st w. (None, w)) \<rparr>"

definition counter_state :: "nat engine_state" where
  "counter_state = \<lparr> es_world = 0, es_degraded = False, es_cooling = new_cooling_gate Missing, es_gate = new_gate_state,
     es_scenarios = [], es_allocations = [] \<rparr>"

definition plain_texts :: run_texts where
  "plain_texts = \<lparr> rt_genius = (\<lambda>xs. None), rt_align = None, rt_mesa = (\<lambda>r. None) \<rparr>"

theorem gates_stand_before_model_witness:
  "agent_run (with_tools (\<lambda>q w. (Inr (plain_answer ''bye'' []), w)) None [] counter_engine)
      (plain_options\<lparr>eo_riskLevel := Some RiskCritical\<rparr>) plain_texts counter_state =
   agent_run counter_engine (plain_options\<lparr>eo_riskLevel := Some RiskCritical\<rparr>) plain_texts counter_state"
  by (rule gates_stand_before_model)
    (simp add: gates_open_def irreversible_task_def run_risk_def plain_options_def)

text \<open>
  C7. When the mode is external, the flag of dangerous tools is off, or the risk is high or critical and the tickets are
  those of the repository's store, no run executes a dangerous tool or \<^verbatim>\<open>run_command\<close>: every property of the world that
  the models, the organs, the kernel, the engine's own effects and the other tools keep holds after the run, whatever
  these tools would do and whatever the models ask for.\<close>
theorem locked_tools_cannot_act:
  assumes "dangerous_tools_locked en ops" "P (es_world s)"
    and "\<And>f w. P w \<Longrightarrow> P (snd (ee_apex (en_calls en) f w))" "\<And>e w. P w \<Longrightarrow> P (snd (ee_port (en_calls en) e w))"
    and "\<And>q w. P w \<Longrightarrow> P (snd (en_primary en q w))" "\<And>f q w. en_fallback en = Some f \<Longrightarrow> P w \<Longrightarrow> P (snd (f q w))"
    and "\<And>w. P w \<Longrightarrow> P (snd (en_scenarios en w))" "\<And>xs w. P w \<Longrightarrow> P (snd (en_allocate en xs w))"
    and "\<And>st w. P w \<Longrightarrow> P (snd (en_continue en st w))"
    and "\<And>name t params w. (name, t) \<in> set (ee_registry (en_calls en)) \<Longrightarrow> name \<noteq> ''run_command'' \<Longrightarrow>
      td_riskLevel t \<noteq> DangerousTool \<Longrightarrow> P w \<Longrightarrow> P (snd (td_run t params w))"
  shows "P (es_world (snd (agent_run en ops tx s)))"
proof (rule agent_run_keeps)
  let ?pc = "(permission_of en ops)\<lparr>pc_humanOverride := human_override en ops\<rparr>"
  have "P (snd (td_run t params w))"
    if "(name, t) \<in> set (ee_registry (en_calls en))" "may_run (en_calls en) ?pc name t" "P w" for name t params w
    using locked_may_run [OF assms(1) that(2)] by (intro assms(10) [OF that(1)] that(3)) simp_all
  then have "calls_keep P (en_calls en) ?pc" unfolding calls_keep_def by (auto intro: assms(3,4))
  then show "run_keeps P en ?pc" unfolding run_keeps_def by (auto intro: assms(5-9))
qed (rule assms(2))

theorem locked_tools_cannot_act_witness:
  "es_world (snd (agent_run (counter_engine\<lparr>en_dangerous := False\<rparr>) plain_options plain_texts counter_state)) = 0"
  by (rule locked_tools_cannot_act [where P = "\<lambda>w. w = 0" and en = "counter_engine\<lparr>en_dangerous := False\<rparr>"])
    (simp_all add: dangerous_tools_locked_def counter_state_def counter_engine_def counter_env_def counter_tool_def)

text \<open>
  C30. Unless the calls of an answer throw, each of them gets exactly one tool message with its identifier and its name,
  in the order of the calls, whether a floor refused it, the tool failed or it ran.\<close>
theorem every_call_answered:
  assumes "executeToolCalls env nodes pc k cs w dg mem floors = (None, s)"
  shows "map (\<lambda>m. (mg_role m, mg_toolCallId m, mg_toolName m)) (cs_messages s) =
    map (\<lambda>c. (ToolRole, Some (cl_id c), Some (cl_toolName c))) cs"
  using calls_answered [OF assms] by (induction rule: list_all2_induct) (simp_all add: answers_def)

subsection \<open>Runs that read as sealed\<close>

text \<open>A failed seal has a message.\<close>

definition vault_errors_named :: "'w engine \<Rightarrow> bool" where
  "vault_errors_named en \<longleftrightarrow> (\<forall>rec w. fst (ee_port (en_calls en) (SealRecord rec) w) \<noteq> Some [])"

text \<open>\<open>w\<close> is the world after the vault took a record of the text \<open>t\<close> as a seal, with its hash.\<close>

definition recorded_seal :: "'w engine \<Rightarrow> run_options \<Rightarrow> nat \<Rightarrow> string \<Rightarrow> 'w \<Rightarrow> bool" where
  "recorded_seal en ops turns t w \<longleftrightarrow>
     (\<exists>rec w0. ee_port (en_calls en) (SealRecord rec) w0 = (None, w) \<and> sr_verdict rec = SealV \<and> sr_finalText rec = t \<and>
       sr_sessionId rec = eo_sessionId ops \<and>
       sr_hash rec = computeInputHash (ss_runtime (en_seal en)) (eo_task ops) t (eo_sessionId ops) turns)"

text \<open>What follows the record in a run: nothing, or the report and the record of the execution.\<close>

definition after_seal :: "'w engine \<Rightarrow> string \<Rightarrow> 'w \<Rightarrow> 'w \<Rightarrow> bool" where
  "after_seal en t w w' \<longleftrightarrow>
     w' = w \<or> (\<exists>w1 done fs. ee_port (en_calls en) (ReportRun t) w = (None, w1) \<and>
       w' = snd (ee_port (en_calls en) (RecordExecution done fs) w1))"

text \<open>The text of the run is the recorded one, and the note of the mesa detector after it, if there is one.\<close>

definition seal_in_record :: "'w engine \<Rightarrow> run_options \<Rightarrow> run_texts \<Rightarrow> run_result \<Rightarrow> 'w engine_state \<Rightarrow> bool" where
  "seal_in_record en ops tx r s \<longleftrightarrow>
     (\<exists>t w. recorded_seal en ops (rr_turnCount r) t w \<and> after_seal en t w (es_world s) \<and>
       (rr_finalText r = t \<or> (\<exists>r0 note. rt_mesa tx r0 = Some note \<and> rr_finalText r = t @ note)))"

lemma seal_of_prefix: "inferVerdict (t @ u) = SealV \<Longrightarrow> inferVerdict t = SealV"
  by (auto simp: inferVerdict_def intro: starts_with_append split: if_splits)

lemma terminal_recorded:
  assumes "sealTerminal (en_seal en) (ee_port (en_calls en)) ops t turns fs pc b w = (Inr (t', e), w')"
    "turns > 0" "inferVerdict t' = SealV"
  shows "e = None \<and> t' = t \<and> recorded_seal en ops turns t w'"
  using terminal_seal_recorded [OF assms] unfolding recorded_seal_def by blast

lemma terminal_error_named:
  assumes "sealTerminal (en_seal en) (ee_port (en_calls en)) ops t turns fs pc b w = (Inr (t', e), w')" "vault_errors_named en"
  shows "e \<noteq> Some []"
proof -
  have named: "fst (ee_port (en_calls en) (SealRecord rec) w) \<noteq> Some []" for rec w
    using assms(2) by (simp add: vault_errors_named_def)
  show ?thesis using assms(1) named
    by (auto simp: sealTerminal_def Let_def split: if_splits prod.splits sum.splits option.splits) (metis fst_conv)+
qed

lemma held_run_recorded:
  assumes "held_run en ops pc f t ls s = (Inr r, s')" "rr_turnCount r > 0" "inferVerdict (rr_finalText r) = SealV"
  shows "seal_in_record en ops tx r s'"
proof -
  obtain x w where x: "sealTerminal (en_seal en) (ee_port (en_calls en)) ops t (ls_turns ls) (ls_floors ls @ [f]) pc
      (ls_blocked ls) (ls_world ls) = (x, w)" by fastforce
  then obtain t' e where xe: "x = Inr (t', e)" using assms(1) by (cases x) (auto simp: held_run_def)
  have r: "rr_finalText r = t'" "rr_turnCount r = ls_turns ls" "es_world s' = w"
    using assms(1) by (auto simp: held_run_def x xe refused_result_def)
  show ?thesis using terminal_recorded [OF x [unfolded xe]] assms(2,3) r
    unfolding seal_in_record_def after_seal_def by metis
qed

lemma seal_run_recorded:
  assumes "seal_run en ops tx pc fs r0 turns s = (Inr r, s')" "vault_errors_named en" "rr_turnCount r0 = turns"
    and "rr_turnCount r > 0" "inferVerdict (rr_finalText r) = SealV"
  shows "seal_in_record en ops tx r s'"
proof -
  obtain x w where x: "sealTerminal (en_seal en) (ee_port (en_calls en)) ops (rr_finalText r0) turns fs pc
      (rr_blockedDangerous r0) (es_world s) = (x, w)" by fastforce
  then obtain t' e where xe: "x = Inr (t', e)" using assms(1) by (cases x) (auto simp: seal_run_def)
  define r1 where "r1 = (if \<not> falsy e \<and> t' \<noteq> rr_finalText r0
      then r0\<lparr>rr_finalText := t', rr_completion := False, rr_errorMessage := e\<rparr> else r0)"
  obtain m w1 where m: "ee_port (en_calls en) (ReportRun (rr_finalText r1)) w = (m, w1)" by fastforce
  have m0: "m = None" and r: "r = (case rt_mesa tx r1 of None \<Rightarrow> r1 | Some note \<Rightarrow> r1\<lparr>rr_finalText := rr_finalText r1 @ note\<rparr>)"
    and s': "es_world s' = snd (ee_port (en_calls en) (RecordExecution (rr_completion r1) fs) w1)"
    using assms(1) by (auto simp: seal_run_def x xe r1_def [symmetric] Let_def m split: option.splits)
  have turns: "rr_turnCount r = turns" using assms(3) r by (simp add: r1_def split: option.split)
  have shown: "rr_finalText r = rr_finalText r1 \<or> (\<exists>note. rt_mesa tx r1 = Some note \<and> rr_finalText r = rr_finalText r1 @ note)"
    using r by (simp split: option.splits)
  then have sealed: "inferVerdict (rr_finalText r1) = SealV" using assms(5) seal_of_prefix by metis
  have same: "t' = rr_finalText r1"
  proof (rule ccontr)
    assume differs: "t' \<noteq> rr_finalText r1"
    then have r1: "r1 = r0" "falsy e" "t' \<noteq> rr_finalText r0" by (auto simp: r1_def split: if_splits)
    then have "e = None" using terminal_error_named [OF x [unfolded xe] assms(2)] by (auto simp: falsy_def split: option.splits)
    with x xe r1 sealed show False
      using unescalated_seal [of "en_seal en" "ee_port (en_calls en)" ops "rr_finalText r0" turns fs pc "rr_blockedDangerous r0"
          "es_world s" t' w] by simp
  qed
  then have "recorded_seal en ops turns (rr_finalText r1) w"
    using terminal_recorded [OF x [unfolded xe]] sealed turns assms(4) by metis
  moreover have "after_seal en (rr_finalText r1) w (es_world s')"
    unfolding after_seal_def using m m0 s' by blast
  ultimately show ?thesis unfolding seal_in_record_def turns using shown by blast
qed

lemma finish_recorded:
  assumes "finish_run en ops tx pc e ls s = (Inr r, s')" "vault_errors_named en" "rr_turnCount r > 0"
    "inferVerdict (rr_finalText r) = SealV"
  shows "seal_in_record en ops tx r s'"
proof -
  have conclude: "seal_in_record en ops tx r s'" if "conclude en ops tx pc e t scores l s = (Inr r, s')" for t scores l
  proof -
    define u where "u = t @ (case rt_genius tx scores of None \<Rightarrow> [] | Some g \<Rightarrow> section_break @ g)"
    obtain m w where p: "ee_port (en_calls en) (StoreSession u (extractKeywords (eo_task ops) u)) (ls_world l) = (m, w)" by fastforce
    obtain v more where a: "align_note tx u = (v, more)" by fastforce
    have turns: "rr_turnCount (run_metrics en ops e u l) = ls_turns l" by (simp add: run_metrics_def Let_def)
    have run: "seal_run en ops tx pc (ls_floors l @ more) ((run_metrics en ops e u l)\<lparr>rr_finalText := u @ v\<rparr>) (ls_turns l)
        (s\<lparr>es_world := w\<rparr>) = (Inr r, s')"
      using that by (simp add: conclude_def Let_def u_def [symmetric] p a split: option.splits)
    show ?thesis by (rule seal_run_recorded [OF run assms(2) _ assms(3,4)]) (simp add: turns)
  qed
  show ?thesis using assms(1) conclude held_run_recorded [OF _ assms(3,4)]
    by (auto simp: finish_run_def Let_def split: prod.splits sum.splits if_splits)
qed

text \<open>
  C18. A run that took a turn and whose text reads as a seal is in the vault: the vault accepted a record with the
  verdict SEAL, the session of the run, a text and the hash of the task, this text, the session and the number of turns; and the
  text of the run is this text, with at most the note of the mesa detector after it, which is appended when the run has
  been sealed and reported and is in no record. After the record the run only reports and records its execution. Assumed is
  that a failing vault gives a message: the engine takes an empty one for success and keeps the text.\<close>
theorem no_unrecorded_seal:
  assumes "agent_run en ops tx s = (Inr r, s')" and "vault_errors_named en"
    and "rr_turnCount r > 0" and "inferVerdict (rr_finalText r) = SealV"
  shows "\<exists>rec w0 w. ee_port (en_calls en) (SealRecord rec) w0 = (None, w) \<and> sr_verdict rec = SealV \<and>
    sr_sessionId rec = eo_sessionId ops \<and>
    sr_hash rec = computeInputHash (ss_runtime (en_seal en)) (eo_task ops) (sr_finalText rec) (eo_sessionId ops) (rr_turnCount r) \<and>
    (rr_finalText r = sr_finalText rec \<or>
     (\<exists>r0 note. rt_mesa tx r0 = Some note \<and> rr_finalText r = sr_finalText rec @ note)) \<and>
    after_seal en (sr_finalText rec) w (es_world s')"
proof -
  obtain x s1 where x: "run_admission en ops s = (x, s1)" by fastforce
  have "\<exists>pc e ls s2. finish_run en ops tx pc e ls s2 = (Inr r, s')"
  proof (cases x)
    case (Inl y)
    then have "refused_run en ops y s1 = (Inr r, s')" using assms(1) by (simp add: agent_run_def x)
    then have "rr_turnCount r = 0"
      by (auto simp: refused_run_def refused_result_def split: stop.splits prod.splits sum.splits)
    then show ?thesis using assms(3) by simp
  next
    case (Inr pc)
    then have "admitted_run en ops tx pc s1 = (Inr r, s')" using assms(1) by (simp add: agent_run_def x)
    then show ?thesis by (auto simp: admitted_run_def Let_def split: prod.splits option.splits)
  qed
  then have "seal_in_record en ops tx r s'" using finish_recorded assms(2-4) by blast
  then show ?thesis unfolding seal_in_record_def recorded_seal_def by blast
qed

text \<open>
  A turn that starts with 95 percent of the budget spent calls no model and changes nothing in the world, and the run
  ends with the refusal of the router as its answer: it counts as complete, and whatever is appended to its text, the
  verdict in the vault is SEAL.\<close>
theorem spent_budget_reads_as_seal:
  assumes "bm_total (ls_budget s) \<le> ab_tokenCeiling (bm_budget (ls_budget s))" "usagePercent (ls_budget s) \<ge> dbl (95 / 100)"
  shows "let r = run_turn en ops pc k s; t = tu_content (budget_refusal :: tool_call turn_response) in
    fst r = Some (Answered t) \<and> ls_world (snd r) = ls_world s \<and> bm_total (ls_budget (snd r)) = bm_total (ls_budget s) \<and>
    rr_completion (run_metrics en ops (Answered t) (t @ u) ls) \<and> inferVerdict (t @ u) = SealV"
proof -
  have "assertWithinBudget (ls_budget s) = None" "assertWithinBudget (addUsage 0 0 (ls_budget s)) = None"
    using assms(1) by (simp_all add: assertWithinBudget_def)
  then show ?thesis using assms(2)
    by (simp add: run_turn_def ask_model_def route_turn_def budget_refusal_def act_on_def Let_def run_metrics_def erred_def
        end_error_def inferVerdict_def)
qed

section \<open>A run that is answered at once\<close>

definition bye_engine :: "nat engine" where
  "bye_engine = counter_engine\<lparr>en_primary := (\<lambda>q w. (Inr (plain_answer ''bye'' []), w))\<rparr>"
definition bye_options :: run_options where
  "bye_options = plain_options\<lparr>eo_task := ''go''\<rparr>"
lemma bye_scores:
  "scoreKeywordMatch ''go'' GEOX_KEYWORDS = []" "scoreKeywordMatch ''go'' WEALTH_KEYWORDS = []"
  by (simp_all add: scoreKeywordMatch_def GEOX_KEYWORDS_def WEALTH_KEYWORDS_def to_lower_def lower_char_def)

lemma bye_organs: "\<not> asks_organ (routeIntent rt ''go'') DomainGeox" "\<not> asks_organ (routeIntent rt ''go'') DomainWealth"
  by (simp_all add: asks_organ_def routeIntent_def bye_scores primary_organ_def secondary_organs_def Let_def)

lemma bye_advice:
  "fst (advisePrivacy ''go'') = PROCEED_A" "adviseTruth ''bye'' 0 = PROCEED_A" "adviseStewardship 1 0 3 0 False = PROCEED_A"
  by code_simp+

lemma bye_admitted:
  "run_admission bye_engine bye_options counter_state =
     (Inr ((permission_of bye_engine bye_options)\<lparr>pc_humanOverride := False\<rparr>), counter_state)"
  by (simp add: run_admission_def run_gates_def governance_gate_def governance_result_def http_governance_def ack_gate_def
      irreversible_task_def well_gate_def requires_well_def risky_def run_risk_def run_intent_def model_gate_def plan_gate_def
      ticket_gate_def override_status_def human_override_def privacy_gate_def bye_advice bye_engine_def bye_options_def
      counter_engine_def plain_options_def Let_def)

lemma bye_usage: "dbl (95 / 100) > 0" "dbl (8 / 10) > 0"
  using dbl_pos_bounds by code_simp+

lemma bye_loop:
  "\<exists>ls. run_loop 3 bye_engine bye_options pc k (start_loop bye_engine bye_options counter_state b) = (Answered ''bye'', ls) \<and>
     ls_turns ls = 1 \<and> bm_total (ls_budget ls) = 20 \<and> ls_toolCalls ls = 0 \<and> ls_blockedCommands ls = 0"
proof -
  have "\<not> dbl (95 / 100) \<le> 0" "\<not> dbl (8 / 10) \<le> 0" using bye_usage by linarith+
  then show ?thesis
  by (simp add: numeral_eq_Suc run_turn_def ask_model_def start_loop_def Let_def assertWithinBudget_def new_budget_manager_def
     bye_engine_def counter_engine_def route_turn_def usagePercent_def plain_answer_def act_on_def dbl_div_def addUsage_def)
qed

lemma plain_vault: "ss_vault plain_setup"
  by (simp add: plain_setup_def)

lemma bye_finish:
  assumes "ls_turns ls = 1" "ls_toolCalls ls = 0" "ls_blockedCommands ls = 0"
  shows "\<exists>r. fst (finish_run bye_engine bye_options plain_texts pc (Answered ''bye'') ls s) = Inr r \<and>
    rr_turnCount r = 1 \<and> rr_finalText r = ''bye''"
proof -
  have "maybeEscalate plain_setup p bye_options ''bye'' fs w = (Inr (None, ''bye''), w)" for p fs and w :: nat
    by (simp add: maybeEscalate_def shouldEscalate_def bye_options_def plain_options_def run_risk_def risky_def)
  then show ?thesis
    by (simp add: finish_run_def end_text_def kernel_refuses_def refuses_def bye_advice bye_advice(3) [unfolded One_nat_def] assms erred_def end_error_def Let_def
        conclude_def plain_texts_def align_note_def seal_run_def sealTerminal_def run_metrics_def bye_engine_def
        counter_engine_def counter_env_def plain_vault)
qed

lemma bye_run:
  "\<exists>r. fst (agent_run bye_engine bye_options plain_texts counter_state) = Inr r \<and> rr_turnCount r = 1 \<and> rr_finalText r = ''bye''"
proof -
  obtain ls where l: "run_loop 3 bye_engine bye_options ((permission_of bye_engine bye_options)\<lparr>pc_humanOverride := False\<rparr>) 0
      (start_loop bye_engine bye_options counter_state False) = (Answered ''bye'', ls)" "ls_turns ls = 1" "ls_toolCalls ls = 0"
      "ls_blockedCommands ls = 0"
    using bye_loop by blast
  have e: "ab_maxTurns (pf_budget (en_profile bye_engine)) = 3" "en_summary bye_engine w = None" "eo_task bye_options = ''go''" for w
    by (simp_all add: bye_engine_def counter_engine_def bye_options_def)
  show ?thesis
    using bye_finish [OF l(2-4)] l(1)
    by (simp add: agent_run_def bye_admitted admitted_run_def load_scenarios_def allocate_wealth_def bye_organs e Let_def)
qed

theorem run_stays_in_budget_witness:
  "\<exists>r. fst (agent_run bye_engine bye_options plain_texts counter_state) = Inr r \<and> rr_turnCount r \<le> 3 \<and> rr_tokens r < 970"
proof -
  obtain r where r: "fst (agent_run bye_engine bye_options plain_texts counter_state) = Inr r" using bye_run by blast
  have w: "answers_within 20 (en_primary bye_engine)" "en_fallback bye_engine = None"
    "ab_tokenCeiling (pf_budget (en_profile bye_engine)) = 1000"
    by (simp_all add: answers_within_def bye_engine_def counter_engine_def plain_answer_def)
  have e: "ab_maxTurns (pf_budget (en_profile bye_engine)) = 3" by (simp add: bye_engine_def counter_engine_def)
  show ?thesis using run_stays_in_budget [OF r w(1)] r e w by simp
qed

theorem no_unrecorded_seal_witness:
  "\<exists>rec w0 w. ee_port (en_calls bye_engine) (SealRecord rec) w0 = (None, w) \<and> sr_verdict rec = SealV \<and> sr_finalText rec = ''bye''"
proof -
  obtain r s where r: "agent_run bye_engine bye_options plain_texts counter_state = (Inr r, s)" "rr_turnCount r = 1"
    "rr_finalText r = ''bye''" using bye_run by (metis prod.collapse)
  have named: "vault_errors_named bye_engine"
    by (simp add: vault_errors_named_def bye_engine_def counter_engine_def counter_env_def)
  have "inferVerdict (rr_finalText r) = SealV" by (simp add: r(3) inferVerdict_def)
  moreover have "rt_mesa plain_texts r0 = None" for r0 by (simp add: plain_texts_def)
  ultimately show ?thesis using no_unrecorded_seal [OF r(1) named] r(2,3) by (metis option.distinct(1) zero_less_one)
qed

theorem every_call_answered_witness:
  "\<exists>s. executeToolCalls counter_env [] no_context 0 [counter_call\<lparr>cl_toolName := ''run_command''\<rparr>] 0 False
      (new_short_memory None None) [] = (None, s) \<and> map mg_toolCallId (cs_messages s) = [Some ''c1'']"
proof -
  let ?c = "counter_call\<lparr>cl_toolName := ''run_command''\<rparr>"
  have "fst (execute_call counter_env [] no_context 0 ?c s) = None" if "cs_first s" for s
    using run_command_void [of "\<lambda>b e. b" "ee_runtime counter_env" "cl_params ?c"] that
    by (auto simp: execute_call_def Let_def checkClarity_def)
  then have "fst (executeToolCalls counter_env [] no_context 0 [?c] 0 False (new_short_memory None None) []) = None"
    by (simp add: executeToolCalls_def split_beta)
  then obtain s where s: "executeToolCalls counter_env [] no_context 0 [?c] 0 False (new_short_memory None None) [] = (None, s)"
    by (metis prod.collapse)
  from every_call_answered [OF s] have "map mg_toolCallId (cs_messages s) = [Some (cl_id ?c)]"
    by (cases "cs_messages s") auto
  then show ?thesis using s by (simp add: counter_call_def)
qed

definition spent_state :: "nat loop_state" where
  "spent_state = (start_loop bye_engine bye_options counter_state False)
     \<lparr>ls_budget := (new_budget_manager \<lparr> ab_tokenCeiling = 100, ab_maxTurns = 3, ab_perTurnTokenLimit = None \<rparr> None)\<lparr>bm_total := 95\<rparr>\<rparr>"

theorem spent_budget_reads_as_seal_witness:
  "ls_world (snd (run_turn bye_engine bye_options no_context 0 spent_state)) = 0"
proof -
  have "bm_total (ls_budget spent_state) \<le> ab_tokenCeiling (bm_budget (ls_budget spent_state))"
    "usagePercent (ls_budget spent_state) \<ge> dbl (95 / 100)"
    by (simp_all add: spent_state_def new_budget_manager_def usagePercent_def dbl_div_def)
  from spent_budget_reads_as_seal [OF this, of bye_engine bye_options no_context 0]
  show ?thesis by (simp add: Let_def spent_state_def start_loop_def counter_state_def)
qed

end
