(* ===== verification/Merkle.thy ===== *)
theory Merkle
  imports Canonical_Json Text_Match
begin

text \<open>
  The two Merkle services. \<^verbatim>\<open>src/src/infrastructure/vault/MerkleV3Service.ts\<close>: the rows of
  the telemetry table of one day get a hash of their contents and the hash of the row before them,
  and the root of the day is stored. \<^verbatim>\<open>src/src/domain/governance/MerkleReceiptAnchor.ts\<close>:
  every hundredth receipt of a log anchors the root of the last hundred lines in a file of roots.
  The database is the list of its rows, a file is the list of its lines; SHA-256 is a field of the runtime. The
  theorems: which sets of hashes have the same root, what the verification of a day accepts, that sealing a
  day again accepts whatever its rows have become, and that an anchored block stays the root of its lines.
\<close>

section \<open>The tree\<close>

fun pair_hashes :: "(string \<Rightarrow> string) \<Rightarrow> string list \<Rightarrow> string list" where
  "pair_hashes h (a # b # xs) = h (a @ b) # pair_hashes h xs"
| "pair_hashes h [a] = [h (a @ a)]"
| "pair_hashes h [] = []"

lemma length_pair_hashes: "length (pair_hashes h xs) = (length xs + 1) div 2"
  by (induction h xs rule: pair_hashes.induct) simp_all

text \<open>Both services pair the hashes of a level; the one over rows sorts each level first.\<close>

definition level :: "bool \<Rightarrow> string list \<Rightarrow> string list" where
  "level sorting xs = (if sorting then sort xs else xs)"

lemma length_level [simp]: "length (level s xs) = length xs"
  by (simp add: level_def)

lemma mset_level [simp]: "mset (level s xs) = mset xs"
  by (simp add: level_def)

lemma half_less: "n \<noteq> 0 \<Longrightarrow> n \<noteq> 1 \<Longrightarrow> (n + 1) div 2 < (n :: nat)"
  by linarith

function merkle_root :: "bool \<Rightarrow> (string \<Rightarrow> string) \<Rightarrow> string \<Rightarrow> string list \<Rightarrow> string" where
  "merkle_root s h e xs =
     (if length xs = 0 then h e else if length xs = 1 then hd xs
      else merkle_root s h e (pair_hashes h (level s xs)))"
  by auto
termination by (relation "measure (\<lambda>(s, h, e, xs). length xs)") (simp_all only: wf_measure in_measure prod.case length_pair_hashes length_level half_less)

declare merkle_root.simps [simp del]

definition rowsMerkleRoot :: "runtime \<Rightarrow> string list \<Rightarrow> string" where
  "rowsMerkleRoot rt = merkle_root True (sha256 rt) ''EMPTY_DAY''"

definition blockMerkleRoot :: "runtime \<Rightarrow> string list \<Rightarrow> string" where
  "blockMerkleRoot rt = merkle_root False (sha256 rt) ''EMPTY_BLOCK''"

subsection \<open>What a root binds\<close>

text \<open>The pairs of a level, and every text a tree hashes.\<close>

fun level_pairs :: "'a list \<Rightarrow> ('a \<times> 'a) list" where
  "level_pairs (a # b # xs) = (a, b) # level_pairs xs"
| "level_pairs [a] = [(a, a)]"
| "level_pairs [] = []"

function hashed_texts :: "bool \<Rightarrow> (string \<Rightarrow> string) \<Rightarrow> string list \<Rightarrow> string set" where
  "hashed_texts s h xs =
     (if length xs \<le> 1 then {}
      else (\<lambda>(a, b). a @ b) ` set (level_pairs (level s xs)) \<union> hashed_texts s h (pair_hashes h (level s xs)))"
  by auto
termination by (relation "measure (\<lambda>(s, h, xs). length xs)") (simp_all add: length_pair_hashes)

declare hashed_texts.simps [simp del]

lemma pair_hashes_conv: "pair_hashes h xs = map (\<lambda>(a, b). h (a @ b)) (level_pairs xs)"
  by (induction h xs rule: pair_hashes.induct) simp_all

lemma merkle_root_step:
  "length xs \<ge> 2 \<Longrightarrow> merkle_root s h e xs = merkle_root s h e (pair_hashes h (level s xs))"
  by (subst merkle_root.simps) auto

text \<open>
  The leaves of a level are those of its pairs, but for the second copy of an unpaired last one.
\<close>

definition unpair :: "('a \<times> 'a) list \<Rightarrow> 'a multiset" where
  "unpair ps = mset (map fst ps) + mset (map snd ps)"

lemma unpair_level:
  "unpair (level_pairs xs) = mset xs + (if odd (length xs) then {# last xs #} else {#})"
  by (induction xs rule: level_pairs.induct) (auto simp: unpair_def)

lemma unpair_mset: "mset ps = mset qs \<Longrightarrow> unpair ps = unpair qs"
  unfolding unpair_def mset_map by simp

lemma last_sorted_max:
  assumes "sorted xs" "xs \<noteq> []"
  shows "last xs = Max (set xs)"
  using assms
proof (induction xs)
  case (Cons x xs)
  show ?case
  proof (cases "xs = []")
    case False
    then have "last xs = Max (set xs)" using Cons by simp
    moreover have "x \<le> last xs" using Cons.prems(1) False by simp
    ultimately show ?thesis using False by (simp add: max_def)
  qed simp
qed simp

lemma set_level_pairs: "p \<in> set (level_pairs xs) \<Longrightarrow> fst p \<in> set xs \<and> snd p \<in> set xs"
  by (induction xs rule: level_pairs.induct) auto

lemma set_unpair: "set_mset (unpair (level_pairs xs)) = set xs"
  unfolding unpair_level by (cases "xs = []") auto

lemma mset_from_pairs:
  assumes "sorted xs" "sorted ys" "length xs = length ys" "unpair (level_pairs xs) = unpair (level_pairs ys)"
  shows "mset xs = mset ys"
proof (cases "odd (length xs)")
  case True
  then have ne: "xs \<noteq> []" "ys \<noteq> []" using assms(3) by auto
  have "set xs = set ys" using assms(4) set_unpair by metis
  then have "last xs = last ys" using last_sorted_max assms(1,2) ne by metis
  then show ?thesis using assms(3,4) True by (simp add: unpair_level)
next
  case False
  then show ?thesis using assms(3,4) by (simp add: unpair_level)
qed

lemma level_pairs_inj:
  "length xs = length ys \<Longrightarrow> level_pairs xs = level_pairs ys \<Longrightarrow> xs = ys"
proof (induction xs arbitrary: ys rule: level_pairs.induct)
  case (1 a b xs)
  then obtain c d zs where "ys = c # d # zs" by (cases ys rule: level_pairs.cases) auto
  with 1 show ?case by auto
next
  case (2 a)
  then show ?case by (cases ys rule: level_pairs.cases) auto
qed simp

definition all_length :: "nat \<Rightarrow> string list \<Rightarrow> bool" where
  "all_length n xs \<longleftrightarrow> (\<forall>x \<in> set xs. length x = n)"

lemma all_length_level [simp]: "all_length n (level s xs) \<longleftrightarrow> all_length n xs"
  by (simp add: all_length_def level_def)

lemma all_length_pairs:
  assumes "all_length n xs" "p \<in> set (level_pairs xs)"
  shows "length (fst p) = n" "length (snd p) = n"
  using assms set_level_pairs [OF assms(2)] by (auto simp: all_length_def)

text \<open>Texts of equal halves that hash alike without a collision have the same halves.\<close>

lemma join_inj:
  assumes "all_length n xs" "all_length n ys"
    and "inj_on h ((\<lambda>(a, b). a @ b) ` set (level_pairs xs) \<union> (\<lambda>(a, b). a @ b) ` set (level_pairs ys))"
  shows "inj_on (\<lambda>(a, b). h (a @ b)) (set (level_pairs xs) \<union> set (level_pairs ys))"
proof (rule inj_onI)
  fix p q
  assume pq: "p \<in> set (level_pairs xs) \<union> set (level_pairs ys)" "q \<in> set (level_pairs xs) \<union> set (level_pairs ys)"
    and eq: "(\<lambda>(a, b). h (a @ b)) p = (\<lambda>(a, b). h (a @ b)) q"
  have len: "length (fst p) = length (fst q)"
    using pq all_length_pairs [OF assms(1), of p] all_length_pairs [OF assms(2), of p]
      all_length_pairs [OF assms(1), of q] all_length_pairs [OF assms(2), of q] by (metis Un_iff)
  have "(\<lambda>(a, b). a @ b) p = (\<lambda>(a, b). a @ b) q"
    using inj_onD [OF assms(3), of "(\<lambda>(a, b). a @ b) p" "(\<lambda>(a, b). a @ b) q"] pq eq
    by (auto simp: split_beta)
  then show "p = q" using len by (simp add: split_beta prod_eq_iff)
qed

lemma all_length_hashes:
  "(\<And>t. length (h t) = n) \<Longrightarrow> all_length n (pair_hashes h xs)"
  by (auto simp: all_length_def pair_hashes_conv)

text \<open>
  Equally many hashes with the same root are the same, up to their order where each level is sorted, unless two of the
  hashed texts collide.
\<close>

lemma same_root_same_leaves:
  assumes "length xs = length ys" "all_length n xs" "all_length n ys" "\<And>t. length (h t) = n"
    and "inj_on h (hashed_texts s h xs \<union> hashed_texts s h ys)"
    and "merkle_root s h e xs = merkle_root s h e ys"
  shows "mset xs = mset ys \<and> (\<not> s \<longrightarrow> xs = ys)"
  using assms
proof (induction "length xs" arbitrary: xs ys rule: less_induct)
  case less
  consider "length xs = 0" | "length xs = 1" | "length xs \<ge> 2" by linarith
  then show ?case
  proof cases
    case 1
    then show ?thesis using less.prems(1) by simp
  next
    case 2
    then show ?thesis using less.prems(1,6)
      by (cases xs; cases ys) (auto simp: merkle_root.simps)
  next
    case 3
    let ?x = "level s xs" and ?y = "level s ys"
    have y: "length ys \<ge> 2" using 3 less.prems(1) by simp
    have hx: "hashed_texts s h xs = (\<lambda>(a, b). a @ b) ` set (level_pairs ?x) \<union> hashed_texts s h (pair_hashes h ?x)"
      using 3 by (subst hashed_texts.simps) simp
    have hy: "hashed_texts s h ys = (\<lambda>(a, b). a @ b) ` set (level_pairs ?y) \<union> hashed_texts s h (pair_hashes h ?y)"
      using y by (subst hashed_texts.simps) simp
    have IH: "mset (pair_hashes h ?x) = mset (pair_hashes h ?y) \<and> (\<not> s \<longrightarrow> pair_hashes h ?x = pair_hashes h ?y)"
    proof (rule less.hyps)
      show "length (pair_hashes h ?x) < length xs" using 3 by (simp add: length_pair_hashes)
      show "inj_on h (hashed_texts s h (pair_hashes h ?x) \<union> hashed_texts s h (pair_hashes h ?y))"
        by (rule inj_on_subset [OF less.prems(5)]) (auto simp: hx hy)
      show "merkle_root s h e (pair_hashes h ?x) = merkle_root s h e (pair_hashes h ?y)"
        using less.prems(6) merkle_root_step [OF 3] merkle_root_step [OF y] by simp
    qed (use less.prems(1,4) in \<open>simp_all add: length_pair_hashes all_length_hashes\<close>)
    have inj: "inj_on (\<lambda>(a, b). h (a @ b)) (set (level_pairs ?x) \<union> set (level_pairs ?y))"
    proof (rule join_inj)
      show "all_length n ?x" "all_length n ?y" using less.prems(2,3) by simp_all
      show "inj_on h ((\<lambda>(a, b). a @ b) ` set (level_pairs ?x) \<union> (\<lambda>(a, b). a @ b) ` set (level_pairs ?y))"
        by (rule inj_on_subset [OF less.prems(5)]) (auto simp: hx hy)
    qed
    have "image_mset (\<lambda>(a, b). h (a @ b)) (mset (level_pairs ?x)) = image_mset (\<lambda>(a, b). h (a @ b)) (mset (level_pairs ?y))"
      using IH by (simp add: pair_hashes_conv)
    then have p: "mset (level_pairs ?x) = mset (level_pairs ?y)"
      using image_mset_eq_image_mset_plusD [of "\<lambda>(a, b). h (a @ b)" "mset (level_pairs ?x)" "mset (level_pairs ?y)" "{#}"]
        inj by auto
    show ?thesis
    proof (cases s)
      case True
      then have "mset ?x = mset ?y"
        using mset_from_pairs [of ?x ?y] unpair_mset [OF p] less.prems(1) by (simp add: level_def)
      then show ?thesis using True by simp
    next
      case False
      then have "map (\<lambda>(a, b). h (a @ b)) (level_pairs xs) = map (\<lambda>(a, b). h (a @ b)) (level_pairs ys)"
        using IH by (simp add: pair_hashes_conv level_def)
      then have "level_pairs xs = level_pairs ys" using inj False
        by (simp add: level_def inj_on_map_eq_map)
      then show ?thesis using level_pairs_inj less.prems(1) by blast
    qed
  qed
qed

text \<open>The root does not tell a list of odd length from the one whose last hash is repeated.\<close>

lemma pair_hashes_repeat:
  "odd (length xs) \<Longrightarrow> pair_hashes h (xs @ [last xs]) = pair_hashes h xs"
  by (induction h xs rule: pair_hashes.induct) (auto split: if_splits)

lemma repeated_leaf_same_root:
  assumes "odd (length xs)" "length xs \<ge> 3" "s \<longrightarrow> sorted xs"
  shows "merkle_root s h e (xs @ [last xs]) = merkle_root s h e xs"
proof -
  have ne: "xs \<noteq> []" using assms(2) by auto
  have "level s (xs @ [last xs]) = level s xs @ [last xs]"
  proof (cases s)
    case True
    then have "sorted xs" using assms(3) by simp
    moreover have "sorted (xs @ [last xs])" using \<open>sorted xs\<close> last_sorted_max [OF \<open>sorted xs\<close> ne]
      by (auto simp: sorted_append)
    ultimately show ?thesis using True by (simp add: level_def sorted_sort_id)
  qed (simp add: level_def)
  moreover have "level s xs = xs" using assms(3) by (auto simp: level_def sorted_sort_id)
  ultimately show ?thesis
    using merkle_root_step [of xs s h e] merkle_root_step [of "xs @ [last xs]" s h e] assms(1,2)
    by (simp add: pair_hashes_repeat)
qed

section \<open>The rows of a day\<close>

record utc_time =
  ut_year :: nat
  ut_month :: nat
  ut_day :: nat
  ut_hours :: nat
  ut_minutes :: nat
  ut_seconds :: nat
  ut_millis :: nat

record telemetry_row =
  tr_id :: nat
  tr_date :: string                   \<comment> \<open>DATE(epoch)\<close>
  tr_epoch :: utc_time
  tr_epoch_text :: "string option"
  tr_session_id :: "string option"
  tr_agent_id :: "string option"
  tr_ds :: "rat option"
  tr_peace2 :: "rat option"
  tr_kappa_r :: "rat option"
  tr_shadow :: "rat option"
  tr_confidence :: "rat option"
  tr_psi_le :: "rat option"
  tr_verdict :: string
  tr_witness_human :: "rat option"
  tr_witness_ai :: "rat option"
  tr_witness_earth :: "rat option"
  tr_qdf :: "rat option"
  tr_prev_hash :: "string option"
  tr_row_hash :: "string option"

definition epoch_text_of :: "runtime \<Rightarrow> utc_time \<Rightarrow> string" where
  "epoch_text_of rt d =
     (let dec = \<lambda>n :: nat. number_text rt (of_nat n);
          two = \<lambda>n. pad_start 2 CHR ''0'' (dec n);
          us = (if ut_millis d < 1000 then pad_start 3 CHR ''0'' (dec (ut_millis d)) @ ''000'' else dec (ut_millis d) @ ''000'') in
      dec (ut_year d) @ ''-'' @ two (ut_month d) @ ''-'' @ two (ut_day d) @ '' '' @ two (ut_hours d) @ '':'' @
      two (ut_minutes d) @ '':'' @ two (ut_seconds d) @ ''.'' @ take 6 us @ ''+00'')"

definition opt_text :: "string option \<Rightarrow> string" where
  "opt_text s = (case s of None \<Rightarrow> '''' | Some t \<Rightarrow> t)"

definition opt_number :: "runtime \<Rightarrow> rat option \<Rightarrow> string" where
  "opt_number rt q = (case q of None \<Rightarrow> '''' | Some x \<Rightarrow> number_text rt x)"

definition row_fields :: "runtime \<Rightarrow> telemetry_row \<Rightarrow> string list" where
  "row_fields rt r =
       [number_text rt (of_nat (tr_id r)),
        (case tr_epoch_text r of None \<Rightarrow> epoch_text_of rt (tr_epoch r) | Some t \<Rightarrow> t),
        opt_text (tr_session_id r), opt_text (tr_agent_id r), opt_number rt (tr_ds r), opt_number rt (tr_peace2 r),
        opt_number rt (tr_kappa_r r), opt_number rt (tr_shadow r), opt_number rt (tr_confidence r),
        opt_number rt (tr_psi_le r), tr_verdict r, opt_number rt (tr_witness_human r), opt_number rt (tr_witness_ai r),
        opt_number rt (tr_witness_earth r), opt_number rt (tr_qdf r)]"

definition row_content :: "runtime \<Rightarrow> telemetry_row \<Rightarrow> string" where
  "row_content rt r = join_with ''|'' (row_fields rt r)"

definition computeRowHash :: "runtime \<Rightarrow> telemetry_row \<Rightarrow> string" where
  "computeRowHash rt r = sha256 rt (row_content rt r)"

text \<open>The two tables; \<open>mdb_roots\<close> has the row count and the root of a date.\<close>

record merkle_db =
  mdb_rows :: "telemetry_row list"
  mdb_roots :: "(string, nat \<times> string) jsmap"

definition loadRowsForDate :: "merkle_db \<Rightarrow> string \<Rightarrow> telemetry_row list" where
  "loadRowsForDate db date = sort_key tr_id (filter (\<lambda>r. tr_date r = date) (mdb_rows db))"

subsection \<open>Building the chain\<close>

definition update_row :: "nat \<Rightarrow> string \<Rightarrow> string \<Rightarrow> merkle_db \<Rightarrow> merkle_db" where
  "update_row i rowHash prevHash db =
     db\<lparr>mdb_rows := map (\<lambda>r. if tr_id r = i \<and> (tr_row_hash r = None \<or> tr_prev_hash r = None)
        then r\<lparr>tr_row_hash := Some rowHash, tr_prev_hash := Some prevHash\<rparr> else r) (mdb_rows db)\<rparr>"

definition stored_or_computed :: "runtime \<Rightarrow> telemetry_row \<Rightarrow> string" where
  "stored_or_computed rt r = (case tr_row_hash r of None \<Rightarrow> computeRowHash rt r | Some x \<Rightarrow> x)"

text \<open>\<open>before\<close> is the row before in the rows as they were loaded, \<^term>\<open>None\<close> for the first.\<close>

fun build_from :: "runtime \<Rightarrow> telemetry_row option \<Rightarrow> telemetry_row list \<Rightarrow> merkle_db \<Rightarrow> merkle_db" where
  "build_from rt before [] db = db"
| "build_from rt before (r # rs) db =
     (let c = computeRowHash rt r;
          prev = (case before of None \<Rightarrow> c | Some b \<Rightarrow> stored_or_computed rt b) in
      build_from rt (Some r) rs (update_row (tr_id r) c prev db))"

definition buildChainForDate :: "runtime \<Rightarrow> string \<Rightarrow> merkle_db \<Rightarrow> nat \<times> merkle_db" where
  "buildChainForDate rt date db =
     (let rows = loadRowsForDate db date in (length rows, build_from rt None rows db))"

subsection \<open>Anchoring and verifying\<close>

definition computeAndAnchorRoot :: "runtime \<Rightarrow> string \<Rightarrow> merkle_db \<Rightarrow> (string + string) \<times> merkle_db" where
  "computeAndAnchorRoot rt date db =
     (let hs = List.map_filter tr_row_hash (loadRowsForDate db date) in
      if hs = [] then (Inl (''No hashed rows for '' @ date), db)
      else (let r = rowsMerkleRoot rt hs in
            (Inr r, db\<lparr>mdb_roots := m_set date (length hs, r) (mdb_roots db)\<rparr>)))"

datatype chain_fault = NoRows | RowHashMismatch nat | FirstPrevHash nat | PrevHashMismatch nat | RootMismatch

record merkle_verification =
  mv_fault :: "chain_fault option"      \<comment> \<open>valid when None; brokenAt is its argument\<close>
  mv_storedRoot :: "string option"
  mv_computedRoot :: "string option"
  mv_rowCount :: nat

fun row_fault :: "runtime \<Rightarrow> telemetry_row option \<Rightarrow> telemetry_row list \<Rightarrow> chain_fault option" where
  "row_fault rt before [] = None"
| "row_fault rt before (r # rs) =
     (if tr_row_hash r = None \<or> tr_row_hash r \<noteq> Some (computeRowHash rt r) then Some (RowHashMismatch (tr_id r))
      else (case before of
          None \<Rightarrow> if tr_prev_hash r \<noteq> tr_row_hash r then Some (FirstPrevHash (tr_id r)) else row_fault rt (Some r) rs
        | Some b \<Rightarrow> if tr_prev_hash r \<noteq> tr_row_hash b then Some (PrevHashMismatch (tr_id r)) else row_fault rt (Some r) rs))"

definition verifyChain :: "runtime \<Rightarrow> string \<Rightarrow> merkle_db \<Rightarrow> merkle_verification" where
  "verifyChain rt date db =
     (let rows = loadRowsForDate db date; n = length rows in
      if rows = [] then \<lparr> mv_fault = Some NoRows, mv_storedRoot = None, mv_computedRoot = None, mv_rowCount = 0 \<rparr>
      else (let stored = map_option snd (m_get (mdb_roots db) date) in
        case row_fault rt None rows of
          Some f \<Rightarrow> \<lparr> mv_fault = Some f, mv_storedRoot = stored, mv_computedRoot = None, mv_rowCount = n \<rparr>
        | None \<Rightarrow> (let computed = rowsMerkleRoot rt (map (\<lambda>r. opt_text (tr_row_hash r)) rows) in
            if \<not> falsy stored \<and> stored \<noteq> Some computed
            then \<lparr> mv_fault = Some RootMismatch, mv_storedRoot = stored, mv_computedRoot = Some computed, mv_rowCount = n \<rparr>
            else \<lparr> mv_fault = None, mv_storedRoot = stored, mv_computedRoot = Some computed, mv_rowCount = n \<rparr>)))"

definition dailySeal :: "runtime \<Rightarrow> string \<Rightarrow> merkle_db \<Rightarrow> (string + merkle_verification) \<times> merkle_db" where
  "dailySeal rt date db =
     (let db1 = snd (buildChainForDate rt date db) in
      case computeAndAnchorRoot rt date db1 of
        (Inl e, db2) \<Rightarrow> (Inl e, db2)
      | (Inr _, db2) \<Rightarrow> (Inr (verifyChain rt date db2), db2))"

subsection \<open>What the verification of a day accepts\<close>

lemma hash_ignores_links [simp]:
  "computeRowHash rt (r\<lparr>tr_row_hash := a, tr_prev_hash := b\<rparr>) = computeRowHash rt r"
  by (simp add: computeRowHash_def row_content_def row_fields_def cong: option.case_cong)

lemma row_fault_iff:
  "row_fault rt (Some b) rows = None \<longleftrightarrow>
    map tr_row_hash rows = map (\<lambda>r. Some (computeRowHash rt r)) rows
    \<and> map tr_prev_hash rows = butlast (tr_row_hash b # map tr_row_hash rows)"
  by (induction rows arbitrary: b) auto

lemma verifies_iff:
  "mv_fault (verifyChain rt date db) = None \<longleftrightarrow>
   (let rows = loadRowsForDate db date; hs = map (computeRowHash rt) rows;
        stored = map_option snd (m_get (mdb_roots db) date) in
    rows \<noteq> [] \<and> map tr_row_hash rows = map Some hs \<and> map tr_prev_hash rows = map Some (hd hs # butlast hs)
    \<and> (stored \<in> {None, Some '''', Some (rowsMerkleRoot rt hs)}))"
proof (cases "loadRowsForDate db date")
  case Nil
  then show ?thesis by (simp add: verifyChain_def)
next
  case (Cons r rs)
  define rows where "rows = r # rs"
  define hs where "hs = map (computeRowHash rt) rows"
  define stored where "stored = map_option snd (m_get (mdb_roots db) date)"
  have links: "row_fault rt None rows = None \<longleftrightarrow>
      map tr_row_hash rows = map Some hs \<and> map tr_prev_hash rows = map Some (hd hs # butlast hs)"
  proof -
    have "row_fault rt None rows = None \<longleftrightarrow> map tr_row_hash rows = map Some hs
        \<and> map tr_prev_hash rows = hd (map tr_row_hash rows) # butlast (map tr_row_hash rows)"
      by (auto simp: rows_def hs_def row_fault_iff comp_def simp del: butlast.simps)
    moreover have "hd (map Some hs) # butlast (map Some hs) = map Some (hd hs # butlast hs)"
      by (simp add: rows_def hs_def map_butlast del: butlast.simps)
    ultimately show ?thesis by metis
  qed
  have hashes: "map (\<lambda>r. opt_text (tr_row_hash r)) rows = hs" if "map tr_row_hash rows = map Some hs"
    using arg_cong [OF that, of "map opt_text"] by (simp add: opt_text_def comp_def)
  have v: "mv_fault (verifyChain rt date db) = None \<longleftrightarrow> row_fault rt None rows = None \<and>
      (falsy stored \<or> stored = Some (rowsMerkleRoot rt (map (\<lambda>r. opt_text (tr_row_hash r)) rows)))"
    unfolding verifyChain_def Cons rows_def [symmetric] stored_def [symmetric] Let_def
    by (cases "row_fault rt None rows") (simp_all add: rows_def)
  show ?thesis
    unfolding v links Cons rows_def [symmetric] hs_def [symmetric] stored_def [symmetric] Let_def
    using hashes by (auto simp: falsy_def rows_def)
qed

text \<open>
  The verification of a day accepts exactly a day with rows whose stored hashes are the hashes of their
  contents, whose first row links to itself and every other one to the row before it, and whose stored root, when there
  is one, is the root of those hashes; a day that was never anchored passes.
\<close>

theorem day_verifies_iff:
  "mv_fault (verifyChain rt date db) = None \<longleftrightarrow>
   (let rows = loadRowsForDate db date; hs = map (computeRowHash rt) rows;
        stored = map_option snd (m_get (mdb_roots db) date) in
    rows \<noteq> [] \<and> map tr_row_hash rows = map Some hs \<and> map tr_prev_hash rows = map Some (hd hs # butlast hs)
    \<and> (stored \<in> {None, Some '''', Some (rowsMerkleRoot rt hs)}))"
  by (rule verifies_iff)

subsection \<open>What an anchored root binds\<close>

definition day_texts :: "runtime \<Rightarrow> string \<Rightarrow> merkle_db \<Rightarrow> string set" where
  "day_texts rt date db =
     row_content rt ` set (loadRowsForDate db date)
     \<union> hashed_texts True (sha256 rt) (map (computeRowHash rt) (loadRowsForDate db date))"

lemma verified_root:
  assumes "mv_fault (verifyChain rt date db) = None" "m_get (mdb_roots db) date = Some (n, x)" "x \<noteq> []"
  shows "x = rowsMerkleRoot rt (map (computeRowHash rt) (loadRowsForDate db date))"
  using assms by (auto simp: verifies_iff Let_def)

lemma verify_roots:
  assumes "mv_fault (verifyChain rt date db) = None"
  shows "mv_storedRoot (verifyChain rt date db) = map_option snd (m_get (mdb_roots db) date)"
    "mv_computedRoot (verifyChain rt date db) = Some (rowsMerkleRoot rt (map (computeRowHash rt) (loadRowsForDate db date)))"
proof -
  have ne: "loadRowsForDate db date \<noteq> []" and f: "row_fault rt None (loadRowsForDate db date) = None"
    using assms by (auto simp: verifyChain_def Let_def split: if_splits option.splits)
  have "map tr_row_hash (loadRowsForDate db date) = map Some (map (computeRowHash rt) (loadRowsForDate db date))"
    using assms unfolding verifies_iff by (simp only: Let_def)
  then have h: "map (\<lambda>r. opt_text (tr_row_hash r)) (loadRowsForDate db date) = map (computeRowHash rt) (loadRowsForDate db date)"
    by (auto simp: opt_text_def map_eq_conv)
  show "mv_storedRoot (verifyChain rt date db) = map_option snd (m_get (mdb_roots db) date)"
    "mv_computedRoot (verifyChain rt date db) = Some (rowsMerkleRoot rt (map (computeRowHash rt) (loadRowsForDate db date)))"
    by (simp_all only: verifyChain_def Let_def f h) (simp_all add: ne)
qed

lemma row_count: "mv_rowCount (verifyChain rt date db) = length (loadRowsForDate db date)"
  by (simp add: verifyChain_def Let_def split: option.split)

subsection \<open>What a hashed text says of its row\<close>

lemma join_step: "join_with [c] (x # xs) = (if xs = [] then x else x @ c # join_with [c] xs)"
  by (cases xs) simp_all

lemma first_separator:
  "c \<notin> set x \<Longrightarrow> c \<notin> set y \<Longrightarrow> x @ c # u = y @ c # v \<Longrightarrow> x = y \<and> u = v"
proof (induction x arbitrary: y)
  case Nil
  then show ?case by (cases y) auto
next
  case (Cons a x)
  then show ?case by (cases y) auto
qed

lemma fields_join_inj:
  "length xs = length ys \<Longrightarrow> \<forall>x \<in> set xs \<union> set ys. c \<notin> set x \<Longrightarrow> join_with [c] xs = join_with [c] ys \<Longrightarrow> xs = ys"
proof (induction xs ys rule: list_induct2)
  case (Cons x xs y ys)
  show ?case
  proof (cases "xs = []")
    case True
    then show ?thesis using Cons by simp
  next
    case False
    then have ne: "ys \<noteq> []" using Cons.hyps by (cases xs; cases ys) simp_all
    have c: "c \<notin> set x" "c \<notin> set y" "\<forall>z \<in> set xs \<union> set ys. c \<notin> set z" using Cons.prems(1) by simp_all
    have "x @ c # join_with [c] xs = y @ c # join_with [c] ys"
      using Cons.prems(2) unfolding join_step using False ne by (simp only: if_False)
    from first_separator [OF c(1,2) this] have "x = y" "join_with [c] xs = join_with [c] ys" by blast+
    with Cons.IH [OF c(3)] show ?thesis by (simp only:)
  qed
qed simp

definition plain_row :: "runtime \<Rightarrow> telemetry_row \<Rightarrow> bool" where
  "plain_row rt r \<longleftrightarrow> (\<forall>x \<in> set (row_fields rt r). CHR ''|'' \<notin> set x)"

lemma plain_rows_inj: "inj_on (join_with ''|'') {row_fields rt r | r. plain_row rt r}"
proof (rule inj_onI)
  fix xs ys
  assume "xs \<in> {row_fields rt r | r. plain_row rt r}" "ys \<in> {row_fields rt r | r. plain_row rt r}"
    and same: "join_with ''|'' xs = join_with ''|'' ys"
  then obtain r r' where r: "xs = row_fields rt r" "ys = row_fields rt r'" "plain_row rt r" "plain_row rt r'" by blast
  have "length xs = length ys" by (simp add: r row_fields_def)
  then show "xs = ys" using r same by (intro fields_join_inj) (auto simp: plain_row_def)
qed

lemma image_mset_same:
  assumes "image_mset f A = image_mset f B" "inj_on f (set_mset A \<union> set_mset B)"
  shows "A = B"
  using image_mset_eq_image_mset_plusD [of f A B "{#}"] assms by auto

lemma same_fields:
  assumes "mset (map (row_content rt) xs) = mset (map (row_content rt) ys)" "\<forall>r \<in> set xs \<union> set ys. plain_row rt r"
  shows "mset (map (row_fields rt) xs) = mset (map (row_fields rt) ys)"
proof (rule image_mset_same)
  have "row_content rt = join_with ''|'' \<circ> row_fields rt" by (simp add: fun_eq_iff row_content_def)
  then show "image_mset (join_with ''|'') (mset (map (row_fields rt) xs)) =
      image_mset (join_with ''|'') (mset (map (row_fields rt) ys))"
    using assms(1) by (simp only: list.map_comp [symmetric] mset_map)
  show "inj_on (join_with ''|'') (set_mset (mset (map (row_fields rt) xs)) \<union> set_mset (mset (map (row_fields rt) ys)))"
    by (rule inj_on_subset [OF plain_rows_inj [of rt]]) (use assms(2) in auto)
qed

text \<open>
  C20. Two states of the tables in which a day verifies with the same number of rows against the same anchored root
  hash the same texts for the rows of that day, up to their order, unless SHA-256 collides on the texts that are
  hashed. When no field of a row has a bar in it, the rows then have the same fields (the links and the date are not
  hashed). With a bar they need not: the text of a row is its fields joined by bars, so a session
  \<^verbatim>\<open>a|b\<close> of agent \<^verbatim>\<open>c\<close> is hashed as a session \<^verbatim>\<open>a\<close> of agent \<^verbatim>\<open>b|c\<close>.
\<close>

theorem anchored_day_binds_rows:
  assumes "mv_fault (verifyChain rt date db) = None" "mv_fault (verifyChain rt date db') = None"
    and "m_get (mdb_roots db) date = Some (n, x)" "m_get (mdb_roots db') date = Some (n', x)" "x \<noteq> []"
    and "mv_rowCount (verifyChain rt date db) = mv_rowCount (verifyChain rt date db')"
    and "\<And>t. length (sha256 rt t) = 64"
    and "inj_on (sha256 rt) (day_texts rt date db \<union> day_texts rt date db')"
  shows "mset (map (row_content rt) (loadRowsForDate db date)) = mset (map (row_content rt) (loadRowsForDate db' date)) \<and>
    ((\<forall>r \<in> set (loadRowsForDate db date) \<union> set (loadRowsForDate db' date). plain_row rt r) \<longrightarrow>
     mset (map (row_fields rt) (loadRowsForDate db date)) = mset (map (row_fields rt) (loadRowsForDate db' date)))"
proof -
  define rows where "rows = loadRowsForDate db date"
  define rows' where "rows' = loadRowsForDate db' date"
  have inj: "inj_on (sha256 rt) (hashed_texts True (sha256 rt) (map (computeRowHash rt) rows)
      \<union> hashed_texts True (sha256 rt) (map (computeRowHash rt) rows'))"
    and inj': "inj_on (sha256 rt) (row_content rt ` set rows \<union> row_content rt ` set rows')"
    by (rule inj_on_subset [OF assms(8)], auto simp: day_texts_def rows_def rows'_def)+
  have len: "all_length 64 (map (computeRowHash rt) rs)" for rs
    using assms(7) by (simp add: all_length_def computeRowHash_def)
  have "rowsMerkleRoot rt (map (computeRowHash rt) rows) = rowsMerkleRoot rt (map (computeRowHash rt) rows')"
    using verified_root [OF assms(1,3,5)] verified_root [OF assms(2,4,5)] by (simp add: rows_def rows'_def)
  then have "mset (map (computeRowHash rt) rows) = mset (map (computeRowHash rt) rows')"
    using same_root_same_leaves [OF _ len len assms(7) inj] assms(6)
    by (simp add: rowsMerkleRoot_def row_count rows_def rows'_def)
  moreover have "computeRowHash rt = sha256 rt \<circ> row_content rt" by (simp add: fun_eq_iff computeRowHash_def)
  ultimately have "image_mset (sha256 rt) (mset (map (row_content rt) rows))
      = image_mset (sha256 rt) (mset (map (row_content rt) rows'))"
    by (simp only: list.map_comp [symmetric] mset_map)
  then have "mset (map (row_content rt) rows) = mset (map (row_content rt) rows')"
    by (rule image_mset_same) (use inj' in simp)
  then show ?thesis using same_fields [of rt rows rows'] by (simp add: rows_def rows'_def)
qed

subsection \<open>Sealing a day\<close>

definition linked_row :: "(nat \<times> string \<times> string) list \<Rightarrow> telemetry_row \<Rightarrow> telemetry_row" where
  "linked_row links r = (case map_of links (tr_id r) of
       None \<Rightarrow> r
     | Some (c, p) \<Rightarrow> if tr_row_hash r = None \<or> tr_prev_hash r = None
         then r\<lparr>tr_row_hash := Some c, tr_prev_hash := Some p\<rparr> else r)"

fun links_of :: "runtime \<Rightarrow> telemetry_row option \<Rightarrow> telemetry_row list \<Rightarrow> (nat \<times> string \<times> string) list" where
  "links_of rt before [] = []"
| "links_of rt before (r # rs) =
     (tr_id r, computeRowHash rt r, (case before of None \<Rightarrow> computeRowHash rt r | Some b \<Rightarrow> stored_or_computed rt b))
     # links_of rt (Some r) rs"

lemma keys_links_of [simp]: "map fst (links_of rt b rs) = map tr_id rs"
  by (induction rs arbitrary: b) simp_all

lemma linked_row_keeps [simp]: "tr_id (linked_row ls r) = tr_id r" "tr_date (linked_row ls r) = tr_date r"
  by (auto simp: linked_row_def split: option.split)

lemma build_from_rows:
  "distinct (map tr_id rs) \<Longrightarrow> mdb_rows (build_from rt b rs db) = map (linked_row (links_of rt b rs)) (mdb_rows db)"
proof (induction rs arbitrary: b db)
  case Nil
  have "linked_row [] = (\<lambda>r. r)" by (simp add: linked_row_def fun_eq_iff)
  then show ?case by simp
next
  case (Cons r rs)
  define c where "c = computeRowHash rt r"
  define p where "p = (case b of None \<Rightarrow> c | Some x \<Rightarrow> stored_or_computed rt x)"
  have notin: "map_of (links_of rt (Some r) rs) (tr_id r) = None"
    using Cons.prems by (simp add: map_of_eq_None_iff flip: set_map)
  have links: "links_of rt b (r # rs) = (tr_id r, c, p) # links_of rt (Some r) rs"
    by (cases b) (simp_all add: c_def p_def)
  have "linked_row (links_of rt (Some r) rs) (if tr_id q = tr_id r \<and> (tr_row_hash q = None \<or> tr_prev_hash q = None)
      then q\<lparr>tr_row_hash := Some c, tr_prev_hash := Some p\<rparr> else q) = linked_row (links_of rt b (r # rs)) q" for q
    using notin unfolding links linked_row_def by (cases "tr_id q = tr_id r") simp_all
  moreover have "build_from rt b (r # rs) db = build_from rt (Some r) rs (update_row (tr_id r) c p db)"
    by (cases b) (simp_all add: c_def p_def Let_def)
  ultimately show ?case using Cons.IH [of "Some r" "update_row (tr_id r) c p db"] Cons.prems
    by (simp add: update_row_def)
qed

lemma build_from_roots [simp]: "mdb_roots (build_from rt b rs db) = mdb_roots db"
  by (induction rs arbitrary: b db) (simp_all add: Let_def update_row_def)

lemma insort_key_map: "(\<And>x. k (f x) = k x) \<Longrightarrow> insort_key k (f x) (map f xs) = map f (insort_key k x xs)"
  by (induction xs) simp_all

lemma sort_key_map: "(\<And>x. k (f x) = k x) \<Longrightarrow> sort_key k (map f xs) = map f (sort_key k xs)"
  by (induction xs) (simp_all add: insort_key_map)

lemma load_linked:
  assumes "mdb_rows db' = map (linked_row ls) (mdb_rows db)"
  shows "loadRowsForDate db' date = map (linked_row ls) (loadRowsForDate db date)"
  by (simp add: loadRowsForDate_def assms filter_map comp_def sort_key_map)

fun sealed_rows :: "runtime \<Rightarrow> string option \<Rightarrow> telemetry_row list \<Rightarrow> telemetry_row list" where
  "sealed_rows rt before [] = []"
| "sealed_rows rt before (r # rs) =
     r\<lparr>tr_row_hash := Some (computeRowHash rt r),
       tr_prev_hash := Some (case before of None \<Rightarrow> computeRowHash rt r | Some b \<Rightarrow> b)\<rparr>
     # sealed_rows rt (Some (computeRowHash rt r)) rs"

lemma linked_rows_sealed:
  "distinct (map tr_id rs) \<Longrightarrow> \<forall>r \<in> set rs. tr_row_hash r = None \<Longrightarrow> \<forall>x \<in> set_option b. tr_row_hash x = None \<Longrightarrow>
   map (linked_row (links_of rt b rs)) rs = sealed_rows rt (map_option (computeRowHash rt) b) rs"
proof (induction rs arbitrary: b)
  case (Cons r rs)
  have "map (linked_row (links_of rt b (r # rs))) rs = map (linked_row (links_of rt (Some r) rs)) rs"
  proof (rule map_cong [OF refl])
    fix x assume "x \<in> set rs"
    then have "tr_id x \<in> set (map tr_id rs)" by simp
    moreover have "tr_id r \<notin> set (map tr_id rs)" using Cons.prems(1) by simp
    ultimately have "tr_id x \<noteq> tr_id r" by metis
    then show "linked_row (links_of rt b (r # rs)) x = linked_row (links_of rt (Some r) rs) x" by (simp add: linked_row_def)
  qed
  moreover have "map (linked_row (links_of rt (Some r) rs)) rs = sealed_rows rt (Some (computeRowHash rt r)) rs"
    using Cons.IH [of "Some r"] Cons.prems(1,2) by simp
  moreover have "linked_row (links_of rt b (r # rs)) r = hd (sealed_rows rt (map_option (computeRowHash rt) b) (r # rs))"
    using Cons.prems(2,3) by (cases b) (simp_all add: linked_row_def stored_or_computed_def)
  ultimately show ?case by (simp del: links_of.simps)
qed simp

lemma sealed_rows_facts:
  "map tr_row_hash (sealed_rows rt b rs) = map (Some \<circ> computeRowHash rt) rs"
  "map (computeRowHash rt) (sealed_rows rt b rs) = map (computeRowHash rt) rs"
  by (induction rs arbitrary: b) simp_all

lemma sealed_rows_prev:
  "map tr_prev_hash (sealed_rows rt (Some b) rs) = map Some (butlast (b # map (computeRowHash rt) rs))"
  by (induction rs arbitrary: b) auto


lemma sealed_rows_start:
  "rs \<noteq> [] \<Longrightarrow> map tr_prev_hash (sealed_rows rt None rs)
    = map Some (hd (map (computeRowHash rt) rs) # butlast (map (computeRowHash rt) rs))"
  by (cases rs) (simp_all add: sealed_rows_prev del: butlast.simps)

lemma map_filter_Some: "map f xs = map Some ys \<Longrightarrow> List.map_filter f xs = ys"
  by (induction xs arbitrary: ys) (auto simp: List.map_filter_def)

lemma sorted_ids_distinct: "distinct (map tr_id (mdb_rows db)) \<Longrightarrow> distinct (map tr_id (loadRowsForDate db date))"
proof -
  assume d: "distinct (map tr_id (mdb_rows db))"
  have "mset (map tr_id (loadRowsForDate db date)) = mset (map tr_id (filter (\<lambda>r. tr_date r = date) (mdb_rows db)))"
    by (simp add: loadRowsForDate_def)
  then show ?thesis using distinct_map_filter [OF d] mset_eq_imp_distinct_iff by blast
qed

text \<open>
  Sealing a day whose rows carry no hash always succeeds: the chain is built, the root of whatever the rows now
  contain replaces any root that was anchored before, and the day verifies against it. So does a day that was sealed
  before and whose contents were changed, once its hashes are cleared.
\<close>

theorem cleared_day_seals_again:
  assumes "distinct (map tr_id (mdb_rows db))" "loadRowsForDate db date = r # rs"
    and "\<forall>q \<in> set (r # rs). tr_row_hash q = None"
  shows "\<exists>v db'. dailySeal rt date db = (Inr v, db') \<and> mv_fault v = None \<and> mv_storedRoot v = mv_computedRoot v
    \<and> mv_rowCount v = length (r # rs)
    \<and> m_get (mdb_roots db') date = Some (length (r # rs), rowsMerkleRoot rt (map (computeRowHash rt) (r # rs)))
    \<and> map (row_content rt) (loadRowsForDate db' date) = map (row_content rt) (r # rs)"
proof -
  define rows where "rows = r # rs"
  define hs where "hs = map (computeRowHash rt) rows"
  define db1 where "db1 = build_from rt None rows db"
  define db2 where "db2 = db1\<lparr>mdb_roots := m_set date (length hs, rowsMerkleRoot rt hs) (mdb_roots db1)\<rparr>"
  have d: "distinct (map tr_id rows)" using sorted_ids_distinct [OF assms(1)] by (simp add: rows_def flip: assms(2))
  have l1: "loadRowsForDate db1 date = sealed_rows rt None rows"
    using load_linked [OF build_from_rows [OF d], of rt None db] linked_rows_sealed [OF d, of None rt] assms(2,3)
    by (simp add: db1_def rows_def)
  have l2: "loadRowsForDate db2 date = sealed_rows rt None rows"
    using l1 by (simp add: db2_def loadRowsForDate_def)
  have hs: "List.map_filter tr_row_hash (sealed_rows rt None rows) = hs" "hs \<noteq> []"
    by (rule map_filter_Some) (simp_all add: sealed_rows_facts hs_def rows_def del: sealed_rows.simps)
  have seal: "dailySeal rt date db = (Inr (verifyChain rt date db2), db2)"
    using hs l1 by (simp add: dailySeal_def buildChainForDate_def assms(2) computeAndAnchorRoot_def Let_def
        db1_def db2_def flip: rows_def)
  have same: "map (computeRowHash rt) (loadRowsForDate db2 date) = hs"
    using l2 by (simp add: sealed_rows_facts hs_def)
  have ok: "mv_fault (verifyChain rt date db2) = None"
  proof -
    have stored: "map_option snd (m_get (mdb_roots db2) date) = Some (rowsMerkleRoot rt hs)" by (simp add: db2_def store_simps)
    have ne: "rows \<noteq> []" "sealed_rows rt None rows \<noteq> []" by (simp_all add: rows_def)
    have row: "map tr_row_hash (sealed_rows rt None rows) = map Some hs"
      and prev: "map tr_prev_hash (sealed_rows rt None rows) = map Some (hd hs # butlast hs)"
      unfolding hs_def by (simp add: sealed_rows_facts(1), rule sealed_rows_start [OF ne(1)])
    have "map (computeRowHash rt) (sealed_rows rt None rows) = hs" by (simp add: sealed_rows_facts(2) hs_def)
    then show ?thesis unfolding verifies_iff Let_def stored l2 row prev using ne by simp
  qed
  have content: "map (row_content rt) (sealed_rows rt b qs) = map (row_content rt) qs" for b qs
    by (induction qs arbitrary: b) (simp_all add: row_content_def row_fields_def cong: option.case_cong)
  show ?thesis
    using seal ok verify_roots [OF ok] same l2 content [of None rows] arg_cong [OF same, of length]
    by (simp add: row_count db2_def hs_def rows_def store_simps)

qed

definition short_rt :: runtime where
  "short_rt = \<lparr> sha256 = (\<lambda>t. take 64 (t @ replicate 64 CHR ''0'')), number_text = (\<lambda>n. ''1''), get_time = (\<lambda>t. 0) \<rparr>"

definition sample_row :: "nat \<Rightarrow> string \<Rightarrow> string \<Rightarrow> telemetry_row" where
  "sample_row i d v = \<lparr> tr_id = i, tr_date = d, tr_epoch = \<lparr> ut_year = 1, ut_month = 1, ut_day = 1, ut_hours = 1,
       ut_minutes = 1, ut_seconds = 1, ut_millis = 1 \<rparr>, tr_epoch_text = Some ''t'', tr_session_id = None, tr_agent_id = None,
     tr_ds = None, tr_peace2 = None, tr_kappa_r = None, tr_shadow = None, tr_confidence = None, tr_psi_le = None,
     tr_verdict = v, tr_witness_human = None, tr_witness_ai = None, tr_witness_earth = None, tr_qdf = None,
     tr_prev_hash = None, tr_row_hash = None \<rparr>"

definition sample_db :: "string \<Rightarrow> merkle_db" where
  "sample_db d = \<lparr> mdb_rows = [sample_row 2 d ''VOID'', sample_row 1 ''d'' ''SEAL''], mdb_roots = [(''d'', (7, ''old''))] \<rparr>"

lemma sample_rows:
  "loadRowsForDate (sample_db ''d'') ''d'' = [sample_row 1 ''d'' ''SEAL'', sample_row 2 ''d'' ''VOID'']"
  "loadRowsForDate (sample_db ''e'') ''d'' = [sample_row 1 ''d'' ''SEAL'']"
  by (simp_all add: loadRowsForDate_def sample_db_def sample_row_def)

theorem cleared_day_seals_again_witness:
  "\<exists>v db'. dailySeal short_rt ''d'' (sample_db ''d'') = (Inr v, db') \<and> mv_fault v = None \<and> mv_rowCount v = 2"
  using cleared_day_seals_again [OF _ sample_rows(1), of short_rt]
  by (auto simp: sample_db_def sample_row_def)

lemma day_texts_one: "loadRowsForDate db date = [r] \<Longrightarrow> day_texts rt date db = {row_content rt r}"
  by (simp add: day_texts_def hashed_texts.simps)

lemma short_hash_length: "length (sha256 short_rt t) = 64"
  by (simp add: short_rt_def)

text \<open>The row of one day, sealed; \<open>e\<close> is the date of another row.\<close>

definition one_row_db :: "string \<Rightarrow> merkle_db" where
  "one_row_db d =
     (let r = sample_row 1 ''d'' ''SEAL''; h = computeRowHash short_rt r in
      \<lparr> mdb_rows = [sample_row 2 d ''VOID'', r\<lparr>tr_row_hash := Some h, tr_prev_hash := Some h\<rparr>], mdb_roots = [(''d'', (1, h))] \<rparr>)"

lemma one_row_day:
  assumes "d \<noteq> ''d''"
  defines "r \<equiv> sample_row 1 ''d'' ''SEAL''"
  shows "loadRowsForDate (one_row_db d) ''d''
      = [r\<lparr>tr_row_hash := Some (computeRowHash short_rt r), tr_prev_hash := Some (computeRowHash short_rt r)\<rparr>]"
    "mv_fault (verifyChain short_rt ''d'' (one_row_db d)) = None"
    "m_get (mdb_roots (one_row_db d)) ''d'' = Some (1, computeRowHash short_rt r)"
proof -
  show l: "loadRowsForDate (one_row_db d) ''d''
      = [r\<lparr>tr_row_hash := Some (computeRowHash short_rt r), tr_prev_hash := Some (computeRowHash short_rt r)\<rparr>]"
    using assms(1) by (simp add: loadRowsForDate_def one_row_db_def Let_def r_def sample_row_def)
  show g: "m_get (mdb_roots (one_row_db d)) ''d'' = Some (1, computeRowHash short_rt r)"
    by (simp add: one_row_db_def Let_def r_def)
  show "mv_fault (verifyChain short_rt ''d'' (one_row_db d)) = None"
    unfolding verifies_iff l g by (simp add: rowsMerkleRoot_def merkle_root.simps)
qed

lemma sample_plain: "plain_row short_rt (sample_row 1 ''d'' ''SEAL'')"
  by (simp add: plain_row_def row_fields_def sample_row_def short_rt_def opt_text_def opt_number_def One_nat_def [symmetric]
    del: One_nat_def)

lemma linked_plain: "plain_row rt (r\<lparr>tr_row_hash := a, tr_prev_hash := b\<rparr>) = plain_row rt r"
  by (simp add: plain_row_def row_fields_def cong: option.case_cong)

theorem anchored_day_binds_rows_witness:
  "mset (map (row_fields short_rt) (loadRowsForDate (one_row_db ''e'') ''d''))
    = mset (map (row_fields short_rt) (loadRowsForDate (one_row_db ''f'') ''d''))"
proof -
  have ne: "''e'' \<noteq> ''d''" "''f'' \<noteq> ''d''" by simp_all
  note e = one_row_day [OF ne(1)] and f = one_row_day [OF ne(2)]
  have verified: "mv_fault (verifyChain short_rt ''d'' (one_row_db ''e'')) = None" "mv_fault (verifyChain short_rt ''d'' (one_row_db ''f'')) = None"
    by (rule e(2), rule f(2))
  have roots: "m_get (mdb_roots (one_row_db ''e'')) ''d'' = Some (1, computeRowHash short_rt (sample_row 1 ''d'' ''SEAL''))"
    "m_get (mdb_roots (one_row_db ''f'')) ''d'' = Some (1, computeRowHash short_rt (sample_row 1 ''d'' ''SEAL''))"
    by (rule e(3), rule f(3))
  have some: "computeRowHash short_rt (sample_row 1 ''d'' ''SEAL'') \<noteq> []"
    using short_hash_length [of "row_content short_rt (sample_row 1 ''d'' ''SEAL'')"] by (auto simp: computeRowHash_def)
  have number: "mv_rowCount (verifyChain short_rt ''d'' (one_row_db ''e'')) = mv_rowCount (verifyChain short_rt ''d'' (one_row_db ''f''))"
    by (simp add: row_count e(1) f(1))
  have len: "length (sha256 short_rt t) = 64" for t by (rule short_hash_length)
  have inj: "inj_on (sha256 short_rt) (day_texts short_rt ''d'' (one_row_db ''e'') \<union> day_texts short_rt ''d'' (one_row_db ''f''))"
    by (simp add: day_texts_one [OF e(1)] day_texts_one [OF f(1)])
  have "\<forall>r \<in> set (loadRowsForDate (one_row_db ''e'') ''d'') \<union> set (loadRowsForDate (one_row_db ''f'') ''d''). plain_row short_rt r"
    by (simp add: e(1) f(1) linked_plain sample_plain [unfolded One_nat_def])
  then show ?thesis
    using anchored_day_binds_rows [OF verified roots some number len inj] by blast
qed

text \<open>Two different rows that are hashed alike\<close>

lemma rows_hashed_alike:
  "computeRowHash rt (r\<lparr>tr_session_id := Some ''a|b'', tr_agent_id := Some ''c''\<rparr>) =
   computeRowHash rt (r\<lparr>tr_session_id := Some ''a'', tr_agent_id := Some ''b|c''\<rparr>)"
  by (simp add: computeRowHash_def row_content_def row_fields_def opt_text_def cong: option.case_cong)

section \<open>Anchoring blocks of receipts\<close>

record block_root =
  br_block_index :: nat
  br_start_seal_id :: string
  br_end_seal_id :: string
  br_merkle_root :: string
  br_prev_root :: string

text \<open>
  The file of receipts is the list of its non-empty lines (\<^term>\<open>None\<close> when there is no file), the file of roots the
  list of its records. \<open>parse\<close> is what \<^verbatim>\<open>JSON.parse\<close> makes of a line: it throws (\<^term>\<open>None\<close>), or
  the line has a text as its \<^verbatim>\<open>qqq_id\<close>, empty when it has none. \<open>writes\<close> tells whether the append to the
  file of roots succeeds. The uploads and the tag that follow the append change nothing the program reads.
\<close>

record receipt_files =
  rf_receipts :: "string list option"
  rf_roots :: "block_root list"

definition zero_root :: string where
  "zero_root = replicate 64 CHR ''0''"

definition block_lines :: "nat \<Rightarrow> string list \<Rightarrow> string list" where
  "block_lines b lines = take 100 (drop ((b - 1) * 100) lines)"

definition last_root :: "block_root list \<Rightarrow> string" where
  "last_root roots = (if roots = [] \<or> br_merkle_root (last roots) = [] then zero_root else br_merkle_root (last roots))"

definition seal_name :: "runtime \<Rightarrow> string \<Rightarrow> nat \<Rightarrow> string \<Rightarrow> string" where
  "seal_name rt prefix n qqq_id = (if qqq_id = [] then prefix @ number_text rt (of_nat n) else qqq_id)"

definition checkAndAnchorReceipts ::
  "runtime \<Rightarrow> (string \<Rightarrow> string option) \<Rightarrow> bool \<Rightarrow> receipt_files \<Rightarrow> block_root option \<times> receipt_files" where
  "checkAndAnchorReceipts rt parse writes fs =
     (case rf_receipts fs of
        None \<Rightarrow> (None, fs)
      | Some lines \<Rightarrow>
          (let n = length lines; b = n div 100; block = block_lines b lines; ids = map parse block in
           if n = 0 \<or> n mod 100 \<noteq> 0 \<or> None \<in> set ids \<or> \<not> writes then (None, fs)
           else (let r = \<lparr> br_block_index = b,
                   br_start_seal_id = seal_name rt ''seal-start-'' ((b - 1) * 100) (the (hd ids)),
                   br_end_seal_id = seal_name rt ''seal-end-'' (n - 1) (the (last ids)),
                   br_merkle_root = blockMerkleRoot rt (map (sha256 rt) block),
                   br_prev_root = last_root (rf_roots fs) \<rparr> in
                 (Some r, fs\<lparr>rf_roots := rf_roots fs @ [r]\<rparr>))))"

definition appended :: "string \<Rightarrow> receipt_files \<Rightarrow> receipt_files" where
  "appended l fs = fs\<lparr>rf_receipts := Some ((case rf_receipts fs of None \<Rightarrow> [] | Some ls \<Rightarrow> ls) @ [l])\<rparr>"

text \<open>Receipts are appended by other parts of the program, in any order with the checks.\<close>

inductive receipt_step :: "runtime \<Rightarrow> receipt_files \<Rightarrow> receipt_files \<Rightarrow> bool" for rt where
  append_step: "receipt_step rt fs (appended l fs)"
| check_step: "receipt_step rt fs (snd (checkAndAnchorReceipts rt parse writes fs))"

definition root_ok :: "runtime \<Rightarrow> receipt_files \<Rightarrow> block_root \<Rightarrow> bool" where
  "root_ok rt fs r \<longleftrightarrow>
     (case rf_receipts fs of None \<Rightarrow> False
      | Some ls \<Rightarrow> 1 \<le> br_block_index r \<and> br_block_index r * 100 \<le> length ls
          \<and> br_merkle_root r = blockMerkleRoot rt (map (sha256 rt) (block_lines (br_block_index r) ls)))"

definition roots_linked :: "block_root list \<Rightarrow> bool" where
  "roots_linked roots \<longleftrightarrow> (\<forall>i < length roots. br_prev_root (roots ! i) = last_root (take i roots))"

definition anchors_ok :: "runtime \<Rightarrow> receipt_files \<Rightarrow> bool" where
  "anchors_ok rt fs \<longleftrightarrow> (\<forall>r \<in> set (rf_roots fs). root_ok rt fs r) \<and> roots_linked (rf_roots fs)"

lemma root_ok_append: "root_ok rt fs r \<Longrightarrow> root_ok rt (appended l fs) r"
proof -
  assume "root_ok rt fs r"
  moreover have "block_lines b (ls @ [l]) = block_lines b ls" if "1 \<le> b" "b * 100 \<le> length ls" for b and ls :: "string list"
  proof -
    have "(b - 1) * 100 + 100 = b * 100" using that(1) by (cases b) simp_all
    then have "100 \<le> length (drop ((b - 1) * 100) ls)" "(b - 1) * 100 \<le> length ls" using that(2) by simp_all
    then show ?thesis by (simp add: block_lines_def)
  qed
  ultimately show ?thesis by (auto simp: root_ok_def appended_def split: option.splits)
qed

lemma roots_linked_snoc:
  "roots_linked (roots @ [r]) \<longleftrightarrow> roots_linked roots \<and> br_prev_root r = last_root roots"
  by (auto simp: roots_linked_def less_Suc_eq nth_append)

lemma check_anchors_ok: "anchors_ok rt fs \<Longrightarrow> anchors_ok rt (snd (checkAndAnchorReceipts rt parse writes fs))"
proof (cases "snd (checkAndAnchorReceipts rt parse writes fs) = fs")
  case False
  assume ok: "anchors_ok rt fs"
  from False obtain ls where ls: "rf_receipts fs = Some ls" "ls \<noteq> []" "length ls mod 100 = 0"
    by (auto simp: checkAndAnchorReceipts_def Let_def split: option.splits if_splits)
  from False obtain r where r: "snd (checkAndAnchorReceipts rt parse writes fs) = fs\<lparr>rf_roots := rf_roots fs @ [r]\<rparr>"
    "br_block_index r = length ls div 100" "br_prev_root r = last_root (rf_roots fs)"
    "br_merkle_root r = blockMerkleRoot rt (map (sha256 rt) (block_lines (length ls div 100) ls))"
    using ls by (auto simp: checkAndAnchorReceipts_def Let_def split: if_splits)
  have n: "length ls div 100 * 100 = length ls" using ls(3) by presburger
  then have "1 \<le> length ls div 100" using ls(2) by (cases "length ls div 100") simp_all
  then have "root_ok rt (fs\<lparr>rf_roots := rf_roots fs @ [r]\<rparr>) r" using n ls(1) r by (simp add: root_ok_def)
  moreover have "root_ok rt (fs\<lparr>rf_roots := x\<rparr>) q = root_ok rt fs q" for q x by (simp add: root_ok_def)
  ultimately show ?thesis using ok r by (auto simp: anchors_ok_def roots_linked_snoc)
qed simp

interpretation anchoring: kept_invariant "receipt_step rt" "anchors_ok rt" for rt
proof unfold_locales
  fix s t assume "receipt_step rt s t" "anchors_ok rt s"
  then show "anchors_ok rt t"
  proof cases
    case (append_step l)
    have "rf_roots (appended l s) = rf_roots s" by (simp add: appended_def)
    with append_step \<open>anchors_ok rt s\<close> show ?thesis by (simp add: anchors_ok_def root_ok_append)
  qed (simp add: check_anchors_ok)
qed

text \<open>
  Whatever receipts are appended and whenever the check runs, every anchored root remains the Merkle root of the
  hundred receipts of its block, and names the root that was anchored before it.
\<close>

theorem anchored_blocks_stay:
  assumes "(receipt_step rt)\<^sup>*\<^sup>* \<lparr> rf_receipts = None, rf_roots = [] \<rparr> fs" "i < length (rf_roots fs)"
  shows "\<exists>ls. rf_receipts fs = Some ls
    \<and> (let r = rf_roots fs ! i; b = br_block_index r in
       1 \<le> b \<and> b * 100 \<le> length ls \<and> br_merkle_root r = blockMerkleRoot rt (map (sha256 rt) (block_lines b ls))
       \<and> br_prev_root r = last_root (take i (rf_roots fs)))"
proof -
  have "anchors_ok rt fs"
    by (rule anchoring.run_inv [OF assms(1)]) (simp add: anchors_ok_def roots_linked_def)
  then show ?thesis using assms(2) nth_mem [OF assms(2)]
    by (auto simp: anchors_ok_def root_ok_def roots_linked_def Let_def split: option.splits)
qed

text \<open>A hundred receipts and a check.\<close>

lemma appends_reach: "(receipt_step rt)\<^sup>*\<^sup>* fs ((appended l ^^ n) fs)"
  by (induction n) (auto intro: rtranclp.rtrancl_into_rtrancl append_step)

lemma appends_receipts:
  "rf_receipts ((appended l ^^ Suc n) \<lparr> rf_receipts = None, rf_roots = [] \<rparr>) = Some (replicate (Suc n) l)"
  "rf_roots ((appended l ^^ n) fs) = rf_roots fs"
  by (induction n) (auto simp: appended_def replicate_append_same)

theorem anchored_blocks_stay_witness:
  "\<exists>fs :: receipt_files. length (rf_roots fs) = 1 \<and> (\<exists>ls. rf_receipts fs = Some ls
    \<and> br_merkle_root (rf_roots fs ! 0) = blockMerkleRoot short_rt (map (sha256 short_rt) (block_lines (br_block_index (rf_roots fs ! 0)) ls)))"
proof -
  define fs where "fs = (appended ''x'' ^^ Suc 99) \<lparr> rf_receipts = None, rf_roots = [] \<rparr>"
  define gs where "gs = snd (checkAndAnchorReceipts short_rt Some True fs)"
  have r: "rf_receipts fs = Some (replicate 100 ''x'')" "rf_roots fs = []"
    using appends_receipts(1) [where l = "''x''" and n = 99] appends_receipts(2) [where l = "''x''" and n = "Suc 99"] by (simp_all add: fs_def)
  have "None \<notin> set (map Some (block_lines 1 (replicate 100 ''x'')))" by (auto simp: image_iff)
  then have n: "length (rf_roots gs) = 1" by (simp add: gs_def checkAndAnchorReceipts_def r Let_def)
  have "(receipt_step short_rt)\<^sup>*\<^sup>* \<lparr> rf_receipts = None, rf_roots = [] \<rparr> gs"
  proof (rule rtranclp.rtrancl_into_rtrancl)
    show "(receipt_step short_rt)\<^sup>*\<^sup>* \<lparr> rf_receipts = None, rf_roots = [] \<rparr> fs" unfolding fs_def by (rule appends_reach)
    show "receipt_step short_rt fs gs" unfolding gs_def by (rule check_step)
  qed
  from anchored_blocks_stay [OF this, of 0] n show ?thesis
    by - (rule exI [where x = gs], auto simp: Let_def)
qed

end
