(* ===== verification/Workflow_Template.thy ===== *)
theory Workflow_Template
  imports Canonical_Json Text_Match
begin

text \<open>
  The template renderer of the workflow files (\<^verbatim>\<open>src/src/domain/forge/workflow/renderer.ts\<close>):
  \<^verbatim>\<open>{{ path }}\<close> substitutes a variable and fails when it is unknown,
  \<^verbatim>\<open>{% if path %} .. {% else %} .. {% endif %}\<close> chooses a part. The source moves an index over the
  template; the functions here take the text from that index on. An error is a constructor with the path or the tag
  it names. The theorem gives the renderer a meaning: the text of a tree of texts, variables and conditionals renders to
  the value of the tree.
\<close>

section \<open>Finding a delimiter\<close>

text \<open>\<open>cut p s\<close> is \<^verbatim>\<open>s.indexOf(p)\<close>: what stands before the first \<open>p\<close> and what stands after it.\<close>

fun cut :: "string \<Rightarrow> string \<Rightarrow> (string \<times> string) option" where
  "cut p [] = (if p = [] then Some ([], []) else None)"
| "cut p (c # s) = (if starts_with (c # s) p then Some ([], drop (length p) (c # s))
     else map_option (\<lambda>(u, v). (c # u, v)) (cut p s))"

lemma cut_split: "cut p s = Some (u, v) \<Longrightarrow> s = u @ p @ v"
proof (induction s arbitrary: u)
  case (Cons c s)
  show ?case
  proof (cases "starts_with (c # s) p")
    case True
    then show ?thesis using Cons.prems by (auto simp: starts_with_iff)
  next
    case False
    then show ?thesis using Cons by (auto split: prod.splits)
  qed
qed (auto split: if_splits)

lemma cut_length: "cut p s = Some (u, v) \<Longrightarrow> length s = length u + length p + length v"
  using cut_split by fastforce

section \<open>Errors and values\<close>

datatype template_error =
    UnclosedVariable | UnclosedTag | UnclosedTagInBlock | NoEndif | NeverClosed | UnknownTag string
  | FilterUnsupported string | TraversalFailed string | NonObject string | UnknownVariable string

definition is_parse_error :: "template_error \<Rightarrow> bool" where
  "is_parse_error e = (case e of FilterUnsupported _ \<Rightarrow> False | TraversalFailed _ \<Rightarrow> False | NonObject _ \<Rightarrow> False
     | UnknownVariable _ \<Rightarrow> False | _ \<Rightarrow> True)"

text \<open>A value is plain data or a function that objects inherit, known by its source text.\<close>

datatype tvalue = Plain json | Callable string

text \<open>
  What a renderer reads of its runtime: the text of numbers and the properties that objects and arrays inherit.
\<close>

record template_runtime =
  tp_number_text :: "rat \<Rightarrow> string"
  tp_inherited :: "json \<Rightarrow> string \<Rightarrow> tvalue option"

definition index_of_text :: "template_runtime \<Rightarrow> string \<Rightarrow> nat \<Rightarrow> nat option" where
  "index_of_text tp seg n = find (\<lambda>i. tp_number_text tp (of_nat i) = seg) [0..<n]"

text \<open>\<^verbatim>\<open>seg in obj\<close> and \<^verbatim>\<open>obj[seg]\<close>.\<close>

definition property_of :: "template_runtime \<Rightarrow> json \<Rightarrow> string \<Rightarrow> tvalue option" where
  "property_of tp obj seg =
     (case obj of
        JObj fs \<Rightarrow> (case map_of fs seg of Some v \<Rightarrow> Some (Plain v) | None \<Rightarrow> tp_inherited tp obj seg)
      | JArr xs \<Rightarrow> (case index_of_text tp seg (length xs) of
            Some i \<Rightarrow> Some (Plain (xs ! i))
          | None \<Rightarrow> if seg = ''length'' then Some (Plain (JNum (of_nat (length xs)))) else tp_inherited tp obj seg)
      | _ \<Rightarrow> None)"

definition is_object :: "tvalue \<Rightarrow> bool" where
  "is_object v = (case v of Plain (JObj _) \<Rightarrow> True | Plain (JArr _) \<Rightarrow> True | _ \<Rightarrow> False)"

definition is_nullish :: "tvalue \<Rightarrow> bool" where
  "is_nullish v \<longleftrightarrow> v = Plain JNull \<or> v = Plain JUndef"

definition RESERVED_KEYWORDS :: "string list" where
  "RESERVED_KEYWORDS = [''true'', ''false'', ''null'', ''nil'', ''undefined'']"

definition reserved_value :: "string \<Rightarrow> tvalue" where
  "reserved_value path = Plain (if path = ''true'' then JBool True else if path = ''false'' then JBool False else JNull)"

fun traverse :: "template_runtime \<Rightarrow> string \<Rightarrow> string list \<Rightarrow> tvalue \<Rightarrow> template_error + tvalue" where
  "traverse tp path [] cur = Inr cur"
| "traverse tp path (seg # segs) cur =
     (if is_nullish cur then Inl (TraversalFailed path)
      else if \<not> is_object cur then Inl (NonObject path)
      else (case cur of
          Plain obj \<Rightarrow> (case property_of tp obj seg of
              None \<Rightarrow> Inl (UnknownVariable path)
            | Some v \<Rightarrow> traverse tp path segs v)
        | Callable _ \<Rightarrow> Inl (NonObject path)))"

definition resolveStrict :: "template_runtime \<Rightarrow> string \<Rightarrow> json \<Rightarrow> template_error + tvalue" where
  "resolveStrict tp expr context =
     (let path = trim expr in
      if path \<in> set RESERVED_KEYWORDS then Inr (reserved_value path)
      else if str_includes path ''|'' then Inl (FilterUnsupported path)
      else traverse tp path (split_char CHR ''.'' path) (Plain context))"

text \<open>The lenient variant answers undefined where the strict one throws.\<close>

fun traverse_lenient :: "template_runtime \<Rightarrow> string list \<Rightarrow> tvalue \<Rightarrow> tvalue" where
  "traverse_lenient tp [] cur = cur"
| "traverse_lenient tp (seg # segs) cur =
     (if is_nullish cur \<or> \<not> is_object cur then Plain JUndef
      else (case cur of
          Plain obj \<Rightarrow> (case property_of tp obj seg of None \<Rightarrow> Plain JUndef | Some v \<Rightarrow> traverse_lenient tp segs v)
        | Callable _ \<Rightarrow> Plain JUndef))"

definition resolveLenient :: "template_runtime \<Rightarrow> string \<Rightarrow> json \<Rightarrow> tvalue" where
  "resolveLenient tp expr context =
     (let path = trim expr in
      if path \<in> set RESERVED_KEYWORDS then reserved_value path
      else if str_includes path ''|'' then Plain JUndef
      else traverse_lenient tp (split_char CHR ''.'' path) (Plain context))"

definition isTruthy :: "tvalue \<Rightarrow> bool" where
  "isTruthy v \<longleftrightarrow> v \<notin> {Plain JNull, Plain JUndef, Plain (JBool False), Plain (JNum 0), Plain (JStr []), Plain (JArr [])}"

text \<open>\<^verbatim>\<open>JSON.stringify\<close> leaves out the fields that are undefined.\<close>

fun defined_only :: "json \<Rightarrow> json"
  and defined_fields :: "(string \<times> json) list \<Rightarrow> (string \<times> json) list" where
  "defined_only (JArr xs) = JArr (map defined_only xs)"
| "defined_only (JObj fs) = JObj (defined_fields fs)"
| "defined_only v = v"
| "defined_fields [] = []"
| "defined_fields ((k, v) # fs) = (if v = JUndef then defined_fields fs else (k, defined_only v) # defined_fields fs)"

definition formatValue :: "template_runtime \<Rightarrow> tvalue \<Rightarrow> string" where
  "formatValue tp v =
     (case v of
        Callable t \<Rightarrow> t
      | Plain JNull \<Rightarrow> []
      | Plain JUndef \<Rightarrow> []
      | Plain (JStr s) \<Rightarrow> s
      | Plain j \<Rightarrow> stringify (tp_number_text tp) (defined_only j))"

lemma lenient_strict:
  "resolveStrict tp e c = Inr v \<Longrightarrow> resolveLenient tp e c = v"
  "resolveStrict tp e c = Inl x \<Longrightarrow> resolveLenient tp e c = Plain JUndef"
proof -
  have t: "traverse tp p segs cur = Inr v \<Longrightarrow> traverse_lenient tp segs cur = v"
    "traverse tp p segs cur = Inl x \<Longrightarrow> traverse_lenient tp segs cur = Plain JUndef" for p segs cur v x
    by (induction tp p segs cur rule: traverse.induct) (auto split: if_splits tvalue.splits option.splits)
  show "resolveStrict tp e c = Inr v \<Longrightarrow> resolveLenient tp e c = v"
    "resolveStrict tp e c = Inl x \<Longrightarrow> resolveLenient tp e c = Plain JUndef"
    using t by (auto simp: resolveStrict_def resolveLenient_def Let_def split: if_splits)
qed

section \<open>Tags and blocks\<close>

text \<open>The expression of \<^verbatim>\<open>/^if\s+(.+)$/\<close>, trimmed.\<close>

definition opens_if :: "string \<Rightarrow> bool" where
  "opens_if tag \<longleftrightarrow> (case tag of i # f # c # _ \<Rightarrow> i = CHR ''i'' \<and> f = CHR ''f'' \<and> space_char c | _ \<Rightarrow> False)"

definition if_expr :: "string \<Rightarrow> string option" where
  "if_expr tag =
     (let e = trim_left (drop 2 tag) in
      if opens_if tag \<and> e \<noteq> [] \<and> list_all (\<lambda>c. \<not> line_break c) e then Some (trim e) else None)"

text \<open>
  The scan for the end of a block. \<open>part\<close> is the text collected so far of the part the scan is in, and \<open>first\<close> the
  first part once an \<^verbatim>\<open>else\<close> of this block has been seen. The result: the two parts and what follows the
  block.
\<close>

function collectBlock :: "nat \<Rightarrow> string option \<Rightarrow> string \<Rightarrow> string \<Rightarrow> template_error + (string \<times> string \<times> string)" where
  "collectBlock depth first part s =
     (if s = [] then Inl NeverClosed
      else (case cut ''{%'' s of
          None \<Rightarrow> Inl NoEndif
        | Some (pre, s1) \<Rightarrow> (case cut ''%}'' s1 of
            None \<Rightarrow> Inl UnclosedTagInBlock
          | Some (raw, s2) \<Rightarrow>
              (let tag = trim raw; kept = part @ pre @ ''{%'' @ raw @ ''%}'' in
               if opens_if tag then collectBlock (depth + 1) first kept s2
               else if tag = ''endif'' then
                 (if depth = 1 then Inr (case first of None \<Rightarrow> (part @ pre, [], s2) | Some f \<Rightarrow> (f, part @ pre, s2))
                  else collectBlock (depth - 1) first kept s2)
               else if tag = ''else'' \<and> depth = 1 \<and> first = None then collectBlock depth (Some (part @ pre)) [] s2
               else collectBlock depth first kept s2))))"
  by auto
termination
  by (relation "measure (\<lambda>(d, f, p, s). length s)") (auto dest!: cut_length)

declare collectBlock.simps [simp del]

lemma collectBlock_length:
  "collectBlock d f p s = Inr (a, b, r) \<Longrightarrow>
   length a + length b + length r < length p + (case f of None \<Rightarrow> 0 | Some x \<Rightarrow> length x) + length s"
proof (induction d f p s rule: collectBlock.induct)
  case (1 d f p s)
  from "1.prems" obtain pre s1 raw s2 where
    c: "s \<noteq> []" "cut ''{%'' s = Some (pre, s1)" "cut ''%}'' s1 = Some (raw, s2)"
    by (subst (asm) collectBlock.simps) (auto split: if_splits option.splits)
  note l = cut_length [OF c(2)] cut_length [OF c(3)]
  note e = "1.prems" [unfolded collectBlock.simps [of d f p s]]
  show ?case
    using e "1.IH" [OF c(1,2) refl c(3) refl refl refl] l
    by (auto simp: c Let_def split: if_splits option.splits)
qed


section \<open>The renderer\<close>

text \<open>The construct that opens first: \<^term>\<open>True\<close> for a variable.\<close>

definition next_open :: "string \<Rightarrow> (bool \<times> string \<times> string) option" where
  "next_open s =
     (case (cut [CHR 0x7B, CHR 0x7B] s, cut [CHR 0x7B, CHR 0x25] s) of
        (None, None) \<Rightarrow> None
      | (Some (u, v), None) \<Rightarrow> Some (True, u, v)
      | (None, Some (u, v)) \<Rightarrow> Some (False, u, v)
      | (Some (u, v), Some (u', v')) \<Rightarrow> if length u \<le> length u' then Some (True, u, v) else Some (False, u', v'))"

lemma next_open_length: "next_open s = Some (b, u, v) \<Longrightarrow> length s = length u + 2 + length v"
  by (auto simp: next_open_def split: option.splits if_splits dest!: cut_length)

function renderTemplate :: "template_runtime \<Rightarrow> json \<Rightarrow> string \<Rightarrow> template_error + string" where
  "renderTemplate tp context template =
     (case next_open template of
        None \<Rightarrow> Inr template
      | Some (True, plain, s) \<Rightarrow>
          (case cut [CHR 0x7D, CHR 0x7D] s of
             None \<Rightarrow> Inl UnclosedVariable
           | Some (expr, s1) \<Rightarrow>
               and_then (resolveStrict tp (trim expr) context) (\<lambda>v.
               and_then (renderTemplate tp context s1) (\<lambda>out. Inr (plain @ formatValue tp v @ out))))
      | Some (False, plain, s) \<Rightarrow>
          (case cut [CHR 0x25, CHR 0x7D] s of
             None \<Rightarrow> Inl UnclosedTag
           | Some (raw, s1) \<Rightarrow>
               (case if_expr (trim raw) of
                  None \<Rightarrow> Inl (UnknownTag (trim raw))
                | Some expr \<Rightarrow>
                    (let truthy = isTruthy (resolveLenient tp expr context) in
                     case collectBlock 1 None [] s1 of
                       Inl e \<Rightarrow> Inl e
                     | Inr (ifContent, elseContent, s2) \<Rightarrow>
                         and_then (renderTemplate tp context (if truthy then ifContent else elseContent)) (\<lambda>out1.
                         and_then (renderTemplate tp context s2) (\<lambda>out2. Inr (plain @ out1 @ out2)))))))"
  by auto
termination
  by (relation "measure (\<lambda>(tp, c, s). length s)")
    (auto dest!: cut_length next_open_length collectBlock_length split: if_splits)

declare renderTemplate.simps [simp del]

section \<open>The meaning of a template\<close>

datatype node = Text string | Var string | If string "node list" "node list"

abbreviation var_open :: string where "var_open \<equiv> [CHR 0x7B, CHR 0x7B]"
abbreviation var_close :: string where "var_close \<equiv> [CHR 0x7D, CHR 0x7D]"
abbreviation tag_open :: string where "tag_open \<equiv> [CHR 0x7B, CHR 0x25]"
abbreviation tag_close :: string where "tag_close \<equiv> [CHR 0x25, CHR 0x7D]"

definition if_tag :: "string \<Rightarrow> string" where
  "if_tag e = tag_open @ '' if '' @ e @ '' '' @ tag_close"

definition else_tag :: string where
  "else_tag = tag_open @ '' else '' @ tag_close"

definition endif_tag :: string where
  "endif_tag = tag_open @ '' endif '' @ tag_close"

fun print_node :: "node \<Rightarrow> string"
  and print_nodes :: "node list \<Rightarrow> string" where
  "print_node (Text t) = t"
| "print_node (Var e) = var_open @ e @ var_close"
| "print_node (If e as bs) =
     if_tag e @ print_nodes as @ (if bs = [] then [] else else_tag @ print_nodes bs) @ endif_tag"
| "print_nodes [] = []"
| "print_nodes (n # ns) = print_node n @ print_nodes ns"

fun eval_node :: "template_runtime \<Rightarrow> json \<Rightarrow> node \<Rightarrow> template_error + string"
  and eval_nodes :: "template_runtime \<Rightarrow> json \<Rightarrow> node list \<Rightarrow> template_error + string" where
  "eval_node tp c (Text t) = Inr t"
| "eval_node tp c (Var e) = and_then (resolveStrict tp (trim e) c) (\<lambda>v. Inr (formatValue tp v))"
| "eval_node tp c (If e as bs) = (if isTruthy (resolveLenient tp e c) then eval_nodes tp c as else eval_nodes tp c bs)"
| "eval_nodes tp c [] = Inr []"
| "eval_nodes tp c (n # ns) =
     and_then (eval_node tp c n) (\<lambda>out1. and_then (eval_nodes tp c ns) (\<lambda>out2. Inr (out1 @ out2)))"

text \<open>
  Texts that open nothing and do not end in a brace; expressions without the characters of the delimiters; conditions
  that also do not begin or end with white space and hold no line break.
\<close>

definition text_ok :: "string \<Rightarrow> bool" where
  "text_ok t \<longleftrightarrow> cut var_open t = None \<and> cut tag_open t = None \<and> (t = [] \<or> last t \<noteq> CHR 0x7B)"

definition expr_ok :: "string \<Rightarrow> bool" where
  "expr_ok e \<longleftrightarrow> set e \<inter> {CHR 0x7B, CHR 0x7D, CHR 0x25} = {}"

definition cond_ok :: "string \<Rightarrow> bool" where
  "cond_ok e \<longleftrightarrow> expr_ok e \<and> e \<noteq> [] \<and> \<not> space_char (hd e) \<and> \<not> space_char (last e) \<and> list_all (\<lambda>c. \<not> line_break c) e"

fun node_ok :: "node \<Rightarrow> bool"
  and nodes_ok :: "node list \<Rightarrow> bool" where
  "node_ok (Text t) = text_ok t"
| "node_ok (Var e) = expr_ok e"
| "node_ok (If e as bs) = (cond_ok e \<and> nodes_ok as \<and> nodes_ok bs)"
| "nodes_ok [] = True"
| "nodes_ok (n # ns) = (node_ok n \<and> nodes_ok ns)"

subsection \<open>Delimiters in a printed text\<close>

lemma cut_past:
  assumes "cut [a, b] t = None" "t = [] \<or> last t \<noteq> a"
  shows "cut [a, b] (t @ s) = map_option (\<lambda>(u, v). (t @ u, v)) (cut [a, b] s)"
  using assms
proof (induction t)
  case Nil
  then show ?case by (cases "cut [a, b] s") auto
next
  case (Cons c t)
  have "\<not> starts_with (c # t @ s) [a, b]"
    using Cons.prems by (cases t) (auto split: if_splits)
  moreover have "cut [a, b] t = None" "t = [] \<or> last t \<noteq> a"
    using Cons.prems by (auto split: if_splits)
  ultimately show ?case using Cons.IH by (cases "cut [a, b] s") auto
qed

lemma cut_absent: "a \<notin> set t \<or> b \<notin> set t \<Longrightarrow> cut [a, b] t = None"
proof (induction t)
  case (Cons c t)
  then have "\<not> starts_with (c # t) [a, b]" by (cases t) auto
  then show ?case using Cons by auto
qed simp

lemma cut_here [simp]: "cut [a, b] (a # b # s) = Some ([], s)"
  by simp

lemma cut_at:
  assumes "cut [a, b] t = None" "t = [] \<or> last t \<noteq> a"
  shows "cut [a, b] (t @ a # b # s) = Some (t, s)"
  by (simp add: cut_past [OF assms])

lemma next_open_text:
  assumes "text_ok t"
  shows "next_open (t @ s) = map_option (\<lambda>(k, u, v). (k, t @ u, v)) (next_open s)"
  using assms unfolding text_ok_def next_open_def
  by (auto simp: cut_past split: option.splits)

lemma next_open_var: "next_open (var_open @ s) = Some (True, [], s)"
  by (auto simp: next_open_def split: option.splits)

lemma next_open_tag: "next_open (tag_open @ s) = Some (False, [], s)"
  by (auto simp: next_open_def split: option.splits)

subsection \<open>Rendering a printed text\<close>

lemma and_then_assoc: "and_then (and_then m f) g = and_then m (\<lambda>x. and_then (f x) g)"
  by (cases m) simp_all

lemma and_then_end: "and_then m Inr = m"
  by (cases m) simp_all

lemma render_text:
  "text_ok t \<Longrightarrow> renderTemplate tp c (t @ s) = and_then (renderTemplate tp c s) (\<lambda>out. Inr (t @ out))"
proof (cases "next_open s")
  case None
  assume "text_ok t"
  then show ?thesis using None by (subst (1 2) renderTemplate.simps) (simp add: next_open_text)
next
  case (Some x)
  assume ok: "text_ok t"
  obtain k u v where x: "x = (k, u, v)" by (cases x)
  show ?thesis using ok Some
    by (subst (1 2) renderTemplate.simps)
      (auto simp: next_open_text x and_then_assoc Let_def split: option.splits bool.splits sum.splits)
qed

lemma render_nil [simp]: "renderTemplate tp c [] = Inr []"
  by (subst renderTemplate.simps) (simp add: next_open_def)

lemma expr_absent:
  assumes "expr_ok e"
  shows "CHR 0x7B \<notin> set e" "CHR 0x7D \<notin> set e" "CHR 0x25 \<notin> set e"
  using assms by (auto simp: expr_ok_def)

lemma last_absent: "a \<notin> set t \<Longrightarrow> t = [] \<or> last t \<noteq> a"
  by (metis last_in_set)

lemma render_var:
  assumes "expr_ok e"
  shows "renderTemplate tp c (var_open @ e @ var_close @ s) =
    and_then (resolveStrict tp (trim e) c) (\<lambda>v. and_then (renderTemplate tp c s) (\<lambda>out. Inr (formatValue tp v @ out)))"
proof -
  have "cut var_close (e @ var_close @ s) = Some (e, s)"
    using cut_at [OF cut_absent last_absent, of "CHR 0x7D" e] expr_absent(2) [OF assms] by simp
  then show ?thesis
    by (subst renderTemplate.simps) (simp add: next_open_var del: append_Cons)
qed

lemma trim_left_hd: "s = [] \<or> \<not> space_char (hd s) \<Longrightarrow> trim_left s = s"
  by (cases s) simp_all

lemma trim_id: "e \<noteq> [] \<Longrightarrow> \<not> space_char (hd e) \<Longrightarrow> \<not> space_char (last e) \<Longrightarrow> trim e = e"
  by (simp add: trim_def trim_left_hd hd_rev)

lemma trim_padded:
  "e \<noteq> [] \<Longrightarrow> \<not> space_char (hd e) \<Longrightarrow> \<not> space_char (last e) \<Longrightarrow> trim ('' '' @ e @ '' '') = e"
proof -
  assume e: "e \<noteq> []" "\<not> space_char (hd e)" "\<not> space_char (last e)"
  have sp: "space_char CHR '' ''" by (simp add: space_char_def)
  have "trim_left ('' '' @ e @ '' '') = e @ '' ''"
    using e by (simp add: sp trim_left_hd)
  moreover have "trim_left (rev (e @ '' '')) = rev e" using e by (simp add: sp trim_left_hd hd_rev)
  ultimately show "trim ('' '' @ e @ '' '') = e" by (simp add: trim_def)
qed

lemma cond_tag:
  assumes "cond_ok e"
  shows "trim ('' if '' @ e @ '' '') = ''if '' @ e" "opens_if (''if '' @ e)" "if_expr (''if '' @ e) = Some e"
    "cut tag_close ('' if '' @ e @ '' '' @ tag_close @ s) = Some ('' if '' @ e @ '' '', s)"
proof -
  have e: "e \<noteq> []" "\<not> space_char (hd e)" "\<not> space_char (last e)" "list_all (\<lambda>c. \<not> line_break c) e"
    using assms by (simp_all add: cond_ok_def)
  have sp: "space_char CHR '' ''" "\<not> space_char CHR ''i''" by (simp_all add: space_char_def)
  show "trim ('' if '' @ e @ '' '') = ''if '' @ e" using trim_padded [of "''if '' @ e"] e sp by simp
  show o: "opens_if (''if '' @ e)" by (simp add: opens_if_def sp)
  show "if_expr (''if '' @ e) = Some e"
    using e o by (simp add: if_expr_def sp trim_left_hd trim_id Let_def)
  have "CHR 0x25 \<notin> set ('' if '' @ e @ '' '')" using assms expr_absent(3) by (auto simp: cond_ok_def)
  from cut_at [OF cut_absent last_absent, OF disjI1, OF this this]
  show "cut tag_close ('' if '' @ e @ '' '' @ tag_close @ s) = Some ('' if '' @ e @ '' '', s)" by simp
qed

lemma fixed_tags:
  "cut tag_close ('' else '' @ tag_close @ s) = Some ('' else '', s)"
  "cut tag_close ('' endif '' @ tag_close @ s) = Some ('' endif '', s)"
  "trim '' else '' = ''else''" "trim '' endif '' = ''endif''"
  "\<not> opens_if ''else''" "\<not> opens_if ''endif''"
  by (simp_all add: trim_def space_char_def opens_if_def)

subsection \<open>Finding the end of a printed block\<close>

text \<open>What a scan for tags passes over.\<close>

definition tag_free :: "string \<Rightarrow> bool" where
  "tag_free t \<longleftrightarrow> cut tag_open t = None \<and> (t = [] \<or> last t \<noteq> CHR 0x7B)"

lemma collect_past: "tag_free t \<Longrightarrow> s \<noteq> [] \<Longrightarrow> collectBlock d f p (t @ s) = collectBlock d f (p @ t) s"
  unfolding tag_free_def
  by (subst (1 2) collectBlock.simps) (auto simp: cut_past Let_def split: option.splits)

lemma text_tag_free: "text_ok t \<Longrightarrow> tag_free t"
  by (simp add: text_ok_def tag_free_def)

lemma var_tag_free: "expr_ok e \<Longrightarrow> tag_free (var_open @ e @ var_close)"
  unfolding tag_free_def by (rule conjI, rule cut_absent) (auto dest: expr_absent)

lemma collect_if:
  assumes "cond_ok e"
  shows "collectBlock d f p (if_tag e @ s) = collectBlock (d + 1) f (p @ if_tag e) s"
proof -
  have "cut tag_open (if_tag e @ s) = Some ([], '' if '' @ e @ '' '' @ tag_close @ s)" by (simp add: if_tag_def)
  moreover have "if_tag e @ s \<noteq> []" by (simp add: if_tag_def)
  ultimately show ?thesis
    by (subst collectBlock.simps) (simp add: cond_tag [OF assms] Let_def del: append_Cons, simp add: if_tag_def)
qed

lemma collect_else:
  "collectBlock d f p (else_tag @ s) =
    (if d = 1 \<and> f = None then collectBlock d (Some p) [] s else collectBlock d f (p @ else_tag) s)"
proof -
  have "cut tag_open (else_tag @ s) = Some ([], '' else '' @ tag_close @ s)" by (simp add: else_tag_def)
  moreover have "else_tag @ s \<noteq> []" by (simp add: else_tag_def)
  ultimately show ?thesis
    by (subst collectBlock.simps) (simp add: fixed_tags Let_def del: append_Cons, simp add: else_tag_def)
qed

lemma collect_endif:
  "collectBlock d f p (endif_tag @ s) =
    (if d = 1 then Inr (case f of None \<Rightarrow> (p, [], s) | Some x \<Rightarrow> (x, p, s)) else collectBlock (d - 1) f (p @ endif_tag) s)"
proof -
  have "cut tag_open (endif_tag @ s) = Some ([], '' endif '' @ tag_close @ s)" by (simp add: endif_tag_def)
  moreover have "endif_tag @ s \<noteq> []" by (simp add: endif_tag_def)
  ultimately show ?thesis
    by (subst collectBlock.simps)
      (simp add: fixed_tags Let_def del: append_Cons cong: option.case_cong, cases f, simp_all add: endif_tag_def)
qed

lemma collect_print:
  "node_ok n \<Longrightarrow> s \<noteq> [] \<Longrightarrow> d \<ge> 1 \<Longrightarrow> collectBlock d f p (print_node n @ s) = collectBlock d f (p @ print_node n) s"
  "nodes_ok ns \<Longrightarrow> s \<noteq> [] \<Longrightarrow> d \<ge> 1 \<Longrightarrow> collectBlock d f p (print_nodes ns @ s) = collectBlock d f (p @ print_nodes ns) s"
proof (induction n and ns arbitrary: d f p s and d f p s rule: print_node_print_nodes.induct)
  case (1 t)
  then show ?case by (simp add: collect_past text_tag_free)
next
  case (2 e)
  then have "collectBlock d f p ((var_open @ e @ var_close) @ s) = collectBlock d f (p @ (var_open @ e @ var_close)) s"
    by (intro collect_past var_tag_free) simp_all
  then show ?case by simp
next
  case (3 e as bs)
  have ne: "x @ endif_tag @ s \<noteq> []" "else_tag @ x @ endif_tag @ s \<noteq> []" for x by (simp_all add: endif_tag_def)
  show ?case
    using 3 ne by (simp add: collect_if collect_else collect_endif)
next
  case (5 n ns)
  then show ?case by (simp del: print_node.simps)
qed simp


lemma collect_block:
  assumes "nodes_ok as" "nodes_ok bs"
  shows "collectBlock 1 None [] (print_nodes as @ (if bs = [] then [] else else_tag @ print_nodes bs) @ endif_tag @ s)
    = Inr (print_nodes as, print_nodes bs, s)"
proof -
  have ne: "endif_tag @ s \<noteq> []" "else_tag @ print_nodes bs @ endif_tag @ s \<noteq> []" by (simp_all add: endif_tag_def else_tag_def)
  show ?thesis
    using collect_print(2) [OF assms(1)] collect_print(2) [OF assms(2)] ne
    by (simp add: collect_else collect_endif)
qed

lemma render_if:
  assumes "cond_ok e" "nodes_ok as" "nodes_ok bs"
  shows "renderTemplate tp c (print_node (If e as bs) @ s) =
    and_then (renderTemplate tp c (print_nodes (if isTruthy (resolveLenient tp e c) then as else bs))) (\<lambda>out1.
    and_then (renderTemplate tp c s) (\<lambda>out2. Inr (out1 @ out2)))"
proof -
  define rest where "rest = print_nodes as @ (if bs = [] then [] else else_tag @ print_nodes bs) @ endif_tag @ s"
  have "print_node (If e as bs) @ s = tag_open @ '' if '' @ e @ '' '' @ tag_close @ rest"
    by (simp add: rest_def if_tag_def)
  moreover have "collectBlock 1 None [] rest = Inr (print_nodes as, print_nodes bs, s)"
    unfolding rest_def by (rule collect_block [OF assms(2,3)])
  ultimately show ?thesis
    by (subst renderTemplate.simps)
      (simp add: next_open_tag cond_tag [OF assms(1)] if_distrib [of print_nodes] Let_def del: append_Cons print_node.simps)
qed

lemma render_print:
  "node_ok n \<Longrightarrow> renderTemplate tp c (print_node n @ s)
    = and_then (eval_node tp c n) (\<lambda>out1. and_then (renderTemplate tp c s) (\<lambda>out2. Inr (out1 @ out2)))"
  "nodes_ok ns \<Longrightarrow> renderTemplate tp c (print_nodes ns @ s)
    = and_then (eval_nodes tp c ns) (\<lambda>out1. and_then (renderTemplate tp c s) (\<lambda>out2. Inr (out1 @ out2)))"
proof (induction n and ns arbitrary: s and s rule: print_node_print_nodes.induct)
  case (1 t)
  then show ?case by (simp add: render_text)
next
  case (2 e)
  then show ?case using render_var [of e tp c s]
    by (cases "resolveStrict tp (trim e) c") (simp_all)
next
  case (3 e as bs)
  have ok: "cond_ok e" "nodes_ok as" "nodes_ok bs" using "3.prems" by simp_all
  have "renderTemplate tp c (print_nodes as) = eval_nodes tp c as" "renderTemplate tp c (print_nodes bs) = eval_nodes tp c bs"
    using "3.IH"(1) [OF ok(2), of "[]"] "3.IH"(2) [OF _ ok(3), of "[]"]
    by (simp add: and_then_end, cases "bs = []") (simp_all add: and_then_end)
  then show ?case by (simp add: render_if [OF ok] del: print_node.simps)
next
  case 4
  then show ?case by (cases "renderTemplate tp c s") simp_all
next
  case (5 n ns)
  then show ?case
    by (simp add: and_then_assoc del: print_node.simps eval_node.simps)
qed

text \<open>
  C37. The renderer implements the language of texts, variables and nested conditionals: rendering the text of a tree
  yields the value of the tree, and fails exactly when the value does, with the same error, which is the one of the
  first unknown variable in a part that is rendered; parts that are not chosen are not looked at.
\<close>

theorem renders_the_tree:
  assumes "nodes_ok ns"
  shows "renderTemplate tp c (print_nodes ns) = eval_nodes tp c ns"
  using render_print(2) [OF assms, of tp c "[]"] by (cases "eval_nodes tp c ns") simp_all


theorem renders_the_tree_witness:
  "renderTemplate \<lparr> tp_number_text = (\<lambda>n. ''7''), tp_inherited = (\<lambda>v k. None) \<rparr> (JObj [(''a'', JObj [(''b'', JStr ''x'')])])
     (print_nodes [Text ''Hi '', Var '' a.b '', If ''a'' [Var ''a.b''] [Var ''zzz'']])
    = Inr ''Hi xx''"
proof -
  have "nodes_ok [Text ''Hi '', Var '' a.b '', If ''a'' [Var ''a.b''] [Var ''zzz'']]" by code_simp
  from renders_the_tree [OF this] show ?thesis by (simp only:) code_simp
qed

end
