(* ===== verification/Workflow.thy ===== *)
theory Workflow
  imports Workflow_Template "HOL-Library.Word"
begin

unbundle bit_operations_syntax

text \<open>
  The workflow files (\<^verbatim>\<open>src/src/domain/forge/workflow\<close>): \<^verbatim>\<open>parser.ts\<close> splits a file into its
  front matter and its prompt, \<^verbatim>\<open>validator.ts\<close> checks the configuration with one of two schemas, keeps a hash of
  the contents to notice changes and asks for the fields a dispatch needs, \<^verbatim>\<open>reality_source.ts\<close> insists on one of
  the two kinds. The YAML parser and the schemas of \<^verbatim>\<open>zod\<close> are arguments. The theorems: a front matter is read back,
  the hash is 32-bit FNV-1a over the code units, and when a validated workflow can be dispatched.
\<close>

datatype workflow_error =
    MissingWorkflowFile | ClosingDelimiterMissing | YamlInvalid | FrontMatterNotAMap string
  | RealitySourceInvalid "string list" | SymphonyInvalid | ExpectedReality
  | TrackerKindRequired | CodexCommandRequired | RunnerCommandRequired | PrimaryStreamRequired

section \<open>Front matter\<close>

record parsed_workflow =
  pw_config :: "(string \<times> json) list"
  pw_promptTemplate :: string

definition FRONT_MATTER_DELIM :: string where
  "FRONT_MATTER_DELIM = ''---''"

definition newline :: char where
  "newline = CHR 0x0A"

definition type_name :: "json \<Rightarrow> string" where
  "type_name v = (case v of JArr _ \<Rightarrow> ''array'' | JBool _ \<Rightarrow> ''boolean'' | JNum _ \<Rightarrow> ''number'' | JStr _ \<Rightarrow> ''string''
     | JUndef \<Rightarrow> ''undefined'' | _ \<Rightarrow> ''object'')"

definition is_delimiter :: "string \<Rightarrow> bool" where
  "is_delimiter l \<longleftrightarrow> trim l = FRONT_MATTER_DELIM"

text \<open>\<open>yaml\<close> is \<^verbatim>\<open>parse\<close> of the package: it throws (\<^term>\<open>None\<close>) or returns a value.\<close>

definition parseWorkflowFile :: "(string \<Rightarrow> json option) \<Rightarrow> string \<Rightarrow> workflow_error + parsed_workflow" where
  "parseWorkflowFile yaml content =
     (let trimmed = trim_left content in
      if \<not> starts_with trimmed FRONT_MATTER_DELIM
      then Inr \<lparr> pw_config = [], pw_promptTemplate = trim trimmed \<rparr>
      else
        (let after = drop (length FRONT_MATTER_DELIM) trimmed;
             normalized = (if starts_with after [newline] then drop 1 after else after);
             lines = split_char newline normalized;
             front = takeWhile (\<lambda>l. \<not> is_delimiter l) lines in
         if length front = length lines then Inl ClosingDelimiterMissing
         else
           (let body = join_with [newline] (drop (length front + 1) lines) in
            case yaml (join_with [newline] front) of
              None \<Rightarrow> Inl YamlInvalid
            | Some v \<Rightarrow>
                (if v = JNull \<or> v = JUndef then Inr \<lparr> pw_config = [], pw_promptTemplate = trim body \<rparr>
                 else (case v of
                     JObj fs \<Rightarrow> Inr \<lparr> pw_config = fs, pw_promptTemplate = trim body \<rparr>
                   | _ \<Rightarrow> Inl (FrontMatterNotAMap (type_name v)))))))"

definition loadWorkflowFile :: "(string \<Rightarrow> json option) \<Rightarrow> string option \<Rightarrow> workflow_error + parsed_workflow" where
  "loadWorkflowFile yaml file =
     (case file of None \<Rightarrow> Inl MissingWorkflowFile | Some content \<Rightarrow> parseWorkflowFile yaml content)"

lemma split_char_ne: "split_char d s \<noteq> []"
  by (cases s) (auto split: list.splits)

lemma split_char_line: "d \<notin> set l \<Longrightarrow> split_char d (l @ d # s) = l # split_char d s"
  by (induction l) auto

lemma split_char_append: "split_char d (a @ d # s) = split_char d a @ split_char d s"
proof (induction a)
  case (Cons c a)
  then show ?case using split_char_ne [of d a] by (auto split: list.splits)
qed simp

lemma join_split [simp]: "join_with [d] (split_char d s) = s"
proof (induction s)
  case (Cons c s)
  obtain w ws where w: "split_char d s = w # ws" using split_char_ne [of d s] by (cases "split_char d s") auto
  show ?case using Cons by (cases ws) (auto simp: w)
qed simp

text \<open>
  A front matter is read back: a file of the delimiter, a text none of whose lines is a delimiter, the delimiter and
  a body yields the configuration that the YAML parser makes of that text, and the body without the white space around
  it.
\<close>

theorem front_matter_read_back:
  assumes "\<forall>l \<in> set (split_char newline text_of). \<not> is_delimiter l" "yaml text_of = Some (JObj config)"
  shows "parseWorkflowFile yaml (FRONT_MATTER_DELIM @ [newline] @ text_of @ [newline] @ FRONT_MATTER_DELIM @ [newline] @ body)
    = Inr \<lparr> pw_config = config, pw_promptTemplate = trim body \<rparr>"
proof -
  define content where "content = FRONT_MATTER_DELIM @ [newline] @ text_of @ [newline] @ FRONT_MATTER_DELIM @ [newline] @ body"
  have trimmed: "trim_left content = content" by (simp add: content_def FRONT_MATTER_DELIM_def space_char_def)
  have delim: "is_delimiter FRONT_MATTER_DELIM"
    by (simp add: is_delimiter_def FRONT_MATTER_DELIM_def trim_def space_char_def)
  have "newline \<notin> set FRONT_MATTER_DELIM" by (simp add: newline_def FRONT_MATTER_DELIM_def)
  from split_char_line [OF this] have lines: "split_char newline (text_of @ newline # FRONT_MATTER_DELIM @ newline # body)
      = split_char newline text_of @ FRONT_MATTER_DELIM # split_char newline body"
    by (simp add: split_char_append)
  have front: "takeWhile (\<lambda>l. \<not> is_delimiter l) (split_char newline text_of @ FRONT_MATTER_DELIM # split_char newline body)
      = split_char newline text_of"
    using assms(1) delim by (simp add: takeWhile_append2 takeWhile_eq_all_conv)
  have start: "starts_with content FRONT_MATTER_DELIM"
    "drop (length FRONT_MATTER_DELIM) content = newline # text_of @ newline # FRONT_MATTER_DELIM @ newline # body"
    by (simp_all add: content_def starts_with_iff)
  show ?thesis
    unfolding content_def [symmetric] parseWorkflowFile_def trimmed Let_def start
    using start(1) assms(2) by (simp add: lines front)
qed

lemma yaml_demo:
  "parseWorkflowFile (\<lambda>t. if t = ''a: 1'' then Some (JObj [(''a'', JNum 1)]) else None)
     (FRONT_MATTER_DELIM @ [newline] @ ''a: 1'' @ [newline] @ FRONT_MATTER_DELIM @ [newline] @ '' Hi '')
   = Inr \<lparr> pw_config = [(''a'', JNum 1)], pw_promptTemplate = trim '' Hi '' \<rparr>"
  by code_simp

theorem front_matter_read_back_witness:
  "parseWorkflowFile (\<lambda>t. if t = ''a: 1'' then Some (JObj [(''a'', JNum 1)]) else None)
     (FRONT_MATTER_DELIM @ [newline] @ ''a: 1'' @ [newline] @ FRONT_MATTER_DELIM @ [newline] @ '' Hi '')
   = Inr \<lparr> pw_config = [(''a'', JNum 1)], pw_promptTemplate = trim '' Hi '' \<rparr>"
  by (rule front_matter_read_back) (code_simp, simp)

section \<open>The content hash\<close>

text \<open>
  \<^verbatim>\<open>^\<close> and \<^verbatim>\<open><<\<close> convert their operands to signed 32-bit integers and return one; the sums are
  doubles, which hold these numbers exactly; \<^verbatim>\<open>>>> 0\<close> takes the remainder by 2 ^ 32.
\<close>

definition to_int32 :: "int \<Rightarrow> int" where
  "to_int32 x = signed_take_bit 31 x"

definition shl32 :: "int \<Rightarrow> nat \<Rightarrow> int" where
  "shl32 x k = to_int32 (push_bit k (to_int32 x))"

definition hash_sum :: "int \<Rightarrow> int" where
  "hash_sum h = h + (shl32 h 1 + shl32 h 4 + shl32 h 7 + shl32 h 8 + shl32 h 24)"

definition hash_step :: "char \<Rightarrow> int \<Rightarrow> int" where
  "hash_step c h = hash_sum (to_int32 h XOR int (of_char c)) mod 2 ^ 32"

fun hex_text :: "nat \<Rightarrow> string" where
  "hex_text n = (if n < 16 then [hex_digit n] else hex_text (n div 16) @ [hex_digit (n mod 16)])"

declare hex_text.simps [simp del]

definition hashContent :: "string \<Rightarrow> string" where
  "hashContent s = pad_start 8 CHR ''0'' (hex_text (nat (fold hash_step s 0x811c9dc5)))"

text \<open>FNV-1a on 32-bit words.\<close>

definition fnv1a :: "string \<Rightarrow> 32 word" where
  "fnv1a s = fold (\<lambda>c h. (h XOR of_nat (of_char c)) * 16777619) s 0x811c9dc5"

lemma int32_bit: "n < 32 \<Longrightarrow> bit (to_int32 x) n = bit x n"
  by (cases "n = 31") (auto simp: to_int32_def bit_simps min_def)

lemma int32_word [simp]: "(word_of_int (to_int32 x) :: 32 word) = word_of_int x"
  by (rule bit_word_eqI) (simp add: int32_bit bit_simps)

lemma shl32_word: "(word_of_int (shl32 x k) :: 32 word) = word_of_int x * 2 ^ k"
proof -
  have "(word_of_int (push_bit k (to_int32 x)) :: 32 word) = word_of_int (to_int32 x) * 2 ^ k"
    by (simp add: push_bit_eq_mult)
  then show ?thesis by (simp add: shl32_def)
qed

lemma hash_step_word: "(word_of_int (hash_step c h) :: 32 word) = (word_of_int h XOR of_nat (of_char c)) * 16777619"
proof -
  define x where "x = to_int32 h XOR int (of_char c)"
  have x: "(word_of_int x :: 32 word) = word_of_int h XOR of_nat (of_char c)"
  proof -
    have "(word_of_int x :: 32 word) = word_of_int (to_int32 h) XOR word_of_int (int (of_char c))"
      unfolding x_def by (rule bit_word_eqI) (simp add: int32_bit bit_simps)
    then show ?thesis by simp
  qed
  have "(word_of_int (hash_step c h) :: 32 word) = word_of_int (hash_sum x)"
    unfolding hash_step_def x_def [symmetric] by (rule bit_word_eqI) (simp only: take_bit_eq_mod [symmetric], simp add: bit_simps)
  also have "\<dots> = word_of_int x + (word_of_int (shl32 x 1) + word_of_int (shl32 x 4) + word_of_int (shl32 x 7)
      + word_of_int (shl32 x 8) + word_of_int (shl32 x 24))"
    by (simp add: hash_sum_def)
  also have "\<dots> = word_of_int x * 16777619" unfolding shl32_word by (simp add: algebra_simps)
  finally show ?thesis by (simp only: x)
qed


lemma hash_step_range: "0 \<le> hash_step c h \<and> hash_step c h < 2 ^ 32"
  by (simp add: hash_step_def)

lemma hash_fold_word:
  "word_of_int (fold hash_step s h) = fold (\<lambda>c h. (h XOR of_nat (of_char c)) * 16777619) s (word_of_int h :: 32 word)"
  by (induction s arbitrary: h) (simp_all add: hash_step_word)

lemma hash_fold_range: "0 \<le> h \<Longrightarrow> h < 2 ^ 32 \<Longrightarrow> 0 \<le> fold hash_step s h \<and> fold hash_step s h < 2 ^ 32"
proof (induction s arbitrary: h)
  case (Cons c s)
  show ?case using Cons.IH [of "hash_step c h"] hash_step_range [of c h] by simp
qed simp

text \<open>The sums stay within the integers a double holds exactly.\<close>

lemma int32_range: "- (2 ^ 31) \<le> to_int32 x \<and> to_int32 x < 2 ^ 31"
  using signed_take_bit_int_greater_eq_minus_exp [of 31 x] signed_take_bit_int_less_exp [of 31 x] by (simp add: to_int32_def)

lemma hash_sum_exact: "\<bar>hash_sum (to_int32 x)\<bar> < 2 ^ 53"
proof -
  have "\<bar>shl32 y k\<bar> \<le> 2 ^ 31" for y k
    using int32_range [of "push_bit k (to_int32 y)"] unfolding shl32_def by linarith
  note b = this [of "to_int32 x" 1] this [of "to_int32 x" 4] this [of "to_int32 x" 7] this [of "to_int32 x" 8] this [of "to_int32 x" 24]
  show ?thesis using b int32_range [of x] unfolding hash_sum_def by (simp add: abs_less_iff abs_le_iff)
qed

lemma hex_text_length: "n < 16 ^ Suc k \<Longrightarrow> length (hex_text n) \<le> Suc k"
proof (induction k arbitrary: n)
  case 0
  then show ?case by (subst hex_text.simps) simp
next
  case (Suc k)
  then have "n div 16 < 16 ^ Suc k" by (simp add: div_less_iff_less_mult mult.commute)
  then show ?case using Suc.IH [of "n div 16"] by (subst hex_text.simps) simp
qed

text \<open>
  C38. The content hash of a workflow is 32-bit FNV-1a over the code units of the text, printed in hexadecimal on exactly
  eight digits: the shifts and sums on signed numbers and doubles compute the multiplication by the FNV prime, and no
  intermediate sum leaves the exact range.
\<close>

theorem content_hash_is_fnv1a:
  "hashContent s = pad_start 8 CHR ''0'' (hex_text (unat (fnv1a s))) \<and> length (hashContent s) = 8"
proof -
  define h where "h = fold hash_step s 0x811c9dc5"
  have range: "0 \<le> h" "h < 2 ^ 32" using hash_fold_range [of "0x811c9dc5" s] by (simp_all add: h_def)
  have "fnv1a s = word_of_int h" using hash_fold_word [of s "0x811c9dc5"] by (simp add: fnv1a_def h_def)
  moreover have "unat (word_of_int h :: 32 word) = nat h"
    using range by (simp add: unat_eq_nat_uint uint_word_of_int)
  moreover have "length (hex_text (nat h)) \<le> 8" using hex_text_length [of "nat h" 7] range by simp
  ultimately show ?thesis by (simp add: hashContent_def h_def [symmetric] pad_start_def)
qed

section \<open>Validation\<close>

datatype workflow_flavor = Symphony | Reality

definition has_field :: "(string \<times> json) list \<Rightarrow> string \<Rightarrow> bool" where
  "has_field fs k \<longleftrightarrow> map_of fs k \<noteq> None"

definition detectWorkflowFlavor :: "(string \<times> json) list \<Rightarrow> workflow_flavor" where
  "detectWorkflowFlavor config =
     (let hasRealityMarker = has_field config ''reality'' \<or> has_field config ''runner'' \<or> has_field config ''rubric'';
          hasSymphonyMarker = has_field config ''tracker'' \<or> has_field config ''codex'' in
      if hasRealityMarker \<and> \<not> hasSymphonyMarker then Reality
      else if hasRealityMarker \<and> hasSymphonyMarker then Reality
      else Symphony)"

text \<open>An issue of a schema is its code and its path; \<open>safeParse\<close> gives the issues or the parsed data.\<close>

type_synonym schema = "(string \<times> json) list \<Rightarrow> (string \<times> string list) list + (string \<times> json) list"

record schemas =
  sc_symphony :: schema
  sc_reality :: schema

record validated_workflow =
  vw_flavor :: workflow_flavor
  vw_filePath :: "string option"
  vw_rawConfig :: "(string \<times> json) list"
  vw_config :: "(string \<times> json) list"
  vw_promptTemplate :: string
  vw_contentHash :: string

definition validateParsedWorkflow ::
  "(rat \<Rightarrow> string) \<Rightarrow> schemas \<Rightarrow> parsed_workflow \<Rightarrow> string option \<Rightarrow> workflow_error + validated_workflow" where
  "validateParsedWorkflow num sc p filePath =
     (let flavor = detectWorkflowFlavor (pw_config p);
          validated = (\<lambda>cfg. \<lparr> vw_flavor = flavor, vw_filePath = filePath, vw_rawConfig = pw_config p, vw_config = cfg,
            vw_promptTemplate = pw_promptTemplate p,
            vw_contentHash = hashContent (stringify num (JObj (pw_config p)) @ pw_promptTemplate p) \<rparr>) in
      if flavor = Reality
      then (case sc_reality sc (pw_config p) of
          Inl issues \<Rightarrow> Inl (RealitySourceInvalid (map (\<lambda>(code, path). join_with ''.'' path)
            (filter (\<lambda>(code, path). code = ''invalid_type'') issues)))
        | Inr cfg \<Rightarrow> Inr (validated cfg))
      else (case sc_symphony sc (pw_config p) of
          Inl issues \<Rightarrow> Inl SymphonyInvalid
        | Inr cfg \<Rightarrow> Inr (validated cfg)))"

definition validateWorkflowString ::
  "(string \<Rightarrow> json option) \<Rightarrow> (rat \<Rightarrow> string) \<Rightarrow> schemas \<Rightarrow> string \<Rightarrow> string option \<Rightarrow> workflow_error + validated_workflow" where
  "validateWorkflowString yaml num sc content filePath =
     and_then (parseWorkflowFile yaml content) (\<lambda>p. validateParsedWorkflow num sc p filePath)"

definition validateWorkflowFile ::
  "(string \<Rightarrow> json option) \<Rightarrow> (rat \<Rightarrow> string) \<Rightarrow> schemas \<Rightarrow> string option \<Rightarrow> string \<Rightarrow> workflow_error + validated_workflow" where
  "validateWorkflowFile yaml num sc file filePath =
     and_then (loadWorkflowFile yaml file) (\<lambda>p. validateParsedWorkflow num sc p (Some filePath))"

definition isRealitySource :: "validated_workflow \<Rightarrow> bool" where
  "isRealitySource w \<longleftrightarrow> vw_flavor w = Reality"

definition validateRealitySourceString ::
  "(string \<Rightarrow> json option) \<Rightarrow> (rat \<Rightarrow> string) \<Rightarrow> schemas \<Rightarrow> string \<Rightarrow> string option \<Rightarrow> workflow_error + validated_workflow" where
  "validateRealitySourceString yaml num sc content filePath =
     and_then (validateWorkflowString yaml num sc content filePath)
       (\<lambda>w. if vw_flavor w \<noteq> Reality then Inl ExpectedReality else Inr w)"

definition validateRealitySourceFile ::
  "(string \<Rightarrow> json option) \<Rightarrow> (rat \<Rightarrow> string) \<Rightarrow> schemas \<Rightarrow> string option \<Rightarrow> string \<Rightarrow> workflow_error + validated_workflow" where
  "validateRealitySourceFile yaml num sc file filePath =
     and_then (validateWorkflowFile yaml num sc file filePath)
       (\<lambda>w. if vw_flavor w \<noteq> Reality then Inl ExpectedReality else Inr w)"

definition renderWorkflowPrompt :: "template_runtime \<Rightarrow> validated_workflow \<Rightarrow> json \<Rightarrow> template_error + string" where
  "renderWorkflowPrompt tp w context = renderTemplate tp context (vw_promptTemplate w)"

text \<open>\<^verbatim>\<open>cfg.a?.b\<close> on data, and the truth of a value in a condition.\<close>

definition opt_field :: "json \<Rightarrow> string \<Rightarrow> json" where
  "opt_field v k = (case v of JObj fs \<Rightarrow> (case map_of fs k of None \<Rightarrow> JUndef | Some x \<Rightarrow> x) | _ \<Rightarrow> JUndef)"

definition js_true :: "json \<Rightarrow> bool" where
  "js_true v \<longleftrightarrow> v \<notin> {JUndef, JNull, JBool False, JNum 0, JStr []}"

definition dispatchPreflight :: "validated_workflow \<Rightarrow> workflow_error option" where
  "dispatchPreflight w =
     (let cfg = JObj (vw_config w); at2 = (\<lambda>a b. opt_field (opt_field cfg a) b) in
      if vw_flavor w = Symphony
      then (if \<not> js_true (at2 ''tracker'' ''kind'') then Some TrackerKindRequired
            else if \<not> js_true (at2 ''codex'' ''command'') then Some CodexCommandRequired else None)
      else (if \<not> js_true (at2 ''runner'' ''command'') then Some RunnerCommandRequired
            else if \<not> js_true (at2 ''reality'' ''primary_stream'') then Some PrimaryStreamRequired else None))"

text \<open>
  What the two schemas of \<^verbatim>\<open>schema.ts\<close> promise of the data they let through: texts of at least one character,
  the values of an enumeration, and the default of a command; the tracker is optional, its kind is not.
\<close>

definition schemas_documented :: "schemas \<Rightarrow> bool" where
  "schemas_documented sc \<longleftrightarrow>
     (\<forall>c d. sc_reality sc c = Inr d \<longrightarrow>
        (\<exists>t. t \<noteq> [] \<and> opt_field (opt_field (JObj d) ''runner'') ''command'' = JStr t)
        \<and> opt_field (opt_field (JObj d) ''reality'') ''primary_stream'' \<in> JStr ` {''geox'', ''wealth'', ''well'', ''multi''})
     \<and> (\<forall>c d. sc_symphony sc c = Inr d \<longrightarrow>
        (\<exists>t. t \<noteq> [] \<and> opt_field (opt_field (JObj d) ''codex'') ''command'' = JStr t)
        \<and> (if has_field c ''tracker'' \<and> map_of c ''tracker'' \<noteq> Some JUndef
           then \<exists>t. t \<noteq> [] \<and> opt_field (opt_field (JObj d) ''tracker'') ''kind'' = JStr t
           else opt_field (JObj d) ''tracker'' = JUndef))"

text \<open>
  A workflow that passed its schema can be dispatched, unless it is a Symphony workflow without a tracker: then, and
  only then, the preflight fails, and it names the tracker. The other three requirements of the preflight are never the
  reason.
\<close>

theorem preflight_needs_tracker:
  assumes "schemas_documented sc" "validateWorkflowString yaml num sc content filePath = Inr w"
  shows "dispatchPreflight w =
    (if vw_flavor w = Reality then None
     else if has_field (vw_rawConfig w) ''tracker'' \<and> map_of (vw_rawConfig w) ''tracker'' \<noteq> Some JUndef then None
     else Some TrackerKindRequired)"
proof -
  obtain p where p: "validateParsedWorkflow num sc p filePath = Inr w"
    using assms(2) by (auto simp: validateWorkflowString_def and_then_Inr)
  have raw: "vw_rawConfig w = pw_config p"
    "vw_flavor w = Reality \<Longrightarrow> sc_reality sc (pw_config p) = Inr (vw_config w)"
    "vw_flavor w \<noteq> Reality \<Longrightarrow> sc_symphony sc (pw_config p) = Inr (vw_config w)"
    using p by (auto simp: validateParsedWorkflow_def Let_def split: if_splits sum.splits)
  show ?thesis
  proof (cases "vw_flavor w")
    case Reality
    then show ?thesis using assms(1) raw(2) unfolding schemas_documented_def
      by (fastforce simp: dispatchPreflight_def Let_def js_true_def)
  next
    case Symphony
    have "opt_field JUndef k = JUndef" for k by (simp add: opt_field_def)
    then show ?thesis using Symphony assms(1) raw(1,3) unfolding schemas_documented_def
      by (fastforce simp: dispatchPreflight_def Let_def js_true_def split: if_splits)
  qed
qed

definition demo_schemas :: schemas where
  "demo_schemas = \<lparr> sc_symphony = (\<lambda>c. Inr ((if has_field c ''tracker'' \<and> map_of c ''tracker'' \<noteq> Some JUndef
       then [(''tracker'', JObj [(''kind'', JStr ''linear'')])] else []) @ [(''codex'', JObj [(''command'', JStr ''codex'')])])),
     sc_reality = (\<lambda>c. Inr [(''runner'', JObj [(''command'', JStr ''run'')]), (''reality'', JObj [(''primary_stream'', JStr ''geox'')])]) \<rparr>"

theorem preflight_needs_tracker_witness:
  "schemas_documented demo_schemas
   \<and> (\<exists>w. validateWorkflowString (\<lambda>t. None) (\<lambda>n. ''1'') demo_schemas ''Hi'' None = Inr w
        \<and> dispatchPreflight w = Some TrackerKindRequired)"
proof
  show d: "schemas_documented demo_schemas"
    by (auto simp: schemas_documented_def demo_schemas_def opt_field_def)
  obtain w where w: "validateWorkflowString (\<lambda>t. None) (\<lambda>n. ''1'') demo_schemas ''Hi'' None = Inr w"
    "vw_flavor w = Symphony" "vw_rawConfig w = []"
    by (simp add: validateWorkflowString_def parseWorkflowFile_def FRONT_MATTER_DELIM_def space_char_def
        validateParsedWorkflow_def detectWorkflowFlavor_def has_field_def demo_schemas_def Let_def)
  from preflight_needs_tracker [OF d w(1)] w
  show "\<exists>w. validateWorkflowString (\<lambda>t. None) (\<lambda>n. ''1'') demo_schemas ''Hi'' None = Inr w
        \<and> dispatchPreflight w = Some TrackerKindRequired"
    by (auto simp: has_field_def)
qed

end
