(* ===== verification/Trust_Score.thy ===== *)
theory Trust_Score
  imports Double_Arith Prelude
begin

text \<open>
  The trust score of an external server (\<^verbatim>\<open>src/src/domain/trust/TrustScoringEngine.ts\<close>,
  \<^verbatim>\<open>TrustTypes.ts\<close>) and the gate in front of it (\<^verbatim>\<open>TrustGate.ts\<close>), in binary64 arithmetic: five
  dimensions are probed, uncertain ones are pulled to a prior, the weighted sum loses a penalty for uncertainty, and the
  result falls into a band. The texts of the evidence and of the reasons are left out; the time and the text of a number
  with three decimals are arguments. The theorems: what a server needs for full access, and that the guard for
  uncertainty never fires.
\<close>

section \<open>Types\<close>

datatype trust_dimension = Identity | Uptime | Auditability | Mutation_Risk | Witnessability

definition DIMENSION_WEIGHTS :: "(trust_dimension \<times> rat) list" where
  "DIMENSION_WEIGHTS = [(Identity, dbl (25 / 100)), (Uptime, dbl (15 / 100)), (Auditability, dbl (25 / 100)),
     (Mutation_Risk, dbl (20 / 100)), (Witnessability, dbl (15 / 100))]"

datatype trust_band = ALLOW | LIMITED | HOLD | DENY

definition SCORE_BANDS :: "(trust_band \<times> rat \<times> rat) list" where
  "SCORE_BANDS = [(ALLOW, dbl (8 / 10), 1), (LIMITED, dbl (6 / 10), dbl (8 / 10)), (HOLD, dbl (4 / 10), dbl (6 / 10)),
     (DENY, 0, dbl (4 / 10))]"

definition scoreToBand :: "rat \<Rightarrow> trust_band" where
  "scoreToBand score =
     (case find (\<lambda>(b, lo, hi). score \<ge> lo \<and> score \<le> hi) SCORE_BANDS of Some (b, _, _) \<Rightarrow> b | None \<Rightarrow> DENY)"

datatype mutation_class = ReadOnly | WriteClass | AdminClass | UnknownClass

record mcp_server_input =
  mi_mcp_id :: string
  mi_mcp_name :: string
  mi_endpoint :: string
  mi_declared_tools :: "string list option"
  mi_observed_tools :: "string list option"
  mi_uptime_hours :: "rat option"
  mi_total_calls :: "rat option"
  mi_error_count :: "rat option"
  mi_receipts :: "bool option"
  mi_otel :: "bool option"
  mi_identity_verified :: "bool option"
  mi_mutation_class :: "mutation_class option"

record dimension_score =
  ds_dimension :: trust_dimension
  ds_weight :: rat
  ds_raw_score :: rat
  ds_confidence :: rat

record score_snapshot =
  sn_composite_score :: rat
  sn_band :: trust_band
  sn_trigger :: string

record trust_score =
  ts_mcp_id :: string
  ts_mcp_name :: string
  ts_mcp_endpoint :: string
  ts_dimensions :: "dimension_score list"
  ts_composite_score :: rat
  ts_confidence_interval :: rat
  ts_band :: trust_band
  ts_evaluation_count :: nat
  ts_history :: "score_snapshot list"

section \<open>Probes\<close>

definition UNCERTAINTY_PENALTY_GAMMA :: rat where "UNCERTAINTY_PENALTY_GAMMA = dbl (15 / 100)"
definition COLD_START_SHRINKAGE_PRIOR :: rat where "COLD_START_SHRINKAGE_PRIOR = 1 / 2"
definition COLD_START_SHRINKAGE_STRENGTH :: rat where "COLD_START_SHRINKAGE_STRENGTH = 3"
definition SWING_THRESHOLD :: rat where "SWING_THRESHOLD = dbl (3 / 10)"
definition MAX_HISTORY :: nat where "MAX_HISTORY = 20"

definition or_default :: "'a option \<Rightarrow> 'a \<Rightarrow> 'a" where
  "or_default x d = (case x of None \<Rightarrow> d | Some v \<Rightarrow> v)"

definition clamp01 :: "rat \<Rightarrow> rat" where
  "clamp01 x = max 0 (min 1 x)"

definition add_if :: "bool \<Rightarrow> rat \<Rightarrow> rat \<Rightarrow> rat" where
  "add_if b d x = (if b then dbl_add x d else x)"

fun probeDimension :: "trust_dimension \<Rightarrow> mcp_server_input \<Rightarrow> rat \<times> rat" where
  "probeDimension Identity i =
     (let verified = or_default (mi_identity_verified i) False in
      (if verified then dbl (95 / 100) else if mi_endpoint i \<noteq> [] then dbl (4 / 10) else dbl (1 / 10),
       if verified then dbl (9 / 10) else 1 / 2))"
| "probeDimension Uptime i =
     (let hours = or_default (mi_uptime_hours i) 0; calls = or_default (mi_total_calls i) 0;
          errors = or_default (mi_error_count i) 0 in
      if calls = 0 then (COLD_START_SHRINKAGE_PRIOR, dbl (3 / 10))
      else (let errorRate = dbl_div errors calls; uptimeHours = min (dbl_div hours 168) 1;
                raw = dbl_add (dbl_mul (max 0 (dbl_sub 1 errorRate)) (dbl (6 / 10))) (dbl_mul uptimeHours (dbl (4 / 10))) in
            (clamp01 raw, min (dbl_div calls 100) (dbl (9 / 10)))))"
| "probeDimension Auditability i =
     (let receipts = or_default (mi_receipts i) False; otel = or_default (mi_otel i) False;
          tools = (or_default (mi_observed_tools i) [] \<noteq> []);
          raw = add_if tools (dbl (1 / 10)) (add_if otel (dbl (3 / 10)) (add_if receipts (dbl (4 / 10)) (dbl (2 / 10)))) in
      (min 1 raw, if receipts then dbl (8 / 10) else if otel then dbl (7 / 10) else dbl (4 / 10)))"
| "probeDimension Mutation_Risk i =
     (let m = or_default (mi_mutation_class i) UnknownClass in
      (case m of ReadOnly \<Rightarrow> dbl (95 / 100) | WriteClass \<Rightarrow> 1 / 2 | AdminClass \<Rightarrow> dbl (2 / 10) | UnknownClass \<Rightarrow> dbl (3 / 10),
       if m = UnknownClass then dbl (3 / 10) else dbl (8 / 10)))"
| "probeDimension Witnessability i =
     (let receipts = or_default (mi_receipts i) False; otel = or_default (mi_otel i) False;
          raw = add_if receipts (dbl (3 / 10)) (add_if otel (1 / 2) (dbl (1 / 10))) in
      (min 1 raw, if otel then dbl (8 / 10) else dbl (4 / 10)))"

definition coldStartShrinkage :: "rat \<Rightarrow> rat \<Rightarrow> rat \<times> bool" where
  "coldStartShrinkage rawScore confidence =
     (if confidence \<ge> dbl (7 / 10) then (rawScore, False)
      else (let n = COLD_START_SHRINKAGE_STRENGTH; prior = COLD_START_SHRINKAGE_PRIOR;
                shrunk = dbl_div (dbl_add (dbl_mul n prior) (dbl_mul confidence rawScore)) (dbl_add n confidence) in
            (clamp01 shrunk, True)))"

section \<open>The score\<close>

definition ciWidth :: "rat \<Rightarrow> rat" where
  "ciWidth confidence = dbl_mul 2 (dbl_sub 1 confidence)"

definition weightedSum :: "mcp_server_input \<Rightarrow> rat" where
  "weightedSum i =
     foldl (\<lambda>sum (d, w). let (raw, c) = probeDimension d i in dbl_add sum (dbl_mul w (fst (coldStartShrinkage raw c)))) 0
       DIMENSION_WEIGHTS"

definition avgCI :: "mcp_server_input \<Rightarrow> rat" where
  "avgCI i =
     dbl_div (foldl dbl_add 0 (map (\<lambda>(d, w). ciWidth (snd (probeDimension d i))) DIMENSION_WEIGHTS))
       (of_nat (length DIMENSION_WEIGHTS))"

text \<open>\<^verbatim>\<open>Math.round(x * 1000) / 1000\<close>: halves go up.\<close>

definition round3 :: "rat \<Rightarrow> rat" where
  "round3 x = dbl_div (of_int \<lfloor>dbl_mul x 1000 + 1 / 2\<rfloor>) 1000"

definition compositeScore :: "mcp_server_input \<Rightarrow> rat" where
  "compositeScore i = clamp01 (dbl_sub (weightedSum i) (dbl_mul UNCERTAINTY_PENALTY_GAMMA (avgCI i)))"

definition computeTrustScore :: "mcp_server_input \<Rightarrow> trust_score" where
  "computeTrustScore i =
     (let composite = compositeScore i; band = scoreToBand composite in
      \<lparr> ts_mcp_id = mi_mcp_id i, ts_mcp_name = mi_mcp_name i, ts_mcp_endpoint = mi_endpoint i,
        ts_dimensions = map (\<lambda>(d, w). let (raw, c) = probeDimension d i in
          \<lparr> ds_dimension = d, ds_weight = w, ds_raw_score = raw, ds_confidence = c \<rparr>) DIMENSION_WEIGHTS,
        ts_composite_score = round3 composite, ts_confidence_interval = round3 (avgCI i), ts_band = band,
        ts_evaluation_count = 1,
        ts_history = [\<lparr> sn_composite_score = composite, sn_band = band, sn_trigger = ''initial_evaluation'' \<rparr>] \<rparr>)"

definition last_n :: "nat \<Rightarrow> 'a list \<Rightarrow> 'a list" where
  "last_n n xs = drop (length xs - n) xs"

definition reevaluateTrustScore :: "(rat \<Rightarrow> string) \<Rightarrow> trust_score \<Rightarrow> mcp_server_input \<Rightarrow> trust_score" where
  "reevaluateTrustScore fixed3 existing i =
     (let new = computeTrustScore i;
          delta = \<bar>dbl_sub (ts_composite_score new) (ts_composite_score existing)\<bar>;
          swing = (if delta > SWING_THRESHOLD
            then [\<lparr> sn_composite_score = ts_composite_score new, sn_band = ts_band new,
                    sn_trigger = ''swing_detected_delta='' @ fixed3 delta \<rparr>] else []) in
      new\<lparr>ts_evaluation_count := ts_evaluation_count existing + 1,
          ts_history := last_n MAX_HISTORY (ts_history existing @ ts_history new @ swing)\<rparr>)"

definition behavioralFidelity :: "mcp_server_input \<Rightarrow> rat" where
  "behavioralFidelity i =
     (let declared = remdups (or_default (mi_declared_tools i) []); observed = remdups (or_default (mi_observed_tools i) []) in
      if declared = [] \<and> observed = [] then 0
      else if declared = [] then 1 / 2
      else dbl_sub 1 (dbl_div (of_nat (length (filter (\<lambda>x. x \<in> set observed) declared)))
        (of_nat (length (remdups (declared @ observed))))))"

section \<open>The gate\<close>

record gate_config =
  gc_max_ci_for_allow :: rat

definition default_gate :: gate_config where
  "default_gate = \<lparr> gc_max_ci_for_allow = dbl (8 / 10) \<rparr>"

record trust_gate_result =
  tg_mcp_id :: string
  tg_score :: rat
  tg_band :: trust_band                \<comment> \<open>the action is the same word\<close>
  tg_requires_888_judgment :: bool
  tg_session_restriction :: "string option"

definition evaluateTrustGate ::
  "(rat \<Rightarrow> string) \<Rightarrow> gate_config \<Rightarrow> mcp_server_input \<Rightarrow> trust_score option \<Rightarrow> trust_gate_result" where
  "evaluateTrustGate fixed3 cfg i existing =
     (let score = (case existing of Some e \<Rightarrow> reevaluateTrustScore fixed3 e i | None \<Rightarrow> computeTrustScore i);
          result = (\<lambda>b judge restrict. \<lparr> tg_mcp_id = ts_mcp_id score, tg_score = ts_composite_score score, tg_band = b,
            tg_requires_888_judgment = judge, tg_session_restriction = restrict \<rparr>) in
      if ts_confidence_interval score > gc_max_ci_for_allow cfg \<and> ts_band score = ALLOW then result HOLD True None
      else (case ts_band score of
          ALLOW \<Rightarrow> result ALLOW False None
        | LIMITED \<Rightarrow> result LIMITED False (Some ''read-only'')
        | HOLD \<Rightarrow> result HOLD True None
        | DENY \<Rightarrow> result DENY False None))"

section \<open>Bounds\<close>

text \<open>Every operation on numbers of at most 16 errs by less than \<open>tiny\<close>.\<close>

definition tiny :: rat where
  "tiny = 1 / 10 ^ 12"

lemma tiny_pos: "0 < tiny" "tiny \<le> 1 / 1000000"
  by (simp_all add: tiny_def)

lemma dbl_err:
  assumes "\<bar>x\<bar> \<le> 16"
  shows "\<bar>dbl x - x\<bar> \<le> tiny"
proof (cases "x = 0")
  case False
  have "binary_exponent 16 = 4" by (rule binary_exponent_unique) (simp_all add: two_pow_def)
  then have "binary_exponent \<bar>x\<bar> \<le> 4" using binary_exponent_mono [of "\<bar>x\<bar>" 16] assms False by simp
  then have "two_pow (binary_exponent \<bar>x\<bar> - 52) \<le> two_pow (- 48)" by (intro two_pow_mono) simp
  also have "two_pow (- 48) / 2 \<le> tiny" by (simp add: two_pow_def tiny_def)
  finally show ?thesis using dbl_near [OF False] by linarith
qed (simp add: tiny_def)

lemma dbl_bounds: "\<bar>x\<bar> \<le> 16 \<Longrightarrow> dbl x \<le> x + tiny \<and> x - tiny \<le> dbl x"
  using dbl_err [of x] by linarith

lemma dbl_one [simp]: "dbl 1 = 1"
  using dbl_exact [of "2 ^ 52" "- 52"] by (simp add: two_pow_def)

lemma dbl_half [simp]: "dbl (1 / 2) = 1 / 2"
  using dbl_exact [of "2 ^ 52" "- 53"] by (simp add: two_pow_def)

lemma clamp01_range: "0 \<le> clamp01 x" "clamp01 x \<le> 1"
  by (simp_all add: clamp01_def)

lemma clamp01_le: "x \<le> y \<Longrightarrow> 0 \<le> y \<Longrightarrow> clamp01 x \<le> y"
  by (auto simp: clamp01_def)

lemma mul_near:
  assumes "0 \<le> f" "f \<le> 1" "0 \<le> r" "r \<le> 1"
  shows "dbl_mul (dbl r) f \<le> r * f + 2 * tiny \<and> 0 \<le> dbl_mul (dbl r) f"
proof -
  have w: "dbl r \<le> r + tiny" "0 \<le> dbl r" using dbl_bounds [of r] dbl_nonneg [of r] assms by simp_all
  have p: "dbl r * f \<le> r * f + tiny"
  proof -
    have "dbl r * f \<le> (r + tiny) * f" using w(1) assms(1) by (rule mult_right_mono)
    also have "\<dots> \<le> r * f + tiny" using assms(2) tiny_pos(1) by (simp add: distrib_right)
    finally show ?thesis .
  qed
  have q: "0 \<le> dbl r * f" "r * f \<le> 1" using w(2) assms by (simp_all add: mult_le_one)
  then have "\<bar>dbl r * f\<bar> \<le> 16" using p tiny_pos(2) by simp
  from dbl_bounds [OF this] show ?thesis using p q dbl_nonneg by (simp add: dbl_mul_def)
qed

lemma shrink_le:
  assumes "l \<le> c" "c \<le> k" "k \<le> 69 / 100" "0 \<le> l" "0 \<le> raw" "raw \<le> r" "r \<le> 1"
  shows "fst (coldStartShrinkage raw c) \<le> (3 / 2 + k * r + 3 * tiny) / (3 + l - tiny) + tiny"
proof -
  have cold: "\<not> c \<ge> dbl (7 / 10)" using dbl_bounds [of "7 / 10"] assms(2,3) tiny_pos by simp
  define x where "x = dbl_add (dbl_mul 3 (1 / 2)) (dbl_mul c raw)"
  define y where "y = dbl_add 3 c"
  have cr: "0 \<le> c * raw" "c * raw \<le> k * r" using assms by (auto intro: mult_mono)
  have kr: "k * r \<le> 1" using assms mult_le_one [of k r] by simp
  have m1: "dbl_mul 3 (1 / 2) \<le> 3 / 2 + tiny" "0 \<le> dbl_mul 3 (1 / 2)"
    using dbl_bounds [of "3 / 2"] dbl_nonneg [of "3 / 2"] by (simp_all add: dbl_mul_def)
  have m2: "dbl_mul c raw \<le> k * r + tiny" "0 \<le> dbl_mul c raw"
    using dbl_bounds [of "c * raw"] dbl_nonneg [of "c * raw"] cr kr by (simp_all add: dbl_mul_def)
  have x: "0 \<le> x" "x \<le> 3 / 2 + k * r + 3 * tiny"
    using dbl_bounds [of "dbl_mul 3 (1 / 2) + dbl_mul c raw"] dbl_nonneg [of "dbl_mul 3 (1 / 2) + dbl_mul c raw"] m1 m2 kr tiny_pos
    by (simp_all add: x_def dbl_add_def)
  have y: "3 + l - tiny \<le> y" "0 < 3 + l - tiny" using dbl_bounds [of "3 + c"] assms tiny_pos by (simp_all add: y_def dbl_add_def)
  have "x / y \<le> (3 / 2 + k * r + 3 * tiny) / (3 + l - tiny)" using x y by (intro frac_le) simp_all
  moreover have "0 \<le> x / y" using x y by simp
  moreover have "(3 / 2 + k * r + 3 * tiny) / (3 + l - tiny) \<le> 16"
    using y(2) kr assms(4) tiny_pos by (simp add: divide_le_eq)
  ultimately have "dbl_div x y \<le> (3 / 2 + k * r + 3 * tiny) / (3 + l - tiny) + tiny" "0 \<le> dbl_div x y"
    unfolding dbl_div_def using dbl_bounds [of "x / y"] dbl_nonneg [of "x / y"] by linarith+
  then show ?thesis using cold
    by (simp add: coldStartShrinkage_def COLD_START_SHRINKAGE_PRIOR_def COLD_START_SHRINKAGE_STRENGTH_def Let_def
        x_def y_def clamp01_le)
qed

lemma final_range: "0 \<le> raw \<Longrightarrow> raw \<le> 1 \<Longrightarrow> 0 \<le> fst (coldStartShrinkage raw c) \<and> fst (coldStartShrinkage raw c) \<le> 1"
  by (simp add: coldStartShrinkage_def Let_def clamp01_range)


definition final :: "trust_dimension \<Rightarrow> mcp_server_input \<Rightarrow> rat" where
  "final d i = fst (coldStartShrinkage (fst (probeDimension d i)) (snd (probeDimension d i)))"

abbreviation conf :: "trust_dimension \<Rightarrow> mcp_server_input \<Rightarrow> rat" where
  "conf d i \<equiv> snd (probeDimension d i)"

lemma small_dbl: "0 \<le> x \<Longrightarrow> x \<le> 1 \<Longrightarrow> 0 \<le> dbl x \<and> dbl x \<le> 1"
  using dbl_mono [of x 1] dbl_nonneg [of x] by simp

lemma add_if_nonneg: "0 \<le> x \<Longrightarrow> 0 \<le> d \<Longrightarrow> 0 \<le> add_if b d x"
  by (simp add: add_if_def dbl_add_def dbl_nonneg)

lemma probe_range:
  "0 \<le> fst (probeDimension d i) \<and> fst (probeDimension d i) \<le> 1"
proof (cases d)
  case Mutation_Risk
  then show ?thesis using small_dbl by (cases "or_default (mi_mutation_class i) UnknownClass") simp_all
qed (use small_dbl in \<open>simp_all add: Let_def clamp01_range COLD_START_SHRINKAGE_PRIOR_def min_le_iff_disj add_if_nonneg dbl_nonneg\<close>)

lemma conf_range:
  assumes "0 \<le> or_default (mi_total_calls i) 0"
  shows "0 \<le> conf d i \<and> conf d i \<le> 1"
proof (cases d)
  case Uptime
  have "0 \<le> dbl_div (or_default (mi_total_calls i) 0) 100" using assms by (simp add: dbl_div_def dbl_nonneg)
  then show ?thesis using Uptime small_dbl [of "3 / 10"] small_dbl [of "9 / 10"] by (auto simp: Let_def)
qed (use small_dbl in \<open>simp_all add: Let_def\<close>)

declare probeDimension.simps [simp del]

lemma final_in: "0 \<le> final d i \<and> final d i \<le> 1"
  unfolding final_def using probe_range by (intro final_range) auto

lemma weightedSum_le:
  "weightedSum i \<le> 25 / 100 * final Identity i + 15 / 100 * final Uptime i + 25 / 100 * final Auditability i
     + 20 / 100 * final Mutation_Risk i + 15 / 100 * final Witnessability i + 20 * tiny
   \<and> 0 \<le> weightedSum i \<and> weightedSum i \<le> 2"
proof -
  define p1 where "p1 = dbl_mul (dbl (25 / 100)) (final Identity i)"
  define p2 where "p2 = dbl_mul (dbl (15 / 100)) (final Uptime i)"
  define p3 where "p3 = dbl_mul (dbl (25 / 100)) (final Auditability i)"
  define p4 where "p4 = dbl_mul (dbl (20 / 100)) (final Mutation_Risk i)"
  define p5 where "p5 = dbl_mul (dbl (15 / 100)) (final Witnessability i)"
  have mn: "dbl_mul (dbl r) (final d i) \<le> r * final d i + 2 * tiny \<and> 0 \<le> dbl_mul (dbl r) (final d i)" if "0 \<le> r" "r \<le> 1" for r d
    using mul_near [of "final d i" r] final_in [of d i] that by simp
  have p: "p1 \<le> 25 / 100 * final Identity i + 2 * tiny" "0 \<le> p1" "p2 \<le> 15 / 100 * final Uptime i + 2 * tiny" "0 \<le> p2"
    "p3 \<le> 25 / 100 * final Auditability i + 2 * tiny" "0 \<le> p3" "p4 \<le> 20 / 100 * final Mutation_Risk i + 2 * tiny" "0 \<le> p4"
    "p5 \<le> 15 / 100 * final Witnessability i + 2 * tiny" "0 \<le> p5"
    unfolding p1_def p2_def p3_def p4_def p5_def
    using mn [of "25 / 100" Identity] mn [of "15 / 100" Uptime] mn [of "25 / 100" Auditability] mn [of "20 / 100" Mutation_Risk]
      mn [of "15 / 100" Witnessability] by simp_all
  note f = final_in [of Identity i] final_in [of Uptime i] final_in [of Auditability i] final_in [of Mutation_Risk i]
    final_in [of Witnessability i]
  define s2 where "s2 = dbl_add (dbl_add 0 p1) p2"
  define s3 where "s3 = dbl_add s2 p3"
  define s4 where "s4 = dbl_add s3 p4"
  have add: "dbl_add x y \<le> x + y + tiny \<and> 0 \<le> dbl_add x y" if "0 \<le> x" "0 \<le> y" "x + y \<le> 16" for x y
    using dbl_bounds [of "x + y"] dbl_nonneg [of "x + y"] that by (simp add: dbl_add_def)
  have s1: "dbl_add 0 p1 \<le> p1 + tiny \<and> 0 \<le> dbl_add 0 p1" using add [of 0 p1] p f tiny_pos by simp
  have s2: "s2 \<le> p1 + p2 + 2 * tiny \<and> 0 \<le> s2" using add [of "dbl_add 0 p1" p2] s1 p f tiny_pos by (simp add: s2_def)
  have s3: "s3 \<le> p1 + p2 + p3 + 3 * tiny \<and> 0 \<le> s3" using add [of s2 p3] s2 p f tiny_pos by (simp add: s3_def)
  have s4: "s4 \<le> p1 + p2 + p3 + p4 + 4 * tiny \<and> 0 \<le> s4" using add [of s3 p4] s3 p f tiny_pos by (simp add: s4_def)
  have "weightedSum i = dbl_add s4 p5"
    by (simp add: weightedSum_def DIMENSION_WEIGHTS_def split_beta s4_def s3_def s2_def p1_def p2_def p3_def p4_def p5_def final_def)
  then show ?thesis using add [of s4 p5] s4 p f tiny_pos by simp
qed


lemma add_near: "0 \<le> x \<Longrightarrow> 0 \<le> y \<Longrightarrow> x + y \<le> 16 \<Longrightarrow> x + y - tiny \<le> dbl_add x y \<and> dbl_add x y \<le> x + y + tiny \<and> 0 \<le> dbl_add x y"
  using dbl_bounds [of "x + y"] dbl_nonneg [of "x + y"] by (simp add: dbl_add_def)

lemma ciWidth_near:
  assumes "0 \<le> c" "c \<le> 1"
  shows "2 * (1 - c) - 3 * tiny \<le> ciWidth c \<and> ciWidth c \<le> 2 * (1 - c) + 3 * tiny \<and> 0 \<le> ciWidth c"
proof -
  have s: "1 - c - tiny \<le> dbl_sub 1 c" "dbl_sub 1 c \<le> 1 - c + tiny" "0 \<le> dbl_sub 1 c"
    using dbl_bounds [of "1 - c"] dbl_nonneg [of "1 - c"] assms by (simp_all add: dbl_sub_def)
  then show ?thesis using dbl_bounds [of "2 * dbl_sub 1 c"] dbl_nonneg [of "2 * dbl_sub 1 c"] assms tiny_pos
    by (simp add: ciWidth_def dbl_mul_def)
qed

lemma avgCI_near:
  assumes "0 \<le> or_default (mi_total_calls i) 0"
  defines "doubt \<equiv> 5 - conf Identity i - conf Uptime i - conf Auditability i - conf Mutation_Risk i - conf Witnessability i"
  shows "2 / 5 * doubt - 20 * tiny \<le> avgCI i \<and> avgCI i \<le> 2 / 5 * doubt + 20 * tiny \<and> 0 \<le> avgCI i"
proof -
  define w1 where "w1 = ciWidth (conf Identity i)"
  define w2 where "w2 = ciWidth (conf Uptime i)"
  define w3 where "w3 = ciWidth (conf Auditability i)"
  define w4 where "w4 = ciWidth (conf Mutation_Risk i)"
  define w5 where "w5 = ciWidth (conf Witnessability i)"
  note c = conf_range [OF assms(1)]
  have wn: "2 * (1 - conf d i) - 3 * tiny \<le> ciWidth (conf d i) \<and> ciWidth (conf d i) \<le> 2 * (1 - conf d i) + 3 * tiny
      \<and> 0 \<le> ciWidth (conf d i)" for d
    using ciWidth_near c by blast
  note w = wn [of Identity, folded w1_def] wn [of Uptime, folded w2_def] wn [of Auditability, folded w3_def]
    wn [of Mutation_Risk, folded w4_def] wn [of Witnessability, folded w5_def]
    c [of Identity] c [of Uptime] c [of Auditability] c [of Mutation_Risk] c [of Witnessability]
  define s1 where "s1 = dbl_add 0 w1"
  define s2 where "s2 = dbl_add s1 w2"
  define s3 where "s3 = dbl_add s2 w3"
  define s4 where "s4 = dbl_add s3 w4"
  define s5 where "s5 = dbl_add s4 w5"
  have step: "a + x - (e + tiny) \<le> dbl_add s x \<and> dbl_add s x \<le> a + x + (e + tiny) \<and> 0 \<le> dbl_add s x"
    if "a - e \<le> s \<and> s \<le> a + e \<and> 0 \<le> s" "0 \<le> x" "a + e + x \<le> 16" for a e s x
    using add_near [of s x] that by simp
  have s1: "w1 - tiny \<le> s1 \<and> s1 \<le> w1 + tiny \<and> 0 \<le> s1"
    using add_near [of 0 w1] w tiny_pos by (simp add: s1_def)
  note s2 = step [OF s1, of w2, folded s2_def]
  have s2: "(w1 + w2) - (tiny + tiny) \<le> s2 \<and> s2 \<le> (w1 + w2) + (tiny + tiny) \<and> 0 \<le> s2" by (rule s2) (use w tiny_pos in simp_all)
  note s3 = step [OF s2, of w3, folded s3_def]
  have s3: "(w1 + w2 + w3) - (tiny + tiny + tiny) \<le> s3 \<and> s3 \<le> (w1 + w2 + w3) + (tiny + tiny + tiny) \<and> 0 \<le> s3"
    by (rule s3) (use w tiny_pos in simp_all)
  note s4 = step [OF s3, of w4, folded s4_def]
  have s4: "(w1 + w2 + w3 + w4) - (tiny + tiny + tiny + tiny) \<le> s4 \<and> s4 \<le> (w1 + w2 + w3 + w4) + (tiny + tiny + tiny + tiny) \<and> 0 \<le> s4"
    by (rule s4) (use w tiny_pos in simp_all)
  note s5 = step [OF s4, of w5, folded s5_def]
  have s5: "(w1 + w2 + w3 + w4 + w5) - (tiny + tiny + tiny + tiny + tiny) \<le> s5
      \<and> s5 \<le> (w1 + w2 + w3 + w4 + w5) + (tiny + tiny + tiny + tiny + tiny) \<and> 0 \<le> s5"
    by (rule s5) (use w tiny_pos in simp_all)
  have "avgCI i = dbl (s5 / 5)"
    by (simp add: avgCI_def DIMENSION_WEIGHTS_def dbl_div_def s5_def s4_def s3_def s2_def s1_def w1_def w2_def w3_def w4_def w5_def)
  moreover have "\<bar>s5 / 5\<bar> \<le> 16" using s5 w tiny_pos by simp
  from dbl_bounds [OF this] have d: "s5 / 5 - tiny \<le> dbl (s5 / 5)" "dbl (s5 / 5) \<le> s5 / 5 + tiny" by simp_all
  moreover have "0 \<le> dbl (s5 / 5)" using s5 by (intro dbl_nonneg) simp
  moreover have "5 * (2 / 5 * doubt) = 2 * (1 - conf Identity i) + 2 * (1 - conf Uptime i) + 2 * (1 - conf Auditability i)
      + 2 * (1 - conf Mutation_Risk i) + 2 * (1 - conf Witnessability i)" unfolding doubt_def by simp
  moreover have "2 * (1 - conf Identity i) + 2 * (1 - conf Uptime i) + 2 * (1 - conf Auditability i)
      + 2 * (1 - conf Mutation_Risk i) + 2 * (1 - conf Witnessability i) - 20 * tiny \<le> s5" (is "?l \<le> _")
    using s5 wn [of Identity, folded w1_def] wn [of Uptime, folded w2_def] wn [of Auditability, folded w3_def]
      wn [of Mutation_Risk, folded w4_def] wn [of Witnessability, folded w5_def] by linarith
  moreover have "s5 \<le> 2 * (1 - conf Identity i) + 2 * (1 - conf Uptime i) + 2 * (1 - conf Auditability i)
      + 2 * (1 - conf Mutation_Risk i) + 2 * (1 - conf Witnessability i) + 20 * tiny"
    using s5 wn [of Identity, folded w1_def] wn [of Uptime, folded w2_def] wn [of Auditability, folded w3_def]
      wn [of Mutation_Risk, folded w4_def] wn [of Witnessability, folded w5_def] by linarith
  ultimately show ?thesis using tiny_pos(1) by (intro conjI) linarith+
qed

text \<open>The composite is at most what the exact numbers give.\<close>

lemma compositeScore_le:
  assumes "0 \<le> or_default (mi_total_calls i) 0"
  defines "doubt \<equiv> 5 - conf Identity i - conf Uptime i - conf Auditability i - conf Mutation_Risk i - conf Witnessability i"
  shows "compositeScore i \<le> max 0 (25 / 100 * final Identity i + 15 / 100 * final Uptime i + 25 / 100 * final Auditability i
     + 20 / 100 * final Mutation_Risk i + 15 / 100 * final Witnessability i - 6 / 100 * doubt + 60 * tiny)"
proof -
  note a = avgCI_near [OF assms(1), folded doubt_def] and w = weightedSum_le [of i]
  have t: "0 \<le> doubt" "doubt \<le> 5"
    using conf_range [OF assms(1), of Identity] conf_range [OF assms(1), of Uptime] conf_range [OF assms(1), of Auditability]
      conf_range [OF assms(1), of Mutation_Risk] conf_range [OF assms(1), of Witnessability] unfolding doubt_def by linarith+
  have g: "15 / 100 - tiny \<le> UNCERTAINTY_PENALTY_GAMMA" "UNCERTAINTY_PENALTY_GAMMA \<le> 1"
    using dbl_bounds [of "15 / 100"] tiny_pos by (simp_all add: UNCERTAINTY_PENALTY_GAMMA_def)
  define A where "A = avgCI i"
  have A: "2 / 5 * doubt - 20 * tiny \<le> A" "A \<le> 3" "0 \<le> A" using a t tiny_pos by (simp_all add: A_def)
  have "tiny * A \<le> tiny * 3" using A(2) tiny_pos(1) by (intro mult_left_mono) simp_all
  moreover have "(15 / 100 - tiny) * A \<le> UNCERTAINTY_PENALTY_GAMMA * A" using g(1) A(3) by (rule mult_right_mono)
  ultimately have lo: "6 / 100 * doubt - 10 * tiny \<le> UNCERTAINTY_PENALTY_GAMMA * A" 
    using A(1) tiny_pos(1) left_diff_distrib [of "15 / 100" tiny A] by linarith
  have hi: "UNCERTAINTY_PENALTY_GAMMA * A \<le> 3" "0 \<le> UNCERTAINTY_PENALTY_GAMMA * A"
    using mult_mono [of UNCERTAINTY_PENALTY_GAMMA 1 A 3] g A tiny_pos by simp_all
  define P where "P = dbl_mul UNCERTAINTY_PENALTY_GAMMA A"
  have P: "6 / 100 * doubt - 11 * tiny \<le> P" "P \<le> 4" "0 \<le> P"
    using dbl_bounds [of "UNCERTAINTY_PENALTY_GAMMA * A"] dbl_nonneg [OF hi(2)] lo hi tiny_pos by (simp_all add: P_def dbl_mul_def)
  have "dbl_sub (weightedSum i) P \<le> weightedSum i - P + tiny"
  proof -
    have "\<bar>weightedSum i - P\<bar> \<le> 16" using w P by (auto simp: abs_le_iff)
    from dbl_bounds [OF this] show ?thesis by (simp add: dbl_sub_def)
  qed
  moreover have "compositeScore i \<le> max 0 (dbl_sub (weightedSum i) P)"
    by (simp add: compositeScore_def clamp01_def P_def A_def)
  ultimately show ?thesis using w P(1) tiny_pos(1) by (simp add: max_def split: if_splits)
qed


text \<open>The share of a dimension in the composite: its weighted score less its part of the penalty.\<close>

definition share :: "rat \<Rightarrow> trust_dimension \<Rightarrow> mcp_server_input \<Rightarrow> rat" where
  "share r d i = r * final d i + 6 / 100 * conf d i - 6 / 100"

lemma composite_shares:
  assumes "0 \<le> or_default (mi_total_calls i) 0"
  shows "compositeScore i \<le> max 0 (share (25 / 100) Identity i + share (15 / 100) Uptime i + share (25 / 100) Auditability i
    + share (20 / 100) Mutation_Risk i + share (15 / 100) Witnessability i + 60 * tiny)"
proof -
  have "25 / 100 * final Identity i + 15 / 100 * final Uptime i + 25 / 100 * final Auditability i
     + 20 / 100 * final Mutation_Risk i + 15 / 100 * final Witnessability i
     - 6 / 100 * (5 - conf Identity i - conf Uptime i - conf Auditability i - conf Mutation_Risk i - conf Witnessability i) + 60 * tiny
    = share (25 / 100) Identity i + share (15 / 100) Uptime i + share (25 / 100) Auditability i
    + share (20 / 100) Mutation_Risk i + share (15 / 100) Witnessability i + 60 * tiny"
    unfolding share_def by (simp add: field_simps)
  then show ?thesis using compositeScore_le [OF assms] by metis
qed

lemma uncertain_final:
  assumes "fst (probeDimension d i) \<le> q" "conf d i = dbl k" "q \<le> 1" "0 \<le> k" "k \<le> 65 / 100"
  shows "final d i \<le> (3 / 2 + (k + tiny) * q + 3 * tiny) / (3 + k - 2 * tiny) + tiny"
proof -
  have k: "k - tiny \<le> dbl k" "dbl k \<le> k + tiny" "0 \<le> dbl k" using dbl_bounds [of k] dbl_nonneg [of k] assms by simp_all
  note raw = probe_range [of d i]
  define l where "l = max 0 (k - tiny)"
  have l: "l \<le> dbl k" "0 \<le> l" "k - tiny \<le> l" using k by (simp_all add: l_def)
  have "final d i \<le> (3 / 2 + (k + tiny) * q + 3 * tiny) / (3 + l - tiny) + tiny"
    unfolding final_def assms(2)
    by (rule shrink_le) (use l k raw assms(1,3,5) tiny_pos in \<open>simp_all\<close>)
  also have "\<dots> \<le> (3 / 2 + (k + tiny) * q + 3 * tiny) / (3 + k - 2 * tiny) + tiny"
  proof -
    have "0 \<le> (k + tiny) * q" using raw assms tiny_pos by (intro mult_nonneg_nonneg) simp_all
    then show ?thesis using l(3) assms(4) tiny_pos by (intro add_right_mono divide_left_mono) simp_all
  qed
  finally show ?thesis .
qed

lemma certain_final: "dbl (7 / 10) \<le> conf d i \<Longrightarrow> final d i = fst (probeDimension d i)"
  by (simp add: final_def coldStartShrinkage_def)

lemma uncertain_share:
  assumes "fst (probeDimension d i) \<le> q" "conf d i = dbl k" "q \<le> 1" "0 \<le> k" "k \<le> 65 / 100" "0 \<le> r" "r \<le> 1"
    and "(3 / 2 + (k + 1 / 1000000) * q + 3 / 1000000) / (3 + k - 2 / 1000000) \<le> b"
  shows "share r d i \<le> r * (b + 1 / 1000000) + 6 / 100 * (k + 1 / 1000000) - 6 / 100"
proof -
  have q: "0 \<le> q" using assms(1) probe_range [of d i] by simp
  have "(3 / 2 + (k + tiny) * q + 3 * tiny) / (3 + k - 2 * tiny) \<le> (3 / 2 + (k + 1 / 1000000) * q + 3 / 1000000) / (3 + k - 2 / 1000000)"
    using q assms(3,4,5) tiny_pos by (intro frac_le add_mono mult_right_mono) simp_all
  then have "final d i \<le> b + 1 / 1000000" using uncertain_final [OF assms(1-5)] assms(8) tiny_pos by linarith
  then have "r * final d i \<le> r * (b + 1 / 1000000)" using assms(6) by (rule mult_left_mono)
  moreover have "conf d i \<le> k + 1 / 1000000" using dbl_bounds [of k] assms tiny_pos by simp
  then have "6 / 100 * conf d i \<le> 6 / 100 * (k + 1 / 1000000)" by (intro mult_left_mono) simp_all
  ultimately show ?thesis unfolding share_def by (intro diff_right_mono add_mono)
qed

lemma certain_share:
  assumes "fst (probeDimension d i) \<le> q" "conf d i = dbl k" "7 / 10 \<le> k" "k \<le> 1" "0 \<le> r"
  shows "share r d i \<le> r * q + 6 / 100 * (k + 1 / 1000000) - 6 / 100"
proof -
  have "final d i \<le> q" using certain_final [of d i] dbl_mono [OF assms(3)] assms(1,2) by simp
  then have "r * final d i \<le> r * q" using assms(5) by (rule mult_left_mono)
  moreover have "conf d i \<le> k + 1 / 1000000" using dbl_bounds [of k] assms tiny_pos by simp
  then have "6 / 100 * conf d i \<le> 6 / 100 * (k + 1 / 1000000)" by (intro mult_left_mono) simp_all
  ultimately show ?thesis unfolding share_def by (intro diff_right_mono add_mono)
qed

lemma add_if_le: "0 \<le> x \<Longrightarrow> x \<le> a \<Longrightarrow> 0 \<le> d \<Longrightarrow> d \<le> b \<Longrightarrow> a + b \<le> 15 \<Longrightarrow> add_if c d x \<le> (if c then a + b + 1 / 1000000 else a)"
  using dbl_bounds [of "x + d"] tiny_pos by (simp add: add_if_def dbl_add_def)

lemma dbl_le: "0 \<le> x \<Longrightarrow> x \<le> 1 \<Longrightarrow> dbl x \<le> x + 1 / 1000000 \<and> 0 \<le> dbl x"
  using dbl_bounds [of x] dbl_nonneg [of x] tiny_pos by simp

subsection \<open>The shares of the five dimensions\<close>

lemma identity_share:
  "share (25 / 100) Identity i \<le> (if or_default (mi_identity_verified i) False then 2316 / 10000 else 92 / 1000)"
proof (cases "or_default (mi_identity_verified i) False")
  case True
  then have "share (25 / 100) Identity i \<le> 25 / 100 * (95 / 100 + 1 / 1000000) + 6 / 100 * (9 / 10 + 1 / 1000000) - 6 / 100"
    using dbl_le [of "95 / 100"] by (intro certain_share) (simp_all add: probeDimension.simps)
  then show ?thesis using True by simp
next
  case False
  have "fst (probeDimension Identity i) \<le> 4 / 10 + 1 / 1000000"
    using False dbl_le [of "4 / 10"] dbl_le [of "1 / 10"] by (cases "mi_endpoint i = []") (simp_all add: probeDimension.simps)
  from this have "share (25 / 100) Identity i \<le> 25 / 100 * (486 / 1000 + 1 / 1000000) + 6 / 100 * (1 / 2 + 1 / 1000000) - 6 / 100"
    by (rule uncertain_share) (use False in \<open>simp_all add: probeDimension.simps\<close>)
  then show ?thesis using False by simp
qed

lemma uptime_share: "share (15 / 100) Uptime i \<le> 1441 / 10000"
proof -
  have "conf Uptime i \<le> dbl (9 / 10)" using dbl_mono [of "3 / 10" "9 / 10"] by (auto simp: probeDimension.simps Let_def)
  moreover have "dbl (9 / 10) \<le> 9 / 10 + 1 / 1000000" using dbl_le [of "9 / 10"] by simp
  ultimately have "conf Uptime i \<le> 9 / 10 + 1 / 1000000" by simp
  then show ?thesis using final_in [of Uptime i] unfolding share_def by simp
qed

lemma mutation_share:
  "share (20 / 100) Mutation_Risk i \<le> (case or_default (mi_mutation_class i) UnknownClass of
     ReadOnly \<Rightarrow> 1781 / 10000 | WriteClass \<Rightarrow> 881 / 10000 | AdminClass \<Rightarrow> 281 / 10000 | UnknownClass \<Rightarrow> 545 / 10000)"
proof -
  define m where "m = or_default (mi_mutation_class i) UnknownClass"
  have certain: "share (20 / 100) Mutation_Risk i \<le> 20 / 100 * q + 6 / 100 * (8 / 10 + 1 / 1000000) - 6 / 100"
    if "m \<noteq> UnknownClass" "fst (probeDimension Mutation_Risk i) \<le> q" for q
    using that by (intro certain_share) (simp_all add: probeDimension.simps m_def [symmetric])
  show ?thesis
  proof (cases m)
    case ReadOnly
    then show ?thesis using certain [of "95 / 100 + 1 / 1000000"] dbl_le [of "95 / 100"]
      by (simp add: probeDimension.simps m_def [symmetric])
  next
    case WriteClass
    then show ?thesis using certain [of "1 / 2"] by (simp add: probeDimension.simps m_def [symmetric])
  next
    case AdminClass
    then show ?thesis using certain [of "2 / 10 + 1 / 1000000"] dbl_le [of "2 / 10"]
      by (simp add: probeDimension.simps m_def [symmetric])
  next
    case UnknownClass
    have "share (20 / 100) Mutation_Risk i \<le> 20 / 100 * (4819 / 10000 + 1 / 1000000) + 6 / 100 * (3 / 10 + 1 / 1000000) - 6 / 100"
      using UnknownClass dbl_le [of "3 / 10"]
      by (intro uncertain_share [where q = "3 / 10 + 1 / 1000000"]) (simp_all add: probeDimension.simps m_def [symmetric])
    then show ?thesis using UnknownClass by (simp add: m_def)
  qed
qed


lemma audit_share:
  "share (25 / 100) Auditability i \<le>
    (if or_default (mi_receipts i) False then (if or_default (mi_otel i) False then 2381 / 10000 else 1632 / 10000)
     else 1322 / 10000)"
proof -
  define e where "e = (1 / 1000000 :: rat)"
  define re where "re = or_default (mi_receipts i) False"
  define ot where "ot = or_default (mi_otel i) False"
  define x0 where "x0 = dbl (2 / 10)"
  define x1 where "x1 = add_if re (dbl (4 / 10)) x0"
  define x2 where "x2 = add_if ot (dbl (3 / 10)) x1"
  have n: "0 \<le> x0" "0 \<le> x1" "0 \<le> x2" "0 \<le> dbl (1 / 10)" "0 \<le> dbl (3 / 10)" "0 \<le> dbl (4 / 10)"
    using dbl_nonneg by (simp_all add: x0_def x1_def x2_def add_if_nonneg)
  have x0: "x0 \<le> 2 / 10 + e" using dbl_le [of "2 / 10"] by (simp add: x0_def e_def)
  have x1: "x1 \<le> (if re then 6 / 10 + 3 * e else 2 / 10 + e)"
    using add_if_le [OF n(1) x0 n(6), of "4 / 10 + e" re] dbl_le [of "4 / 10"] by (simp add: x1_def e_def split: if_splits)
  have x2: "x2 \<le> (if re then 6 / 10 + 3 * e else 2 / 10 + e) + (if ot then 3 / 10 + 2 * e else 0)"
    using add_if_le [OF n(2) x1 n(5), of "3 / 10 + e" ot] dbl_le [of "3 / 10"]
    by (cases re; cases ot) (simp_all add: x2_def e_def)
  have probe: "probeDimension Auditability i = (min 1 (add_if (or_default (mi_observed_tools i) [] \<noteq> []) (dbl (1 / 10)) x2),
      if re then dbl (8 / 10) else if ot then dbl (7 / 10) else dbl (4 / 10))"
    unfolding probeDimension.simps Let_def re_def [symmetric] ot_def [symmetric] x2_def x1_def x0_def ..
  have x3: "fst (probeDimension Auditability i)
      \<le> (if re then 6 / 10 + 3 * e else 2 / 10 + e) + (if ot then 3 / 10 + 2 * e else 0) + 1 / 10 + 2 * e"
    using add_if_le [OF n(3) x2 n(4), of "1 / 10 + e" "or_default (mi_observed_tools i) [] \<noteq> []"] dbl_le [of "1 / 10"]
    unfolding probe by (cases re; cases ot; cases "or_default (mi_observed_tools i) [] \<noteq> []") (simp_all add: e_def)
  have one: "fst (probeDimension Auditability i) \<le> 1" using probe_range by blast
  show ?thesis
  proof (cases re)
    case True
    have "share (25 / 100) Auditability i \<le> 25 / 100 * (if ot then 1 else 7 / 10 + 5 * e) + 6 / 100 * (8 / 10 + 1 / 1000000) - 6 / 100"
      by (rule certain_share, cases ot) (use True x3 one in \<open>simp_all add: probe e_def\<close>)
    then show ?thesis using True by (simp add: re_def [symmetric] ot_def [symmetric] e_def split: if_splits)
  next
    case False
    show ?thesis
    proof (cases ot)
      case True
      have "share (25 / 100) Auditability i \<le> 25 / 100 * (6 / 10 + 5 * e) + 6 / 100 * (7 / 10 + 1 / 1000000) - 6 / 100"
        using False True x3 by (intro certain_share) (simp_all add: probe e_def)
      then show ?thesis using False by (simp add: re_def [symmetric] e_def)
    next
      case no: False
      have "fst (probeDimension Auditability i) \<le> 3 / 10 + 3 * e" using x3 False no by simp
      then have "share (25 / 100) Auditability i \<le> 25 / 100 * (477 / 1000 + 1 / 1000000) + 6 / 100 * (4 / 10 + 1 / 1000000) - 6 / 100"
        by (rule uncertain_share) (use False no in \<open>simp_all add: probe e_def\<close>)
      then show ?thesis using False by (simp add: re_def [symmetric])
    qed
  qed
qed

lemma witness_share:
  "share (15 / 100) Witnessability i \<le>
    (if or_default (mi_otel i) False then (if or_default (mi_receipts i) False then 1231 / 10000 else 781 / 10000)
     else 373 / 10000)"
proof -
  define e where "e = (1 / 1000000 :: rat)"
  define re where "re = or_default (mi_receipts i) False"
  define ot where "ot = or_default (mi_otel i) False"
  define x0 where "x0 = dbl (1 / 10)"
  define x1 where "x1 = add_if ot (1 / 2) x0"
  have n: "0 \<le> x0" "0 \<le> x1" "0 \<le> dbl (3 / 10)"
    using dbl_nonneg by (simp_all add: x0_def x1_def add_if_nonneg)
  have x0: "x0 \<le> 1 / 10 + e" using dbl_le [of "1 / 10"] by (simp add: x0_def e_def)
  have x1: "x1 \<le> (if ot then 6 / 10 + 2 * e else 1 / 10 + e)"
    using add_if_le [OF n(1) x0, of "1 / 2" "1 / 2" ot] by (simp add: x1_def e_def split: if_splits)
  have probe: "probeDimension Witnessability i = (min 1 (add_if re (dbl (3 / 10)) x1), if ot then dbl (8 / 10) else dbl (4 / 10))"
    unfolding probeDimension.simps Let_def re_def [symmetric] ot_def [symmetric] x1_def x0_def ..
  have x2: "fst (probeDimension Witnessability i) \<le> (if ot then 6 / 10 + 2 * e else 1 / 10 + e) + (if re then 3 / 10 + 2 * e else 0)"
    using add_if_le [OF n(2) x1 n(3), of "3 / 10 + e" re] dbl_le [of "3 / 10"]
    unfolding probe by (cases re; cases ot) (simp_all add: e_def)
  show ?thesis
  proof (cases ot)
    case True
    have "share (15 / 100) Witnessability i
        \<le> 15 / 100 * (6 / 10 + 2 * e + (if re then 3 / 10 + 2 * e else 0)) + 6 / 100 * (8 / 10 + 1 / 1000000) - 6 / 100"
      using True x2 by (intro certain_share) (simp_all add: probe e_def)
    then show ?thesis using True by (simp add: re_def [symmetric] ot_def [symmetric] e_def split: if_splits)
  next
    case False
    have "fst (probeDimension Witnessability i) \<le> 4 / 10 + 3 * e" using x2 False by (simp add: e_def split: if_splits)
    then have "share (15 / 100) Witnessability i \<le> 15 / 100 * (4883 / 10000 + 1 / 1000000) + 6 / 100 * (4 / 10 + 1 / 1000000) - 6 / 100"
      by (rule uncertain_share) (use False in \<open>simp_all add: probe e_def\<close>)
    then show ?thesis using False by (simp add: ot_def [symmetric])
  qed
qed

section \<open>What the gate grants\<close>

lemma allow_high: "scoreToBand x = ALLOW \<Longrightarrow> 79999 / 100000 \<le> x"
  using dbl_bounds [of "8 / 10"] tiny_pos by (auto simp: scoreToBand_def SCORE_BANDS_def split: if_splits)

lemma composite_range: "0 \<le> compositeScore i \<and> compositeScore i \<le> 1"
  by (simp add: compositeScore_def clamp01_range)

definition well_attested :: "mcp_server_input \<Rightarrow> bool" where
  "well_attested i \<longleftrightarrow> or_default (mi_identity_verified i) False \<and> or_default (mi_receipts i) False
     \<and> or_default (mi_otel i) False \<and> or_default (mi_mutation_class i) UnknownClass \<in> {ReadOnly, WriteClass}"

lemma allow_attested:
  assumes "0 \<le> or_default (mi_total_calls i) 0" "scoreToBand (compositeScore i) = ALLOW"
  shows "well_attested i"
proof (rule ccontr)
  assume bad: "\<not> well_attested i"
  define s where "s = share (25 / 100) Identity i + share (15 / 100) Uptime i + share (25 / 100) Auditability i
    + share (20 / 100) Mutation_Risk i + share (15 / 100) Witnessability i"
  note sh = identity_share [of i] uptime_share [of i] audit_share [of i] mutation_share [of i] witness_share [of i]
  have "s \<le> 795 / 1000"
    using bad sh unfolding well_attested_def s_def
    by (cases "or_default (mi_identity_verified i) False"; cases "or_default (mi_receipts i) False";
        cases "or_default (mi_otel i) False"; cases "or_default (mi_mutation_class i) UnknownClass") simp_all
  moreover have "compositeScore i \<le> max 0 (s + 60 * tiny)" using composite_shares [OF assms(1)] by (simp add: s_def)
  ultimately show False using allow_high [OF assms(2)] tiny_pos by (simp add: max_def split: if_splits)
qed

lemma attested_certain:
  assumes "0 \<le> or_default (mi_total_calls i) 0" "well_attested i"
  shows "avgCI i \<le> 69 / 100"
proof -
  have c: "9 / 10 - 1 / 1000000 \<le> conf Identity i" "8 / 10 - 1 / 1000000 \<le> conf Auditability i"
    "8 / 10 - 1 / 1000000 \<le> conf Mutation_Risk i" "8 / 10 - 1 / 1000000 \<le> conf Witnessability i"
    using assms(2) dbl_bounds [of "9 / 10"] dbl_bounds [of "8 / 10"] tiny_pos
    by (auto simp: well_attested_def probeDimension.simps Let_def)
  define D where "D = 5 - conf Identity i - conf Uptime i - conf Auditability i - conf Mutation_Risk i - conf Witnessability i"
  have "D \<le> 1701 / 1000" using c conf_range [OF assms(1), of Uptime] by (simp add: D_def)
  then show ?thesis using avgCI_near [OF assms(1), folded D_def] tiny_pos by simp
qed

lemma dbl_700: "dbl 700 = 700"
  using dbl_exact [of "700 * 2 ^ 43" "- 43"] by (simp add: two_pow_def)

lemma round3_le: "x \<le> 69 / 100 \<Longrightarrow> round3 x \<le> dbl (8 / 10)"
proof -
  assume "x \<le> 69 / 100"
  then have "dbl_mul x 1000 \<le> 700" using dbl_mono [of "x * 1000" 700] by (simp add: dbl_mul_def dbl_700)
  then have "\<lfloor>dbl_mul x 1000 + 1 / 2\<rfloor> \<le> 700" by (simp add: floor_le_iff)
  then have "(of_int \<lfloor>dbl_mul x 1000 + 1 / 2\<rfloor> :: rat) \<le> of_int 700" by (simp only: of_int_le_iff)
  then show ?thesis unfolding round3_def dbl_div_def by (intro dbl_mono) simp
qed

lemma gate_band:
  assumes "0 \<le> or_default (mi_total_calls i) 0"
  shows "tg_band (evaluateTrustGate fixed3 default_gate i existing) = scoreToBand (compositeScore i)"
proof -
  define score where "score = (case existing of Some e \<Rightarrow> reevaluateTrustScore fixed3 e i | None \<Rightarrow> computeTrustScore i)"
  have sc: "ts_band score = scoreToBand (compositeScore i)" "ts_confidence_interval score = round3 (avgCI i)"
    by (simp_all add: score_def reevaluateTrustScore_def computeTrustScore_def Let_def split: option.split)
  have idle: "\<not> (ts_confidence_interval score > dbl (8 / 10) \<and> ts_band score = ALLOW)"
    using allow_attested [OF assms] attested_certain [OF assms] round3_le by (auto simp: sc not_less)
  show ?thesis
    unfolding evaluateTrustGate_def Let_def score_def [symmetric] default_gate_def
    using idle by (simp add: sc) (cases "scoreToBand (compositeScore i)", simp_all)
qed

text \<open>
  C15. With the default thresholds, and whatever was scored before, the gate answers the band of the new score: the guard
  that turns full access into a hold when the uncertainty is high never fires. Full access needs a verified identity,
  receipts, traces, and a mutation class that is read-only or write; nothing else that a server
  declares or was seen to do makes up for one of these. Service that was observed is not among the conditions. The count
  of calls is taken not to be negative.
\<close>

theorem full_access_is_attested:
  assumes "0 \<le> or_default (mi_total_calls i) 0"
  shows "tg_band (evaluateTrustGate fixed3 default_gate i existing) = scoreToBand (compositeScore i)
    \<and> (tg_band (evaluateTrustGate fixed3 default_gate i existing) = ALLOW \<longrightarrow>
      mi_identity_verified i = Some True \<and> mi_receipts i = Some True \<and> mi_otel i = Some True
      \<and> mi_mutation_class i \<in> {Some ReadOnly, Some WriteClass})"
  using gate_band [OF assms] allow_attested [OF assms]
  by (auto simp: well_attested_def or_default_def split: option.splits)

definition cold_server :: "mutation_class option \<Rightarrow> mcp_server_input" where
  "cold_server m = \<lparr> mi_mcp_id = ''s'', mi_mcp_name = ''s'', mi_endpoint = ''e'', mi_declared_tools = None,
     mi_observed_tools = Some [''t''], mi_uptime_hours = None, mi_total_calls = None, mi_error_count = None,
     mi_receipts = Some True, mi_otel = Some True, mi_identity_verified = Some True, mi_mutation_class = m \<rparr>"

theorem full_access_is_attested_witness:
  "tg_band (evaluateTrustGate (\<lambda>x. []) default_gate (cold_server None) None) \<noteq> ALLOW"
  using full_access_is_attested [of "cold_server None" "\<lambda>x. []" None]
  by (auto simp: cold_server_def or_default_def split: if_splits)

end
