(* ===== verification/Trust_Registry.thy ===== *)
theory Trust_Registry
  imports Trust_Score Canonical_Json
begin

text \<open>
  The store of trust scores (\<^verbatim>\<open>src/src/domain/trust/TrustRegistry.ts\<close>) and the tool over it
  (\<^verbatim>\<open>forge_trust_score.ts\<close>): one row per server with its latest score, and a history to which every score
  appends an entry with the hash of the entry before it. The database is the map of the rows and the list of the entries;
  a column of type REAL rounds to single precision, by an argument. The theorem: the verification of a server's history
  follows the entries of that server only, while the links run through the entries of all of them.
\<close>

section \<open>The store\<close>

record trust_entry =
  te_seq :: nat
  te_prev_hash :: string
  te_entry_hash :: string
  te_mcp_id :: string
  te_composite_score :: rat
  te_band :: trust_band
  te_trigger_reason :: string

text \<open>\<open>rg_next\<close> is the next value of the sequence of the column \<^verbatim>\<open>seq\<close>.\<close>

record trust_registry =
  rg_scores :: "(string, trust_score) jsmap"
  rg_history :: "trust_entry list"
  rg_next :: nat

definition empty_registry :: trust_registry where
  "empty_registry = \<lparr> rg_scores = [], rg_history = [], rg_next = 1 \<rparr>"

definition trust_band_text :: "trust_band \<Rightarrow> string" where
  "trust_band_text b = (case b of ALLOW \<Rightarrow> ''ALLOW'' | LIMITED \<Rightarrow> ''LIMITED'' | HOLD \<Rightarrow> ''HOLD'' | DENY \<Rightarrow> ''DENY'')"

definition getLastHash :: "trust_registry \<Rightarrow> string" where
  "getLastHash g = (if rg_history g = [] then ''genesis'' else te_entry_hash (last (rg_history g)))"

definition entry_text :: "runtime \<Rightarrow> string \<Rightarrow> trust_score \<Rightarrow> string" where
  "entry_text rt timestamp s =
     stringify (number_text rt) (JObj [(''mcp_id'', JStr (ts_mcp_id s)), (''composite_score'', JNum (ts_composite_score s)),
       (''band'', JStr (trust_band_text (ts_band s))), (''timestamp'', JStr timestamp)])"

text \<open>
  The transaction commits, or a query throws and everything but the sequence is rolled back; \<open>used\<close> tells whether
  the failed transaction had drawn from it.
\<close>

datatype transaction = Commits | Throws bool

definition stored_score :: "(rat \<Rightarrow> rat) \<Rightarrow> trust_score \<Rightarrow> trust_score" where
  "stored_score real4 s = s\<lparr>ts_composite_score := real4 (ts_composite_score s),
     ts_confidence_interval := real4 (ts_confidence_interval s), ts_history := last_n 10 (ts_history s)\<rparr>"

definition upsertScore ::
  "runtime \<Rightarrow> (rat \<Rightarrow> rat) \<Rightarrow> string \<Rightarrow> transaction \<Rightarrow> trust_score \<Rightarrow> trust_registry \<Rightarrow> (string + unit) \<times> trust_registry" where
  "upsertScore rt real4 now t s g =
     (case t of
        Throws used \<Rightarrow> (Inl ''transaction failed'', if used then g\<lparr>rg_next := rg_next g + 1\<rparr> else g)
      | Commits \<Rightarrow>
          (let prev = getLastHash g;
               e = \<lparr> te_seq = rg_next g, te_prev_hash = prev, te_entry_hash = sha256 rt (prev @ entry_text rt now s),
                 te_mcp_id = ts_mcp_id s, te_composite_score = real4 (ts_composite_score s), te_band = ts_band s,
                 te_trigger_reason = (if ts_evaluation_count s = 1 then ''initial_evaluation'' else ''reevaluation'') \<rparr> in
           (Inr (), \<lparr> rg_scores = m_set (ts_mcp_id s) (stored_score real4 s) (rg_scores g), rg_history = rg_history g @ [e],
             rg_next = rg_next g + 1 \<rparr>)))"

definition getScore :: "trust_registry \<Rightarrow> string \<Rightarrow> trust_score option" where
  "getScore g k = m_get (rg_scores g) k"

definition listScores :: "trust_registry \<Rightarrow> trust_band option \<Rightarrow> trust_score list" where
  "listScores g band =
     sort_key (\<lambda>s. - ts_composite_score s)
       (filter (\<lambda>s. case band of None \<Rightarrow> True | Some b \<Rightarrow> ts_band s = b) (m_values (rg_scores g)))"

definition getHistory :: "trust_registry \<Rightarrow> string \<Rightarrow> nat \<Rightarrow> trust_entry list" where
  "getHistory g k limit = take limit (rev (filter (\<lambda>e. te_mcp_id e = k) (rg_history g)))"

record chain_integrity =
  ci_broken_at_seq :: "nat option"    \<comment> \<open>valid when None\<close>
  ci_total_entries :: nat

fun broken_at :: "trust_entry list \<Rightarrow> nat option" where
  "broken_at (a # b # es) = (if te_prev_hash b \<noteq> te_entry_hash a then Some (te_seq b) else broken_at (b # es))"
| "broken_at _ = None"

definition verifyChainIntegrity :: "trust_registry \<Rightarrow> string \<Rightarrow> chain_integrity" where
  "verifyChainIntegrity g k =
     (let rows = filter (\<lambda>e. te_mcp_id e = k) (rg_history g) in
      \<lparr> ci_broken_at_seq = broken_at rows, ci_total_entries = length rows \<rparr>)"

section \<open>The tool\<close>

datatype trust_mode = ScoreMode | EvaluateMode | ListMode | HistoryMode | VerifyMode | UnknownMode

record trust_call =
  tc_mode :: trust_mode
  tc_mcp_id :: "string option"
  tc_mcp_name :: "string option"
  tc_endpoint :: "string option"
  tc_observed :: mcp_server_input      \<comment> \<open>the optional observations; its names are overwritten\<close>
  tc_band :: "trust_band option"
  tc_limit :: "nat option"

datatype trust_reply =
    Usage string
  | Scored trust_score
  | Gated trust_gate_result "trust_score option"     \<comment> \<open>the score goes into the judgment request\<close>
  | Listed "trust_score list"
  | Histories string "trust_entry list"
  | Verified "(string \<times> chain_integrity) list"

definition mcp_input :: "trust_call \<Rightarrow> string \<Rightarrow> string \<Rightarrow> mcp_server_input" where
  "mcp_input c k endpoint =
     (tc_observed c)\<lparr>mi_mcp_id := k, mi_mcp_name := or_default (tc_mcp_name c) k, mi_endpoint := endpoint\<rparr>"

definition rescored :: "(rat \<Rightarrow> string) \<Rightarrow> trust_score option \<Rightarrow> mcp_server_input \<Rightarrow> trust_score" where
  "rescored fixed3 existing i =
     (case existing of Some e \<Rightarrow> reevaluateTrustScore fixed3 e i | None \<Rightarrow> computeTrustScore i)"

definition forgeTrustScore ::
  "runtime \<Rightarrow> (rat \<Rightarrow> rat) \<Rightarrow> (rat \<Rightarrow> string) \<Rightarrow> string \<Rightarrow> transaction \<Rightarrow> trust_call \<Rightarrow> trust_registry \<Rightarrow> (string + trust_reply) \<times> trust_registry" where
  "forgeTrustScore rt real4 fixed3 now t c g =
     (let missing = falsy (tc_mcp_id c); noEndpoint = falsy (tc_endpoint c); k = the (tc_mcp_id c);
          i = mcp_input c k (the (tc_endpoint c)); existing = getScore g k; score = rescored fixed3 existing i;
          saved = (\<lambda>reply. (case upsertScore rt real4 now t score g of
            (Inl e, g') \<Rightarrow> (Inl e, g') | (Inr _, g') \<Rightarrow> (Inr reply, g'))) in
      (case tc_mode c of
        ScoreMode \<Rightarrow>
          if missing \<or> noEndpoint then (Inr (Usage ''Error: mcp_id and endpoint required for score mode''), g)
          else saved (Scored score)
      | EvaluateMode \<Rightarrow>
          if missing \<or> noEndpoint then (Inr (Usage ''Error: mcp_id and endpoint required for evaluate mode''), g)
          else (let r = evaluateTrustGate fixed3 default_gate i existing in
                saved (Gated r (if tg_requires_888_judgment r then Some score else None)))
      | ListMode \<Rightarrow> (Inr (Listed (listScores g (tc_band c))), g)
      | HistoryMode \<Rightarrow>
          if missing then (Inr (Usage ''Error: mcp_id required for history mode''), g)
          else (Inr (Histories k (getHistory g k (or_default (tc_limit c) 20))), g)
      | VerifyMode \<Rightarrow>
          if missing then (Inr (Verified (map (\<lambda>s. (ts_mcp_id s, verifyChainIntegrity g (ts_mcp_id s))) (listScores g None))), g)
          else (Inr (Verified [(k, verifyChainIntegrity g k)]), g)
      | UnknownMode \<Rightarrow> (Inr (Usage ''Error: unknown mode ${input.mode}. Use: score, evaluate, list, history, verify''), g)))"

section \<open>The history\<close>

text \<open>Calls of the tool, one after the other.\<close>

inductive trust_step :: "runtime \<Rightarrow> trust_registry \<Rightarrow> trust_registry \<Rightarrow> bool" for rt where
  tool_call: "trust_step rt g (snd (forgeTrustScore rt real4 fixed3 now t c g))"

fun trust_linked :: "string \<Rightarrow> trust_entry list \<Rightarrow> bool" where
  "trust_linked h [] \<longleftrightarrow> True"
| "trust_linked h (e # es) \<longleftrightarrow> te_prev_hash e = h \<and> trust_linked (te_entry_hash e) es"

lemma trust_linked_snoc:
  "trust_linked h (es @ [e]) \<longleftrightarrow> trust_linked h es \<and> te_prev_hash e = (if es = [] then h else te_entry_hash (last es))"
  by (induction es arbitrary: h) auto

definition history_ok :: "trust_registry \<Rightarrow> bool" where
  "history_ok g \<longleftrightarrow> trust_linked ''genesis'' (rg_history g)"

lemma upsert_history: "history_ok g \<Longrightarrow> history_ok (snd (upsertScore rt real4 now t s g))"
  by (cases t) (simp_all add: upsertScore_def Let_def history_ok_def trust_linked_snoc getLastHash_def)

lemma tool_history: "history_ok g \<Longrightarrow> history_ok (snd (forgeTrustScore rt real4 fixed3 now t c g))"
proof -
  assume ok: "history_ok g"
  have "snd (case upsertScore rt real4 now t s g of (Inl e, g') \<Rightarrow> (Inl e, g') | (Inr _, g') \<Rightarrow> (Inr reply, g'))
      = snd (upsertScore rt real4 now t s g)" for s and reply :: trust_reply
    by (simp add: split_beta split: sum.split)
  then show ?thesis using ok upsert_history [OF ok]
    by (cases "tc_mode c") (simp_all add: forgeTrustScore_def Let_def)
qed

interpretation trust_history: kept_invariant "trust_step rt" history_ok for rt
  by unfold_locales (auto elim!: trust_step.cases intro: tool_history)

lemma trust_linked_prev: "trust_linked h es \<Longrightarrow> e \<in> set es \<Longrightarrow> te_prev_hash e = h \<or> te_prev_hash e \<in> te_entry_hash ` set es"
  by (induction es arbitrary: h) auto

text \<open>The entries of a server stand together: after the first of them and others of it, none follows.\<close>

definition together :: "('a \<Rightarrow> bool) \<Rightarrow> 'a list \<Rightarrow> bool" where
  "together P es \<longleftrightarrow> list_all (\<lambda>e. \<not> P e) (dropWhile P (dropWhile (\<lambda>e. \<not> P e) es))"

lemma broken_after:
  "trust_linked (te_entry_hash e) es \<Longrightarrow> distinct (map te_entry_hash (e # es)) \<Longrightarrow>
   broken_at (e # filter P es) = None \<longleftrightarrow> list_all (\<lambda>e. \<not> P e) (dropWhile P es)"
proof (induction es arbitrary: e)
  case (Cons f fs)
  show ?case
  proof (cases "P f")
    case True
    then show ?thesis using Cons by simp
  next
    case False
    show ?thesis
    proof (cases "filter P fs")
      case Nil
      then show ?thesis using False by (simp add: filter_empty_conv list_all_iff)
    next
      case (Cons r rs)
      then have "r \<in> set (filter P fs)" by simp
      then have r: "r \<in> set fs" "P r" by auto
      then have "te_prev_hash r \<in> te_entry_hash ` set (f # fs)"
        using Cons.prems(1) trust_linked_prev [of "te_entry_hash f" fs r] by auto
      then have "te_prev_hash r \<noteq> te_entry_hash e" using Cons.prems(2) by (metis distinct.simps(2) image_set list.simps(9))
      then show ?thesis using False Cons r by (auto simp: list_all_iff)
    qed
  qed
qed simp

lemma rescored_id: "ts_mcp_id (rescored fixed3 existing i) = mi_mcp_id i"
  by (cases existing) (simp_all add: rescored_def reevaluateTrustScore_def computeTrustScore_def Let_def)

section \<open>The rows\<close>

definition history_of :: "trust_registry \<Rightarrow> string \<Rightarrow> trust_entry list" where
  "history_of g k = filter (\<lambda>e. te_mcp_id e = k) (rg_history g)"

definition row_ok :: "trust_registry \<Rightarrow> string \<Rightarrow> trust_score \<Rightarrow> bool" where
  "row_ok g k s \<longleftrightarrow> ts_mcp_id s = k \<and> ts_evaluation_count s = length (history_of g k)
     \<and> length (ts_dimensions s) = length DIMENSION_WEIGHTS \<and> length (ts_history s) \<le> 10"

definition rows_ok :: "trust_registry \<Rightarrow> bool" where
  "rows_ok g \<longleftrightarrow> (\<forall>k. case getScore g k of None \<Rightarrow> history_of g k = [] | Some s \<Rightarrow> row_ok g k s)"

definition numbered :: "trust_registry \<Rightarrow> bool" where
  "numbered g \<longleftrightarrow> sorted_wrt (<) (map te_seq (rg_history g) @ [rg_next g])"

lemma upsert_rows:
  assumes "rows_ok g" "ts_evaluation_count s = Suc (length (history_of g (ts_mcp_id s)))"
    and "length (ts_dimensions s) = length DIMENSION_WEIGHTS"
  shows "rows_ok (snd (upsertScore rt real4 now t s g))"
proof (cases t)
  case Commits
  have "case getScore g k of None \<Rightarrow> history_of g k = [] | Some s \<Rightarrow> row_ok g k s" for k
    using assms(1) by (simp add: rows_ok_def)
  then show ?thesis
    unfolding rows_ok_def
  proof (intro allI)
    fix k
    assume old: "\<And>k. case getScore g k of None \<Rightarrow> history_of g k = [] | Some s \<Rightarrow> row_ok g k s"
    show "case getScore (snd (upsertScore rt real4 now t s g)) k of None \<Rightarrow> history_of (snd (upsertScore rt real4 now t s g)) k = []
        | Some s' \<Rightarrow> row_ok (snd (upsertScore rt real4 now t s g)) k s'"
      using old [of k] assms(2,3) Commits
      by (cases "k = ts_mcp_id s")
        (simp_all add: upsertScore_def Let_def row_ok_def history_of_def getScore_def update_conv stored_score_def last_n_def
           split: option.splits)
  qed
next
  case (Throws u)
  have same: "row_ok (g\<lparr>rg_next := n\<rparr>) k s' = row_ok g k s'" "history_of (g\<lparr>rg_next := n\<rparr>) k = history_of g k"
      "getScore (g\<lparr>rg_next := n\<rparr>) k = getScore g k" for n k s'
    by (simp_all add: row_ok_def history_of_def getScore_def)
  show ?thesis using assms(1) Throws by (simp add: upsertScore_def rows_ok_def same cong: option.case_cong)
qed

lemma upsert_numbered: "numbered g \<Longrightarrow> numbered (snd (upsertScore rt real4 now t s g))"
  by (cases t) (fastforce simp: upsertScore_def Let_def numbered_def sorted_wrt_append)+

lemma rescored_count:
  "rows_ok g \<Longrightarrow> ts_evaluation_count (rescored fixed3 (getScore g k) i) = Suc (length (history_of g k))"
  by (cases "getScore g k")
    (auto simp: rows_ok_def row_ok_def rescored_def reevaluateTrustScore_def computeTrustScore_def Let_def dest: spec [of _ k])

lemma rescored_dimensions: "length (ts_dimensions (rescored fixed3 existing i)) = length DIMENSION_WEIGHTS"
  by (cases existing) (simp_all add: rescored_def reevaluateTrustScore_def computeTrustScore_def Let_def)

lemma call_cases:
  fixes c :: trust_call
  defines "k \<equiv> the (tc_mcp_id c)" and "i \<equiv> mcp_input c (the (tc_mcp_id c)) (the (tc_endpoint c))"
  shows "snd (forgeTrustScore rt real4 fixed3 now t c g)
    \<in> {g, snd (upsertScore rt real4 now t (rescored fixed3 (getScore g k) i) g)}"
proof -
  have keep: "snd (case upsertScore rt real4 now t s g of (Inl e, g') \<Rightarrow> (Inl e, g') | (Inr _, g') \<Rightarrow> (Inr reply, g'))
      = snd (upsertScore rt real4 now t s g)" for s and reply :: trust_reply
    by (simp add: split_beta split: sum.split)
  show ?thesis unfolding k_def i_def by (cases "tc_mode c") (auto simp: forgeTrustScore_def Let_def keep)
qed

lemma step_rows: "trust_step rt g g' \<Longrightarrow> rows_ok g \<and> numbered g \<Longrightarrow> rows_ok g' \<and> numbered g'"
proof (induction rule: trust_step.induct)
  case (tool_call g real4 fixed3 now t c)
  define k i where "k = the (tc_mcp_id c)" and "i = mcp_input c k (the (tc_endpoint c))"
  have "rows_ok (snd (upsertScore rt real4 now t (rescored fixed3 (getScore g k) i) g))"
    by (rule upsert_rows) (use tool_call in \<open>simp_all add: i_def mcp_input_def rescored_id rescored_count rescored_dimensions\<close>)
  then show ?case using call_cases [of rt real4 fixed3 now t c g] tool_call upsert_numbered unfolding i_def k_def by auto
qed

interpretation trust_rows: kept_invariant "trust_step rt" "\<lambda>g. rows_ok g \<and> numbered g" for rt
  by unfold_locales (rule step_rows)

text \<open>
  C33. After any calls of the tool, failed transactions included, the row of a server is filed under the server it is of,
  has the five dimensions and at most ten snapshots, and counts exactly the entries of the server in the history, whose
  numbers rise; a server without a row has no entry.
\<close>

theorem rows_count_their_history:
  assumes "(trust_step rt)\<^sup>*\<^sup>* empty_registry g"
  shows "sorted_wrt (<) (map te_seq (rg_history g))
    \<and> (case getScore g k of
           None \<Rightarrow> getHistory g k n = []
         | Some s \<Rightarrow> ts_mcp_id s = k \<and> length (getHistory g k n) = min n (ts_evaluation_count s)
             \<and> length (ts_dimensions s) = 5 \<and> length (ts_history s) \<le> 10)"
proof -
  have ok: "rows_ok g \<and> numbered g"
    by (rule trust_rows.run_inv [OF assms]) (simp add: rows_ok_def numbered_def empty_registry_def getScore_def history_of_def)
  then have "sorted_wrt (<) (map te_seq (rg_history g))" by (simp add: numbered_def sorted_wrt_append)
  moreover have "case getScore g k of None \<Rightarrow> history_of g k = [] | Some s \<Rightarrow> row_ok g k s" using ok by (simp add: rows_ok_def)
  ultimately show ?thesis
    by (cases "getScore g k") (simp_all add: getHistory_def history_of_def row_ok_def DIMENSION_WEIGHTS_def min.commute)
qed

lemma filter_after: "filter P (dropWhile (\<lambda>e. \<not> P e) xs) = filter P xs"
  by (induction xs) auto

lemma distinct_tail: "distinct (map f xs) \<Longrightarrow> distinct (map f (dropWhile P xs))"
  by (induction xs) auto

text \<open>
  C32. After any calls of the tool, and unless two entries have the same hash, the verification of a server's history
  succeeds exactly when its entries stand together in the history of all servers: as soon as another server is scored
  between two scores of one server, its intact history is reported as broken.
\<close>

theorem verified_iff_together:
  assumes "(trust_step rt)\<^sup>*\<^sup>* empty_registry g" "distinct (map te_entry_hash (rg_history g))"
  shows "ci_broken_at_seq (verifyChainIntegrity g k) = None \<longleftrightarrow> together (\<lambda>e. te_mcp_id e = k) (rg_history g)"
proof -
  define P where "P = (\<lambda>e :: trust_entry. te_mcp_id e = k)"
  define es where "es = dropWhile (\<lambda>e. \<not> P e) (rg_history g)"
  have ok: "trust_linked ''genesis'' (rg_history g)"
    using trust_history.run_inv [OF assms(1)] by (simp add: history_ok_def empty_registry_def)
  have tail: "\<exists>h'. trust_linked h' (dropWhile Q xs)" if "trust_linked h xs" for h Q xs
    using that by (induction xs arbitrary: h) auto
  obtain h where h: "trust_linked h es" using tail [OF ok] unfolding es_def by blast
  have rows: "filter P (rg_history g) = filter P es" by (simp add: es_def filter_after)
  have left: "together P (rg_history g) = list_all (\<lambda>e. \<not> P e) (dropWhile P es)"
    by (simp add: together_def es_def)
  have dist: "distinct (map te_entry_hash es)"
    unfolding es_def by (rule distinct_tail [OF assms(2)])
  show ?thesis
  proof (cases es)
    case Nil
    then show ?thesis using rows left by (simp add: verifyChainIntegrity_def Let_def P_def)
  next
    case (Cons e fs)
    then have e: "P e" using hd_dropWhile [of "\<lambda>e. \<not> P e" "rg_history g"] unfolding es_def by force
    have "broken_at (e # filter P fs) = None \<longleftrightarrow> list_all (\<lambda>e. \<not> P e) (dropWhile P fs)"
      by (rule broken_after) (use h dist Cons in auto)
    then show ?thesis using rows left Cons e by (simp add: verifyChainIntegrity_def Let_def P_def)
  qed
qed

text \<open>Server a, server b and server a again, with the identity for the hash.\<close>

definition score_call :: "string \<Rightarrow> trust_call" where
  "score_call k = \<lparr> tc_mode = ScoreMode, tc_mcp_id = Some k, tc_mcp_name = None, tc_endpoint = Some ''e'',
     tc_observed = cold_server None, tc_band = None, tc_limit = None \<rparr>"

definition identity_runtime :: runtime where
  "identity_runtime = \<lparr> sha256 = (\<lambda>t. t), number_text = (\<lambda>x. []), get_time = (\<lambda>t. 0) \<rparr>"

definition after_score :: "string \<Rightarrow> trust_registry \<Rightarrow> trust_registry" where
  "after_score k g = snd (forgeTrustScore identity_runtime (\<lambda>x. x) (\<lambda>x. []) [] Commits (score_call k) g)"

lemma after_score_step: "trust_step identity_runtime g (after_score k g)"
  unfolding after_score_def by (rule tool_call)

lemma entry_text_longer: "0 < length (entry_text identity_runtime [] s)"
  by (simp add: entry_text_def)

lemma after_score_history:
  "k \<noteq> [] \<Longrightarrow> \<exists>e :: trust_entry. te_mcp_id e = k \<and> length (getLastHash g) < length (te_entry_hash e)
     \<and> rg_history (after_score k g) = rg_history g @ [e]"
  using entry_text_longer
  by (simp add: after_score_def forgeTrustScore_def Let_def score_call_def upsertScore_def rescored_id mcp_input_def
        identity_runtime_def falsy_def)

lemma last_hash: "rg_history g = es @ [e] \<Longrightarrow> getLastHash g = te_entry_hash e"
  by (simp add: getLastHash_def)

theorem verified_iff_together_witness:
  "ci_broken_at_seq (verifyChainIntegrity (after_score ''a'' (after_score ''b'' (after_score ''a'' empty_registry))) ''a'') \<noteq> None"
proof -
  define g1 where "g1 = after_score ''a'' empty_registry"
  define g2 where "g2 = after_score ''b'' g1"
  define g3 where "g3 = after_score ''a'' g2"
  obtain e1 :: trust_entry where e1: "te_mcp_id e1 = ''a''" "rg_history g1 = rg_history empty_registry @ [e1]"
    unfolding g1_def using after_score_history [of "''a''" empty_registry] by blast
  obtain e2 :: trust_entry where e2: "te_mcp_id e2 = ''b''" "length (getLastHash g1) < length (te_entry_hash e2)"
      "rg_history g2 = rg_history g1 @ [e2]"
    unfolding g2_def using after_score_history [of "''b''" g1] by blast
  obtain e3 :: trust_entry where e3: "te_mcp_id e3 = ''a''" "length (getLastHash g2) < length (te_entry_hash e3)"
      "rg_history g3 = rg_history g2 @ [e3]"
    unfolding g3_def using after_score_history [of "''a''" g2] by blast
  have es: "rg_history g3 = [e1, e2, e3]" using e1(2) e2(3) e3(3) by (simp add: empty_registry_def)
  have less: "length (te_entry_hash e1) < length (te_entry_hash e2)" "length (te_entry_hash e2) < length (te_entry_hash e3)"
    using e2(2) e3(2) unfolding last_hash [OF e1(2)] last_hash [OF e2(3)] .
  have "te_entry_hash e1 \<noteq> te_entry_hash e2" "te_entry_hash e2 \<noteq> te_entry_hash e3" "te_entry_hash e1 \<noteq> te_entry_hash e3"
    using less by (metis less_irrefl, metis less_irrefl, metis less_asym)
  then have dist: "distinct (map te_entry_hash (rg_history g3))" by (simp add: es)
  have "trust_step identity_runtime empty_registry g1" "trust_step identity_runtime g1 g2" "trust_step identity_runtime g2 g3"
    unfolding g1_def g2_def g3_def by (rule after_score_step)+
  then have "(trust_step identity_runtime)\<^sup>*\<^sup>* empty_registry g3" 
    by (metis converse_rtranclp_into_rtranclp rtranclp.rtrancl_refl)
  from verified_iff_together [OF this dist, of "''a''"] have "ci_broken_at_seq (verifyChainIntegrity g3 ''a'') \<noteq> None"
    by (simp add: es e1(1) e2(1) e3(1) together_def)
  then show ?thesis unfolding g3_def g2_def g1_def .
qed

theorem rows_count_their_history_witness:
  "\<exists>s. getScore (after_score ''a'' empty_registry) ''a'' = Some s \<and> ts_evaluation_count s = 1"
proof -
  have reach: "(trust_step identity_runtime)\<^sup>*\<^sup>* empty_registry (after_score ''a'' empty_registry)"
    using after_score_step by (rule r_into_rtranclp)
  obtain e :: trust_entry where e: "te_mcp_id e = ''a''" "rg_history (after_score ''a'' empty_registry) = rg_history empty_registry @ [e]"
    using after_score_history [of "''a''" empty_registry] by blast
  have hist: "getHistory (after_score ''a'' empty_registry) ''a'' 2 = [e]" unfolding getHistory_def e(2) by (simp add: e(1) empty_registry_def)
  show ?thesis
    using rows_count_their_history [OF reach, of "''a''" 2] by (auto simp: hist min_def split: option.splits if_splits)
qed

end
