(* ===== verification/Auth_Pipeline.thy ===== *)
theory Auth_Pipeline
  imports Prelude Double_Arith
begin

text \<open>
  The institutional pipeline of a task (\<^verbatim>\<open>src/src/domain/auth_protocol/pipeline.ts\<close> with the contract of
  \<^verbatim>\<open>task_contract.ts\<close>): a contract passes eleven steps, each of which stamps its stage or ends the run. Arguments
  are the reply of arifFLOW, the clock and the fresh identifiers. The theorems: the exact condition under which a
  contract is completed and what its status then holds, and what a run that stops has left behind.
\<close>

section \<open>The contract\<close>

datatype task_class = ObserveTask | MutateTask | DeployTask
datatype worker_role = Builder | Reviewer | Security | Architect | Tester
datatype merge_policy = AutoMerge | Require555 | Require888 | RequireF13
datatype evidence_type = DiffE | TestOutputE | BenchmarkE | ScreenshotE | LogE | ReceiptE
datatype contract_tier = LowTier | MediumTier | HighTier | CriticalTier

text \<open>
  The fields that nothing reads are left out: the class of the constitution, the approver, the authorised workers, the
  dependencies and the second requester.
\<close>

record auth_contract =
  ct_task_id :: string
  ct_objective :: string
  ct_action_class :: task_class
  ct_worker_role :: worker_role
  ct_acceptance_criteria :: "string list"
  ct_evidence_required :: "evidence_type list"
  ct_merge_policy :: merge_policy
  ct_seal_required :: bool
  ct_reversible :: bool
  ct_risk_tier :: contract_tier
  ct_authority_requested_by :: string
  ct_authority_delegated_to :: "string option"
  ct_target :: "string option"
  ct_timeout_ms :: int
  ct_context :: "string option"

definition text_within :: "nat \<Rightarrow> nat \<Rightarrow> string \<Rightarrow> bool" where
  "text_within a b s \<longleftrightarrow> a \<le> length s \<and> length s \<le> b"

text \<open>What the schema demands of a contract whose fields have their types.\<close>

definition contract_valid :: "auth_contract \<Rightarrow> bool" where
  "contract_valid c \<longleftrightarrow>
     text_within 3 64 (ct_task_id c) \<and> text_within 10 500 (ct_objective c) \<and>
     1 \<le> length (ct_acceptance_criteria c) \<and> length (ct_acceptance_criteria c) \<le> 10 \<and>
     list_all (text_within 5 200) (ct_acceptance_criteria c) \<and>
     1 \<le> length (ct_evidence_required c) \<and> length (ct_evidence_required c) \<le> 6 \<and>
     (case ct_target c of None \<Rightarrow> True | Some t \<Rightarrow> text_within 1 200 t) \<and>
     0 < ct_timeout_ms c \<and> ct_timeout_ms c \<le> 900000 \<and>
     (case ct_context c of None \<Rightarrow> True | Some t \<Rightarrow> length t \<le> 10000)"

section \<open>The status\<close>

datatype pipeline_stage =
    DECLARED | FQ_GATED | LEASED | LOCKED | EXECUTING | EVIDENCED | VERIFIED | JUDGED | MERGED | SEALED | INGESTED
  | FAILED | ROLLED_BACK

record evidence_bundle =
  eb_task_id :: string
  eb_diff :: string
  eb_test_output :: string
  eb_files_changed :: "string list"
  eb_exit_code :: int
  eb_execution_time_ms :: int
  eb_worker_agent :: worker_role

text \<open>The dash in the text of a verdict is a hyphen here, since the texts are ASCII.\<close>

record verification =
  vf_passed :: bool
  vf_verdict :: string
  vf_witness_organ :: "string option"

datatype auth_verdict = JudgeSeal | JudgeHold

text \<open>The errors a status can carry.\<close>

datatype pipeline_error =
    InvalidContract
  | FlowHttp int
  | FlowUnreachable string
  | ActorHeld string
  | FqTooLow string rat rat
  | VerificationMissing
  | JudgementMissing

record pipeline_status =
  ps_stage :: pipeline_stage
  ps_lease_id :: "string option"
  ps_lock_id :: "string option"
  ps_stage_id :: "string option"
  ps_evidence :: "evidence_bundle option"
  ps_verification :: "verification option"
  ps_judgment :: "auth_verdict option"
  ps_receipt_id :: "string option"
  ps_vault_seal_id :: "string option"
  ps_error :: "pipeline_error option"
  ps_timestamps :: "(string, string) jsmap"
  ps_completed :: bool                    \<comment> \<open>\<^verbatim>\<open>completed_at\<close> is set\<close>

text \<open>
  What the environment decides: the reply of arifFLOW, the reading of the clock when a stage is stamped, and the eight
  characters of a fresh identifier. In a healthy reply, an actor is looked up; a value that is not truthy is no actor.
\<close>

record actor_state =
  as_quotient :: "rat option"
  as_held :: "bool option"

datatype flow_reply = FlowStatus int | FlowThrows string | FlowHealth "string \<Rightarrow> actor_state option"

record pipeline_env =
  pe_flow :: flow_reply
  pe_clock :: "string \<Rightarrow> string"
  pe_uuid :: "string \<Rightarrow> string"

section \<open>The steps\<close>

type_synonym pipeline_step = "pipeline_env \<Rightarrow> auth_contract \<Rightarrow> pipeline_status \<Rightarrow> pipeline_error + pipeline_status"

definition stamp :: "pipeline_env \<Rightarrow> pipeline_stage \<Rightarrow> string \<Rightarrow> pipeline_status \<Rightarrow> pipeline_status" where
  "stamp env st name s = s\<lparr>ps_stage := st, ps_timestamps := m_set name (pe_clock env name) (ps_timestamps s)\<rparr>"

definition fail_with :: "pipeline_error \<Rightarrow> pipeline_status \<Rightarrow> pipeline_status" where
  "fail_with e s = s\<lparr>ps_stage := FAILED, ps_error := Some e, ps_completed := True\<rparr>"

definition fresh_id :: "pipeline_env \<Rightarrow> string \<Rightarrow> auth_contract \<Rightarrow> string" where
  "fresh_id env kind c = kind @ ''-'' @ ct_task_id c @ ''-'' @ pe_uuid env kind"

definition observing :: "auth_contract \<Rightarrow> bool" where
  "observing c \<longleftrightarrow> ct_action_class c = ObserveTask"

definition stepDeclare :: pipeline_step where
  "stepDeclare env c s =
     (if \<not> contract_valid c then Inl InvalidContract
      else if observing c then Inr (s\<lparr>ps_stage := DECLARED, ps_error := None\<rparr>)
      else Inr (stamp env DECLARED ''declared'' s))"

definition fqRequiredForRiskTier :: "contract_tier \<Rightarrow> rat" where
  "fqRequiredForRiskTier t =
     (case t of LowTier \<Rightarrow> dbl (1 / 10) | MediumTier \<Rightarrow> dbl (3 / 10) | HighTier \<Rightarrow> 1 / 2 | CriticalTier \<Rightarrow> 1)"

definition contract_actor :: "auth_contract \<Rightarrow> string" where
  "contract_actor c = (case ct_authority_delegated_to c of Some a \<Rightarrow> a | None \<Rightarrow> ct_authority_requested_by c)"

definition stepFqGate :: pipeline_step where
  "stepFqGate env c s =
     (if observing c then Inr s
      else (let fq_required = fqRequiredForRiskTier (ct_risk_tier c); who = contract_actor c in
        Inr (case pe_flow env of
            FlowStatus n \<Rightarrow> fail_with (FlowHttp n) s
          | FlowThrows m \<Rightarrow> fail_with (FlowUnreachable m) s
          | FlowHealth per_actor \<Rightarrow>
              (case per_actor who of
                None \<Rightarrow> stamp env FQ_GATED ''fq_gated'' s
              | Some a \<Rightarrow>
                  (let fq = (case as_quotient a of None \<Rightarrow> 0 | Some q \<Rightarrow> q); held = (as_held a = Some True) in
                   if held then fail_with (ActorHeld who) s
                   else if fq < fq_required then fail_with (FqTooLow who fq fq_required) s
                   else stamp env FQ_GATED ''fq_gated'' s)))))"

definition stepLease :: pipeline_step where
  "stepLease env c s =
     Inr (if observing c then s else stamp env LEASED ''leased'' (s\<lparr>ps_lease_id := Some (fresh_id env ''LEASE'' c)\<rparr>))"

definition stepLock :: pipeline_step where
  "stepLock env c s =
     Inr (if observing c then s else stamp env LOCKED ''locked'' (s\<lparr>ps_lock_id := Some (fresh_id env ''LOCK'' c)\<rparr>))"

definition made_evidence :: "auth_contract \<Rightarrow> evidence_bundle" where
  "made_evidence c =
     \<lparr> eb_task_id = ct_task_id c, eb_diff = ''[worker diff would appear here]'',
       eb_test_output = ''[test output would appear here]'',
       eb_files_changed = (if falsy (ct_target c) then [] else [the (ct_target c)]), eb_exit_code = 0,
       eb_execution_time_ms = 0, eb_worker_agent = ct_worker_role c \<rparr>"

definition stepExecute :: pipeline_step where
  "stepExecute env c s =
     Inr (if observing c then s
          else (stamp env EXECUTING ''executing'' (s\<lparr>ps_stage_id := Some (fresh_id env ''STAGE'' c)\<rparr>))
            \<lparr>ps_evidence := Some (made_evidence c)\<rparr>)"

definition stepEvidence :: pipeline_step where
  "stepEvidence env c s = Inr (if observing c then s else stamp env EVIDENCED ''evidenced'' s)"

definition verification_passes :: "auth_contract \<Rightarrow> bool" where
  "verification_passes c \<longleftrightarrow> ct_merge_policy c \<noteq> Require555 \<or> ct_risk_tier c = LowTier"

definition stepVerify :: pipeline_step where
  "stepVerify env c s =
     (if observing c then Inr s
      else (let passed = verification_passes c;
                s' = s\<lparr>ps_verification := Some
                  \<lparr> vf_passed = passed,
                    vf_verdict = (if passed then ''PASS'' else ''HOLD - requires 555-ASI verification''),
                    vf_witness_organ = (if passed then Some ''555-ASI'' else None) \<rparr>\<rparr> in
            Inr (if \<not> passed then fail_with VerificationMissing s' else stamp env VERIFIED ''verified'' s')))"

definition judgement_of :: "auth_contract \<Rightarrow> auth_verdict" where
  "judgement_of c = (if ct_action_class c = DeployTask \<or> ct_merge_policy c = Require888 then JudgeHold else JudgeSeal)"

definition stepJudge :: pipeline_step where
  "stepJudge env c s =
     (if observing c then Inr s
      else (let v = judgement_of c; s' = s\<lparr>ps_judgment := Some v\<rparr> in
            Inr (if v = JudgeHold then fail_with JudgementMissing s' else stamp env JUDGED ''judged'' s')))"

definition stepMerge :: pipeline_step where
  "stepMerge env c s = Inr (if observing c then s else stamp env MERGED ''merged'' s)"

definition stepSeal :: pipeline_step where
  "stepSeal env c s =
     (if observing c then Inr s
      else (let s1 = s\<lparr>ps_receipt_id := Some (fresh_id env ''RECEIPT'' c)\<rparr>;
                s2 = (if ct_seal_required c \<or> ct_action_class c = DeployTask
                  then s1\<lparr>ps_vault_seal_id := Some (fresh_id env ''VAULT999'' c)\<rparr> else s1) in
            Inr (stamp env SEALED ''sealed'' s2)))"

definition stepIngest :: pipeline_step where
  "stepIngest env c s = Inr (if observing c then s else stamp env INGESTED ''ingested'' s)"

definition stepRollback :: "pipeline_env \<Rightarrow> auth_contract \<Rightarrow> pipeline_error \<Rightarrow> pipeline_status \<Rightarrow> pipeline_status" where
  "stepRollback env c e s =
     (let s' = fail_with e s in
      if ct_reversible c then stamp env ROLLED_BACK ''rolled_back'' s' else s')"

section \<open>The pipeline\<close>

definition PIPELINE :: "(string \<times> pipeline_step) list" where
  "PIPELINE =
     [(''DECLARE'', stepDeclare), (''FQ_GATE'', stepFqGate), (''LEASE'', stepLease), (''LOCK'', stepLock),
      (''EXECUTE'', stepExecute), (''EVIDENCE'', stepEvidence), (''VERIFY'', stepVerify), (''JUDGE'', stepJudge),
      (''MERGE'', stepMerge), (''SEAL'', stepSeal), (''INGEST'', stepIngest)]"

datatype pipeline_summary = ObserveIsFree | BlockedAt string | FailedAt string | Completed

record pipeline_result =
  pr_success :: bool
  pr_final_stage :: pipeline_stage
  pr_status :: pipeline_status
  pr_summary :: pipeline_summary
  pr_delta_s :: rat

definition started_status :: pipeline_status where
  "started_status =
     \<lparr> ps_stage = DECLARED, ps_lease_id = None, ps_lock_id = None, ps_stage_id = None, ps_evidence = None,
       ps_verification = None, ps_judgment = None, ps_receipt_id = None, ps_vault_seal_id = None, ps_error = None,
       ps_timestamps = [], ps_completed = False \<rparr>"

definition result_of :: "bool \<Rightarrow> pipeline_status \<Rightarrow> pipeline_summary \<Rightarrow> rat \<Rightarrow> pipeline_result" where
  "result_of ok s m d = \<lparr> pr_success = ok, pr_final_stage = ps_stage s, pr_status = s, pr_summary = m, pr_delta_s = d \<rparr>"

fun run_steps :: "pipeline_env \<Rightarrow> auth_contract \<Rightarrow> (string \<times> pipeline_step) list \<Rightarrow> pipeline_status \<Rightarrow> pipeline_result" where
  "run_steps env c [] s =
     (let s' = s\<lparr>ps_completed := True\<rparr> in (result_of True s' Completed (- dbl (3 / 10)))\<lparr>pr_final_stage := INGESTED\<rparr>)"
| "run_steps env c ((name, fn) # steps) s =
     (case fn env c s of
        Inl e \<Rightarrow> result_of False (stepRollback env c e s) (FailedAt name) (1 / 2)
      | Inr s' \<Rightarrow>
          if ps_stage s' = FAILED then result_of False s' (BlockedAt name) (dbl (1 / 10))
          else run_steps env c steps s')"

definition executePipeline :: "pipeline_env \<Rightarrow> auth_contract \<Rightarrow> pipeline_result" where
  "executePipeline env c =
     (if observing c
      then result_of True (started_status\<lparr>ps_stage := INGESTED, ps_completed := True\<rparr>) ObserveIsFree 0
      else run_steps env c PIPELINE started_status)"

text \<open>The handler of the tool: a dry run only tells which gates apply.\<close>

datatype pipeline_gates = NoGates | FullGates | StandardGates | SchemaIssues

datatype pipeline_reply = DryRun bool pipeline_gates | RunReply pipeline_result

definition authPipelineHandler :: "pipeline_env \<Rightarrow> bool \<Rightarrow> auth_contract \<Rightarrow> pipeline_reply" where
  "authPipelineHandler env dry_run c =
     (if dry_run
      then DryRun (contract_valid c)
        (if contract_valid c
         then (case ct_action_class c of ObserveTask \<Rightarrow> NoGates | DeployTask \<Rightarrow> FullGates | MutateTask \<Rightarrow> StandardGates)
         else SchemaIssues)
      else RunReply (executePipeline env c))"

section \<open>What a run amounts to\<close>

definition fq_open :: "pipeline_env \<Rightarrow> auth_contract \<Rightarrow> bool" where
  "fq_open env c \<longleftrightarrow>
     (case pe_flow env of
        FlowHealth per_actor \<Rightarrow>
          (case per_actor (contract_actor c) of
             None \<Rightarrow> True
           | Some a \<Rightarrow> as_held a \<noteq> Some True
               \<and> fqRequiredForRiskTier (ct_risk_tier c) \<le> (case as_quotient a of None \<Rightarrow> 0 | Some q \<Rightarrow> q))
      | _ \<Rightarrow> False)"

lemmas step_defs = stepLease_def stepLock_def stepExecute_def stepEvidence_def stepVerify_def stepJudge_def stepMerge_def
  stepSeal_def stepIngest_def

lemma stage_simps [simp]:
  "ps_stage (stamp env st n s) = st" "ps_stage (fail_with e s) = FAILED"
  by (simp_all add: stamp_def fail_with_def)

lemma fq_gate_open: "\<not> observing c \<Longrightarrow> fq_open env c \<Longrightarrow> stepFqGate env c s = Inr (stamp env FQ_GATED ''fq_gated'' s)"
  by (auto simp: stepFqGate_def fq_open_def Let_def split: flow_reply.splits option.splits)

lemma fq_gate_shut: "\<not> observing c \<Longrightarrow> \<not> fq_open env c \<Longrightarrow> \<exists>e. stepFqGate env c s = Inr (fail_with e s)"
  by (auto simp: stepFqGate_def fq_open_def Let_def split: flow_reply.splits option.splits)

text \<open>The status of a run that has come as far as its evidence.\<close>

definition evidenced :: "pipeline_env \<Rightarrow> auth_contract \<Rightarrow> pipeline_status" where
  "evidenced env c =
     started_status\<lparr>ps_stage := EVIDENCED, ps_lease_id := Some (fresh_id env ''LEASE'' c),
       ps_lock_id := Some (fresh_id env ''LOCK'' c), ps_stage_id := Some (fresh_id env ''STAGE'' c),
       ps_evidence := Some (made_evidence c),
       ps_timestamps := map (\<lambda>n. (n, pe_clock env n)) [''declared'', ''fq_gated'', ''leased'', ''locked'', ''executing'', ''evidenced'']\<rparr>"

lemma evidenced_stage [simp]: "ps_stage (evidenced env c) = EVIDENCED"
  by (simp add: evidenced_def)

lemma run_invalid:
  "\<not> observing c \<Longrightarrow> \<not> contract_valid c \<Longrightarrow>
   executePipeline env c = result_of False (stepRollback env c InvalidContract started_status) (FailedAt ''DECLARE'') (1 / 2)"
  by (simp add: executePipeline_def PIPELINE_def stepDeclare_def)

lemma run_ungrounded:
  assumes "\<not> observing c" "contract_valid c" "\<not> fq_open env c"
  shows "\<exists>e. executePipeline env c =
    result_of False (fail_with e (stamp env DECLARED ''declared'' started_status)) (BlockedAt ''FQ_GATE'') (dbl (1 / 10))"
proof -
  obtain e where "stepFqGate env c (stamp env DECLARED ''declared'' started_status)
      = Inr (fail_with e (stamp env DECLARED ''declared'' started_status))"
    using fq_gate_shut [OF assms(1,3)] by blast
  then show ?thesis using assms by (auto simp: executePipeline_def PIPELINE_def stepDeclare_def)
qed

lemma run_grounded:
  assumes "\<not> observing c" "contract_valid c" "fq_open env c"
  shows "executePipeline env c =
    run_steps env c [(''VERIFY'', stepVerify), (''JUDGE'', stepJudge), (''MERGE'', stepMerge), (''SEAL'', stepSeal),
      (''INGEST'', stepIngest)] (evidenced env c)"
proof -
  have "(stamp env EVIDENCED ''evidenced''
     ((stamp env EXECUTING ''executing''
        (stamp env LOCKED ''locked''
          (stamp env LEASED ''leased''
            (stamp env FQ_GATED ''fq_gated'' (stamp env DECLARED ''declared'' started_status)\<lparr>ps_lease_id := Some (fresh_id env ''LEASE'' c)\<rparr>)
            \<lparr>ps_lock_id := Some (fresh_id env ''LOCK'' c)\<rparr>)
          \<lparr>ps_stage_id := Some (fresh_id env ''STAGE'' c)\<rparr>))
      \<lparr>ps_evidence := Some (made_evidence c)\<rparr>)) = evidenced env c"
    by (simp add: stamp_def evidenced_def started_status_def)
  then show ?thesis
    using assms fq_gate_open by (simp add: executePipeline_def PIPELINE_def stepDeclare_def stepLease_def stepLock_def
        stepExecute_def stepEvidence_def)
qed

definition verify_record :: "auth_contract \<Rightarrow> verification" where
  "verify_record c = (if verification_passes c
     then \<lparr> vf_passed = True, vf_verdict = ''PASS'', vf_witness_organ = Some ''555-ASI'' \<rparr>
     else \<lparr> vf_passed = False, vf_verdict = ''HOLD - requires 555-ASI verification'', vf_witness_organ = None \<rparr>)"

lemma run_unverified:
  assumes "\<not> observing c" "contract_valid c" "fq_open env c" "\<not> verification_passes c"
  shows "executePipeline env c =
    result_of False (fail_with VerificationMissing (evidenced env c\<lparr>ps_verification := Some (verify_record c)\<rparr>))
      (BlockedAt ''VERIFY'') (dbl (1 / 10))"
  using assms by (simp add: run_grounded stepVerify_def Let_def verify_record_def)

lemma run_unjudged:
  assumes "\<not> observing c" "contract_valid c" "fq_open env c" "verification_passes c" "judgement_of c = JudgeHold"
  shows "executePipeline env c =
    result_of False (fail_with JudgementMissing ((stamp env VERIFIED ''verified''
        (evidenced env c\<lparr>ps_verification := Some (verify_record c)\<rparr>))\<lparr>ps_judgment := Some JudgeHold\<rparr>))
      (BlockedAt ''JUDGE'') (dbl (1 / 10))"
  using assms by (simp add: run_grounded stepVerify_def stepJudge_def Let_def verify_record_def)

lemma stamp_fields [simp]:
  "ps_lease_id (stamp env st n s) = ps_lease_id s" "ps_lock_id (stamp env st n s) = ps_lock_id s"
  "ps_evidence (stamp env st n s) = ps_evidence s" "ps_verification (stamp env st n s) = ps_verification s"
  "ps_judgment (stamp env st n s) = ps_judgment s" "ps_receipt_id (stamp env st n s) = ps_receipt_id s"
  "ps_vault_seal_id (stamp env st n s) = ps_vault_seal_id s"
  "ps_timestamps (stamp env st n s) = m_set n (pe_clock env n) (ps_timestamps s)"
  by (simp_all add: stamp_def)

lemma fail_fields [simp]:
  "ps_lease_id (fail_with e s) = ps_lease_id s" "ps_lock_id (fail_with e s) = ps_lock_id s"
  "ps_evidence (fail_with e s) = ps_evidence s" "ps_verification (fail_with e s) = ps_verification s"
  "ps_judgment (fail_with e s) = ps_judgment s" "ps_receipt_id (fail_with e s) = ps_receipt_id s"
  "ps_vault_seal_id (fail_with e s) = ps_vault_seal_id s" "ps_timestamps (fail_with e s) = ps_timestamps s"
  by (simp_all add: fail_with_def)

text \<open>What a completed run of a contract that is not an observation has recorded.\<close>

definition record_complete :: "pipeline_env \<Rightarrow> auth_contract \<Rightarrow> pipeline_status \<Rightarrow> bool" where
  "record_complete env c s \<longleftrightarrow>
     map fst (ps_timestamps s) = [''declared'', ''fq_gated'', ''leased'', ''locked'', ''executing'', ''evidenced'', ''verified'',
       ''judged'', ''merged'', ''sealed'', ''ingested''] \<and>
     ps_evidence s = Some (made_evidence c) \<and> ps_verification s = Some (verify_record c) \<and>
     ps_judgment s = Some JudgeSeal \<and> ps_receipt_id s = Some (fresh_id env ''RECEIPT'' c) \<and>
     (ps_vault_seal_id s \<noteq> None \<longleftrightarrow> ct_seal_required c)"

lemma run_complete:
  assumes "\<not> observing c" "contract_valid c" "fq_open env c" "verification_passes c" "judgement_of c = JudgeSeal"
  shows "pr_success (executePipeline env c) \<and> pr_final_stage (executePipeline env c) = INGESTED
    \<and> record_complete env c (pr_status (executePipeline env c))"
proof -
  have "ct_action_class c \<noteq> DeployTask" using assms(5) by (auto simp: judgement_of_def split: if_splits)
  then show ?thesis
    using assms by (simp add: run_grounded stepVerify_def stepJudge_def stepMerge_def stepSeal_def stepIngest_def Let_def
        result_of_def record_complete_def verify_record_def) (simp add: evidenced_def started_status_def)
qed

lemma stopped_cases:
  assumes "\<not> (contract_valid c \<and> fq_open env c \<and> verification_passes c \<and> judgement_of c = JudgeSeal)"
  obtains "\<not> contract_valid c" | "contract_valid c" "\<not> fq_open env c"
    | "contract_valid c" "fq_open env c" "\<not> verification_passes c"
    | "contract_valid c" "fq_open env c" "verification_passes c" "judgement_of c = JudgeHold"
  using assms auth_verdict.exhaust by blast

lemma result_success [simp]: "pr_success (result_of ok s m d) = ok"
  by (simp add: result_of_def)

lemma run_stops:
  assumes "\<not> observing c" "\<not> (contract_valid c \<and> fq_open env c \<and> verification_passes c \<and> judgement_of c = JudgeSeal)"
  shows "\<not> pr_success (executePipeline env c)"
  using assms(2)
proof (rule stopped_cases)
  assume "contract_valid c" "\<not> fq_open env c"
  then show ?thesis using run_ungrounded [OF assms(1)] by force
qed (simp_all add: run_invalid [OF assms(1)] run_unverified [OF assms(1)] run_unjudged [OF assms(1)])

text \<open>
  C27. A contract is completed exactly when it is an observation, or it fits the schema, arifFLOW answers and does not hold
  the actor or find it below the quotient of its tier, and the contract is no deployment and names neither the 888 seal
  nor, above the low tier, the 555 verification. A completed run that is no observation has stamped every stage in order
  and is judged SEAL, whether or not anything was verified, executed or acknowledged: the witness completes an
  irreversible critical contract whose policy demands the acknowledgement of the sovereign.
\<close>

theorem pipeline_completes_iff:
  "pr_success (executePipeline env c) =
     (if observing c then True
      else contract_valid c \<and> fq_open env c \<and> ct_action_class c = MutateTask \<and> ct_merge_policy c \<noteq> Require888
        \<and> (if ct_merge_policy c = Require555 then ct_risk_tier c = LowTier else True))
   \<and> (if pr_success (executePipeline env c) \<and> \<not> observing c then record_complete env c (pr_status (executePipeline env c)) else True)"
proof (cases "observing c")
  case True
  then show ?thesis by (simp add: executePipeline_def result_of_def)
next
  case False
  have judged: "judgement_of c = JudgeSeal \<longleftrightarrow> ct_action_class c = MutateTask \<and> ct_merge_policy c \<noteq> Require888"
    using False by (cases "ct_action_class c") (auto simp: judgement_of_def observing_def)
  have verified: "verification_passes c \<longleftrightarrow> (if ct_merge_policy c = Require555 then ct_risk_tier c = LowTier else True)"
    by (simp add: verification_passes_def)
  show ?thesis
  proof (cases "contract_valid c \<and> fq_open env c \<and> verification_passes c \<and> judgement_of c = JudgeSeal")
    case True
    then show ?thesis using run_complete False judged verified by auto
  next
    case stopped: False
    then have "\<not> pr_success (executePipeline env c)" using run_stops [OF False] by blast
    then show ?thesis using stopped False judged verified by auto
  qed
qed

text \<open>
  C28. A run that is stopped has merged, sealed and receipted nothing. The rollback is reached only by a contract that does
  not fit its schema, for which nothing has been done: a contract that is stopped at its verification or its judgement
  stays FAILED with its lease and its lock, even a reversible one.
\<close>

theorem stopped_run_leaves:
  assumes "\<not> pr_success (executePipeline env c)"
  shows "pr_final_stage (executePipeline env c) = (if \<not> contract_valid c \<and> ct_reversible c then ROLLED_BACK else FAILED)
    \<and> (let s = pr_status (executePipeline env c) in
         ps_receipt_id s = None \<and> ps_vault_seal_id s = None \<and> m_get (ps_timestamps s) ''merged'' = None
         \<and> (ps_lease_id s \<noteq> None \<longleftrightarrow> contract_valid c \<and> fq_open env c)
         \<and> (ps_lock_id s \<noteq> None \<longleftrightarrow> contract_valid c \<and> fq_open env c))"
proof -
  have live: "\<not> observing c" using assms by (auto simp: executePipeline_def result_of_def)
  note fields = result_of_def Let_def evidenced_def started_status_def
  have "\<not> (contract_valid c \<and> fq_open env c \<and> verification_passes c \<and> judgement_of c = JudgeSeal)"
    using run_complete [OF live] assms by blast
  then show ?thesis
  proof (cases rule: stopped_cases)
    case 1
    then show ?thesis by (simp add: run_invalid [OF live] stepRollback_def fields)
  next
    case 2
    then obtain e where "executePipeline env c =
        result_of False (fail_with e (stamp env DECLARED ''declared'' started_status)) (BlockedAt ''FQ_GATE'') (dbl (1 / 10))"
      using run_ungrounded [OF live] by blast
    then show ?thesis using 2 by (simp add: fields)
  next
    case 3
    then show ?thesis by (simp add: run_unverified [OF live] fields)
  next
    case 4
    then show ?thesis by (simp add: run_unjudged [OF live] fields)
  qed
qed

text \<open>A critical, irreversible change that demands the acknowledgement of the sovereign; nobody knows its actor.\<close>

definition sovereign_contract :: "merge_policy \<Rightarrow> auth_contract" where
  "sovereign_contract p =
     \<lparr> ct_task_id = ''T_1'', ct_objective = ''drop the production tables'', ct_action_class = MutateTask,
       ct_worker_role = Builder, ct_acceptance_criteria = [''dropped''], ct_evidence_required = [DiffE],
       ct_merge_policy = p, ct_seal_required = False, ct_reversible = False, ct_risk_tier = CriticalTier,
       ct_authority_requested_by = ''ARIF'', ct_authority_delegated_to = None, ct_target = None, ct_timeout_ms = 1,
       ct_context = None \<rparr>"

definition quiet_env :: pipeline_env where
  "quiet_env = \<lparr> pe_flow = FlowHealth (\<lambda>a. None), pe_clock = (\<lambda>n. n), pe_uuid = (\<lambda>k. ''0'') \<rparr>"

theorem pipeline_completes_iff_witness: "pr_success (executePipeline quiet_env (sovereign_contract RequireF13))"
  using pipeline_completes_iff [of quiet_env "sovereign_contract RequireF13"]
  by (simp add: quiet_env_def sovereign_contract_def observing_def contract_valid_def text_within_def fq_open_def contract_actor_def)

theorem stopped_run_leaves_witness:
  "pr_final_stage (executePipeline quiet_env (sovereign_contract Require888)) = FAILED
   \<and> ps_lock_id (pr_status (executePipeline quiet_env (sovereign_contract Require888))) \<noteq> None"
proof -
  have facts: "contract_valid (sovereign_contract Require888)" "fq_open quiet_env (sovereign_contract Require888)"
    by (simp_all add: quiet_env_def sovereign_contract_def contract_valid_def text_within_def fq_open_def contract_actor_def)
  have "\<not> observing (sovereign_contract Require888)" "judgement_of (sovereign_contract Require888) \<noteq> JudgeSeal"
    by (simp_all add: observing_def judgement_of_def sovereign_contract_def)
  then have "\<not> pr_success (executePipeline quiet_env (sovereign_contract Require888))" using run_stops by blast
  from stopped_run_leaves [OF this] show ?thesis by (simp add: facts Let_def)
qed

end
