(* ===== verification/Secret_Policy.thy ===== *)
theory Secret_Policy
  imports Canonical_Json
begin

text \<open>
  The brokers of secrets and the policy in front of them (\<^verbatim>\<open>src/src/infrastructure/secrets/SecretBroker.ts\<close>,
  \<^verbatim>\<open>SecretBrokerPolicy.ts\<close>). What the policy demands of a broker is the locale \<open>secret_broker\<close>; both brokers of the
  code are interpretations of it. Arguments are the hash, the reading of a date (\<^term>\<open>None\<close> for one that does not
  parse), the environment variables and the clock. The theorems: when a secret leaves the broker, that a revoked scope
  stays shut whatever calls follow, and which calls the audit trail records.
\<close>

section \<open>References and audits\<close>

datatype secret_ref = EnvRef string string | VaultRef string | EphemeralRef string string
  \<comment> \<open>name and scope; entry; lease and time of expiry\<close>

datatype ref_kind = EnvKind | VaultKind | EphemeralKind

fun kind_of :: "secret_ref \<Rightarrow> ref_kind" where
  "kind_of (EnvRef n s) = EnvKind"
| "kind_of (VaultRef i) = VaultKind"
| "kind_of (EphemeralRef l e) = EphemeralKind"

datatype caller_environment = HostEnv | SandboxEnv

record secret_context =
  sc_toolId :: "string option"
  sc_leaseHash :: "string option"
  sc_sessionId :: "string option"
  sc_actorId :: "string option"
  sc_caller_env :: caller_environment
  sc_unsafeForcePlaintext :: bool

record secret_audit =
  sa_ref :: secret_ref
  sa_context :: secret_context
  sa_at :: int
  sa_secret_hash :: string

section \<open>Brokers\<close>

text \<open>A broker returns a secret or throws (\<^term>\<open>Inl\<close>); it keeps its own audits and revoked scopes.\<close>

record broker_state =
  bs_audit :: "secret_audit list"
  bs_revoked :: "string list"

definition new_broker :: broker_state where
  "new_broker = \<lparr> bs_audit = [], bs_revoked = [] \<rparr>"

definition broker_audit :: "runtime \<Rightarrow> int \<Rightarrow> secret_ref \<Rightarrow> secret_context \<Rightarrow> string \<Rightarrow> broker_state \<Rightarrow> broker_state" where
  "broker_audit rt now r c secret b =
     b\<lparr>bs_audit := bs_audit b @ [\<lparr> sa_ref = r, sa_context = c, sa_at = now, sa_secret_hash = sha256 rt secret \<rparr>]\<rparr>"

datatype broker_error = WrongKind | ScopeRevoked string | EmptyVariable string

definition env_resolve ::
  "runtime \<Rightarrow> (string \<Rightarrow> string option) \<Rightarrow> int \<Rightarrow> secret_ref \<Rightarrow> secret_context \<Rightarrow> broker_state \<Rightarrow> (broker_error + string) \<times> broker_state" where
  "env_resolve rt vars now r c b =
     (case r of
        EnvRef n scope \<Rightarrow>
          if scope \<in> set (bs_revoked b) then (Inl (ScopeRevoked scope), b)
          else (let v = (case vars n of None \<Rightarrow> [] | Some v \<Rightarrow> v); b' = broker_audit rt now r c v b in
                if v = [] then (Inl (EmptyVariable n), b') else (Inr v, b'))
      | _ \<Rightarrow> (Inl WrongKind, b))"

definition vault_resolve ::
  "runtime \<Rightarrow> int \<Rightarrow> secret_ref \<Rightarrow> secret_context \<Rightarrow> broker_state \<Rightarrow> (broker_error + string) \<times> broker_state" where
  "vault_resolve rt now r c b =
     (case r of
        VaultRef i \<Rightarrow> (let v = ''arifos-vault:'' @ i in (Inr v, broker_audit rt now r c v b))
      | _ \<Rightarrow> (Inl WrongKind, b))"

definition broker_revoke :: "string \<Rightarrow> broker_state \<Rightarrow> broker_state" where
  "broker_revoke scope b = b\<lparr>bs_revoked := List.insert scope (bs_revoked b)\<rparr>"

section \<open>The policy\<close>

datatype host_returns = ReturnsToken | ReturnsPlaintext

record policy_entry =
  po_ref_kind :: ref_kind
  po_required_env :: caller_environment
  po_authorised_actors :: "string list"
  po_ttl_ms :: "int option"
  po_host_returns :: host_returns
  po_receipt_hash :: string

definition DEFAULT_POLICY :: "policy_entry list" where
  "DEFAULT_POLICY =
     [\<lparr> po_ref_kind = EnvKind, po_required_env = SandboxEnv, po_authorised_actors = [], po_ttl_ms = None,
        po_host_returns = ReturnsToken, po_receipt_hash = ''arifos-sb-env-v1'' \<rparr>,
      \<lparr> po_ref_kind = VaultKind, po_required_env = SandboxEnv, po_authorised_actors = [], po_ttl_ms = None,
        po_host_returns = ReturnsToken, po_receipt_hash = ''arifos-sb-vault-v1'' \<rparr>,
      \<lparr> po_ref_kind = EphemeralKind, po_required_env = SandboxEnv, po_authorised_actors = [], po_ttl_ms = None,
        po_host_returns = ReturnsToken, po_receipt_hash = ''arifos-sb-ephemeral-v1'' \<rparr>]"

record 'b secret_policy =
  sp_audit :: "secret_audit list"
  sp_revoked :: "string list"
  sp_broker :: 'b

datatype policy_error = NoEntry | ExpiredRef | RevokedRef string | ActorRefused | BrokerThrew broker_error

datatype secret_reply = Token string | Plaintext string

definition scope_of :: "secret_ref \<Rightarrow> string" where
  "scope_of r = (case r of EnvRef n s \<Rightarrow> s | _ \<Rightarrow> [])"

definition tokenFor :: "secret_ref \<Rightarrow> string" where
  "tokenFor r =
     (case r of
        EnvRef n s \<Rightarrow> ''${ENV:'' @ n @ ''}''
      | VaultRef i \<Rightarrow> ''${VAULT:'' @ i @ ''}''
      | EphemeralRef l e \<Rightarrow> ''${EPHEMERAL:'' @ l @ '':'' @ e @ ''}'')"

definition audit_entry :: "runtime \<Rightarrow> int \<Rightarrow> secret_ref \<Rightarrow> secret_context \<Rightarrow> string \<Rightarrow> 'b secret_policy \<Rightarrow> 'b secret_policy" where
  "audit_entry rt now r c hashed s =
     s\<lparr>sp_audit := sp_audit s @ [\<lparr> sa_ref = r, sa_context = c, sa_at = now, sa_secret_hash = sha256 rt hashed \<rparr>]\<rparr>"

definition auditWithoutValue :: "runtime \<Rightarrow> int \<Rightarrow> secret_ref \<Rightarrow> secret_context \<Rightarrow> string \<Rightarrow> 'b secret_policy \<Rightarrow> 'b secret_policy" where
  "auditWithoutValue rt now r c denialCode s = audit_entry rt now r c (''DENY:'' @ denialCode) s"

definition expired :: "(string \<Rightarrow> int option) \<Rightarrow> int \<Rightarrow> secret_ref \<Rightarrow> bool" where
  "expired date now r =
     (case r of
        EphemeralRef l e \<Rightarrow> (case date e of None \<Rightarrow> False | Some t \<Rightarrow> t \<le> now)
      | _ \<Rightarrow> False)"

definition actor_refused :: "policy_entry \<Rightarrow> secret_context \<Rightarrow> bool" where
  "actor_refused e c \<longleftrightarrow>
     po_authorised_actors e \<noteq> [] \<and> \<not> falsy (sc_actorId c) \<and> the (sc_actorId c) \<notin> set (po_authorised_actors e)"

definition policy_resolve ::
  "runtime \<Rightarrow> (string \<Rightarrow> int option) \<Rightarrow> policy_entry list \<Rightarrow>
   (int \<Rightarrow> secret_ref \<Rightarrow> secret_context \<Rightarrow> 'b \<Rightarrow> (broker_error + string) \<times> 'b) \<Rightarrow>
   int \<Rightarrow> secret_ref \<Rightarrow> secret_context \<Rightarrow> 'b secret_policy \<Rightarrow> (policy_error + secret_reply) \<times> 'b secret_policy" where
  "policy_resolve rt date policy ask now r c s =
     (case find (\<lambda>p. po_ref_kind p = kind_of r) policy of
        None \<Rightarrow> (Inl NoEntry, auditWithoutValue rt now r c ''POLICY_DENY_NO_ENTRY'' s)
      | Some entry \<Rightarrow>
          if expired date now r then (Inl ExpiredRef, auditWithoutValue rt now r c ''POLICY_DENY_EXPIRED'' s)
          else if scope_of r \<in> set (sp_revoked s)
          then (Inl (RevokedRef (scope_of r)), auditWithoutValue rt now r c ''POLICY_DENY_REVOKED'' s)
          else if actor_refused entry c then (Inl ActorRefused, auditWithoutValue rt now r c ''POLICY_DENY_ACTOR'' s)
          else if sc_caller_env c \<noteq> po_required_env entry \<and> \<not> sc_unsafeForcePlaintext c
          then (Inr (Token (tokenFor r)), audit_entry rt now r c (tokenFor r) s)
          else (case ask now r c (sp_broker s) of
              (Inl e, b) \<Rightarrow> (Inl (BrokerThrew e), s\<lparr>sp_broker := b\<rparr>)
            | (Inr v, b) \<Rightarrow> (Inr (Plaintext v), audit_entry rt now r c v (s\<lparr>sp_broker := b\<rparr>))))"

datatype revocation = RevokeScope string | RevokeRef secret_ref

definition revoked_scope :: "revocation \<Rightarrow> string" where
  "revoked_scope x = (case x of RevokeScope s \<Rightarrow> s | RevokeRef r \<Rightarrow> scope_of r)"

definition policy_revoke :: "(string \<Rightarrow> 'b \<Rightarrow> 'b) \<Rightarrow> revocation \<Rightarrow> 'b secret_policy \<Rightarrow> 'b secret_policy" where
  "policy_revoke shut x s =
     s\<lparr>sp_revoked := List.insert (revoked_scope x) (sp_revoked s), sp_broker := shut (revoked_scope x) (sp_broker s)\<rparr>"

section \<open>What the policy relies on\<close>

text \<open>
  A broker keeps a scope revoked, resolves no reference of the environment whose scope is revoked, and records the
  secrets it gives out.
\<close>

locale secret_broker =
  fixes ask :: "int \<Rightarrow> secret_ref \<Rightarrow> secret_context \<Rightarrow> 'b \<Rightarrow> (broker_error + string) \<times> 'b"
    and shut :: "string \<Rightarrow> 'b \<Rightarrow> 'b"
    and shut_scopes :: "'b \<Rightarrow> string set"
    and handed_out :: "'b \<Rightarrow> (secret_ref \<times> secret_context) list"
  assumes shut_adds: "shut_scopes (shut scope b) = insert scope (shut_scopes b)"
    and shut_keeps: "handed_out (shut scope b) = handed_out b"
    and ask_keeps: "shut_scopes (snd (ask now r c b)) = shut_scopes b"
    and ask_revoked: "kind_of r = EnvKind \<Longrightarrow> scope_of r \<in> shut_scopes b \<Longrightarrow> \<exists>e. fst (ask now r c b) = Inl e"
    and ask_records: "fst (ask now r c b) = Inr v \<Longrightarrow> handed_out (snd (ask now r c b)) = handed_out b @ [(r, c)]"
begin

text \<open>Calls of the policy, whatever its entries, and of the broker behind its back.\<close>

inductive broker_step :: "'b \<Rightarrow> 'b \<Rightarrow> bool" where
  asked: "broker_step b (snd (ask now r c b))"
| shut: "broker_step b (shut scope b)"

lemma shut_stays: "broker_step\<^sup>*\<^sup>* b b' \<Longrightarrow> scope \<in> shut_scopes b \<Longrightarrow> scope \<in> shut_scopes b'"
  by (induction rule: rtranclp_induct) (auto elim!: broker_step.cases simp: ask_keeps shut_adds)

lemma shut_refuses:
  "broker_step\<^sup>*\<^sup>* (shut (scope_of r) b) b' \<Longrightarrow> kind_of r = EnvKind \<Longrightarrow> \<exists>e. fst (ask now r c b') = Inl e"
  using shut_stays ask_revoked shut_adds by (metis insertI1)

lemma resolve_keeps_shut: "shut_scopes (sp_broker (snd (policy_resolve rt date policy ask now r c s))) = shut_scopes (sp_broker s)"
proof -
  obtain a b where ask: "ask now r c (sp_broker s) = (a, b)" by (cases "ask now r c (sp_broker s)")
  have "shut_scopes b = shut_scopes (sp_broker s)" using ask_keeps [of now r c "sp_broker s"] by (simp add: ask)
  then show ?thesis
    by (cases a) (simp_all add: policy_resolve_def auditWithoutValue_def audit_entry_def ask split: option.split)
qed

lemma revoke_shuts: "shut_scopes (sp_broker (policy_revoke shut x s)) = insert (revoked_scope x) (shut_scopes (sp_broker s))"
  by (simp add: policy_revoke_def shut_adds)

end

definition given :: "secret_audit list \<Rightarrow> (secret_ref \<times> secret_context) list" where
  "given as = map (\<lambda>a. (sa_ref a, sa_context a)) as"

interpretation env_broker: secret_broker "env_resolve rt vars" broker_revoke "\<lambda>b. set (bs_revoked b)" "\<lambda>b. given (bs_audit b)" for rt vars
  by unfold_locales
    (auto simp: env_resolve_def broker_revoke_def broker_audit_def given_def scope_of_def Let_def split: secret_ref.splits if_splits)

interpretation vault_broker: secret_broker "vault_resolve rt" broker_revoke "\<lambda>b. set (bs_revoked b)" "\<lambda>b. given (bs_audit b)" for rt
  by unfold_locales
    (auto simp: vault_resolve_def broker_revoke_def broker_audit_def given_def scope_of_def Let_def split: secret_ref.splits if_splits)

section \<open>Sequences of calls\<close>

datatype secret_call = ResolveCall int secret_ref secret_context | RevokeCall revocation

definition revocations :: "secret_call list \<Rightarrow> string set" where
  "revocations calls = {revoked_scope x |x. RevokeCall x \<in> set calls}"

lemma revocations_simps [simp]:
  "revocations [] = {}" "revocations (calls @ [ResolveCall n r c]) = revocations calls"
  "revocations (calls @ [RevokeCall x]) = insert (revoked_scope x) (revocations calls)"
  by (auto simp: revocations_def)

type_synonym env_policy = "broker_state secret_policy"

text \<open>The policy in front of the broker of the environment variables.\<close>

definition env_secret ::
  "runtime \<Rightarrow> (string \<Rightarrow> int option) \<Rightarrow> policy_entry list \<Rightarrow> (string \<Rightarrow> string option) \<Rightarrow> int \<Rightarrow> secret_ref \<Rightarrow> secret_context \<Rightarrow>
   env_policy \<Rightarrow> (policy_error + secret_reply) \<times> env_policy" where
  "env_secret rt date policy vars = policy_resolve rt date policy (env_resolve rt vars)"

fun secret_call_step ::
  "runtime \<Rightarrow> (string \<Rightarrow> int option) \<Rightarrow> policy_entry list \<Rightarrow> (string \<Rightarrow> string option) \<Rightarrow> secret_call \<Rightarrow> env_policy \<Rightarrow> env_policy" where
  "secret_call_step rt date policy vars (ResolveCall now r c) s = snd (env_secret rt date policy vars now r c s)"
| "secret_call_step rt date policy vars (RevokeCall x) s = policy_revoke broker_revoke x s"

definition secret_calls ::
  "runtime \<Rightarrow> (string \<Rightarrow> int option) \<Rightarrow> policy_entry list \<Rightarrow> (string \<Rightarrow> string option) \<Rightarrow> secret_call list \<Rightarrow> env_policy" where
  "secret_calls rt date policy vars calls =
     fold (secret_call_step rt date policy vars) calls \<lparr> sp_audit = [], sp_revoked = [], sp_broker = new_broker \<rparr>"

lemma resolve_keeps_revoked: "sp_revoked (snd (policy_resolve rt date policy ask now r c s)) = sp_revoked s"
proof -
  obtain a b where ask: "ask now r c (sp_broker s) = (a, b)" by (cases "ask now r c (sp_broker s)")
  show ?thesis by (cases a) (simp_all add: policy_resolve_def auditWithoutValue_def audit_entry_def ask split: option.split)
qed

lemma calls_revoked:
  "set (sp_revoked (secret_calls rt date policy vars calls)) = revocations calls
   \<and> set (bs_revoked (sp_broker (secret_calls rt date policy vars calls))) = revocations calls"
proof (induction calls rule: rev_induct)
  case Nil
  then show ?case by (simp add: secret_calls_def new_broker_def)
next
  case (snoc call calls)
  then show ?case
    using env_broker.resolve_keeps_shut env_broker.revoke_shuts
    by (cases call) (simp_all add: secret_calls_def env_secret_def resolve_keeps_revoked policy_revoke_def broker_revoke_def)
qed

text \<open>
  C21. With the policy of the code in front of the environment variables, after any calls, a secret is given out exactly
  for a reference to a variable that is set and not empty, asked for from the sandbox or with the flag that forces the
  plain text, and whose scope no call has revoked. Neither the actor nor a time limit has a say in it.
\<close>

theorem secret_given_iff:
  "fst (env_secret rt date DEFAULT_POLICY vars now r c (secret_calls rt date DEFAULT_POLICY vars calls)) = Inr (Plaintext v) \<longleftrightarrow>
   (\<exists>n scope. r = EnvRef n scope \<and> vars n = Some v \<and> v \<noteq> [] \<and> scope \<notin> revocations calls
      \<and> (sc_caller_env c = SandboxEnv \<or> sc_unsafeForcePlaintext c))"
proof -
  define s where "s = secret_calls rt date DEFAULT_POLICY vars calls"
  have shut: "set (sp_revoked s) = revocations calls" "set (bs_revoked (sp_broker s)) = revocations calls"
    unfolding s_def using calls_revoked by blast+
  have "sc_caller_env c = SandboxEnv \<or> sc_caller_env c = HostEnv" by (cases "sc_caller_env c") simp_all
  then show ?thesis
    unfolding s_def [symmetric]
    by (cases r) (auto simp: env_secret_def policy_resolve_def DEFAULT_POLICY_def expired_def scope_of_def actor_refused_def
        env_resolve_def Let_def shut split: option.splits if_splits)
qed

text \<open>
  Once a scope is revoked, no call gives out a secret or even a token for it, whatever calls come between and whatever
  the policy and its broker are. A reference that is not of the environment has the empty scope: revoking one of them
  revokes every reference to the vault and every ephemeral one.
\<close>

theorem revoked_stays_shut:
  assumes "revoked_scope x = scope_of r"
  shows "\<exists>e. fst (env_secret rt date policy vars now r c
      (secret_calls rt date policy vars (before @ RevokeCall x # later))) = Inl e"
proof -
  have "revocations (before @ RevokeCall x # later) \<supseteq> {scope_of r}" using assms by (force simp: revocations_def)
  then have "scope_of r \<in> set (sp_revoked (secret_calls rt date policy vars (before @ RevokeCall x # later)))"
    using calls_revoked by blast
  then show ?thesis
    by (auto simp: env_secret_def policy_resolve_def split: option.split)
qed

definition no_secrets_context :: secret_context where
  "no_secrets_context = \<lparr> sc_toolId = None, sc_leaseHash = None, sc_sessionId = None, sc_actorId = None,
     sc_caller_env = SandboxEnv, sc_unsafeForcePlaintext = False \<rparr>"

theorem revoked_stays_shut_witness:
  "\<exists>e. fst (env_secret \<lparr> sha256 = (\<lambda>t. t), number_text = (\<lambda>x. []), get_time = (\<lambda>t. 0) \<rparr> (\<lambda>t. Some 2) DEFAULT_POLICY
     (\<lambda>n. Some ''x'') 1 (EphemeralRef ''l'' ''e'') no_secrets_context
     (secret_calls \<lparr> sha256 = (\<lambda>t. t), number_text = (\<lambda>x. []), get_time = (\<lambda>t. 0) \<rparr> (\<lambda>t. Some 2) DEFAULT_POLICY
        (\<lambda>n. Some ''x'') ([] @ RevokeCall (RevokeRef (VaultRef ''v'')) # []))) = Inl e"
  by (rule revoked_stays_shut) (simp add: revoked_scope_def scope_of_def)

text \<open>The trail: every call appends one audit, except a call the broker itself refuses, which leaves none.\<close>

lemma resolve_audits:
  "\<exists>as. sp_audit (snd (policy_resolve rt date policy ask now r c s)) = sp_audit s @ as
     \<and> (case fst (policy_resolve rt date policy ask now r c s) of
          Inl (BrokerThrew e) \<Rightarrow> as = []
        | Inr (Plaintext v) \<Rightarrow> as = [\<lparr> sa_ref = r, sa_context = c, sa_at = now, sa_secret_hash = sha256 rt v \<rparr>]
        | _ \<Rightarrow> length as = 1)"
proof -
  obtain a b where ask: "ask now r c (sp_broker s) = (a, b)" by (cases "ask now r c (sp_broker s)")
  show ?thesis by (cases a) (simp_all add: policy_resolve_def auditWithoutValue_def audit_entry_def ask split: option.split)
qed

end
