(* ===== verification/Git_Guard.thy ===== *)
theory Git_Guard
  imports Text_Match Prelude
begin

text \<open>
  The git checks in front of a file edit (\<^verbatim>\<open>src/src/domain/governance/GitDiffGuard.ts\<close>): has the file changed
  behind the lock, and the rollback to the last commit. Git is reached through a shell, which is an argument of the model:
  it takes the text of a command and a directory, acts on a world and returns its output or throws a message. The lemmas
  give the exact condition of a collision and what the rollback reports.
\<close>

type_synonym 'w shell = "string \<Rightarrow> string \<Rightarrow> 'w \<Rightarrow> (string + string) \<times> 'w"    \<comment> \<open>\<^term>\<open>Inl\<close> throws\<close>

definition git_command :: "string list \<Rightarrow> string" where
  "git_command as = ''git '' @ join_with '' '' as"

definition execGit :: "'w shell \<Rightarrow> string \<Rightarrow> string list \<Rightarrow> 'w \<Rightarrow> (string + string) \<times> 'w" where
  "execGit sh cwd as w =
     (case sh (git_command as) cwd w of
        (Inr out, w') \<Rightarrow> (Inr out, w')
      | (Inl m, w') \<Rightarrow>
          if str_includes m ''not a git repository'' then (Inr [], w')
          else if str_includes m ''ambiguous argument'' then (Inr [], w')
          else (Inl m, w'))"

definition gitAuthor :: "'w shell \<Rightarrow> string \<Rightarrow> string \<Rightarrow> 'w \<Rightarrow> string \<times> 'w" where
  "gitAuthor sh filepath cwd w =
     (case execGit sh cwd [''log'', ''-1'', ''--format=%ae'', ''--'', filepath] w of
        (Inl m, w') \<Rightarrow> (''unknown'', w')
      | (Inr out, w') \<Rightarrow> (trim out, w'))"

record diff_result =
  dr_clean :: bool
  dr_modified :: bool
  dr_modified_by_current_agent :: bool
  dr_changed_files :: "string list"

definition clean_diff :: diff_result where
  "clean_diff = \<lparr> dr_clean = True, dr_modified = False, dr_modified_by_current_agent = False, dr_changed_files = [] \<rparr>"

definition changed_lines :: "string \<Rightarrow> string list" where
  "changed_lines out = (if out = [] then [] else filter (\<lambda>l. l \<noteq> []) (split_char (CHR 0x0A) out))"

definition checkGitDiff ::
  "'w shell \<Rightarrow> (string \<Rightarrow> 'w \<Rightarrow> bool) \<Rightarrow> string \<Rightarrow> string \<Rightarrow> 'w \<Rightarrow> (string + diff_result) \<times> 'w" where
  "checkGitDiff sh is_repo filepath cwd w =
     (if \<not> is_repo cwd w then (Inr clean_diff, w)
      else (case execGit sh cwd [''status'', ''--porcelain'', ''--'', filepath] w of
          (Inl m, w1) \<Rightarrow> (Inl m, w1)
        | (Inr status, w1) \<Rightarrow>
            (case execGit sh cwd [''diff'', ''--name-only'', filepath] w1 of
               (Inl m, w2) \<Rightarrow> (Inl m, w2)
             | (Inr diff, w2) \<Rightarrow>
                 if trim status = [] \<and> trim diff = [] then (Inr clean_diff, w2)
                 else (let changed = changed_lines (trim diff) in
                   (Inr \<lparr> dr_clean = False, dr_modified = True, dr_modified_by_current_agent = (filepath \<in> set changed),
                      dr_changed_files = changed \<rparr>, w2)))))"

datatype collision = NoCollision | CollisionBy string

definition detectCollision ::
  "'w shell \<Rightarrow> (string \<Rightarrow> 'w \<Rightarrow> bool) \<Rightarrow> string \<Rightarrow> string \<Rightarrow> string \<Rightarrow> 'w \<Rightarrow> (string + collision) \<times> 'w" where
  "detectCollision sh is_repo filepath cwd currentAgent w =
     (case checkGitDiff sh is_repo filepath cwd w of
        (Inl m, w1) \<Rightarrow> (Inl m, w1)
      | (Inr d, w1) \<Rightarrow>
          if dr_clean d \<or> dr_modified_by_current_agent d then (Inr NoCollision, w1)
          else (case gitAuthor sh filepath cwd w1 of
            (lastAuthor, w2) \<Rightarrow>
              (Inr (if lastAuthor \<noteq> currentAgent then CollisionBy lastAuthor else NoCollision), w2)))"

text \<open>Whether the rollback says that it has succeeded.\<close>

definition rollbackFile :: "'w shell \<Rightarrow> string \<Rightarrow> string \<Rightarrow> 'w \<Rightarrow> bool \<times> 'w" where
  "rollbackFile sh filepath cwd w =
     (case execGit sh cwd [''checkout'', ''HEAD'', ''--'', filepath] w of
        (Inl m, w') \<Rightarrow> (False, w')
      | (Inr out, w') \<Rightarrow> (True, w'))"

section \<open>What the checks find\<close>

text \<open>The rollback reports success also where git has refused because there is no repository.\<close>

lemma rollback_outside_repository:
  "sh (git_command [''checkout'', ''HEAD'', ''--'', filepath]) cwd w = (Inl m, w') \<Longrightarrow> str_includes m ''not a git repository'' \<Longrightarrow>
   rollbackFile sh filepath cwd w = (True, w')"
  by (simp add: rollbackFile_def execGit_def)

lemma rollback_world:
  "snd (rollbackFile sh filepath cwd w) = snd (sh (git_command [''checkout'', ''HEAD'', ''--'', filepath]) cwd w)"
  by (auto simp: rollbackFile_def execGit_def split: prod.split sum.split)

text \<open>
  A change that git names by the path asked for counts as one of the agent itself: a collision is reported only for a
  change that \<^verbatim>\<open>git diff\<close> does not name so, one that is staged, untracked or named by another path.
\<close>

lemma collision_needs_unnamed_change:
  assumes "fst (detectCollision sh is_repo filepath cwd who w) = Inr (CollisionBy a)"
  shows "\<exists>w1 out w2. execGit sh cwd [''diff'', ''--name-only'', filepath] w1 = (Inr out, w2)
    \<and> filepath \<notin> set (changed_lines (trim out)) \<and> a \<noteq> who"
proof -
  obtain d w3 where d: "checkGitDiff sh is_repo filepath cwd w = (Inr d, w3)" "\<not> dr_clean d" "\<not> dr_modified_by_current_agent d"
    using assms by (auto simp: detectCollision_def split: prod.splits sum.splits if_splits)
  have who: "a \<noteq> who"
    using assms d by (auto simp: detectCollision_def split: prod.splits if_splits)
  have repo: "is_repo cwd w" using d by (auto simp: checkGitDiff_def clean_diff_def split: if_splits)
  obtain status w1 where s: "execGit sh cwd [''status'', ''--porcelain'', ''--'', filepath] w = (Inr status, w1)"
    using d(1) repo by (auto simp: checkGitDiff_def split: prod.splits sum.splits)
  obtain out w2 where o: "execGit sh cwd [''diff'', ''--name-only'', filepath] w1 = (Inr out, w2)"
    using d(1) repo s by (auto simp: checkGitDiff_def split: prod.splits sum.splits)
  have "filepath \<notin> set (changed_lines (trim out))"
    using d repo s o by (auto simp: checkGitDiff_def clean_diff_def Let_def split: if_splits)
  then show ?thesis using o who by blast
qed

end
