(* ===== verification/Godel_Lock.thy ===== *)
theory Godel_Lock
  imports Text_Match Prelude
begin

text \<open>
  The locks of the constitutional code (\<^verbatim>\<open>src/src/interfaces/mcp/shell/godelLock.ts\<close>): a registry of locked
  paths and tools that can grow at runtime. The theorem: what is refused stays refused whatever is registered; whether a
  refusal can be overridden does not.
\<close>

section \<open>The registry\<close>

datatype lock_type = PathLock | ToolLock | DomainLock

datatype lock_severity = CONSTITUTIONAL | CORE | BOUNDED

record godel_entry =
  ge_target :: string
  ge_type :: lock_type
  ge_severity :: lock_severity
  ge_f13_override :: "string option"

type_synonym godel_registry = "(string, godel_entry) jsmap"

definition GODEL_LOCKED_PATHS :: "string list" where
  "GODEL_LOCKED_PATHS =
     [''/root/arifOS/static/arifos/theory/000/000_CONSTITUTION.md'',
      ''/root/A-FORGE/src/interfaces/mcp/shell/arifJudge.ts'',
      ''/root/A-FORGE/src/interfaces/mcp/shell/arifSeal.ts'',
      ''/root/A-FORGE/src/domain/governance/FloorEnforcer.ts'',
      ''/root/A-FORGE/src/domain/governance/mcpFloorEnforcer.ts'',
      ''/root/A-FORGE/src/domain/governance/actionClassifier.ts'',
      ''/root/A-FORGE/data/agent_identities.json'',
      ''/root/A-FORGE/src/interfaces/mcp/shell/godelLock.ts'',
      ''/root/A-FORGE/src/interfaces/mcp/shell/antiSink.ts'',
      ''/root/A-FORGE/deploy/caddy/Caddyfile'',
      ''/root/A-FORGE/deploy/systemd/'',
      ''/root/A-FORGE/docker-compose.yml'']"

definition GODEL_LOCKED_TOOLS :: "string list" where
  "GODEL_LOCKED_TOOLS = [''forge_filesystem'', ''forge_git'', ''forge_execute_sealed'']"

fun type_text :: "lock_type \<Rightarrow> string" where
  "type_text PathLock = ''path''"
| "type_text ToolLock = ''tool''"
| "type_text DomainLock = ''domain''"

definition lock_key :: "lock_type \<Rightarrow> string \<Rightarrow> string" where
  "lock_key t target = type_text t @ '':'' @ target"

definition built_in :: "lock_type \<Rightarrow> lock_severity \<Rightarrow> string \<Rightarrow> godel_entry" where
  "built_in t v target = \<lparr> ge_target = target, ge_type = t, ge_severity = v, ge_f13_override = None \<rparr>"

definition initial_locks :: godel_registry where
  "initial_locks =
     fold (\<lambda>t. m_set (lock_key ToolLock t) (built_in ToolLock CORE t)) GODEL_LOCKED_TOOLS
       (fold (\<lambda>p. m_set (lock_key PathLock p) (built_in PathLock CONSTITUTIONAL p)) GODEL_LOCKED_PATHS [])"

section \<open>Checks\<close>

text \<open>A refusal has its entry and tells whether it can be overridden.\<close>

datatype godel_verdict = GodelAllowed | GodelRefused godel_entry bool

definition is_refusal :: "godel_verdict \<Rightarrow> bool" where
  "is_refusal v \<longleftrightarrow> v \<noteq> GodelAllowed"

definition refusal_of :: "(string \<times> godel_entry) option \<Rightarrow> godel_verdict" where
  "refusal_of x = (case x of None \<Rightarrow> GodelAllowed | Some (k, e) \<Rightarrow> GodelRefused e (ge_severity e = BOUNDED))"

definition path_locked :: "string \<Rightarrow> string \<Rightarrow> bool" where
  "path_locked target key \<longleftrightarrow> starts_with key ''path:'' \<and> (target = drop 5 key \<or> starts_with target (drop 5 key))"

definition isGodelLocked :: "godel_registry \<Rightarrow> string \<Rightarrow> godel_verdict" where
  "isGodelLocked g target = refusal_of (find (\<lambda>(k, e). path_locked target k) g)"

definition isToolGodelLocked :: "godel_registry \<Rightarrow> string \<Rightarrow> godel_verdict" where
  "isToolGodelLocked g toolName = refusal_of (find (\<lambda>(k, e). starts_with k ''tool:'' \<and> drop 5 k = toolName) g)"

definition registerGodelLock :: "godel_entry \<Rightarrow> godel_registry \<Rightarrow> godel_verdict \<times> godel_registry" where
  "registerGodelLock e g =
     (if ge_severity e = CONSTITUTIONAL \<or> ge_severity e = CORE then (GodelRefused e False, g)
      else (GodelAllowed, m_set (lock_key (ge_type e) (ge_target e)) e g))"

definition listGodelLocks :: "godel_registry \<Rightarrow> godel_entry list" where
  "listGodelLocks g = m_values g"

datatype intent_type = WriteIntent | ExecuteIntent | GitCommitIntent | GitPushIntent | DeployIntent | PromoteIntent

record modification_intent =
  mi_type :: intent_type
  mi_target :: string
  mi_tool :: "string option"

definition checkModificationIntent :: "godel_registry \<Rightarrow> modification_intent \<Rightarrow> godel_verdict" where
  "checkModificationIntent g i =
     (let path = isGodelLocked g (mi_target i); tool = isToolGodelLocked g (the (mi_tool i)) in
      if mi_type i \<in> {WriteIntent, GitCommitIntent, GitPushIntent} \<and> is_refusal path then path
      else if \<not> falsy (mi_tool i) \<and> is_refusal tool then tool
      else if mi_type i \<in> {DeployIntent, PromoteIntent} \<and>
        list_ex (str_includes (mi_target i)) [''godelLock'', ''arifJudge'', ''arifSeal'']
      then GodelRefused (built_in DomainLock CONSTITUTIONAL (mi_target i)) False
      else GodelAllowed)"

section \<open>Locks stay\<close>

inductive register_step :: "godel_registry \<Rightarrow> godel_registry \<Rightarrow> bool" where
  registered: "register_step g (snd (registerGodelLock e g))"

lemma refusal_iff: "is_refusal (refusal_of (find P g)) \<longleftrightarrow> (\<exists>x \<in> set g. P x)"
  by (auto simp: refusal_of_def is_refusal_def find_None_iff find_Some_iff split: option.split prod.split)

lemma keys_stay: "register_step\<^sup>*\<^sup>* g g' \<Longrightarrow> fst ` set g \<subseteq> fst ` set g'"
proof (induction rule: rtranclp_induct)
  case (step g1 g2)
  obtain e where "g2 = snd (registerGodelLock e g1)" using step(2) by (rule register_step.cases) simp
  then have "fst ` set g1 \<subseteq> fst ` set g2"
    by (cases "ge_severity e") (simp_all add: registerGodelLock_def dom_update subset_insertI)
  then show ?case using step by blast
qed simp

lemma path_refusal: "is_refusal (isGodelLocked g target) \<longleftrightarrow> (\<exists>k \<in> fst ` set g. path_locked target k)"
  unfolding isGodelLocked_def refusal_iff by force

lemma tool_refusal: "is_refusal (isToolGodelLocked g t) \<longleftrightarrow> (\<exists>k \<in> fst ` set g. starts_with k ''tool:'' \<and> drop 5 k = t)"
  unfolding isToolGodelLocked_def refusal_iff by force

lemma check_refusal:
  "is_refusal (checkModificationIntent g i) \<longleftrightarrow>
     (mi_type i \<in> {WriteIntent, GitCommitIntent, GitPushIntent} \<and> is_refusal (isGodelLocked g (mi_target i)))
   \<or> (\<not> falsy (mi_tool i) \<and> is_refusal (isToolGodelLocked g (the (mi_tool i))))
   \<or> (mi_type i \<in> {DeployIntent, PromoteIntent} \<and>
        list_ex (str_includes (mi_target i)) [''godelLock'', ''arifJudge'', ''arifSeal''])"
  by (auto simp: checkModificationIntent_def Let_def is_refusal_def)

text \<open>
  A modification that the locks refuse stays refused whatever is registered afterwards: no registration opens a path
  or a tool.
\<close>

theorem locked_stays_locked:
  assumes "register_step\<^sup>*\<^sup>* g g'" "is_refusal (checkModificationIntent g i)"
  shows "is_refusal (checkModificationIntent g' i)"
  using keys_stay [OF assms(1)] assms(2) unfolding check_refusal path_refusal tool_refusal by blast

text \<open>Writing to the constitutional gate, after a bounded lock has been registered on it.\<close>

definition gate_path :: string where
  "gate_path = ''/root/A-FORGE/src/interfaces/mcp/shell/arifJudge.ts''"

definition write_gate :: modification_intent where
  "write_gate = \<lparr> mi_type = WriteIntent, mi_target = gate_path, mi_tool = None \<rparr>"

definition weakened :: godel_registry where
  "weakened = snd (registerGodelLock (built_in PathLock BOUNDED gate_path) initial_locks)"

lemma gate_locked: "is_refusal (checkModificationIntent initial_locks write_gate)"
  by code_simp

theorem locked_stays_locked_witness: "is_refusal (checkModificationIntent weakened write_gate)"
  by (rule locked_stays_locked [OF _ gate_locked]) (auto simp: weakened_def intro: register_step.intros)

text \<open>
  The registration of a bounded lock on a path that is locked replaces its entry: the refusal of a constitutional path,
  which nobody can override, becomes one that can be overridden.
\<close>

theorem constitutional_lock_weakened:
  "checkModificationIntent initial_locks write_gate = GodelRefused (built_in PathLock CONSTITUTIONAL gate_path) False
   \<and> checkModificationIntent weakened write_gate = GodelRefused (built_in PathLock BOUNDED gate_path) True"
  by code_simp

end
