(* ===== verification/Error_Class.thy ===== *)
theory Error_Class
  imports Text_Match Prelude
begin

text \<open>
  The structured errors of the tools (\<^verbatim>\<open>src/src/domain/governance/error-classifier.ts\<close>): one builder per class,
  the classification of an unknown error by its text, and the recovery a class allows. The time of an envelope and the
  rendering of its content are left out. The theorem: exactly which texts are held for the sovereign.
\<close>

section \<open>Envelopes\<close>

datatype error_class =
    BAD_INPUT_SHAPE | BAD_INPUT_VALUE | MISSING_REQUIRED_FIELD | DOWNSTREAM_FAILURE | DOWNSTREAM_PARSER_FAIL
  | RESOURCE_EXHAUSTED | INTERNAL_ERROR | AUTHORITY_BLOCK | FLOOR_BLOCK | TOOL_SURFACE_DRIFT

datatype error_severity = RECOVERABLE | ESCALATE | FATAL

datatype recoverability =
    AGENT_CAN_RETRY | AGENT_CAN_ROUTE | ESCALATE_TO_HUMAN | ESCALATE_TO_888_HOLD | FATAL_DO_NOT_RETRY | RETRY_SAME_LATER

datatype suspected_layer =
    InputValidation | ArgumentSemantic | RouterLayer | ToolExecution | AuthorityLayer | FloorLayer | ExternalDep
  | ParserLayer | SurfaceDrift | ResourceLayer | UnknownLayer

record error_envelope =
  ee_error_class :: error_class
  ee_recoverability :: recoverability
  ee_message :: string
  ee_suspected_layer :: suspected_layer
  ee_severity :: error_severity
  ee_missing_fields :: "string list option"
  ee_next_action :: string
  ee_original_error :: "string option"
  ee_source_tool :: "string option"
  ee_source_organ :: "string option"

text \<open>The options of the builders; each builder reads those it has. An empty hand is \<open>no_opts\<close>.\<close>

record error_opts =
  op_missing_fields :: "string list option"
  op_original_error :: "string option"
  op_source_tool :: "string option"
  op_source_organ :: "string option"
  op_can_retry :: "bool option"
  op_retry_after :: "string option"       \<comment> \<open>the text of a number of milliseconds that is not 0\<close>
  op_parser_name :: "string option"
  op_violated_floors :: "string list option"

definition no_opts :: error_opts where
  "no_opts = \<lparr> op_missing_fields = None, op_original_error = None, op_source_tool = None, op_source_organ = None,
     op_can_retry = None, op_retry_after = None, op_parser_name = None, op_violated_floors = None \<rparr>"

definition envelope ::
  "error_class \<Rightarrow> recoverability \<Rightarrow> suspected_layer \<Rightarrow> error_severity \<Rightarrow> string \<Rightarrow> string \<Rightarrow> error_opts \<Rightarrow> error_envelope" where
  "envelope c r l v next_action message opts =
     \<lparr> ee_error_class = c, ee_recoverability = r, ee_message = message, ee_suspected_layer = l, ee_severity = v,
       ee_missing_fields = None, ee_next_action = next_action, ee_original_error = None,
       ee_source_tool = op_source_tool opts, ee_source_organ = op_source_organ opts \<rparr>"

definition badInputShape :: "string \<Rightarrow> error_opts \<Rightarrow> error_envelope" where
  "badInputShape m opts =
     (envelope BAD_INPUT_SHAPE AGENT_CAN_RETRY InputValidation RECOVERABLE ''Fix input shape and retry'' m opts)
       \<lparr>ee_missing_fields := op_missing_fields opts\<rparr>"

definition badInputValue :: "string \<Rightarrow> error_opts \<Rightarrow> error_envelope" where
  "badInputValue m opts =
     envelope BAD_INPUT_VALUE AGENT_CAN_RETRY ArgumentSemantic RECOVERABLE ''Fix input values and retry'' m opts"

definition may_retry :: "error_opts \<Rightarrow> bool" where
  "may_retry opts \<longleftrightarrow> op_can_retry opts \<noteq> Some False"

definition downstreamFailure :: "string \<Rightarrow> error_opts \<Rightarrow> error_envelope" where
  "downstreamFailure m opts =
     (envelope DOWNSTREAM_FAILURE (if may_retry opts then AGENT_CAN_ROUTE else ESCALATE_TO_HUMAN) ExternalDep
        (if may_retry opts then RECOVERABLE else ESCALATE)
        (if may_retry opts then ''Try different organ or retry later''
         else ''Escalate to human - downstream is persistently failing'') m opts)
       \<lparr>ee_original_error := op_original_error opts\<rparr>"

definition resourceExhausted :: "string \<Rightarrow> error_opts \<Rightarrow> error_envelope" where
  "resourceExhausted m opts =
     envelope RESOURCE_EXHAUSTED RETRY_SAME_LATER ResourceLayer RECOVERABLE
       (case op_retry_after opts of
          Some ms \<Rightarrow> ''Wait '' @ ms @ ''ms then retry''
        | None \<Rightarrow> ''Back off and retry with exponential delay'') m opts"

definition internalError :: "string \<Rightarrow> error_opts \<Rightarrow> error_envelope" where
  "internalError m opts =
     (envelope INTERNAL_ERROR ESCALATE_TO_888_HOLD ToolExecution FATAL ''Log to VAULT999 and escalate - server bug'' m opts)
       \<lparr>ee_original_error := op_original_error opts\<rparr>"

definition missingRequiredField :: "string \<Rightarrow> string list \<Rightarrow> error_opts \<Rightarrow> error_envelope" where
  "missingRequiredField m names opts =
     (envelope MISSING_REQUIRED_FIELD AGENT_CAN_RETRY InputValidation RECOVERABLE
        (''Provide missing fields: '' @ join_with '', '' names) m opts)\<lparr>ee_missing_fields := Some names\<rparr>"

definition downstreamParserFail :: "string \<Rightarrow> error_opts \<Rightarrow> error_envelope" where
  "downstreamParserFail m opts =
     (envelope DOWNSTREAM_PARSER_FAIL (if may_retry opts then AGENT_CAN_RETRY else ESCALATE_TO_HUMAN) ParserLayer
        (if may_retry opts then RECOVERABLE else ESCALATE)
        (if may_retry opts
         then ''Check file format ('' @ (case op_parser_name opts of None \<Rightarrow> ''unknown'' | Some p \<Rightarrow> p) @ '' parser) and retry''
         else ''File may be corrupted - escalate to human'') m opts)\<lparr>ee_original_error := op_original_error opts\<rparr>"

definition authorityBlock :: "string \<Rightarrow> error_opts \<Rightarrow> error_envelope" where
  "authorityBlock m opts =
     envelope AUTHORITY_BLOCK ESCALATE_TO_888_HOLD AuthorityLayer ESCALATE
       ''Request lease with correct action class, or escalate to 888_HOLD'' m opts"

definition floorBlock :: "string \<Rightarrow> error_opts \<Rightarrow> error_envelope" where
  "floorBlock m opts =
     envelope FLOOR_BLOCK ESCALATE_TO_888_HOLD FloorLayer FATAL
       (''Constitutional floor violation'' @
        (case op_violated_floors opts of
           Some (f # fs) \<Rightarrow> '' ('' @ join_with '', '' (f # fs) @ '')''
         | _ \<Rightarrow> []) @ '' - escalate to arifOS judge'') m opts"

definition toolSurfaceDrift :: "string \<Rightarrow> error_opts \<Rightarrow> error_envelope" where
  "toolSurfaceDrift m opts =
     envelope TOOL_SURFACE_DRIFT ESCALATE_TO_888_HOLD SurfaceDrift FATAL
       ''MCP tool surface changed - pin new snapshot or investigate drift cause'' m opts"

section \<open>Unknown errors\<close>

definition SHAPE_TEXT :: rx where
  "SHAPE_TEXT = rx_words [''missing'', ''required'', ''cannot be null'', ''undefined'']"

definition VALUE_TEXT :: rx where
  "VALUE_TEXT = rx_words [''invalid'', ''out of range'', ''must be'', ''expected'']"

definition RESOURCE_TEXT :: rx where
  "RESOURCE_TEXT = rx_alt [rx_text ''timeout'', rx_text ''etimedout'', rx_text ''econnrefused'',
     rx_seq [rx_text ''rate'', rx_opt RDot, rx_text ''limit''], rx_text ''429'']"

definition NETWORK_TEXT :: rx where
  "NETWORK_TEXT = rx_words [''econnreset'', ''503'', ''502'', ''fetch failed'', ''network'']"

definition PARSER_TEXT :: rx where
  "PARSER_TEXT = rx_words [''parse'', ''parser'', ''las'', ''seg-y'', ''segy'', ''csv'', ''corrupt'', ''malform'']"

definition AUTHORITY_TEXT :: rx where
  "AUTHORITY_TEXT = rx_words [''lease'', ''authority'', ''forbidden'', ''unauthorized'', ''permission'']"

definition FLOOR_TEXT :: rx where
  "FLOOR_TEXT = rx_alt [rx_text ''floor'', rx_seq [rx_text ''f'', rx_plus (RSet ''0123456789'')], rx_text ''constitution'',
     rx_text ''amanah'', rx_text ''truth'', rx_text ''sovereign'']"

definition DRIFT_TEXT :: rx where
  "DRIFT_TEXT = rx_alt [rx_text ''drift'', rx_seq [rx_text ''schema'', rx_opt RDot, rx_text ''change''],
     rx_seq [rx_text ''surface'', rx_opt RDot, rx_text ''drift''], rx_seq [rx_text ''tool'', rx_opt RDot, rx_text ''removed'']]"

text \<open>An error is its message, or the text of another value, and the stack of an error.\<close>

definition classifyUnknown :: "string \<Rightarrow> string option \<Rightarrow> string option \<Rightarrow> string option \<Rightarrow> error_envelope" where
  "classifyUnknown msg stack tool organ =
     (let opts = no_opts\<lparr>op_source_tool := tool, op_source_organ := organ\<rparr>; traced = opts\<lparr>op_original_error := stack\<rparr> in
      if rx_test_i SHAPE_TEXT msg then badInputShape msg opts
      else if rx_test_i VALUE_TEXT msg then badInputValue msg opts
      else if rx_test_i RESOURCE_TEXT msg then resourceExhausted msg opts
      else if rx_test_i NETWORK_TEXT msg then downstreamFailure msg traced
      else if rx_test_i PARSER_TEXT msg then downstreamParserFail msg traced
      else if rx_test_i AUTHORITY_TEXT msg then authorityBlock msg opts
      else if rx_test_i FLOOR_TEXT msg then floorBlock msg opts
      else if rx_test_i DRIFT_TEXT msg then toolSurfaceDrift msg opts
      else internalError msg traced)"

record recovery =
  ry_can_retry :: bool
  ry_can_route :: bool
  ry_escalate :: bool
  ry_hold :: bool

definition getRecoveryStrategy :: "recoverability option \<Rightarrow> recovery" where
  "getRecoveryStrategy rc =
     \<lparr> ry_can_retry = (rc = Some AGENT_CAN_RETRY \<or> rc = Some RETRY_SAME_LATER), ry_can_route = (rc = Some AGENT_CAN_ROUTE),
       ry_escalate = (rc = Some ESCALATE_TO_HUMAN \<or> rc = Some ESCALATE_TO_888_HOLD), ry_hold = (rc = Some ESCALATE_TO_888_HOLD) \<rparr>"

section \<open>Which errors are held\<close>

lemmas builders = badInputShape_def badInputValue_def downstreamFailure_def resourceExhausted_def internalError_def
  missingRequiredField_def downstreamParserFail_def authorityBlock_def floorBlock_def toolSurfaceDrift_def envelope_def

definition reads_as_passing :: "string \<Rightarrow> bool" where
  "reads_as_passing msg \<longleftrightarrow> list_ex (\<lambda>r. rx_test_i r msg) [SHAPE_TEXT, VALUE_TEXT, RESOURCE_TEXT, NETWORK_TEXT, PARSER_TEXT]"

text \<open>
  An unknown error is held for the sovereign exactly when its text reads like none of the five passing families, and no
  error gets any other treatment than retry, reroute or hold. A refusal that also says what it requires, expects or
  forbids as invalid is therefore retried, and so is any text with the letters "las" in it.
\<close>

theorem unknown_held_iff:
  "ry_hold (getRecoveryStrategy (Some (ee_recoverability (classifyUnknown msg stack tool organ)))) \<longleftrightarrow> \<not> reads_as_passing msg"
  by (simp add: classifyUnknown_def Let_def builders may_retry_def no_opts_def getRecoveryStrategy_def reads_as_passing_def)

theorem refusals_read_as_bad_input:
  "ee_error_class (classifyUnknown ''Forbidden: a lease is required'' None None None) = BAD_INPUT_SHAPE
   \<and> ee_error_class (classifyUnknown ''class not found'' None None None) = DOWNSTREAM_PARSER_FAIL"
proof -
  have "rx_test_i SHAPE_TEXT ''Forbidden: a lease is required''" by code_simp
  moreover have "\<not> rx_test_i SHAPE_TEXT ''class not found''" "\<not> rx_test_i VALUE_TEXT ''class not found''"
    "\<not> rx_test_i RESOURCE_TEXT ''class not found''" "\<not> rx_test_i NETWORK_TEXT ''class not found''"
    "rx_test_i PARSER_TEXT ''class not found''"
    by code_simp+
  ultimately show ?thesis by (simp add: classifyUnknown_def Let_def builders)
qed

end
