(* ===== verification/Fault_Fix.thy ===== *)
theory Fault_Fix
  imports Git_Guard Godel_Lock Error_Class Canonical_Json Double_Arith
begin

text \<open>
  The cycle from a fault to its fix (\<^verbatim>\<open>src/src/domain/governance/faultFixFlow.ts\<close>): an error and what was being
  done are classified, a strategy is chosen and carried out. Two shells act on the world, the one of the git commands and
  the one of the executor. The theorems: what a cycle does to the world, which faults its classification confuses, and
  what it reports.
\<close>

section \<open>Faults\<close>

datatype fault_source =
    ToolErrorFault | WmGapFault | CollisionFault | GodelLockFault | JudgeDenyFault | TimeoutFault | ResourceFault | UnknownFault

text \<open>What is read of an envelope; a field that is missing is \<^term>\<open>None\<close>.\<close>

record fault_envelope =
  fe_recoverability :: "recoverability option"
  fe_message :: "string option"
  fe_next_action :: "string option"

text \<open>The fields of a thrown object that are read, and the object itself as an envelope.\<close>

record thrown_fields =
  tf_error_class :: "string option"
  tf_has_collision :: bool
  tf_judge_decision :: "string option"
  tf_gate :: "string option"
  tf_structuredContent :: "fault_envelope option"
  tf_self :: fault_envelope

text \<open>An error has its message, any other object and any other value its text.\<close>

datatype thrown = ThrownError string thrown_fields | ThrownObject string thrown_fields | ThrownValue string

record fault_context =
  fx_attempted_tool :: string
  fx_intent :: string
  fx_target_path :: "string option"
  fx_gap_score :: "rat option"
  fx_confidence :: "rat option"

record fault_report =
  ft_fault_id :: string
  ft_source :: fault_source
  ft_error :: "fault_envelope option"
  ft_gap_score :: "rat option"
  ft_attempted_tool :: string
  ft_intent :: string

datatype gap_severity = GapInfo | GapWarn | GapCritical

definition HIGH_CONFIDENCE_THRESHOLD :: rat where "HIGH_CONFIDENCE_THRESHOLD = dbl (8 / 10)"
definition HIGH_GAP_THRESHOLD :: rat where "HIGH_GAP_THRESHOLD = dbl (4 / 10)"

definition checkGapAlert :: "rat \<Rightarrow> rat \<Rightarrow> gap_severity" where
  "checkGapAlert gapScore confidence =
     (if confidence > HIGH_CONFIDENCE_THRESHOLD \<and> gapScore > dbl (7 / 10) then GapCritical
      else if confidence > HIGH_CONFIDENCE_THRESHOLD \<and> gapScore > HIGH_GAP_THRESHOLD then GapWarn
      else GapInfo)"

definition gap_alarmed :: "fault_context \<Rightarrow> bool" where
  "gap_alarmed x =
     (case (fx_gap_score x, fx_confidence x) of
        (Some gap, Some c) \<Rightarrow> checkGapAlert gap c \<in> {GapCritical, GapWarn}
      | _ \<Rightarrow> False)"

text \<open>
  The object that \<^verbatim>\<open>isGodelLocked\<close> returns is truthy whatever it says, so that the condition on the path is
  that there is one.
\<close>

definition object_source :: "fault_context \<Rightarrow> thrown_fields \<Rightarrow> (fault_source \<times> fault_envelope option) option" where
  "object_source x f =
     (if tf_error_class f = Some ''COLLISION'' \<or> tf_has_collision f then Some (CollisionFault, None)
      else if tf_error_class f \<in> {Some ''FLOOR_BLOCK'', Some ''AUTHORITY_BLOCK''} \<and> \<not> falsy (fx_target_path x)
      then Some (GodelLockFault, None)
      else if tf_judge_decision f = Some ''deny'' \<or> tf_gate f = Some ''ArifJudge'' then Some (JudgeDenyFault, None)
      else if tf_error_class f = Some ''RESOURCE_EXHAUSTED'' then Some (TimeoutFault, None)
      else if \<not> falsy (tf_error_class f) \<or> tf_structuredContent f \<noteq> None
      then Some (ToolErrorFault, Some (case tf_structuredContent f of Some e \<Rightarrow> e | None \<Rightarrow> tf_self f))
      else None)"

definition locked_word :: string where
  "locked_word = ''g'' @ [CHR 0xF6] @ ''del''"

definition text_source :: "string \<Rightarrow> fault_source" where
  "text_source msg =
     (if str_includes msg ''timeout'' \<or> str_includes msg ''etimedout'' then TimeoutFault
      else if str_includes msg ''collision'' \<or> str_includes msg ''modified by'' then CollisionFault
      else if str_includes msg locked_word \<or> str_includes msg ''locked path'' then GodelLockFault
      else if str_includes msg ''deny'' \<or> str_includes msg ''blocked'' then JudgeDenyFault
      else if str_includes msg ''oom'' \<or> str_includes msg ''memory'' \<or> str_includes msg ''disk full'' then ResourceFault
      else UnknownFault)"

text \<open>Only the text of a value that is no error is put in lower case.\<close>

definition thrown_text :: "thrown \<Rightarrow> string" where
  "thrown_text e = (case e of ThrownError m f \<Rightarrow> m | ThrownObject t f \<Rightarrow> to_lower t | ThrownValue t \<Rightarrow> to_lower t)"

definition thrown_source :: "fault_context \<Rightarrow> thrown \<Rightarrow> fault_source \<times> fault_envelope option" where
  "thrown_source x e =
     (let by_fields = (case e of ThrownError m f \<Rightarrow> object_source x f | ThrownObject t f \<Rightarrow> object_source x f | ThrownValue t \<Rightarrow> None) in
      case by_fields of Some r \<Rightarrow> r | None \<Rightarrow> (text_source (thrown_text e), None))"

text \<open>\<open>now36\<close> and \<open>now\<close> are the texts of the time in base 36 and 10.\<close>

definition classifyFault :: "runtime \<Rightarrow> string \<times> string \<Rightarrow> thrown \<Rightarrow> fault_context \<Rightarrow> fault_report" where
  "classifyFault rt clock e x =
     (case clock of (now36, now) \<Rightarrow>
       let (source, env) = (if gap_alarmed x then (WmGapFault, None) else thrown_source x e) in
       \<lparr> ft_fault_id = ''FF-'' @ now36 @ ''-'' @ take 8 (sha256 rt (fx_attempted_tool x @ '':'' @ fx_intent x @ '':'' @ now)),
         ft_source = source, ft_error = env, ft_gap_score = (if source = WmGapFault then fx_gap_score x else None),
         ft_attempted_tool = fx_attempted_tool x, ft_intent = fx_intent x \<rparr>)"

section \<open>Strategies\<close>

datatype fix_strategy =
    RETRY_SAME | RETRY_DIFFERENT | ROUTE_OTHER | ROLLBACK_FILE | RESTART_SERVICE | ESCALATE_HUMAN | HOLD_888 | NOOP_WATCH | ABORT

record fix_action =
  fa_strategy :: fix_strategy
  fa_action :: string
  fa_reversible :: bool
  fa_needs_hold :: bool
  fa_estimated_ms :: int

definition fix_by :: "fix_strategy \<Rightarrow> string \<Rightarrow> bool \<Rightarrow> bool \<Rightarrow> int \<Rightarrow> fix_action" where
  "fix_by s a r h ms = \<lparr> fa_strategy = s, fa_action = a, fa_reversible = r, fa_needs_hold = h, fa_estimated_ms = ms \<rparr>"

definition or_text :: "string option \<Rightarrow> string \<Rightarrow> string" where
  "or_text x d = (if falsy x then d else the x)"

definition tool_error_fix :: "fault_envelope \<Rightarrow> fix_action" where
  "tool_error_fix e =
     (let r = getRecoveryStrategy (fe_recoverability e) in
      if ry_can_retry r then fix_by RETRY_SAME (or_text (fe_next_action e) ''Retry with same params'') True False 100
      else if ry_can_route r then fix_by ROUTE_OTHER (or_text (fe_next_action e) ''Try different organ'') True False 500
      else if ry_hold r then fix_by HOLD_888 ''Escalate to 888_HOLD for sovereign decision'' True True 86400000
      else fix_by ESCALATE_HUMAN (or_text (fe_next_action e) ''Escalate to human operator'') True False 3600000)"

definition selectFixStrategy :: "fault_report \<Rightarrow> fix_action" where
  "selectFixStrategy f =
     (case ft_source f of
        TimeoutFault \<Rightarrow> fix_by RETRY_SAME ''Retry same operation with 2x timeout'' True False 100
      | ResourceFault \<Rightarrow> fix_by RETRY_SAME ''Wait 5s then retry same operation'' True False 5000
      | ToolErrorFault \<Rightarrow>
          (case ft_error f of
             None \<Rightarrow> fix_by RETRY_DIFFERENT ''Fix input and retry'' True False 100
           | Some e \<Rightarrow> tool_error_fix e)
      | CollisionFault \<Rightarrow> fix_by ROLLBACK_FILE ''git checkout HEAD -- <filepath>'' False False 500
      | GodelLockFault \<Rightarrow> fix_by HOLD_888 ''Escalate to 888_HOLD - cannot self-modify constitution'' True True 86400000
      | JudgeDenyFault \<Rightarrow> fix_by ABORT ''Abort operation - command violates constitutional gate'' True False 0
      | WmGapFault \<Rightarrow> fix_by NOOP_WATCH ''Log gap for WM training - no immediate action needed'' True False 0
      | UnknownFault \<Rightarrow> fix_by ESCALATE_HUMAN ''Escalate to human operator'' True False 3600000)"

section \<open>The fix\<close>

datatype fix_verdict = FIXED | PARTIAL | FAILED_FIX | ESCALATED | HELD_FIX

fun strategy_text :: "fix_strategy \<Rightarrow> string" where
  "strategy_text RETRY_SAME = ''RETRY_SAME''"
| "strategy_text RETRY_DIFFERENT = ''RETRY_DIFFERENT''"
| "strategy_text ROUTE_OTHER = ''ROUTE_OTHER''"
| "strategy_text ROLLBACK_FILE = ''ROLLBACK_FILE''"
| "strategy_text RESTART_SERVICE = ''RESTART_SERVICE''"
| "strategy_text ESCALATE_HUMAN = ''ESCALATE_HUMAN''"
| "strategy_text HOLD_888 = ''HOLD_888''"
| "strategy_text NOOP_WATCH = ''NOOP_WATCH''"
| "strategy_text ABORT = ''ABORT''"

fun verdict_name :: "fix_verdict \<Rightarrow> string" where
  "verdict_name FIXED = ''FIXED''"
| "verdict_name PARTIAL = ''PARTIAL''"
| "verdict_name FAILED_FIX = ''FAILED''"
| "verdict_name ESCALATED = ''ESCALATED''"
| "verdict_name HELD_FIX = ''HELD''"

text \<open>The executor: the shell of git, its own shell with the code a command exits with, and its directory.\<close>

record 'w executor =
  xc_git :: "'w shell"
  xc_shell :: "string \<Rightarrow> string \<Rightarrow> 'w \<Rightarrow> (string + int option) \<times> 'w"
  xc_cwd :: string

record fix_result =
  fr_fault_id :: string
  fr_strategy :: fix_strategy
  fr_action_taken :: string
  fr_verdict :: fix_verdict
  fr_next_step :: string
  fr_receipt_hash :: string

definition FILE_TEXT :: rx where
  "FILE_TEXT = rx_seq [rx_plus (RSet (''./-'' @ word_chars)), rx_text ''.'', rx_plus (RSet word_chars)]"

definition rollback_path :: "fault_report \<Rightarrow> string" where
  "rollback_path f =
     (let named = (case ft_error f of
          None \<Rightarrow> None
        | Some e \<Rightarrow> (case fe_message e of None \<Rightarrow> None | Some m \<Rightarrow> first_match FILE_TEXT None m)) in
      or_text named (ft_intent f))"

definition service_name :: "fault_report \<Rightarrow> string" where
  "service_name f = hd (split_char (CHR ''_'') (replace_text ''forge_'' [] (ft_attempted_tool f)))"

definition perform_fix :: "'w executor \<Rightarrow> fault_report \<Rightarrow> fix_strategy \<Rightarrow> 'w \<Rightarrow> fix_verdict \<times> 'w" where
  "perform_fix x f s w =
     (case s of
        RETRY_SAME \<Rightarrow> (PARTIAL, w)
      | RETRY_DIFFERENT \<Rightarrow> (PARTIAL, w)
      | ROUTE_OTHER \<Rightarrow> (ESCALATED, w)
      | ROLLBACK_FILE \<Rightarrow>
          if rollback_path f = [] then (FAILED_FIX, w)
          else (case rollbackFile (xc_git x) (rollback_path f) (xc_cwd x) w of
            (ok, w') \<Rightarrow> (if ok then FIXED else FAILED_FIX, w'))
      | RESTART_SERVICE \<Rightarrow>
          if length (service_name f) > 1
          then (case xc_shell x (''systemctl restart '' @ service_name f) (xc_cwd x) w of
              (Inl m, w') \<Rightarrow> (FAILED_FIX, w')
            | (Inr code, w') \<Rightarrow> (if code = Some 0 then FIXED else FAILED_FIX, w'))
          else (FAILED_FIX, w)
      | HOLD_888 \<Rightarrow> (HELD_FIX, w)
      | ESCALATE_HUMAN \<Rightarrow> (ESCALATED, w)
      | NOOP_WATCH \<Rightarrow> (FIXED, w)
      | ABORT \<Rightarrow> (FAILED_FIX, w))"

definition deriveNextStep :: "fix_verdict \<Rightarrow> fix_action \<Rightarrow> string" where
  "deriveNextStep v a =
     (case v of
        FIXED \<Rightarrow> ''Continue operation from recovery point''
      | PARTIAL \<Rightarrow> ''Retry original operation with corrected parameters''
      | FAILED_FIX \<Rightarrow>
          if fa_strategy a = ROLLBACK_FILE then ''Manual intervention needed - file state may be inconsistent''
          else if fa_strategy a = RESTART_SERVICE then ''Check journalctl for service crash details''
          else ''Escalate to higher authority''
      | ESCALATED \<Rightarrow> ''Await human response''
      | HELD_FIX \<Rightarrow> ''Await 888_HOLD resolution from sovereign'')"

definition executeFix :: "runtime \<Rightarrow> string \<Rightarrow> 'w executor \<Rightarrow> fault_report \<Rightarrow> fix_action \<Rightarrow> 'w \<Rightarrow> fix_result \<times> 'w" where
  "executeFix rt started x f a w =
     (case perform_fix x f (fa_strategy a) w of
        (v, w') \<Rightarrow>
          (\<lparr> fr_fault_id = ft_fault_id f, fr_strategy = fa_strategy a, fr_action_taken = fa_action a, fr_verdict = v,
             fr_next_step = deriveNextStep v a,
             fr_receipt_hash = sha256 rt (ft_fault_id f @ '':'' @ strategy_text (fa_strategy a) @ '':'' @ verdict_name v @ '':'' @ started) \<rparr>,
           w'))"

section \<open>The cycle\<close>

text \<open>What is told to arifFLOW: whether the risk is consequential and whether the verdict is SEAL.\<close>

record flow_notice =
  fn_consequential :: bool
  fn_confidence :: rat
  fn_seal :: bool

record fault_cycle =
  fc_fault :: fault_report
  fc_fix :: fix_action
  fc_result :: fix_result
  fc_seal_hash :: string
  fc_notice :: flow_notice

definition runFaultFixCycle ::
  "runtime \<Rightarrow> string \<times> string \<Rightarrow> string \<Rightarrow> 'w executor \<Rightarrow> thrown \<Rightarrow> fault_context \<Rightarrow> 'w \<Rightarrow> fault_cycle \<times> 'w" where
  "runFaultFixCycle rt clock started x e ctx w =
     (let f = classifyFault rt clock e ctx; a = selectFixStrategy f in
      case executeFix rt started x f a w of
        (r, w') \<Rightarrow>
          (\<lparr> fc_fault = f, fc_fix = a, fc_result = r,
             fc_seal_hash = sha256 rt (ft_fault_id f @ '':'' @ strategy_text (fa_strategy a) @ '':'' @ verdict_name (fr_verdict r) @ '':'' @ fr_receipt_hash r),
             fc_notice = \<lparr> fn_consequential = fa_needs_hold a,
               fn_confidence = (case fx_confidence ctx of None \<Rightarrow> dbl (8 / 10) | Some c \<Rightarrow> c),
               fn_seal = (fr_verdict r = FIXED) \<rparr> \<rparr>, w'))"

definition isAutoRecoverable :: "fault_report \<Rightarrow> bool" where
  "isAutoRecoverable f \<longleftrightarrow>
     fa_strategy (selectFixStrategy f) \<in> set [RETRY_SAME, RETRY_DIFFERENT, ROUTE_OTHER, ROLLBACK_FILE, NOOP_WATCH]"

definition needsHumanAttention :: "fault_report \<Rightarrow> bool" where
  "needsHumanAttention f \<longleftrightarrow>
     (let a = selectFixStrategy f in fa_strategy a = ESCALATE_HUMAN \<or> fa_strategy a = HOLD_888 \<or> fa_needs_hold a)"

datatype fault_radius = NoBlast | LocalBlast | OrganBlast | FederationBlast | IrreversibleBlast

fun faultBlastRadius :: "fault_source \<Rightarrow> fault_radius" where
  "faultBlastRadius WmGapFault = NoBlast"
| "faultBlastRadius TimeoutFault = LocalBlast"
| "faultBlastRadius ResourceFault = OrganBlast"
| "faultBlastRadius ToolErrorFault = LocalBlast"
| "faultBlastRadius CollisionFault = LocalBlast"
| "faultBlastRadius JudgeDenyFault = FederationBlast"
| "faultBlastRadius GodelLockFault = IrreversibleBlast"
| "faultBlastRadius UnknownFault = OrganBlast"

section \<open>What a cycle does\<close>

lemma classified_error: "ft_error (classifyFault rt clock e x) \<noteq> None \<Longrightarrow> ft_source (classifyFault rt clock e x) = ToolErrorFault"
  by (auto simp: classifyFault_def thrown_source_def object_source_def Let_def split: prod.splits option.splits if_splits thrown.splits)

lemma strategy_by_source:
  "fa_strategy (selectFixStrategy f) = ROLLBACK_FILE \<longleftrightarrow> ft_source f = CollisionFault"
  "fa_strategy (selectFixStrategy f) \<noteq> RESTART_SERVICE"
  by (auto simp: selectFixStrategy_def tool_error_fix_def fix_by_def Let_def split: fault_source.splits option.splits)

lemma perform_quiet: "s \<noteq> ROLLBACK_FILE \<Longrightarrow> s \<noteq> RESTART_SERVICE \<Longrightarrow> snd (perform_fix x f s w) = w"
  by (cases s) (simp_all add: perform_fix_def)

lemma cycle_fields:
  "fc_fault (fst (runFaultFixCycle rt clock started x e ctx w)) = classifyFault rt clock e ctx"
  "fc_fix (fst (runFaultFixCycle rt clock started x e ctx w)) = selectFixStrategy (classifyFault rt clock e ctx)"
  "fr_verdict (fc_result (fst (runFaultFixCycle rt clock started x e ctx w)))
     = fst (perform_fix x (classifyFault rt clock e ctx) (fa_strategy (selectFixStrategy (classifyFault rt clock e ctx))) w)"
  "snd (runFaultFixCycle rt clock started x e ctx w)
     = snd (perform_fix x (classifyFault rt clock e ctx) (fa_strategy (selectFixStrategy (classifyFault rt clock e ctx))) w)"
  by (simp_all add: runFaultFixCycle_def executeFix_def Let_def split_beta)

lemma collision_fix:
  "ft_source f = CollisionFault \<Longrightarrow> \<not> fa_reversible (selectFixStrategy f) \<and> \<not> fa_needs_hold (selectFixStrategy f)"
  by (simp add: selectFixStrategy_def fix_by_def)

lemma cycle_world:
  "snd (runFaultFixCycle rt clock started x e ctx w) =
     (if ft_source (classifyFault rt clock e ctx) = CollisionFault \<and> fx_intent ctx \<noteq> []
      then snd (xc_git x (''git checkout HEAD -- '' @ fx_intent ctx) (xc_cwd x) w) else w)"
proof (cases "ft_source (classifyFault rt clock e ctx) = CollisionFault")
  case True
  define f where "f = classifyFault rt clock e ctx"
  have "ft_error f = None" using classified_error [of rt clock e ctx] True unfolding f_def by force
  moreover have "ft_intent f = fx_intent ctx" by (simp add: f_def classifyFault_def Let_def split_beta)
  ultimately have path: "rollback_path f = fx_intent ctx" by (simp add: rollback_path_def or_text_def falsy_def)
  have strategy: "fa_strategy (selectFixStrategy f) = ROLLBACK_FILE" using True strategy_by_source(1) f_def by blast
  have "snd (perform_fix x f ROLLBACK_FILE w) = (if fx_intent ctx = [] then w else snd (rollbackFile (xc_git x) (fx_intent ctx) (xc_cwd x) w))"
    by (simp add: perform_fix_def path split_beta)
  then show ?thesis
    using True strategy by (simp add: cycle_fields f_def [symmetric] rollback_world git_command_def)
next
  case False
  then have "fa_strategy (selectFixStrategy (classifyFault rt clock e ctx)) \<noteq> ROLLBACK_FILE" using strategy_by_source(1) by blast
  then show ?thesis using False strategy_by_source(2) by (simp add: cycle_fields perform_quiet)
qed

text \<open>
  C22. Apart from the receipt that every cycle sends to arifFLOW after it has ended (\<^term>\<open>fc_notice\<close>; not an effect on
  the world of the executor), a cycle touches the world only for a fault that is classified as a collision, and then by one
  command of the shell: the rollback of what the text of the intent names, put into the command as it is. The path of the
  error and the file that was being written play no part. The rollback is declared irreversible and is not held, against
  the F1 line of the file's header; in every other case the strategy neither rolls back nor restarts a service.
\<close>

theorem fault_cycle_effects:
  "let (c, w') = runFaultFixCycle rt clock started x e ctx w;
       collision = (ft_source (fc_fault c) = CollisionFault) in
   fc_fault c = classifyFault rt clock e ctx \<and>
   w' = (if collision \<and> fx_intent ctx \<noteq> []
         then snd (xc_git x (''git checkout HEAD -- '' @ fx_intent ctx) (xc_cwd x) w) else w) \<and>
   (if collision then \<not> fa_reversible (fc_fix c) \<and> \<not> fa_needs_hold (fc_fix c) \<and> \<not> fn_consequential (fc_notice c)
    else fa_strategy (fc_fix c) \<notin> {ROLLBACK_FILE, RESTART_SERVICE})"
proof -
  define f where "f = classifyFault rt clock e ctx"
  obtain c w' where c: "runFaultFixCycle rt clock started x e ctx w = (c, w')" by fastforce
  have fields: "fc_fault c = f" "fc_fix c = selectFixStrategy f" "fn_consequential (fc_notice c) = fa_needs_hold (fc_fix c)"
    using c by (auto simp: f_def runFaultFixCycle_def Let_def split: prod.splits)
  have w: "w' = (if ft_source f = CollisionFault \<and> fx_intent ctx \<noteq> []
      then snd (xc_git x (''git checkout HEAD -- '' @ fx_intent ctx) (xc_cwd x) w) else w)"
    using cycle_world [of rt clock started x e ctx w] by (simp add: c f_def)
  show ?thesis unfolding c Let_def prod.case
    using fields w collision_fix [of f] strategy_by_source [of f] by (auto simp: f_def [symmetric])
qed

text \<open>
  Whatever is thrown, a gap of the world model that raises an alarm decides alone: the cycle watches, reports the
  fault as fixed and tells arifFLOW SEAL, even when a collision, a locked path or a denial was thrown.
\<close>

theorem gap_hides_fault:
  assumes "gap_alarmed ctx"
  shows "let c = fst (runFaultFixCycle rt clock started x e ctx w) in
    ft_source (fc_fault c) = WmGapFault \<and> fr_verdict (fc_result c) = FIXED \<and> fn_seal (fc_notice c)
    \<and> snd (runFaultFixCycle rt clock started x e ctx w) = w"
  using assms
  by (simp add: runFaultFixCycle_def executeFix_def classifyFault_def selectFixStrategy_def perform_fix_def fix_by_def Let_def split_beta)

text \<open>
  A refusal of a floor or of an authority is taken for a locked path as soon as a target is named, also one that no lock
  covers: it is held for the sovereign for a day.
\<close>

theorem refusal_reads_as_locked:
  assumes "\<not> gap_alarmed ctx" "fx_target_path ctx = Some p" "p \<noteq> []"
    and "tf_error_class f = Some ''FLOOR_BLOCK''" "\<not> tf_has_collision f"
  shows "ft_source (classifyFault rt clock (ThrownObject t f) ctx) = GodelLockFault
    \<and> fa_strategy (selectFixStrategy (classifyFault rt clock (ThrownObject t f) ctx)) = HOLD_888"
  using assms
  by (simp add: classifyFault_def thrown_source_def object_source_def selectFixStrategy_def fix_by_def falsy_def Let_def split_beta)

definition echo_runtime :: runtime where
  "echo_runtime = \<lparr> sha256 = (\<lambda>t. t), number_text = (\<lambda>q. []), get_time = (\<lambda>t. 0) \<rparr>"

definition plain_fields :: "string option \<Rightarrow> thrown_fields" where
  "plain_fields c = \<lparr> tf_error_class = c, tf_has_collision = False, tf_judge_decision = None, tf_gate = None,
     tf_structuredContent = None, tf_self = \<lparr> fe_recoverability = None, fe_message = None, fe_next_action = None \<rparr> \<rparr>"

definition some_context :: "rat option \<Rightarrow> string \<Rightarrow> fault_context" where
  "some_context gap path = \<lparr> fx_attempted_tool = ''forge_git'', fx_intent = ''fix'', fx_target_path = Some path,
     fx_gap_score = gap, fx_confidence = Some 1 \<rparr>"

theorem refusal_reads_as_locked_witness:
  "isGodelLocked initial_locks ''/tmp/x'' = GodelAllowed
   \<and> ft_source (classifyFault echo_runtime ([], [])
         (ThrownObject [] (plain_fields (Some ''FLOOR_BLOCK''))) (some_context None ''/tmp/x'')) = GodelLockFault"
proof -
  have "isGodelLocked initial_locks ''/tmp/x'' = GodelAllowed" by code_simp
  then show ?thesis
    using refusal_reads_as_locked [of "some_context None ''/tmp/x''" "''/tmp/x''" "plain_fields (Some ''FLOOR_BLOCK'')"]
    by (simp add: some_context_def gap_alarmed_def plain_fields_def)
qed

lemma sure_gap: "gap_alarmed (some_context (Some 1) p)"
proof -
  have "dbl (8 / 10) < 1" "dbl (4 / 10) < 1" "dbl (7 / 10) < 1"
    by (code_simp, code_simp, code_simp)
  then show ?thesis
    by (simp add: gap_alarmed_def some_context_def checkGapAlert_def HIGH_CONFIDENCE_THRESHOLD_def HIGH_GAP_THRESHOLD_def)
qed

definition idle_executor :: "nat executor" where
  "idle_executor = \<lparr> xc_git = (\<lambda>c d w. (Inr [], w + 1)), xc_shell = (\<lambda>c d w. (Inr (Some 0), w + 1)), xc_cwd = [] \<rparr>"

theorem gap_hides_fault_witness:
  "fn_seal (fc_notice (fst (runFaultFixCycle echo_runtime ([], []) [] idle_executor
     (ThrownObject [] (plain_fields (Some ''COLLISION''))) (some_context (Some 1) gate_path) 0)))"
  using gap_hides_fault [OF sure_gap [of gate_path], where rt = echo_runtime and clock = "([], [])" and started = "[]"
      and x = idle_executor and e = "ThrownObject [] (plain_fields (Some ''COLLISION''))" and w = 0]
  unfolding Let_def by (elim conjE)

end
