(* ===== verification/Spec2Isabelle.thy ===== *)
theory Spec2Isabelle
  imports Canonical_Json Hash_Chain Epoch Dag Composition Plan_Validator Governance_Card Act_Patterns
    Lifecycle Action_Classifier Amanah_Envelope Halt_Channel Floors Session_Gate Well_Readiness Memory_Gate Memory_Contract Act_Token Policy_Gate
    Cooling_Gate Amanah_Lock Capability_Lease Lease_Gate Agent_Safety Merkle Workflow_Template Workflow Trust_Score Trust_Registry
    Auth_Pipeline Secret_Policy Git_Guard Godel_Lock Error_Class Fault_Fix
begin

text \<open>
  A-FORGE: the governance core of an agent runtime.

  The program. A-FORGE executes what agents ask for, under rules ("floors") that protect the decisions of its sovereign. A
  request enters through an MCP or HTTP surface, is bound to a session and an actor, is classified by the harm it can do,
  passes the floors, the policy gate, the lease gate and the readiness gate, and only then reaches a tool. The agent engine
  runs a model in a loop under a token budget; the composition engine runs a graph of steps; an epoch records a mission as
  a chain of hashed events; receipts, seals and Merkle roots make the past tamper-evident. The model covers this core, the
  code in TypeScript under \<^verbatim>\<open>src/src/domain\<close>, with the parts of \<^verbatim>\<open>src/src/infrastructure\<close> and \<^verbatim>\<open>src/src/interfaces\<close> that
  decide something. All paths below are relative to \<^verbatim>\<open>src/src\<close>.

  How the code is translated. An interface or class is a record, a union of literals a datatype, a Map an association list
  that keeps the order of insertion (\<open>jsmap\<close> in \<open>Prelude\<close>), an array a list. A method of an object takes the state and
  returns it with its result; what throws returns a sum with the error on the left; a promise that is rejected is an error or
  None. Numbers are integers where the code counts, and rationals rounded to 53 bits after every operation where it computes
  with fractions (\<open>Double_Arith\<close>); 32-bit arithmetic is on words. Regular expressions are terms of an executable matcher
  (\<open>Text_Match\<close>) and are written out as the code has them.

  What is an argument. Code outside the repository and what the environment decides are arguments of the definitions that
  use them, and the theorems hold for all of them: SHA-256, HMAC and the text of a number (the record \<open>runtime\<close> in
  \<open>Canonical_Json\<close>), the clock, fresh identifiers, whether a file can be read, whether a write to a file or a table succeeds and
  what a failed one leaves, the replies of the kernel (in an outage there is none) and of other services, the model and the tools of an agent run with the world they act on, the YAML parser and the zod
  schemas, what JSON.parse makes of a stored line, the rounding of a REAL column. Where a property needs a law of such an
  argument it is a premise of the property (collision freedom is only ever named as an alternative, or as the distinctness
  of the hashes that occur), and the witness instantiates it.

  The theories.
    \<open>Prelude\<close>, \<open>Text_Match\<close>, \<open>Double_Arith\<close>: maps, sums, invariants of step relations (locale \<open>kept_invariant\<close> and its
    extensions), strings and regular expressions, binary64 numbers.
    \<open>Canonical_Json\<close>, \<open>Hash_Chain\<close>, \<open>Epoch\<close>: \<^verbatim>\<open>domain/governance/epochEngine.ts\<close>. Equal digests name equal values;
    a hash chain is tamper-evident (a locale, interpreted on event logs and receipts); the state machine of a mission, its
    gates, and replay, which rebuilds the live state from the log.
    \<open>Dag\<close>, \<open>Composition\<close>: \<^verbatim>\<open>domain/composition\<close>. Kahn's layering and the cycle report with fuel length ns (each round removes a
    node, each extension of a path visits a new one); the engine is a step relation over groups, races and retries, with a
    measure that decreases; dependencies complete before a step runs.
    \<open>Plan_Validator\<close>, \<open>Governance_Card\<close>, \<open>Act_Patterns\<close>: plans are accepted exactly when they are rooted, acyclic and within
    the limits (fuel: number of nodes plus one for the depth, number of edges plus one for the breadth first search, both
    proved enough); model cards; execution ceremonies.
    \<open>Lifecycle\<close>, \<open>Action_Classifier\<close>: the stages of the vertical agent and the classes of actions.
    \<open>Amanah_Envelope\<close>, \<open>Halt_Channel\<close>, \<open>Amanah_Lock\<close>, \<open>Cooling_Gate\<close>: signed envelopes with a nonce store that refines a log
    that never forgets; the halt channel of the sovereign; the mutex on table and file; the cooldown of artifacts.
    \<open>Floor_Request\<close>, \<open>Floor_Injection\<close>, \<open>Floor_Empathy\<close>, \<open>Floors\<close>: the thirteen floors over one request and their verdict.
    \<open>Session_Gate\<close>, \<open>Well_Readiness\<close>, \<open>Memory_Gate\<close>, \<open>Memory_Contract\<close>: sessions, operator readiness, the gate of the memory
    operations with its receipts, and the tiered memory itself, whose file is its lines and whether the last one is unfinished.
    \<open>Act_Token\<close>, \<open>Policy_Gate\<close>: capability tokens and the gate between agents and MCP tools
    (\<^verbatim>\<open>domain/governance/McpPolicyGate.ts\<close>).
    \<open>Capability_Lease\<close>, \<open>Lease_Gate\<close>: permits of ephemeral tools and the leases a call of a class other than OBSERVE needs
    (\<^verbatim>\<open>interfaces/mcp/forgeTools.ts\<close>), with the leases the gateway registers itself (\<^verbatim>\<open>interfaces/mcp/core.ts\<close>) in an outage.
    \<open>Engine_Floors\<close>, \<open>Thermo_Cost\<close>, \<open>Tool_Runtime\<close>, \<open>Budget\<close>, \<open>Short_Memory\<close>, \<open>Intent_Router\<close>, \<open>Engine_Seal\<close>, \<open>Engine_Calls\<close>,
    \<open>Agent_Engine\<close>, \<open>Agent_Loop\<close>, \<open>Agent_Run\<close>, \<open>Agent_Safety\<close>: a run of the agent engine (\<^verbatim>\<open>domain/engine/AgentEngine.ts\<close>)
    with the parts it calls, from admission to the report; the loop recurses over the turns that are left.
    \<open>Merkle\<close>: \<^verbatim>\<open>infrastructure/vault/MerkleV3Service.ts\<close> and \<^verbatim>\<open>domain/governance/MerkleReceiptAnchor.ts\<close>. A level of the tree
    halves, so the tree is finite; equal roots bind the hashed texts of the rows.
    \<open>Workflow_Template\<close>, \<open>Workflow\<close>: \<^verbatim>\<open>domain/forge/workflow\<close>: front matter, validation, the content hash on 32-bit words, and
    the renderer, equal to the tree a template denotes.
    \<open>Trust_Score\<close>, \<open>Trust_Registry\<close>: \<^verbatim>\<open>domain/trust\<close>: the score of an external server and its gate in binary64 arithmetic, the
    table of scores and its hash-chained history.
    \<open>Auth_Pipeline\<close>: \<^verbatim>\<open>domain/auth_protocol\<close>: the eleven steps of a task contract; when it is completed, what a stopped run leaves.
    \<open>Secret_Policy\<close>: \<^verbatim>\<open>infrastructure/secrets\<close>: the brokers of secrets (interpretations of the locale \<open>secret_broker\<close>) and the
    policy in front of them.
    \<open>Error_Class\<close>, \<open>Godel_Lock\<close>, \<open>Git_Guard\<close>, \<open>Fault_Fix\<close>: \<^verbatim>\<open>domain/governance/error-classifier.ts\<close>,
    \<^verbatim>\<open>interfaces/mcp/shell/godelLock.ts\<close>, \<^verbatim>\<open>domain/governance/GitDiffGuard.ts\<close> and \<^verbatim>\<open>domain/governance/faultFixFlow.ts\<close>: the
    classes of errors, the locks of the constitutional code, git through a shell, and the cycle from a fault to its fix, over
    an abstract world.

  What the lemmas show. Every stateful component has a step relation, an invariant of its reachable states and an
  interpretation of a locale of \<open>Prelude\<close> that carries it along any sequence of calls. Gates are characterised by the exact
  condition under which they let a call pass; safety properties then say what no sequence of calls can do. Loops return:
  matchers and redaction have fuel one more than the text is long, searches as above, the engine a measure. Several theorems
  state a behaviour of the code that its documents deny; they are listed among the findings of the manifest.

  Not modelled. The MCP, HTTP and command line servers, the proxy and shell tools and the model providers are transport and
  calls of other programs. The database, Redis and Supabase clients are I/O, apart from the Merkle service. Ephemeral genesis
  and the sandboxes start processes and containers. The pipeline coordinator orders HTTP calls to other services. The world
  model, the reality loop and cognition are statistics in floating point over logs and embeddings. The condition of a
  composition step is JavaScript source run by the Function constructor. Texts of reasons are left out where no decision
  reads them. The Python and shell code is another program.
\<close>

end
